(* ===== verification/Prelude.thy ===== *)
theory Prelude
  imports Main "HOL-Library.Sublist" "HOL-Library.Char_ord" "HOL-Library.List_Lexorder"
begin

text \<open>
  Shared vocabulary of the development: Go byte strings and the functions of package
  \<open>strings\<close> the sources call, decimal and hexadecimal printing, the error taxonomy of
  \<open>internal/apperr\<close>, invariants of transition systems and the bounded purge loops.

  A Go string is a sequence of bytes; it is a HOL \<open>string\<close> (a list of 8-bit characters).
  \<open>strings.TrimSpace\<close> is modelled on all byte strings (every Unicode white space
  encoding is listed). Case mapping is modelled on the ASCII range: bytes from 128 up are
  left as they are, so statements about case folding read as statements about ASCII text.
\<close>

named_theorems go_simps \<open>rewrite rules for the Go string functions\<close>
named_theorems inv_intros \<open>preservation lemmas of component invariants\<close>

section \<open>Go strings\<close>

definition str_contains :: "string \<Rightarrow> string \<Rightarrow> bool" where
  "str_contains s sub = list_ex (\<lambda>t. prefix sub t) (suffixes s)"

definition has_prefix :: "string \<Rightarrow> string \<Rightarrow> bool" where
  "has_prefix s p = prefix p s"

definition has_suffix :: "string \<Rightarrow> string \<Rightarrow> bool" where
  "has_suffix s p = prefix (rev p) (rev s)"

definition trim_prefix :: "string \<Rightarrow> string \<Rightarrow> string" where
  "trim_prefix s p = (if has_prefix s p then drop (length p) s else s)"

definition trim_suffix :: "string \<Rightarrow> string \<Rightarrow> string" where
  "trim_suffix s p = (if has_suffix s p then take (length s - length p) s else s)"

definition contains_any :: "string \<Rightarrow> string \<Rightarrow> bool" where
  "contains_any s cs = list_ex (\<lambda>c. c \<in> set cs) s"

text \<open>\<open>strings.Split(s, sep)\<close> for a one-byte separator, and \<open>strings.Join\<close>.\<close>

fun split_on :: "char \<Rightarrow> string \<Rightarrow> string list" where
  "split_on c [] = [[]]"
| "split_on c (x # xs) =
     (if x = c then [] # split_on c xs
      else (case split_on c xs of [] \<Rightarrow> [[x]] | w # ws \<Rightarrow> (x # w) # ws))"

fun join :: "string \<Rightarrow> string list \<Rightarrow> string" where
  "join sep [] = []"
| "join sep [w] = w"
| "join sep (w # ws) = w @ sep @ join sep ws"

text \<open>The part of \<open>s\<close> before the first occurrence of the byte \<open>c\<close> (the whole string if none).\<close>

definition before_char :: "char \<Rightarrow> string \<Rightarrow> string" where
  "before_char c s = takeWhile (\<lambda>x. x \<noteq> c) s"

text \<open>\<open>strings.TrimSpace\<close>: the UTF-8 encodings of the runes of \<open>unicode.IsSpace\<close>.\<close>

definition go_spaces :: "string list" where
  "go_spaces = [[CHR 0x09], [CHR 0x0A], [CHR 0x0B], [CHR 0x0C], [CHR 0x0D], [CHR 0x20],
     [CHR 0xC2, CHR 0x85], [CHR 0xC2, CHR 0xA0], [CHR 0xE1, CHR 0x9A, CHR 0x80],
     [CHR 0xE2, CHR 0x80, CHR 0x80], [CHR 0xE2, CHR 0x80, CHR 0x81], [CHR 0xE2, CHR 0x80, CHR 0x82],
     [CHR 0xE2, CHR 0x80, CHR 0x83], [CHR 0xE2, CHR 0x80, CHR 0x84], [CHR 0xE2, CHR 0x80, CHR 0x85],
     [CHR 0xE2, CHR 0x80, CHR 0x86], [CHR 0xE2, CHR 0x80, CHR 0x87], [CHR 0xE2, CHR 0x80, CHR 0x88],
     [CHR 0xE2, CHR 0x80, CHR 0x89], [CHR 0xE2, CHR 0x80, CHR 0x8A], [CHR 0xE2, CHR 0x80, CHR 0xA8],
     [CHR 0xE2, CHR 0x80, CHR 0xA9], [CHR 0xE2, CHR 0x80, CHR 0xAF], [CHR 0xE2, CHR 0x81, CHR 0x9F],
     [CHR 0xE3, CHR 0x80, CHR 0x80]]"

function strip_words :: "string list \<Rightarrow> string \<Rightarrow> string" where
  "strip_words ws s =
     (case find (\<lambda>w. w \<noteq> [] \<and> prefix w s) ws of
        None \<Rightarrow> s
      | Some w \<Rightarrow> strip_words ws (drop (length w) s))"
  by pat_completeness auto
termination
  by (relation "measure (\<lambda>(ws, s). length s)")
     (auto simp: find_Some_iff prefix_def)

declare strip_words.simps [simp del]

definition trim_left :: "string \<Rightarrow> string" where
  "trim_left s = strip_words go_spaces s"

definition trim_right :: "string \<Rightarrow> string" where
  "trim_right s = rev (strip_words (map rev go_spaces) (rev s))"

definition trim_space :: "string \<Rightarrow> string" where
  "trim_space s = trim_right (trim_left s)"

definition lower_char :: "char \<Rightarrow> char" where
  "lower_char c = (let n = (of_char c :: nat) in if 65 \<le> n \<and> n \<le> 90 then char_of (n + 32) else c)"

definition upper_char :: "char \<Rightarrow> char" where
  "upper_char c = (let n = (of_char c :: nat) in if 97 \<le> n \<and> n \<le> 122 then char_of (n - 32) else c)"

definition to_lower :: "string \<Rightarrow> string" where
  "to_lower s = map lower_char s"

definition to_upper :: "string \<Rightarrow> string" where
  "to_upper s = map upper_char s"

definition equal_fold :: "string \<Rightarrow> string \<Rightarrow> bool" where
  "equal_fold a b = (to_lower a = to_lower b)"

definition replace_char :: "char \<Rightarrow> char \<Rightarrow> string \<Rightarrow> string" where
  "replace_char a b s = map (\<lambda>c. if c = a then b else c) s"

section \<open>Printing numbers and bytes\<close>

definition digit_char :: "nat \<Rightarrow> char" where
  "digit_char n = char_of (48 + n)"

fun show_nat :: "nat \<Rightarrow> string" where
  "show_nat n = (if n < 10 then [digit_char n] else show_nat (n div 10) @ [digit_char (n mod 10)])"

declare show_nat.simps [simp del]

definition show_int :: "int \<Rightarrow> string" where
  "show_int i = (if i < 0 then CHR ''-'' # show_nat (nat (- i)) else show_nat (nat i))"

definition hex_digit :: "nat \<Rightarrow> char" where
  "hex_digit n = (if n < 10 then char_of (48 + n) else char_of (87 + n))"

definition hex_byte :: "char \<Rightarrow> string" where
  "hex_byte c = (let n = (of_char c :: nat) in [hex_digit (n div 16), hex_digit (n mod 16)])"

text \<open>\<open>hex.EncodeToString\<close>.\<close>

definition hex_encode :: "string \<Rightarrow> string" where
  "hex_encode s = concat (map hex_byte s)"

text \<open>Lower-case hexadecimal digits.\<close>

definition is_hex_char :: "char \<Rightarrow> bool" where
  "is_hex_char c = (let n = (of_char c :: nat) in (48 \<le> n \<and> n \<le> 57) \<or> (97 \<le> n \<and> n \<le> 102))"

text \<open>\<open>url.PathEscape\<close>: percent-encoding of one path segment.\<close>

definition path_keep :: "char \<Rightarrow> bool" where
  "path_keep c = (let n = (of_char c :: nat) in
     (48 \<le> n \<and> n \<le> 57) \<or> (65 \<le> n \<and> n \<le> 90) \<or> (97 \<le> n \<and> n \<le> 122) \<or> c \<in> set ''-_.~$&+:=@'')"

definition upper_hex_digit :: "nat \<Rightarrow> char" where
  "upper_hex_digit n = (if n < 10 then char_of (48 + n) else char_of (55 + n))"

definition path_escape_char :: "char \<Rightarrow> string" where
  "path_escape_char c =
     (if path_keep c then [c]
      else [CHR ''%'', upper_hex_digit (of_char c div 16), upper_hex_digit (of_char c mod 16)])"

definition path_escape :: "string \<Rightarrow> string" where
  "path_escape s = concat (map path_escape_char s)"

section \<open>Facts about the string functions\<close>

lemma has_prefix_code [go_simps]:
  "has_prefix s [] = True"
  "has_prefix [] (p # ps) = False"
  "has_prefix (x # xs) (p # ps) = (p = x \<and> has_prefix xs ps)"
  by (simp_all add: has_prefix_def)

lemma has_suffix_iff: "has_suffix s p \<longleftrightarrow> (\<exists>t. s = t @ p)"
  by (auto simp: has_suffix_def prefix_def) (metis rev_append rev_rev_ident)

lemma str_contains_iff: "str_contains s sub \<longleftrightarrow> (\<exists>a b. s = a @ sub @ b)"
proof
  assume "str_contains s sub"
  then show "\<exists>a b. s = a @ sub @ b"
  proof -
    from \<open>str_contains s sub\<close> obtain t where "suffix t s" and "prefix sub t"
      by (auto simp: str_contains_def list_ex_iff)
    then obtain a b where "s = a @ t" and "t = sub @ b" by (auto simp: suffix_def prefix_def)
    then show ?thesis by blast
  qed
next
  assume "\<exists>a b. s = a @ sub @ b"
  then obtain a b where s: "s = a @ sub @ b" by blast
  then have "suffix (sub @ b) s" and "prefix sub (sub @ b)" by (simp_all add: suffix_def)
  then show "str_contains s sub"
    unfolding str_contains_def list_ex_iff by (metis in_set_suffixes)
qed

lemma has_suffix_contains: "has_suffix s p \<Longrightarrow> str_contains s p"
  unfolding has_suffix_iff str_contains_iff by (metis append_Nil2)

lemma contains_any_iff: "contains_any s cs \<longleftrightarrow> (\<exists>c \<in> set s. c \<in> set cs)"
  by (auto simp: contains_any_def list_ex_iff)

lemma before_char_notin: "c \<notin> set (before_char c s)"
  by (auto simp: before_char_def dest: set_takeWhileD)

lemma split_on_not_Nil [simp]: "split_on c s \<noteq> []"
  by (induction s) (auto split: list.splits)

lemma split_on_notin: "w \<in> set (split_on c s) \<Longrightarrow> c \<notin> set w"
  by (induction s arbitrary: w) (auto split: list.splits if_splits)

lemma split_on_subset: "w \<in> set (split_on c s) \<Longrightarrow> set w \<subseteq> set s"
  by (induction s arbitrary: w) (fastforce split: list.splits if_splits)+

lemma join_Cons: "join sep (w # ws) = (if ws = [] then w else w @ sep @ join sep ws)"
  by (cases ws) auto

lemma join_split_on: "join [c] (split_on c s) = s"
proof (induction s)
  case (Cons x xs)
  then show ?case by (cases "split_on c xs") (auto simp: join_Cons split: if_splits)
qed simp

lemma split_on_append:
  "c \<notin> set w \<Longrightarrow> split_on c (w @ c # s) = w # split_on c s"
  by (induction w) auto

lemma split_on_id: "c \<notin> set w \<Longrightarrow> split_on c w = [w]"
  by (induction w) auto

lemma split_on_join:
  "ws \<noteq> [] \<Longrightarrow> (\<And>w. w \<in> set ws \<Longrightarrow> c \<notin> set w) \<Longrightarrow> split_on c (join [c] ws) = ws"
proof (induction "[c]" ws rule: join.induct)
  case (2 w)
  then show ?case by (simp add: split_on_id)
next
  case (3 w v va)
  then show ?case by (simp add: split_on_append)
qed simp

lemma split_on_app: "split_on c (b @ c # r) = split_on c b @ split_on c r"
  by (induction b) (auto split: list.splits)

lemma join_append:
  "ws \<noteq> [] \<Longrightarrow> us \<noteq> [] \<Longrightarrow> join sep (ws @ us) = join sep ws @ sep @ join sep us"
  by (induction ws) (auto simp: join_Cons)

text \<open>A byte that does not occur before it marks where a text ends.\<close>

lemma char_sep:
  "c \<notin> set u \<Longrightarrow> c \<notin> set v \<Longrightarrow> u @ c # r = v @ c # r' \<Longrightarrow> u = v \<and> r = r'"
proof (induction u arbitrary: v)
  case Nil
  then show ?case by (cases v) auto
next
  case (Cons x u)
  then show ?case by (cases v) auto
qed

text \<open>The pieces of one string are a prefix of the pieces of another exactly at a separator.\<close>

lemma prefix_split_on_iff:
  "prefix (split_on c b) (split_on c j) \<longleftrightarrow> j = b \<or> prefix (b @ [c]) j"
proof
  assume "prefix (split_on c b) (split_on c j)"
  then obtain us where us: "split_on c j = split_on c b @ us" by (auto simp: prefix_def)
  have "j = join [c] (split_on c b @ us)" by (metis us join_split_on)
  then show "j = b \<or> prefix (b @ [c]) j"
    by (cases "us = []") (auto simp: join_append join_split_on prefix_def)
next
  assume "j = b \<or> prefix (b @ [c]) j"
  then show "prefix (split_on c b) (split_on c j)"
    by (auto simp: prefix_def split_on_app)
qed

subsection \<open>Percent-encoding\<close>

lemma upper_hex_digit_facts:
  assumes "n < 16"
  shows "upper_hex_digit n \<noteq> CHR ''/''"
    and "m < 16 \<Longrightarrow> upper_hex_digit m = upper_hex_digit n \<Longrightarrow> m = n"
proof -
  have code: "(of_char (upper_hex_digit k) :: nat) = (if k < 10 then 48 + k else 55 + k)" if "k < 16" for k
    using that by (simp add: upper_hex_digit_def)
  show "upper_hex_digit n \<noteq> CHR ''/''"
  proof
    assume "upper_hex_digit n = CHR ''/''"
    then have "(of_char (upper_hex_digit n) :: nat) = 47" by simp
    with code [OF assms] show False by (simp split: if_splits)
  qed
  show "m = n" if "m < 16" "upper_hex_digit m = upper_hex_digit n"
    using code [OF assms] code [OF that(1)] that(2) by (simp split: if_splits)
qed

lemma of_char_nibbles: "(of_char (c :: char) :: nat) div 16 < 16" "(of_char c :: nat) mod 16 < 16"
proof -
  have "(of_char c :: nat) < 256" by simp
  then show "(of_char c :: nat) div 16 < 16" by linarith
qed simp

lemma path_escape_no_slash: "CHR ''/'' \<notin> set (path_escape s)"
proof -
  have "CHR ''/'' \<notin> set (path_escape_char c)" for c
    using upper_hex_digit_facts(1) [OF of_char_nibbles(1) [of c]] upper_hex_digit_facts(1) [OF of_char_nibbles(2) [of c]]
    by (auto simp: path_escape_char_def path_keep_def Let_def split: if_splits)
  then show ?thesis by (auto simp: path_escape_def)
qed

lemma path_escape_inj: "path_escape s = path_escape t \<Longrightarrow> s = t"
proof (induction s arbitrary: t)
  case Nil
  then show ?case by (cases t) (auto simp: path_escape_def path_escape_char_def split: if_splits)
next
  case (Cons x s)
  then obtain y u where t: "t = y # u"
    by (cases t) (auto simp: path_escape_def path_escape_char_def split: if_splits)
  have "x = y \<and> path_escape s = path_escape u"
  proof (cases "path_keep x"; cases "path_keep y")
    assume "\<not> path_keep x" "\<not> path_keep y"
    with Cons.prems have eq: "upper_hex_digit (of_char x div 16) = upper_hex_digit (of_char y div 16)"
        "upper_hex_digit (of_char x mod 16) = upper_hex_digit (of_char y mod 16)"
      and rest: "path_escape s = path_escape u"
      by (auto simp: t path_escape_def path_escape_char_def)
    have "(of_char x :: nat) div 16 = of_char y div 16" "(of_char x :: nat) mod 16 = of_char y mod 16"
      using upper_hex_digit_facts(2) of_char_nibbles eq by blast+
    then have "(of_char x :: nat) = of_char y" by (metis mult_div_mod_eq)
    with rest show ?thesis by simp
  qed (use Cons.prems in \<open>auto simp: t path_escape_def path_escape_char_def path_keep_def\<close>)
  with Cons.IH t show ?case by simp
qed

subsection \<open>Trimming\<close>

lemma strip_words_suffix: "\<exists>t. s = t @ strip_words ws s"
proof (induction ws s rule: strip_words.induct)
  case (1 ws s)
  show ?case
  proof (cases "find (\<lambda>w. w \<noteq> [] \<and> prefix w s) ws")
    case None
    then show ?thesis by (simp add: strip_words.simps [of ws s])
  next
    case (Some w)
    then have "prefix w s" by (auto simp: find_Some_iff)
    then have "s = w @ drop (length w) s" by (auto simp: prefix_def)
    moreover obtain t where "drop (length w) s = t @ strip_words ws (drop (length w) s)"
      using "1.IH" [OF Some] by blast
    ultimately have "s = (w @ t) @ strip_words ws s"
      using Some by (simp add: strip_words.simps [of ws s])
    then show ?thesis by blast
  qed
qed

lemma strip_words_none:
  "find (\<lambda>w. w \<noteq> [] \<and> prefix w (strip_words ws s)) ws = None"
proof (induction ws s rule: strip_words.induct)
  case (1 ws s)
  then show ?case
    by (cases "find (\<lambda>w. w \<noteq> [] \<and> prefix w s) ws") (simp_all add: strip_words.simps [of ws s])
qed

lemma strip_words_fix:
  "find (\<lambda>w. w \<noteq> [] \<and> prefix w s) ws = None \<Longrightarrow> strip_words ws s = s"
  by (simp add: strip_words.simps [of ws s])

lemma trim_left_suffix: "\<exists>t. s = t @ trim_left s"
  by (simp add: trim_left_def strip_words_suffix)

lemma trim_right_prefix: "prefix (trim_right s) s"
proof -
  obtain t where "rev s = t @ strip_words (map rev go_spaces) (rev s)"
    using strip_words_suffix by blast
  then have "s = trim_right s @ rev t"
    unfolding trim_right_def by (metis rev_append rev_rev_ident)
  then show ?thesis by (auto simp: prefix_def)
qed

lemma trim_left_fix_prefix: "trim_left s = s \<Longrightarrow> prefix u s \<Longrightarrow> trim_left u = u"
proof -
  assume fix_s: "trim_left s = s" and pre: "prefix u s"
  have "find (\<lambda>w. w \<noteq> [] \<and> prefix w s) go_spaces = None"
    using strip_words_none [of go_spaces s] fix_s by (simp add: trim_left_def)
  then have "find (\<lambda>w. w \<noteq> [] \<and> prefix w u) go_spaces = None"
    using pre by (auto simp: find_None_iff dest: prefix_order.trans)
  then show ?thesis by (simp add: trim_left_def strip_words_fix)
qed

lemma trim_left_idem [simp]: "trim_left (trim_left s) = trim_left s"
  unfolding trim_left_def by (rule strip_words_fix, rule strip_words_none)

lemma trim_right_idem [simp]: "trim_right (trim_right s) = trim_right s"
  unfolding trim_right_def by (simp add: strip_words_fix strip_words_none)

lemma trim_left_trim_space [simp]: "trim_left (trim_space s) = trim_space s"
  unfolding trim_space_def
  by (rule trim_left_fix_prefix [of "trim_left s"]) (simp_all add: trim_right_prefix)

lemma trim_space_idem [simp]: "trim_space (trim_space s) = trim_space s"
  unfolding trim_space_def [of "trim_space s"] by simp (simp add: trim_space_def)

lemma trim_space_subset: "set (trim_space s) \<subseteq> set s"
proof -
  have "set (trim_right (trim_left s)) \<subseteq> set (trim_left s)"
    by (rule set_mono_prefix [OF trim_right_prefix])
  moreover have "set (trim_left s) \<subseteq> set s"
    using trim_left_suffix [of s] by (metis set_append Un_upper2)
  ultimately show ?thesis by (auto simp: trim_space_def)
qed

lemma length_trim_space: "length (trim_space s) \<le> length s"
proof -
  have "length (trim_right (trim_left s)) \<le> length (trim_left s)"
    by (rule prefix_length_le [OF trim_right_prefix])
  moreover have "length (trim_left s) \<le> length s"
    using trim_left_suffix [of s] by (metis length_append le_add2)
  ultimately show ?thesis by (simp add: trim_space_def)
qed

lemma trim_space_Nil [simp]: "trim_space [] = []"
  using length_trim_space [of "[]"] by simp

lemma trim_spaces_eval:
  "trim_left s = (if list_ex (\<lambda>w. prefix w s) go_spaces then trim_left s else s)"
  by (auto simp: trim_left_def list_ex_iff find_None_iff intro!: strip_words_fix)

subsection \<open>Printed numbers\<close>

lemma show_nat_digits: "c \<in> set (show_nat n) \<Longrightarrow> \<exists>d < 10. c = digit_char d"
proof (induction n rule: show_nat.induct)
  case (1 n)
  show ?case
  proof (cases "n < 10")
    case True
    with "1.prems" show ?thesis by (auto simp: show_nat.simps [of n])
  next
    case False
    with "1.prems" consider "c \<in> set (show_nat (n div 10))" | "c = digit_char (n mod 10)"
      by (auto simp: show_nat.simps [of n])
    then show ?thesis
    proof cases
      case 1
      with False "1.IH" show ?thesis by blast
    next
      case 2
      then show ?thesis by (intro exI [of _ "n mod 10"]) simp
    qed
  qed
qed

lemma of_digit_char: "d < 10 \<Longrightarrow> (of_char (digit_char d) :: nat) = 48 + d"
  by (simp add: digit_char_def)

lemma digit_char_inj: "digit_char a = digit_char b \<Longrightarrow> a < 10 \<Longrightarrow> b < 10 \<Longrightarrow> a = b"
  by (metis of_digit_char add_left_cancel)

lemma show_nat_not_Nil [simp]: "show_nat n \<noteq> []" "[] \<noteq> show_nat n"
  by (simp_all add: show_nat.simps [of n])

lemma show_nat_inj: "show_nat m = show_nat n \<Longrightarrow> m = n"
proof (induction m arbitrary: n rule: show_nat.induct)
  case (1 m)
  show ?case
  proof (cases "m < 10"; cases "n < 10")
    assume "m < 10" "n < 10"
    with "1.prems" show ?thesis
      by (auto simp: show_nat.simps [of m] show_nat.simps [of n] dest: digit_char_inj)
  next
    assume "\<not> m < 10" "\<not> n < 10"
    with "1.prems" have "show_nat (m div 10) = show_nat (n div 10)"
      and "digit_char (m mod 10) = digit_char (n mod 10)"
      by (auto simp: show_nat.simps [of m] show_nat.simps [of n])
    with \<open>\<not> m < 10\<close> "1.IH" have "m div 10 = n div 10" and "m mod 10 = n mod 10"
      by (auto dest: digit_char_inj)
    then show ?thesis by (metis mult_div_mod_eq)
  qed (use "1.prems" in \<open>auto simp: show_nat.simps [of m] show_nat.simps [of n]\<close>)
qed

text \<open>A byte below the digits and the minus sign, or above the digits, never occurs in a number.\<close>

lemma show_int_chars:
  assumes "c \<in> set (show_int i)"
  shows "c = CHR ''-'' \<or> (48 \<le> (of_char c :: nat) \<and> (of_char c :: nat) \<le> 57)"
proof -
  from assms consider "c = CHR ''-''" | n where "c \<in> set (show_nat n)"
    by (auto simp: show_int_def split: if_splits)
  then show ?thesis
  proof cases
    case 2
    then obtain d where "d < 10" "c = digit_char d" using show_nat_digits by blast
    then show ?thesis by (simp add: of_digit_char)
  qed simp
qed

lemma show_int_no [simp]:
  "CHR '';'' \<notin> set (show_int i)" "CHR '','' \<notin> set (show_int i)" "CHR ''='' \<notin> set (show_int i)"
  using show_int_chars by fastforce+

lemma show_int_inj_pos: "0 \<le> i \<Longrightarrow> 0 \<le> j \<Longrightarrow> show_int i = show_int j \<Longrightarrow> i = j"
  by (auto simp: show_int_def dest: show_nat_inj)

lemma hex_digit_is_hex: "n < 16 \<Longrightarrow> is_hex_char (hex_digit n)"
  by (auto simp: is_hex_char_def hex_digit_def Let_def)

lemma hex_encode_is_hex: "c \<in> set (hex_encode s) \<Longrightarrow> is_hex_char c"
proof -
  assume "c \<in> set (hex_encode s)"
  then obtain b where "c = hex_digit (of_char b div 16) \<or> c = hex_digit (of_char b mod 16)"
    by (auto simp: hex_encode_def hex_byte_def Let_def)
  moreover have "(of_char b :: nat) < 256" by simp
  then have "(of_char b :: nat) div 16 < 16" by linarith
  ultimately show ?thesis by (auto intro!: hex_digit_is_hex)
qed

lemma length_hex_encode [simp]: "length (hex_encode s) = 2 * length s"
  by (induction s) (simp_all add: hex_encode_def hex_byte_def Let_def)

section \<open>Application errors (internal/apperr)\<close>

text \<open>
  An error carries its stable code and its message. A message is the source's format string
  with its arguments (\<open>fmt.Sprintf\<close> is not run); plain messages have no arguments.
  \<open>apperr.New\<close> also passes the message through \<open>redact.Secrets\<close>, which is not modelled:
  no decision of the modelled code reads a message back.
\<close>

datatype code = CodeAuthentication | CodeAuthorization | CodeNotFound | CodeCapabilityMissing
  | CodeThrottled | CodeTimeout | CodeCancelled | CodeCorruptCache | CodeQuota | CodePolicyDenial
  | CodeUpstreamProtocol | CodeInvalidArgument | CodeInternal

type_synonym msg = "string \<times> string list"

datatype apperr = AppErr (err_code: code) (err_msg: msg)

abbreviation newErr :: "code \<Rightarrow> string \<Rightarrow> apperr" where
  "newErr c m \<equiv> AppErr c (m, [])"

abbreviation newErrf :: "code \<Rightarrow> string \<Rightarrow> string list \<Rightarrow> apperr" where
  "newErrf c m args \<equiv> AppErr c (m, args)"

text \<open>The first error of a list of checks, in order.\<close>

fun first_err :: "'e option list \<Rightarrow> 'e option" where
  "first_err [] = None"
| "first_err (None # es) = first_err es"
| "first_err (Some e # es) = Some e"

lemma first_err_None_iff: "first_err es = None \<longleftrightarrow> list_all (\<lambda>e. e = None) es"
  by (induction es rule: first_err.induct) auto

section \<open>Transition systems and their invariants\<close>

inductive reach :: "('s \<Rightarrow> bool) \<Rightarrow> ('s \<Rightarrow> 's \<Rightarrow> bool) \<Rightarrow> 's \<Rightarrow> bool"
  for ini :: "'s \<Rightarrow> bool" and stp :: "'s \<Rightarrow> 's \<Rightarrow> bool" where
  reach_init: "ini s \<Longrightarrow> reach ini stp s"
| reach_step: "reach ini stp s \<Longrightarrow> stp s t \<Longrightarrow> reach ini stp t"

locale invariant_system =
  fixes ini :: "'s \<Rightarrow> bool" and stp :: "'s \<Rightarrow> 's \<Rightarrow> bool" and I :: "'s \<Rightarrow> bool"
  assumes inv_init: "ini s \<Longrightarrow> I s"
    and inv_step: "I s \<Longrightarrow> stp s t \<Longrightarrow> I t"
begin

lemma inv_reach: "reach ini stp s \<Longrightarrow> I s"
  by (induction rule: reach.induct) (auto intro: inv_init inv_step)

end

section \<open>Bounded purge loops over a map\<close>

text \<open>
  Go visits the entries of a map in an order the runtime picks; the order is the list
  \<open>ks\<close>. The loop drops dead entries until it has dropped \<open>n\<close> of them.
\<close>

fun purge_loop :: "nat \<Rightarrow> ('v \<Rightarrow> bool) \<Rightarrow> 'k list \<Rightarrow> ('k \<rightharpoonup> 'v) \<Rightarrow> ('k \<rightharpoonup> 'v)" where
  "purge_loop n dead [] m = m"
| "purge_loop n dead (k # ks) m =
     (if n = 0 then m
      else case m k of
        None \<Rightarrow> purge_loop n dead ks m
      | Some v \<Rightarrow> if dead v then purge_loop (n - 1) dead ks (m(k := None))
                  else purge_loop n dead ks m)"

lemma purge_loop_Some: "purge_loop n dead ks m k = Some v \<Longrightarrow> m k = Some v"
proof (induction n dead ks m rule: purge_loop.induct)
  case (2 n dead k' ks m)
  show ?case
  proof (cases "n = 0 \<or> m k' = None \<or> \<not> dead (the (m k'))")
    case True
    with 2 show ?thesis by (cases "m k'") (auto split: if_splits)
  next
    case False
    then obtain w where w: "n \<noteq> 0" "m k' = Some w" "dead w" by auto
    with "2.prems" have "purge_loop (n - 1) dead ks (m(k' := None)) k = Some v" by simp
    then have "(m(k' := None)) k = Some v" by (rule "2.IH" (2) [OF w])
    then show ?thesis by (simp split: if_splits)
  qed
qed simp

lemma purge_loop_live: "m k = Some v \<Longrightarrow> \<not> dead v \<Longrightarrow> purge_loop n dead ks m k = Some v"
proof (induction n dead ks m rule: purge_loop.induct)
  case (2 n dead k' ks m)
  show ?case
  proof (cases "n = 0 \<or> m k' = None \<or> \<not> dead (the (m k'))")
    case True
    with 2 show ?thesis by (cases "m k'") auto
  next
    case False
    then obtain w where w: "n \<noteq> 0" "m k' = Some w" "dead w" by auto
    with "2.prems" have "(m(k' := None)) k = Some v" by auto
    then have "purge_loop (n - 1) dead ks (m(k' := None)) k = Some v"
      using "2.prems" (2) by (rule "2.IH" (2) [OF w])
    with w show ?thesis by simp
  qed
qed simp

end
