(* ===== verification/Pattern.thy ===== *)
theory Pattern
  imports Prelude
begin

text \<open>
  The deny-pattern language of \<open>internal/policy/jobpattern.go\<close>: validation at load,
  brace expansion, and matching of a job full name (or node, view, artifact path, branch).

  Definitions keep the Go names. The two dynamic programs of the source, over the path
  segments (\<open>matchPatternPrefix\<close>) and over the bytes of one segment
  (\<open>matchSegmentTokens\<close>), are row-by-row as in the code; the locale \<open>glob_rows\<close> gives
  their common contract and proves each row correct against the declarative \<open>glob_spec\<close>.
  Message texts are the source's without their inner quotation marks.
  Functions that return an index into a string return here the rest of the string at that
  index where the caller only goes on from there.
\<close>

section \<open>Constants and messages\<close>

definition MaxDenyJobPatternSegments :: nat where "MaxDenyJobPatternSegments = 64"
definition MaxDenyJobBraceAlternatives :: nat where "MaxDenyJobBraceAlternatives = 8"
definition MaxDenyJobBraceExpanded :: int where "MaxDenyJobBraceExpanded = 32"
definition MaxDenyJobBraceNestDepth :: int where "MaxDenyJobBraceNestDepth = 4"

lemmas brace_limits = MaxDenyJobPatternSegments_def MaxDenyJobBraceAlternatives_def
  MaxDenyJobBraceExpanded_def MaxDenyJobBraceNestDepth_def

abbreviation invalidPat :: "string \<Rightarrow> apperr" where
  "invalidPat m \<equiv> newErr CodeInvalidArgument m"

definition tooManyPatterns :: apperr where
  "tooManyPatterns = newErrf CodeInvalidArgument
     ''deny_job_prefixes entry brace expansion exceeds max patterns (%d)'' [show_int MaxDenyJobBraceExpanded]"

section \<open>Names and paths\<close>

definition hasDotSegment :: "string \<Rightarrow> bool" where
  "hasDotSegment s = list_ex (\<lambda>seg. seg = ''..'' \<or> seg = ''.'') (split_on CHR ''/'' s)"

fun normalizeSegments :: "string list \<Rightarrow> string list option" where
  "normalizeSegments [] = Some []"
| "normalizeSegments (s # ss) =
     (if s = [] then normalizeSegments ss
      else if s = ''..'' \<or> s = ''.'' then None
      else map_option (Cons s) (normalizeSegments ss))"

definition NormalizeJobFullName :: "string \<Rightarrow> string option" where
  "NormalizeJobFullName job0 =
     (let job = trim_space job0 in
      if job = [] then None
      else case normalizeSegments (split_on CHR ''/'' job) of
        None \<Rightarrow> None
      | Some segs \<Rightarrow> if segs = [] then None else Some (join ''/'' segs))"

section \<open>Character classes\<close>

fun classRangesOK :: "string \<Rightarrow> bool" where
  "classRangesOK (lo # d # hi # rest) =
     (if d = CHR ''-'' then lo \<le> hi \<and> classRangesOK rest else classRangesOK (d # hi # rest))"
| "classRangesOK _ = True"

definition validateClassInterior :: "string \<Rightarrow> apperr option" where
  "validateClassInterior interior =
     (if CHR ''/'' \<in> set interior
      then Some (invalidPat ''deny_job_prefixes entry character class must not contain /'')
      else if \<not> classRangesOK interior
      then Some (invalidPat ''deny_job_prefixes entry has inverted character class range'')
      else None)"

fun classInteriorContains :: "string \<Rightarrow> char \<Rightarrow> bool" where
  "classInteriorContains (lo # d # hi # rest) c =
     (if d = CHR ''-'' then (lo \<le> c \<and> c \<le> hi) \<or> classInteriorContains rest c
      else lo = c \<or> classInteriorContains (d # hi # rest) c)"
| "classInteriorContains [a, b] c = (a = c \<or> b = c)"
| "classInteriorContains [a] c = (a = c)"
| "classInteriorContains [] c = False"

definition charClassMatches :: "bool \<Rightarrow> string \<Rightarrow> char \<Rightarrow> bool" where
  "charClassMatches neg interior c =
     (if neg then \<not> classInteriorContains interior c else classInteriorContains interior c)"

text \<open>\<open>parseCharClass seg[start:]\<close>: the rest after the class, the negation flag, the interior.\<close>

definition parseCharClass :: "string \<Rightarrow> apperr + (string \<times> bool \<times> string)" where
  "parseCharClass seg =
    (case seg of
       [] \<Rightarrow> Inl (invalidPat ''deny_job_prefixes entry has invalid character class'')
     | c # s1 \<Rightarrow>
       if c \<noteq> CHR ''['' then Inl (invalidPat ''deny_job_prefixes entry has invalid character class'')
       else if s1 = [] then Inl (invalidPat ''deny_job_prefixes entry has unclosed character class ['')
       else
         let neg = (hd s1 = CHR ''^''); s2 = (if neg then tl s1 else s1) in
         if s2 = [] then Inl (invalidPat ''deny_job_prefixes entry has unclosed character class ['')
         else
           let lit = (if hd s2 = CHR '']'' then [CHR '']''] else []);
               s3 = (if hd s2 = CHR '']'' then tl s2 else s2);
               interior = lit @ before_char CHR '']'' s3;
               rest = drop (length (before_char CHR '']'' s3)) s3 in
           if rest = [] then Inl (invalidPat ''deny_job_prefixes entry has unclosed character class ['')
           else if interior = [] then Inl (invalidPat ''deny_job_prefixes entry has empty character class []'')
           else case validateClassInterior interior of
             Some e \<Rightarrow> Inl e
           | None \<Rightarrow> Inr (tl rest, neg, interior))"

lemma parseCharClass_rest:
  assumes "parseCharClass seg = Inr (rest, neg, interior)"
  shows "length rest < length seg"
proof -
  obtain c s1 where seg: "seg = c # s1"
    using assms by (cases seg) (auto simp: parseCharClass_def)
  define s2 where "s2 = (if hd s1 = CHR ''^'' then tl s1 else s1)"
  define s3 where "s3 = (if hd s2 = CHR '']'' then tl s2 else s2)"
  have "rest = tl (drop (length (before_char CHR '']'' s3)) s3)"
    using assms unfolding seg parseCharClass_def Let_def s3_def s2_def
    by (auto split: if_split_asm option.split_asm)
  then have "length rest \<le> length s3" by simp
  also have "\<dots> \<le> length s2" by (simp add: s3_def)
  also have "\<dots> \<le> length s1" by (simp add: s2_def)
  finally show ?thesis by (simp add: seg)
qed

function validateSegmentCharClasses :: "string \<Rightarrow> apperr option" where
  "validateSegmentCharClasses seg =
     (case seg of
        [] \<Rightarrow> None
      | c # cs \<Rightarrow>
        if c \<noteq> CHR ''['' then validateSegmentCharClasses cs
        else case parseCharClass seg of
          Inl e \<Rightarrow> Some e
        | Inr (rest, neg, interior) \<Rightarrow> validateSegmentCharClasses rest)"
  by pat_completeness auto
termination
  by (relation "measure length") (auto dest: parseCharClass_rest)

declare validateSegmentCharClasses.simps [simp del]

section \<open>Patterns of one path segment\<close>

datatype seg_tok = TokStar | TokLit char | TokClass bool string

text \<open>Consecutive stars collapse to one, as in the source's inner loop.\<close>

function tokenizeSegmentPattern :: "string \<Rightarrow> seg_tok list option" where
  "tokenizeSegmentPattern pat =
     (case pat of
        [] \<Rightarrow> Some []
      | c # cs \<Rightarrow>
        if c = CHR ''*'' then
          map_option (Cons TokStar) (tokenizeSegmentPattern (dropWhile (\<lambda>x. x = CHR ''*'') cs))
        else if c = CHR ''['' then
          (case parseCharClass pat of
             Inl e \<Rightarrow> None
           | Inr (rest, neg, interior) \<Rightarrow>
               map_option (Cons (TokClass neg interior)) (tokenizeSegmentPattern rest))
        else map_option (Cons (TokLit c)) (tokenizeSegmentPattern cs))"
  by pat_completeness auto
termination
  by (relation "measure length")
     (auto dest: parseCharClass_rest intro: le_imp_less_Suc length_dropWhile_le)

declare tokenizeSegmentPattern.simps [simp del]

text \<open>
  One row of a dynamic program: \<open>prev ! j\<close> says that the pattern read so far matches the
  first \<open>j\<close> elements of the subject. \<open>starRow\<close> is the \<open>*\<close> case (carrying \<open>cur[j-1]\<close>),
  \<open>elemRow\<close> the case of an atom that consumes one element.
\<close>

fun starRow :: "bool \<Rightarrow> bool list \<Rightarrow> bool list" where
  "starRow cur [] = []"
| "starRow cur (p # prev) = (p \<or> cur) # starRow (p \<or> cur) prev"

definition elemRow :: "('a \<Rightarrow> bool) \<Rightarrow> 'a list \<Rightarrow> bool list \<Rightarrow> bool list" where
  "elemRow f xs prev = False # map2 (\<lambda>p x. p \<and> f x) prev xs"

fun tokMatches :: "seg_tok \<Rightarrow> char \<Rightarrow> bool" where
  "tokMatches TokStar c = False"
| "tokMatches (TokLit l) c = (l = c)"
| "tokMatches (TokClass neg interior) c = charClassMatches neg interior c"

definition tokRow :: "seg_tok \<Rightarrow> string \<Rightarrow> bool list \<Rightarrow> bool list" where
  "tokRow tk s prev =
     (case tk of TokStar \<Rightarrow> starRow False prev | _ \<Rightarrow> elemRow (tokMatches tk) s prev)"

definition firstRow :: "'a list \<Rightarrow> bool list" where
  "firstRow xs = True # replicate (length xs) False"

definition matchSegmentTokens :: "seg_tok list \<Rightarrow> string \<Rightarrow> bool" where
  "matchSegmentTokens toks s = last (foldl (\<lambda>prev tk. tokRow tk s prev) (firstRow s) toks)"

definition matchSegmentGlob :: "string \<Rightarrow> string \<Rightarrow> bool" where
  "matchSegmentGlob pat s =
     (case tokenizeSegmentPattern pat of None \<Rightarrow> False | Some toks \<Rightarrow> matchSegmentTokens toks s)"

definition segmentMatchStar :: "string \<Rightarrow> string \<Rightarrow> bool" where
  "segmentMatchStar pat seg =
     (if pat = ''**'' then False
      else if \<not> contains_any pat ''*['' then pat = seg
      else matchSegmentGlob pat seg)"

section \<open>Patterns of whole paths\<close>

definition pathRow :: "string \<Rightarrow> string list \<Rightarrow> bool list \<Rightarrow> bool list" where
  "pathRow ps jobSegs prev =
     (if ps = ''**'' then starRow False prev else elemRow (segmentMatchStar ps) jobSegs prev)"

definition matchPatternPrefix :: "string list \<Rightarrow> string list \<Rightarrow> bool" where
  "matchPatternPrefix patternSegs jobSegs =
     list_ex id (foldl (\<lambda>prev ps. pathRow ps jobSegs prev) (firstRow jobSegs) patternSegs)"

definition structurallyOKDenyBase :: "string \<Rightarrow> bool" where
  "structurallyOKDenyBase base =
     (if base = [] \<or> has_suffix base ''/'' then False
      else if contains_any base ''{}'' then False
      else
        let segs = split_on CHR ''/'' base in
        if length segs > MaxDenyJobPatternSegments then False
        else list_all (\<lambda>seg.
          if seg = [] then False
          else if seg = ''**'' then True
          else if str_contains seg ''**'' then False
          else if CHR ''['' \<in> set seg then validateSegmentCharClasses seg = None
          else True) segs)"

definition normalizeDenyJobPattern :: "string \<Rightarrow> string option" where
  "normalizeDenyJobPattern pattern =
     (if pattern = ''*'' \<or> pattern = ''**'' \<or> pattern = ''/**'' then None
      else if has_suffix pattern ''/**'' then
        let base = trim_suffix pattern ''/**'' in
        if base = [] \<or> base = ''**'' then None
        else if \<not> structurallyOKDenyBase base then None
        else Some base
      else if \<not> structurallyOKDenyBase pattern then None
      else Some pattern)"

definition matchDenyJobPatternPlain :: "string \<Rightarrow> string \<Rightarrow> bool" where
  "matchDenyJobPatternPlain pattern jobNorm =
     (case normalizeDenyJobPattern pattern of
        None \<Rightarrow> False
      | Some base \<Rightarrow>
        if \<not> contains_any base ''*['' then jobNorm = base \<or> has_prefix jobNorm (base @ ''/'')
        else
          let jSegs = split_on CHR ''/'' jobNorm; pSegs = split_on CHR ''/'' base in
          if length pSegs > MaxDenyJobPatternSegments then False
          else matchPatternPrefix pSegs jSegs)"

section \<open>Brace expansion\<close>

fun braceDepths :: "int \<Rightarrow> int \<Rightarrow> string \<Rightarrow> apperr + int" where
  "braceDepths depth maxDepth [] =
     (if depth \<noteq> 0 then Inl (invalidPat ''deny_job_prefixes entry has unclosed {'') else Inr maxDepth)"
| "braceDepths depth maxDepth (c # cs) =
     (if c = CHR ''{'' then braceDepths (depth + 1) (max maxDepth (depth + 1)) cs
      else if c = CHR ''}'' then
        (if depth - 1 < 0 then Inl (invalidPat ''deny_job_prefixes entry has unmatched }'')
         else braceDepths (depth - 1) maxDepth cs)
      else braceDepths depth maxDepth cs)"

definition braceNestDepth :: "string \<Rightarrow> apperr + int" where
  "braceNestDepth pattern = braceDepths 0 0 pattern"

fun matchingFrom :: "nat \<Rightarrow> int \<Rightarrow> string \<Rightarrow> nat option" where
  "matchingFrom i depth [] = None"
| "matchingFrom i depth (c # cs) =
     (if c = CHR ''{'' then matchingFrom (Suc i) (depth + 1) cs
      else if c = CHR ''}'' then
        (if depth - 1 = 0 then Some i else matchingFrom (Suc i) (depth - 1) cs)
      else matchingFrom (Suc i) depth cs)"

definition findMatchingBrace :: "string \<Rightarrow> nat \<Rightarrow> apperr + nat" where
  "findMatchingBrace pattern start =
     (if start \<ge> length pattern \<or> pattern ! start \<noteq> CHR ''{''
      then Inl (invalidPat ''deny_job_prefixes entry has invalid brace syntax'')
      else case matchingFrom start 0 (drop start pattern) of
        None \<Rightarrow> Inl (invalidPat ''deny_job_prefixes entry has unclosed {'')
      | Some i \<Rightarrow> Inr i)"

text \<open>\<open>cur\<close> is \<open>inner[start:i]\<close>, the alternative being read.\<close>

fun splitAlternatives :: "int \<Rightarrow> string \<Rightarrow> string list \<Rightarrow> string \<Rightarrow> apperr + string list" where
  "splitAlternatives depth cur alts [] =
     (if depth \<noteq> 0 then Inl (invalidPat ''deny_job_prefixes entry has unclosed {'') else Inr (alts @ [cur]))"
| "splitAlternatives depth cur alts (c # cs) =
     (if c = CHR ''{'' then splitAlternatives (depth + 1) (cur @ [c]) alts cs
      else if c = CHR ''}'' then
        (if depth - 1 < 0 then Inl (invalidPat ''deny_job_prefixes entry has unmatched }'')
         else splitAlternatives (depth - 1) (cur @ [c]) alts cs)
      else if c = CHR '','' \<and> depth = 0 then splitAlternatives depth [] (alts @ [cur]) cs
      else splitAlternatives depth (cur @ [c]) alts cs)"

definition splitBraceAlternatives :: "string \<Rightarrow> apperr + string list" where
  "splitBraceAlternatives inner =
     (if inner = [] then Inl (invalidPat ''deny_job_prefixes entry has empty brace group {}'')
      else splitAlternatives 0 [] [] inner)"

definition validateBraceAlternative :: "string \<Rightarrow> apperr option" where
  "validateBraceAlternative alt =
     (if alt = [] then Some (invalidPat ''deny_job_prefixes entry has empty brace alternative'')
      else if CHR ''/'' \<in> set alt then
        Some (invalidPat ''deny_job_prefixes entry brace alternative must be path-segment-safe (no /)'')
      else if contains_any alt [CHR ''?'', CHR 0x5C] then
        Some (invalidPat ''deny_job_prefixes entry brace alternative has unsupported metacharacters'')
      else if contains_any alt ''{}'' then None
      else if alt \<noteq> ''**'' \<and> str_contains alt ''**'' then
        Some (invalidPat ''deny_job_prefixes entry brace alternative: ** must be the whole alternative'')
      else if CHR ''['' \<in> set alt then validateSegmentCharClasses alt
      else None)"

lemma matchingFrom_bounds:
  "matchingFrom i d cs = Some j \<Longrightarrow> i \<le> j \<and> j < i + length cs"
  by (induction i d cs rule: matchingFrom.induct) (auto split: if_splits)

lemma findMatchingBrace_bounds:
  "findMatchingBrace p start = Inr j \<Longrightarrow> start < j \<and> j < length p"
proof -
  assume f: "findMatchingBrace p start = Inr j"
  then have s: "start < length p" "p ! start = CHR ''{''"
    and m: "matchingFrom start 0 (drop start p) = Some j"
    by (auto simp: findMatchingBrace_def split: if_splits option.splits)
  from s have "drop start p = CHR ''{'' # drop (Suc start) p" by (metis Cons_nth_drop_Suc)
  with m have "matchingFrom (Suc start) 1 (drop (Suc start) p) = Some j" by simp
  then show ?thesis using s by (auto dest: matchingFrom_bounds)
qed

lemma splitAlternatives_length:
  "splitAlternatives d cur alts cs = Inr res \<Longrightarrow> a \<in> set res \<Longrightarrow>
   a \<in> set alts \<or> length a \<le> length cur + length cs"
proof (induction cs arbitrary: d cur alts)
  case Nil
  then show ?case by (auto split: if_splits)
next
  case (Cons c cs)
  from Cons.prems (1) consider d' where "splitAlternatives d' (cur @ [c]) alts cs = Inr res"
    | "splitAlternatives d [] (alts @ [cur]) cs = Inr res"
    by (simp split: if_splits)
  then show ?case
  proof cases
    case 1
    from Cons.IH [OF this Cons.prems (2)] show ?thesis by simp
  next
    case 2
    from Cons.IH [OF this Cons.prems (2)] show ?thesis by auto
  qed
qed

lemma splitBraceAlternatives_length:
  "splitBraceAlternatives inner = Inr alts \<Longrightarrow> a \<in> set alts \<Longrightarrow> length a \<le> length inner"
  using splitAlternatives_length [of 0 "[]" "[]" inner alts a]
  by (auto simp: splitBraceAlternatives_def split: if_splits)

function expandBracesOnce :: "string \<Rightarrow> int \<Rightarrow> apperr + string list"
  and expandAlternatives :: "string \<Rightarrow> string \<Rightarrow> string list \<Rightarrow> int \<Rightarrow> string list \<Rightarrow> apperr + string list" where
  "expandBracesOnce pattern maxOut =
     (if maxOut < 1 then Inl tooManyPatterns
      else if CHR ''{'' \<notin> set pattern then
        (if CHR ''}'' \<in> set pattern then Inl (invalidPat ''deny_job_prefixes entry has unmatched }'')
         else Inr [pattern])
      else
        let start = length (before_char CHR ''{'' pattern) in
        if CHR ''}'' \<in> set (take start pattern) then
          Inl (invalidPat ''deny_job_prefixes entry has unmatched }'')
        else case findMatchingBrace pattern start of
          Inl e \<Rightarrow> Inl e
        | Inr close \<Rightarrow>
          (case splitBraceAlternatives (drop (Suc start) (take close pattern)) of
             Inl e \<Rightarrow> Inl e
           | Inr alts \<Rightarrow>
             if length alts < 2 then
               Inl (invalidPat ''deny_job_prefixes entry brace group needs at least two alternatives'')
             else if length alts > MaxDenyJobBraceAlternatives then
               Inl (newErrf CodeInvalidArgument
                 ''deny_job_prefixes entry brace group exceeds max alternatives (%d)''
                 [show_nat MaxDenyJobBraceAlternatives])
             else case first_err (map validateBraceAlternative alts) of
               Some e \<Rightarrow> Inl e
             | None \<Rightarrow>
                 expandAlternatives (take start pattern) (drop (Suc close) pattern) alts maxOut []))"
| "expandAlternatives pre suf [] maxOut out = Inr out"
| "expandAlternatives pre suf (alt # alts) maxOut out =
     (case expandBracesOnce (pre @ alt @ suf) (maxOut - int (length out)) of
        Inl e \<Rightarrow> Inl e
      | Inr partial \<Rightarrow>
        if int (length out + length partial) > maxOut then Inl tooManyPatterns
        else expandAlternatives pre suf alts maxOut (out @ partial))"
  by pat_completeness auto
termination
proof (relation "measures [\<lambda>x. case x of Inl (p, m) \<Rightarrow> length p
      | Inr (pre, suf, alts, m, out) \<Rightarrow> length pre + length suf + foldr (\<lambda>a. max (length a)) alts 0,
    \<lambda>x. case x of Inl _ \<Rightarrow> 0 | Inr (pre, suf, alts, m, out) \<Rightarrow> Suc (length alts)]")
  show "wf (measures [\<lambda>x. case x of Inl (p, m) \<Rightarrow> length p
      | Inr (pre, suf, alts, m, out) \<Rightarrow> length pre + length suf + foldr (\<lambda>a. max (length a)) alts 0,
    \<lambda>x. case x of Inl _ \<Rightarrow> 0 | Inr (pre, suf, alts, m, out) \<Rightarrow> Suc (length alts)])"
    by simp
next
  fix pattern :: string and maxOut :: int and start :: nat and close :: nat and alts :: "string list"
  assume f: "findMatchingBrace pattern start = Inr close"
    and alts: "splitBraceAlternatives (drop (Suc start) (take close pattern)) = Inr alts"
  have b: "start < close" "close < length pattern" using findMatchingBrace_bounds [OF f] by auto
  have "length a \<le> close - Suc start" if "a \<in> set alts" for a
    using splitBraceAlternatives_length [OF alts that] b by simp
  then have "foldr (\<lambda>a. max (length a)) alts 0 \<le> close - Suc start"
    by (induction alts) auto
  with b show "(Inr (take start pattern, drop (Suc close) pattern, alts, maxOut, []), Inl (pattern, maxOut))
    \<in> measures [\<lambda>x. case x of Inl (p, m) \<Rightarrow> length p
      | Inr (pre, suf, alts, m, out) \<Rightarrow> length pre + length suf + foldr (\<lambda>a. max (length a)) alts 0,
    \<lambda>x. case x of Inl _ \<Rightarrow> 0 | Inr (pre, suf, alts, m, out) \<Rightarrow> Suc (length alts)]"
    by simp
qed auto

declare expandBracesOnce.simps [simp del]

definition ExpandDenyJobBraces :: "string \<Rightarrow> apperr + string list" where
  "ExpandDenyJobBraces pattern0 =
     (let pattern = trim_space pattern0 in
      if pattern = [] then Inl (invalidPat ''deny_job_prefixes entry is empty'')
      else if \<not> contains_any pattern ''{}'' then Inr [pattern]
      else case braceNestDepth pattern of
        Inl e \<Rightarrow> Inl e
      | Inr depth \<Rightarrow>
        if depth > MaxDenyJobBraceNestDepth then
          Inl (newErrf CodeInvalidArgument
            ''deny_job_prefixes entry brace nesting exceeds max depth (%d)'' [show_int MaxDenyJobBraceNestDepth])
        else case expandBracesOnce pattern MaxDenyJobBraceExpanded of
          Inl e \<Rightarrow> Inl e
        | Inr out \<Rightarrow>
          if out = [] then
            Inl (invalidPat ''deny_job_prefixes entry brace expansion produced no patterns'')
          else if int (length out) > MaxDenyJobBraceExpanded then Inl tooManyPatterns
          else Inr out)"

section \<open>Matching and validation\<close>

definition MatchDenyJobPattern :: "string \<Rightarrow> string \<Rightarrow> bool" where
  "MatchDenyJobPattern pattern0 job =
     (let pattern = trim_space pattern0 in
      if pattern = [] then False
      else if hasDotSegment pattern \<or> has_prefix pattern ''/'' then False
      else case NormalizeJobFullName job of
        None \<Rightarrow> False
      | Some jobNorm \<Rightarrow>
        if jobNorm = [] then False
        else case ExpandDenyJobBraces pattern of
          Inl _ \<Rightarrow> False
        | Inr expanded \<Rightarrow> list_ex (\<lambda>p. matchDenyJobPatternPlain p jobNorm) expanded)"

definition validatePlainSegment :: "string \<Rightarrow> apperr option" where
  "validatePlainSegment seg =
     (if seg = [] then Some (invalidPat ''deny_job_prefixes entry has empty path segment'')
      else if seg = ''**'' then None
      else if str_contains seg ''**'' then
        Some (invalidPat ''deny_job_prefixes entry: ** must be a whole path segment (use **/ for mid-path)'')
      else validateSegmentCharClasses seg)"

definition validatePlainBase :: "string \<Rightarrow> apperr option" where
  "validatePlainBase p =
     (if has_suffix p ''/'' then
        Some (invalidPat ''deny_job_prefixes entry must not end with / (use trailing /** for descendants)'')
      else
        let segs = split_on CHR ''/'' p in
        if length segs > MaxDenyJobPatternSegments then
          Some (newErrf CodeInvalidArgument ''deny_job_prefixes entry exceeds max path segments (%d)''
            [show_nat MaxDenyJobPatternSegments])
        else first_err (map validatePlainSegment segs))"

definition validateDenyJobPatternPlain :: "string \<Rightarrow> apperr option" where
  "validateDenyJobPatternPlain p =
     (if contains_any p ''{}'' then Some (invalidPat ''deny_job_prefixes entry has invalid brace syntax'')
      else if p = ''*'' \<or> p = ''**'' \<or> p = ''/**'' then
        Some (invalidPat ''deny_job_prefixes entry is overly broad (reject bare * or **)'')
      else if has_suffix p ''/**'' then
        let base = trim_suffix p ''/**'' in
        if base = [] then Some (invalidPat ''deny_job_prefixes entry is overly broad (/** alone)'')
        else if base = ''**'' then
          Some (invalidPat ''deny_job_prefixes entry is overly broad (reject bare * or **)'')
        else validatePlainBase base
      else validatePlainBase p)"

definition ValidateDenyJobPattern :: "string \<Rightarrow> apperr option" where
  "ValidateDenyJobPattern pattern =
     (let p = trim_space pattern in
      if p = [] then Some (invalidPat ''deny_job_prefixes entry is empty'')
      else if has_prefix p ''/'' then
        Some (invalidPat ''deny_job_prefixes entry must be a relative job path (not absolute)'')
      else if hasDotSegment p then
        Some (invalidPat ''deny_job_prefixes entry must not contain path traversal (. or .. segment)'')
      else if contains_any p [CHR ''?'', CHR 0x5C] then
        Some (invalidPat ''deny_job_prefixes entry has unsupported metacharacters (only * **/ {a,b} and [...])'')
      else case ExpandDenyJobBraces p of
        Inl e \<Rightarrow> Some e
      | Inr expanded \<Rightarrow> first_err (map validateDenyJobPatternPlain expanded))"

text \<open>\<open>validateDenyPatternIndex\<close>: the same error under the field's name and index.\<close>

definition validateDenyPatternIndex :: "string \<Rightarrow> nat \<Rightarrow> string \<Rightarrow> apperr option" where
  "validateDenyPatternIndex field i pattern =
     map_option (\<lambda>e. newErrf (err_code e) ''%s[%d]: %s'' ([field, show_nat i, fst (err_msg e)] @ snd (err_msg e)))
       (ValidateDenyJobPattern pattern)"

section \<open>The Jenkins URL of a job (internal/jenkins/client_jobs.go)\<close>

definition BuildJobPath :: "string \<Rightarrow> string" where
  "BuildJobPath jobName =
     concat (map (\<lambda>s. if s = [] then [] else ''/job/'' @ path_escape s) (split_on CHR ''/'' jobName))"

end
