(* ===== verification/PatternCorrect.thy ===== *)
theory PatternCorrect
  imports Pattern
begin

text \<open>
  Correctness of the deny-pattern matcher: both dynamic programs against the declarative
  \<open>glob_spec\<close>, the literal fast path against the general matcher, agreement of load-time
  validation with match-time structure, closure of a denial under descendants, and the fact
  that two spellings of a job name that reach the same Jenkins URL get the same answer.
\<close>

section \<open>What a glob means\<close>

text \<open>
  The subject splits into one piece per pattern element; a star takes any piece, any other
  element takes exactly one matching element.
\<close>

definition glob_piece :: "('t \<Rightarrow> bool) \<Rightarrow> ('t \<Rightarrow> 'a \<Rightarrow> bool) \<Rightarrow> 't \<Rightarrow> 'a list \<Rightarrow> bool" where
  "glob_piece star el t p \<longleftrightarrow> (if star t then True else \<exists>x. p = [x] \<and> el t x)"

definition glob_spec :: "('t \<Rightarrow> bool) \<Rightarrow> ('t \<Rightarrow> 'a \<Rightarrow> bool) \<Rightarrow> 't list \<Rightarrow> 'a list \<Rightarrow> bool" where
  "glob_spec star el ts xs \<longleftrightarrow> (\<exists>parts. xs = concat parts \<and> list_all2 (glob_piece star el) ts parts)"

lemma glob_spec_Nil [simp]: "glob_spec star el [] xs \<longleftrightarrow> xs = []"
  by (auto simp: glob_spec_def)

lemma glob_spec_snoc:
  "glob_spec star el (ts @ [t]) xs \<longleftrightarrow>
     (\<exists>us vs. xs = us @ vs \<and> glob_spec star el ts us \<and> glob_piece star el t vs)"
proof
  assume "glob_spec star el (ts @ [t]) xs"
  then obtain parts where x: "xs = concat parts" and l: "list_all2 (glob_piece star el) (ts @ [t]) parts"
    by (auto simp: glob_spec_def)
  from l obtain ps p where "parts = ps @ [p]" "list_all2 (glob_piece star el) ts ps" "glob_piece star el t p"
    by (auto simp: list_all2_append1 list_all2_Cons1)
  with x show "\<exists>us vs. xs = us @ vs \<and> glob_spec star el ts us \<and> glob_piece star el t vs"
    by (auto simp: glob_spec_def)
next
  assume "\<exists>us vs. xs = us @ vs \<and> glob_spec star el ts us \<and> glob_piece star el t vs"
  then obtain ps vs where "xs = concat ps @ vs" "list_all2 (glob_piece star el) ts ps" "glob_piece star el t vs"
    by (auto simp: glob_spec_def)
  then show "glob_spec star el (ts @ [t]) xs"
    unfolding glob_spec_def by (intro exI [of _ "ps @ [vs]"]) (auto intro: list_all2_appendI)
qed

lemma glob_spec_snoc_star:
  assumes "star t"
  shows "glob_spec star el (ts @ [t]) xs \<longleftrightarrow> (\<exists>i \<le> length xs. glob_spec star el ts (take i xs))"
    (is "?l \<longleftrightarrow> ?r")
proof
  assume ?l
  then obtain us vs where "xs = us @ vs" "glob_spec star el ts us"
    unfolding glob_spec_snoc by blast
  then show ?r by (intro exI [of _ "length us"]) simp
next
  assume ?r
  then obtain i where "glob_spec star el ts (take i xs)" by blast
  then show ?l unfolding glob_spec_snoc glob_piece_def using assms
    by (intro exI [of _ "take i xs"] exI [of _ "drop i xs"]) simp
qed

lemma glob_spec_snoc_elem:
  assumes "\<not> star t"
  shows "glob_spec star el (ts @ [t]) xs \<longleftrightarrow>
     xs \<noteq> [] \<and> glob_spec star el ts (butlast xs) \<and> el t (last xs)" (is "?l \<longleftrightarrow> ?r")
proof
  assume ?l
  then show ?r unfolding glob_spec_snoc glob_piece_def using assms by auto
next
  assume ?r
  then show ?l unfolding glob_spec_snoc glob_piece_def using assms
    by (intro exI [of _ "butlast xs"] exI [of _ "[last xs]"]) simp
qed

section \<open>Rows of the dynamic programs\<close>

lemma length_starRow [simp]: "length (starRow b row) = length row"
  by (induction b row rule: starRow.induct) auto

lemma nth_starRow: "j < length row \<Longrightarrow> starRow b row ! j \<longleftrightarrow> b \<or> (\<exists>i \<le> j. row ! i)"
proof (induction b row arbitrary: j rule: starRow.induct)
  case (2 cur p prev)
  show ?case
  proof (cases j)
    case (Suc j')
    with "2.prems" have "j' < length prev" by simp
    then have "starRow (p \<or> cur) prev ! j' \<longleftrightarrow> (p \<or> cur) \<or> (\<exists>i \<le> j'. prev ! i)" by (rule "2.IH")
    moreover have "(\<exists>i \<le> Suc j'. (p # prev) ! i) \<longleftrightarrow> p \<or> (\<exists>i \<le> j'. prev ! i)"
      by (auto simp: nth_Cons' split: if_splits)
    ultimately show ?thesis using Suc by auto
  qed auto
qed simp

lemma length_elemRow: "length row = Suc (length xs) \<Longrightarrow> length (elemRow f xs row) = Suc (length xs)"
  by (simp add: elemRow_def)

lemma nth_elemRow:
  "length row = Suc (length xs) \<Longrightarrow> j \<le> length xs \<Longrightarrow>
   elemRow f xs row ! j \<longleftrightarrow> 0 < j \<and> row ! (j - 1) \<and> f (xs ! (j - 1))"
  by (cases j) (auto simp: elemRow_def)

text \<open>The contract the two programs share: how a row is computed from the row before it.\<close>

locale glob_rows =
  fixes star :: "'t \<Rightarrow> bool" and el :: "'t \<Rightarrow> 'a \<Rightarrow> bool"
    and row :: "'t \<Rightarrow> 'a list \<Rightarrow> bool list \<Rightarrow> bool list"
  assumes row_star: "star t \<Longrightarrow> row t xs prev = starRow False prev"
    and row_elem: "\<not> star t \<Longrightarrow> row t xs prev = elemRow (el t) xs prev"
begin

lemma rows_correct:
  "length (foldl (\<lambda>prev t. row t xs prev) (firstRow xs) ts) = Suc (length xs) \<and>
   (\<forall>j \<le> length xs. foldl (\<lambda>prev t. row t xs prev) (firstRow xs) ts ! j =
      glob_spec star el ts (take j xs))"
proof (induction ts rule: rev_induct)
  case Nil
  show ?case by (auto simp: firstRow_def nth_Cons')
next
  case (snoc t ts)
  let ?row = "foldl (\<lambda>prev t. row t xs prev) (firstRow xs) ts"
  have len: "length ?row = Suc (length xs)"
    and IH: "?row ! j = glob_spec star el ts (take j xs)" if "j \<le> length xs" for j
    using snoc that by auto
  have len': "length ?row = Suc (length xs)" using snoc by simp
  show ?case
  proof (cases "star t")
    case True
    have "starRow False ?row ! j = glob_spec star el (ts @ [t]) (take j xs)" if "j \<le> length xs" for j
      using that IH len' by (auto simp: nth_starRow glob_spec_snoc_star [where star = star, OF True] min_def)
    with True len' show ?thesis by (simp add: row_star)
  next
    case False
    have "elemRow (el t) xs ?row ! j = glob_spec star el (ts @ [t]) (take j xs)" if "j \<le> length xs" for j
    proof (cases j)
      case (Suc i)
      with that IH len' show ?thesis
        by (simp add: nth_elemRow glob_spec_snoc_elem [where star = star, OF False] butlast_take take_Suc_conv_app_nth)
    qed (simp add: nth_elemRow len' glob_spec_snoc_elem [where star = star, OF False])
    with False len' show ?thesis by (simp add: row_elem length_elemRow)
  qed
qed

lemma last_row:
  "last (foldl (\<lambda>prev t. row t xs prev) (firstRow xs) ts) = glob_spec star el ts xs"
proof -
  have "foldl (\<lambda>prev t. row t xs prev) (firstRow xs) ts ! length xs = glob_spec star el ts xs"
    using rows_correct [of xs ts] by simp
  then show ?thesis using rows_correct [of xs ts]
    by (metis diff_Suc_1 last_conv_nth list.size(3) nat.simps(3))
qed

lemma some_row:
  "list_ex id (foldl (\<lambda>prev t. row t xs prev) (firstRow xs) ts) \<longleftrightarrow>
   (\<exists>j \<le> length xs. glob_spec star el ts (take j xs))"
  using rows_correct [of xs ts] by (auto simp: list_ex_length less_Suc_eq_le)

end

interpretation seg_rows: glob_rows "\<lambda>tk. tk = TokStar" tokMatches tokRow
  by unfold_locales (auto simp: tokRow_def split: seg_tok.splits)

interpretation path_rows: glob_rows "\<lambda>ps. ps = ''**''" segmentMatchStar pathRow
  by unfold_locales (auto simp: pathRow_def)

lemma glob_spec_literal:
  assumes "\<And>t. t \<in> set ts \<Longrightarrow> \<not> star t \<and> (\<forall>x. el t x \<longleftrightarrow> t = x)"
  shows "glob_spec star el ts xs \<longleftrightarrow> ts = xs"
  using assms
proof (induction ts arbitrary: xs rule: rev_induct)
  case (snoc t ts)
  then have "\<not> star t" and el: "el t x \<longleftrightarrow> t = x" for x by auto
  have "glob_spec star el ts (butlast xs) \<longleftrightarrow> ts = butlast xs" using snoc by simp
  then show ?case
    unfolding glob_spec_snoc_elem [where star = star, OF \<open>\<not> star t\<close>]
    using el by (metis append_butlast_last_id butlast_snoc last_snoc snoc_eq_iff_butlast)
qed auto

section \<open>The matcher against the specification\<close>

text \<open>A segment pattern matches a segment when its atoms do, piece by piece.\<close>

lemma matchSegmentTokens_spec:
  "matchSegmentTokens toks s = glob_spec (\<lambda>tk. tk = TokStar) tokMatches toks s"
  unfolding matchSegmentTokens_def by (rule seg_rows.last_row)

text \<open>A path pattern matches a path when it matches the whole of some leading part of it.\<close>

definition path_spec :: "string list \<Rightarrow> string list \<Rightarrow> bool" where
  "path_spec pSegs jSegs \<longleftrightarrow>
     (\<exists>k \<le> length jSegs. glob_spec (\<lambda>ps. ps = ''**'') segmentMatchStar pSegs (take k jSegs))"

lemma matchPatternPrefix_spec: "matchPatternPrefix pSegs jSegs = path_spec pSegs jSegs"
  unfolding matchPatternPrefix_def path_spec_def by (rule path_rows.some_row)

lemma path_spec_append: "path_spec pSegs jSegs \<Longrightarrow> path_spec pSegs (jSegs @ rest)"
proof -
  assume "path_spec pSegs jSegs"
  then obtain k where "k \<le> length jSegs"
    and "glob_spec (\<lambda>ps. ps = ''**'') segmentMatchStar pSegs (take k jSegs)"
    by (auto simp: path_spec_def)
  then show ?thesis unfolding path_spec_def by (intro exI [of _ k]) simp
qed

lemma normalizeDenyJobPattern_ok:
  assumes "normalizeDenyJobPattern q = Some base"
  shows "structurallyOKDenyBase base"
  using assms by (auto simp: normalizeDenyJobPattern_def Let_def split: if_splits)

lemma prefix_iff_take: "prefix xs ys \<longleftrightarrow> (\<exists>k \<le> length ys. xs = take k ys)"
proof
  assume "prefix xs ys"
  then show "\<exists>k \<le> length ys. xs = take k ys"
    by (auto simp: prefix_def intro!: exI [of _ "length xs"])
qed (auto simp: take_is_prefix)

lemma path_spec_literal:
  assumes "\<not> contains_any base ''*[''"
  shows "path_spec (split_on CHR ''/'' base) (split_on CHR ''/'' j) \<longleftrightarrow>
     j = base \<or> has_prefix j (base @ ''/'')"
proof -
  have lit: "seg \<noteq> ''**'' \<and> (\<forall>x. segmentMatchStar seg x \<longleftrightarrow> seg = x)"
    if "seg \<in> set (split_on CHR ''/'' base)" for seg
  proof -
    have "\<not> contains_any seg ''*[''"
      using assms split_on_subset [OF that] unfolding contains_any_iff by blast
    moreover from this have "seg \<noteq> ''**''" by (rule contrapos_nn) (simp add: contains_any_def)
    ultimately show ?thesis by (simp add: segmentMatchStar_def)
  qed
  have "path_spec (split_on CHR ''/'' base) (split_on CHR ''/'' j) \<longleftrightarrow>
      (\<exists>k \<le> length (split_on CHR ''/'' j). split_on CHR ''/'' base = take k (split_on CHR ''/'' j))"
  proof -
    have "glob_spec (\<lambda>ps. ps = ''**'') segmentMatchStar (split_on CHR ''/'' base) xs
        \<longleftrightarrow> split_on CHR ''/'' base = xs" for xs
      by (rule glob_spec_literal) (rule lit)
    then show ?thesis by (simp only: path_spec_def)
  qed
  also have "\<dots> \<longleftrightarrow> prefix (split_on CHR ''/'' base) (split_on CHR ''/'' j)"
    by (rule prefix_iff_take [symmetric])
  finally show ?thesis by (simp add: prefix_split_on_iff has_prefix_def)
qed

text \<open>The literal fast path and the general dynamic program compute the same relation.\<close>

lemma matchDenyJobPatternPlain_spec:
  "matchDenyJobPatternPlain q j \<longleftrightarrow>
     (\<exists>base. normalizeDenyJobPattern q = Some base \<and>
        path_spec (split_on CHR ''/'' base) (split_on CHR ''/'' j))"
proof (cases "normalizeDenyJobPattern q")
  case (Some base)
  have "length (split_on CHR ''/'' base) \<le> MaxDenyJobPatternSegments"
    using normalizeDenyJobPattern_ok [OF Some]
    by (auto simp: structurallyOKDenyBase_def Let_def split: if_splits)
  with Some show ?thesis
    by (simp add: matchDenyJobPatternPlain_def Let_def path_spec_literal matchPatternPrefix_spec)
qed (simp add: matchDenyJobPatternPlain_def)

section \<open>Normalised names\<close>

lemma normalizeSegments_filter:
  "normalizeSegments ss =
     (if ''..'' \<in> set ss \<or> ''.'' \<in> set ss then None else Some (filter (\<lambda>s. s \<noteq> []) ss))"
  by (induction ss) auto

lemma NormalizeJobFullName_filter:
  "NormalizeJobFullName j = Some n \<longleftrightarrow>
     (let ss = split_on CHR ''/'' (trim_space j); segs = filter (\<lambda>s. s \<noteq> []) ss in
      ''..'' \<notin> set ss \<and> ''.'' \<notin> set ss \<and> segs \<noteq> [] \<and> n = join ''/'' segs)"
proof (cases "trim_space j = []")
  case False
  then show ?thesis
    by (auto simp: NormalizeJobFullName_def normalizeSegments_filter Let_def split: if_splits)
qed (simp add: NormalizeJobFullName_def)

lemma NormalizeJobFullName_segments:
  assumes "NormalizeJobFullName j = Some n"
  shows "split_on CHR ''/'' n = filter (\<lambda>s. s \<noteq> []) (split_on CHR ''/'' (trim_space j))"
    and "n \<noteq> []"
proof -
  let ?segs = "filter (\<lambda>s. s \<noteq> []) (split_on CHR ''/'' (trim_space j))"
  from assms have n: "n = join ''/'' ?segs" and ne: "?segs \<noteq> []"
    by (auto simp: NormalizeJobFullName_filter Let_def)
  have "split_on CHR ''/'' (join [CHR ''/''] ?segs) = ?segs"
    by (rule split_on_join [OF ne]) (auto dest: split_on_notin)
  then show "split_on CHR ''/'' n = ?segs" by (simp add: n)
  moreover have "[] \<notin> set ?segs" by simp
  ultimately show "n \<noteq> []" by (metis list.set_intros(1) split_on.simps(1))
qed

lemma MatchDenyJobPattern_cases:
  "MatchDenyJobPattern p j \<longleftrightarrow>
     (\<exists>n ps q. trim_space p \<noteq> [] \<and> \<not> hasDotSegment (trim_space p) \<and>
        \<not> has_prefix (trim_space p) ''/'' \<and> NormalizeJobFullName j = Some n \<and>
        ExpandDenyJobBraces (trim_space p) = Inr ps \<and> q \<in> set ps \<and> matchDenyJobPatternPlain q n)"
  using NormalizeJobFullName_segments(2)
  by (auto simp: MatchDenyJobPattern_def Let_def list_ex_iff split: option.splits sum.splits)

section \<open>Validation agrees with matching\<close>

lemma validatePlainSegment_ok:
  "validatePlainSegment seg = None \<Longrightarrow>
   seg \<noteq> [] \<and> (seg = ''**'' \<or> \<not> str_contains seg ''**'' \<and> validateSegmentCharClasses seg = None)"
  by (simp add: validatePlainSegment_def split: if_splits)

lemma validatePlainBase_ok:
  assumes "validatePlainBase base = None" and "\<not> contains_any base ''{}''"
  shows "structurallyOKDenyBase base"
proof -
  let ?segs = "split_on CHR ''/'' base"
  have ns: "\<not> has_suffix base ''/''" and len: "length ?segs \<le> MaxDenyJobPatternSegments"
    and segs: "first_err (map validatePlainSegment ?segs) = None"
    using assms(1) by (auto simp: validatePlainBase_def Let_def split: if_splits)
  from segs have ok: "validatePlainSegment seg = None" if "seg \<in> set ?segs" for seg
    using that by (auto simp: first_err_None_iff list_all_iff)
  have "base \<noteq> []" using ok [of "[]"] by (auto simp: validatePlainSegment_def)
  moreover have "list_all (\<lambda>seg. if seg = [] then False else if seg = ''**'' then True
      else if str_contains seg ''**'' then False
      else if CHR ''['' \<in> set seg then validateSegmentCharClasses seg = None else True) ?segs"
    unfolding list_all_iff
  proof
    fix seg assume "seg \<in> set ?segs"
    from validatePlainSegment_ok [OF ok [OF this]]
    show "if seg = [] then False else if seg = ''**'' then True
      else if str_contains seg ''**'' then False
      else if CHR ''['' \<in> set seg then validateSegmentCharClasses seg = None else True"
      by presburger
  qed
  ultimately show ?thesis using ns len assms(2)
    by (simp add: structurallyOKDenyBase_def Let_def)
qed

lemma trim_suffix_subset: "set (trim_suffix s p) \<subseteq> set s"
  by (auto simp: trim_suffix_def dest: in_set_takeD)

lemma validatePlain_normalizes:
  assumes "validateDenyJobPatternPlain q = None"
  shows "\<exists>base. normalizeDenyJobPattern q = Some base"
proof -
  have nb: "\<not> contains_any q ''{}''" and nbroad: "q \<noteq> ''*''" "q \<noteq> ''**''" "q \<noteq> ''/**''"
    using assms by (auto simp: validateDenyJobPatternPlain_def split: if_splits)
  show ?thesis
  proof (cases "has_suffix q ''/**''")
    case True
    have "\<not> contains_any (trim_suffix q ''/**'') ''{}''"
      using nb trim_suffix_subset [of q "''/**''"] unfolding contains_any_iff by blast
    with assms True nb nbroad show ?thesis
      by (auto simp: validateDenyJobPatternPlain_def normalizeDenyJobPattern_def Let_def
          intro: validatePlainBase_ok split: if_splits)
  next
    case False
    with assms nb nbroad show ?thesis
      by (auto simp: validateDenyJobPatternPlain_def normalizeDenyJobPattern_def
          intro: validatePlainBase_ok split: if_splits)
  qed
qed

lemma ExpandDenyJobBraces_trim [simp]: "ExpandDenyJobBraces (trim_space p) = ExpandDenyJobBraces p"
  by (simp add: ExpandDenyJobBraces_def)

lemma ExpandDenyJobBraces_bounds:
  "ExpandDenyJobBraces p = Inr ps \<Longrightarrow> ps \<noteq> [] \<and> length ps \<le> 32"
  by (auto simp: ExpandDenyJobBraces_def Let_def brace_limits split: if_splits sum.splits)

section \<open>Two spellings, one resource\<close>

text \<open>The path of a job is determined by its non-empty segments, and determines them.\<close>

lemma BuildJobPath_filter:
  "BuildJobPath j = concat (map (\<lambda>s. ''/job/'' @ path_escape s) (filter (\<lambda>s. s \<noteq> []) (split_on CHR ''/'' j)))"
proof -
  have "concat (map (\<lambda>s. if s = [] then [] else ''/job/'' @ path_escape s) ss) =
      concat (map (\<lambda>s. ''/job/'' @ path_escape s) (filter (\<lambda>s. s \<noteq> []) ss))" for ss :: "string list"
    by (induction ss) auto
  then show ?thesis by (simp add: BuildJobPath_def)
qed

lemma job_path_inj:
  "concat (map (\<lambda>s. ''/job/'' @ path_escape s) ss) = concat (map (\<lambda>s. ''/job/'' @ path_escape s) ts) \<Longrightarrow> ss = ts"
proof (induction ss arbitrary: ts)
  case Nil
  then show ?case by (cases ts) auto
next
  case (Cons s ss)
  let ?cat = "\<lambda>ss. concat (map (\<lambda>s. ''/job/'' @ path_escape s) ss)"
  from Cons.prems obtain t us where ts: "ts = t # us" by (cases ts) auto
  have seg: "takeWhile (\<lambda>c. c \<noteq> CHR ''/'') (path_escape x @ ?cat xs) = path_escape x" for x xs
    using path_escape_no_slash [of x]
    by (cases xs) (auto simp: takeWhile_append takeWhile_eq_all_conv)
  from Cons.prems have eq: "path_escape s @ ?cat ss = path_escape t @ ?cat us" by (simp add: ts)
  then have "path_escape s = path_escape t" using seg by metis
  with eq have "s = t" and "?cat ss = ?cat us" by (auto dest: path_escape_inj)
  with Cons.IH ts show ?case by simp
qed

lemma option_same_Some: "(\<And>n. x = Some n \<longleftrightarrow> y = Some n) \<Longrightarrow> x = y"
  by (cases x; cases y) auto

lemma BuildJobPath_same_name:
  assumes "BuildJobPath (trim_space j) = BuildJobPath (trim_space k)"
  shows "NormalizeJobFullName j = NormalizeJobFullName k"
proof -
  let ?s = "\<lambda>j. split_on CHR ''/'' (trim_space j)"
  have f: "filter (\<lambda>s. s \<noteq> []) (?s j) = filter (\<lambda>s. s \<noteq> []) (?s k)"
    using assms unfolding BuildJobPath_filter by (rule job_path_inj)
  have dots: "d \<in> set (?s x) \<longleftrightarrow> d \<in> set (filter (\<lambda>s. s \<noteq> []) (?s x))" if "d \<noteq> []" for d x
    using that by simp
  have same: "d \<in> set (?s j) \<longleftrightarrow> d \<in> set (?s k)" if "d \<noteq> []" for d
    unfolding dots [OF that] f ..
  have dot_eq: "''..'' \<in> set (?s j) \<longleftrightarrow> ''..'' \<in> set (?s k)" "''.'' \<in> set (?s j) \<longleftrightarrow> ''.'' \<in> set (?s k)"
    by (rule same, simp)+
  have "NormalizeJobFullName j = Some n \<longleftrightarrow> NormalizeJobFullName k = Some n" for n
    unfolding NormalizeJobFullName_filter Let_def dot_eq f ..
  then show ?thesis by (rule option_same_Some)
qed

section \<open>Literal segments\<close>

lemma tokenize_literal:
  "\<not> contains_any pat ''*['' \<Longrightarrow> tokenizeSegmentPattern pat = Some (map TokLit pat)"
proof (induction pat)
  case (Cons c cs)
  then show ?case by (simp add: tokenizeSegmentPattern.simps [of "c # cs"] contains_any_def)
qed (simp add: tokenizeSegmentPattern.simps)

lemma glob_spec_map_TokLit:
  "glob_spec (\<lambda>tk. tk = TokStar) tokMatches (map TokLit pat) s \<longleftrightarrow> pat = s"
proof (induction pat arbitrary: s rule: rev_induct)
  case (snoc c cs)
  have "glob_spec (\<lambda>tk. tk = TokStar) tokMatches (map TokLit cs @ [TokLit c]) s \<longleftrightarrow>
      s \<noteq> [] \<and> cs = butlast s \<and> c = last s"
    by (simp add: glob_spec_snoc_elem [where star = "\<lambda>tk. tk = TokStar"] snoc)
  also have "\<dots> \<longleftrightarrow> cs @ [c] = s"
    by (cases s rule: rev_cases) auto
  finally show ?case by simp
qed auto

section \<open>Properties\<close>

text \<open>C13: one segment of a deny pattern matches one segment of a path exactly when its tokens
  (any run, one literal byte, one byte of a class) match it piece by piece; the equality fast
  path for segments without metacharacters is the same relation, and a segment whose class does
  not parse matches nothing.\<close>

theorem segmentMatchStar_spec:
  "segmentMatchStar pat s =
     (pat \<noteq> ''**'' \<and>
      (case tokenizeSegmentPattern pat of
         None \<Rightarrow> False
       | Some toks \<Rightarrow> glob_spec (\<lambda>tk. tk = TokStar) tokMatches toks s))"
  by (auto simp: segmentMatchStar_def matchSegmentGlob_def matchSegmentTokens_spec
      tokenize_literal glob_spec_map_TokLit split: option.splits)

text \<open>C3: a deny pattern matches a job exactly when the job's name normalises, the pattern is
  relative and free of dot segments, and one of its brace expansions normalises to a base whose
  segments match a leading part of the job's segments, where \<open>**\<close> stands for any number of
  segments: the row-by-row matcher and its prefix fast path compute the declarative relation.\<close>

theorem MatchDenyJobPattern_spec:
  "MatchDenyJobPattern p j =
     (\<exists>n ps q base. trim_space p \<noteq> [] \<and> \<not> hasDotSegment (trim_space p) \<and>
        \<not> has_prefix (trim_space p) ''/'' \<and> NormalizeJobFullName j = Some n \<and>
        ExpandDenyJobBraces p = Inr ps \<and> q \<in> set ps \<and> normalizeDenyJobPattern q = Some base \<and>
        path_spec (split_on CHR ''/'' base) (split_on CHR ''/'' n))"
  unfolding MatchDenyJobPattern_cases matchDenyJobPatternPlain_spec ExpandDenyJobBraces_trim by blast

text \<open>A denial covers the whole subtree: a pattern that matches a job matches everything
  below that job.\<close>

theorem deny_covers_descendants:
  assumes "MatchDenyJobPattern p j"
    and "NormalizeJobFullName j = Some n" and "NormalizeJobFullName k = Some (n @ ''/'' @ rest)"
  shows "MatchDenyJobPattern p k"
proof -
  have "split_on CHR ''/'' (n @ ''/'' @ rest) = split_on CHR ''/'' n @ split_on CHR ''/'' rest"
    by (simp add: split_on_app)
  with assms show ?thesis
    unfolding MatchDenyJobPattern_cases matchDenyJobPatternPlain_spec
    by (auto intro!: path_spec_append)
qed

lemma deny_covers_descendants_witness:
  "MatchDenyJobPattern ''prod/{app,web*}/**'' ''prod/web-1/deploy/nightly''"
  by (rule deny_covers_descendants [of _ "''/prod//web-1/''" "''prod/web-1''" _ "''deploy/nightly''"]) code_simp+

text \<open>Two spellings of a job that reach the same Jenkins URL are denied by the same patterns,
  so a repeated, leading or trailing slash does not get around a denial.\<close>

theorem same_url_same_denials:
  assumes "BuildJobPath (trim_space j) = BuildJobPath (trim_space k)"
  shows "MatchDenyJobPattern p j = MatchDenyJobPattern p k"
  unfolding MatchDenyJobPattern_def BuildJobPath_same_name [OF assms] ..

lemma same_url_same_denials_witness:
  "MatchDenyJobPattern ''prod/**'' ''//prod/app/'' = MatchDenyJobPattern ''prod/**'' ''prod//app''"
  by (rule same_url_same_denials) code_simp

text \<open>A pattern accepted at load is never dropped at match time: it expands to between one
  and thirty-two plain patterns, and every one of them normalises to a base the matcher uses.\<close>

theorem validated_pattern_is_used:
  assumes "ValidateDenyJobPattern p = None"
  shows "\<exists>ps. ExpandDenyJobBraces p = Inr ps \<and> ps \<noteq> [] \<and> length ps \<le> 32 \<and>
    list_all (\<lambda>q. normalizeDenyJobPattern q \<noteq> None) ps"
proof -
  from assms obtain ps where ps: "ExpandDenyJobBraces p = Inr ps"
    and ok: "first_err (map validateDenyJobPatternPlain ps) = None"
    by (auto simp: ValidateDenyJobPattern_def Let_def split: if_splits sum.splits)
  have "normalizeDenyJobPattern q \<noteq> None" if "q \<in> set ps" for q
    using ok that validatePlain_normalizes by (fastforce simp: first_err_None_iff list_all_iff)
  with ExpandDenyJobBraces_bounds [OF ps] ps show ?thesis by (auto simp: list_all_iff)
qed

lemma validated_pattern_is_used_witness:
  "\<exists>ps. ExpandDenyJobBraces ''team/{a,b[0-9]*}/**'' = Inr ps \<and> ps \<noteq> [] \<and> length ps \<le> 32 \<and>
    list_all (\<lambda>q. normalizeDenyJobPattern q \<noteq> None) ps"
  by (rule validated_pattern_is_used) code_simp

end
