(* ===== verification/Overlay.thy ===== *)
theory Overlay
  imports PatternCorrect
begin

text \<open>
  The enterprise policy overlay (\<open>internal/policy/overlay.go\<close>) and its per-user and per-group
  bindings (\<open>internal/policy/bindings.go\<close>): the documents as records, load-time validation and
  the getters. The nine deny-only fields that global overlay, user binding and group binding
  share are one record \<open>DenyFields\<close> the others extend. A Go pointer is an option; a nil slice
  and an empty slice are the empty list. Validation trims the lists in place; here it returns
  the trimmed overlay, and nothing is returned with an error (the loader drops the overlay).
  Reading the JSON file and checking signatures are not modelled.
\<close>

section \<open>Documents\<close>

record DenyFields =
  DenyTools :: "string list"
  DenyJobPrefixes :: "string list"
  DenyNodeNames :: "string list"
  DenyViewNames :: "string list"
  DenyArtifactPaths :: "string list"
  DenyBranchNames :: "string list"
  MaxResultBytes :: "int option"
  MaxToolsPerMinute :: "int option"
  MaxToolsBurst :: "int option"

record UserBinding = DenyFields +
  ub_JenkinsUserID :: string
  ub_ExternalSubject :: string

record GroupBinding = DenyFields +
  gb_GroupID :: string

record SubjectBindings =
  sb_Users :: "UserBinding list"
  sb_Groups :: "GroupBinding list"

record Overlay = DenyFields +
  ov_Version :: int
  ov_ForceReadOnly :: bool
  ov_FleetTelemetryForceOff :: bool
  ov_Mode :: string
  ov_AllowMutationTools :: "string list"
  ov_AllowInterruptModes :: "string list"
  ov_AllowMutationJobPrefixes :: "string list"
  ov_Signature :: string
  ov_Subjects :: "SubjectBindings option"

definition CurrentOverlayVersion :: int where "CurrentOverlayVersion = 1"
definition ModePilot :: string where "ModePilot = ''pilot''"
definition ModeStrict :: string where "ModeStrict = ''strict''"
definition AnonymousJenkinsUser :: string where "AnonymousJenkinsUser = ''anonymous''"

lemmas policy_consts = CurrentOverlayVersion_def ModePilot_def ModeStrict_def AnonymousJenkinsUser_def

definition NormalizeMode :: "Overlay option \<Rightarrow> string" where
  "NormalizeMode oo =
     (case oo of None \<Rightarrow> ModePilot
      | Some ov \<Rightarrow> if ov_Mode ov = [] then ModePilot else ov_Mode ov)"

section \<open>Validation\<close>

text \<open>A range loop that checks the trimmed entries of a list one by one.\<close>

fun check_entries :: "(nat \<Rightarrow> string \<Rightarrow> apperr option) \<Rightarrow> nat \<Rightarrow> string list \<Rightarrow> apperr option" where
  "check_entries chk i [] = None"
| "check_entries chk i (p # ps) =
     (case chk i (trim_space p) of Some e \<Rightarrow> Some e | None \<Rightarrow> check_entries chk (Suc i) ps)"

definition toolEntry :: "string \<Rightarrow> nat \<Rightarrow> string \<Rightarrow> apperr option" where
  "toolEntry fmt i name =
     (if name = [] then Some (newErrf CodeInvalidArgument fmt [show_nat i]) else None)"

definition positiveWhenSet :: "string \<Rightarrow> int option \<Rightarrow> apperr option" where
  "positiveWhenSet field m =
     (case m of None \<Rightarrow> None
      | Some v \<Rightarrow> if v \<le> 0 then Some (newErr CodeInvalidArgument (field @ '' must be positive when set''))
                   else None)"

definition trim_denies :: "'a DenyFields_scheme \<Rightarrow> 'a DenyFields_scheme" where
  "trim_denies d = d\<lparr> DenyTools := map trim_space (DenyTools d),
     DenyJobPrefixes := map trim_space (DenyJobPrefixes d),
     DenyNodeNames := map trim_space (DenyNodeNames d),
     DenyViewNames := map trim_space (DenyViewNames d),
     DenyArtifactPaths := map trim_space (DenyArtifactPaths d),
     DenyBranchNames := map trim_space (DenyBranchNames d) \<rparr>"

text \<open>The checks of the shared fields, under a prefix for the error messages: the empty one in
  \<open>Overlay.Validate\<close>, the binding's in \<open>validateBindingDenies\<close>.\<close>

definition deny_checks :: "string \<Rightarrow> 'a DenyFields_scheme \<Rightarrow> apperr option" where
  "deny_checks pre d = first_err
     [check_entries (toolEntry (pre @ ''deny_tools[%d] is empty'')) 0 (DenyTools d),
      check_entries (validateDenyPatternIndex (pre @ ''deny_job_prefixes'')) 0 (DenyJobPrefixes d),
      check_entries (validateDenyPatternIndex (pre @ ''deny_node_names'')) 0 (DenyNodeNames d),
      check_entries (validateDenyPatternIndex (pre @ ''deny_view_names'')) 0 (DenyViewNames d),
      check_entries (validateDenyPatternIndex (pre @ ''deny_artifact_paths'')) 0 (DenyArtifactPaths d),
      check_entries (validateDenyPatternIndex (pre @ ''deny_branch_names'')) 0 (DenyBranchNames d),
      positiveWhenSet (pre @ ''max_result_bytes'') (MaxResultBytes d),
      positiveWhenSet (pre @ ''max_tools_per_minute'') (MaxToolsPerMinute d),
      positiveWhenSet (pre @ ''max_tools_burst'') (MaxToolsBurst d)]"

definition validateBindingDenies :: "string \<Rightarrow> 'a DenyFields_scheme \<Rightarrow> apperr option" where
  "validateBindingDenies pre d = deny_checks (pre @ ''.'') d"

definition UserBinding_Validate :: "nat \<Rightarrow> UserBinding \<Rightarrow> apperr + UserBinding" where
  "UserBinding_Validate i u0 =
     (let u = u0\<lparr> ub_JenkinsUserID := trim_space (ub_JenkinsUserID u0),
                  ub_ExternalSubject := trim_space (ub_ExternalSubject u0) \<rparr>;
          pre = ''subjects.users['' @ show_nat i @ '']'' in
      if ub_JenkinsUserID u = [] \<and> ub_ExternalSubject u = [] then
        Inl (newErrf CodeInvalidArgument
          ''subjects.users[%d]: jenkins_user_id or external_subject required'' [show_nat i])
      else if ub_JenkinsUserID u \<noteq> [] \<and> equal_fold (ub_JenkinsUserID u) AnonymousJenkinsUser then
        Inl (newErrf CodeInvalidArgument
          ''subjects.users[%d]: anonymous is not a valid binding target'' [show_nat i])
      else case validateBindingDenies pre u of Some e \<Rightarrow> Inl e | None \<Rightarrow> Inr (trim_denies u))"

definition GroupBinding_Validate :: "nat \<Rightarrow> GroupBinding \<Rightarrow> apperr + GroupBinding" where
  "GroupBinding_Validate i g0 =
     (let g = g0\<lparr> gb_GroupID := trim_space (gb_GroupID g0) \<rparr>;
          pre = ''subjects.groups['' @ show_nat i @ '']'' in
      if gb_GroupID g = [] then
        Inl (newErrf CodeInvalidArgument ''subjects.groups[%d]: group_id is required'' [show_nat i])
      else case validateBindingDenies pre g of Some e \<Rightarrow> Inl e | None \<Rightarrow> Inr (trim_denies g))"

fun validate_all :: "(nat \<Rightarrow> 'b \<Rightarrow> apperr + 'b) \<Rightarrow> nat \<Rightarrow> 'b list \<Rightarrow> apperr + 'b list" where
  "validate_all val i [] = Inr []"
| "validate_all val i (b # bs) =
     (case val i b of
        Inl e \<Rightarrow> Inl e
      | Inr b' \<Rightarrow> (case validate_all val (Suc i) bs of Inl e \<Rightarrow> Inl e | Inr bs' \<Rightarrow> Inr (b' # bs')))"

definition SubjectBindings_Validate :: "SubjectBindings option \<Rightarrow> apperr + SubjectBindings option" where
  "SubjectBindings_Validate bo =
     (case bo of
        None \<Rightarrow> Inr None
      | Some b \<Rightarrow>
        (case validate_all UserBinding_Validate 0 (sb_Users b) of
           Inl e \<Rightarrow> Inl e
         | Inr us \<Rightarrow>
           (case validate_all GroupBinding_Validate 0 (sb_Groups b) of
              Inl e \<Rightarrow> Inl e
            | Inr gs \<Rightarrow> Inr (Some \<lparr> sb_Users = us, sb_Groups = gs \<rparr>))))"

definition Overlay_Validate :: "Overlay option \<Rightarrow> apperr + Overlay" where
  "Overlay_Validate oo =
     (case oo of
        None \<Rightarrow> Inl (newErr CodeInvalidArgument ''policy overlay is nil'')
      | Some ov \<Rightarrow>
        if ov_Version ov \<noteq> CurrentOverlayVersion then
          Inl (newErrf CodeInvalidArgument ''unsupported policy overlay version %d (want %d)''
            [show_int (ov_Version ov), show_int CurrentOverlayVersion])
        else if ov_Mode ov \<notin> {[], ModePilot, ModeStrict} then
          Inl (newErrf CodeInvalidArgument ''unsupported policy mode %q (use pilot or strict)'' [ov_Mode ov])
        else case deny_checks [] ov of
          Some e \<Rightarrow> Inl e
        | None \<Rightarrow>
          (case SubjectBindings_Validate (ov_Subjects ov) of
             Inl e \<Rightarrow> Inl e
           | Inr s \<Rightarrow> Inr ((trim_denies ov)\<lparr> ov_Subjects := s \<rparr>)))"

section \<open>Getters\<close>

text \<open>The Go getters return a value and an ok flag; here the flag is the option.\<close>

definition positiveCap :: "int option \<Rightarrow> int option" where
  "positiveCap m = (case m of None \<Rightarrow> None | Some v \<Rightarrow> if v \<le> 0 then None else Some v)"

definition EffectiveMaxResultBytes :: "Overlay option \<Rightarrow> int option" where
  "EffectiveMaxResultBytes oo = (case oo of None \<Rightarrow> None | Some ov \<Rightarrow> positiveCap (MaxResultBytes ov))"

definition EffectiveMaxToolsPerMinute :: "Overlay option \<Rightarrow> int option" where
  "EffectiveMaxToolsPerMinute oo = (case oo of None \<Rightarrow> None | Some ov \<Rightarrow> positiveCap (MaxToolsPerMinute ov))"

definition EffectiveMaxToolsBurst :: "Overlay option \<Rightarrow> int option" where
  "EffectiveMaxToolsBurst oo = (case oo of None \<Rightarrow> None | Some ov \<Rightarrow> positiveCap (MaxToolsBurst ov))"

definition DenyToolSet :: "Overlay option \<Rightarrow> string set" where
  "DenyToolSet oo = (case oo of None \<Rightarrow> {} | Some ov \<Rightarrow> set (DenyTools ov))"

definition DenyJobPrefixList :: "Overlay option \<Rightarrow> string list" where
  "DenyJobPrefixList oo = (case oo of None \<Rightarrow> [] | Some ov \<Rightarrow> DenyJobPrefixes ov)"

definition DenyNodeNameList :: "Overlay option \<Rightarrow> string list" where
  "DenyNodeNameList oo = (case oo of None \<Rightarrow> [] | Some ov \<Rightarrow> DenyNodeNames ov)"

definition DenyViewNameList :: "Overlay option \<Rightarrow> string list" where
  "DenyViewNameList oo = (case oo of None \<Rightarrow> [] | Some ov \<Rightarrow> DenyViewNames ov)"

definition DenyArtifactPathList :: "Overlay option \<Rightarrow> string list" where
  "DenyArtifactPathList oo = (case oo of None \<Rightarrow> [] | Some ov \<Rightarrow> DenyArtifactPaths ov)"

definition DenyBranchNameList :: "Overlay option \<Rightarrow> string list" where
  "DenyBranchNameList oo = (case oo of None \<Rightarrow> [] | Some ov \<Rightarrow> DenyBranchNames ov)"

section \<open>What validation establishes\<close>

lemma ValidateDenyJobPattern_trim [simp]:
  "ValidateDenyJobPattern (trim_space p) = ValidateDenyJobPattern p"
  by (simp add: ValidateDenyJobPattern_def)

lemma validateDenyPatternIndex_None:
  "validateDenyPatternIndex f i p = None \<longleftrightarrow> ValidateDenyJobPattern p = None"
  by (simp add: validateDenyPatternIndex_def)

lemma toolEntry_None: "toolEntry f i name = None \<longleftrightarrow> name \<noteq> []"
  by (simp add: toolEntry_def)

lemma check_entries_None:
  assumes "\<And>i p. chk i p = None \<longleftrightarrow> P p"
  shows "check_entries chk i ps = None \<longleftrightarrow> (\<forall>p \<in> set ps. P (trim_space p))"
proof (induction ps arbitrary: i)
  case (Cons p ps)
  then show ?case using assms [of i "trim_space p"] by (cases "chk i (trim_space p)") auto
qed simp

lemmas check_patterns_None = check_entries_None [OF validateDenyPatternIndex_None]
lemmas check_tools_None = check_entries_None [OF toolEntry_None]

lemma positiveWhenSet_None: "positiveWhenSet f m = None \<longleftrightarrow> (\<forall>v. m = Some v \<longrightarrow> 0 < v)"
  by (auto simp: positiveWhenSet_def split: option.splits)

text \<open>The state of the deny fields after a successful load.\<close>

definition patterns_ok :: "string list \<Rightarrow> bool" where
  "patterns_ok ps = list_all (\<lambda>p. trim_space p = p \<and> ValidateDenyJobPattern p = None) ps"

definition tools_ok :: "string list \<Rightarrow> bool" where
  "tools_ok ts = list_all (\<lambda>t. trim_space t = t \<and> t \<noteq> []) ts"

definition cap_ok :: "int option \<Rightarrow> bool" where
  "cap_ok m = (case m of None \<Rightarrow> True | Some v \<Rightarrow> 0 < v)"

definition denies_ok :: "'a DenyFields_scheme \<Rightarrow> bool" where
  "denies_ok d = (tools_ok (DenyTools d) \<and> patterns_ok (DenyJobPrefixes d) \<and> patterns_ok (DenyNodeNames d) \<and>
     patterns_ok (DenyViewNames d) \<and> patterns_ok (DenyArtifactPaths d) \<and> patterns_ok (DenyBranchNames d) \<and>
     cap_ok (MaxResultBytes d) \<and> cap_ok (MaxToolsPerMinute d) \<and> cap_ok (MaxToolsBurst d))"

definition user_ok :: "UserBinding \<Rightarrow> bool" where
  "user_ok u = (denies_ok u \<and> trim_space (ub_JenkinsUserID u) = ub_JenkinsUserID u \<and>
     trim_space (ub_ExternalSubject u) = ub_ExternalSubject u \<and>
     (ub_JenkinsUserID u \<noteq> [] \<or> ub_ExternalSubject u \<noteq> []) \<and>
     \<not> equal_fold (ub_JenkinsUserID u) AnonymousJenkinsUser)"

definition group_ok :: "GroupBinding \<Rightarrow> bool" where
  "group_ok g = (denies_ok g \<and> trim_space (gb_GroupID g) = gb_GroupID g \<and> gb_GroupID g \<noteq> [])"

definition overlay_ok :: "Overlay \<Rightarrow> bool" where
  "overlay_ok ov = (ov_Version ov = CurrentOverlayVersion \<and> ov_Mode ov \<in> {[], ModePilot, ModeStrict} \<and>
     denies_ok ov \<and>
     (case ov_Subjects ov of None \<Rightarrow> True
      | Some s \<Rightarrow> list_all user_ok (sb_Users s) \<and> list_all group_ok (sb_Groups s)))"

lemma trim_denies_sel [simp]:
  "DenyTools (trim_denies d) = map trim_space (DenyTools d)"
  "DenyJobPrefixes (trim_denies d) = map trim_space (DenyJobPrefixes d)"
  "DenyNodeNames (trim_denies d) = map trim_space (DenyNodeNames d)"
  "DenyViewNames (trim_denies d) = map trim_space (DenyViewNames d)"
  "DenyArtifactPaths (trim_denies d) = map trim_space (DenyArtifactPaths d)"
  "DenyBranchNames (trim_denies d) = map trim_space (DenyBranchNames d)"
  "MaxResultBytes (trim_denies d) = MaxResultBytes d"
  "MaxToolsPerMinute (trim_denies d) = MaxToolsPerMinute d"
  "MaxToolsBurst (trim_denies d) = MaxToolsBurst d"
  by (simp_all add: trim_denies_def)

lemma trim_denies_more [simp]:
  "ub_JenkinsUserID (trim_denies u) = ub_JenkinsUserID u"
  "ub_ExternalSubject (trim_denies u) = ub_ExternalSubject u"
  "gb_GroupID (trim_denies g) = gb_GroupID g"
  "ov_Version (trim_denies ov) = ov_Version ov" "ov_Mode (trim_denies ov) = ov_Mode ov"
  "ov_Subjects (trim_denies ov) = ov_Subjects ov"
  by (simp_all add: trim_denies_def)

text \<open>The nine checks, whatever their messages, are exactly \<open>denies_ok\<close> of the trimmed fields.\<close>

lemma denies_checks: "deny_checks pre d = None \<longleftrightarrow> denies_ok (trim_denies d)"
  unfolding deny_checks_def first_err_None_iff list.pred_inject check_patterns_None check_tools_None
    positiveWhenSet_None denies_ok_def patterns_ok_def tools_ok_def cap_ok_def trim_denies_sel
  by (simp add: list_all_iff split: option.splits)

lemma trim_denies_fix: "denies_ok d \<Longrightarrow> trim_denies d = d"
  by (cases d) (simp add: trim_denies_def denies_ok_def patterns_ok_def tools_ok_def list_all_iff map_idI)

lemma validateBindingDenies_None: "validateBindingDenies pre d = None \<longleftrightarrow> denies_ok (trim_denies d)"
  by (simp add: validateBindingDenies_def denies_checks)

lemma anon_not_nil: "\<not> equal_fold [] AnonymousJenkinsUser"
  by (simp add: equal_fold_def to_lower_def AnonymousJenkinsUser_def)

lemma denies_ok_users:
  "denies_ok (trim_denies (u\<lparr> ub_JenkinsUserID := a, ub_ExternalSubject := b \<rparr>)) = denies_ok (trim_denies u)"
  "denies_ok (trim_denies (g\<lparr> gb_GroupID := a \<rparr>)) = denies_ok (trim_denies g)"
  by (simp_all add: denies_ok_def)

lemma UserBinding_Validate_ok: "UserBinding_Validate i u = Inr u' \<Longrightarrow> user_ok u'"
  using anon_not_nil
  by (auto simp: UserBinding_Validate_def Let_def user_ok_def validateBindingDenies_None
      split: if_splits option.splits)

lemma UserBinding_Validate_fix: "user_ok u \<Longrightarrow> UserBinding_Validate i u = Inr u"
  by (auto simp: UserBinding_Validate_def Let_def user_ok_def trim_denies_fix
      validateBindingDenies_None split: option.splits)

lemma GroupBinding_Validate_ok: "GroupBinding_Validate i g = Inr g' \<Longrightarrow> group_ok g'"
  by (auto simp: GroupBinding_Validate_def Let_def group_ok_def validateBindingDenies_None
      split: if_splits option.splits)

lemma GroupBinding_Validate_fix: "group_ok g \<Longrightarrow> GroupBinding_Validate i g = Inr g"
  by (auto simp: GroupBinding_Validate_def Let_def group_ok_def trim_denies_fix
      validateBindingDenies_None split: option.splits)

lemma validate_all_ok:
  "validate_all val i bs = Inr bs' \<Longrightarrow> (\<And>i b b'. val i b = Inr b' \<Longrightarrow> P b') \<Longrightarrow> list_all P bs'"
  by (induction bs arbitrary: i bs') (auto split: sum.splits)

lemma validate_all_fix:
  "list_all P bs \<Longrightarrow> (\<And>i b. P b \<Longrightarrow> val i b = Inr b) \<Longrightarrow> validate_all val i bs = Inr bs"
  by (induction bs arbitrary: i) auto

lemma SubjectBindings_Validate_fix:
  "(case s of None \<Rightarrow> True | Some s \<Rightarrow> list_all user_ok (sb_Users s) \<and> list_all group_ok (sb_Groups s)) \<Longrightarrow>
     SubjectBindings_Validate s = Inr s"
  by (auto simp: SubjectBindings_Validate_def
        validate_all_fix [where P = user_ok, OF _ UserBinding_Validate_fix]
        validate_all_fix [where P = group_ok, OF _ GroupBinding_Validate_fix] split: option.splits)

lemma Overlay_Validate_fix: "overlay_ok ov \<Longrightarrow> Overlay_Validate (Some ov) = Inr ov"
  using SubjectBindings_Validate_fix [of "ov_Subjects ov"] denies_checks [of "[]" ov]
  by (auto simp: Overlay_Validate_def overlay_ok_def trim_denies_fix)

lemma Overlay_Validate_well_formed:
  assumes "Overlay_Validate oo = Inr ov"
  shows "overlay_ok ov"
proof -
  from assms obtain o0 s where oo: "oo = Some o0" and ver: "ov_Version o0 = CurrentOverlayVersion"
    and mode: "ov_Mode o0 \<in> {[], ModePilot, ModeStrict}" and den: "denies_ok (trim_denies o0)"
    and subj: "SubjectBindings_Validate (ov_Subjects o0) = Inr s"
    and ov: "ov = (trim_denies o0)\<lparr> ov_Subjects := s \<rparr>"
    by (auto simp: Overlay_Validate_def denies_checks split: option.splits if_splits sum.splits)
  have sok: "case s of None \<Rightarrow> True
      | Some s \<Rightarrow> list_all user_ok (sb_Users s) \<and> list_all group_ok (sb_Groups s)"
    using subj by (auto simp: SubjectBindings_Validate_def split: option.splits sum.splits
        dest: validate_all_ok [where P = user_ok, OF _ UserBinding_Validate_ok]
          validate_all_ok [where P = group_ok, OF _ GroupBinding_Validate_ok])
  have d: "denies_ok ov" using den by (simp add: ov denies_ok_def)
  show ?thesis using ver mode d sok by (simp add: overlay_ok_def ov)
qed

section \<open>Properties\<close>

text \<open>An overlay accepted at load is well-formed: supported version and mode, trimmed and
  non-empty tool names, every deny pattern of every list (global and per binding) trimmed and valid,
  every cap positive, no binding for the anonymous user; and validating it again changes nothing.\<close>

theorem Overlay_Validate_ok:
  assumes "Overlay_Validate oo = Inr ov"
  shows "overlay_ok ov \<and> Overlay_Validate (Some ov) = Inr ov"
  using Overlay_Validate_well_formed [OF assms] by (simp add: Overlay_Validate_fix)

text \<open>An overlay with one binding, as an administrator would write it.\<close>

definition exampleOverlay :: Overlay where
  "exampleOverlay = \<lparr> DenyTools = ['' jenkins_get_build_logs''],
     DenyJobPrefixes = [''secret-folder/**'', '' prod/{app,web*} ''], DenyNodeNames = [''agent-[0-9]''],
     DenyViewNames = [], DenyArtifactPaths = [''*.pem''], DenyBranchNames = [''release/*'', ''main''],
     MaxResultBytes = Some 65536, MaxToolsPerMinute = Some 15, MaxToolsBurst = None,
     ov_Version = 1, ov_ForceReadOnly = True, ov_FleetTelemetryForceOff = False, ov_Mode = ''strict'',
     ov_AllowMutationTools = [], ov_AllowInterruptModes = [], ov_AllowMutationJobPrefixes = [],
     ov_Signature = [],
     ov_Subjects = Some \<lparr> sb_Users = [\<lparr> DenyTools = [], DenyJobPrefixes = [''lab/**''], DenyNodeNames = [],
        DenyViewNames = [], DenyArtifactPaths = [], DenyBranchNames = [], MaxResultBytes = Some 1024,
        MaxToolsPerMinute = None, MaxToolsBurst = None,
        ub_JenkinsUserID = '' alice '', ub_ExternalSubject = [] \<rparr>], sb_Groups = [] \<rparr> \<rparr>"

definition exampleLoaded :: Overlay where
  "exampleLoaded = (case Overlay_Validate (Some exampleOverlay) of Inr ov \<Rightarrow> ov | Inl e \<Rightarrow> exampleOverlay)"

lemma exampleLoaded: "Overlay_Validate (Some exampleOverlay) = Inr exampleLoaded"
  by code_simp

lemma Overlay_Validate_ok_witness:
  "overlay_ok exampleLoaded \<and> Overlay_Validate (Some exampleLoaded) = Inr exampleLoaded"
  by (rule Overlay_Validate_ok [OF exampleLoaded])

end
