(* ===== verification/ReadOnly.thy ===== *)
theory ReadOnly
  imports Overlay "HOL-Library.Word"
begin

text \<open>
  The process-wide read-only gate (\<open>internal/policy/readonly.go\<close>), the effect class of a tool
  (\<open>internal/policy/effect.go\<close>), and the classification of a Jenkins HTTP request
  (\<open>internal/jenkins/requestclass.go\<close>). A pointer that may be nil is an option. The enterprise
  force source is the sum of its three implementations; the hot-swappable one keeps its 32-bit
  atomic word.
\<close>

unbundle bit_operations_syntax

section \<open>Enterprise force\<close>

record StaticForce =
  sf_Force :: bool
  sf_Present :: bool

definition dynForcePresent :: "32 word" where "dynForcePresent = push_bit 0 1"
definition dynForceValue :: "32 word" where "dynForceValue = push_bit 1 1"

text \<open>\<open>DynamicForce.Set\<close> on a receiver that may be nil: the new state of the word.\<close>

definition DynamicForce_Set :: "bool \<Rightarrow> bool \<Rightarrow> 32 word option \<Rightarrow> 32 word option" where
  "DynamicForce_Set force present d =
     (case d of
        None \<Rightarrow> None
      | Some _ \<Rightarrow>
          let v = (if present then (if force then dynForcePresent OR dynForceValue else dynForcePresent) else 0)
          in Some v)"

definition NewDynamicForce :: "bool \<Rightarrow> bool \<Rightarrow> 32 word option" where
  "NewDynamicForce force present = DynamicForce_Set force present (Some 0)"

definition NewDynamicForceFromOverlay :: "Overlay option \<Rightarrow> 32 word option" where
  "NewDynamicForceFromOverlay oo =
     (case oo of None \<Rightarrow> NewDynamicForce False False | Some ov \<Rightarrow> NewDynamicForce (ov_ForceReadOnly ov) True)"

definition DynamicForce_SetFromOverlay :: "Overlay option \<Rightarrow> 32 word option \<Rightarrow> 32 word option" where
  "DynamicForce_SetFromOverlay oo d =
     (case d of
        None \<Rightarrow> None
      | Some _ \<Rightarrow>
          (case oo of None \<Rightarrow> DynamicForce_Set False False d
           | Some ov \<Rightarrow> DynamicForce_Set (ov_ForceReadOnly ov) True d))"

datatype EnterpriseForce = FStatic StaticForce | FDynamic "32 word option" | FOverlay "Overlay option"

text \<open>\<open>ForceReadOnly()\<close> of each implementation: the pair (force, ok).\<close>

fun ForceReadOnly :: "EnterpriseForce \<Rightarrow> bool \<times> bool" where
  "ForceReadOnly (FStatic s) = (if \<not> sf_Present s then (False, False) else (sf_Force s, True))"
| "ForceReadOnly (FDynamic d) =
     (case d of
        None \<Rightarrow> (False, False)
      | Some v \<Rightarrow> if v AND dynForcePresent = 0 then (False, False) else (v AND dynForceValue \<noteq> 0, True))"
| "ForceReadOnly (FOverlay oo) =
     (case oo of None \<Rightarrow> (False, False) | Some ov \<Rightarrow> (ov_ForceReadOnly ov, True))"

definition AsEnterpriseForce :: "Overlay option \<Rightarrow> EnterpriseForce option" where
  "AsEnterpriseForce oo = (case oo of None \<Rightarrow> None | Some ov \<Rightarrow> Some (FOverlay (Some ov)))"

section \<open>Effective read-only\<close>

record Inputs =
  in_FlagReadOnly :: bool
  in_EnvReadOnly :: bool
  in_ProfileReadOnly :: "bool option"
  in_Force :: "EnterpriseForce option"
  in_AllowMutations :: bool
  in_SkipBuiltinDefault :: bool

record State =
  st_Effective :: bool
  st_Sources :: "string list"

definition SourceBuiltinDefault :: string where "SourceBuiltinDefault = ''builtin_default''"
definition SourceCLIFlag :: string where "SourceCLIFlag = ''cli_flag''"
definition SourceEnv :: string where "SourceEnv = ''env''"
definition SourceProfile :: string where "SourceProfile = ''profile''"
definition SourceEnterpriseForce :: string where "SourceEnterpriseForce = ''enterprise_force''"
definition SourceAllowMutations :: string where "SourceAllowMutations = ''allow_mutations''"

lemmas source_names = SourceBuiltinDefault_def SourceCLIFlag_def SourceEnv_def SourceProfile_def
  SourceEnterpriseForce_def SourceAllowMutations_def

text \<open>The local closure \<open>add\<close>.\<close>

definition add_source :: "bool \<Rightarrow> string \<Rightarrow> State \<Rightarrow> State" where
  "add_source cond src st =
     (if \<not> cond then st else st\<lparr> st_Effective := True, st_Sources := st_Sources st @ [src] \<rparr>)"

definition forced :: "EnterpriseForce option \<Rightarrow> bool" where
  "forced f = (case f of None \<Rightarrow> False | Some e \<Rightarrow> (case ForceReadOnly e of (force, ok) \<Rightarrow> ok \<and> force))"

definition ComputeEffectiveReadOnly :: "Inputs \<Rightarrow> State" where
  "ComputeEffectiveReadOnly inp =
     (let s0 = \<lparr> st_Effective = False, st_Sources = [] \<rparr>;
          s1 = (if \<not> in_SkipBuiltinDefault inp \<and> \<not> in_AllowMutations inp
                then add_source True SourceBuiltinDefault s0
                else if in_AllowMutations inp
                then s0\<lparr> st_Sources := st_Sources s0 @ [SourceAllowMutations] \<rparr>
                else s0);
          s2 = add_source (in_FlagReadOnly inp) SourceCLIFlag s1;
          s3 = add_source (in_EnvReadOnly inp) SourceEnv s2;
          s4 = (case in_ProfileReadOnly inp of
                  Some True \<Rightarrow> add_source True SourceProfile s3 | _ \<Rightarrow> s3);
          s5 = (if forced (in_Force inp) then add_source True SourceEnterpriseForce s4 else s4)
      in s5)"

definition ParseEnvReadOnly :: "string \<Rightarrow> bool" where
  "ParseEnvReadOnly v = (to_lower (trim_space v) \<in> {''1'', ''true'', ''yes'', ''on''})"

section \<open>The gate\<close>

text \<open>\<open>*ReadOnlyGate\<close>: a pointer to the retained inputs.\<close>

type_synonym ReadOnlyGate = "Inputs option"

definition NewReadOnlyGate :: "Inputs \<Rightarrow> ReadOnlyGate" where
  "NewReadOnlyGate inp = Some inp"

definition NewDefaultReadOnlyGate :: ReadOnlyGate where
  "NewDefaultReadOnlyGate = NewReadOnlyGate \<lparr> in_FlagReadOnly = False, in_EnvReadOnly = False,
     in_ProfileReadOnly = None, in_Force = None, in_AllowMutations = False, in_SkipBuiltinDefault = False \<rparr>"

definition Gate_Effective :: "ReadOnlyGate \<Rightarrow> bool" where
  "Gate_Effective g = (case g of None \<Rightarrow> True | Some inp \<Rightarrow> st_Effective (ComputeEffectiveReadOnly inp))"

definition Gate_Sources :: "ReadOnlyGate \<Rightarrow> string list" where
  "Gate_Sources g =
     (case g of None \<Rightarrow> [SourceBuiltinDefault] | Some inp \<Rightarrow> st_Sources (ComputeEffectiveReadOnly inp))"

definition Gate_State :: "ReadOnlyGate \<Rightarrow> State" where
  "Gate_State g =
     (case g of
        None \<Rightarrow> \<lparr> st_Effective = True, st_Sources = [SourceBuiltinDefault] \<rparr>
      | Some inp \<Rightarrow> ComputeEffectiveReadOnly inp)"

definition DenyMutation :: "ReadOnlyGate \<Rightarrow> string \<Rightarrow> apperr option" where
  "DenyMutation g toolName =
     (if \<not> Gate_Effective g then None
      else
        let name = (if trim_space toolName = [] then ''mutation'' else trim_space toolName) in
        Some (newErrf CodePolicyDenial ''tool %q denied: global read-only is active'' [name]))"

definition AllowMutationRegistration :: "ReadOnlyGate \<Rightarrow> bool" where
  "AllowMutationRegistration g = (\<not> Gate_Effective g)"

definition AllowMutationsOptIn :: "ReadOnlyGate \<Rightarrow> bool" where
  "AllowMutationsOptIn g = (case g of None \<Rightarrow> False | Some inp \<Rightarrow> in_AllowMutations inp)"

definition ShouldRegisterMutations :: "ReadOnlyGate \<Rightarrow> bool" where
  "ShouldRegisterMutations g =
     (case g of None \<Rightarrow> False | Some inp \<Rightarrow> AllowMutationRegistration g \<or> AllowMutationsOptIn g)"

section \<open>Tools and their effect class\<close>

datatype EffectClass = EffectRead | EffectMutate | EffectAuth

definition ToolStartJob :: string where "ToolStartJob = ''jenkins_start_job''"
definition ToolStopBuild :: string where "ToolStopBuild = ''jenkins_stop_build''"
definition ToolCancelQueueItem :: string where "ToolCancelQueueItem = ''jenkins_cancel_queue_item''"
definition ToolInterruptBuild :: string where "ToolInterruptBuild = ''jenkins_interrupt_build''"
definition ToolRebuildBuild :: string where "ToolRebuildBuild = ''jenkins_rebuild_build''"
definition ToolReplayPipeline :: string where "ToolReplayPipeline = ''jenkins_replay_pipeline''"
definition ToolSetJobBuildable :: string where "ToolSetJobBuildable = ''jenkins_set_job_buildable''"
definition ToolSetBuildKeepForever :: string where
  "ToolSetBuildKeepForever = ''jenkins_set_build_keep_forever''"
definition ToolSetBuildDescription :: string where
  "ToolSetBuildDescription = ''jenkins_set_build_description''"
definition ToolCancelQueueItemsForJob :: string where
  "ToolCancelQueueItemsForJob = ''jenkins_cancel_queue_items_for_job''"

lemmas tool_names = ToolStartJob_def ToolStopBuild_def ToolCancelQueueItem_def ToolInterruptBuild_def
  ToolRebuildBuild_def ToolReplayPipeline_def ToolSetJobBuildable_def ToolSetBuildKeepForever_def
  ToolSetBuildDescription_def ToolCancelQueueItemsForJob_def

definition MutationToolNames :: "string list" where
  "MutationToolNames = [ToolStartJob, ToolStopBuild, ToolCancelQueueItem, ToolInterruptBuild,
     ToolRebuildBuild, ToolReplayPipeline, ToolSetJobBuildable, ToolSetBuildKeepForever,
     ToolSetBuildDescription, ToolCancelQueueItemsForJob]"

definition IsMutationTool :: "string \<Rightarrow> bool" where
  "IsMutationTool name = (name \<in> {ToolStartJob, ToolStopBuild, ToolCancelQueueItem, ToolInterruptBuild,
     ToolRebuildBuild, ToolReplayPipeline, ToolSetJobBuildable, ToolSetBuildKeepForever,
     ToolSetBuildDescription, ToolCancelQueueItemsForJob})"

definition ToolEffect :: "string \<Rightarrow> EffectClass" where
  "ToolEffect name = (if IsMutationTool name then EffectMutate else EffectRead)"

section \<open>Jenkins requests\<close>

datatype RequestClass = RequestRead | RequestMutate | RequestAuth | RequestUnclassified

definition RequiresMutationPermission :: "RequestClass \<Rightarrow> bool" where
  "RequiresMutationPermission cls = (case cls of RequestRead \<Rightarrow> False | RequestAuth \<Rightarrow> False | _ \<Rightarrow> True)"

text \<open>The rest of \<open>p\<close> after the first \<open>://\<close>, if there is one.\<close>

fun after_scheme :: "string \<Rightarrow> string option" where
  "after_scheme [] = None"
| "after_scheme (c # cs) = (if has_prefix (c # cs) ''://'' then Some (drop 3 (c # cs)) else after_scheme cs)"

definition normalizeRequestPath :: "string \<Rightarrow> string" where
  "normalizeRequestPath path =
     (let p0 = trim_space path;
          p1 = before_char CHR ''?'' p0;
          p2 = before_char CHR ''#'' p1;
          p3 = (case after_scheme p2 of
                  None \<Rightarrow> p2
                | Some rest \<Rightarrow>
                    if CHR ''/'' \<in> set rest then drop (length (before_char CHR ''/'' rest)) rest else ''/'')
      in if p3 = [] then ''/'' else to_lower p3)"

definition isAuthPath :: "string \<Rightarrow> bool" where
  "isAuthPath p =
     (let rest = trim_prefix p ''/'' in rest = ''crumbissuer'' \<or> has_prefix rest ''crumbissuer/'')"

definition isKnownMutationPath :: "string \<Rightarrow> bool" where
  "isKnownMutationPath p =
     (if has_suffix p ''/build'' \<or> has_suffix p ''/build/'' then True
      else if str_contains p ''/buildwithparameters'' then True
      else if has_suffix p ''/stop'' \<or> has_suffix p ''/stop/'' then True
      else if has_suffix p ''/kill'' \<or> has_suffix p ''/kill/'' then True
      else if has_suffix p ''/term'' \<or> has_suffix p ''/term/'' then True
      else if str_contains p ''/cancelitem'' then True
      else if has_suffix p ''/cancel'' \<or> has_suffix p ''/cancel/'' then True
      else if has_suffix p ''/dodelete'' \<or> has_suffix p ''/dodelete/'' then True
      else if has_suffix p ''/enable'' \<or> has_suffix p ''/enable/'' then True
      else if has_suffix p ''/disable'' \<or> has_suffix p ''/disable/'' then True
      else if str_contains p ''/togglelogkeepforever'' then True
      else if str_contains p ''/submitdescription'' then True
      else if str_contains p ''/rebuild'' then True
      else if str_contains p ''/replay'' then True
      else False)"

definition ClassifyJenkinsRequest :: "string \<Rightarrow> string \<Rightarrow> RequestClass" where
  "ClassifyJenkinsRequest http_method path =
     (let m = to_upper (trim_space http_method); p = normalizeRequestPath path in
      if isAuthPath p then RequestAuth
      else if m \<in> {''GET'', ''HEAD'', ''OPTIONS''} then RequestRead
      else if m \<in> {''POST'', ''PUT'', ''PATCH'', ''DELETE''} then
        (if isKnownMutationPath p then RequestMutate else RequestUnclassified)
      else RequestUnclassified)"

section \<open>The gate, branch by branch\<close>

lemma add_source_effective [simp]: "st_Effective (add_source c s st) \<longleftrightarrow> c \<or> st_Effective st"
  by (simp add: add_source_def)

lemma ComputeEffectiveReadOnly_effective:
  "st_Effective (ComputeEffectiveReadOnly inp) \<longleftrightarrow>
     (\<not> in_SkipBuiltinDefault inp \<and> \<not> in_AllowMutations inp) \<or> in_FlagReadOnly inp \<or> in_EnvReadOnly inp \<or>
     in_ProfileReadOnly inp = Some True \<or> forced (in_Force inp)"
  by (auto simp: ComputeEffectiveReadOnly_def Let_def split: option.splits bool.splits)

lemma DenyMutation_None: "DenyMutation g t = None \<longleftrightarrow> \<not> Gate_Effective g"
  by (simp add: DenyMutation_def Let_def)

lemma DenyMutation_code: "DenyMutation g t = Some e \<Longrightarrow> err_code e = CodePolicyDenial"
  by (auto simp: DenyMutation_def Let_def split: if_splits)

lemma IsMutationTool_iff: "IsMutationTool name \<longleftrightarrow> name \<in> set MutationToolNames"
  by (simp add: IsMutationTool_def MutationToolNames_def)

lemma dynForce_read:
  "ForceReadOnly (FDynamic (DynamicForce_Set force present (Some v))) = (present \<and> force, present)"
  by (cases present; cases force) (simp_all add: DynamicForce_Set_def dynForcePresent_def dynForceValue_def)

lemma sources_effective:
  "st_Effective (ComputeEffectiveReadOnly inp) \<longleftrightarrow>
     (\<exists>s \<in> set (st_Sources (ComputeEffectiveReadOnly inp)). s \<noteq> SourceAllowMutations)"
  by (auto simp: ComputeEffectiveReadOnly_def Let_def add_source_def source_names
      split: option.splits bool.splits)

section \<open>Paths under a job\<close>

text \<open>No two slashes in a row: the separator of a URL scheme cannot occur.\<close>

fun no_dslash :: "string \<Rightarrow> bool" where
  "no_dslash [] = True"
| "no_dslash [a] = True"
| "no_dslash (a # b # cs) = (\<not> (a = CHR ''/'' \<and> b = CHR ''/'') \<and> no_dslash (b # cs))"

lemma no_dslash_append:
  "no_dslash (u @ v) \<longleftrightarrow> no_dslash u \<and> no_dslash v \<and>
     \<not> (u \<noteq> [] \<and> v \<noteq> [] \<and> last u = CHR ''/'' \<and> hd v = CHR ''/'')"
proof (induction u rule: no_dslash.induct)
  case (2 a)
  then show ?case by (cases v) auto
qed auto

lemma no_dslash_noslash: "CHR ''/'' \<notin> set s \<Longrightarrow> no_dslash s"
  by (induction s rule: no_dslash.induct) auto

lemma no_dslash_prefix: "prefix u s \<Longrightarrow> no_dslash s \<Longrightarrow> no_dslash u"
  by (auto simp: prefix_def no_dslash_append)

lemma after_scheme_dslash: "no_dslash s \<Longrightarrow> after_scheme s = None"
proof (induction s)
  case (Cons c cs)
  then have "no_dslash cs" by (cases cs) auto
  moreover have "\<not> has_prefix (c # cs) ''://''"
    using Cons.prems by (auto simp: has_prefix_def prefix_def)
  ultimately show ?case using Cons.IH by simp
qed simp

lemma path_escape_nonempty: "s \<noteq> [] \<Longrightarrow> path_escape s \<noteq> []"
  by (cases s) (simp_all add: path_escape_def path_escape_char_def)

lemma job_path_shape:
  assumes "[] \<notin> set ss"
  shows "no_dslash (concat (map (\<lambda>s. ''/job/'' @ path_escape s) ss)) \<and>
    (ss \<noteq> [] \<longrightarrow> last (concat (map (\<lambda>s. ''/job/'' @ path_escape s) ss)) \<noteq> CHR ''/'')"
  using assms
proof (induction ss rule: rev_induct)
  case (snoc s ss)
  let ?e = "path_escape s"
  have ne: "?e \<noteq> []" and ns: "CHR ''/'' \<notin> set ?e"
    using snoc.prems path_escape_nonempty path_escape_no_slash by auto
  have "last ?e \<noteq> CHR ''/''" "hd ?e \<noteq> CHR ''/''" using ne ns by (metis last_in_set, metis hd_in_set)
  moreover from this ne have "no_dslash (CHR ''/'' # ?e)"
    using no_dslash_noslash [OF ns] by (cases ?e) auto
  ultimately show ?case using snoc ne no_dslash_noslash [OF ns] by (auto simp: no_dslash_append)
qed simp

lemma BuildJobPath_shape:
  "no_dslash (BuildJobPath j)"
  "BuildJobPath j \<noteq> [] \<Longrightarrow> last (BuildJobPath j) \<noteq> CHR ''/'' \<and> prefix ''/job/'' (BuildJobPath j)"
proof -
  let ?ss = "filter (\<lambda>s. s \<noteq> []) (split_on CHR ''/'' j)"
  have bj: "BuildJobPath j = concat (map (\<lambda>s. ''/job/'' @ path_escape s) ?ss)" by (rule BuildJobPath_filter)
  have shape: "no_dslash (BuildJobPath j) \<and> (?ss \<noteq> [] \<longrightarrow> last (BuildJobPath j) \<noteq> CHR ''/'')"
    unfolding bj by (rule job_path_shape) simp
  then show "no_dslash (BuildJobPath j)" ..
  assume ne: "BuildJobPath j \<noteq> []"
  then obtain s ss where "?ss = s # ss" using bj by (cases ?ss) auto
  then have "prefix ''/job/'' (BuildJobPath j)" unfolding bj by (simp add: prefix_def)
  with \<open>?ss = s # ss\<close> shape show "last (BuildJobPath j) \<noteq> CHR ''/'' \<and> prefix ''/job/'' (BuildJobPath j)"
    by (metis list.distinct(1))
qed

lemma prefix_before_char: "prefix (before_char c s) s"
  unfolding before_char_def by (rule prefixI [OF takeWhile_dropWhile_id [symmetric]])

lemma before_char_mono: "prefix u s \<Longrightarrow> prefix (before_char c u) (before_char c s)"
proof (cases "c \<in> set u")
  case True
  assume "prefix u s"
  with True show ?thesis by (auto simp: before_char_def prefix_def takeWhile_append1)
next
  case False
  assume "prefix u s"
  then obtain v where s: "s = u @ v" by (auto simp: prefix_def)
  have u: "takeWhile (\<lambda>x. x \<noteq> c) u = u" using False by (auto simp: takeWhile_eq_all_conv)
  have uv: "takeWhile (\<lambda>x. x \<noteq> c) (u @ v) = u @ takeWhile (\<lambda>x. x \<noteq> c) v"
    using False by (intro takeWhile_append2) auto
  show ?thesis unfolding before_char_def s uv u by simp
qed

text \<open>\<open>strings.TrimSpace\<close> keeps the first byte of a text that does not start with a space.\<close>

lemma trim_space_prefix:
  assumes "s \<noteq> []" and "hd s = CHR ''/''"
  shows "prefix (trim_space s) s"
proof -
  have "find (\<lambda>w. w \<noteq> [] \<and> prefix w s) go_spaces = None"
    using assms by (cases s) (auto simp: find_None_iff go_spaces_def)
  then have "trim_left s = s" by (simp add: trim_left_def strip_words_fix)
  then show ?thesis using trim_right_prefix [of s] by (simp add: trim_space_def)
qed

lemma under_job_not_auth:
  assumes ne: "BuildJobPath j \<noteq> []" and e: "no_dslash (before_char CHR ''?'' e)"
    and e0: "e = [] \<or> hd e = CHR ''/'' \<or> hd e = CHR ''?''"
  shows "\<not> isAuthPath (normalizeRequestPath (BuildJobPath j @ e))"
proof -
  let ?p = "BuildJobPath j @ e"
  have pre: "prefix ''/job/'' ?p" and lst: "last (BuildJobPath j) \<noteq> CHR ''/''"
    using BuildJobPath_shape(2) [OF ne] by (auto intro: prefix_prefix)
  define p2 where "p2 = before_char CHR ''#'' (before_char CHR ''?'' (trim_space ?p))"
  have tp: "prefix (trim_space ?p) ?p" using pre by (intro trim_space_prefix) (auto simp: prefix_def)
  have "prefix p2 (before_char CHR ''?'' ?p)"
    unfolding p2_def using prefix_before_char before_char_mono [OF tp] by (rule prefix_order.trans)
  moreover have "no_dslash (before_char CHR ''?'' ?p)"
  proof (cases "CHR ''?'' \<in> set (BuildJobPath j)")
    case True
    then have "before_char CHR ''?'' ?p = before_char CHR ''?'' (BuildJobPath j)"
      by (simp add: before_char_def takeWhile_append1)
    then show ?thesis using no_dslash_prefix [OF prefix_before_char BuildJobPath_shape(1)] by simp
  next
    case False
    then have "before_char CHR ''?'' ?p = BuildJobPath j @ before_char CHR ''?'' e"
      by (auto simp: before_char_def takeWhile_append)
    then show ?thesis using e BuildJobPath_shape(1) [of j] lst by (simp add: no_dslash_append)
  qed
  ultimately have p2: "after_scheme p2 = None"
    by (intro after_scheme_dslash) (rule no_dslash_prefix)
  have "prefix p2 ?p"
    unfolding p2_def using prefix_before_char tp prefix_order.trans by metis
  with pre consider "p2 = []" | "p2 = ''/''" | r where "p2 = ''/j'' @ r"
    by (cases p2; cases "tl p2") (auto simp: prefix_def)
  moreover have "normalizeRequestPath ?p = (if p2 = [] then ''/'' else to_lower p2)"
    by (simp add: normalizeRequestPath_def Let_def p2_def [symmetric] p2)
  moreover have "to_lower (''/j'' @ r) = ''/j'' @ to_lower r" "to_lower ''/'' = ''/''" for r
    by (simp_all add: to_lower_def lower_char_def)
  moreover have "\<not> isAuthPath (''/j'' @ r)" "\<not> isAuthPath ''/''" for r
    by (simp_all add: isAuthPath_def trim_prefix_def has_prefix_def)
  ultimately show ?thesis by cases (simp_all del: append.simps)
qed

section \<open>Properties\<close>

text \<open>The gate is most-restrictive-wins and fails closed: a mutation passes exactly when there
  is a gate, no flag, environment, profile or enterprise source forces read-only, and the built-in
  default has been removed by an explicit opt-in; no opt-in defeats another source.\<close>

theorem DenyMutation_most_restrictive:
  "DenyMutation g tool = None \<longleftrightarrow>
     (\<exists>inp. g = Some inp \<and> (in_AllowMutations inp \<or> in_SkipBuiltinDefault inp) \<and>
        \<not> in_FlagReadOnly inp \<and> \<not> in_EnvReadOnly inp \<and> in_ProfileReadOnly inp \<noteq> Some True \<and>
        \<not> forced (in_Force inp))"
  unfolding DenyMutation_None
  by (cases g) (auto simp: Gate_Effective_def ComputeEffectiveReadOnly_effective)

text \<open>The reported sources explain the decision: the gate is effective exactly when some source
  other than the write opt-in is listed, also for the missing gate.\<close>

theorem Gate_sources_explain:
  "Gate_Effective g \<longleftrightarrow> (\<exists>s. s \<in> set (Gate_Sources g) \<and> s \<noteq> SourceAllowMutations)"
  using sources_effective
  by (cases g) (auto simp: Gate_Effective_def Gate_Sources_def source_names)

text \<open>The hot-swappable enterprise force, two bits of an atomic word, reports what was last set,
  and set from an overlay it reports exactly what the static adapter of that overlay reports.\<close>

theorem DynamicForce_reports:
  "ForceReadOnly (FDynamic (DynamicForce_Set force present (Some v))) = (present \<and> force, present) \<and>
   ForceReadOnly (FDynamic (DynamicForce_SetFromOverlay oo (Some v))) = ForceReadOnly (FOverlay oo) \<and>
   ForceReadOnly (FDynamic (NewDynamicForceFromOverlay oo)) = ForceReadOnly (FOverlay oo)"
  using dynForce_read
  by (cases oo) (auto simp: DynamicForce_SetFromOverlay_def NewDynamicForceFromOverlay_def NewDynamicForce_def
      simp del: ForceReadOnly.simps(2))

text \<open>No request under a job's URL is authentication traffic, whatever the job is called (a
  folder named crumbIssuer included): any method other than GET, HEAD and OPTIONS needs the
  mutation permission there.\<close>

theorem job_requests_need_permission:
  assumes "BuildJobPath j \<noteq> []"
    and "e = [] \<or> hd e = CHR ''/'' \<or> hd e = CHR ''?''" and "no_dslash (before_char CHR ''?'' e)"
  shows "RequiresMutationPermission (ClassifyJenkinsRequest m (BuildJobPath j @ e)) \<longleftrightarrow>
    to_upper (trim_space m) \<notin> {''GET'', ''HEAD'', ''OPTIONS''}"
  using under_job_not_auth [OF assms(1,3,2)]
  by (auto simp: ClassifyJenkinsRequest_def Let_def RequiresMutationPermission_def)

lemma job_requests_need_permission_witness:
  "RequiresMutationPermission
     (ClassifyJenkinsRequest ''post'' (BuildJobPath ''crumbIssuer/api'' @ ''/doDelete?x=//crumbIssuer/'')) \<longleftrightarrow>
   to_upper (trim_space ''post'') \<notin> {''GET'', ''HEAD'', ''OPTIONS''}"
  by (rule job_requests_need_permission) code_simp+

end
