(* ===== verification/Rbac.thy ===== *)
theory Rbac
  imports ReadOnly
begin

text \<open>
  The deny-only evaluator (\<open>internal/policy/rbac.go\<close>): subjects, actions, targets, decisions,
  the in-memory document, the merge of per-user and per-group bindings
  (\<open>internal/policy/bindings.go\<close>), branch candidates, and evaluation rule by rule.
  The set of denied tools is a Go map from names to empty structs; it is a set here. An
  explanation is a format with its arguments, as error messages are.
\<close>

section \<open>Subjects, actions, targets, decisions\<close>

record Subject =
  su_ProfileID :: string
  su_JenkinsUserID :: string
  su_ExternalSubject :: string
  su_Verified :: bool
  su_Tenant :: string
  su_WorkloadID :: string
  su_Groups :: "string list"

definition NewSubject :: "string \<Rightarrow> string \<Rightarrow> bool \<Rightarrow> Subject" where
  "NewSubject profileID jenkinsUserID verified =
     \<lparr> su_ProfileID = profileID, su_JenkinsUserID = trim_space jenkinsUserID, su_ExternalSubject = [],
       su_Verified = verified, su_Tenant = [], su_WorkloadID = [], su_Groups = [] \<rparr>"

definition NewSubjectFromString :: "string \<Rightarrow> string \<Rightarrow> bool \<Rightarrow> Subject" where
  "NewSubjectFromString profileID jenkinsUserID verified =
     NewSubject (trim_space profileID) jenkinsUserID verified"

definition WithExternal :: "Subject \<Rightarrow> string \<Rightarrow> Subject" where
  "WithExternal s external = s\<lparr> su_ExternalSubject := trim_space external \<rparr>"

definition WithGateway :: "Subject \<Rightarrow> string \<Rightarrow> string \<Rightarrow> string list \<Rightarrow> Subject" where
  "WithGateway s tenant workloadID groups =
     s\<lparr> su_Tenant := trim_space tenant, su_WorkloadID := trim_space workloadID, su_Groups := groups \<rparr>"

definition Subject_IsEmpty :: "Subject \<Rightarrow> bool" where
  "Subject_IsEmpty s = (trim_space (su_JenkinsUserID s) = [])"

definition Subject_IsAnonymous :: "Subject \<Rightarrow> bool" where
  "Subject_IsAnonymous s = equal_fold (trim_space (su_JenkinsUserID s)) AnonymousJenkinsUser"

definition Subject_Valid :: "Subject \<Rightarrow> bool" where
  "Subject_Valid s =
     (if Subject_IsEmpty s \<or> Subject_IsAnonymous s then False
      else if trim_space (su_ProfileID s) = [] then False
      else True)"

record Action =
  ac_ToolName :: string
  ac_Class :: EffectClass

record Target =
  tg_JobName :: string
  tg_JobPattern :: string
  tg_BuildNumber :: int
  tg_NodeName :: string
  tg_ViewName :: string
  tg_ArtifactPath :: string
  tg_BranchName :: string

definition emptyTarget :: Target where
  "emptyTarget = \<lparr> tg_JobName = [], tg_JobPattern = [], tg_BuildNumber = 0, tg_NodeName = [],
     tg_ViewName = [], tg_ArtifactPath = [], tg_BranchName = [] \<rparr>"

datatype DecisionEffect = EffectAllow | EffectDeny

text \<open>Effects are ordered by how much they restrict.\<close>

instantiation DecisionEffect :: linorder
begin

definition less_eq_DecisionEffect :: "DecisionEffect \<Rightarrow> DecisionEffect \<Rightarrow> bool" where
  "less_eq_DecisionEffect a b = (a = EffectAllow \<or> b = EffectDeny)"

definition less_DecisionEffect :: "DecisionEffect \<Rightarrow> DecisionEffect \<Rightarrow> bool" where
  "less_DecisionEffect a b = (a = EffectAllow \<and> b = EffectDeny)"

instance
proof
  fix x y z :: DecisionEffect
  show "(x < y) = (x \<le> y \<and> \<not> y \<le> x)"
    by (cases x; cases y) (simp_all add: less_eq_DecisionEffect_def less_DecisionEffect_def)
  show "x \<le> x" by (cases x) (simp_all add: less_eq_DecisionEffect_def)
  show "x \<le> y \<Longrightarrow> y \<le> z \<Longrightarrow> x \<le> z" by (auto simp: less_eq_DecisionEffect_def)
  show "x \<le> y \<Longrightarrow> y \<le> x \<Longrightarrow> x = y" by (auto simp: less_eq_DecisionEffect_def)
  show "x \<le> y \<or> y \<le> x" by (cases x; cases y) (simp_all add: less_eq_DecisionEffect_def)
qed

end

record Decision =
  de_Effect :: DecisionEffect
  de_ReasonCode :: string
  de_MatchedRule :: string
  de_Explanation :: msg

definition ReasonOK :: string where "ReasonOK = ''ok''"
definition ReasonExplicitDeny :: string where "ReasonExplicitDeny = ''explicit_deny''"
definition ReasonUnknownTool :: string where "ReasonUnknownTool = ''unknown_tool''"
definition ReasonSubjectEmpty :: string where "ReasonSubjectEmpty = ''subject_empty''"
definition ReasonSubjectAnon :: string where "ReasonSubjectAnon = ''subject_anonymous''"
definition ReasonSubjectUnverified :: string where "ReasonSubjectUnverified = ''subject_unverified''"
definition ReasonSubjectInvalid :: string where "ReasonSubjectInvalid = ''subject_invalid''"
definition ReasonNoEvaluator :: string where "ReasonNoEvaluator = ''no_evaluator''"
definition ReasonJobPatternDeny :: string where "ReasonJobPatternDeny = ''job_pattern_deny''"
definition ReasonResourcePatternDeny :: string where
  "ReasonResourcePatternDeny = ''resource_pattern_deny''"

abbreviation denyDecision :: "string \<Rightarrow> string \<Rightarrow> msg \<Rightarrow> Decision" where
  "denyDecision reason rule expl \<equiv>
     \<lparr> de_Effect = EffectDeny, de_ReasonCode = reason, de_MatchedRule = rule, de_Explanation = expl \<rparr>"

definition allowDecision :: Decision where
  "allowDecision = \<lparr> de_Effect = EffectAllow, de_ReasonCode = ReasonOK, de_MatchedRule = [],
     de_Explanation = ([], []) \<rparr>"

definition Allowed :: "Decision \<Rightarrow> bool" where "Allowed d = (de_Effect d = EffectAllow)"
definition Denied :: "Decision \<Rightarrow> bool" where "Denied d = (de_Effect d = EffectDeny)"

definition Decision_Err :: "Decision \<Rightarrow> apperr option" where
  "Decision_Err d =
     (if Allowed d then None
      else Some (AppErr CodePolicyDenial
        (if fst (de_Explanation d) = [] then (''denied by MCP policy'', []) else de_Explanation d)))"

section \<open>Documents and bindings\<close>

record Document =
  doc_Mode :: string
  doc_DenyTools :: "string set"
  doc_DenyJobPrefixes :: "string list"
  doc_DenyNodeNames :: "string list"
  doc_DenyViewNames :: "string list"
  doc_DenyArtifactPaths :: "string list"
  doc_DenyBranchNames :: "string list"
  doc_MaxResultBytes :: int
  doc_MaxToolsPerMinute :: int
  doc_MaxToolsBurst :: int
  doc_ForceReadOnly :: bool
  doc_FleetTelemetryForceOff :: bool
  doc_Version :: int
  doc_RequireVerifiedSubject :: bool
  doc_UserBindings :: "UserBinding list"
  doc_GroupBindings :: "GroupBinding list"

definition emptyDocument :: Document where
  "emptyDocument = \<lparr> doc_Mode = ModePilot, doc_DenyTools = {}, doc_DenyJobPrefixes = [],
     doc_DenyNodeNames = [], doc_DenyViewNames = [], doc_DenyArtifactPaths = [], doc_DenyBranchNames = [],
     doc_MaxResultBytes = 0, doc_MaxToolsPerMinute = 0, doc_MaxToolsBurst = 0, doc_ForceReadOnly = False,
     doc_FleetTelemetryForceOff = False, doc_Version = 0, doc_RequireVerifiedSubject = False,
     doc_UserBindings = [], doc_GroupBindings = [] \<rparr>"

abbreviation orZero :: "int option \<Rightarrow> int" where
  "orZero m \<equiv> (case m of None \<Rightarrow> 0 | Some n \<Rightarrow> n)"

definition DocumentFromOverlay :: "Overlay option \<Rightarrow> Document" where
  "DocumentFromOverlay oo =
     (case oo of
        None \<Rightarrow> emptyDocument
      | Some ov \<Rightarrow>
        \<lparr> doc_Mode = NormalizeMode oo, doc_DenyTools = DenyToolSet oo,
          doc_DenyJobPrefixes = DenyJobPrefixList oo, doc_DenyNodeNames = DenyNodeNameList oo,
          doc_DenyViewNames = DenyViewNameList oo, doc_DenyArtifactPaths = DenyArtifactPathList oo,
          doc_DenyBranchNames = DenyBranchNameList oo,
          doc_MaxResultBytes = orZero (EffectiveMaxResultBytes oo),
          doc_MaxToolsPerMinute = orZero (EffectiveMaxToolsPerMinute oo),
          doc_MaxToolsBurst = orZero (EffectiveMaxToolsBurst oo),
          doc_ForceReadOnly = ov_ForceReadOnly ov,
          doc_FleetTelemetryForceOff = ov_FleetTelemetryForceOff ov, doc_Version = ov_Version ov,
          doc_RequireVerifiedSubject = False,
          doc_UserBindings = (case ov_Subjects ov of None \<Rightarrow> [] | Some s \<Rightarrow> sb_Users s),
          doc_GroupBindings = (case ov_Subjects ov of None \<Rightarrow> [] | Some s \<Rightarrow> sb_Groups s) \<rparr>)"

definition MatchesUser :: "UserBinding \<Rightarrow> Subject \<Rightarrow> bool" where
  "MatchesUser u subject =
     (let ju = trim_space (ub_JenkinsUserID u); ext = trim_space (ub_ExternalSubject u) in
      if ju = [] \<and> ext = [] then False
      else if ju \<noteq> [] \<and> \<not> equal_fold ju (trim_space (su_JenkinsUserID subject)) then False
      else if ext \<noteq> [] \<and> ext \<noteq> trim_space (su_ExternalSubject subject) then False
      else True)"

definition MatchesGroup :: "GroupBinding \<Rightarrow> Subject \<Rightarrow> bool" where
  "MatchesGroup g subject =
     (let want = trim_space (gb_GroupID g) in
      if want = [] then False else list_ex (\<lambda>have. trim_space have = want) (su_Groups subject))"

definition cloneDocument :: "Document \<Rightarrow> Document" where
  "cloneDocument d = d\<lparr> doc_UserBindings := [], doc_GroupBindings := [] \<rparr>"

fun union_loop :: "string set \<Rightarrow> string list \<Rightarrow> string list \<Rightarrow> string set \<times> string list" where
  "union_loop seen out [] = (seen, out)"
| "union_loop seen out (s0 # ss) =
     (let s = trim_space s0 in
      if s = [] then union_loop seen out ss
      else if s \<in> seen then union_loop seen out ss
      else union_loop (insert s seen) (out @ [s]) ss)"

definition unionStrings :: "string list \<Rightarrow> string list \<Rightarrow> string list" where
  "unionStrings base extra =
     (if extra = [] then base
      else case union_loop {} [] base of (seen, out) \<Rightarrow> snd (union_loop seen out extra))"

definition minPositiveCap :: "int \<Rightarrow> int option \<Rightarrow> int" where
  "minPositiveCap base extra =
     (case extra of
        None \<Rightarrow> base
      | Some e \<Rightarrow>
        if e \<le> 0 then base else if base \<le> 0 then e else if e < base then e else base)"

definition mergeBindingIntoDoc :: "'a DenyFields_scheme \<Rightarrow> Document \<Rightarrow> Document" where
  "mergeBindingIntoDoc b doc = doc\<lparr>
     doc_DenyTools := doc_DenyTools doc \<union> {t \<in> set (map trim_space (DenyTools b)). t \<noteq> []},
     doc_DenyJobPrefixes := unionStrings (doc_DenyJobPrefixes doc) (DenyJobPrefixes b),
     doc_DenyNodeNames := unionStrings (doc_DenyNodeNames doc) (DenyNodeNames b),
     doc_DenyViewNames := unionStrings (doc_DenyViewNames doc) (DenyViewNames b),
     doc_DenyArtifactPaths := unionStrings (doc_DenyArtifactPaths doc) (DenyArtifactPaths b),
     doc_DenyBranchNames := unionStrings (doc_DenyBranchNames doc) (DenyBranchNames b),
     doc_MaxResultBytes := minPositiveCap (doc_MaxResultBytes doc) (MaxResultBytes b),
     doc_MaxToolsPerMinute := minPositiveCap (doc_MaxToolsPerMinute doc) (MaxToolsPerMinute b),
     doc_MaxToolsBurst := minPositiveCap (doc_MaxToolsBurst doc) (MaxToolsBurst b) \<rparr>"

definition EffectiveDocumentForSubject :: "Document \<Rightarrow> Subject \<Rightarrow> Document" where
  "EffectiveDocumentForSubject base subject =
     (let out = cloneDocument base in
      if doc_UserBindings base = [] \<and> doc_GroupBindings base = [] then out
      else
        let out1 = foldl (\<lambda>d u. if MatchesUser u subject then mergeBindingIntoDoc u d else d)
                     out (doc_UserBindings base) in
        foldl (\<lambda>d g. if MatchesGroup g subject then mergeBindingIntoDoc g d else d)
          out1 (doc_GroupBindings base))"

section \<open>Branch candidates\<close>

definition add_cand :: "string \<Rightarrow> string list \<Rightarrow> string list" where
  "add_cand s out = (if s = [] then out else if s \<in> set out then out else out @ [s])"

definition BranchDenyCandidates :: "string \<Rightarrow> string list" where
  "BranchDenyCandidates jobNorm0 =
     (let jobNorm = trim_space jobNorm0 in
      if jobNorm = [] then []
      else
        let segs = split_on CHR ''/'' jobNorm; n = length segs in
        if n < 2 then []
        else
          let leaf = add_cand (segs ! (n - 1)) [];
              mids = foldl (\<lambda>out i. add_cand (segs ! i) out) leaf [1 ..< n - 1];
              sufs = foldl (\<lambda>out i. add_cand (join ''/'' (drop i segs)) out) mids (rev [1 ..< n - 1])
          in add_cand jobNorm sufs)"

definition branchNameDenyCandidates :: "string \<Rightarrow> string list" where
  "branchNameDenyCandidates branch0 =
     (let branch = trim_space branch0 in
      if branch = [] then []
      else case NormalizeJobFullName branch of
        None \<Rightarrow> [branch]
      | Some branchNorm \<Rightarrow>
        if branchNorm = [] then [branch]
        else let cands = BranchDenyCandidates branchNorm in
             if cands \<noteq> [] then cands else [branchNorm])"

definition branchDenyJobExplanation :: "string \<Rightarrow> string \<Rightarrow> string \<Rightarrow> msg" where
  "branchDenyJobExplanation cand leaf jobNorm =
     (if cand = leaf then (''branch leaf %q of job %q denied by MCP policy'', [leaf, jobNorm])
      else if cand = jobNorm then (''job %q denied by MCP branch policy'', [jobNorm])
      else (''branch path %q of job %q denied by MCP policy'', [cand, jobNorm]))"

section \<open>Evaluation\<close>

text \<open>The nested range loop over patterns and candidate names, with its early return.\<close>

fun patternHit :: "string list \<Rightarrow> string list \<Rightarrow> (string \<times> string) option" where
  "patternHit [] cands = None"
| "patternHit (p0 # ps) cands =
     (let p = trim_space p0 in
      if p = [] then patternHit ps cands
      else case find (MatchDenyJobPattern p) cands of
        Some c \<Rightarrow> Some (p, c)
      | None \<Rightarrow> patternHit ps cands)"

definition resourceRule :: "string list \<Rightarrow> string \<Rightarrow> string \<Rightarrow> string \<Rightarrow> string \<Rightarrow> Decision option" where
  "resourceRule pats name reason rule expl =
     (if name = [] then None
      else case patternHit pats [name] of
        None \<Rightarrow> None
      | Some (p, c) \<Rightarrow> Some (denyDecision reason (rule @ p) (expl, [name])))"

definition branchRule :: "Document \<Rightarrow> string \<Rightarrow> string \<Rightarrow> Decision option" where
  "branchRule doc branch job =
     (if branch \<noteq> [] then
        (case patternHit (doc_DenyBranchNames doc) (branchNameDenyCandidates branch) of
           None \<Rightarrow> None
         | Some (p, c) \<Rightarrow> Some (denyDecision ReasonResourcePatternDeny (''deny_branch_name:'' @ p)
             (''branch %q denied by MCP policy'', [c])))
      else if doc_DenyBranchNames doc \<noteq> [] \<and> job \<noteq> [] then
        (case NormalizeJobFullName job of
           None \<Rightarrow> None
         | Some jobNorm \<Rightarrow>
           if jobNorm = [] then None
           else
             let cands = BranchDenyCandidates jobNorm in
             if cands = [] then None
             else case patternHit (doc_DenyBranchNames doc) cands of
               None \<Rightarrow> None
             | Some (p, c) \<Rightarrow> Some (denyDecision ReasonResourcePatternDeny (''deny_branch_name:'' @ p)
                 (branchDenyJobExplanation c (hd cands) jobNorm)))
      else None)"

definition StoreReadAction :: string where "StoreReadAction = ''store_cached_read''"

definition knownSeedTools :: "string list" where
  "knownSeedTools = [''jenkins_get_jobs'', ''jenkins_get_job'', ''jenkins_get_running_builds'',
     ''jenkins_get_build'', ''jenkins_get_build_logs'', ''jenkins_get_build_log_tail'',
     ''jenkins_get_queue_item'', ''jenkins_wait_for_queue_item'', ''jenkins_search_builds'',
     ''jenkins_wait_for_running_build'', ''jenkins_list_jobs'', ''jenkins_list_builds'',
     ''jenkins_resolve_baseline'', ''jenkins_get_build_graph'', ''jenkins_get_stage_log'',
     ''jenkins_analyze_tests'', ''jenkins_list_artifacts'', ''jenkins_get_artifact_text'',
     ''jenkins_inspect_artifact'', ''jenkins_get_build_changes'', ''jenkins_mirror_logs'',
     ''jenkins_search_logs'', ''jenkins_get_trace_refs'', ''jenkins_export_trace_refs'',
     ''jenkins_query_external_logs'', ''jenkins_get_change_correlation'', ''jenkins_diagnose_build'',
     ''jenkins_survey_recent_failures'', ''jenkins_compare_builds'', ''jenkins_find_regression_window'',
     ''jenkins_trace_failure_graph'', ''jenkins_explain_queue_delay'', ''jenkins_controller_health'',
     ''jenkins_doctor'', ''jenkins_queue_pressure'', ''jenkins_get_nodes'', ''jenkins_get_node'',
     ''jenkins_list_views'', ''jenkins_get_test_report'', ''jenkins_get_pipeline_stages'',
     ''jenkins_get_capabilities'', ToolStartJob, ToolStopBuild, ToolCancelQueueItem, ToolInterruptBuild,
     ToolRebuildBuild, ToolReplayPipeline, ToolSetJobBuildable, ToolSetBuildKeepForever,
     ToolSetBuildDescription, ToolCancelQueueItemsForJob, StoreReadAction]"

definition IsKnownSeedTool :: "string \<Rightarrow> bool" where
  "IsKnownSeedTool name = (trim_space name \<in> set knownSeedTools)"

fun first_some :: "'a option list \<Rightarrow> 'a option" where
  "first_some [] = None"
| "first_some (None # xs) = first_some xs"
| "first_some (Some x # xs) = Some x"

definition evaluateAgainstDocument :: "Document \<Rightarrow> Action \<Rightarrow> Target \<Rightarrow> Decision" where
  "evaluateAgainstDocument doc action target =
     (let tool = trim_space (ac_ToolName action); job = trim_space (tg_JobName target);
          node = trim_space (tg_NodeName target); view = trim_space (tg_ViewName target);
          art = trim_space (tg_ArtifactPath target); branch = trim_space (tg_BranchName target) in
      if tool = [] then
        denyDecision ReasonUnknownTool [] (''tool name is required for policy evaluation'', [])
      else if tool \<in> doc_DenyTools doc then
        denyDecision ReasonExplicitDeny (''deny_tools:'' @ tool) (''tool %q denied by MCP policy'', [tool])
      else case first_some
        [resourceRule (doc_DenyJobPrefixes doc) job ReasonJobPatternDeny ''deny_job_prefix:''
           ''job %q denied by MCP policy'',
         resourceRule (doc_DenyNodeNames doc) node ReasonResourcePatternDeny ''deny_node_name:''
           ''node %q denied by MCP policy'',
         resourceRule (doc_DenyViewNames doc) view ReasonResourcePatternDeny ''deny_view_name:''
           ''view %q denied by MCP policy'',
         resourceRule (doc_DenyArtifactPaths doc) art ReasonResourcePatternDeny ''deny_artifact_path:''
           ''artifact path %q denied by MCP policy'',
         branchRule doc branch job] of
        Some d \<Rightarrow> d
      | None \<Rightarrow>
        if doc_Mode doc = ModeStrict \<and> \<not> IsKnownSeedTool tool then
          denyDecision ReasonUnknownTool ''mode:strict''
            (''tool %q denied: unknown tool under strict MCP policy'', [tool])
        else allowDecision)"

definition checkSubject :: "Subject \<Rightarrow> bool \<Rightarrow> Decision" where
  "checkSubject subject requireVerified =
     (if Subject_IsEmpty subject then
        denyDecision ReasonSubjectEmpty [] (''MCP policy requires a bound subject (empty identity)'', [])
      else if Subject_IsAnonymous subject then
        denyDecision ReasonSubjectAnon [] (''MCP policy rejects anonymous Jenkins identity'', [])
      else if trim_space (su_ProfileID subject) = [] then
        denyDecision ReasonSubjectInvalid [] (''MCP policy requires a profile-bound subject'', [])
      else if requireVerified \<and> \<not> su_Verified subject then
        denyDecision ReasonSubjectUnverified [] (''MCP policy requires a verified Jenkins principal'', [])
      else allowDecision)"

text \<open>\<open>*DenyOnlyEvaluator\<close>: a pointer to a document.\<close>

type_synonym DenyOnlyEvaluator = "Document option"

definition NewDenyOnlyEvaluator :: "Document \<Rightarrow> DenyOnlyEvaluator" where
  "NewDenyOnlyEvaluator doc = Some (if doc_Mode doc = [] then doc\<lparr> doc_Mode := ModePilot \<rparr> else doc)"

definition NewDenyOnlyFromOverlay :: "Overlay option \<Rightarrow> DenyOnlyEvaluator" where
  "NewDenyOnlyFromOverlay oo = NewDenyOnlyEvaluator (DocumentFromOverlay oo)"

definition DenyOnly_Evaluate :: "DenyOnlyEvaluator \<Rightarrow> Subject \<Rightarrow> Action \<Rightarrow> Target \<Rightarrow> Decision" where
  "DenyOnly_Evaluate e subject action target =
     (case e of
        None \<Rightarrow> denyDecision ReasonNoEvaluator []
          (''MCP policy evaluator is not configured (fail closed)'', [])
      | Some doc \<Rightarrow>
        let d = checkSubject subject (doc_RequireVerifiedSubject doc) in
        if Denied d then d
        else evaluateAgainstDocument (EffectiveDocumentForSubject doc subject) action target)"

definition DenyOnly_Document :: "DenyOnlyEvaluator \<Rightarrow> Document" where
  "DenyOnly_Document e = (case e of None \<Rightarrow> emptyDocument | Some doc \<Rightarrow> doc)"

definition DenyOnly_EffectiveDocument :: "DenyOnlyEvaluator \<Rightarrow> Subject \<Rightarrow> Document" where
  "DenyOnly_EffectiveDocument e subject =
     (case e of None \<Rightarrow> emptyDocument | Some doc \<Rightarrow> EffectiveDocumentForSubject doc subject)"

definition ToolDenied :: "DenyOnlyEvaluator \<Rightarrow> Subject \<Rightarrow> string \<Rightarrow> Decision" where
  "ToolDenied e subject toolName =
     DenyOnly_Evaluate e subject \<lparr> ac_ToolName = toolName, ac_Class = ToolEffect toolName \<rparr> emptyTarget"

definition AllowAll_Evaluate :: "bool \<Rightarrow> Subject \<Rightarrow> Action \<Rightarrow> Target \<Rightarrow> Decision" where
  "AllowAll_Evaluate requireVerified subject action target =
     (let d = checkSubject subject requireVerified in if Denied d then d else allowDecision)"

section \<open>The evaluator interface and list privacy (rbac.go, listfilter.go)\<close>

text \<open>
  \<open>PolicyEvaluator\<close>, the interface, as the sum of its implementations; a nil interface is \<open>None\<close>.
  Only the deny-only evaluator exposes a document.
\<close>

datatype PolicyEvaluator = EvDenyOnly DenyOnlyEvaluator | EvAllowAll bool

fun Evaluate :: "PolicyEvaluator \<Rightarrow> Subject \<Rightarrow> Action \<Rightarrow> Target \<Rightarrow> Decision" where
  "Evaluate (EvDenyOnly e) s a t = DenyOnly_Evaluate e s a t"
| "Evaluate (EvAllowAll r) s a t = AllowAll_Evaluate r s a t"

definition documentForList :: "PolicyEvaluator option \<Rightarrow> Subject \<Rightarrow> Document" where
  "documentForList ev subject =
     (case ev of
        None \<Rightarrow> emptyDocument
      | Some (EvDenyOnly e) \<Rightarrow> DenyOnly_EffectiveDocument e subject
      | Some (EvAllowAll r) \<Rightarrow> emptyDocument)"

definition DenyNodeNamesFromEvaluator :: "PolicyEvaluator option \<Rightarrow> string list" where
  "DenyNodeNamesFromEvaluator ev =
     (case ev of Some (EvDenyOnly e) \<Rightarrow> doc_DenyNodeNames (DenyOnly_Document e) | _ \<Rightarrow> [])"

definition DenyViewNamesFromEvaluator :: "PolicyEvaluator option \<Rightarrow> string list" where
  "DenyViewNamesFromEvaluator ev =
     (case ev of Some (EvDenyOnly e) \<Rightarrow> doc_DenyViewNames (DenyOnly_Document e) | _ \<Rightarrow> [])"

definition DenyJobPrefixesFromEvaluator :: "PolicyEvaluator option \<Rightarrow> string list" where
  "DenyJobPrefixesFromEvaluator ev =
     (case ev of Some (EvDenyOnly e) \<Rightarrow> doc_DenyJobPrefixes (DenyOnly_Document e) | _ \<Rightarrow> [])"

definition DenyArtifactPathsFromEvaluator :: "PolicyEvaluator option \<Rightarrow> string list" where
  "DenyArtifactPathsFromEvaluator ev =
     (case ev of Some (EvDenyOnly e) \<Rightarrow> doc_DenyArtifactPaths (DenyOnly_Document e) | _ \<Rightarrow> [])"

definition DenyBranchNamesFromEvaluator :: "PolicyEvaluator option \<Rightarrow> string list" where
  "DenyBranchNamesFromEvaluator ev =
     (case ev of Some (EvDenyOnly e) \<Rightarrow> doc_DenyBranchNames (DenyOnly_Document e) | _ \<Rightarrow> [])"

definition DenyNodeNamesForSubject :: "PolicyEvaluator option \<Rightarrow> Subject \<Rightarrow> string list" where
  "DenyNodeNamesForSubject ev s = doc_DenyNodeNames (documentForList ev s)"

definition DenyViewNamesForSubject :: "PolicyEvaluator option \<Rightarrow> Subject \<Rightarrow> string list" where
  "DenyViewNamesForSubject ev s = doc_DenyViewNames (documentForList ev s)"

definition DenyJobPrefixesForSubject :: "PolicyEvaluator option \<Rightarrow> Subject \<Rightarrow> string list" where
  "DenyJobPrefixesForSubject ev s = doc_DenyJobPrefixes (documentForList ev s)"

definition DenyArtifactPathsForSubject :: "PolicyEvaluator option \<Rightarrow> Subject \<Rightarrow> string list" where
  "DenyArtifactPathsForSubject ev s = doc_DenyArtifactPaths (documentForList ev s)"

definition DenyBranchNamesForSubject :: "PolicyEvaluator option \<Rightarrow> Subject \<Rightarrow> string list" where
  "DenyBranchNamesForSubject ev s = doc_DenyBranchNames (documentForList ev s)"

definition NameDeniedByPatterns :: "string list \<Rightarrow> string \<Rightarrow> bool" where
  "NameDeniedByPatterns patterns name0 =
     (let name = trim_space name0 in
      if name = [] \<or> patterns = [] then False
      else list_ex (\<lambda>pat0. let pat = trim_space pat0 in pat \<noteq> [] \<and> MatchDenyJobPattern pat name) patterns)"

section \<open>Mutation allowlists (mutation_allowlist.go)\<close>

record MutationPolicy =
  mp_AllowTools :: "string list"
  mp_AllowInterruptModes :: "string list"
  mp_AllowJobPrefixes :: "string list"

definition MutationPolicyFromOverlay :: "Overlay option \<Rightarrow> MutationPolicy option" where
  "MutationPolicyFromOverlay oo =
     (case oo of
        None \<Rightarrow> None
      | Some ov \<Rightarrow>
        if ov_AllowMutationTools ov = [] \<and> ov_AllowInterruptModes ov = [] \<and> ov_AllowMutationJobPrefixes ov = []
        then None
        else Some \<lparr> mp_AllowTools = ov_AllowMutationTools ov, mp_AllowInterruptModes = ov_AllowInterruptModes ov,
               mp_AllowJobPrefixes = ov_AllowMutationJobPrefixes ov \<rparr>)"

definition MutationToolAllowed :: "MutationPolicy option \<Rightarrow> string \<Rightarrow> bool" where
  "MutationToolAllowed po tool0 =
     (let tool = trim_space tool0 in
      if tool = [] \<or> \<not> IsMutationTool tool then False
      else case po of
        None \<Rightarrow> True
      | Some p \<Rightarrow>
        if mp_AllowTools p = [] then True else list_ex (\<lambda>a. trim_space a = tool) (mp_AllowTools p))"

definition CheckInterruptModeAllowed :: "MutationPolicy option \<Rightarrow> string \<Rightarrow> apperr option" where
  "CheckInterruptModeAllowed po mode0 =
     (let mode = to_lower (trim_space mode0) in
      if mode \<notin> {''stop'', ''term'', ''kill''} then
        Some (newErr CodeInvalidArgument ''mode must be stop, term, or kill'')
      else
        let denied = Some (newErrf CodePolicyDenial ''interrupt mode %q is not allowlisted'' [mode]) in
        case po of
          None \<Rightarrow> None
        | Some p \<Rightarrow>
          if mp_AllowInterruptModes p = [] then None
          else if list_ex (\<lambda>a. to_lower (trim_space a) = mode) (mp_AllowInterruptModes p) then None
          else denied)"

definition jobUnderPrefix :: "string \<Rightarrow> string \<Rightarrow> bool" where
  "jobUnderPrefix job pref0 =
     (let pref1 = trim_space pref0 in
      if pref1 = [] then False
      else
        let pref = trim_suffix pref1 ''/'' in
        if pref = [] then False else job = pref \<or> has_prefix job (pref @ ''/''))"

definition CheckMutationJobAllowed :: "MutationPolicy option \<Rightarrow> string \<Rightarrow> apperr option" where
  "CheckMutationJobAllowed po jobFullName =
     (let job = trim_space jobFullName in
      case po of
        None \<Rightarrow> None
      | Some p \<Rightarrow>
        if mp_AllowJobPrefixes p = [] then None
        else if list_ex (jobUnderPrefix job) (mp_AllowJobPrefixes p) then None
        else Some (newErr CodePolicyDenial ''job is not allowlisted for mutations''))"

end
