(* ===== verification/RbacCorrect.thy ===== *)
theory RbacCorrect
  imports Rbac
begin

text \<open>
  Correctness of the deny-only evaluator: its ordered rules against a declarative reading of
  which patterns apply to a subject, monotonicity of the binding merge, end-to-end effect of a
  literal pattern from the loaded overlay, the branch candidates, agreement of list privacy
  with call-time denial, and independence of the spelling of a job name.
\<close>

section \<open>Patterns that apply\<close>

definition deniedBy :: "string list \<Rightarrow> string \<Rightarrow> bool" where
  "deniedBy ps n = list_ex (\<lambda>p. MatchDenyJobPattern p n) ps"

lemma Match_trim [simp]:
  "MatchDenyJobPattern (trim_space p) = MatchDenyJobPattern p"
  "MatchDenyJobPattern p (trim_space j) = MatchDenyJobPattern p j"
  by (simp_all add: MatchDenyJobPattern_def NormalizeJobFullName_def fun_eq_iff)

lemma Match_Nil:
  "trim_space p = [] \<Longrightarrow> \<not> MatchDenyJobPattern p j"
  "trim_space j = [] \<Longrightarrow> \<not> MatchDenyJobPattern p j"
  by (simp_all add: MatchDenyJobPattern_def NormalizeJobFullName_def Let_def)

lemma NameDenied_iff: "NameDeniedByPatterns ps n \<longleftrightarrow> deniedBy ps n"
  using Match_Nil by (auto simp: NameDeniedByPatterns_def deniedBy_def Let_def list_ex_iff)

lemma deniedBy_append [simp]: "deniedBy (ps @ qs) n \<longleftrightarrow> deniedBy ps n \<or> deniedBy qs n"
  by (simp add: deniedBy_def)

lemma deniedBy_Nil [simp]: "\<not> deniedBy [] n"
  by (simp add: deniedBy_def)

lemma patternHit_None: "patternHit ps cands = None \<longleftrightarrow> \<not> list_ex (deniedBy ps) cands"
proof (induction ps cands rule: patternHit.induct)
  case (2 p0 ps cands)
  show ?case
  proof (cases "trim_space p0 = []")
    case False
    show ?thesis
    proof (cases "find (MatchDenyJobPattern p0) cands")
      case None
      then have "\<forall>c \<in> set cands. \<not> MatchDenyJobPattern p0 c" by (auto simp: find_None_iff)
      with None False 2 show ?thesis by (auto simp: deniedBy_def list_ex_iff Let_def)
    next
      case (Some c)
      then have "c \<in> set cands \<and> MatchDenyJobPattern p0 c" by (auto simp: find_Some_iff)
      with Some False show ?thesis by (auto simp: deniedBy_def list_ex_iff Let_def)
    qed
  qed (use 2 Match_Nil in \<open>auto simp: deniedBy_def list_ex_iff Let_def\<close>)
qed (simp add: list_ex_iff deniedBy_def)

lemma patternHit_Some: "list_ex (deniedBy ps) cands \<longleftrightarrow> (\<exists>x. patternHit ps cands = Some x)"
  using patternHit_None [of ps cands] by (cases "patternHit ps cands") auto

lemma patternHit_no_cands [simp]: "patternHit ps [] = None"
  by (simp add: patternHit_None)

lemma resourceRule_None: "resourceRule ps (trim_space n) r ru ex = None \<longleftrightarrow> \<not> deniedBy ps n"
  using Match_Nil patternHit_None [of ps "[trim_space n]"]
  by (auto simp: resourceRule_def deniedBy_def list_ex_iff split: option.splits)

lemma resourceRule_denies: "resourceRule ps n r ru ex = Some d \<Longrightarrow> de_Effect d = EffectDeny"
  by (auto simp: resourceRule_def split: if_splits option.splits)

text \<open>The branch names a target stands for.\<close>

definition branchTargets :: "Target \<Rightarrow> string list" where
  "branchTargets t =
     (if trim_space (tg_BranchName t) \<noteq> [] then branchNameDenyCandidates (tg_BranchName t)
      else case NormalizeJobFullName (tg_JobName t) of None \<Rightarrow> [] | Some n \<Rightarrow> BranchDenyCandidates n)"

lemma NormalizeJobFullName_trim [simp]: "NormalizeJobFullName (trim_space j) = NormalizeJobFullName j"
  by (simp add: NormalizeJobFullName_def)

lemma branchNameDenyCandidates_trim [simp]:
  "branchNameDenyCandidates (trim_space b) = branchNameDenyCandidates b"
  by (simp add: branchNameDenyCandidates_def)

lemma branchRule_None:
  "branchRule doc (trim_space (tg_BranchName t)) (trim_space (tg_JobName t)) = None \<longleftrightarrow>
     \<not> list_ex (deniedBy (doc_DenyBranchNames doc)) (branchTargets t)"
proof (cases "trim_space (tg_BranchName t) = []")
  case True
  show ?thesis
  proof (cases "NormalizeJobFullName (tg_JobName t)")
    case None
    with True show ?thesis by (simp add: branchRule_def branchTargets_def)
  next
    case (Some n)
    then have "trim_space (tg_JobName t) \<noteq> []" by (auto simp: NormalizeJobFullName_def)
    moreover have "\<not> list_ex (deniedBy []) cs" for cs by (simp add: list_ex_iff)
    ultimately show ?thesis
      using True Some NormalizeJobFullName_segments(2) [OF Some]
      by (auto simp: branchRule_def branchTargets_def Let_def patternHit_Some split: option.splits)
  qed
next
  case False
  then show ?thesis
    using patternHit_None [of "doc_DenyBranchNames doc" "branchNameDenyCandidates (tg_BranchName t)"]
    by (auto simp: branchRule_def branchTargets_def split: option.splits)
qed

lemma branchRule_denies: "branchRule doc b j = Some d \<Longrightarrow> de_Effect d = EffectDeny"
  by (auto simp: branchRule_def Let_def split: if_splits option.splits)

lemma first_some_None: "first_some xs = None \<longleftrightarrow> (\<forall>x \<in> set xs. x = None)"
  by (induction xs rule: first_some.induct) auto

lemma first_some_Some: "first_some xs = Some y \<Longrightarrow> Some y \<in> set xs"
  by (induction xs rule: first_some.induct) auto

text \<open>Evaluation of one document, as a list of reasons to deny.\<close>

lemma evaluateAgainstDocument_allowed:
  "Allowed (evaluateAgainstDocument doc a t) \<longleftrightarrow>
     trim_space (ac_ToolName a) \<noteq> [] \<and> trim_space (ac_ToolName a) \<notin> doc_DenyTools doc \<and>
     \<not> deniedBy (doc_DenyJobPrefixes doc) (tg_JobName t) \<and> \<not> deniedBy (doc_DenyNodeNames doc) (tg_NodeName t) \<and>
     \<not> deniedBy (doc_DenyViewNames doc) (tg_ViewName t) \<and>
     \<not> deniedBy (doc_DenyArtifactPaths doc) (tg_ArtifactPath t) \<and>
     \<not> list_ex (deniedBy (doc_DenyBranchNames doc)) (branchTargets t) \<and>
     \<not> (doc_Mode doc = ModeStrict \<and> \<not> IsKnownSeedTool (ac_ToolName a))"
proof (cases "trim_space (ac_ToolName a) = [] \<or> trim_space (ac_ToolName a) \<in> doc_DenyTools doc")
  case True
  then show ?thesis by (auto simp: evaluateAgainstDocument_def Allowed_def Let_def)
next
  case False
  let ?rules = "[resourceRule (doc_DenyJobPrefixes doc) (trim_space (tg_JobName t)) ReasonJobPatternDeny
       ''deny_job_prefix:'' ''job %q denied by MCP policy'',
     resourceRule (doc_DenyNodeNames doc) (trim_space (tg_NodeName t)) ReasonResourcePatternDeny
       ''deny_node_name:'' ''node %q denied by MCP policy'',
     resourceRule (doc_DenyViewNames doc) (trim_space (tg_ViewName t)) ReasonResourcePatternDeny
       ''deny_view_name:'' ''view %q denied by MCP policy'',
     resourceRule (doc_DenyArtifactPaths doc) (trim_space (tg_ArtifactPath t)) ReasonResourcePatternDeny
       ''deny_artifact_path:'' ''artifact path %q denied by MCP policy'',
     branchRule doc (trim_space (tg_BranchName t)) (trim_space (tg_JobName t))]"
  have None_iff: "first_some ?rules = None \<longleftrightarrow>
      \<not> deniedBy (doc_DenyJobPrefixes doc) (tg_JobName t) \<and> \<not> deniedBy (doc_DenyNodeNames doc) (tg_NodeName t) \<and>
      \<not> deniedBy (doc_DenyViewNames doc) (tg_ViewName t) \<and>
      \<not> deniedBy (doc_DenyArtifactPaths doc) (tg_ArtifactPath t) \<and>
      \<not> list_ex (deniedBy (doc_DenyBranchNames doc)) (branchTargets t)"
    by (simp add: first_some_None resourceRule_None branchRule_None)
  have Some_deny: "de_Effect d = EffectDeny" if "first_some ?rules = Some d" for d
    using first_some_Some [OF that] by (auto dest: resourceRule_denies [OF sym] branchRule_denies [OF sym])
  show ?thesis
  proof (cases "first_some ?rules")
    case None
    have "Allowed (evaluateAgainstDocument doc a t) \<longleftrightarrow> \<not> (doc_Mode doc = ModeStrict \<and> \<not> IsKnownSeedTool (ac_ToolName a))"
      using False unfolding evaluateAgainstDocument_def Let_def
      by (simp add: None Allowed_def allowDecision_def IsKnownSeedTool_def)
    moreover note None_iff [THEN iffD1, OF None]
    ultimately show ?thesis using False by blast
  next
    case (Some d)
    have "evaluateAgainstDocument doc a t = d"
      using False unfolding evaluateAgainstDocument_def Let_def by (simp add: Some)
    with Some_deny [OF Some] have "\<not> Allowed (evaluateAgainstDocument doc a t)" by (simp add: Allowed_def)
    moreover have "\<not> (\<not> deniedBy (doc_DenyJobPrefixes doc) (tg_JobName t) \<and>
        \<not> deniedBy (doc_DenyNodeNames doc) (tg_NodeName t) \<and> \<not> deniedBy (doc_DenyViewNames doc) (tg_ViewName t) \<and>
        \<not> deniedBy (doc_DenyArtifactPaths doc) (tg_ArtifactPath t) \<and>
        \<not> list_ex (deniedBy (doc_DenyBranchNames doc)) (branchTargets t))"
      unfolding None_iff [symmetric] Some by simp
    ultimately show ?thesis by satx
  qed
qed

section \<open>The merge of bindings\<close>

text \<open>The deny fields of the bindings that match a subject, in the order they are merged.\<close>

definition matchingDenies :: "Document \<Rightarrow> Subject \<Rightarrow> DenyFields list" where
  "matchingDenies doc s =
     map DenyFields.truncate (filter (\<lambda>u. MatchesUser u s) (doc_UserBindings doc)) @
     map DenyFields.truncate (filter (\<lambda>g. MatchesGroup g s) (doc_GroupBindings doc))"

lemma truncate_sel [simp]:
  "DenyTools (DenyFields.truncate d) = DenyTools d"
  "DenyJobPrefixes (DenyFields.truncate d) = DenyJobPrefixes d"
  "DenyNodeNames (DenyFields.truncate d) = DenyNodeNames d"
  "DenyViewNames (DenyFields.truncate d) = DenyViewNames d"
  "DenyArtifactPaths (DenyFields.truncate d) = DenyArtifactPaths d"
  "DenyBranchNames (DenyFields.truncate d) = DenyBranchNames d"
  "MaxResultBytes (DenyFields.truncate d) = MaxResultBytes d"
  "MaxToolsPerMinute (DenyFields.truncate d) = MaxToolsPerMinute d"
  "MaxToolsBurst (DenyFields.truncate d) = MaxToolsBurst d"
  by (simp_all add: DenyFields.defs)

lemma merge_truncate: "mergeBindingIntoDoc (DenyFields.truncate b) d = mergeBindingIntoDoc b d"
  by (simp add: mergeBindingIntoDoc_def)

lemma foldl_filter:
  "foldl (\<lambda>d u. if P u then mergeBindingIntoDoc u d else d) d us =
   foldl (\<lambda>d b. mergeBindingIntoDoc b d) d (map DenyFields.truncate (filter P us))"
  by (induction us arbitrary: d) (simp_all add: merge_truncate)

lemma EffectiveDocument_fold:
  "EffectiveDocumentForSubject doc s =
     foldl (\<lambda>d b. mergeBindingIntoDoc b d) (cloneDocument doc) (matchingDenies doc s)"
  by (simp add: EffectiveDocumentForSubject_def Let_def matchingDenies_def foldl_filter)

lemma union_loop_spec:
  "seen = set out \<Longrightarrow> union_loop seen out ss = (seen', out') \<Longrightarrow>
     seen' = set out' \<and> set out' = set out \<union> {t \<in> trim_space ` set ss. t \<noteq> []}"
proof (induction ss arbitrary: seen out)
  case (Cons s ss)
  from Cons.prems consider "trim_space s = []" "union_loop seen out ss = (seen', out')"
    | "trim_space s \<noteq> []" "trim_space s \<in> seen" "union_loop seen out ss = (seen', out')"
    | "trim_space s \<noteq> []" "union_loop (insert (trim_space s) seen) (out @ [trim_space s]) ss = (seen', out')"
    by (auto simp: Let_def split: if_splits)
  then show ?case
  proof cases
    case 1
    from Cons.IH [OF Cons.prems(1) 1(2)] 1(1) show ?thesis by auto
  next
    case 2
    from Cons.IH [OF Cons.prems(1) 2(3)] 2(1,2) Cons.prems(1) show ?thesis by auto
  next
    case 3
    from Cons.IH [OF _ 3(2)] Cons.prems(1) have "seen' = set out' \<and>
        set out' = set (out @ [trim_space s]) \<union> {t \<in> trim_space ` set ss. t \<noteq> []}" by simp
    with 3(1) show ?thesis by auto
  qed
qed simp

lemma deniedBy_union: "deniedBy (unionStrings base extra) n \<longleftrightarrow> deniedBy base n \<or> deniedBy extra n"
proof (cases "extra = []")
  case False
  obtain s1 o1 where 1: "union_loop {} [] base = (s1, o1)" by fastforce
  obtain s2 o2 where 2: "union_loop s1 o1 extra = (s2, o2)" by fastforce
  have "set o1 = {t \<in> trim_space ` set base. t \<noteq> []}" "s1 = set o1"
    using union_loop_spec [OF _ 1] by auto
  moreover have "set o2 = set o1 \<union> {t \<in> trim_space ` set extra. t \<noteq> []}"
    using union_loop_spec [OF _ 2] \<open>s1 = set o1\<close> by simp
  ultimately have "set o2 = {t \<in> trim_space ` (set base \<union> set extra). t \<noteq> []}" by auto
  moreover have "unionStrings base extra = o2" using False 1 2 by (simp add: unionStrings_def)
  ultimately have "deniedBy (unionStrings base extra) n \<longleftrightarrow>
      (\<exists>p \<in> set base \<union> set extra. trim_space p \<noteq> [] \<and> MatchDenyJobPattern p n)"
    by (auto simp: deniedBy_def list_ex_iff)
  then show ?thesis using Match_Nil(1) by (auto simp: deniedBy_def list_ex_iff)
qed (simp add: unionStrings_def)

lemma merge_denies:
  fixes bs :: "DenyFields list" and d :: Document
  defines "m \<equiv> foldl (\<lambda>d b. mergeBindingIntoDoc b d) d bs"
  shows "doc_DenyTools m = doc_DenyTools d \<union> {t \<in> trim_space ` (\<Union>b \<in> set bs. set (DenyTools b)). t \<noteq> []}"
    and "deniedBy (doc_DenyJobPrefixes m) n \<longleftrightarrow> deniedBy (doc_DenyJobPrefixes d @ concat (map DenyJobPrefixes bs)) n"
    and "deniedBy (doc_DenyNodeNames m) n \<longleftrightarrow> deniedBy (doc_DenyNodeNames d @ concat (map DenyNodeNames bs)) n"
    and "deniedBy (doc_DenyViewNames m) n \<longleftrightarrow> deniedBy (doc_DenyViewNames d @ concat (map DenyViewNames bs)) n"
    and "deniedBy (doc_DenyArtifactPaths m) n \<longleftrightarrow>
      deniedBy (doc_DenyArtifactPaths d @ concat (map DenyArtifactPaths bs)) n"
    and "deniedBy (doc_DenyBranchNames m) n \<longleftrightarrow> deniedBy (doc_DenyBranchNames d @ concat (map DenyBranchNames bs)) n"
    and "doc_Mode m = doc_Mode d"
  unfolding m_def
  by (induction bs arbitrary: d) (auto simp: mergeBindingIntoDoc_def deniedBy_union)

lemma clone_sel [simp]:
  "doc_DenyTools (cloneDocument d) = doc_DenyTools d" "doc_Mode (cloneDocument d) = doc_Mode d"
  "doc_DenyJobPrefixes (cloneDocument d) = doc_DenyJobPrefixes d"
  "doc_DenyNodeNames (cloneDocument d) = doc_DenyNodeNames d"
  "doc_DenyViewNames (cloneDocument d) = doc_DenyViewNames d"
  "doc_DenyArtifactPaths (cloneDocument d) = doc_DenyArtifactPaths d"
  "doc_DenyBranchNames (cloneDocument d) = doc_DenyBranchNames d"
  "doc_MaxResultBytes (cloneDocument d) = doc_MaxResultBytes d"
  "doc_MaxToolsPerMinute (cloneDocument d) = doc_MaxToolsPerMinute d"
  "doc_MaxToolsBurst (cloneDocument d) = doc_MaxToolsBurst d"
  by (simp_all add: cloneDocument_def)

section \<open>Subjects\<close>

lemma checkSubject_allowed:
  "Denied (checkSubject s r) \<longleftrightarrow> \<not> (Subject_Valid s \<and> \<not> (r \<and> \<not> su_Verified s))"
  by (auto simp: checkSubject_def Denied_def allowDecision_def Subject_Valid_def)

lemma Allowed_not_Denied: "Allowed d \<longleftrightarrow> \<not> Denied d"
  by (cases "de_Effect d") (simp_all add: Allowed_def Denied_def)

lemma effect_eqI: "Allowed d = Allowed d' \<Longrightarrow> de_Effect d = de_Effect d'"
  by (cases "de_Effect d"; cases "de_Effect d'") (simp_all add: Allowed_def)

section \<open>Caps\<close>

text \<open>A cap of zero (or less) is no cap; \<open>capLe a b\<close> says that \<open>a\<close> restricts at least as much as \<open>b\<close>.\<close>

definition capLe :: "int \<Rightarrow> int \<Rightarrow> bool" where
  "capLe a b = (b \<le> 0 \<or> (0 < a \<and> a \<le> b))"

lemma capLe_refl [simp]: "capLe a a"
  unfolding capLe_def by linarith

lemma capLe_trans: "capLe a b \<Longrightarrow> capLe b c \<Longrightarrow> capLe a c"
  by (auto simp: capLe_def)

lemma minPositiveCap_le: "capLe (minPositiveCap base e) base" "capLe (minPositiveCap base e) (orZero e)"
  by (auto simp: capLe_def minPositiveCap_def split: option.splits)

lemma fold_caps:
  fixes f :: "Document \<Rightarrow> int" and g :: "DenyFields \<Rightarrow> int option"
  assumes f: "\<And>b d. f (mergeBindingIntoDoc b d) = minPositiveCap (f d) (g b)"
  shows "capLe (f (foldl (\<lambda>d b. mergeBindingIntoDoc b d) d bs)) (f d)"
    and "b \<in> set bs \<Longrightarrow> capLe (f (foldl (\<lambda>d b. mergeBindingIntoDoc b d) d bs)) (orZero (g b))"
proof -
  have base: "capLe (f (foldl (\<lambda>d b. mergeBindingIntoDoc b d) d bs)) (f d)"
    for d and bs :: "DenyFields list"
  proof (induction bs arbitrary: d)
    case (Cons b bs)
    show ?case by (simp, rule capLe_trans [OF Cons.IH]) (simp add: f minPositiveCap_le(1))
  qed simp
  then show "capLe (f (foldl (\<lambda>d b. mergeBindingIntoDoc b d) d bs)) (f d)" .
  assume "b \<in> set bs"
  then show "capLe (f (foldl (\<lambda>d b. mergeBindingIntoDoc b d) d bs)) (orZero (g b))"
  proof (induction bs arbitrary: d)
    case (Cons c bs)
    have "capLe (f (foldl (\<lambda>d b. mergeBindingIntoDoc b d) (mergeBindingIntoDoc c d) bs)) (orZero (g c))"
      by (rule capLe_trans [OF base]) (simp add: f minPositiveCap_le(2))
    with Cons show ?case by auto
  qed simp
qed

lemma merge_cap_sel:
  "doc_MaxResultBytes (mergeBindingIntoDoc b d) = minPositiveCap (doc_MaxResultBytes d) (MaxResultBytes b)"
  "doc_MaxToolsPerMinute (mergeBindingIntoDoc b d) =
     minPositiveCap (doc_MaxToolsPerMinute d) (MaxToolsPerMinute b)"
  "doc_MaxToolsBurst (mergeBindingIntoDoc b d) = minPositiveCap (doc_MaxToolsBurst d) (MaxToolsBurst b)"
  by (simp_all add: mergeBindingIntoDoc_def)

section \<open>Branch candidates\<close>

lemma add_cand_set: "s \<noteq> [] \<Longrightarrow> set (add_cand s out) = insert s (set out)"
  by (auto simp: add_cand_def)

lemma add_cand_distinct: "distinct out \<Longrightarrow> distinct (add_cand s out)"
  by (auto simp: add_cand_def)

lemma foldl_add_cand:
  "(\<And>i. i \<in> set is \<Longrightarrow> f i \<noteq> []) \<Longrightarrow>
     set (foldl (\<lambda>out i. add_cand (f i) out) out is) = set out \<union> f ` set is"
  by (induction "is" arbitrary: out) (auto simp: add_cand_set)

lemma foldl_add_cand_distinct:
  "distinct out \<Longrightarrow> distinct (foldl (\<lambda>out i. add_cand (f i) out) out is)"
  by (induction "is" arbitrary: out) (auto simp: add_cand_distinct)

lemma foldl_add_cand_hd:
  "out \<noteq> [] \<Longrightarrow> foldl (\<lambda>out i. add_cand (f i) out) out is \<noteq> [] \<and>
     hd (foldl (\<lambda>out i. add_cand (f i) out) out is) = hd out"
  by (induction "is" arbitrary: out) (auto simp: add_cand_def)

lemma join_nonempty: "ss \<noteq> [] \<Longrightarrow> [] \<notin> set ss \<Longrightarrow> join sep ss \<noteq> []"
  by (cases ss) (auto simp: join_Cons)

lemma BranchDenyCandidates_spec:
  assumes segs: "segs = split_on CHR ''/'' n" and ne: "[] \<notin> set segs" and trim: "trim_space n = n"
    and len: "2 \<le> length segs"
  shows "set (BranchDenyCandidates n) =
      (\<lambda>i. segs ! i) ` {1 ..< length segs} \<union> (\<lambda>i. join ''/'' (drop i segs)) ` {0 ..< length segs - 1}"
    and "distinct (BranchDenyCandidates n)" and "hd (BranchDenyCandidates n) = last segs"
    and "BranchDenyCandidates n \<noteq> []"
proof -
  let ?k = "length segs - 1"
  define leaf where "leaf = add_cand (segs ! ?k) []"
  define mids where "mids = foldl (\<lambda>out i. add_cand (segs ! i) out) leaf [1 ..< ?k]"
  define sufs where "sufs = foldl (\<lambda>out i. add_cand (join ''/'' (drop i segs)) out) mids (rev [1 ..< ?k])"
  have n: "join ''/'' segs = n" by (simp add: segs join_split_on)
  have n_ne: "n \<noteq> []" using len segs by auto
  have cands: "BranchDenyCandidates n = add_cand n sufs"
    using len trim n_ne by (simp add: BranchDenyCandidates_def Let_def segs [symmetric] leaf_def mids_def sufs_def)
  have seg_ne: "segs ! i \<noteq> []" if "i < length segs" for i using ne that by (metis nth_mem)
  have suf_ne: "join ''/'' (drop i segs) \<noteq> []" if "i < length segs" for i
    using ne that by (intro join_nonempty) (auto dest: in_set_dropD)
  have leaf: "leaf = [segs ! ?k]" using seg_ne len by (simp add: leaf_def add_cand_def)
  have "set mids = {segs ! ?k} \<union> (\<lambda>i. segs ! i) ` {1 ..< ?k}"
    unfolding mids_def by (subst foldl_add_cand) (auto simp: leaf seg_ne)
  moreover have "set sufs = set mids \<union> (\<lambda>i. join ''/'' (drop i segs)) ` {1 ..< ?k}"
    unfolding sufs_def by (subst foldl_add_cand) (auto simp: suf_ne)
  ultimately have "set (BranchDenyCandidates n) =
      insert n ({segs ! ?k} \<union> (\<lambda>i. segs ! i) ` {1 ..< ?k} \<union> (\<lambda>i. join ''/'' (drop i segs)) ` {1 ..< ?k})"
    unfolding cands using add_cand_set [OF n_ne] by simp
  moreover have "{1 ..< length segs} = insert ?k {1 ..< ?k}" using len by auto
  moreover have "{0 ..< ?k} = insert 0 {1 ..< ?k}" using len by auto
  ultimately show "set (BranchDenyCandidates n) =
      (\<lambda>i. segs ! i) ` {1 ..< length segs} \<union> (\<lambda>i. join ''/'' (drop i segs)) ` {0 ..< ?k}"
    by (auto simp: n)
  show "distinct (BranchDenyCandidates n)"
    unfolding cands sufs_def mids_def leaf
    by (intro add_cand_distinct foldl_add_cand_distinct) simp
  have "sufs \<noteq> [] \<and> hd sufs = segs ! ?k"
    using foldl_add_cand_hd leaf unfolding sufs_def mids_def by (metis list.distinct(1) list.sel(1))
  moreover have "segs \<noteq> []" using len by auto
  ultimately show "hd (BranchDenyCandidates n) = last segs" "BranchDenyCandidates n \<noteq> []"
    unfolding cands by (auto simp: add_cand_def last_conv_nth)
qed

section \<open>Properties\<close>

text \<open>The patterns of one kind that apply to a subject: the document's and its matching bindings'.\<close>

abbreviation applied :: "(Document \<Rightarrow> string list) \<Rightarrow> (DenyFields \<Rightarrow> string list) \<Rightarrow> Document \<Rightarrow> Subject \<Rightarrow> string list" where
  "applied f g doc s \<equiv> f doc @ concat (map g (matchingDenies doc s))"

definition appliedTools :: "Document \<Rightarrow> Subject \<Rightarrow> string set" where
  "appliedTools doc s = doc_DenyTools doc \<union>
     {t \<in> trim_space ` (\<Union>b \<in> set (matchingDenies doc s). set (DenyTools b)). t \<noteq> []}"

lemma evaluate_effective:
  "Allowed (evaluateAgainstDocument (EffectiveDocumentForSubject doc s) a t) \<longleftrightarrow>
     trim_space (ac_ToolName a) \<noteq> [] \<and> trim_space (ac_ToolName a) \<notin> appliedTools doc s \<and>
     \<not> deniedBy (applied doc_DenyJobPrefixes DenyJobPrefixes doc s) (tg_JobName t) \<and>
     \<not> deniedBy (applied doc_DenyNodeNames DenyNodeNames doc s) (tg_NodeName t) \<and>
     \<not> deniedBy (applied doc_DenyViewNames DenyViewNames doc s) (tg_ViewName t) \<and>
     \<not> deniedBy (applied doc_DenyArtifactPaths DenyArtifactPaths doc s) (tg_ArtifactPath t) \<and>
     \<not> list_ex (deniedBy (applied doc_DenyBranchNames DenyBranchNames doc s)) (branchTargets t) \<and>
     \<not> (doc_Mode doc = ModeStrict \<and> \<not> IsKnownSeedTool (ac_ToolName a))"
proof -
  have branch: "deniedBy (doc_DenyBranchNames (EffectiveDocumentForSubject doc s)) =
      deniedBy (applied doc_DenyBranchNames DenyBranchNames doc s)"
    unfolding EffectiveDocument_fold by (rule ext, subst merge_denies(6)) simp
  show ?thesis
    unfolding evaluateAgainstDocument_allowed branch
    unfolding EffectiveDocument_fold merge_denies appliedTools_def clone_sel ..
qed

text \<open>C2: the evaluator allows a call exactly when it is configured, the subject is valid (and
  verified where the document asks for it), and no rule of the document or of a binding matching
  the subject denies it: not the tool name, not a job, node, view or artifact pattern, not a branch
  pattern on one of the branch names the target stands for; in the strict mode, and only there, the tool
  must also be one of the seed tools.\<close>

theorem DenyOnly_allows_iff:
  "Allowed (DenyOnly_Evaluate e s a t) =
     (\<exists>doc. e = Some doc \<and> Subject_Valid s \<and> \<not> (doc_RequireVerifiedSubject doc \<and> \<not> su_Verified s) \<and>
        trim_space (ac_ToolName a) \<noteq> [] \<and> trim_space (ac_ToolName a) \<notin> appliedTools doc s \<and>
        \<not> NameDeniedByPatterns (applied doc_DenyJobPrefixes DenyJobPrefixes doc s) (tg_JobName t) \<and>
        \<not> NameDeniedByPatterns (applied doc_DenyNodeNames DenyNodeNames doc s) (tg_NodeName t) \<and>
        \<not> NameDeniedByPatterns (applied doc_DenyViewNames DenyViewNames doc s) (tg_ViewName t) \<and>
        \<not> NameDeniedByPatterns (applied doc_DenyArtifactPaths DenyArtifactPaths doc s) (tg_ArtifactPath t) \<and>
        \<not> list_ex (NameDeniedByPatterns (applied doc_DenyBranchNames DenyBranchNames doc s)) (branchTargets t) \<and>
        \<not> (doc_Mode doc = ModeStrict \<and> \<not> IsKnownSeedTool (ac_ToolName a)))"
proof (cases e)
  case (Some doc)
  have nd: "NameDeniedByPatterns ps = deniedBy ps" for ps by (rule ext) (rule NameDenied_iff)
  have "Allowed (DenyOnly_Evaluate e s a t) \<longleftrightarrow>
      (Subject_Valid s \<and> \<not> (doc_RequireVerifiedSubject doc \<and> \<not> su_Verified s)) \<and>
      Allowed (evaluateAgainstDocument (EffectiveDocumentForSubject doc s) a t)"
    by (auto simp: Some DenyOnly_Evaluate_def Let_def Allowed_not_Denied checkSubject_allowed)
  then show ?thesis unfolding evaluate_effective nd Some by simp
qed (simp add: DenyOnly_Evaluate_def Allowed_def)

text \<open>C38: bindings only restrict: with the per-user and per-group bindings of the document the
  effect is at least as restrictive as without them, for every subject, action and target.\<close>

theorem bindings_only_restrict:
  "de_Effect (DenyOnly_Evaluate (Some (cloneDocument doc)) s a t) \<le> de_Effect (DenyOnly_Evaluate (Some doc) s a t)"
proof -
  have none: "matchingDenies (cloneDocument doc) s = []"
    by (simp add: matchingDenies_def cloneDocument_def)
  have req: "doc_RequireVerifiedSubject (cloneDocument doc) = doc_RequireVerifiedSubject doc"
    by (simp add: cloneDocument_def)
  have "Allowed (evaluateAgainstDocument (EffectiveDocumentForSubject (cloneDocument doc) s) a t)"
    if "Allowed (evaluateAgainstDocument (EffectiveDocumentForSubject doc s) a t)"
    using that unfolding evaluate_effective
    by (auto simp: none appliedTools_def deniedBy_def list_ex_iff)
  then show ?thesis
    by (cases "de_Effect (evaluateAgainstDocument (EffectiveDocumentForSubject doc s) a t)")
       (auto simp: DenyOnly_Evaluate_def Let_def req Allowed_def Denied_def less_eq_DecisionEffect_def)
qed

text \<open>Budgets only go down: each cap of the effective document restricts at least as much as the
  document's own and as the cap of every binding that matches the subject.\<close>

theorem caps_only_lower:
  assumes "b \<in> set (matchingDenies doc s)"
  shows "capLe (doc_MaxResultBytes (EffectiveDocumentForSubject doc s)) (doc_MaxResultBytes doc) \<and>
    capLe (doc_MaxToolsPerMinute (EffectiveDocumentForSubject doc s)) (doc_MaxToolsPerMinute doc) \<and>
    capLe (doc_MaxToolsBurst (EffectiveDocumentForSubject doc s)) (doc_MaxToolsBurst doc) \<and>
    capLe (doc_MaxResultBytes (EffectiveDocumentForSubject doc s)) (orZero (MaxResultBytes b)) \<and>
    capLe (doc_MaxToolsPerMinute (EffectiveDocumentForSubject doc s)) (orZero (MaxToolsPerMinute b)) \<and>
    capLe (doc_MaxToolsBurst (EffectiveDocumentForSubject doc s)) (orZero (MaxToolsBurst b))"
  using assms fold_caps [of doc_MaxResultBytes, OF merge_cap_sel(1)]
    fold_caps [of doc_MaxToolsPerMinute, OF merge_cap_sel(2)]
    fold_caps [of doc_MaxToolsBurst, OF merge_cap_sel(3)]
  unfolding EffectiveDocument_fold by (metis clone_sel(8) clone_sel(9) clone_sel(10))

definition exampleSubject :: Subject where
  "exampleSubject = NewSubject ''corp'' ''Alice'' True"

lemma caps_only_lower_witness:
  "capLe (doc_MaxResultBytes (EffectiveDocumentForSubject (DocumentFromOverlay (Some exampleLoaded)) exampleSubject)) 1024"
proof -
  have m: "DenyFields.truncate (hd (doc_UserBindings (DocumentFromOverlay (Some exampleLoaded)))) \<in>
      set (matchingDenies (DocumentFromOverlay (Some exampleLoaded)) exampleSubject)"
    by code_simp
  have "orZero (MaxResultBytes (DenyFields.truncate (hd (doc_UserBindings (DocumentFromOverlay (Some exampleLoaded)))))) = 1024"
    by code_simp
  with caps_only_lower [OF m] show ?thesis by simp
qed

lemma literal_expand:
  assumes "\<not> contains_any p ''*[{}''" and "trim_space p = p" and "p \<noteq> []"
  shows "ExpandDenyJobBraces p = Inr [p]"
proof -
  have "\<not> contains_any p ''{}''" using assms(1) by (auto simp: contains_any_iff)
  with assms show ?thesis by (simp add: ExpandDenyJobBraces_def Let_def)
qed

lemma literal_normalize:
  assumes "ValidateDenyJobPattern p = None" and "\<not> contains_any p ''*[{}''" and "trim_space p = p"
  shows "normalizeDenyJobPattern p = Some p \<and> \<not> hasDotSegment p \<and> \<not> has_prefix p ''/'' \<and> p \<noteq> []"
proof -
  have p: "p \<noteq> []" "\<not> hasDotSegment p" "\<not> has_prefix p ''/''"
    using assms by (auto simp: ValidateDenyJobPattern_def Let_def split: if_splits)
  have "validateDenyJobPatternPlain p = None"
    using assms literal_expand [OF assms(2,3) p(1)]
    by (auto simp: ValidateDenyJobPattern_def Let_def first_err_None_iff split: if_splits)
  then obtain base where b: "normalizeDenyJobPattern p = Some base" using validatePlain_normalizes by blast
  have "CHR ''*'' \<notin> set p" using assms(2) by (auto simp: contains_any_iff)
  then have "\<not> has_suffix p ''/**''" by (auto simp: has_suffix_iff)
  with b have "base = p" by (auto simp: normalizeDenyJobPattern_def split: if_splits)
  with b p show ?thesis by simp
qed

text \<open>C11: a literal job pattern of a loaded overlay is enforced end to end: whatever the subject, the
  tool and the other fields of the target, a call on that job or on anything below it is denied.\<close>

theorem loaded_literal_pattern_denies:
  assumes "Overlay_Validate oo = Inr ov" and "p \<in> set (DenyJobPrefixes ov)" and "\<not> contains_any p ''*[{}''"
    and "NormalizeJobFullName (tg_JobName t) = Some n" and "n = p \<or> has_prefix n (p @ ''/'')"
  shows "Denied (Evaluate (EvDenyOnly (NewDenyOnlyFromOverlay (Some ov))) s a t)"
proof -
  have "overlay_ok ov" using Overlay_Validate_well_formed [OF assms(1)] .
  then have p: "trim_space p = p" "ValidateDenyJobPattern p = None"
    using assms(2) by (auto simp: overlay_ok_def denies_ok_def patterns_ok_def list_all_iff)
  note lit = literal_normalize [OF p(2) assms(3) p(1)]
  have "path_spec (split_on CHR ''/'' p) (split_on CHR ''/'' n)"
    by (subst path_spec_literal) (use assms(3,5) in \<open>auto simp: contains_any_iff\<close>)
  then have "MatchDenyJobPattern p (tg_JobName t)"
    using lit p(1) assms(4) literal_expand [OF assms(3) p(1)]
    by (auto simp: MatchDenyJobPattern_cases matchDenyJobPatternPlain_spec)
  with assms(2) have "deniedBy (DenyJobPrefixes ov) (tg_JobName t)" by (auto simp: deniedBy_def list_ex_iff)
  then have "\<not> Allowed (evaluateAgainstDocument (EffectiveDocumentForSubject d s) a t)"
    if "doc_DenyJobPrefixes d = DenyJobPrefixes ov" for d
    unfolding evaluate_effective using that by simp
  then show ?thesis
    by (auto simp: NewDenyOnlyFromOverlay_def NewDenyOnlyEvaluator_def DenyOnly_Evaluate_def Let_def
        Allowed_not_Denied DocumentFromOverlay_def DenyJobPrefixList_def)
qed

lemma loaded_literal_pattern_denies_witness:
  "Overlay_Validate (Some (exampleOverlay\<lparr> DenyJobPrefixes := ['' secret/vault ''] \<rparr>)) =
     Inr (exampleLoaded\<lparr> DenyJobPrefixes := [''secret/vault''] \<rparr>) \<and>
   Denied (Evaluate (EvDenyOnly (NewDenyOnlyFromOverlay (Some (exampleLoaded\<lparr> DenyJobPrefixes := [''secret/vault''] \<rparr>))))
     exampleSubject \<lparr> ac_ToolName = ''jenkins_get_job'', ac_Class = EffectRead \<rparr>
     (emptyTarget\<lparr> tg_JobName := ''/secret//vault/rotate'' \<rparr>))"
proof -
  have v: "Overlay_Validate (Some (exampleOverlay\<lparr> DenyJobPrefixes := ['' secret/vault ''] \<rparr>)) =
     Inr (exampleLoaded\<lparr> DenyJobPrefixes := [''secret/vault''] \<rparr>)"
    by code_simp
  have n: "NormalizeJobFullName (tg_JobName (emptyTarget\<lparr> tg_JobName := ''/secret//vault/rotate'' \<rparr>)) =
      Some ''secret/vault/rotate''"
    by code_simp
  have "Denied (Evaluate (EvDenyOnly (NewDenyOnlyFromOverlay (Some (exampleLoaded\<lparr> DenyJobPrefixes := [''secret/vault''] \<rparr>))))
     exampleSubject \<lparr> ac_ToolName = ''jenkins_get_job'', ac_Class = EffectRead \<rparr>
     (emptyTarget\<lparr> tg_JobName := ''/secret//vault/rotate'' \<rparr>))"
    by (rule loaded_literal_pattern_denies [OF v _ _ n, of "''secret/vault''"]) code_simp+
  with v show ?thesis ..
qed

text \<open>The branch names a nested job may stand for are exactly its segments after the first and
  its trailing paths of two or more segments, the whole name included; the folder root alone is
  never one. No name is listed twice and the leaf comes first.\<close>

theorem BranchDenyCandidates_exact:
  assumes "segs = split_on CHR ''/'' n" and "[] \<notin> set segs" and "trim_space n = n" and "2 \<le> length segs"
  shows "set (BranchDenyCandidates n) =
      (\<lambda>i. segs ! i) ` {1 ..< length segs} \<union> (\<lambda>i. join ''/'' (drop i segs)) ` {0 ..< length segs - 1} \<and>
    distinct (BranchDenyCandidates n) \<and> hd (BranchDenyCandidates n) = last segs"
  using BranchDenyCandidates_spec [OF assms] by simp

lemma BranchDenyCandidates_exact_witness:
  "set (BranchDenyCandidates ''team/mb/release/1.2'') =
      (\<lambda>i. [''team'', ''mb'', ''release'', ''1.2''] ! i) ` {1 ..< length [''team'', ''mb'', ''release'', ''1.2'']} \<union>
      (\<lambda>i. join ''/'' (drop i [''team'', ''mb'', ''release'', ''1.2''])) `
        {0 ..< length [''team'', ''mb'', ''release'', ''1.2''] - 1} \<and>
    distinct (BranchDenyCandidates ''team/mb/release/1.2'') \<and>
    hd (BranchDenyCandidates ''team/mb/release/1.2'') = last [''team'', ''mb'', ''release'', ''1.2'']"
  by (rule BranchDenyCandidates_exact) code_simp+

text \<open>Two spellings of a job that reach the same Jenkins URL get the same effect from the
  evaluator: slashes do not get around a job rule or a branch rule.\<close>

theorem same_url_same_effect:
  assumes "BuildJobPath (trim_space j) = BuildJobPath (trim_space k)"
  shows "de_Effect (DenyOnly_Evaluate e s a (t\<lparr> tg_JobName := j \<rparr>)) =
    de_Effect (DenyOnly_Evaluate e s a (t\<lparr> tg_JobName := k \<rparr>))"
proof -
  have same: "NormalizeJobFullName j = NormalizeJobFullName k" by (rule BuildJobPath_same_name [OF assms])
  then have "MatchDenyJobPattern p j = MatchDenyJobPattern p k" for p by (simp add: MatchDenyJobPattern_def)
  then have "deniedBy ps j = deniedBy ps k" for ps by (simp add: deniedBy_def)
  moreover have "branchTargets (t\<lparr> tg_JobName := j \<rparr>) = branchTargets (t\<lparr> tg_JobName := k \<rparr>)"
    by (simp add: branchTargets_def same)
  ultimately have "Allowed (evaluateAgainstDocument (EffectiveDocumentForSubject d s) a (t\<lparr> tg_JobName := j \<rparr>)) =
      Allowed (evaluateAgainstDocument (EffectiveDocumentForSubject d s) a (t\<lparr> tg_JobName := k \<rparr>))" for d
    unfolding evaluate_effective by simp
  then have "de_Effect (evaluateAgainstDocument (EffectiveDocumentForSubject d s) a (t\<lparr> tg_JobName := j \<rparr>)) =
      de_Effect (evaluateAgainstDocument (EffectiveDocumentForSubject d s) a (t\<lparr> tg_JobName := k \<rparr>))" for d
    by (rule effect_eqI)
  then show ?thesis by (auto simp: DenyOnly_Evaluate_def Let_def split: option.splits)
qed

lemma same_url_same_effect_witness:
  "de_Effect (DenyOnly_Evaluate (NewDenyOnlyFromOverlay (Some exampleLoaded)) exampleSubject
      \<lparr> ac_ToolName = ''jenkins_get_job'', ac_Class = EffectRead \<rparr> (emptyTarget\<lparr> tg_JobName := ''/lab//x'' \<rparr>)) =
   de_Effect (DenyOnly_Evaluate (NewDenyOnlyFromOverlay (Some exampleLoaded)) exampleSubject
      \<lparr> ac_ToolName = ''jenkins_get_job'', ac_Class = EffectRead \<rparr> (emptyTarget\<lparr> tg_JobName := ''lab/x'' \<rparr>))"
  by (rule same_url_same_effect) code_simp

text \<open>C37: what a list hides, a call denies: a job, node, view or artifact row removed by the
  patterns handed to list privacy for a subject is denied to that subject at call time.\<close>

theorem hidden_rows_are_denied:
  assumes "NameDeniedByPatterns (DenyJobPrefixesForSubject (Some ev) s) (tg_JobName t) \<or>
    NameDeniedByPatterns (DenyNodeNamesForSubject (Some ev) s) (tg_NodeName t) \<or>
    NameDeniedByPatterns (DenyViewNamesForSubject (Some ev) s) (tg_ViewName t) \<or>
    NameDeniedByPatterns (DenyArtifactPathsForSubject (Some ev) s) (tg_ArtifactPath t) \<or>
    list_ex (NameDeniedByPatterns (DenyBranchNamesForSubject (Some ev) s)) (branchTargets t)"
  shows "Denied (Evaluate ev s a t)"
proof -
  have nd: "NameDeniedByPatterns ps = deniedBy ps" for ps by (rule ext) (rule NameDenied_iff)
  have no_ex: "\<not> list_ex (deniedBy []) xs" for xs by (simp add: list_ex_iff)
  obtain doc where ev: "ev = EvDenyOnly (Some doc)"
  proof (cases ev)
    case (EvDenyOnly e)
    with assms no_ex that show ?thesis
      by (cases e) (auto simp: nd DenyJobPrefixesForSubject_def DenyNodeNamesForSubject_def
          DenyViewNamesForSubject_def DenyArtifactPathsForSubject_def DenyBranchNamesForSubject_def
          documentForList_def DenyOnly_EffectiveDocument_def emptyDocument_def)
  next
    case (EvAllowAll r)
    with assms no_ex show ?thesis
      by (auto simp: nd DenyJobPrefixesForSubject_def DenyNodeNamesForSubject_def
          DenyViewNamesForSubject_def DenyArtifactPathsForSubject_def DenyBranchNamesForSubject_def
          documentForList_def emptyDocument_def)
  qed
  have "\<not> Allowed (evaluateAgainstDocument (EffectiveDocumentForSubject doc s) a t)"
    using assms unfolding evaluateAgainstDocument_allowed nd ev
    by (auto simp: DenyJobPrefixesForSubject_def DenyNodeNamesForSubject_def
          DenyViewNamesForSubject_def DenyArtifactPathsForSubject_def DenyBranchNamesForSubject_def
          documentForList_def DenyOnly_EffectiveDocument_def)
  then show ?thesis by (auto simp: ev DenyOnly_Evaluate_def Let_def Allowed_not_Denied)
qed

lemma hidden_rows_are_denied_witness:
  "Denied (Evaluate (EvDenyOnly (NewDenyOnlyFromOverlay (Some exampleLoaded))) exampleSubject
     \<lparr> ac_ToolName = ''jenkins_get_node'', ac_Class = EffectRead \<rparr> (emptyTarget\<lparr> tg_NodeName := ''agent-7'' \<rparr>))"
  by (rule hidden_rows_are_denied) code_simp

end
