(* ===== verification/Enforce.thy ===== *)
theory Enforce
  imports RbacCorrect
begin

text \<open>
  The policy enforcement points (\<open>internal/policy/enforce.go\<close>): tool middleware, the guard in
  front of every Jenkins request, and the check before cached content is served. An evaluator
  behind the Go interface is a function from subject, action and target to a decision; a nil
  interface is \<open>None\<close>. The context is the flag \<open>cancelled\<close>: whether \<open>ctx.Err()\<close> is non-nil at
  the call. The locale \<open>policy_evaluator\<close> holds the laws the enforcement points rely on; both
  evaluators of the package interpret it.
\<close>

type_synonym evaluator = "Subject \<Rightarrow> Action \<Rightarrow> Target \<Rightarrow> Decision"

section \<open>Tool access\<close>

definition CheckToolAccessWithTarget ::
  "bool \<Rightarrow> ReadOnlyGate \<Rightarrow> evaluator option \<Rightarrow> Subject \<Rightarrow> string \<Rightarrow> EffectClass \<Rightarrow> Target \<Rightarrow> apperr option" where
  "CheckToolAccessWithTarget cancelled gate ev subject toolName cls target =
     (if cancelled then Some (newErr CodeCancelled ''policy check cancelled'')
      else
        let name = trim_space toolName in
        if name = [] then Some (newErr CodePolicyDenial ''tool name is required for policy evaluation'')
        else case (if cls = EffectMutate then DenyMutation gate name else None) of
          Some e \<Rightarrow> Some e
        | None \<Rightarrow>
          (case ev of
             None \<Rightarrow> None
           | Some f \<Rightarrow> Decision_Err (f subject \<lparr> ac_ToolName = name, ac_Class = cls \<rparr> target)))"

definition CheckToolAccess ::
  "bool \<Rightarrow> ReadOnlyGate \<Rightarrow> evaluator option \<Rightarrow> Subject \<Rightarrow> string \<Rightarrow> EffectClass \<Rightarrow> apperr option" where
  "CheckToolAccess cancelled gate ev subject toolName cls =
     CheckToolAccessWithTarget cancelled gate ev subject toolName cls emptyTarget"

section \<open>Jenkins requests\<close>

definition requestClassName :: "RequestClass \<Rightarrow> string" where
  "requestClassName c = (case c of RequestRead \<Rightarrow> ''read'' | RequestMutate \<Rightarrow> ''mutate''
     | RequestAuth \<Rightarrow> ''auth'' | RequestUnclassified \<Rightarrow> ''unclassified'')"

definition classifyLabel :: "RequestClass \<Rightarrow> string \<Rightarrow> string \<Rightarrow> string" where
  "classifyLabel cls http_method path =
     (let m0 = to_upper (trim_space http_method); m = (if m0 = [] then ''REQUEST'' else m0);
          p0 = before_char CHR ''?'' (trim_space path); p = (if length p0 > 64 then take 64 p0 else p0) in
      if p = [] then requestClassName cls else m @ '' '' @ p)"

definition CheckRequest :: "bool \<Rightarrow> ReadOnlyGate \<Rightarrow> RequestClass \<Rightarrow> string \<Rightarrow> string \<Rightarrow> apperr option" where
  "CheckRequest cancelled gate cls http_method path =
     (if cancelled then Some (newErr CodeCancelled ''policy check cancelled'')
      else if \<not> RequiresMutationPermission cls then None
      else if gate = None \<or> Gate_Effective gate then
        (if cls = RequestUnclassified then
           Some (newErrf CodePolicyDenial ''jenkins request denied: unclassified %s path under read-only''
             [to_upper (trim_space http_method)])
         else DenyMutation gate (''jenkins:'' @ classifyLabel cls http_method path))
      else None)"

definition NewReadOnlyMutationGuard :: "ReadOnlyGate \<Rightarrow> ReadOnlyGate" where
  "NewReadOnlyMutationGuard gate = (case gate of None \<Rightarrow> NewDefaultReadOnlyGate | Some inp \<Rightarrow> Some inp)"

section \<open>Cached content and context-aware evaluation\<close>

definition CheckStoreRead :: "bool \<Rightarrow> evaluator option \<Rightarrow> Subject \<Rightarrow> string \<Rightarrow> apperr option" where
  "CheckStoreRead cancelled ev subject resource =
     (if cancelled then Some (newErr CodeCancelled ''store policy check cancelled'')
      else case ev of
        None \<Rightarrow> None
      | Some f \<Rightarrow>
        let d = f subject \<lparr> ac_ToolName = StoreReadAction, ac_Class = EffectRead \<rparr>
              (emptyTarget\<lparr> tg_JobName := trim_space resource \<rparr>) in
        if Denied d then
          (case Decision_Err d of
             Some e \<Rightarrow> Some e
           | None \<Rightarrow> Some (newErr CodePolicyDenial ''cached content denied by MCP policy''))
        else None)"

definition ReasonContextCancelled :: string where "ReasonContextCancelled = ''context_cancelled''"

definition EvaluateWithContext ::
  "bool \<Rightarrow> evaluator option \<Rightarrow> Subject \<Rightarrow> Action \<Rightarrow> Target \<Rightarrow> Decision \<times> apperr option" where
  "EvaluateWithContext cancelled ev subject action target =
     (if cancelled then
        (denyDecision ReasonContextCancelled [] (''policy evaluation cancelled'', []),
         Some (newErr CodeCancelled ''policy evaluation cancelled''))
      else case ev of
        None \<Rightarrow> (denyDecision ReasonNoEvaluator [] (''MCP policy evaluator is not configured (fail closed)'', []), None)
      | Some f \<Rightarrow> (f subject action target, None))"

section \<open>The interface of an evaluator\<close>

lemma Decision_Err_None: "Decision_Err d = None \<longleftrightarrow> Allowed d"
  by (simp add: Decision_Err_def)

lemma CheckToolAccess_None:
  "CheckToolAccessWithTarget c gate ev s tool cls t = None \<longleftrightarrow>
     \<not> c \<and> trim_space tool \<noteq> [] \<and> \<not> (cls = EffectMutate \<and> Gate_Effective gate) \<and>
     (case ev of None \<Rightarrow> True | Some f \<Rightarrow> Allowed (f s \<lparr> ac_ToolName = trim_space tool, ac_Class = cls \<rparr> t))"
  using DenyMutation_None [of gate "trim_space tool"]
  by (auto simp: CheckToolAccessWithTarget_def Let_def Decision_Err_None split: option.splits)

text \<open>
  What a client may rely on: no decision is an allow for an invalid subject, and a tool denied
  without a target stays denied with one (what is hidden at registration is denied at call time).
\<close>

locale policy_evaluator =
  fixes eval :: "'e \<Rightarrow> evaluator"
  assumes allow_valid: "Allowed (eval e s a t) \<Longrightarrow> Subject_Valid s"
    and target_restricts: "Denied (eval e s a emptyTarget) \<Longrightarrow> Denied (eval e s a t)"
begin

lemma access_valid:
  "CheckToolAccessWithTarget c gate (Some (eval e)) s tool cls t = None \<Longrightarrow> Subject_Valid s"
  unfolding CheckToolAccess_None by (auto dest: allow_valid)

lemma store_valid: "CheckStoreRead c (Some (eval e)) s r = None \<Longrightarrow> Subject_Valid s"
  by (auto simp: CheckStoreRead_def Let_def Allowed_not_Denied [symmetric] split: if_splits option.splits
      dest: allow_valid)

lemma hidden_tool_denied:
  "CheckToolAccess c gate (Some (eval e)) s tool cls = Some err \<Longrightarrow>
     CheckToolAccessWithTarget c gate (Some (eval e)) s tool cls t \<noteq> None"
proof
  assume "CheckToolAccess c gate (Some (eval e)) s tool cls = Some err"
  moreover assume "CheckToolAccessWithTarget c gate (Some (eval e)) s tool cls t = None"
  then have "CheckToolAccessWithTarget c gate (Some (eval e)) s tool cls emptyTarget = None"
    unfolding CheckToolAccess_None using target_restricts by (auto simp: Allowed_not_Denied)
  ultimately show False by (simp add: CheckToolAccess_def)
qed

end

lemma checkSubject_valid: "\<not> Denied (checkSubject s r) \<Longrightarrow> Subject_Valid s"
  by (simp add: checkSubject_allowed)

lemma emptyTarget_denies_nothing:
  "\<not> deniedBy ps []" "branchTargets emptyTarget = []"
  using Match_Nil(2) [of "[]"]
  by (auto simp: deniedBy_def list_ex_iff branchTargets_def emptyTarget_def NormalizeJobFullName_def)

lemma target_restricts_document:
  "Allowed (evaluateAgainstDocument doc a t) \<Longrightarrow> Allowed (evaluateAgainstDocument doc a emptyTarget)"
  unfolding evaluateAgainstDocument_allowed emptyTarget_denies_nothing
  by (simp add: emptyTarget_def emptyTarget_denies_nothing)

interpretation deny_only: policy_evaluator DenyOnly_Evaluate
proof
  show "Subject_Valid s" if "Allowed (DenyOnly_Evaluate e s a t)" for e s a t
    using that checkSubject_valid
    by (auto simp: DenyOnly_Evaluate_def Let_def Allowed_not_Denied Denied_def split: option.splits if_splits)
  show "Denied (DenyOnly_Evaluate e s a t)" if "Denied (DenyOnly_Evaluate e s a emptyTarget)" for e s a t
    using that target_restricts_document [unfolded Allowed_not_Denied]
    by (fastforce simp: DenyOnly_Evaluate_def Let_def split: option.splits)
qed

interpretation allow_all: policy_evaluator AllowAll_Evaluate
proof
  show "Subject_Valid s" if "Allowed (AllowAll_Evaluate e s a t)" for e s a t
    using that checkSubject_valid
    by (auto simp: AllowAll_Evaluate_def Let_def Allowed_not_Denied split: if_splits)
qed (auto simp: AllowAll_Evaluate_def Let_def)

interpretation any_evaluator: policy_evaluator Evaluate
proof
  show "Subject_Valid s" if "Allowed (Evaluate e s a t)" for e s a t
    using that deny_only.allow_valid allow_all.allow_valid by (cases e) auto
  show "Denied (Evaluate e s a t)" if "Denied (Evaluate e s a emptyTarget)" for e s a t
    using that deny_only.target_restricts allow_all.target_restricts by (cases e) auto
qed

section \<open>Properties\<close>

text \<open>With either evaluator of the package, no enforcement point serves an empty, anonymous or
  unbound subject: tool access and cached reads both need a valid subject.\<close>

theorem no_access_without_subject:
  assumes "CheckToolAccessWithTarget c gate (Some (Evaluate e)) s tool cls t = None \<or>
    CheckStoreRead c (Some (Evaluate e)) s resource = None"
  shows "Subject_Valid s"
  using assms any_evaluator.access_valid any_evaluator.store_valid by blast

lemma no_access_without_subject_witness: "Subject_Valid exampleSubject"
  by (rule no_access_without_subject [of False None "EvDenyOnly (NewDenyOnlyFromOverlay (Some exampleLoaded))"
        exampleSubject "''jenkins_get_job''" EffectRead emptyTarget "[]"]) code_simp

text \<open>A tool denied when it was registered, without a target, is denied at call time for every
  target.\<close>

theorem hidden_tools_stay_denied:
  assumes "CheckToolAccess c gate (Some (Evaluate e)) s tool cls = Some err"
  shows "CheckToolAccessWithTarget c gate (Some (Evaluate e)) s tool cls t \<noteq> None"
  by (rule any_evaluator.hidden_tool_denied [OF assms])

lemma hidden_tools_stay_denied_witness:
  "CheckToolAccessWithTarget False None (Some (Evaluate (EvDenyOnly (NewDenyOnlyFromOverlay (Some exampleLoaded)))))
     exampleSubject ''jenkins_get_build_logs'' EffectRead (emptyTarget\<lparr> tg_JobName := ''demo'' \<rparr>) \<noteq> None"
proof -
  have "CheckToolAccess False None (Some (Evaluate (EvDenyOnly (NewDenyOnlyFromOverlay (Some exampleLoaded)))))
     exampleSubject ''jenkins_get_build_logs'' EffectRead =
     Some (newErrf CodePolicyDenial ''tool %q denied by MCP policy'' [''jenkins_get_build_logs''])"
    by code_simp
  then show ?thesis by (rule hidden_tools_stay_denied)
qed

lemma after_scheme_contains: "after_scheme s \<noteq> None \<Longrightarrow> str_contains s ''://''"
proof (induction s)
  case (Cons c cs)
  show ?case
  proof (cases "has_prefix (c # cs) ''://''")
    case True
    then show ?thesis by (metis append_Nil has_prefix_def prefixE str_contains_iff)
  next
    case False
    with Cons have "str_contains cs ''://''" by simp
    then show ?thesis by (metis append_Cons str_contains_iff)
  qed
qed simp

lemma contains_prefix: "prefix u s \<Longrightarrow> str_contains u t \<Longrightarrow> str_contains s t"
  unfolding prefix_def str_contains_iff by (metis append.assoc)

text \<open>A path of the server is authentication traffic only if it starts with the crumb issuer.\<close>

lemma server_path_auth:
  assumes p: "p \<noteq> []" "hd p = CHR ''/''" and url: "\<not> str_contains (before_char CHR ''?'' p) ''://''"
    and auth: "isAuthPath (normalizeRequestPath p)"
  shows "to_lower (take 12 p) = ''/crumbissuer''"
proof -
  define p2 where "p2 = before_char CHR ''#'' (before_char CHR ''?'' (trim_space p))"
  have tp: "prefix (trim_space p) p" using p by (rule trim_space_prefix)
  have "prefix p2 (before_char CHR ''?'' p)"
    unfolding p2_def using prefix_before_char before_char_mono [OF tp] by (rule prefix_order.trans)
  then have "after_scheme p2 = None" using url after_scheme_contains contains_prefix by blast
  then have norm: "normalizeRequestPath p = (if p2 = [] then ''/'' else to_lower p2)"
    by (simp add: normalizeRequestPath_def Let_def p2_def [symmetric])
  have pre: "prefix p2 p"
    unfolding p2_def using prefix_before_char tp prefix_order.trans by metis
  have ne: "p2 \<noteq> []"
  proof
    assume "p2 = []"
    with auth norm show False by (simp add: isAuthPath_def trim_prefix_def has_prefix_def)
  qed
  then obtain r where r: "p2 = CHR ''/'' # r" using pre p by (cases p2) (auto simp: prefix_def)
  have "prefix ''crumbissuer'' (to_lower r)"
    using auth unfolding norm r
    by (auto simp: isAuthPath_def trim_prefix_def has_prefix_def to_lower_def lower_char_def Let_def prefix_def)
  then obtain q where q: "map lower_char r = ''crumbissuer'' @ q" by (auto simp: prefix_def to_lower_def)
  from arg_cong [OF this, of length] have "length r \<ge> 11" by simp
  moreover have "take 11 (map lower_char r) = ''crumbissuer''" unfolding q by simp
  ultimately have "to_lower (take 12 p2) = ''/crumbissuer''" "length p2 \<ge> 12"
    unfolding r by (simp_all add: to_lower_def take_map lower_char_def)
  moreover have "take 12 p2 = take 12 p" using pre \<open>length p2 \<ge> 12\<close> by (auto simp: prefix_def)
  ultimately show ?thesis by simp
qed

text \<open>C12: under effective read-only no request that could change Jenkins leaves the process: for any
  method other than GET, HEAD and OPTIONS, the network guard refuses every path of the server (one
  that starts with a slash and holds no \<open>://\<close> before its query) that does not start with
  \<open>/crumbIssuer\<close>, in any case of its letters: known mutation paths, unknown ones such as \<open>/scriptText\<close>,
  and everything under a job. And the middleware refuses every mutation tool, whatever the evaluator.\<close>

theorem read_only_blocks_mutations:
  assumes "Gate_Effective gate" and "p \<noteq> []" "hd p = CHR ''/''" and "\<not> str_contains (before_char CHR ''?'' p) ''://''"
    and "to_lower (take 12 p) \<noteq> ''/crumbissuer''"
    and "to_upper (trim_space m) \<notin> {''GET'', ''HEAD'', ''OPTIONS''}"
  shows "CheckRequest c gate (ClassifyJenkinsRequest m p) m p \<noteq> None \<and>
    CheckToolAccessWithTarget c gate ev s tool EffectMutate t \<noteq> None"
proof
  have "RequiresMutationPermission (ClassifyJenkinsRequest m p)"
    using server_path_auth [OF assms(2-4)] assms(5,6)
    by (auto simp: ClassifyJenkinsRequest_def Let_def RequiresMutationPermission_def)
  then show "CheckRequest c gate (ClassifyJenkinsRequest m p) m p \<noteq> None"
    using assms(1) DenyMutation_None [of gate] by (auto simp: CheckRequest_def)
  show "CheckToolAccessWithTarget c gate ev s tool EffectMutate t \<noteq> None"
    using assms(1) by (simp add: CheckToolAccess_None)
qed

text \<open>The gate of a process with writes enabled whose enterprise policy was just switched to force.\<close>

definition forcedGate :: ReadOnlyGate where
  "forcedGate = NewReadOnlyGate \<lparr> in_FlagReadOnly = False, in_EnvReadOnly = False, in_ProfileReadOnly = Some False,
     in_Force = Some (FDynamic (DynamicForce_Set True True (NewDynamicForce False True))),
     in_AllowMutations = True, in_SkipBuiltinDefault = False \<rparr>"

lemma read_only_blocks_mutations_witness:
  "CheckRequest False forcedGate (ClassifyJenkinsRequest ''POST'' ''/scriptText?x=http://a'') ''POST'' ''/scriptText?x=http://a'' \<noteq> None \<and>
   CheckToolAccessWithTarget False forcedGate None exampleSubject ToolStartJob EffectMutate emptyTarget \<noteq> None"
  by (rule read_only_blocks_mutations) code_simp+

text \<open>The paths of jobs are among them, a job called crumbIssuer included.\<close>

lemma job_paths_are_blocked:
  assumes "Gate_Effective gate" and "BuildJobPath j \<noteq> []"
    and "e = [] \<or> hd e = CHR ''/'' \<or> hd e = CHR ''?''" and "no_dslash (before_char CHR ''?'' e)"
    and "to_upper (trim_space m) \<notin> {''GET'', ''HEAD'', ''OPTIONS''}"
  shows "CheckRequest c gate (ClassifyJenkinsRequest m (BuildJobPath j @ e)) m (BuildJobPath j @ e) \<noteq> None"
proof -
  have "RequiresMutationPermission (ClassifyJenkinsRequest m (BuildJobPath j @ e))"
    using under_job_not_auth [OF assms(2,4,3)] assms(5)
    by (auto simp: ClassifyJenkinsRequest_def Let_def RequiresMutationPermission_def)
  then show ?thesis using assms(1) DenyMutation_None [of gate] by (auto simp: CheckRequest_def)
qed

end
