(* ===== verification/PatternBraces.thy ===== *)
theory PatternBraces
  imports PatternCorrect
begin

text \<open>
  What brace expansion means. A pattern is the text of a tree of characters and groups of
  alternatives; its meaning is the list of its choices, the leftmost group varying slowest. The
  textual expansion of \<open>jobpattern.go\<close> (find the first brace, its partner, split at the commas
  of that level, splice every alternative back and start again) computes that meaning.
\<close>

section \<open>Trees of alternatives\<close>

datatype btree = BChar char | BGroup "btree list list"

fun brender :: "btree \<Rightarrow> string" where
  "brender (BChar c) = [c]"
| "brender (BGroup alts) =
     ''{'' @ join '','' (map (\<lambda>alt. concat (map brender alt)) alts) @ ''}''"

definition render :: "btree list \<Rightarrow> string" where
  "render ts = concat (map brender ts)"

definition choices :: "string list \<Rightarrow> string list \<Rightarrow> string list" where
  "choices xs ys = concat (map (\<lambda>x. map (\<lambda>y. x @ y) ys) xs)"

fun btree_meaning :: "btree \<Rightarrow> string list" where
  "btree_meaning (BChar c) = [[c]]"
| "btree_meaning (BGroup alts) =
     concat (map (\<lambda>alt. foldr choices (map btree_meaning alt) [[]]) alts)"

definition brace_meaning :: "btree list \<Rightarrow> string list" where
  "brace_meaning ts = foldr choices (map btree_meaning ts) [[]]"

text \<open>The characters that are syntax: braces everywhere, the comma inside a group.\<close>

fun inner_ok :: "btree \<Rightarrow> bool" where
  "inner_ok (BChar c) = (c \<notin> set ''{},'')"
| "inner_ok (BGroup alts) = (alts \<noteq> [] \<and> list_all (list_all inner_ok) alts)"

fun top_ok :: "btree \<Rightarrow> bool" where
  "top_ok (BChar c) = (c \<notin> set ''{}'')"
| "top_ok (BGroup alts) = inner_ok (BGroup alts)"

lemma inner_top: "inner_ok t \<Longrightarrow> top_ok t"
  by (cases t) auto

lemma inner_top_all: "list_all inner_ok ts \<Longrightarrow> list_all top_ok ts"
  by (auto simp: list_all_iff intro: inner_top)

lemma render_simps [simp]:
  "render [] = []"
  "render (t # ts) = brender t @ render ts"
  "render (ts @ us) = render ts @ render us"
  "render (map BChar u) = u"
  by (simp_all add: render_def) (induction u, auto)

lemma brender_group [simp]:
  "brender (BGroup alts) = ''{'' @ join '','' (map render alts) @ ''}''"
  by (simp add: render_def [abs_def])

declare brender.simps(2) [simp del]

lemma choices_Nil2 [simp]: "choices xs [[]] = xs"
  by (induction xs) (simp_all add: choices_def)

lemma choices_Nil1 [simp]: "choices [[]] ys = ys"
  by (induction ys) (simp_all add: choices_def)

lemma choices_single: "choices [x] ys = map (append x) ys"
  by (simp add: choices_def)

lemma choices_append1: "choices (xs @ xs') ys = choices xs ys @ choices xs' ys"
  by (simp add: choices_def)

lemma choices_assoc: "choices (choices xs ys) zs = choices xs (choices ys zs)"
proof -
  have single: "choices (map (append x) ys) zs = map (append x) (choices ys zs)" for x
    by (induction ys) (simp_all add: choices_def)
  show ?thesis
  proof (induction xs)
    case (Cons x xs)
    have "choices (choices (x # xs) ys) zs = choices (map (append x) ys @ choices xs ys) zs"
      by (simp add: choices_def)
    also have "\<dots> = choices (x # xs) (choices ys zs)"
      unfolding choices_append1 single Cons.IH by (simp add: choices_def)
    finally show ?case .
  qed (simp add: choices_def)
qed

lemma brace_meaning_Cons:
  "brace_meaning (t # ts) = choices (btree_meaning t) (brace_meaning ts)"
  by (simp add: brace_meaning_def)

lemma brace_meaning_append:
  "brace_meaning (ts @ us) = choices (brace_meaning ts) (brace_meaning us)"
proof (induction ts)
  case Nil
  show ?case by (simp add: brace_meaning_def)
qed (simp add: brace_meaning_Cons choices_assoc)

lemma brace_meaning_chars: "brace_meaning (map BChar u) = [u]"
  by (induction u) (simp_all add: brace_meaning_def choices_def)

lemma btree_meaning_group: "btree_meaning (BGroup alts) = concat (map brace_meaning alts)"
  by (simp add: brace_meaning_def [abs_def])

text \<open>Resolving the first group of a text.\<close>

lemma brace_meaning_first_group:
  "brace_meaning (map BChar u @ BGroup alts # vs) =
     concat (map (\<lambda>alt. brace_meaning (map BChar u @ alt @ vs)) alts)"
proof (induction alts)
  case Nil
  show ?case
    unfolding brace_meaning_append brace_meaning_chars brace_meaning_Cons btree_meaning_group
    by (simp add: choices_def)
next
  case (Cons alt alts)
  have "brace_meaning (map BChar u @ BGroup (alt # alts) # vs) =
      brace_meaning (map BChar u @ alt @ vs) @ brace_meaning (map BChar u @ BGroup alts # vs)"
    unfolding brace_meaning_append brace_meaning_chars brace_meaning_Cons btree_meaning_group choices_single
    by (simp add: choices_append1)
  then show ?case unfolding Cons.IH by simp
qed

section \<open>Finding a group and splitting it\<close>

lemma matchingFrom_brender:
  "inner_ok t \<Longrightarrow> 0 < d \<Longrightarrow>
     matchingFrom i d (brender t @ rest) = matchingFrom (i + length (brender t)) d rest"
proof (induction t arbitrary: i d rest)
  case (BGroup alts)
  have alts: "matchingFrom i' d' (join '','' (map render alts') @ rest') =
      matchingFrom (i' + length (join '','' (map render alts'))) d' rest'"
    if sub: "set alts' \<subseteq> set alts" and d': "0 < d'" for i' d' rest' alts'
    using sub
  proof (induction alts' arbitrary: i')
    case (Cons alt alts')
    have one: "matchingFrom j d' (render us @ r) = matchingFrom (j + length (render us)) d' r"
      if "set us \<subseteq> set alt" for j r us
      using that
    proof (induction us arbitrary: j)
      case (Cons t ts)
      have mem: "alt \<in> set alts" "t \<in> set alt" using Cons.prems \<open>set (alt # alts') \<subseteq> set alts\<close> by auto
      then have "inner_ok t" using BGroup.prems(1) by (auto simp: list_all_iff)
      from BGroup.IH [OF mem this d'] Cons show ?case by (simp add: add.assoc)
    qed simp
    show ?case
      using Cons one [OF order_refl] by (simp add: join_Cons add.assoc)
  qed simp
  show ?case using BGroup.prems alts [OF order_refl, of "d + 1"] by simp
qed auto

lemma matchingFrom_alts:
  "list_all (list_all inner_ok) alts \<Longrightarrow> 0 < d \<Longrightarrow>
     matchingFrom i d (join '','' (map render alts) @ rest) =
     matchingFrom (i + length (join '','' (map render alts))) d rest"
proof (induction alts arbitrary: i)
  case (Cons alt alts)
  have "matchingFrom j d (render alt @ r) = matchingFrom (j + length (render alt)) d r" for j r
    using Cons.prems(1) [simplified, THEN conjunct1]
    by (induction alt arbitrary: j) (simp_all add: matchingFrom_brender Cons.prems(2) add.assoc)
  with Cons show ?case by (simp add: join_Cons add.assoc)
qed simp

lemma findMatchingBrace_group:
  assumes "inner_ok (BGroup alts)"
  shows "findMatchingBrace (u @ brender (BGroup alts) @ rest) (length u) =
    Inr (length u + Suc (length (join '','' (map render alts))))"
  using assms
  by (simp add: findMatchingBrace_def matchingFrom_alts nth_append)

lemma splitAlternatives_brender:
  "inner_ok t \<Longrightarrow> 0 \<le> d \<Longrightarrow>
     splitAlternatives d cur acc (brender t @ rest) = splitAlternatives d (cur @ brender t) acc rest"
proof (induction t arbitrary: d cur rest)
  case (BGroup alts)
  have alts: "splitAlternatives d' cur' acc (join '','' (map render alts') @ rest') =
      splitAlternatives d' (cur' @ join '','' (map render alts')) acc rest'"
    if sub: "set alts' \<subseteq> set alts" and d': "0 < d'" for cur' d' rest' alts'
    using sub
  proof (induction alts' arbitrary: cur')
    case (Cons alt alts')
    have one: "splitAlternatives d' c (acc) (render us @ r) = splitAlternatives d' (c @ render us) acc r"
      if "set us \<subseteq> set alt" for c r us
      using that
    proof (induction us arbitrary: c)
      case (Cons t ts)
      have mem: "alt \<in> set alts" "t \<in> set alt" using Cons.prems \<open>set (alt # alts') \<subseteq> set alts\<close> by auto
      then have "inner_ok t" using BGroup.prems(1) by (auto simp: list_all_iff)
      from BGroup.IH [OF mem this] d' Cons show ?case by simp
    qed simp
    show ?case
      using Cons one [OF order_refl] d' by (simp add: join_Cons)
  qed simp
  show ?case using BGroup.prems alts [OF order_refl, of "d + 1"] by simp
qed auto

lemma splitAlternatives_render:
  "list_all inner_ok ts \<Longrightarrow>
     splitAlternatives 0 cur acc (render ts @ rest) = splitAlternatives 0 (cur @ render ts) acc rest"
  by (induction ts arbitrary: cur) (simp_all add: splitAlternatives_brender)

lemma splitAlternatives_alts:
  "list_all (list_all inner_ok) (alt # alts) \<Longrightarrow>
     splitAlternatives 0 [] acc (join '','' (map render (alt # alts))) = Inr (acc @ map render (alt # alts))"
proof (induction alts arbitrary: alt acc)
  case Nil
  then show ?case using splitAlternatives_render [of alt "[]" acc "[]"] by simp
next
  case (Cons alt' alts)
  then show ?case by (simp add: splitAlternatives_render join_Cons)
qed

lemma splitBraceAlternatives_alts:
  assumes "inner_ok (BGroup alts)" and "splitBraceAlternatives (join '','' (map render alts)) = Inr xs"
  shows "xs = map render alts"
proof -
  from assms(1) obtain alt alts' where "alts = alt # alts'" by (cases alts) auto
  with assms show ?thesis
    using splitAlternatives_alts [of alt alts' "[]"]
    by (auto simp: splitBraceAlternatives_def split: if_splits)
qed

text \<open>A text with a brace starts with plain characters and a group.\<close>

lemma first_group:
  assumes "list_all top_ok ts" and "CHR ''{'' \<in> set (render ts)"
  shows "\<exists>u alts vs. ts = map BChar u @ BGroup alts # vs \<and> CHR ''{'' \<notin> set u \<and> CHR ''}'' \<notin> set u"
  using assms
proof (induction ts)
  case (Cons t ts)
  show ?case
  proof (cases t)
    case (BChar c)
    with Cons obtain u alts vs where "ts = map BChar u @ BGroup alts # vs"
      "CHR ''{'' \<notin> set u" "CHR ''}'' \<notin> set u" by auto
    with BChar Cons.prems show ?thesis
      by (intro exI [of _ "c # u"] exI [of _ alts] exI [of _ vs]) auto
  next
    case (BGroup alts)
    then show ?thesis by (intro exI [of _ "[]"] exI [of _ alts] exI [of _ ts]) simp
  qed
qed simp

lemma no_group:
  "CHR ''{'' \<notin> set (render ts) \<Longrightarrow> brace_meaning ts = [render ts]"
proof -
  assume "CHR ''{'' \<notin> set (render ts)"
  then have "\<exists>u. ts = map BChar u"
  proof (induction ts)
    case (Cons t ts)
    then obtain u where "ts = map BChar u" by auto
    with Cons.prems show ?case by (cases t) (auto intro: exI [of _ "_ # u"])
  qed simp
  then show ?thesis by (auto simp: brace_meaning_chars)
qed

section \<open>The expansion loop\<close>

lemma expand_meaning:
  shows "expandBracesOnce pattern m = Inr ps \<Longrightarrow> pattern = render ts \<Longrightarrow> list_all top_ok ts \<Longrightarrow>
      ps = brace_meaning ts"
    and "expandAlternatives pre suf alts m out = Inr ps \<Longrightarrow> alts = map render balts \<Longrightarrow>
      pre = u \<Longrightarrow> suf = render vs \<Longrightarrow> list_all (list_all inner_ok) balts \<Longrightarrow> list_all top_ok vs \<Longrightarrow>
      CHR ''{'' \<notin> set u \<and> CHR ''}'' \<notin> set u \<Longrightarrow>
      ps = out @ concat (map (\<lambda>alt. brace_meaning (map BChar u @ alt @ vs)) balts)"
proof (induction pattern m and pre suf alts m out arbitrary: ts ps and balts u vs ps
    rule: expandBracesOnce_expandAlternatives.induct)
  case (1 pattern m)
  note res = "1.prems"(1) [unfolded expandBracesOnce.simps [of pattern m]]
  show ?case
  proof (cases "CHR ''{'' \<in> set pattern")
    case False
    with res "1.prems"(2) have "ps = [render ts]" by (simp split: if_splits)
    with False "1.prems"(2) show ?thesis by (simp add: no_group)
  next
    case True
    obtain u alts vs where ts: "ts = map BChar u @ BGroup alts # vs"
      and u: "CHR ''{'' \<notin> set u" "CHR ''}'' \<notin> set u"
      using first_group [OF "1.prems"(3)] True "1.prems"(2) by auto
    let ?body = "join '','' (map render alts)"
    have ok: "inner_ok (BGroup alts)" and vs: "list_all top_ok vs"
      using "1.prems"(3) by (auto simp: ts)
    have pat: "pattern = u @ brender (BGroup alts) @ render vs"
      using "1.prems"(2) by (simp add: ts)
    have start: "length (before_char CHR ''{'' pattern) = length u"
      unfolding pat before_char_def using u(1) by (subst takeWhile_append2) auto
    have close: "findMatchingBrace pattern (length u) = Inr (Suc (length u + length ?body))"
      unfolding pat using findMatchingBrace_group [OF ok] by simp
    have parts: "take (length u) pattern = u"
        "drop (Suc (length u)) (take (Suc (length u + length ?body)) pattern) = ?body"
        "drop (Suc (Suc (length u + length ?body))) pattern = render vs"
      by (simp_all add: pat)
    from res True obtain xs where m: "\<not> m < 1" and split: "splitBraceAlternatives ?body = Inr xs"
      and bounds: "\<not> length xs < 2" "\<not> length xs > MaxDenyJobBraceAlternatives"
        "first_err (map validateBraceAlternative xs) = None"
      and rec: "expandAlternatives u (render vs) xs m [] = Inr ps"
      by (auto simp: start close parts Let_def split: if_splits sum.splits option.splits)
    have "xs = map render alts" by (rule splitBraceAlternatives_alts [OF ok split])
    have "ps = [] @ concat (map (\<lambda>alt. brace_meaning (map BChar u @ alt @ vs)) alts)"
    proof (rule "1.IH" [OF m _ refl, where ba = xs and b = "Suc (length u + length ?body)"])
      show "xs = map render alts" by (rule splitBraceAlternatives_alts [OF ok split])
      show "expandAlternatives (take (length (before_char CHR ''{'' pattern)) pattern)
          (drop (Suc (Suc (length u + length ?body))) pattern) xs m [] = Inr ps"
        using rec by (simp add: start parts)
    qed (use True u ok vs split bounds in \<open>simp_all add: start close parts\<close>)
    then show ?thesis by (simp add: ts brace_meaning_first_group)
  qed
next
  case (2 pre suf m out)
  then show ?case by simp
next
  case (3 pre suf alt alts m out)
  obtain a as where balts: "balts = a # as" "alt = render a" "alts = map render as"
    using "3.prems"(2) by (cases balts) auto
  from "3.prems"(1) obtain partial where p: "expandBracesOnce (pre @ alt @ suf) (m - int (length out)) = Inr partial"
    and small: "\<not> int (length out + length partial) > m"
    and rec: "expandAlternatives pre suf alts m (out @ partial) = Inr ps"
    by (auto split: if_splits sum.splits)
  have ok: "list_all top_ok (map BChar u @ a @ vs)"
    using "3.prems" balts by (auto simp: list_all_iff intro: inner_top)
  have "partial = brace_meaning (map BChar u @ a @ vs)"
    by (rule "3.IH"(1) [OF p _ ok]) (simp add: "3.prems" balts)
  moreover have "ps = (out @ partial) @ concat (map (\<lambda>alt. brace_meaning (map BChar u @ alt @ vs)) as)"
    by (rule "3.IH"(2) [OF p small rec balts(3) "3.prems"(3,4) _ "3.prems"(6,7)])
      (use "3.prems"(5) balts in simp)
  ultimately show ?case by (simp add: balts)
qed

text \<open>C39: brace expansion computes the choices a pattern denotes: on the text of a tree of
  characters and (possibly nested) groups of alternatives it yields exactly the list of the
  tree's choices, in order, whenever it does not report an error.\<close>

theorem ExpandDenyJobBraces_meaning:
  assumes "list_all top_ok ts" and "trim_space (render ts) = render ts"
    and "ExpandDenyJobBraces (render ts) = Inr ps"
  shows "ps = brace_meaning ts"
proof (cases "contains_any (render ts) ''{}''")
  case True
  with assms(2,3) have "expandBracesOnce (render ts) MaxDenyJobBraceExpanded = Inr ps"
    by (auto simp: ExpandDenyJobBraces_def Let_def split: if_splits sum.splits)
  then show ?thesis by (rule expand_meaning(1) [OF _ refl assms(1)])
next
  case False
  then have "CHR ''{'' \<notin> set (render ts)" by (auto simp: contains_any_iff)
  with False assms(2,3) show ?thesis
    by (auto simp: ExpandDenyJobBraces_def Let_def no_group split: if_splits)
qed

lemma ExpandDenyJobBraces_meaning_witness:
  "[''a/x'', ''a/yz'', ''a/yw''] =
     brace_meaning (map BChar ''a/'' @
       [BGroup [map BChar ''x'', BChar CHR ''y'' # [BGroup [map BChar ''z'', map BChar ''w'']]]])"
  by (rule ExpandDenyJobBraces_meaning) code_simp+

end
