(* ===== verification/GoTime.thy ===== *)
theory GoTime
  imports Prelude
begin

text \<open>
  The part of Go's \<open>time\<close> and \<open>strconv\<close> packages the limits read: durations are integers in
  nanoseconds, 64 bits wide; \<open>ParseInt\<close> (base 10, 64 bits) and \<open>ParseDuration\<close> return \<open>None\<close> for
  an error. \<open>ParseDuration\<close> adds a fraction with floating point; here the fraction is truncated
  exactly, which agrees whenever the product of fraction and unit is representable.
\<close>

section \<open>Durations\<close>

definition millisecond :: int where "millisecond = 1000000"
definition second :: int where "second = 1000000000"
definition minute :: int where "minute = 60 * second"
definition hour :: int where "hour = 60 * minute"

lemmas duration_defs = millisecond_def hour_def minute_def second_def

definition max_int64 :: int where "max_int64 = 2 ^ 63 - 1"

text \<open>Wrap-around of a 64-bit signed result.\<close>

definition wrap64 :: "int \<Rightarrow> int" where
  "wrap64 x = (x + 2 ^ 63) mod 2 ^ 64 - 2 ^ 63"

lemma wrap64_id: "- (2 ^ 63) \<le> x \<Longrightarrow> x < 2 ^ 63 \<Longrightarrow> wrap64 x = x"
  by (simp add: wrap64_def)

section \<open>Numbers\<close>

definition is_digit :: "char \<Rightarrow> bool" where
  "is_digit c = (let n = (of_char c :: nat) in 48 \<le> n \<and> n \<le> 57)"

definition digit_val :: "char \<Rightarrow> int" where
  "digit_val c = int (of_char c) - 48"

definition digits_val :: "string \<Rightarrow> int" where
  "digits_val s = foldl (\<lambda>x c. 10 * x + digit_val c) 0 s"

lemma digit_val_bounds: "is_digit c \<Longrightarrow> 0 \<le> digit_val c \<and> digit_val c \<le> 9"
  by (auto simp: is_digit_def digit_val_def Let_def)

text \<open>\<open>strconv.ParseInt(s, 10, 64)\<close> and \<open>strconv.Atoi\<close>, which agree on 64-bit platforms.\<close>

definition ParseInt64 :: "string \<Rightarrow> int option" where
  "ParseInt64 s =
     (let neg = (case s of [] \<Rightarrow> False | c # _ \<Rightarrow> c = CHR ''-'');
          body = (case s of [] \<Rightarrow> [] | c # cs \<Rightarrow> if c = CHR ''-'' \<or> c = CHR ''+'' then cs else s)
      in if body = [] \<or> \<not> list_all is_digit body then None
         else let v = digits_val body in
           if neg then (if v \<le> 2 ^ 63 then Some (- v) else None)
           else if v \<le> max_int64 then Some v else None)"

section \<open>Durations as text\<close>

definition unitMap :: "(string \<times> int) list" where
  "unitMap = [(''ns'', 1), (''us'', 1000), ([CHR 0xC2, CHR 0xB5, CHR ''s''], 1000), ([CHR 0xCE, CHR 0xBC, CHR ''s''], 1000),
     (''ms'', millisecond), (''s'', second), (''m'', minute), (''h'', hour)]"

text \<open>\<open>leadingInt\<close>: the digits at the front, \<open>None\<close> on overflow past \<open>2 ^ 63\<close>.\<close>

definition leadingInt :: "string \<Rightarrow> (int \<times> string) option" where
  "leadingInt s =
     (let v = digits_val (takeWhile is_digit s) in if v \<le> 2 ^ 63 then Some (v, dropWhile is_digit s) else None)"

text \<open>\<open>leadingFraction\<close>: digits past the precision of 63 bits are dropped.\<close>

fun fraction_loop :: "int \<Rightarrow> int \<Rightarrow> bool \<Rightarrow> string \<Rightarrow> int \<times> int \<times> string" where
  "fraction_loop x scale over [] = (x, scale, [])"
| "fraction_loop x scale over (c # cs) =
     (if \<not> is_digit c then (x, scale, c # cs)
      else if over then fraction_loop x scale True cs
      else if x > max_int64 div 10 then fraction_loop x scale True cs
      else let y = x * 10 + digit_val c in
        if y > 2 ^ 63 then fraction_loop x scale True cs else fraction_loop y (scale * 10) False cs)"

definition duration_piece :: "string \<Rightarrow> (int \<times> string) option" where
  "duration_piece s =
     (case leadingInt s of
        None \<Rightarrow> None
      | Some (v, s1) \<Rightarrow>
        let pre = (s1 \<noteq> s);
            (f, scale, s2) = (case s1 of CHR ''.'' # r \<Rightarrow> fraction_loop 0 1 False r | _ \<Rightarrow> (0, 1, s1));
            post = (case s1 of CHR ''.'' # r \<Rightarrow> s2 \<noteq> r | _ \<Rightarrow> False)
        in if \<not> pre \<and> \<not> post then None
           else
             let u = takeWhile (\<lambda>c. \<not> (c = CHR ''.'' \<or> is_digit c)) s2;
                 s3 = dropWhile (\<lambda>c. \<not> (c = CHR ''.'' \<or> is_digit c)) s2
             in if u = [] then None
                else case map_of unitMap u of
                  None \<Rightarrow> None
                | Some unit \<Rightarrow>
                  if v > 2 ^ 63 div unit then None
                  else let w = v * unit + f * unit div scale in
                    if w > 2 ^ 63 then None else Some (w, s3))"

lemma fraction_loop_length: "fraction_loop x scale over s = (f, sc, r) \<Longrightarrow> length r \<le> length s"
  by (induction x scale over s rule: fraction_loop.induct) (fastforce simp: Let_def split: if_splits)+

lemma duration_piece_shorter:
  assumes "duration_piece s = Some (w, r)"
  shows "length r < length s"
proof -
  from assms obtain v s1 where l: "leadingInt s = Some (v, s1)" by (auto simp: duration_piece_def split: option.splits)
  define fs where "fs = (case s1 of CHR ''.'' # r \<Rightarrow> fraction_loop 0 1 False r | _ \<Rightarrow> (0, 1, s1))"
  obtain f scale s2 where fs': "fs = (f, scale, s2)" by (cases fs) auto
  define stop where "stop = (\<lambda>c. \<not> (c = CHR ''.'' \<or> is_digit c))"
  from assms l fs' have "takeWhile stop s2 \<noteq> []" and r: "r = dropWhile stop s2"
    unfolding duration_piece_def Let_def fs_def stop_def
    by (auto split: if_splits option.splits prod.splits)
  moreover have "length s2 = length (takeWhile stop s2) + length (dropWhile stop s2)"
    by (metis length_append takeWhile_dropWhile_id)
  ultimately have "length r < length s2" by simp
  moreover have "length s1 \<le> length s"
    using l by (auto simp: leadingInt_def Let_def length_dropWhile_le split: if_splits)
  moreover have "length s2 \<le> length s1"
    using fs' unfolding fs_def by (auto split: list.splits char.splits bool.splits dest: fraction_loop_length)
  ultimately show ?thesis by simp
qed

text \<open>The sum of the pieces is a 64-bit unsigned integer.\<close>

function duration_loop :: "int \<Rightarrow> string \<Rightarrow> int option" where
  "duration_loop d s =
     (if s = [] then Some d
      else case duration_piece s of
        None \<Rightarrow> None
      | Some (v, r) \<Rightarrow>
        let e = (d + v) mod 2 ^ 64 in if e > 2 ^ 63 then None else duration_loop e r)"
  by pat_completeness auto
termination
  by (relation "measure (\<lambda>(d, s). length s)") (auto dest: duration_piece_shorter)

declare duration_loop.simps [simp del]

definition ParseDuration :: "string \<Rightarrow> int option" where
  "ParseDuration s =
     (let neg = (case s of [] \<Rightarrow> False | c # _ \<Rightarrow> c = CHR ''-'');
          body = (case s of [] \<Rightarrow> [] | c # cs \<Rightarrow> if c = CHR ''-'' \<or> c = CHR ''+'' then cs else s)
      in if body = ''0'' then Some 0
         else if body = [] then None
         else case duration_loop 0 body of
           None \<Rightarrow> None
         | Some d \<Rightarrow> if neg then Some (- d) else if d > max_int64 then None else Some d)"

text \<open>\<open>Duration.String\<close>: \<open>frac_text\<close> prints \<open>v / 10 ^ prec\<close> without trailing zeros of the fraction.\<close>

definition frac_text :: "nat \<Rightarrow> nat \<Rightarrow> string" where
  "frac_text v prec =
     (let digits = rev (dropWhile (\<lambda>c. c = CHR ''0'')
            (rev (replicate (prec - length (show_nat (v mod 10 ^ prec))) CHR ''0'' @ show_nat (v mod 10 ^ prec))))
      in show_nat (v div 10 ^ prec) @ (if digits = [] then [] else CHR ''.'' # digits))"

definition Duration_String :: "int \<Rightarrow> string" where
  "Duration_String d =
     (let u = nat \<bar>d\<bar>;
          body = (if u = 0 then ''0s''
                  else if u < 1000 then show_nat u @ ''ns''
                  else if u < 1000000 then frac_text u 3 @ [CHR 0xC2, CHR 0xB5] @ ''s''
                  else if u < 1000000000 then frac_text u 6 @ ''ms''
                  else
                    let sec = u div 1000000000; m = sec div 60; h = m div 60;
                        tail = frac_text ((sec mod 60) * 1000000000 + u mod 1000000000) 9 @ ''s''
                    in if m = 0 then tail
                       else if h = 0 then show_nat m @ ''m'' @ tail
                       else show_nat h @ ''h'' @ show_nat (m mod 60) @ ''m'' @ tail)
      in (if d < 0 then CHR ''-'' # body else body))"

end
