(* ===== verification/Resilience.thy ===== *)
theory Resilience
  imports GoTime "HOL-Library.Signed_Division"
begin

text \<open>
  Retries, circuit breaker and concurrency limit of the Jenkins client
  (\<open>internal/jenkins/resilience.go\<close> and the request path \<open>callJenkins\<close> of
  \<open>internal/jenkins/client.go\<close>). Instants and durations are integers in nanoseconds; the zero
  \<open>time.Time\<close> is \<open>None\<close>. The semaphore channel is the number of slots taken, the metrics hook the
  number of times it was called. What the network does to an attempt is an argument.
\<close>

section \<open>Configuration\<close>

definition DefaultMaxJSONBodyBytes :: int where "DefaultMaxJSONBodyBytes = push_bit 20 32"
definition AbsoluteMaxJSONBodyBytes :: int where "AbsoluteMaxJSONBodyBytes = push_bit 20 128"
definition DefaultMaxRetries :: int where "DefaultMaxRetries = 2"
definition AbsoluteMaxRetries :: int where "AbsoluteMaxRetries = 10"
definition DefaultCircuitFailureThreshold :: int where "DefaultCircuitFailureThreshold = 5"
definition AbsoluteMaxCircuitFailureThreshold :: int where "AbsoluteMaxCircuitFailureThreshold = 50"
definition DefaultCircuitOpenDuration :: int where "DefaultCircuitOpenDuration = 15 * second"
definition MinCircuitOpenDuration :: int where "MinCircuitOpenDuration = 1 * second"
definition AbsoluteMaxCircuitOpenDuration :: int where "AbsoluteMaxCircuitOpenDuration = 5 * minute"
definition DefaultMaxConcurrent :: int where "DefaultMaxConcurrent = 0"
definition AbsoluteMaxConcurrent :: int where "AbsoluteMaxConcurrent = 256"
definition DefaultInitialBackoff :: int where "DefaultInitialBackoff = 100 * millisecond"
definition MinInitialBackoff :: int where "MinInitialBackoff = 10 * millisecond"
definition AbsoluteMaxInitialBackoff :: int where "AbsoluteMaxInitialBackoff = 2 * second"
definition DefaultMaxBackoff :: int where "DefaultMaxBackoff = 5 * second"
definition MinMaxBackoff :: int where "MinMaxBackoff = 100 * millisecond"
definition AbsoluteMaxMaxBackoff :: int where "AbsoluteMaxMaxBackoff = 1 * minute"

lemmas resilience_limits = DefaultMaxJSONBodyBytes_def AbsoluteMaxJSONBodyBytes_def DefaultMaxRetries_def
  AbsoluteMaxRetries_def DefaultCircuitFailureThreshold_def AbsoluteMaxCircuitFailureThreshold_def
  DefaultCircuitOpenDuration_def MinCircuitOpenDuration_def AbsoluteMaxCircuitOpenDuration_def
  DefaultMaxConcurrent_def AbsoluteMaxConcurrent_def DefaultInitialBackoff_def MinInitialBackoff_def
  AbsoluteMaxInitialBackoff_def DefaultMaxBackoff_def MinMaxBackoff_def AbsoluteMaxMaxBackoff_def duration_defs

record ResilienceConfig =
  rc_MaxJSONBodyBytes :: int
  rc_MaxRetries :: int
  rc_InitialBackoff :: int
  rc_MaxBackoff :: int
  rc_MaxConcurrent :: int
  rc_CircuitFailureThreshold :: int
  rc_CircuitOpenDuration :: int

definition DefaultResilienceConfig :: ResilienceConfig where
  "DefaultResilienceConfig = \<lparr> rc_MaxJSONBodyBytes = DefaultMaxJSONBodyBytes, rc_MaxRetries = DefaultMaxRetries,
     rc_InitialBackoff = DefaultInitialBackoff, rc_MaxBackoff = DefaultMaxBackoff,
     rc_MaxConcurrent = DefaultMaxConcurrent, rc_CircuitFailureThreshold = DefaultCircuitFailureThreshold,
     rc_CircuitOpenDuration = DefaultCircuitOpenDuration \<rparr>"

text \<open>The replacements of \<open>normalizeResilienceConfig\<close>: a default below \<open>least\<close>, then the two clamps.\<close>

definition or_default :: "bool \<Rightarrow> int \<Rightarrow> int \<Rightarrow> int" where
  "or_default unset d x = (if unset then d else x)"

definition at_least :: "int \<Rightarrow> int \<Rightarrow> int" where "at_least lo x = (if x < lo then lo else x)"

definition at_most :: "int \<Rightarrow> int \<Rightarrow> int" where "at_most hi x = (if x > hi then hi else x)"

definition normalizeResilienceConfig :: "ResilienceConfig \<Rightarrow> ResilienceConfig" where
  "normalizeResilienceConfig cfg =
     (let body = at_most AbsoluteMaxJSONBodyBytes
            (or_default (rc_MaxJSONBodyBytes cfg \<le> 0) DefaultMaxJSONBodyBytes (rc_MaxJSONBodyBytes cfg));
          retries = at_most AbsoluteMaxRetries (or_default (rc_MaxRetries cfg < 0) DefaultMaxRetries (rc_MaxRetries cfg));
          initial = at_most AbsoluteMaxInitialBackoff (at_least MinInitialBackoff
            (or_default (rc_InitialBackoff cfg \<le> 0) DefaultInitialBackoff (rc_InitialBackoff cfg)));
          maxb0 = at_most AbsoluteMaxMaxBackoff (at_least MinMaxBackoff
            (or_default (rc_MaxBackoff cfg \<le> 0) DefaultMaxBackoff (rc_MaxBackoff cfg)));
          maxb = at_least initial maxb0;
          threshold = at_most AbsoluteMaxCircuitFailureThreshold
            (or_default (rc_CircuitFailureThreshold cfg \<le> 0) DefaultCircuitFailureThreshold (rc_CircuitFailureThreshold cfg));
          open_dur = at_most AbsoluteMaxCircuitOpenDuration (at_least MinCircuitOpenDuration
            (or_default (rc_CircuitOpenDuration cfg \<le> 0) DefaultCircuitOpenDuration (rc_CircuitOpenDuration cfg)));
          conc = at_most AbsoluteMaxConcurrent (or_default (rc_MaxConcurrent cfg < 0) 0 (rc_MaxConcurrent cfg))
      in \<lparr> rc_MaxJSONBodyBytes = body, rc_MaxRetries = retries, rc_InitialBackoff = initial, rc_MaxBackoff = maxb,
           rc_MaxConcurrent = conc, rc_CircuitFailureThreshold = threshold, rc_CircuitOpenDuration = open_dur \<rparr>)"

definition config_ok :: "ResilienceConfig \<Rightarrow> bool" where
  "config_ok cfg =
     (0 < rc_MaxJSONBodyBytes cfg \<and> rc_MaxJSONBodyBytes cfg \<le> AbsoluteMaxJSONBodyBytes \<and>
      0 \<le> rc_MaxRetries cfg \<and> rc_MaxRetries cfg \<le> AbsoluteMaxRetries \<and>
      MinInitialBackoff \<le> rc_InitialBackoff cfg \<and> rc_InitialBackoff cfg \<le> AbsoluteMaxInitialBackoff \<and>
      rc_InitialBackoff cfg \<le> rc_MaxBackoff cfg \<and>
      MinMaxBackoff \<le> rc_MaxBackoff cfg \<and> rc_MaxBackoff cfg \<le> AbsoluteMaxMaxBackoff \<and>
      0 < rc_CircuitFailureThreshold cfg \<and> rc_CircuitFailureThreshold cfg \<le> AbsoluteMaxCircuitFailureThreshold \<and>
      MinCircuitOpenDuration \<le> rc_CircuitOpenDuration cfg \<and> rc_CircuitOpenDuration cfg \<le> AbsoluteMaxCircuitOpenDuration \<and>
      0 \<le> rc_MaxConcurrent cfg \<and> rc_MaxConcurrent cfg \<le> AbsoluteMaxConcurrent)"

lemma normalize_config_ok: "config_ok (normalizeResilienceConfig cfg)"
  by (simp add: config_ok_def normalizeResilienceConfig_def Let_def or_default_def at_least_def at_most_def resilience_limits)

lemma normalize_config_fix: "config_ok cfg \<Longrightarrow> normalizeResilienceConfig cfg = cfg"
  by (auto simp: config_ok_def normalizeResilienceConfig_def Let_def or_default_def at_least_def at_most_def resilience_limits)

section \<open>The breaker\<close>

record Resilience =
  rs_cfg :: ResilienceConfig
  rs_slots :: int
  rs_failures :: int
  rs_openUntil :: "int option"
  rs_halfOpen :: bool
  rs_opened :: nat \<comment> \<open>calls of the \<open>onCircuitOpen\<close> hook\<close>

definition NewResilience :: "ResilienceConfig \<Rightarrow> Resilience" where
  "NewResilience cfg = \<lparr> rs_cfg = normalizeResilienceConfig cfg, rs_slots = 0, rs_failures = 0, rs_openUntil = None,
     rs_halfOpen = False, rs_opened = 0 \<rparr>"

record CircuitState =
  cs_State :: string
  cs_ConsecutiveFailures :: int
  cs_OpenUntil :: "int option"
  cs_FailureThreshold :: int

definition Resilience_State :: "int \<Rightarrow> Resilience option \<Rightarrow> CircuitState" where
  "Resilience_State now ro =
     (case ro of
        None \<Rightarrow> \<lparr> cs_State = ''closed'', cs_ConsecutiveFailures = 0, cs_OpenUntil = None,
                   cs_FailureThreshold = DefaultCircuitFailureThreshold \<rparr>
      | Some r \<Rightarrow>
        \<lparr> cs_State =
            (if (case rs_openUntil r of None \<Rightarrow> False | Some u \<Rightarrow> now < u) then ''open''
             else if rs_halfOpen r \<or> (case rs_openUntil r of None \<Rightarrow> False | Some u \<Rightarrow> \<not> now < u) then ''half-open''
             else ''closed''),
          cs_ConsecutiveFailures = rs_failures r, cs_OpenUntil = rs_openUntil r,
          cs_FailureThreshold = rc_CircuitFailureThreshold (rs_cfg r) \<rparr>)"

text \<open>\<open>acquire\<close> gives no slot (\<open>None\<close>) while the semaphore is full or when its select takes the
  ended context; without a semaphore the context is not looked at.\<close>

definition acquire :: "bool \<Rightarrow> Resilience \<Rightarrow> Resilience option" where
  "acquire cancelled r = (if rc_MaxConcurrent (rs_cfg r) \<le> 0 then Some r
     else if cancelled then None
     else if rs_slots r < rc_MaxConcurrent (rs_cfg r) then Some (r\<lparr> rs_slots := rs_slots r + 1 \<rparr>)
     else None)"

definition release :: "Resilience \<Rightarrow> Resilience" where
  "release r = (if rc_MaxConcurrent (rs_cfg r) \<le> 0 then r
     else if 0 < rs_slots r then r\<lparr> rs_slots := rs_slots r - 1 \<rparr> else r)"

datatype circuit_err = CircuitOpen int | HalfOpenProbe

definition allow :: "int \<Rightarrow> Resilience \<Rightarrow> Resilience \<times> (circuit_err + bool)" where
  "allow now r =
     (case rs_openUntil r of
        None \<Rightarrow> (r, Inr False)
      | Some u \<Rightarrow>
        if now < u then (r, Inl (CircuitOpen (u - now)))
        else if rs_halfOpen r then (r, Inl HalfOpenProbe)
        else (r\<lparr> rs_halfOpen := True \<rparr>, Inr True))"

definition onProbeDone :: "Resilience \<Rightarrow> Resilience" where
  "onProbeDone r = r\<lparr> rs_halfOpen := False \<rparr>"

definition onSuccess :: "Resilience \<Rightarrow> Resilience" where
  "onSuccess r = r\<lparr> rs_failures := 0, rs_openUntil := None, rs_halfOpen := False \<rparr>"

definition onAbort :: "Resilience \<Rightarrow> Resilience" where
  "onAbort r = r\<lparr> rs_halfOpen := False \<rparr>"

definition onFailure :: "int \<Rightarrow> Resilience \<Rightarrow> Resilience" where
  "onFailure now r =
     (let alreadyOpen = (case rs_openUntil r of None \<Rightarrow> False | Some u \<Rightarrow> now < u);
          r1 = r\<lparr> rs_failures := rs_failures r + 1 \<rparr>
      in if rs_halfOpen r1 \<or> rs_failures r1 \<ge> rc_CircuitFailureThreshold (rs_cfg r1)
         then r1\<lparr> rs_openUntil := Some (now + rc_CircuitOpenDuration (rs_cfg r1)), rs_halfOpen := False,
           rs_opened := (if alreadyOpen then rs_opened r1 else rs_opened r1 + 1) \<rparr>
         else r1)"

section \<open>Retry policy\<close>

definition IsIdempotentRetryMethod :: "string \<Rightarrow> bool" where
  "IsIdempotentRetryMethod http_method = (to_upper (trim_space http_method) \<in> {''GET'', ''HEAD''})"

definition classifyRetryStatus :: "int \<Rightarrow> bool" where
  "classifyRetryStatus code = (code \<in> {429, 502, 503, 504})"

definition isCircuitFailureStatus :: "int \<Rightarrow> bool" where
  "isCircuitFailureStatus code = (code \<ge> 500 \<and> code \<le> 599)"

text \<open>Transport errors by what \<open>errors.Is\<close> finds in them; \<open>TPermanent\<close> stands for the cross-origin,
  circuit-open, base-URL and body-size sentinels.\<close>

datatype transport_err = TCanceled | TDeadline | TPermanent | TOther

definition isRetryableTransportError :: "transport_err option \<Rightarrow> bool" where
  "isRetryableTransportError err =
     (case err of None \<Rightarrow> False | Some TCanceled \<Rightarrow> False | Some TDeadline \<Rightarrow> False | Some TPermanent \<Rightarrow> False
      | Some TOther \<Rightarrow> True)"

definition RetryPolicyClassify :: "string \<Rightarrow> int \<Rightarrow> transport_err option \<Rightarrow> bool \<times> string" where
  "RetryPolicyClassify http_method code err =
     (if err \<noteq> None then
        (if \<not> IsIdempotentRetryMethod http_method then (False, ''non-idempotent method'')
         else if \<not> isRetryableTransportError err then (False, ''non-retryable error'')
         else (True, ''transport error''))
      else if \<not> IsIdempotentRetryMethod http_method then (False, ''non-idempotent method'')
      else if classifyRetryStatus code then (True, ''retryable status'')
      else (False, ''status not retryable''))"

text \<open>\<open>http.ParseTime\<close> is an argument: the instant of an HTTP date. \<open>Time.Sub\<close> saturates.\<close>

definition time_sub :: "int \<Rightarrow> int \<Rightarrow> int" where
  "time_sub t now = at_most max_int64 (at_least (- (2 ^ 63)) (t - now))"

definition parseRetryAfter :: "(string \<Rightarrow> int option) \<Rightarrow> string \<Rightarrow> int \<Rightarrow> int \<times> bool" where
  "parseRetryAfter parseTime v0 now =
     (let v = trim_space v0 in
      if v = [] then (0, False)
      else case ParseInt64 v of
        Some sec \<Rightarrow>
          if sec < 0 then (0, True)
          else let maxSec = max_int64 div second; sec' = (if sec > maxSec then maxSec else sec)
            in (wrap64 (sec' * second), True)
      | None \<Rightarrow>
        (case parseTime v of
           Some t \<Rightarrow> let d = time_sub t now in if d < 0 then (0, True) else (d, True)
         | None \<Rightarrow> (0, False)))"

text \<open>The doubling loop: \<open>n\<close> rounds are left.\<close>

fun backoff_loop :: "int \<Rightarrow> nat \<Rightarrow> int \<Rightarrow> int" where
  "backoff_loop maxb 0 base = base"
| "backoff_loop maxb (Suc n) base =
     (if base \<ge> maxb sdiv 2 then maxb else backoff_loop maxb n (wrap64 (base * 2)))"

text \<open>\<open>retryBackoff\<close> of a client; \<open>retry_after\<close> is the header of the response kept from the attempt before
  (empty when there is none), \<open>intn\<close> the random source.\<close>

definition retryBackoff ::
  "(string \<Rightarrow> int option) \<Rightarrow> (int \<Rightarrow> int) \<Rightarrow> Resilience option \<Rightarrow> int \<Rightarrow> string option \<Rightarrow> int \<Rightarrow> int" where
  "retryBackoff parseTime intn ro attempt retry_after now =
     (let cfg = (case ro of None \<Rightarrow> DefaultResilienceConfig | Some r \<Rightarrow> rs_cfg r);
          header = (case retry_after of None \<Rightarrow> [] | Some h \<Rightarrow> h);
          after = (if header = [] then (0, False) else parseRetryAfter parseTime header now)
      in if snd after then
           (let d = (if fst after > rc_MaxBackoff cfg then rc_MaxBackoff cfg else fst after) in if d < 0 then 0 else d)
         else
           let b0 = backoff_loop (rc_MaxBackoff cfg) (nat (attempt - 1)) (rc_InitialBackoff cfg);
               base = (if b0 > rc_MaxBackoff cfg then rc_MaxBackoff cfg else b0)
           in if base \<le> 0 then 0 else intn (base + 1))"

section \<open>The request path\<close>

datatype reply = Status int | Failed transport_err

record Attempt =
  at_slept :: bool \<comment> \<open>the backoff ran to its end\<close>
  at_built :: bool \<comment> \<open>request and credentials could be built\<close>
  at_reply :: reply
  at_now :: int \<comment> \<open>clock when a failure is recorded\<close>
  at_wrapped :: bool \<comment> \<open>the response body could be wrapped\<close>

datatype call_err = EEarly | EAcquire | ECircuit circuit_err | ESleep | EBuild | ETransport transport_err | EBody | ERetries

datatype next_step = Continue | Return "call_err + int"

text \<open>One iteration of the attempt loop; the flag says that a request was sent.\<close>

definition attempt_step :: "bool \<Rightarrow> nat \<Rightarrow> nat \<Rightarrow> Attempt \<Rightarrow> Resilience \<Rightarrow> Resilience \<times> next_step \<times> bool" where
  "attempt_step idempotent maxAttempts attempt a r =
     (if attempt > 0 \<and> \<not> at_slept a then (r, Return (Inl ESleep), False)
      else if \<not> at_built a then (r, Return (Inl EBuild), False)
      else case at_reply a of
        Failed t \<Rightarrow>
          if t = TCanceled then (onAbort r, Return (Inl (ETransport t)), True)
          else
            let r1 = onFailure (at_now a) r in
            if \<not> idempotent \<or> \<not> isRetryableTransportError (Some t) \<or> attempt + 1 \<ge> maxAttempts
            then (r1, Return (Inl (ETransport t)), True)
            else (r1, Continue, True)
      | Status code \<Rightarrow>
          if idempotent \<and> classifyRetryStatus code \<and> attempt + 1 < maxAttempts
          then (if isCircuitFailureStatus code then onFailure (at_now a) r else r, Continue, True)
          else
            let r1 = (if isCircuitFailureStatus code then onFailure (at_now a) r
                      else if code < 500 then onSuccess r else r)
            in if \<not> at_wrapped a then (r1, Return (Inl EBody), True) else (r1, Return (Inr code), True))"

definition max_attempts :: "bool \<Rightarrow> Resilience \<Rightarrow> nat" where
  "max_attempts idempotent r = (if idempotent then nat (1 + rc_MaxRetries (rs_cfg r)) else 1)"

text \<open>The loop from iteration \<open>maxAttempts - left\<close> on, with the number of requests sent.\<close>

fun call_loop :: "bool \<Rightarrow> nat \<Rightarrow> (nat \<Rightarrow> Attempt) \<Rightarrow> nat \<Rightarrow> Resilience \<Rightarrow> Resilience \<times> (call_err + int) \<times> nat" where
  "call_loop idempotent maxAttempts net 0 r = (r, Inl ERetries, 0)"
| "call_loop idempotent maxAttempts net (Suc left) r =
     (let attempt = maxAttempts - Suc left in
      case attempt_step idempotent maxAttempts attempt (net attempt) r of
        (r1, Return res, sent) \<Rightarrow> (r1, res, if sent then 1 else 0)
      | (r1, Continue, sent) \<Rightarrow>
        (case call_loop idempotent maxAttempts net left r1 of
           (r2, res, n) \<Rightarrow> (r2, res, n + (if sent then 1 else 0))))"

text \<open>\<open>callJenkins\<close> as one call: \<open>early\<close> is a failure of the client, the URL or the guard, \<open>cancelled\<close> the
  select of \<open>acquire\<close> taking the ended context.\<close>

definition callJenkins ::
  "string \<Rightarrow> bool \<Rightarrow> bool \<Rightarrow> int \<Rightarrow> (nat \<Rightarrow> Attempt) \<Rightarrow> Resilience \<Rightarrow> Resilience \<times> (call_err + int) \<times> nat" where
  "callJenkins http_method early cancelled now net r =
     (if early then (r, Inl EEarly, 0)
      else case acquire cancelled r of
        None \<Rightarrow> (r, Inl EAcquire, 0)
      | Some r1 \<Rightarrow>
        (case allow now r1 of
           (r2, Inl e) \<Rightarrow> (release r2, Inl (ECircuit e), 0)
         | (r2, Inr probe) \<Rightarrow>
           let idempotent = IsIdempotentRetryMethod http_method; n = max_attempts idempotent r2 in
           (case call_loop idempotent n net n r2 of
              (r3, res, sent) \<Rightarrow> (release (if probe then onProbeDone r3 else r3), res, sent))))"

end
