(* ===== verification/MutationParams.thy ===== *)
theory MutationParams
  imports Rbac Sha256 "HOL-Library.AList"
begin

text \<open>
  Parameters and targets of a mutation (\<open>internal/mutation/params.go\<close>,
  \<open>internal/mutation/validate.go\<close>, \<open>IsSensitiveFieldName\<close> of \<open>internal/redact\<close>,
  \<open>HashOpaque\<close> of \<open>internal/audit\<close>): normalisation, the sensitive-name filter, fingerprints,
  target hashes and validation against a job's parameter definitions.

  A parameter map is an association list in the order the runtime visits it. A value carries what
  the code reads of it: a float its \<open>fmt.Sprint\<close> and JSON texts, a composite value the same two
  texts. JSON strings are escaped as \<open>encoding/json\<close> does, for valid UTF-8 without the two line
  separators U+2028 and U+2029.
\<close>

section \<open>Values\<close>

datatype pval = PNil | PStr string | PBool bool | PInt int
  | PFloat string string \<comment> \<open>\<open>fmt.Sprint\<close> and JSON text\<close>
  | PNumber string \<comment> \<open>\<open>json.Number\<close>\<close>
  | POther string string \<comment> \<open>maps, slices: \<open>fmt.Sprint\<close> and JSON text\<close>

type_synonym params = "(string \<times> pval) list"

fun sprint :: "pval \<Rightarrow> string" where
  "sprint PNil = ''<nil>''"
| "sprint (PStr s) = s"
| "sprint (PBool b) = (if b then ''true'' else ''false'')"
| "sprint (PInt i) = show_int i"
| "sprint (PFloat t j) = t"
| "sprint (PNumber s) = s"
| "sprint (POther t j) = t"

text \<open>The second byte of the two-byte escapes.\<close>

definition json_short :: "char \<Rightarrow> char option" where
  "json_short c =
     (if c = CHR 0x22 then Some CHR 0x22
      else if c = CHR 0x5C then Some CHR 0x5C
      else if c = CHR 0x08 then Some CHR ''b''
      else if c = CHR 0x0C then Some CHR ''f''
      else if c = CHR 0x0A then Some CHR ''n''
      else if c = CHR 0x0D then Some CHR ''r''
      else if c = CHR 0x09 then Some CHR ''t''
      else None)"

definition json_escape_char :: "char \<Rightarrow> string" where
  "json_escape_char c =
     (case json_short c of
        Some x \<Rightarrow> [CHR 0x5C, x]
      | None \<Rightarrow>
        if (of_char c :: nat) < 32 \<or> c = CHR ''<'' \<or> c = CHR ''>'' \<or> c = CHR ''&''
        then [CHR 0x5C, CHR ''u'', CHR ''0'', CHR ''0''] @ hex_byte c
        else [c])"

definition json_string :: "string \<Rightarrow> string" where
  "json_string s = [CHR 0x22] @ concat (map json_escape_char s) @ [CHR 0x22]"

fun json_text :: "pval \<Rightarrow> string" where
  "json_text PNil = ''null''"
| "json_text (PStr s) = json_string s"
| "json_text (PBool b) = (if b then ''true'' else ''false'')"
| "json_text (PInt i) = show_int i"
| "json_text (PFloat t j) = j"
| "json_text (PNumber s) = s"
| "json_text (POther t j) = j"

section \<open>Sensitive names (internal/redact)\<close>

definition sensitive_names :: "string list" where
  "sensitive_names = [''password'', ''passwd'', ''secret'', ''token'', ''api_key'', ''apikey'',
     ''private_key'', ''access_key'', ''client_secret'', ''authorization'', ''cookie'', ''credentials'',
     ''credential'', ''jsessionid'', ''auth'', ''auth_token'', ''access_token'', ''refresh_token'']"

definition sensitive_frags :: "string list" where
  "sensitive_frags = [''password'', ''passwd'', ''secret'', ''token'', ''api_key'', ''apikey'',
     ''private_key'', ''access_key'', ''client_secret'', ''credential'', ''authorization'', ''jsessionid'']"

definition IsSensitiveFieldName :: "string \<Rightarrow> bool" where
  "IsSensitiveFieldName name =
     (if name = [] then False
      else
        let n = replace_char CHR ''-'' CHR ''_'' (to_lower name) in
        if n \<in> set sensitive_names then True
        else list_ex (\<lambda>frag. str_contains n frag) sensitive_frags)"

section \<open>Normalisation\<close>

fun normalizeParamValue :: "pval \<Rightarrow> pval" where
  "normalizeParamValue PNil = PStr []"
| "normalizeParamValue (PStr s) = PStr s"
| "normalizeParamValue (PBool b) = PBool b"
| "normalizeParamValue (PInt i) = PInt i"
| "normalizeParamValue (PFloat t j) = PFloat t j"
| "normalizeParamValue (PNumber s) = PStr s"
| "normalizeParamValue (POther t j) = PStr t"

fun normalize_loop :: "params \<Rightarrow> params \<Rightarrow> apperr + params" where
  "normalize_loop out [] = Inr out"
| "normalize_loop out ((k, v) # rest) =
     (let name = trim_space k in
      if name = [] then Inl (newErr CodeInvalidArgument ''parameter name must not be empty'')
      else if IsSensitiveFieldName name then
        Inl (newErrf CodeInvalidArgument
          ''parameter %q is classified as secret and cannot be supplied via the model mutation path'' [name])
      else normalize_loop (AList.update name (normalizeParamValue v) out) rest)"

definition NormalizeParams :: "params \<Rightarrow> apperr + params" where
  "NormalizeParams inp = (if inp = [] then Inr [] else normalize_loop [] inp)"

text \<open>\<open>RedactParams\<close>: the text and JSON redactors of \<open>internal/redact\<close> are arguments.\<close>

definition RedactParams :: "(string \<Rightarrow> string) \<Rightarrow> (pval \<Rightarrow> pval) \<Rightarrow> string \<Rightarrow> params \<Rightarrow> params" where
  "RedactParams redactText redactJSON replacement ps =
     map (\<lambda>(k, v). (k,
       if IsSensitiveFieldName k then PStr replacement
       else case v of PStr s \<Rightarrow> PStr (redactText s) | _ \<Rightarrow> redactJSON v)) ps"

definition cloneParams :: "params \<Rightarrow> params" where
  "cloneParams ps = ps"

section \<open>Fingerprints and target hashes\<close>

definition hashBytes :: "string \<Rightarrow> string" where
  "hashBytes b = hex_encode (take 16 (Sum256 b))"

text \<open>The text \<open>ParamFingerprint\<close> hashes.\<close>

definition paramPreimage :: "params \<Rightarrow> string" where
  "paramPreimage ps =
     (if ps = [] then ''params:empty''
      else ''params:'' @ concat (map (\<lambda>k. k @ ''='' @ json_text (the (map_of ps k)) @ '';'') (sort (map fst ps))))"

definition ParamFingerprint :: "params \<Rightarrow> string" where
  "ParamFingerprint ps = hashBytes (paramPreimage ps)"

text \<open>The text \<open>TargetHash\<close> hashes; mode and extra are passed by every caller of the manager.\<close>

definition targetPreimage ::
  "string \<Rightarrow> string \<Rightarrow> int \<Rightarrow> int \<Rightarrow> string \<Rightarrow> string \<Rightarrow> string \<Rightarrow> string" where
  "targetPreimage action job0 buildNumber queueID paramFP mode0 extra0 =
     (let job = trim_space job0; mode = trim_space mode0; extra = trim_space extra0 in
      ''action='' @ action @ '';job='' @ job
      @ (if buildNumber > 0 then '';build='' @ show_int buildNumber else [])
      @ (if queueID > 0 then '';queue='' @ show_int queueID else [])
      @ '';params='' @ paramFP
      @ (if mode \<noteq> [] then '';mode='' @ mode else [])
      @ (if extra \<noteq> [] then '';extra='' @ hashBytes extra else []))"

definition TargetHash :: "string \<Rightarrow> string \<Rightarrow> int \<Rightarrow> int \<Rightarrow> string \<Rightarrow> string \<Rightarrow> string \<Rightarrow> string" where
  "TargetHash action job buildNumber queueID paramFP mode extra =
     hashBytes (targetPreimage action job buildNumber queueID paramFP mode extra)"

definition HashOpaque :: "string \<Rightarrow> string" where
  "HashOpaque s0 =
     (let s = trim_space s0 in if s = [] then [] else hex_encode (take 8 (Sum256 s)))"

section \<open>Validation against a job's definitions (validate.go)\<close>

record ParamDefinition =
  pd_Name :: string
  pd_Type :: string
  pd_Choices :: "string list"
  pd_Required :: bool

datatype paramKind = paramKindString | paramKindChoice | paramKindBoolean | paramKindSecret
  | paramKindUnsupported

definition shortType :: "string \<Rightarrow> string" where
  "shortType typ =
     (let t = trim_space typ; tail = rev (before_char CHR ''.'' (rev t)) in
      if CHR ''.'' \<in> set t \<and> tail \<noteq> [] then tail else t)"

definition classifyParamType :: "string \<Rightarrow> paramKind" where
  "classifyParamType typ =
     (let s = to_lower (shortType typ) in
      if s = [] then paramKindString
      else if list_ex (str_contains s) [''password'', ''passwd'', ''credentials'', ''secret''] then paramKindSecret
      else if str_contains s ''choice'' then paramKindChoice
      else if str_contains s ''boolean'' \<or> str_contains s ''bool'' then paramKindBoolean
      else if list_ex (str_contains s) [''string'', ''text'', ''pt_single''] \<or> s = ''pt_string'' then paramKindString
      else if list_ex (str_contains s) [''file'', ''runparameter'', ''run_parameter'', ''gitparameter'',
          ''git_parameter'', ''nodeparameter'', ''labelparameter''] then paramKindUnsupported
      else paramKindUnsupported)"

definition validateChoiceValue :: "string \<Rightarrow> pval \<Rightarrow> string list \<Rightarrow> apperr option" where
  "validateChoiceValue name v choices =
     (let s = trim_space (sprint v) in
      if choices = [] then
        Some (newErrf CodeInvalidArgument
          ''parameter %q is a choice parameter but no allowed choices are available from Jenkins'' [name])
      else if s \<in> set choices then None
      else Some (newErrf CodeInvalidArgument
        ''parameter %q value %q is not one of the allowed choices'' [name, s]))"

definition validateBooleanValue :: "string \<Rightarrow> pval \<Rightarrow> apperr option" where
  "validateBooleanValue name v =
     (case v of
        PBool b \<Rightarrow> None
      | PStr s \<Rightarrow>
        if to_lower (trim_space s) \<in> {''true'', ''false''} then None
        else Some (newErrf CodeInvalidArgument
          ''parameter %q must be a boolean (true/false), got %q'' [name, s])
      | _ \<Rightarrow> Some (newErrf CodeInvalidArgument ''parameter %q must be a boolean (true/false)'' [name]))"

definition validateStringLikeValue :: "string \<Rightarrow> pval \<Rightarrow> apperr option" where
  "validateStringLikeValue name v =
     (case v of
        PNumber s \<Rightarrow> Some (newErrf CodeInvalidArgument ''parameter %q must be a scalar value'' [name])
      | POther t j \<Rightarrow> Some (newErrf CodeInvalidArgument ''parameter %q must be a scalar value'' [name])
      | _ \<Rightarrow> None)"

text \<open>The map of definitions by trimmed name; the first definition of a name wins.\<close>

fun defsByName :: "ParamDefinition list \<Rightarrow> string \<rightharpoonup> ParamDefinition" where
  "defsByName [] = Map.empty"
| "defsByName (d # ds) =
     (let name = trim_space (pd_Name d) in
      if name = [] then defsByName ds
      else (defsByName ds)(name \<mapsto> d\<lparr> pd_Name := name, pd_Required := False \<rparr>))"

definition validateParam :: "ParamDefinition list \<Rightarrow> string \<times> pval \<Rightarrow> apperr option" where
  "validateParam defs kv =
     (case kv of (name, v) \<Rightarrow>
       (case defsByName defs name of
          None \<Rightarrow> Some (newErrf CodeInvalidArgument ''parameter %q is not defined on this job'' [name])
        | Some d \<Rightarrow>
          (case classifyParamType (pd_Type d) of
             paramKindSecret \<Rightarrow> Some (newErrf CodeInvalidArgument
               ''parameter %q has secret/password type %q and cannot be supplied via the model mutation path''
               [name, shortType (pd_Type d)])
           | paramKindUnsupported \<Rightarrow> Some (newErrf CodeInvalidArgument
               ''parameter %q has unsupported type %q and cannot be supplied via the model mutation path''
               [name, shortType (pd_Type d)])
           | paramKindChoice \<Rightarrow> validateChoiceValue name v (pd_Choices d)
           | paramKindBoolean \<Rightarrow> validateBooleanValue name v
           | paramKindString \<Rightarrow> validateStringLikeValue name v)))"

definition ValidateAgainstDefinitions :: "params \<Rightarrow> ParamDefinition list \<Rightarrow> apperr option" where
  "ValidateAgainstDefinitions ps defs = first_err (map (validateParam defs) ps)"

definition ValidateRequiredParams :: "params \<Rightarrow> ParamDefinition list \<Rightarrow> apperr option" where
  "ValidateRequiredParams ps defs = first_err (map (\<lambda>d.
     if \<not> pd_Required d then None
     else let name = trim_space (pd_Name d) in
       if name = [] then None
       else if map_of ps name = None then
         Some (newErrf CodeInvalidArgument ''required parameter %q is missing'' [name])
       else None) defs)"

section \<open>Normalised parameters\<close>

definition params_ok :: "params \<Rightarrow> bool" where
  "params_ok ps = (distinct (map fst ps) \<and>
     list_all (\<lambda>(k, v). trim_space k = k \<and> k \<noteq> [] \<and> \<not> IsSensitiveFieldName k \<and> normalizeParamValue v = v) ps)"

lemma normalizeParamValue_idem [simp]: "normalizeParamValue (normalizeParamValue v) = normalizeParamValue v"
  by (cases v) auto

lemma set_alist_update: "set (AList.update k v ps) \<subseteq> insert (k, v) (set ps)"
  by (induction ps) auto

lemma params_ok_update:
  assumes "params_ok out" and "trim_space k = k" and "k \<noteq> []" and "\<not> IsSensitiveFieldName k"
  shows "params_ok (AList.update k (normalizeParamValue v) out)"
proof -
  have "distinct (map fst (AList.update k (normalizeParamValue v) out))"
    using assms(1) by (intro AList.distinct_update) (simp add: params_ok_def)
  moreover have "list_all (\<lambda>(k, v). trim_space k = k \<and> k \<noteq> [] \<and> \<not> IsSensitiveFieldName k \<and>
      normalizeParamValue v = v) (AList.update k (normalizeParamValue v) out)"
    using assms set_alist_update [of k "normalizeParamValue v" out]
    by (fastforce simp: params_ok_def list_all_iff)
  ultimately show ?thesis by (simp add: params_ok_def)
qed

lemma normalize_loop_ok: "normalize_loop out ps = Inr res \<Longrightarrow> params_ok out \<Longrightarrow> params_ok res"
  by (induction out ps rule: normalize_loop.induct) (auto simp: Let_def params_ok_update split: if_splits)

lemma NormalizeParams_ok: "NormalizeParams ps = Inr res \<Longrightarrow> params_ok res"
  by (auto simp: NormalizeParams_def params_ok_def dest!: normalize_loop_ok split: if_splits)

lemma update_fresh: "k \<notin> fst ` set out \<Longrightarrow> AList.update k v out = out @ [(k, v)]"
  by (induction out) auto

lemma normalize_loop_fix:
  "params_ok (out @ ps) \<Longrightarrow> normalize_loop out ps = Inr (out @ ps)"
proof (induction ps arbitrary: out)
  case (Cons kv ps)
  obtain k v where kv: "kv = (k, v)" by fastforce
  have k: "trim_space k = k" "k \<noteq> []" "\<not> IsSensitiveFieldName k" "normalizeParamValue v = v"
    and fresh: "k \<notin> fst ` set out"
    using Cons.prems by (auto simp: params_ok_def kv)
  have "normalize_loop (out @ [(k, v)]) ps = Inr ((out @ [(k, v)]) @ ps)"
    using Cons.prems by (intro Cons.IH) (simp add: kv)
  with k update_fresh [OF fresh] show ?case by (simp add: kv)
qed simp

lemma NormalizeParams_fix: "params_ok ps \<Longrightarrow> NormalizeParams ps = Inr ps"
  using normalize_loop_fix [of "[]" ps] by (simp add: NormalizeParams_def)

section \<open>What a fingerprint's text determines\<close>

subsection \<open>JSON strings end where they say\<close>

lemma json_short_inj: "json_short c = Some x \<Longrightarrow> json_short d = Some x \<Longrightarrow> c = d"
  unfolding json_short_def by (auto split: if_split_asm)

lemma json_short_u: "json_short c \<noteq> Some CHR ''u''"
  unfolding json_short_def by simp

lemma json_short_None: "json_short c = None \<Longrightarrow> c \<noteq> CHR 0x22 \<and> c \<noteq> CHR 0x5C"
  unfolding json_short_def by (simp split: if_split_asm)

lemma json_escape_head:
  assumes "json_escape_char c @ r = x # xs"
  shows "x \<noteq> CHR 0x22"
  using assms json_short_None [of c] by (auto simp: json_escape_char_def split: option.splits if_splits)

lemma hex_byte_inj:
  assumes "hex_byte c @ r = hex_byte d @ r'"
  shows "c = d \<and> r = r'"
proof -
  have code: "(of_char (hex_digit k) :: nat) = (if k < 10 then 48 + k else 87 + k)" if "k < 16" for k
    using that by (simp add: hex_digit_def)
  have inj: "k = l" if "hex_digit k = hex_digit l" "k < 16" "l < 16" for k l
  proof -
    have "(if k < 10 then 48 + k else 87 + k) = (if l < 10 then 48 + l else 87 + l)"
      unfolding code [OF that(2), symmetric] code [OF that(3), symmetric] that(1) ..
    then show ?thesis using that(2,3) by (simp split: if_splits)
  qed
  have eq: "hex_digit (of_char c div 16) = hex_digit (of_char d div 16)"
      "hex_digit (of_char c mod 16) = hex_digit (of_char d mod 16)"
    using assms by (simp_all add: hex_byte_def Let_def)
  have "(of_char c :: nat) div 16 = of_char d div 16" "(of_char c :: nat) mod 16 = of_char d mod 16"
    by (rule inj [OF eq(1) of_char_nibbles(1) of_char_nibbles(1)],
        rule inj [OF eq(2) of_char_nibbles(2) of_char_nibbles(2)])
  then have "(of_char c :: nat) = of_char d" by (metis mult_div_mod_eq)
  then show ?thesis using assms by (simp add: hex_byte_def Let_def)
qed

lemma json_escape_inj:
  assumes "json_escape_char c @ r = json_escape_char d @ r'"
  shows "c = d \<and> r = r'"
proof (cases "json_short c"; cases "json_short d")
  fix x y assume "json_short c = Some x" "json_short d = Some y"
  with assms json_short_inj [of c x d] show ?thesis by (simp add: json_escape_char_def)
next
  fix y assume "json_short c = None" "json_short d = Some y"
  with assms json_short_None [of c] json_short_u [of d] show ?thesis
    by (simp add: json_escape_char_def split: if_split_asm)
next
  fix x assume "json_short c = Some x" "json_short d = None"
  with assms json_short_None [of d] json_short_u [of c] show ?thesis
    by (simp add: json_escape_char_def split: if_split_asm)
next
  assume "json_short c = None" "json_short d = None"
  with assms json_short_None [of c] json_short_None [of d] hex_byte_inj [of c r d r'] show ?thesis
    by (simp add: json_escape_char_def split: if_split_asm)
qed

lemma json_body_inj:
  "concat (map json_escape_char s) @ [CHR 0x22] @ r = concat (map json_escape_char t) @ [CHR 0x22] @ r' \<Longrightarrow>
     s = t \<and> r = r'"
proof (induction s arbitrary: t)
  case Nil
  then show ?case by (cases t) (auto dest: json_escape_head [OF sym])
next
  case (Cons c s)
  then show ?case
  proof (cases t)
    case Nil
    with Cons.prems show ?thesis by (auto dest: json_escape_head)
  next
    case (Cons d u)
    from Cons.prems have "json_escape_char c @ concat (map json_escape_char s) @ [CHR 0x22] @ r =
        json_escape_char d @ concat (map json_escape_char u) @ [CHR 0x22] @ r'"
      by (simp add: \<open>t = d # u\<close>)
    from json_escape_inj [OF this] Cons.IH [of u] show ?thesis by (simp add: \<open>t = d # u\<close>)
  qed
qed

subsection \<open>Lists of entries\<close>

text \<open>A value whose JSON text cannot be confused with what follows: a string, or a text without
  quotes and semicolons (numbers, booleans, null).\<close>

definition plain_text :: "pval \<Rightarrow> bool" where
  "plain_text v = (case v of PStr s \<Rightarrow> True
     | _ \<Rightarrow> CHR '';'' \<notin> set (json_text v) \<and> CHR 0x22 \<notin> set (json_text v))"

lemma json_text_sep:
  assumes "plain_text v" and "plain_text w" and eq: "json_text v @ CHR '';'' # r = json_text w @ CHR '';'' # r'"
  shows "json_text v = json_text w \<and> r = r'"
proof (cases "\<exists>s t. v = PStr s \<and> w = PStr t")
  case True
  then obtain s t where "v = PStr s" "w = PStr t" by blast
  with eq json_body_inj [of s "CHR '';'' # r" t "CHR '';'' # r'"] show ?thesis by (simp add: json_string_def)
next
  case False
  have plain: "CHR '';'' \<notin> set (json_text x) \<and> CHR 0x22 \<notin> set (json_text x)"
    if "plain_text x" "\<nexists>s. x = PStr s" for x
    using that by (cases x) (auto simp: plain_text_def)
  have no_mix: False if "json_text (PStr s) @ CHR '';'' # r = json_text x @ CHR '';'' # r'"
    "plain_text x" "\<nexists>s. x = PStr s" for s x r r'
    using that(1) plain [OF that(2,3)] by (cases "json_text x") (auto simp: json_string_def)
  consider "\<nexists>s. v = PStr s" "\<nexists>s. w = PStr s" | s where "v = PStr s" "\<nexists>t. w = PStr t"
    | s where "w = PStr s" "\<nexists>t. v = PStr t"
    using False by blast
  then show ?thesis
  proof cases
    case 1
    then show ?thesis using char_sep [OF _ _ eq] plain assms(1,2) by blast
  next
    case 2
    then show ?thesis using no_mix eq assms(2) by blast
  next
    case 3
    then show ?thesis using no_mix [OF eq [symmetric, unfolded 3(1)] assms(1) 3(2)] by blast
  qed
qed

definition entries :: "(string \<times> pval) list \<Rightarrow> string" where
  "entries kvs = concat (map (\<lambda>(k, v). k @ ''='' @ json_text v @ '';'') kvs)"

lemma entries_inj:
  "entries xs = entries ys \<Longrightarrow> list_all (\<lambda>(k, v). CHR ''='' \<notin> set k \<and> plain_text v) (xs @ ys) \<Longrightarrow>
     map (\<lambda>(k, v). (k, json_text v)) xs = map (\<lambda>(k, v). (k, json_text v)) ys"
proof (induction xs arbitrary: ys)
  case Nil
  then show ?case by (cases ys) (auto simp: entries_def)
next
  case (Cons x xs)
  from Cons.prems(1) obtain y zs where ys: "ys = y # zs" by (cases ys) (auto simp: entries_def split: prod.splits)
  obtain k v where x: "x = (k, v)" by fastforce
  obtain l w where y: "y = (l, w)" by fastforce
  have ok: "CHR ''='' \<notin> set k" "CHR ''='' \<notin> set l" "plain_text v" "plain_text w"
    using Cons.prems(2) by (auto simp: x y ys)
  from Cons.prems(1) have "k @ CHR ''='' # json_text v @ CHR '';'' # entries xs =
      l @ CHR ''='' # json_text w @ CHR '';'' # entries zs"
    by (simp add: entries_def x y ys)
  from char_sep [OF ok(1,2) this]
  have "k = l" and rest: "json_text v @ CHR '';'' # entries xs = json_text w @ CHR '';'' # entries zs" by auto
  from json_text_sep [OF ok(3,4) rest] have "json_text v = json_text w" and "entries xs = entries zs" by auto
  with \<open>k = l\<close> Cons.IH [of zs] Cons.prems(2) show ?case by (simp add: x y ys)
qed

text \<open>What a parameter map says: its names in order, each with its value's JSON text.\<close>

definition sortedEntries :: "params \<Rightarrow> (string \<times> pval) list" where
  "sortedEntries ps = map (\<lambda>k. (k, the (map_of ps k))) (sort (map fst ps))"

definition jsonView :: "params \<Rightarrow> (string \<times> string) list" where
  "jsonView ps = map (\<lambda>(k, v). (k, json_text v)) (sortedEntries ps)"

lemma paramPreimage_entries:
  "paramPreimage ps = (if ps = [] then ''params:empty'' else ''params:'' @ entries (sortedEntries ps))"
  by (simp add: paramPreimage_def entries_def sortedEntries_def comp_def)

lemma sortedEntries_ok:
  assumes "list_all (\<lambda>(k, v). P k \<and> Q v) ps"
  shows "list_all (\<lambda>(k, v). P k \<and> Q v) (sortedEntries ps)"
  unfolding list_all_iff
proof
  fix kv assume "kv \<in> set (sortedEntries ps)"
  then obtain k where k: "k \<in> fst ` set ps" "kv = (k, the (map_of ps k))" by (auto simp: sortedEntries_def)
  then obtain v where "map_of ps k = Some v" by (metis map_of_eq_None_iff option.exhaust)
  with k assms map_of_SomeD [OF this] show "case kv of (k, v) \<Rightarrow> P k \<and> Q v" by (auto simp: list_all_iff)
qed

section \<open>What a target hash's text determines\<close>

lemma split_semi_fold:
  "split_on CHR '';'' (foldl (\<lambda>s p. s @ CHR '';'' # p) s ps) =
     split_on CHR '';'' s @ concat (map (split_on CHR '';'') ps)"
  by (induction ps arbitrary: s) (simp_all add: split_on_app)

definition tailPieces :: "int \<Rightarrow> int \<Rightarrow> string \<Rightarrow> string \<Rightarrow> string \<Rightarrow> string list" where
  "tailPieces b q fp mode extra =
     (if b > 0 then [''build='' @ show_int b] else []) @ (if q > 0 then [''queue='' @ show_int q] else []) @
     [''params='' @ fp] @ (if mode \<noteq> [] then [''mode='' @ mode] else []) @
     (if extra \<noteq> [] then [''extra='' @ hashBytes extra] else [])"

lemma hashBytes_hex: "c \<in> set (hashBytes b) \<Longrightarrow> is_hex_char c"
  by (auto simp: hashBytes_def dest: hex_encode_is_hex)

lemma semi_not_hex: "\<not> is_hex_char CHR '';''"
  by (simp add: is_hex_char_def)

lemma hashBytes_no_semi: "CHR '';'' \<notin> set (hashBytes b)"
  using hashBytes_hex semi_not_hex by blast

lemma split_hashBytes [simp]: "split_on CHR '';'' (hashBytes b) = [hashBytes b]"
  by (rule split_on_id [OF hashBytes_no_semi])

lemma targetPreimage_pieces:
  assumes "CHR '';'' \<notin> set a" and "CHR '';'' \<notin> set fp" and "CHR '';'' \<notin> set (trim_space m)"
  shows "split_on CHR '';'' (targetPreimage a j b q fp m x) =
    (''action='' @ a) # split_on CHR '';'' (''job='' @ trim_space j) @ tailPieces b q fp (trim_space m) (trim_space x)"
proof -
  have "targetPreimage a j b q fp m x =
      foldl (\<lambda>s p. s @ CHR '';'' # p) (''action='' @ a)
        ((''job='' @ trim_space j) # tailPieces b q fp (trim_space m) (trim_space x))"
    by (simp add: targetPreimage_def tailPieces_def Let_def)
  moreover have "concat (map (split_on CHR '';'') (tailPieces b q fp (trim_space m) (trim_space x))) =
      tailPieces b q fp (trim_space m) (trim_space x)"
    using assms by (auto simp: tailPieces_def split_on_id)
  moreover have "split_on CHR '';'' (''action='' @ a) = [''action='' @ a]"
    using assms(1) by (intro split_on_id) simp
  ultimately show ?thesis by (simp only: split_semi_fold list.map concat.simps append_Cons append_Nil)
qed

lemma tailPieces_inj:
  assumes "P @ tailPieces b q fp m x = P' @ tailPieces b' q' fp' m' x'"
    and "(0 < b) = (0 < b')" and "(0 < q) = (0 < q')"
  shows "P = P' \<and> (0 < b \<longrightarrow> b = b') \<and> (0 < q \<longrightarrow> q = q') \<and> fp = fp' \<and> m = m' \<and>
    (x = [] \<longleftrightarrow> x' = []) \<and> (x \<noteq> [] \<longrightarrow> hashBytes x = hashBytes x')"
proof -
  from assms(1) have "rev (tailPieces b q fp m x) @ rev P = rev (tailPieces b' q' fp' m' x') @ rev P'"
    by (metis rev_append)
  then show ?thesis using assms(2,3) show_int_inj_pos [of b b'] show_int_inj_pos [of q q']
    by (simp add: tailPieces_def split: if_split_asm)
qed

lemma targetPreimage_inj:
  assumes eq: "targetPreimage a j b q fp m x = targetPreimage a' j' b' q' fp' m' x'"
    and "CHR '';'' \<notin> set a" "CHR '';'' \<notin> set fp" "CHR '';'' \<notin> set (trim_space m)"
    and "CHR '';'' \<notin> set a'" "CHR '';'' \<notin> set fp'" "CHR '';'' \<notin> set (trim_space m')"
    and shape: "a = a' \<Longrightarrow> (0 < b) = (0 < b') \<and> (0 < q) = (0 < q')"
  shows "a = a' \<and> trim_space j = trim_space j' \<and> (0 < b \<longrightarrow> b = b') \<and> (0 < q \<longrightarrow> q = q') \<and> fp = fp' \<and>
    trim_space m = trim_space m' \<and> (trim_space x = [] \<longleftrightarrow> trim_space x' = []) \<and>
    (trim_space x \<noteq> [] \<longrightarrow> hashBytes (trim_space x) = hashBytes (trim_space x'))"
proof -
  from eq have "(''action='' @ a) # split_on CHR '';'' (''job='' @ trim_space j) @
        tailPieces b q fp (trim_space m) (trim_space x) =
      (''action='' @ a') # split_on CHR '';'' (''job='' @ trim_space j') @
        tailPieces b' q' fp' (trim_space m') (trim_space x')"
    using targetPreimage_pieces assms(2-7) by metis
  then have a: "a = a'" and rest: "split_on CHR '';'' (''job='' @ trim_space j) @
        tailPieces b q fp (trim_space m) (trim_space x) =
      split_on CHR '';'' (''job='' @ trim_space j') @ tailPieces b' q' fp' (trim_space m') (trim_space x')"
    by simp_all
  note t = tailPieces_inj [OF rest shape [OF a, THEN conjunct1] shape [OF a, THEN conjunct2]]
  then have "''job='' @ trim_space j = ''job='' @ trim_space j'" by (metis join_split_on)
  with a t show ?thesis by simp
qed

section \<open>Properties\<close>

lemma normalize_loop_not_sensitive:
  "normalize_loop out ps = Inr res \<Longrightarrow> \<not> list_ex (\<lambda>(k, v). IsSensitiveFieldName (trim_space k)) ps"
  by (induction out ps rule: normalize_loop.induct) (auto simp: Let_def split: if_splits)

text \<open>Normalised parameters carry no secret: if normalisation succeeds, no given name is
  sensitive, the result has distinct, trimmed, non-empty, non-sensitive names and scalar values,
  and normalising it again changes nothing.\<close>

theorem NormalizeParams_sound:
  assumes "NormalizeParams ps = Inr out"
  shows "params_ok out \<and> NormalizeParams out = Inr out \<and>
    \<not> list_ex (\<lambda>(k, v). IsSensitiveFieldName (trim_space k)) ps"
  using NormalizeParams_ok [OF assms] NormalizeParams_fix assms normalize_loop_not_sensitive [of "[]" ps out]
  by (auto simp: NormalizeParams_def split: if_splits)

lemma NormalizeParams_sound_witness:
  "params_ok [(''BRANCH'', PStr ''main''), (''DRY_RUN'', PBool True)] \<and>
   NormalizeParams [(''BRANCH'', PStr ''main''), (''DRY_RUN'', PBool True)] =
     Inr [(''BRANCH'', PStr ''main''), (''DRY_RUN'', PBool True)] \<and>
   \<not> list_ex (\<lambda>(k, v). IsSensitiveFieldName (trim_space k))
     [('' BRANCH'', PStr ''main''), (''DRY_RUN'', PBool True)]"
  by (rule NormalizeParams_sound) code_simp

lemma paramPreimage_determines:
  assumes "list_all (\<lambda>(k, v). CHR ''='' \<notin> set k \<and> plain_text v) ps"
    and "list_all (\<lambda>(k, v). CHR ''='' \<notin> set k \<and> plain_text v) qs"
    and "paramPreimage ps = paramPreimage qs"
  shows "jsonView ps = jsonView qs"
proof -
  have no_empty: "entries (sortedEntries rs) \<noteq> ''empty''" if "rs \<noteq> []" for rs
  proof -
    have "sortedEntries rs \<noteq> []" using that by (metis Nil_is_map_conv length_0_conv length_map length_sort sortedEntries_def)
    then obtain kv kvs where "sortedEntries rs = kv # kvs" by (cases "sortedEntries rs") auto
    then have "CHR ''='' \<in> set (entries (sortedEntries rs))" by (cases kv) (simp add: entries_def)
    then show ?thesis by auto
  qed
  show ?thesis
  proof (cases "ps = [] \<or> qs = []")
    case True
    with assms(3) no_empty [of ps] no_empty [of qs] have "ps = [] \<and> qs = []"
      by (auto simp: paramPreimage_entries split: if_splits)
    then show ?thesis by simp
  next
    case False
    with assms(3) have "entries (sortedEntries ps) = entries (sortedEntries qs)"
      by (simp add: paramPreimage_entries)
    moreover have "list_all (\<lambda>(k, v). CHR ''='' \<notin> set k \<and> plain_text v) (sortedEntries ps @ sortedEntries qs)"
      unfolding list_all_append
      by (intro conjI sortedEntries_ok [where P = "\<lambda>k. CHR ''='' \<notin> set k" and Q = plain_text] assms(1,2))
    ultimately show ?thesis unfolding jsonView_def by (rule entries_inj)
  qed
qed

text \<open>When no parameter name contains an equals sign, the text that is hashed into the
  fingerprint determines the parameters: two maps with the same text have the same names, each with
  the same JSON value. (Values are strings of any content, or texts without quote and semicolon.)\<close>

theorem fingerprint_text_determines_params:
  assumes "list_all (\<lambda>(k, v). CHR ''='' \<notin> set k \<and> plain_text v) ps"
    and "list_all (\<lambda>(k, v). CHR ''='' \<notin> set k \<and> plain_text v) qs"
    and "paramPreimage ps = paramPreimage qs"
  shows "jsonView ps = jsonView qs"
  using assms by (rule paramPreimage_determines)

lemma fingerprint_text_determines_params_witness:
  "jsonView [(''B'', PStr ''x;y''), (''A'', PInt 3)] = jsonView [(''A'', PInt 3), (''B'', PStr ''x;y'')]"
  by (rule fingerprint_text_determines_params) code_simp+

text \<open>With an equals sign in a parameter name it does not: names are written into the hashed text
  unescaped, and two different normalised parameter maps (one parameter, two parameters) have the
  same fingerprint.\<close>

theorem ParamFingerprint_collision:
  "\<exists>ps qs. NormalizeParams ps = Inr ps \<and> NormalizeParams qs = Inr qs \<and> length ps = 1 \<and> length qs = 2 \<and>
     jsonView ps \<noteq> jsonView qs \<and> ParamFingerprint ps = ParamFingerprint qs"
proof -
  let ?ps = "[(''A='' @ [CHR 0x22] @ ''x'' @ [CHR 0x22] @ '';B'', PStr ''y'')]"
  let ?qs = "[(''A'', PStr ''x''), (''B'', PStr ''y'')]"
  have "paramPreimage ?ps = paramPreimage ?qs" by code_simp
  then have "ParamFingerprint ?ps = ParamFingerprint ?qs" by (simp only: ParamFingerprint_def)
  moreover have "NormalizeParams ?ps = Inr ?ps" "NormalizeParams ?qs = Inr ?qs" by code_simp+
  moreover have "jsonView ?ps \<noteq> jsonView ?qs" by code_simp
  moreover have "length ?ps = 1" "length ?qs = 2" by simp_all
  ultimately show ?thesis by blast
qed

text \<open>Parameters accepted against a job's definitions are all defined there, none of a secret or
  unsupported type, every choice is one of the allowed choices, and every boolean is one.\<close>

theorem ValidateAgainstDefinitions_sound:
  assumes "ValidateAgainstDefinitions ps defs = None" and "(k, v) \<in> set ps"
  shows "\<exists>d. defsByName defs k = Some d \<and> classifyParamType (pd_Type d) \<noteq> paramKindSecret \<and>
    classifyParamType (pd_Type d) \<noteq> paramKindUnsupported \<and>
    (classifyParamType (pd_Type d) \<noteq> paramKindChoice \<or> trim_space (sprint v) \<in> set (pd_Choices d)) \<and>
    (classifyParamType (pd_Type d) \<noteq> paramKindBoolean \<or> to_lower (trim_space (sprint v)) \<in> {''true'', ''false''})"
proof -
  have "validateParam defs (k, v) = None"
    using assms by (auto simp: ValidateAgainstDefinitions_def first_err_None_iff list_all_iff)
  moreover have "to_lower (trim_space ''true'') = ''true''" "to_lower (trim_space ''false'') = ''false''"
    by code_simp+
  ultimately show ?thesis
    by (auto simp: validateParam_def validateChoiceValue_def validateBooleanValue_def Let_def
        split: option.splits paramKind.splits pval.splits if_split_asm)
qed

lemma ValidateAgainstDefinitions_sound_witness:
  "\<exists>d. defsByName [\<lparr> pd_Name = ''ENV'', pd_Type = ''hudson.model.ChoiceParameterDefinition'',
      pd_Choices = [''dev'', ''prod''], pd_Required = False \<rparr>] ''ENV'' = Some d \<and>
    trim_space (sprint (PStr ''dev'')) \<in> set (pd_Choices d)"
proof -
  let ?defs = "[\<lparr> pd_Name = ''ENV'', pd_Type = ''hudson.model.ChoiceParameterDefinition'',
      pd_Choices = [''dev'', ''prod''], pd_Required = False \<rparr>]"
  have v: "ValidateAgainstDefinitions [(''ENV'', PStr ''dev'')] ?defs = None" by code_simp
  from ValidateAgainstDefinitions_sound [OF v, of "''ENV''" "PStr ''dev''"]
  obtain d where d: "defsByName ?defs ''ENV'' = Some d"
    and c: "classifyParamType (pd_Type d) \<noteq> paramKindChoice \<or> trim_space (sprint (PStr ''dev'')) \<in> set (pd_Choices d)"
    by auto
  have "classifyParamType (pd_Type (the (defsByName ?defs ''ENV''))) = paramKindChoice" by code_simp
  with d c show ?thesis by auto
qed

end
