(* ===== verification/Mutation.thy ===== *)
theory Mutation
  imports MutationParams GoTime
begin

text \<open>
  The preview/confirm gate in front of every Jenkins write (\<open>internal/mutation/manager.go\<close>):
  intents and their normalisation, tokens, the sliding preview window, the confirm cooldown and
  the audit trail.

  Times and durations are integers in nanoseconds. Each clock reading of a call is an argument
  (\<open>start\<close>, and \<open>fin\<close> for the duration in the audit event), so are the random bytes of a token
  (\<open>None\<close> when the reader fails), the order in which a purge loop visits a map, the binding the
  request context supplies (\<open>None\<close> when the hook is unset or not ok), and the parameter redactor
  of \<open>internal/redact\<close>. The audit sink is a list of the events passed to \<open>audit.Emit\<close>. The parts
  that run under the manager's mutex (\<open>reservePreview\<close>, \<open>issueToken\<close>, the critical section of
  \<open>Confirm\<close>) are definitions of their own, so that interleavings can be stated.
\<close>

section \<open>Actions, intents, bindings\<close>

definition ActionStartJob :: string where "ActionStartJob = ''start_job''"
definition ActionStopBuild :: string where "ActionStopBuild = ''stop_build''"
definition ActionCancelQueue :: string where "ActionCancelQueue = ''cancel_queue''"
definition ActionInterruptBuild :: string where "ActionInterruptBuild = ''interrupt_build''"
definition ActionRebuildBuild :: string where "ActionRebuildBuild = ''rebuild_build''"
definition ActionReplayPipeline :: string where "ActionReplayPipeline = ''replay_pipeline''"
definition ActionSetJobBuildable :: string where "ActionSetJobBuildable = ''set_job_buildable''"
definition ActionSetBuildKeepForever :: string where
  "ActionSetBuildKeepForever = ''set_build_keep_forever''"
definition ActionSetBuildDescription :: string where
  "ActionSetBuildDescription = ''set_build_description''"
definition ActionCancelQueueItemsForJob :: string where
  "ActionCancelQueueItemsForJob = ''cancel_queue_items_for_job''"

lemmas action_names = ActionStartJob_def ActionStopBuild_def ActionCancelQueue_def ActionInterruptBuild_def
  ActionRebuildBuild_def ActionReplayPipeline_def ActionSetJobBuildable_def ActionSetBuildKeepForever_def
  ActionSetBuildDescription_def ActionCancelQueueItemsForJob_def

definition MaxBuildDescriptionLen :: nat where "MaxBuildDescriptionLen = 4096"
definition MaxBulkQueueCancel :: nat where "MaxBulkQueueCancel = 20"

record Intent =
  it_Action :: string
  it_ToolName :: string
  it_JobName :: string
  it_BuildNumber :: int
  it_QueueID :: int
  it_Parameters :: params
  it_EndpointClass :: string
  it_Mode :: string
  it_Extra :: string
  it_QueueIDs :: "int list"
  it_CurrentState :: string

definition toolForAction :: "string \<Rightarrow> string" where
  "toolForAction a =
     (if a = ActionStartJob then ToolStartJob
      else if a = ActionStopBuild then ToolStopBuild
      else if a = ActionCancelQueue then ToolCancelQueueItem
      else if a = ActionInterruptBuild then ToolInterruptBuild
      else if a = ActionRebuildBuild then ToolRebuildBuild
      else if a = ActionReplayPipeline then ToolReplayPipeline
      else if a = ActionSetJobBuildable then ToolSetJobBuildable
      else if a = ActionSetBuildKeepForever then ToolSetBuildKeepForever
      else if a = ActionSetBuildDescription then ToolSetBuildDescription
      else if a = ActionCancelQueueItemsForJob then ToolCancelQueueItemsForJob
      else a)"

subsection \<open>Queue ids\<close>

fun dedup_positive :: "int set \<Rightarrow> int list \<Rightarrow> int list \<Rightarrow> int list" where
  "dedup_positive seen out [] = out"
| "dedup_positive seen out (i # is) =
     (if i \<le> 0 then dedup_positive seen out is
      else if i \<in> seen then dedup_positive seen out is
      else dedup_positive (insert i seen) (out @ [i]) is)"

text \<open>The inner loop: \<open>x\<close> is the element at the outer index, exchanged with every smaller one.\<close>

fun exchange :: "int \<Rightarrow> int list \<Rightarrow> int \<times> int list" where
  "exchange x [] = (x, [])"
| "exchange x (y # ys) =
     (if y < x then (case exchange y ys of (m, zs) \<Rightarrow> (m, x # zs))
      else (case exchange x ys of (m, zs) \<Rightarrow> (m, y # zs)))"

lemma exchange_length: "exchange x ys = (m, zs) \<Longrightarrow> length zs = length ys"
  by (induction x ys arbitrary: m zs rule: exchange.induct) (auto split: if_splits prod.splits)

function exchange_sort :: "int list \<Rightarrow> int list" where
  "exchange_sort [] = []"
| "exchange_sort (x # xs) = (case exchange x xs of (m, zs) \<Rightarrow> m # exchange_sort zs)"
  by pat_completeness auto
termination
  by (relation "measure length") (auto dest: exchange_length [OF sym])

definition normalizeQueueIDs :: "int list \<Rightarrow> int list" where
  "normalizeQueueIDs inp = (if inp = [] then [] else exchange_sort (dedup_positive {} [] inp))"

definition formatQueueIDsExtra :: "int list \<Rightarrow> string" where
  "formatQueueIDsExtra ids = join '','' (map show_int ids)"

subsection \<open>Normalisation of an intent\<close>

abbreviation bad :: "string \<Rightarrow> apperr + 'a" where
  "bad m \<equiv> Inl (newErr CodeInvalidArgument m)"

text \<open>The switch over actions: the endpoint, mode and extra it leaves, or its error.\<close>

definition normalizeFields ::
  "string \<Rightarrow> string \<Rightarrow> int \<Rightarrow> int \<Rightarrow> params \<Rightarrow> string \<Rightarrow> string \<Rightarrow> string \<Rightarrow> int list \<Rightarrow>
     apperr + (string \<times> string \<times> string)" where
  "normalizeFields action job buildNum queueID ps endpoint mode extra queueIDs =
     (if action = ActionStartJob then
        (if job = [] then bad ''job_name is required''
         else if buildNum \<noteq> 0 then bad ''build_number is not valid for start_job''
         else if queueID \<noteq> 0 then bad ''queue_id is not valid for start_job''
         else Inr (if endpoint = [] then ''buildWithParameters'' else endpoint, [], []))
      else if action = ActionStopBuild then
        (if job = [] then bad ''job_name is required''
         else if buildNum \<le> 0 then bad ''build_number must be positive for stop_build''
         else if ps \<noteq> [] then bad ''parameters are not valid for stop_build''
         else if queueID \<noteq> 0 then bad ''queue_id is not valid for stop_build''
         else Inr (if endpoint = [] then ''stop'' else endpoint, [], []))
      else if action = ActionCancelQueue then
        (if queueID \<le> 0 then bad ''queue_id must be positive for cancel_queue''
         else if buildNum \<noteq> 0 then bad ''build_number is not valid for cancel_queue''
         else if ps \<noteq> [] then bad ''parameters are not valid for cancel_queue''
         else Inr (if endpoint = [] then ''cancelItem'' else endpoint, [], []))
      else if action = ActionInterruptBuild then
        (if job = [] then bad ''job_name is required''
         else if buildNum \<le> 0 then bad ''build_number must be positive for interrupt_build''
         else if mode \<notin> {''stop'', ''term'', ''kill''} then bad ''mode must be stop, term, or kill for interrupt_build''
         else if ps \<noteq> [] \<or> queueID \<noteq> 0 then bad ''parameters/queue_id are not valid for interrupt_build''
         else Inr (if endpoint = [] then (if mode = ''term'' then ''term'' else if mode = ''kill'' then ''kill'' else ''stop'')
                   else endpoint, mode, []))
      else if action = ActionRebuildBuild then
        (if job = [] then bad ''job_name is required''
         else if buildNum \<le> 0 then bad ''build_number (source build) must be positive for rebuild_build''
         else if queueID \<noteq> 0 then bad ''queue_id is not valid for rebuild_build''
         else Inr (if endpoint = [] then ''rebuild'' else endpoint, [], extra))
      else if action = ActionReplayPipeline then
        (if job = [] then bad ''job_name is required''
         else if buildNum \<le> 0 then bad ''build_number must be positive for replay_pipeline''
         else if mode \<noteq> [] \<and> mode \<noteq> ''same'' then
           bad ''pipeline replay script-edit is not enabled; mode must be empty or same''
         else if ps \<noteq> [] \<or> queueID \<noteq> 0 then bad ''parameters/queue_id are not valid for replay_pipeline''
         else Inr (if endpoint = [] then ''replay'' else endpoint, ''same'', []))
      else if action = ActionSetJobBuildable then
        (if job = [] then bad ''job_name is required''
         else if mode \<notin> {''enable'', ''disable''} then bad ''mode must be enable or disable for set_job_buildable''
         else if buildNum \<noteq> 0 \<or> queueID \<noteq> 0 \<or> ps \<noteq> [] then
           bad ''build_number/queue_id/parameters are not valid for set_job_buildable''
         else Inr (if endpoint = [] then (if mode = ''enable'' then ''enable'' else ''disable'') else endpoint, mode, []))
      else if action = ActionSetBuildKeepForever then
        (if job = [] then bad ''job_name is required''
         else if buildNum \<le> 0 then bad ''build_number must be positive for set_build_keep_forever''
         else if mode \<notin> {''true'', ''false''} then bad ''mode must be true or false for set_build_keep_forever''
         else if queueID \<noteq> 0 \<or> ps \<noteq> [] then bad ''queue_id/parameters are not valid for set_build_keep_forever''
         else Inr (if endpoint = [] then ''toggleLogKeepForever'' else endpoint, mode, mode))
      else if action = ActionSetBuildDescription then
        (if job = [] then bad ''job_name is required''
         else if buildNum \<le> 0 then bad ''build_number must be positive for set_build_description''
         else if length extra > MaxBuildDescriptionLen then
           Inl (newErrf CodeInvalidArgument ''description exceeds max length %d'' [show_nat MaxBuildDescriptionLen])
         else if queueID \<noteq> 0 \<or> ps \<noteq> [] then bad ''queue_id/parameters are not valid for set_build_description''
         else Inr (if endpoint = [] then ''submitDescription'' else endpoint, [], extra))
      else if action = ActionCancelQueueItemsForJob then
        (if job = [] then bad ''job_name is required''
         else if queueIDs = [] then bad ''queue_ids must be non-empty for cancel_queue_items_for_job''
         else if length queueIDs > MaxBulkQueueCancel then
           Inl (newErrf CodeInvalidArgument ''queue_ids exceeds cap %d'' [show_nat MaxBulkQueueCancel])
         else if mode \<noteq> [] \<and> mode \<noteq> ''stuck'' then
           bad ''mode must be empty or stuck for cancel_queue_items_for_job''
         else if buildNum \<noteq> 0 \<or> queueID \<noteq> 0 \<or> ps \<noteq> [] then
           bad ''build_number/queue_id/parameters are not valid for cancel_queue_items_for_job''
         else Inr (if endpoint = [] then ''cancelItemBulk'' else endpoint, mode, formatQueueIDsExtra queueIDs))
      else Inl (newErrf CodeInvalidArgument ''unknown mutation action %q'' [action]))"

definition normalizeIntent :: "Intent \<Rightarrow> apperr + Intent" where
  "normalizeIntent inp =
     (let action = it_Action inp in
      if action = [] then bad ''mutation action is required''
      else
        let job = trim_space (it_JobName inp) in
        if job \<noteq> [] \<and> str_contains job ''://'' then bad ''job_name must be a full name path, not a URL''
        else case NormalizeParams (it_Parameters inp) of
          Inl e \<Rightarrow> Inl e
        | Inr ps \<Rightarrow>
          let queueIDs = normalizeQueueIDs (it_QueueIDs inp) in
          (case normalizeFields action job (it_BuildNumber inp) (it_QueueID inp) ps
               (trim_space (it_EndpointClass inp)) (to_lower (trim_space (it_Mode inp)))
               (trim_space (it_Extra inp)) queueIDs of
             Inl e \<Rightarrow> Inl e
           | Inr (endpoint, mode, extra) \<Rightarrow>
             Inr \<lparr> it_Action = action,
               it_ToolName = (if trim_space (it_ToolName inp) = [] then toolForAction action
                              else trim_space (it_ToolName inp)),
               it_JobName = job, it_BuildNumber = it_BuildNumber inp, it_QueueID = it_QueueID inp,
               it_Parameters = ps, it_EndpointClass = endpoint, it_Mode = mode, it_Extra = extra,
               it_QueueIDs = queueIDs, it_CurrentState = trim_space (it_CurrentState inp) \<rparr>))"

text \<open>The target hash of a normalised intent, as \<open>Preview\<close> and \<open>Confirm\<close> compute it.\<close>

definition intentPreimage :: "Intent \<Rightarrow> string" where
  "intentPreimage n = targetPreimage (it_Action n) (it_JobName n) (it_BuildNumber n) (it_QueueID n)
     (ParamFingerprint (it_Parameters n)) (it_Mode n) (it_Extra n)"

definition intentHash :: "Intent \<Rightarrow> string" where
  "intentHash n = TargetHash (it_Action n) (it_JobName n) (it_BuildNumber n) (it_QueueID n)
     (ParamFingerprint (it_Parameters n)) (it_Mode n) (it_Extra n)"

subsection \<open>Bindings\<close>

record Binding =
  bi_ProfileID :: string
  bi_PrincipalID :: string
  bi_ExternalSubject :: string
  bi_Tenant :: string

definition Binding_Equal :: "Binding \<Rightarrow> Binding \<Rightarrow> bool" where
  "Binding_Equal b c = (bi_ProfileID b = bi_ProfileID c \<and> bi_PrincipalID b = bi_PrincipalID c \<and>
     bi_ExternalSubject b = bi_ExternalSubject c \<and> bi_Tenant b = bi_Tenant c)"

definition normalizeBinding :: "Binding \<Rightarrow> Binding" where
  "normalizeBinding b = \<lparr> bi_ProfileID = trim_space (bi_ProfileID b), bi_PrincipalID = trim_space (bi_PrincipalID b),
     bi_ExternalSubject = trim_space (bi_ExternalSubject b), bi_Tenant = trim_space (bi_Tenant b) \<rparr>"

definition bindingKey :: "Binding \<Rightarrow> string" where
  "bindingKey b = bi_ProfileID b @ [CHR 0x00] @ bi_PrincipalID b @ [CHR 0x00] @ bi_ExternalSubject b @ [CHR 0x00] @
     bi_Tenant b"

definition subjectKey :: "Binding \<Rightarrow> string" where
  "subjectKey b =
     (let ext = trim_space (bi_ExternalSubject b) in
      if ext = [] then [] else join ''|'' [trim_space (bi_Tenant b), ext, trim_space (bi_ProfileID b)])"

definition auditSubjectFields :: "Binding \<Rightarrow> string \<times> string" where
  "auditSubjectFields b = (trim_space (bi_ExternalSubject b),
     if subjectKey b \<noteq> [] then HashOpaque (subjectKey b) else [])"

section \<open>The manager\<close>

record tokenRecord =
  tr_id :: string
  tr_binding :: Binding
  tr_action :: string
  tr_toolName :: string
  tr_jobName :: string
  tr_buildNum :: int
  tr_queueID :: int
  tr_queueIDs :: "int list"
  tr_params :: params
  tr_endpoint :: string
  tr_mode :: string
  tr_extra :: string
  tr_targetHash :: string
  tr_expiresAt :: int
  tr_used :: bool

record Event =
  ev_Time :: int
  ev_Type :: string
  ev_ProfileID :: string
  ev_PrincipalID :: string
  ev_ExternalSubject :: string
  ev_SubjectKeyHash :: string
  ev_Tool :: string
  ev_Action :: string
  ev_Decision :: string
  ev_ReasonCode :: string
  ev_TargetHash :: string
  ev_RequestID :: string
  ev_Duration :: int

record Manager =
  mg_gate :: ReadOnlyGate
  mg_hasAudit :: bool
  mg_defaultBinding :: Binding
  mg_ttl :: int
  mg_maxPreviewsPerMin :: int
  mg_confirmCooldown :: int
  mg_tokens :: "string \<rightharpoonup> tokenRecord"
  mg_previewTimes :: "int list"
  mg_cooldowns :: "string \<rightharpoonup> int"
  mg_log :: "Event list"

definition DefaultTokenTTL :: int where "DefaultTokenTTL = 2 * minute"
definition DefaultMaxPreviewsPerMinute :: int where "DefaultMaxPreviewsPerMinute = 30"
definition DefaultConfirmCooldown :: int where "DefaultConfirmCooldown = 5 * second"

definition TypePreview :: string where "TypePreview = ''mutation_preview''"
definition TypeConfirm :: string where "TypeConfirm = ''mutation_confirm''"
definition TypeDeny :: string where "TypeDeny = ''mutation_deny''"
definition TypeToolSuccess :: string where "TypeToolSuccess = ''tool_success''"
definition DecisionAllow :: string where "DecisionAllow = ''allow''"
definition DecisionDeny :: string where "DecisionDeny = ''deny''"
definition DecisionFail :: string where "DecisionFail = ''fail''"
definition DecisionSuccess :: string where "DecisionSuccess = ''success''"

definition ReasonPreviewOK :: string where "ReasonPreviewOK = ''preview_ok''"
definition ReasonConfirmOK :: string where "ReasonConfirmOK = ''confirm_ok''"
definition ReasonReadOnly :: string where "ReasonReadOnly = ''read_only''"
definition ReasonTokenMissing :: string where "ReasonTokenMissing = ''token_missing''"
definition ReasonTokenUnknown :: string where "ReasonTokenUnknown = ''token_unknown''"
definition ReasonTokenExpired :: string where "ReasonTokenExpired = ''token_expired''"
definition ReasonTokenReused :: string where "ReasonTokenReused = ''token_reused''"
definition ReasonTargetMismatch :: string where "ReasonTargetMismatch = ''target_mismatch''"
definition ReasonBindingMismatch :: string where "ReasonBindingMismatch = ''binding_mismatch''"
definition ReasonInvalidIntent :: string where "ReasonInvalidIntent = ''invalid_intent''"
definition ReasonPreviewRateLimited :: string where "ReasonPreviewRateLimited = ''preview_rate_limited''"
definition ReasonConfirmCooldown :: string where "ReasonConfirmCooldown = ''confirm_cooldown''"

text \<open>The process-wide live values \<open>NewManager\<close> consults, as stored by the setters.\<close>

record LiveConfig =
  lv_TokenTTL :: int
  lv_MaxPreviews :: int
  lv_ConfirmCooldown :: int

record Config =
  cf_Gate :: ReadOnlyGate
  cf_HasAudit :: bool
  cf_ProfileID :: string
  cf_PrincipalID :: string
  cf_ExternalSubject :: string
  cf_Tenant :: string
  cf_TTL :: int
  cf_MaxPreviewsPerMinute :: int
  cf_ConfirmCooldown :: int

definition TokenTTL :: "LiveConfig \<Rightarrow> int" where
  "TokenTTL lv = (if lv_TokenTTL lv \<le> 0 then 0 else lv_TokenTTL lv)"

definition ConfirmCooldown :: "LiveConfig \<Rightarrow> int" where
  "ConfirmCooldown lv = (if lv_ConfirmCooldown lv \<le> 0 then 0 else lv_ConfirmCooldown lv)"

definition NewManager :: "LiveConfig \<Rightarrow> Config \<Rightarrow> Manager" where
  "NewManager lv cfg =
     (let ttl = (if cf_TTL cfg \<le> 0 then (if TokenTTL lv > 0 then TokenTTL lv else DefaultTokenTTL) else cf_TTL cfg);
          maxPrev = (if cf_MaxPreviewsPerMinute cfg = 0
                     then (if lv_MaxPreviews lv > 0 then lv_MaxPreviews lv else DefaultMaxPreviewsPerMinute)
                     else cf_MaxPreviewsPerMinute cfg);
          cd0 = (if cf_ConfirmCooldown cfg = 0
                 then (if ConfirmCooldown lv > 0 then ConfirmCooldown lv else DefaultConfirmCooldown)
                 else cf_ConfirmCooldown cfg);
          cooldown = (if cd0 < 0 then 0 else cd0)
      in \<lparr> mg_gate = (case cf_Gate cfg of None \<Rightarrow> NewDefaultReadOnlyGate | Some g \<Rightarrow> Some g),
           mg_hasAudit = cf_HasAudit cfg,
           mg_defaultBinding = normalizeBinding \<lparr> bi_ProfileID = cf_ProfileID cfg, bi_PrincipalID = cf_PrincipalID cfg,
             bi_ExternalSubject = cf_ExternalSubject cfg, bi_Tenant = cf_Tenant cfg \<rparr>,
           mg_ttl = ttl, mg_maxPreviewsPerMin = maxPrev, mg_confirmCooldown = cooldown,
           mg_tokens = Map.empty, mg_previewTimes = [], mg_cooldowns = Map.empty, mg_log = [] \<rparr>)"

definition effectiveBinding :: "Manager \<Rightarrow> Binding option \<Rightarrow> Binding" where
  "effectiveBinding m ctxb =
     (case ctxb of Some b \<Rightarrow> normalizeBinding b | None \<Rightarrow> mg_defaultBinding m)"

definition emit :: "Event \<Rightarrow> Manager \<Rightarrow> Manager" where
  "emit e m = (if mg_hasAudit m then m\<lparr> mg_log := mg_log m @ [e] \<rparr> else m)"

definition event :: "Binding \<Rightarrow> int \<Rightarrow> string \<Rightarrow> string \<Rightarrow> string \<Rightarrow> string \<Rightarrow> string \<Rightarrow> string \<Rightarrow> string \<Rightarrow> int \<Rightarrow> Event" where
  "event bind t ty tool action decision reason hash reqid dur =
     \<lparr> ev_Time = t, ev_Type = ty, ev_ProfileID = bi_ProfileID bind, ev_PrincipalID = bi_PrincipalID bind,
       ev_ExternalSubject = fst (auditSubjectFields bind), ev_SubjectKeyHash = snd (auditSubjectFields bind),
       ev_Tool = tool, ev_Action = action, ev_Decision = decision, ev_ReasonCode = reason,
       ev_TargetHash = hash, ev_RequestID = reqid, ev_Duration = dur \<rparr>"

definition emitDeny :: "Binding option \<Rightarrow> string \<Rightarrow> string \<Rightarrow> string \<Rightarrow> string \<Rightarrow> int \<Rightarrow> int \<Rightarrow> Manager \<Rightarrow> Manager" where
  "emitDeny ctxb tool action reason hash start fin m =
     emit (event (effectiveBinding m ctxb) start TypeDeny tool action DecisionDeny reason hash [] (fin - start)) m"

definition EmitExecuteFail :: "Binding option \<Rightarrow> string \<Rightarrow> string \<Rightarrow> string \<Rightarrow> string \<Rightarrow> int \<Rightarrow> Manager option \<Rightarrow> Manager option" where
  "EmitExecuteFail ctxb tool action reason hash t mo =
     map_option (\<lambda>m. emit (event (effectiveBinding m ctxb) t TypeDeny tool action DecisionFail reason hash [] 0) m) mo"

definition EmitExecuteOK :: "Binding option \<Rightarrow> string \<Rightarrow> string \<Rightarrow> string \<Rightarrow> string \<Rightarrow> int \<Rightarrow> Manager option \<Rightarrow> Manager option" where
  "EmitExecuteOK ctxb tool action hash reqid t mo =
     map_option (\<lambda>m. emit (event (effectiveBinding m ctxb) t TypeToolSuccess tool action DecisionSuccess
       ''execute_ok'' hash reqid 0) m) mo"

section \<open>Critical sections\<close>

definition reservePreview :: "int \<Rightarrow> Manager \<Rightarrow> Manager \<times> apperr option" where
  "reservePreview now m =
     (if mg_maxPreviewsPerMin m < 0 then (m, None)
      else
        let kept = filter (\<lambda>t. t > now - minute) (mg_previewTimes m) in
        if int (length kept) \<ge> mg_maxPreviewsPerMin m then
          (m\<lparr> mg_previewTimes := kept \<rparr>, Some (newErr CodeThrottled ''mutation preview rate limited; retry later''))
        else (m\<lparr> mg_previewTimes := kept @ [now] \<rparr>, None))"

definition cooldownKey :: "Binding \<Rightarrow> string \<Rightarrow> string \<Rightarrow> string" where
  "cooldownKey bind action hash = bindingKey bind @ [CHR 0x00] @ action @ [CHR 0x00] @ hash"

definition purgeExpired :: "string list \<Rightarrow> int \<Rightarrow> (string \<rightharpoonup> tokenRecord) \<Rightarrow> (string \<rightharpoonup> tokenRecord)" where
  "purgeExpired ks now toks = purge_loop 32 (\<lambda>r. \<not> now < tr_expiresAt r \<or> tr_used r) ks toks"

definition purgeCooldowns :: "string list \<Rightarrow> int \<Rightarrow> (string \<rightharpoonup> int) \<Rightarrow> (string \<rightharpoonup> int)" where
  "purgeCooldowns ks now cds = purge_loop 32 (\<lambda>until. \<not> now < until) ks cds"

definition issueToken ::
  "Intent \<Rightarrow> string \<Rightarrow> int \<Rightarrow> Binding \<Rightarrow> string option \<Rightarrow> string list \<Rightarrow> Manager \<Rightarrow> Manager \<times> (apperr + string \<times> int)" where
  "issueToken norm hash now bind rnd ks m =
     (case rnd of
        None \<Rightarrow> (m, Inl (newErr CodeInternal ''failed to mint confirmation token''))
      | Some raw \<Rightarrow>
        let token = hex_encode raw; exp = now + mg_ttl m;
            rec = \<lparr> tr_id = take 16 token, tr_binding = bind, tr_action = it_Action norm,
              tr_toolName = it_ToolName norm, tr_jobName = it_JobName norm, tr_buildNum = it_BuildNumber norm,
              tr_queueID = it_QueueID norm, tr_queueIDs = it_QueueIDs norm,
              tr_params = cloneParams (it_Parameters norm), tr_endpoint = it_EndpointClass norm,
              tr_mode = it_Mode norm, tr_extra = it_Extra norm, tr_targetHash = hash, tr_expiresAt = exp,
              tr_used = False \<rparr>
        in (m\<lparr> mg_tokens := (purgeExpired ks now (mg_tokens m))(token \<mapsto> rec) \<rparr>, Inr (token, exp)))"

record BoundIntent =
  bo_Intent :: Intent
  bo_TokenID :: string
  bo_TargetHash :: string
  bo_RequestID :: string

definition boundOf :: "tokenRecord \<Rightarrow> BoundIntent" where
  "boundOf r = \<lparr> bo_Intent = \<lparr> it_Action = tr_action r, it_ToolName = tr_toolName r, it_JobName = tr_jobName r,
       it_BuildNumber = tr_buildNum r, it_QueueID = tr_queueID r, it_Parameters = cloneParams (tr_params r),
       it_EndpointClass = tr_endpoint r, it_Mode = tr_mode r, it_Extra = tr_extra r, it_QueueIDs = tr_queueIDs r,
       it_CurrentState = [] \<rparr>, bo_TokenID = tr_id r, bo_TargetHash = tr_targetHash r, bo_RequestID = tr_id r \<rparr>"

abbreviation denial :: "string \<Rightarrow> apperr" where
  "denial m \<equiv> newErr CodePolicyDenial m"

text \<open>The part of \<open>Confirm\<close> under the mutex: a denial is its reason code, the hash it logs, its error.\<close>

definition confirmLocked ::
  "string \<Rightarrow> Intent \<Rightarrow> string \<Rightarrow> Binding \<Rightarrow> int \<Rightarrow> string list \<Rightarrow> Manager \<Rightarrow>
     Manager \<times> ((string \<times> string \<times> apperr) + BoundIntent)" where
  "confirmLocked token norm wantHash bind start ks m =
     (case mg_tokens m token of
        None \<Rightarrow> (m, Inl (ReasonTokenUnknown, wantHash, denial ''confirmation token is unknown or already discarded''))
      | Some r \<Rightarrow>
        if tr_used r then
          (m, Inl (ReasonTokenReused, tr_targetHash r, denial ''confirmation token has already been used''))
        else if \<not> start < tr_expiresAt r then
          (m\<lparr> mg_tokens := (mg_tokens m)(token := None) \<rparr>,
           Inl (ReasonTokenExpired, tr_targetHash r, denial ''confirmation token has expired; request a new preview''))
        else if \<not> Binding_Equal (tr_binding r) bind then
          (m, Inl (ReasonBindingMismatch, tr_targetHash r,
             denial ''confirmation token is not bound to this profile/subject''))
        else if tr_action r \<noteq> it_Action norm \<or> tr_targetHash r \<noteq> wantHash then
          (m, Inl (ReasonTargetMismatch, tr_targetHash r,
             denial ''confirmation token does not match the requested target/parameters''))
        else
          let cdKey = cooldownKey bind (it_Action norm) wantHash in
          if mg_confirmCooldown m > 0 \<and> (case mg_cooldowns m cdKey of None \<Rightarrow> False | Some until \<Rightarrow> start < until) then
            (m, Inl (ReasonConfirmCooldown, wantHash,
               denial ''mutation confirm cooldown active for this target; retry later''))
          else
            let m1 = m\<lparr> mg_tokens := (mg_tokens m)(token := None) \<rparr>;
                m2 = (if mg_confirmCooldown m > 0
                      then m1\<lparr> mg_cooldowns :=
                        purgeCooldowns ks start ((mg_cooldowns m)(cdKey \<mapsto> start + mg_confirmCooldown m)) \<rparr>
                      else m1)
            in (m2, Inr (boundOf r)))"

section \<open>Preview and Confirm\<close>

record PreviewResult =
  pr_Status :: string
  pr_Action :: string
  pr_Tool :: string
  pr_JobName :: string
  pr_BuildNumber :: int
  pr_QueueID :: int
  pr_QueueIDs :: "int list"
  pr_Mode :: string
  pr_Parameters :: params
  pr_EndpointClass :: string
  pr_ConfirmationToken :: string
  pr_ExpiresAt :: int
  pr_ExpiresInSeconds :: int
  pr_TargetHash :: string
  pr_CurrentState :: string
  pr_Message :: string

definition toolOf :: "Intent \<Rightarrow> string" where
  "toolOf i = (if trim_space (it_ToolName i) = [] then toolForAction (it_Action i) else trim_space (it_ToolName i))"

definition Preview ::
  "(params \<Rightarrow> params) \<Rightarrow> Binding option \<Rightarrow> Intent \<Rightarrow> int \<Rightarrow> int \<Rightarrow> string option \<Rightarrow> string list \<Rightarrow>
     Manager option \<Rightarrow> Manager option \<times> (apperr + PreviewResult)" where
  "Preview redact ctxb intent start fin rnd ks mo =
     (case mo of
        None \<Rightarrow> (None, Inl (denial ''mutation manager not configured''))
      | Some m \<Rightarrow>
        let tool = toolOf intent; act = it_Action intent in
        case DenyMutation (mg_gate m) tool of
          Some e \<Rightarrow> (Some (emitDeny ctxb tool act ReasonReadOnly [] start fin m), Inl e)
        | None \<Rightarrow>
        (case normalizeIntent intent of
           Inl e \<Rightarrow> (Some (emitDeny ctxb tool act ReasonInvalidIntent [] start fin m), Inl e)
         | Inr norm \<Rightarrow>
           let th = intentHash norm in
           (case reservePreview start m of
              (m1, Some e) \<Rightarrow> (Some (emitDeny ctxb tool (it_Action norm) ReasonPreviewRateLimited th start fin m1), Inl e)
            | (m1, None) \<Rightarrow>
              let bind = effectiveBinding m1 ctxb in
              (case issueToken norm th start bind rnd ks m1 of
                 (m2, Inl e) \<Rightarrow> (Some (emitDeny ctxb tool (it_Action norm) ReasonInvalidIntent th start fin m2), Inl e)
               | (m2, Inr (tok, exp)) \<Rightarrow>
                 let m3 = emit (event bind start TypePreview tool (it_Action norm) DecisionAllow ReasonPreviewOK th []
                            (fin - start)) m2;
                     secs = (if mg_ttl m div second < 1 then 1 else mg_ttl m div second)
                 in (Some m3, Inr \<lparr> pr_Status = ''preview'', pr_Action = it_Action norm, pr_Tool = tool,
                   pr_JobName = it_JobName norm, pr_BuildNumber = it_BuildNumber norm, pr_QueueID = it_QueueID norm,
                   pr_QueueIDs = it_QueueIDs norm, pr_Mode = it_Mode norm, pr_Parameters = redact (it_Parameters norm),
                   pr_EndpointClass = it_EndpointClass norm, pr_ConfirmationToken = tok, pr_ExpiresAt = exp,
                   pr_ExpiresInSeconds = secs, pr_TargetHash = th, pr_CurrentState = it_CurrentState norm,
                   pr_Message = ''Confirmation required: re-invoke with confirmation_token to execute. Token is single-use and short-lived.'' \<rparr>)))))"

definition Confirm ::
  "Binding option \<Rightarrow> string \<Rightarrow> Intent \<Rightarrow> int \<Rightarrow> int \<Rightarrow> string list \<Rightarrow> Manager option \<Rightarrow>
     Manager option \<times> (apperr + BoundIntent)" where
  "Confirm ctxb token0 expected start fin ks mo =
     (case mo of
        None \<Rightarrow> (None, Inl (denial ''mutation manager not configured''))
      | Some m \<Rightarrow>
        let tool = toolOf expected; act = it_Action expected; token = trim_space token0 in
        case DenyMutation (mg_gate m) tool of
          Some e \<Rightarrow> (Some (emitDeny ctxb tool act ReasonReadOnly [] start fin m), Inl e)
        | None \<Rightarrow>
        if token = [] then
          (Some (emitDeny ctxb tool act ReasonTokenMissing [] start fin m),
           Inl (newErr CodeInvalidArgument ''confirmation_token is required to execute a mutation''))
        else (case normalizeIntent expected of
           Inl e \<Rightarrow> (Some (emitDeny ctxb tool act ReasonInvalidIntent [] start fin m), Inl e)
         | Inr norm \<Rightarrow>
           let bind = effectiveBinding m ctxb in
           (case confirmLocked token norm (intentHash norm) bind start ks m of
              (m1, Inl (reason, hash, e)) \<Rightarrow>
                (Some (emitDeny ctxb tool (it_Action norm) reason hash start fin m1), Inl e)
            | (m1, Inr bound) \<Rightarrow>
                (Some (emit (event bind start TypeConfirm tool (it_Action (bo_Intent bound)) DecisionAllow
                   ReasonConfirmOK (bo_TargetHash bound) (bo_RequestID bound) (fin - start)) m1), Inr bound))))"

end
