(* ===== verification/MutationCorrect.thy ===== *)
theory MutationCorrect
  imports Mutation "HOL-Library.Multiset"
begin

text \<open>
  Correctness of the preview/confirm gate: normal forms of intents and what a target hash binds;
  every way a confirmation can succeed, single use over all interleavings of the critical
  sections, cooldown and rate bounds, the read-only switch, and the audit trail.
\<close>

section \<open>Queue ids\<close>

lemma exchange_min:
  "exchange x ys = (m, zs) \<Longrightarrow> mset (m # zs) = mset (x # ys) \<and> (\<forall>z \<in> set zs. m \<le> z) \<and> m \<le> x"
proof (induction x ys arbitrary: m zs rule: exchange.induct)
  case (2 x y ys)
  show ?case
  proof (cases "y < x")
    case True
    with "2.prems" obtain ws where ex: "exchange y ys = (m, ws)" and zs: "zs = x # ws"
      by (auto split: prod.splits)
    from "2.IH"(1) [OF True ex] True show ?thesis by (auto simp: zs)
  next
    case False
    with "2.prems" obtain ws where ex: "exchange x ys = (m, ws)" and zs: "zs = y # ws"
      by (auto split: prod.splits)
    from "2.IH"(2) [OF False ex] False show ?thesis by (auto simp: zs)
  qed
qed simp

lemma exchange_sort_correct: "mset (exchange_sort xs) = mset xs \<and> sorted (exchange_sort xs)"
proof (induction xs rule: exchange_sort.induct)
  case (2 x xs)
  obtain m zs where ex: "exchange x xs = (m, zs)" by fastforce
  from "2.IH" [OF ex [symmetric]] have IH: "mset (exchange_sort zs) = mset zs" "sorted (exchange_sort zs)" by auto
  then have "set (exchange_sort zs) = set zs" by (metis set_mset_mset)
  with IH exchange_min [OF ex] show ?case by (auto simp: ex)
qed simp

lemma dedup_positive_spec:
  "seen = set out \<Longrightarrow> distinct out \<Longrightarrow>
     distinct (dedup_positive seen out is) \<and> set (dedup_positive seen out is) = set out \<union> {i \<in> set is. 0 < i}"
proof (induction "is" arbitrary: seen out)
  case (Cons i "is")
  note same = Cons.IH [OF Cons.prems]
  consider "i \<le> 0" | "0 < i" "i \<in> seen" | "0 < i" "i \<notin> seen" by linarith
  then show ?case
  proof cases
    case 1
    then have "{j \<in> set (i # is). 0 < j} = {j \<in> set is. 0 < j}" by auto
    with same 1 show ?thesis by simp
  next
    case 2
    then have "set out \<union> {j \<in> set (i # is). 0 < j} = set out \<union> {j \<in> set is. 0 < j}"
      using Cons.prems(1) by auto
    with same 2 show ?thesis by simp
  next
    case 3
    have "set (out @ [i]) \<union> {j \<in> set is. 0 < j} = set out \<union> {j \<in> set (i # is). 0 < j}"
      using 3 by auto
    with Cons.IH [of "insert i seen" "out @ [i]"] Cons.prems 3 show ?thesis by simp
  qed
qed simp

lemma normalizeQueueIDs_sorted: "normalizeQueueIDs ids = sorted_list_of_set {i \<in> set ids. 0 < i}"
proof -
  let ?d = "dedup_positive {} [] ids"
  have d: "distinct ?d" "set ?d = {i \<in> set ids. 0 < i}"
    using dedup_positive_spec [of "{}" "[]" ids] by auto
  have m: "mset (exchange_sort ?d) = mset ?d" and srt: "sorted (exchange_sort ?d)"
    using exchange_sort_correct by auto
  have st: "set (exchange_sort ?d) = set ?d" by (rule mset_eq_setD [OF m])
  have "distinct (exchange_sort ?d)" using mset_eq_imp_distinct_iff [OF m] d(1) by simp
  then have "sorted_list_of_set (set (exchange_sort ?d)) = exchange_sort ?d"
    using srt by (intro sorted_list_of_set.idem_if_sorted_distinct)
  then show ?thesis by (auto simp: normalizeQueueIDs_def st d(2) [symmetric])
qed

lemma normalizeQueueIDs_idem [simp]: "normalizeQueueIDs (normalizeQueueIDs ids) = normalizeQueueIDs ids"
proof -
  have "{i \<in> set (normalizeQueueIDs ids). 0 < i} = {i \<in> set ids. 0 < i}"
    by (auto simp: normalizeQueueIDs_sorted)
  then show ?thesis by (simp only: normalizeQueueIDs_sorted)
qed

section \<open>Texts that trimming leaves alone\<close>

lemma trim_space_graphic:
  assumes "\<And>c. c \<in> set s \<Longrightarrow> 32 < (of_char c :: nat) \<and> (of_char c :: nat) < 128"
  shows "trim_space s = s"
proof -
  have heads: "w \<in> set go_spaces \<Longrightarrow> \<not> (32 < (of_char (hd w) :: nat) \<and> (of_char (hd w) :: nat) < 128)"
    "w \<in> set go_spaces \<Longrightarrow> \<not> (32 < (of_char (last w) :: nat) \<and> (of_char (last w) :: nat) < 128)" for w
    by (auto simp: go_spaces_def)
  have ne: "w \<in> set go_spaces \<Longrightarrow> w \<noteq> []" for w by (auto simp: go_spaces_def)
  have "\<not> (w \<noteq> [] \<and> prefix w s)" if w: "w \<in> set go_spaces" for w
  proof
    assume p: "w \<noteq> [] \<and> prefix w s"
    then have "hd w \<in> set s" by (cases w) (auto simp: prefix_def)
    then show False using heads(1) [OF w] assms by blast
  qed
  then have "find (\<lambda>w. w \<noteq> [] \<and> prefix w s) go_spaces = None"
    unfolding find_None_iff by blast
  then have left: "trim_left s = s" by (simp add: trim_left_def strip_words_fix)
  have "\<not> (w \<noteq> [] \<and> prefix w (rev s))" if w: "w \<in> set (map rev go_spaces)" for w
  proof
    assume p: "w \<noteq> [] \<and> prefix w (rev s)"
    from w obtain v where v: "v \<in> set go_spaces" "w = rev v" by auto
    have "hd w \<in> set s" using p by (cases w) (auto simp: prefix_def)
    moreover have "hd w = last v" using v ne by (simp add: hd_rev)
    ultimately show False using heads(2) [OF v(1)] assms by auto
  qed
  then have "find (\<lambda>w. w \<noteq> [] \<and> prefix w (rev s)) (map rev go_spaces) = None"
    unfolding find_None_iff by blast
  then have "trim_right s = s" by (simp add: trim_right_def strip_words_fix)
  with left show ?thesis by (simp add: trim_space_def)
qed

lemma join_chars: "c \<in> set (join sep ws) \<Longrightarrow> c \<in> set sep \<or> (\<exists>w \<in> set ws. c \<in> set w)"
  by (induction ws) (auto simp: join_Cons split: if_splits)

lemma trim_formatQueueIDs [simp]: "trim_space (formatQueueIDsExtra ids) = formatQueueIDsExtra ids"
proof (rule trim_space_graphic)
  fix c assume "c \<in> set (formatQueueIDsExtra ids)"
  then consider "c = CHR '',''" | i where "c \<in> set (show_int i)"
    by (auto simp: formatQueueIDsExtra_def dest!: join_chars)
  then show "32 < (of_char c :: nat) \<and> (of_char c :: nat) < 128"
    by cases (auto dest!: show_int_chars)
qed

section \<open>Normal forms of intents\<close>

definition allActions :: "string list" where
  "allActions = [ActionStartJob, ActionStopBuild, ActionCancelQueue, ActionInterruptBuild, ActionRebuildBuild,
     ActionReplayPipeline, ActionSetJobBuildable, ActionSetBuildKeepForever, ActionSetBuildDescription,
     ActionCancelQueueItemsForJob]"

definition allModes :: "string list" where
  "allModes = [[], ''stop'', ''term'', ''kill'', ''same'', ''enable'', ''disable'', ''true'', ''false'', ''stuck'']"

definition allEndpoints :: "string list" where
  "allEndpoints = [''buildWithParameters'', ''stop'', ''term'', ''kill'', ''cancelItem'', ''rebuild'', ''replay'',
     ''enable'', ''disable'', ''toggleLogKeepForever'', ''submitDescription'', ''cancelItemBulk'']"

lemma modes_fixed: "m \<in> set allModes \<Longrightarrow> trim_space m = m \<and> to_lower m = m \<and> CHR '';'' \<notin> set m"
proof -
  have "list_all (\<lambda>m. trim_space m = m \<and> to_lower m = m \<and> \<not> List.member m CHR '';'') allModes" by code_simp
  then show "m \<in> set allModes \<Longrightarrow> trim_space m = m \<and> to_lower m = m \<and> CHR '';'' \<notin> set m"
    by (simp add: list_all_iff)
qed

lemma endpoints_fixed: "e \<in> set allEndpoints \<Longrightarrow> trim_space e = e \<and> e \<noteq> []"
proof -
  have "list_all (\<lambda>e. trim_space e = e \<and> e \<noteq> []) allEndpoints" by code_simp
  then show "e \<in> set allEndpoints \<Longrightarrow> trim_space e = e \<and> e \<noteq> []" by (simp add: list_all_iff)
qed

lemma actions_fixed:
  "a \<in> set allActions \<Longrightarrow> a \<noteq> [] \<and> CHR '';'' \<notin> set a \<and> toolForAction a \<noteq> [] \<and> trim_space (toolForAction a) = toolForAction a"
proof -
  have "list_all (\<lambda>a. a \<noteq> [] \<and> \<not> List.member a CHR '';'' \<and> toolForAction a \<noteq> [] \<and>
      trim_space (toolForAction a) = toolForAction a) allActions" by code_simp
  then show "a \<in> set allActions \<Longrightarrow> a \<noteq> [] \<and> CHR '';'' \<notin> set a \<and> toolForAction a \<noteq> [] \<and>
      trim_space (toolForAction a) = toolForAction a" by (simp add: list_all_iff)
qed

lemma normalizeFields_action:
  "normalizeFields a job b q ps ep m x qs = Inr r \<Longrightarrow> a \<in> set allActions"
  unfolding normalizeFields_def allActions_def by (simp split: if_split_asm)

lemma normalizeFields_cases:
  assumes "normalizeFields a job b q ps ep m x qs = Inr (ep', m', x')"
  obtains "a = ActionStartJob" | "a = ActionStopBuild" | "a = ActionCancelQueue" | "a = ActionInterruptBuild"
    | "a = ActionRebuildBuild" | "a = ActionReplayPipeline" | "a = ActionSetJobBuildable"
    | "a = ActionSetBuildKeepForever" | "a = ActionSetBuildDescription" | "a = ActionCancelQueueItemsForJob"
  using normalizeFields_action [OF assms] by (auto simp: allActions_def)

lemma normalizeFields_out:
  assumes "normalizeFields a job b q ps ep m x qs = Inr (ep', m', x')"
  shows "(ep' = ep \<and> ep \<noteq> [] \<or> ep' \<in> set allEndpoints) \<and> m' \<in> set allModes \<and>
    (x' = x \<or> x' \<in> set allModes \<or> x' = formatQueueIDsExtra qs) \<and> 0 \<le> b \<and> 0 \<le> q"
  using assms
  by (cases rule: normalizeFields_cases [OF assms])
    (auto simp: normalizeFields_def action_names allEndpoints_def allModes_def split: if_split_asm)

lemma normalizeFields_again:
  assumes "normalizeFields a job b q ps ep m x qs = Inr (ep', m', x')"
  shows "normalizeFields a job b q ps ep' m' x' qs = Inr (ep', m', x')"
  using assms
  by (cases rule: normalizeFields_cases [OF assms])
    (auto simp: normalizeFields_def action_names split: if_split_asm)

text \<open>Whether a build number and a queue id are present is fixed by the action.\<close>

lemma normalizeFields_present:
  assumes "normalizeFields a job b q ps ep m x qs = Inr (ep', m', x')"
  shows "(0 < b \<longleftrightarrow> a \<in> {ActionStopBuild, ActionInterruptBuild, ActionRebuildBuild, ActionReplayPipeline,
      ActionSetBuildKeepForever, ActionSetBuildDescription}) \<and> (0 < q \<longleftrightarrow> a = ActionCancelQueue)"
  using assms
  by (cases rule: normalizeFields_cases [OF assms])
    (simp_all add: normalizeFields_def action_names split: if_split_asm)

text \<open>What a successful normalisation returns.\<close>

definition intent_ok :: "Intent \<Rightarrow> bool" where
  "intent_ok n = (it_Action n \<in> set allActions \<and> trim_space (it_ToolName n) = it_ToolName n \<and> it_ToolName n \<noteq> [] \<and>
     trim_space (it_JobName n) = it_JobName n \<and> \<not> str_contains (it_JobName n) ''://'' \<and>
     params_ok (it_Parameters n) \<and> it_Mode n \<in> set allModes \<and> trim_space (it_Extra n) = it_Extra n \<and>
     trim_space (it_EndpointClass n) = it_EndpointClass n \<and> it_EndpointClass n \<noteq> [] \<and>
     normalizeQueueIDs (it_QueueIDs n) = it_QueueIDs n \<and> trim_space (it_CurrentState n) = it_CurrentState n \<and>
     normalizeFields (it_Action n) (it_JobName n) (it_BuildNumber n) (it_QueueID n) (it_Parameters n)
       (it_EndpointClass n) (it_Mode n) (it_Extra n) (it_QueueIDs n) =
       Inr (it_EndpointClass n, it_Mode n, it_Extra n))"

lemma no_url_Nil: "\<not> str_contains [] ''://''"
  by (simp add: str_contains_iff)

lemma normalizeIntent_ok:
  assumes "normalizeIntent i = Inr n"
  shows "intent_ok n"
proof -
  define job where "job = trim_space (it_JobName i)"
  from assms obtain ps ep m x where
    act: "it_Action i \<noteq> []" and url: "job \<noteq> [] \<longrightarrow> \<not> str_contains job ''://''"
    and ps: "NormalizeParams (it_Parameters i) = Inr ps"
    and f: "normalizeFields (it_Action i) job (it_BuildNumber i) (it_QueueID i) ps
        (trim_space (it_EndpointClass i)) (to_lower (trim_space (it_Mode i)))
        (trim_space (it_Extra i)) (normalizeQueueIDs (it_QueueIDs i)) = Inr (ep, m, x)"
    and n: "n = \<lparr> it_Action = it_Action i,
               it_ToolName = (if trim_space (it_ToolName i) = [] then toolForAction (it_Action i)
                              else trim_space (it_ToolName i)),
               it_JobName = job, it_BuildNumber = it_BuildNumber i, it_QueueID = it_QueueID i,
               it_Parameters = ps, it_EndpointClass = ep, it_Mode = m, it_Extra = x,
               it_QueueIDs = normalizeQueueIDs (it_QueueIDs i), it_CurrentState = trim_space (it_CurrentState i) \<rparr>"
    unfolding normalizeIntent_def Let_def job_def by (auto split: if_splits sum.splits)
  note out = normalizeFields_out [OF f] and again = normalizeFields_again [OF f]
  have "trim_space ep = ep \<and> ep \<noteq> []" using out endpoints_fixed by auto
  moreover have "trim_space x = x" using out modes_fixed by auto
  moreover have "trim_space job = job" by (simp add: job_def)
  moreover have "\<not> str_contains job ''://''" using url no_url_Nil by (cases "job = []") auto
  ultimately show ?thesis
    using again out actions_fixed [OF normalizeFields_action [OF f]] normalizeFields_action [OF f]
      NormalizeParams_ok [OF ps]
    by (simp add: intent_ok_def n)
qed

lemma normalizeIntent_fix:
  assumes "intent_ok n"
  shows "normalizeIntent n = Inr n"
proof -
  have "it_Action n \<noteq> []" using assms actions_fixed by (auto simp: intent_ok_def)
  moreover have "trim_space (it_Mode n) = it_Mode n" "to_lower (it_Mode n) = it_Mode n"
    using assms modes_fixed by (auto simp: intent_ok_def)
  ultimately show ?thesis
    using assms NormalizeParams_fix by (simp add: normalizeIntent_def Let_def intent_ok_def)
qed

lemma intentPreimage_binds:
  assumes i: "intent_ok i" and j: "intent_ok j" and eq: "intentPreimage i = intentPreimage j"
  shows "it_Action i = it_Action j \<and> it_JobName i = it_JobName j \<and> it_BuildNumber i = it_BuildNumber j \<and>
    it_QueueID i = it_QueueID j \<and> ParamFingerprint (it_Parameters i) = ParamFingerprint (it_Parameters j) \<and>
    it_Mode i = it_Mode j \<and> (it_Extra i = it_Extra j \<or> it_Extra i \<noteq> [] \<and> it_Extra j \<noteq> [] \<and>
      hashBytes (it_Extra i) = hashBytes (it_Extra j))"
proof -
  have f: "normalizeFields (it_Action n) (it_JobName n) (it_BuildNumber n) (it_QueueID n) (it_Parameters n)
       (it_EndpointClass n) (it_Mode n) (it_Extra n) (it_QueueIDs n) =
       Inr (it_EndpointClass n, it_Mode n, it_Extra n)"
    and a: "CHR '';'' \<notin> set (it_Action n)" and m: "CHR '';'' \<notin> set (trim_space (it_Mode n))"
      "trim_space (it_Mode n) = it_Mode n"
    and t: "trim_space (it_JobName n) = it_JobName n" "trim_space (it_Extra n) = it_Extra n"
    if "intent_ok n" for n
    using that actions_fixed modes_fixed by (auto simp: intent_ok_def)
  have fp: "CHR '';'' \<notin> set (ParamFingerprint ps)" for ps
    by (simp add: ParamFingerprint_def hashBytes_no_semi)
  note b = targetPreimage_inj [OF eq [unfolded intentPreimage_def] a [OF i] fp m(1) [OF i] a [OF j] fp m(1) [OF j]]
  have "(0 < it_BuildNumber i) = (0 < it_BuildNumber j) \<and> (0 < it_QueueID i) = (0 < it_QueueID j)"
    if "it_Action i = it_Action j"
    using normalizeFields_present [OF f [OF i]] normalizeFields_present [OF f [OF j]] that by simp
  note present = this
  note b' = b [OF present]
  have pos: "0 < it_BuildNumber i \<longleftrightarrow> 0 < it_BuildNumber j" "0 < it_QueueID i \<longleftrightarrow> 0 < it_QueueID j"
    using present b' by blast+
  have nonneg: "0 \<le> it_BuildNumber i" "0 \<le> it_BuildNumber j" "0 \<le> it_QueueID i" "0 \<le> it_QueueID j"
    using normalizeFields_out [OF f [OF i]] normalizeFields_out [OF f [OF j]] by blast+
  have build: "it_BuildNumber i = it_BuildNumber j" using pos nonneg b' by linarith
  have queue: "it_QueueID i = it_QueueID j" using pos nonneg b' by linarith
  have "it_Extra i = it_Extra j \<or> it_Extra i \<noteq> [] \<and> it_Extra j \<noteq> [] \<and>
      hashBytes (it_Extra i) = hashBytes (it_Extra j)"
    using b' unfolding t(2) [OF i] t(2) [OF j] by metis
  with build queue b' show ?thesis unfolding t(1) [OF i] t(1) [OF j] m(2) [OF i] m(2) [OF j] by blast
qed

section \<open>Properties of intents\<close>

text \<open>What each action asks for: whether it names a build, whether it names a queue item, whether it
  may carry parameters, and the modes it is left with.\<close>

definition actionTable :: "(string \<times> bool \<times> bool \<times> bool \<times> string list) list" where
  "actionTable =
     [(ActionStartJob, False, False, True, [[]]),
      (ActionStopBuild, True, False, False, [[]]),
      (ActionCancelQueue, False, True, False, [[]]),
      (ActionInterruptBuild, True, False, False, [''stop'', ''term'', ''kill'']),
      (ActionRebuildBuild, True, False, True, [[]]),
      (ActionReplayPipeline, True, False, False, [''same'']),
      (ActionSetJobBuildable, False, False, False, [''enable'', ''disable'']),
      (ActionSetBuildKeepForever, True, False, False, [''true'', ''false'']),
      (ActionSetBuildDescription, True, False, False, [[]]),
      (ActionCancelQueueItemsForJob, False, False, False, [[], ''stuck''])]"

definition keeps_action_rules :: "Intent \<Rightarrow> bool" where
  "keeps_action_rules n = list_ex (\<lambda>(a, build, queue, ps, modes). it_Action n = a \<and>
     (if build then 0 < it_BuildNumber n else it_BuildNumber n = 0) \<and>
     (if queue then 0 < it_QueueID n else it_QueueID n = 0) \<and>
     (ps \<or> it_Parameters n = []) \<and> it_Mode n \<in> set modes) actionTable"

lemma normalizeFields_rules:
  assumes "normalizeFields (it_Action n) (it_JobName n) (it_BuildNumber n) (it_QueueID n) (it_Parameters n)
       (it_EndpointClass n) (it_Mode n) (it_Extra n) (it_QueueIDs n) =
       Inr (it_EndpointClass n, it_Mode n, it_Extra n)"
  shows "keeps_action_rules n"
  using assms
  by (cases rule: normalizeFields_cases [OF assms])
    (auto simp: normalizeFields_def keeps_action_rules_def actionTable_def action_names split: if_split_asm)

text \<open>C33: a normalised intent is in normal form: normalising it again changes nothing, and it keeps the
  rules of its action: a build number, positive, exactly where the action names a build; a queue id,
  positive, exactly where it names a queue item; parameters only for a start and a rebuild; a mode of
  that action. Its parameters carry no sensitive name; its queue ids are positive, distinct and
  ascending (between one and twenty of them for a bulk cancel, and then they are what \<open>Extra\<close> holds,
  which is hashed); a job is named unless a queue item is cancelled by id; keep-forever repeats its mode
  in \<open>Extra\<close>; a build description is at most 4096 bytes.\<close>

theorem normalizeIntent_normal:
  assumes "normalizeIntent i = Inr n"
  shows "normalizeIntent n = Inr n \<and> keeps_action_rules n \<and> params_ok (it_Parameters n) \<and>
    sorted (it_QueueIDs n) \<and> distinct (it_QueueIDs n) \<and> list_all (\<lambda>q. 0 < q) (it_QueueIDs n) \<and>
    (it_Action n = ActionCancelQueue \<or> it_JobName n \<noteq> []) \<and>
    (it_Action n \<noteq> ActionCancelQueueItemsForJob \<or>
       length (it_QueueIDs n) \<in> {1..20} \<and> it_Extra n = formatQueueIDsExtra (it_QueueIDs n)) \<and>
    (it_Action n \<noteq> ActionSetBuildKeepForever \<or> it_Extra n = it_Mode n) \<and>
    (it_Action n \<noteq> ActionSetBuildDescription \<or> length (it_Extra n) \<le> 4096)"
proof -
  note ok = normalizeIntent_ok [OF assms]
  have q: "it_QueueIDs n = sorted_list_of_set {i \<in> set (it_QueueIDs n). 0 < i}"
    using ok by (metis intent_ok_def normalizeQueueIDs_sorted)
  have "0 < i" if "i \<in> set (it_QueueIDs n)" for i
    using that by (subst (asm) q) simp
  then have pos: "list_all (\<lambda>q. 0 < q) (it_QueueIDs n)" by (simp add: list_all_iff)
  have srt: "sorted (it_QueueIDs n)" "distinct (it_QueueIDs n)" by (subst q, simp)+
  have f: "normalizeFields (it_Action n) (it_JobName n) (it_BuildNumber n) (it_QueueID n) (it_Parameters n)
       (it_EndpointClass n) (it_Mode n) (it_Extra n) (it_QueueIDs n) =
       Inr (it_EndpointClass n, it_Mode n, it_Extra n)" using ok by (simp add: intent_ok_def)
  have shape: "(it_Action n = ActionCancelQueue \<or> it_JobName n \<noteq> []) \<and>
      (it_Action n \<noteq> ActionCancelQueueItemsForJob \<or>
         length (it_QueueIDs n) \<in> {1..20} \<and> it_Extra n = formatQueueIDsExtra (it_QueueIDs n)) \<and>
      (it_Action n \<noteq> ActionSetBuildKeepForever \<or> it_Extra n = it_Mode n) \<and>
      (it_Action n \<noteq> ActionSetBuildDescription \<or> length (it_Extra n) \<le> 4096)"
    using f by (cases rule: normalizeFields_cases [OF f])
      (auto simp: normalizeFields_def action_names MaxBulkQueueCancel_def MaxBuildDescriptionLen_def Suc_le_eq
        split: if_split_asm)
  show ?thesis
    using normalizeIntent_fix [OF ok] ok pos srt shape normalizeFields_rules [OF f] by (simp add: intent_ok_def)
qed

definition exampleIntent :: Intent where
  "exampleIntent = \<lparr> it_Action = ActionStartJob, it_ToolName = [], it_JobName = '' team/app '', it_BuildNumber = 0,
     it_QueueID = 0, it_Parameters = [('' BRANCH'', PStr ''main'')], it_EndpointClass = [], it_Mode = [],
     it_Extra = [], it_QueueIDs = [], it_CurrentState = [] \<rparr>"

definition exampleNormal :: Intent where
  "exampleNormal = exampleIntent\<lparr> it_ToolName := ToolStartJob, it_JobName := ''team/app'',
     it_Parameters := [(''BRANCH'', PStr ''main'')], it_EndpointClass := ''buildWithParameters'' \<rparr>"

lemma exampleNormal: "normalizeIntent exampleIntent = Inr exampleNormal"
  "normalizeIntent exampleNormal = Inr exampleNormal"
  by code_simp+

text \<open>A bulk cancel with repeated and invalid queue ids.\<close>

definition exampleBulk :: Intent where
  "exampleBulk = exampleIntent\<lparr> it_Action := ActionCancelQueueItemsForJob, it_Parameters := [],
     it_Mode := '' STUCK'', it_QueueIDs := [9, 0, 4, 9] \<rparr>"

lemma normalizeIntent_normal_witness:
  "\<exists>n. normalizeIntent exampleBulk = Inr n \<and> keeps_action_rules n \<and> it_Extra n = formatQueueIDsExtra [4, 9]"
proof -
  have "\<not> isl (normalizeIntent exampleBulk)" "case normalizeIntent exampleBulk of Inl _ \<Rightarrow> False
    | Inr n \<Rightarrow> it_Action n = ActionCancelQueueItemsForJob \<and> it_QueueIDs n = [4, 9]" by code_simp+
  then obtain n where n: "normalizeIntent exampleBulk = Inr n" "it_Action n = ActionCancelQueueItemsForJob"
    "it_QueueIDs n = [4, 9]"
    by (cases "normalizeIntent exampleBulk") auto
  from normalizeIntent_normal [OF n(1)] n show ?thesis by auto
qed

text \<open>Two texts on which the hash of this package does not collide.\<close>

definition no_collision :: "string \<Rightarrow> string \<Rightarrow> bool" where
  "no_collision s t = (hashBytes s \<noteq> hashBytes t \<or> s = t)"

text \<open>C22: a token binds the whole target: if two normalised intents have the same target hash, their
  parameter names have no equals sign and their parameter values are plain (texts, or values whose JSON
  holds no quote and no semicolon, such as numbers and booleans), and the hash does not collide on the texts compared, then they have
  the same action, job, build, queue item, mode and extra, and the same parameters as JSON: the same
  names with the same JSON texts in the order of the names, in whatever order the maps list them.\<close>

theorem token_binds_target:
  assumes "normalizeIntent i = Inr ni" and "normalizeIntent j = Inr nj" and "intentHash ni = intentHash nj"
    and "no_collision (intentPreimage ni) (intentPreimage nj)"
    and "no_collision (paramPreimage (it_Parameters ni)) (paramPreimage (it_Parameters nj))"
    and "no_collision (it_Extra ni) (it_Extra nj)"
    and "list_all (\<lambda>(k, v). CHR ''='' \<notin> set k \<and> plain_text v) (it_Parameters ni)"
    and "list_all (\<lambda>(k, v). CHR ''='' \<notin> set k \<and> plain_text v) (it_Parameters nj)"
  shows "it_Action ni = it_Action nj \<and> it_JobName ni = it_JobName nj \<and> it_BuildNumber ni = it_BuildNumber nj \<and>
    it_QueueID ni = it_QueueID nj \<and> it_Mode ni = it_Mode nj \<and> it_Extra ni = it_Extra nj \<and>
    jsonView (it_Parameters ni) = jsonView (it_Parameters nj)"
proof -
  have "intentPreimage ni = intentPreimage nj"
    using assms(3,4) by (simp add: no_collision_def intentHash_def intentPreimage_def TargetHash_def)
  note b = intentPreimage_binds [OF assms(1,2) [THEN normalizeIntent_ok] this]
  have "paramPreimage (it_Parameters ni) = paramPreimage (it_Parameters nj)"
    using b assms(5) by (simp add: no_collision_def ParamFingerprint_def)
  then have "jsonView (it_Parameters ni) = jsonView (it_Parameters nj)"
    by (rule paramPreimage_determines [OF assms(7,8)])
  then show ?thesis using b assms(6) unfolding no_collision_def by blast
qed

text \<open>The same start of a job, asked for with its parameters in two orders and with other spacing.\<close>

definition exampleAsked :: "params \<Rightarrow> string \<Rightarrow> Intent" where
  "exampleAsked ps job = exampleIntent\<lparr> it_JobName := job, it_Parameters := ps \<rparr>"

definition exampleOne :: Intent where
  "exampleOne = exampleAsked [(''B'', PStr ''x;y''), (''A'', PInt 3)] ''team/app''"

definition exampleTwo :: Intent where
  "exampleTwo = exampleAsked [('' A'', PInt 3), (''B '', PStr ''x;y'')] '' team/app ''"

lemma token_binds_target_witness:
  "\<exists>n1 n2. normalizeIntent exampleOne = Inr n1 \<and> normalizeIntent exampleTwo = Inr n2 \<and> exampleOne \<noteq> exampleTwo \<and>
     it_Parameters n1 \<noteq> it_Parameters n2 \<and> intentHash n1 = intentHash n2 \<and>
     it_JobName n1 = it_JobName n2 \<and> jsonView (it_Parameters n1) = jsonView (it_Parameters n2)"
proof -
  let ?n = "\<lambda>ps. exampleNormal\<lparr> it_Parameters := ps \<rparr>"
  let ?p = "[(''B'', PStr ''x;y''), (''A'', PInt 3)]" and ?q = "[(''A'', PInt 3), (''B'', PStr ''x;y'')]"
  have n: "normalizeIntent exampleOne = Inr (?n ?p)" "normalizeIntent exampleTwo = Inr (?n ?q)"
    by code_simp+
  have pre: "paramPreimage ?p = paramPreimage ?q" by code_simp
  have plain: "plain_text (PInt 3)" "plain_text (PStr ''x;y'')" by code_simp+
  then have fp: "ParamFingerprint ?p = ParamFingerprint ?q" unfolding ParamFingerprint_def pre by simp
  have "intentPreimage (?n ?p) = intentPreimage (?n ?q)" by (simp add: intentPreimage_def fp)
  moreover have h: "intentHash (?n ?p) = intentHash (?n ?q)" by (simp add: intentHash_def fp)
  moreover have "list_all (\<lambda>(k, v). CHR ''='' \<notin> set k \<and> plain_text v) ps" if "ps = ?p \<or> ps = ?q" for ps
    using that plain by auto
  ultimately have "it_JobName (?n ?p) = it_JobName (?n ?q) \<and> jsonView ?p = jsonView ?q"
    using token_binds_target [OF n h] pre plain by (simp add: no_collision_def)
  moreover have "exampleOne \<noteq> exampleTwo" by (simp add: exampleOne_def exampleTwo_def exampleAsked_def exampleIntent_def)
  ultimately show ?thesis using n h by auto
qed

end
