(* ===== verification/MutationSteps.thy ===== *)
theory MutationSteps
  imports MutationCorrect
begin

text \<open>
  The preview/confirm gate as a concurrent object. Its critical sections (what runs under the
  manager's mutex, and the audit calls) are steps on the manager together with the history of their
  outcomes, newest first; calls of any number of goroutines are interleavings of these steps. Single
  use, provenance, spacing of confirmations and the preview rate are invariants of the steps, proved
  through the locale \<open>invariant_system\<close>. The sequential properties of \<open>Preview\<close> and \<open>Confirm\<close>
  follow: when a confirmation succeeds, what a denial changes, the audit trail, the read-only switch.
\<close>

section \<open>Critical sections\<close>

datatype Section =
    SReserve int
  | SIssue Intent string int Binding "string option" "string list"
  | SConfirm string Intent string Binding int "string list"
  | SEmit Event

datatype Outcome =
    Reserved int
  | Issued string Intent Binding string int \<comment> \<open>token, intent, binding, hash, clock\<close>
  | Confirmed string BoundIntent Binding string int \<comment> \<open>token, intent, binding, cooldown key, clock\<close>

fun run_section :: "Section \<Rightarrow> Manager \<Rightarrow> Manager \<times> Outcome list" where
  "run_section (SReserve now) m =
     (case reservePreview now m of (m', e) \<Rightarrow> (m', if e = None then [Reserved now] else []))"
| "run_section (SIssue norm hash now bind rnd ks) m =
     (case issueToken norm hash now bind rnd ks m of
        (m', Inl e) \<Rightarrow> (m', [])
      | (m', Inr (tok, exp)) \<Rightarrow> (m', [Issued tok norm bind hash now]))"
| "run_section (SConfirm tok norm hash bind start ks) m =
     (case confirmLocked tok norm hash bind start ks m of
        (m', Inl e) \<Rightarrow> (m', [])
      | (m', Inr b) \<Rightarrow> (m', [Confirmed tok b bind (cooldownKey bind (it_Action norm) hash) start]))"
| "run_section (SEmit e) m = (emit e m, [])"

fun run_sections :: "Section list \<Rightarrow> Manager \<Rightarrow> Manager \<times> Outcome list" where
  "run_sections [] m = (m, [])"
| "run_sections (c # cs) m =
     (case run_section c m of (m1, os1) \<Rightarrow> case run_sections cs m1 of (m2, os2) \<Rightarrow> (m2, os2 @ os1))"

text \<open>The clock a section reads; audit calls read none.\<close>

fun section_clock :: "Section \<Rightarrow> int option" where
  "section_clock (SReserve now) = Some now"
| "section_clock (SIssue norm hash now bind rnd ks) = Some now"
| "section_clock (SConfirm tok norm hash bind start ks) = Some start"
| "section_clock (SEmit e) = None"

fun issued_token :: "Outcome \<Rightarrow> string option" where
  "issued_token (Issued tok norm bind hash now) = Some tok"
| "issued_token _ = None"

fun confirmed_token :: "Outcome \<Rightarrow> string option" where
  "confirmed_token (Confirmed tok b bind key start) = Some tok"
| "confirmed_token _ = None"

fun confirmation :: "Outcome \<Rightarrow> (string \<times> int) option" where
  "confirmation (Confirmed tok b bind key start) = Some (key, start)"
| "confirmation _ = None"

fun reservation :: "Outcome \<Rightarrow> int option" where
  "reservation (Reserved now) = Some now"
| "reservation _ = None"

definition issues :: "string \<Rightarrow> Outcome list \<Rightarrow> nat" where
  "issues tok h = length (filter (\<lambda>e. issued_token e = Some tok) h)"

definition confirms :: "string \<Rightarrow> Outcome list \<Rightarrow> nat" where
  "confirms tok h = length (filter (\<lambda>e. confirmed_token e = Some tok) h)"

definition confirmations :: "Outcome list \<Rightarrow> (string \<times> int) list" where
  "confirmations h = List.map_filter confirmation h"

definition reservations :: "Outcome list \<Rightarrow> int list" where
  "reservations h = List.map_filter reservation h"

lemma counts_simps [simp]:
  "issues tok [] = 0" "confirms tok [] = 0" "confirmations [] = []" "reservations [] = []"
  "issues tok (e # h) = (if issued_token e = Some tok then 1 else 0) + issues tok h"
  "confirms tok (e # h) = (if confirmed_token e = Some tok then 1 else 0) + confirms tok h"
  "confirmations (e # h) = (case confirmation e of None \<Rightarrow> confirmations h | Some c \<Rightarrow> c # confirmations h)"
  "reservations (e # h) = (case reservation e of None \<Rightarrow> reservations h | Some t \<Rightarrow> t # reservations h)"
  by (simp_all add: issues_def confirms_def confirmations_def reservations_def List.map_filter_simps split: option.split)

section \<open>What a section does\<close>

text \<open>A confirmation is possible: the record is live and unused, for the same binding, action and
  target, and no cooldown is running.\<close>

definition confirmable :: "Manager \<Rightarrow> tokenRecord \<Rightarrow> Intent \<Rightarrow> string \<Rightarrow> Binding \<Rightarrow> int \<Rightarrow> bool" where
  "confirmable m r norm hash bind start =
     (\<not> tr_used r \<and> start < tr_expiresAt r \<and> Binding_Equal (tr_binding r) bind \<and>
      tr_action r = it_Action norm \<and> tr_targetHash r = hash \<and>
      (mg_confirmCooldown m \<le> 0 \<or>
       (case mg_cooldowns m (cooldownKey bind (it_Action norm) hash) of None \<Rightarrow> True | Some until \<Rightarrow> until \<le> start)))"

lemma confirmLocked_ok_iff:
  "(\<exists>m'. confirmLocked tok norm hash bind start ks m = (m', Inr b)) \<longleftrightarrow>
   (\<exists>r. mg_tokens m tok = Some r \<and> confirmable m r norm hash bind start \<and> b = boundOf r)"
  unfolding confirmLocked_def confirmable_def Let_def
  by (auto split: option.splits)

lemma confirmLocked_ok:
  assumes "confirmLocked tok norm hash bind start ks m = (m', Inr b)"
  obtains r where "mg_tokens m tok = Some r" "confirmable m r norm hash bind start" "b = boundOf r"
    "mg_tokens m' = (mg_tokens m)(tok := None)"
    "mg_cooldowns m' = (if mg_confirmCooldown m > 0 then purgeCooldowns ks start ((mg_cooldowns m)
       (cooldownKey bind (it_Action norm) hash \<mapsto> start + mg_confirmCooldown m)) else mg_cooldowns m)"
    "mg_previewTimes m' = mg_previewTimes m"
proof -
  from assms obtain r where r: "mg_tokens m tok = Some r" "confirmable m r norm hash bind start" "b = boundOf r"
    using confirmLocked_ok_iff [of tok norm hash bind start ks m b] by auto
  then have "confirmLocked tok norm hash bind start ks m =
      (if mg_confirmCooldown m > 0 then m\<lparr> mg_tokens := (mg_tokens m)(tok := None), mg_cooldowns :=
          purgeCooldowns ks start ((mg_cooldowns m)(cooldownKey bind (it_Action norm) hash \<mapsto>
            start + mg_confirmCooldown m)) \<rparr>
       else m\<lparr> mg_tokens := (mg_tokens m)(tok := None) \<rparr>, Inr (boundOf r))"
    by (auto simp: confirmLocked_def confirmable_def Let_def split: option.splits)
  with assms r that show ?thesis by (auto split: if_splits)
qed

lemma confirmLocked_denied:
  assumes "confirmLocked tok norm hash bind start ks m = (m', Inl e)"
  shows "m' = m \<or> (\<exists>r. mg_tokens m tok = Some r \<and> \<not> start < tr_expiresAt r \<and>
      m' = m\<lparr> mg_tokens := (mg_tokens m)(tok := None) \<rparr>)"
  using assms unfolding confirmLocked_def Let_def
  by (auto split: option.splits if_splits)

lemma issueToken_ok:
  assumes "issueToken norm hash now bind rnd ks m = (m', Inr (tok, exp))"
  obtains raw r where "rnd = Some raw" "tok = hex_encode raw" "exp = now + mg_ttl m"
    "m' = m\<lparr> mg_tokens := (purgeExpired ks now (mg_tokens m))(tok \<mapsto> r) \<rparr>"
    "tr_binding r = bind" "tr_targetHash r = hash" "tr_expiresAt r = exp" "\<not> tr_used r" "tr_action r = it_Action norm"
    "bo_Intent (boundOf r) = norm\<lparr> it_CurrentState := [] \<rparr>"
  using assms by (auto simp: issueToken_def boundOf_def cloneParams_def Let_def split: option.splits)

lemma issueToken_failed: "issueToken norm hash now bind rnd ks m = (m', Inl e) \<Longrightarrow> m' = m"
  by (auto simp: issueToken_def Let_def split: option.splits)

lemma purgeExpired_Some: "purgeExpired ks now toks tok = Some r \<Longrightarrow> toks tok = Some r"
  unfolding purgeExpired_def by (rule purge_loop_Some)

lemma purgeExpired_live: "toks tok = Some r \<Longrightarrow> now < tr_expiresAt r \<Longrightarrow> \<not> tr_used r \<Longrightarrow> purgeExpired ks now toks tok = Some r"
  unfolding purgeExpired_def by (rule purge_loop_live) auto

lemma reservePreview_frame:
  "reservePreview now m = (m', e) \<Longrightarrow> mg_tokens m' = mg_tokens m \<and> mg_cooldowns m' = mg_cooldowns m \<and>
     mg_confirmCooldown m' = mg_confirmCooldown m \<and> mg_maxPreviewsPerMin m' = mg_maxPreviewsPerMin m \<and> mg_ttl m' = mg_ttl m"
  by (auto simp: reservePreview_def Let_def split: if_splits)

lemma emit_frame [simp]:
  "mg_tokens (emit e m) = mg_tokens m" "mg_cooldowns (emit e m) = mg_cooldowns m"
  "mg_previewTimes (emit e m) = mg_previewTimes m" "mg_confirmCooldown (emit e m) = mg_confirmCooldown m"
  "mg_maxPreviewsPerMin (emit e m) = mg_maxPreviewsPerMin m" "mg_ttl (emit e m) = mg_ttl m"
  "mg_hasAudit (emit e m) = mg_hasAudit m" "mg_gate (emit e m) = mg_gate m"
  "mg_defaultBinding (emit e m) = mg_defaultBinding m"
  by (simp_all add: emit_def)

lemma Binding_Equal_iff: "Binding_Equal b c \<longleftrightarrow> b = c"
  by (auto simp: Binding_Equal_def)

lemma run_section_frame:
  assumes "run_section c m = (m', out)"
  shows "mg_confirmCooldown m' = mg_confirmCooldown m \<and> mg_maxPreviewsPerMin m' = mg_maxPreviewsPerMin m \<and>
    mg_ttl m' = mg_ttl m"
proof (cases c)
  case (SReserve now)
  with assms reservePreview_frame show ?thesis by (auto split: prod.splits)
next
  case (SIssue norm hash now bind rnd ks)
  with assms show ?thesis by (auto simp: issueToken_def Let_def split: option.splits)
next
  case (SConfirm tok norm hash bind start ks)
  with assms show ?thesis by (auto simp: confirmLocked_def Let_def split: option.splits if_splits)
next
  case (SEmit e)
  with assms show ?thesis by auto
qed

definition live :: "string \<Rightarrow> Manager \<Rightarrow> nat" where
  "live tok m = (if mg_tokens m tok = None then 0 else 1)"

lemma run_section_uses:
  assumes "run_section c m = (m', out)"
  shows "confirms tok out + live tok m' \<le> issues tok out + live tok m"
proof (cases c)
  case (SReserve now)
  with assms reservePreview_frame show ?thesis by (fastforce simp: live_def split: prod.splits if_splits)
next
  case (SIssue norm hash now bind rnd ks)
  with assms have "(m' = m \<and> out = []) \<or> (\<exists>tok' r. out = [Issued tok' norm bind hash now] \<and>
      mg_tokens m' = (purgeExpired ks now (mg_tokens m))(tok' \<mapsto> r))"
    by (auto split: prod.splits sum.splits dest!: issueToken_failed elim!: issueToken_ok)
  then show ?thesis
    using purgeExpired_Some [of ks now "mg_tokens m" tok] by (fastforce simp: live_def)
next
  case (SConfirm tok' norm hash bind start ks)
  with assms show ?thesis
    by (auto simp: live_def split: prod.splits sum.splits if_splits dest!: confirmLocked_denied elim!: confirmLocked_ok)
next
  case (SEmit e)
  with assms show ?thesis by (auto simp: live_def)
qed

section \<open>Interleavings\<close>

inductive msec :: "Manager \<times> Outcome list \<Rightarrow> Manager \<times> Outcome list \<Rightarrow> bool" where
  msec: "run_section c m = (m', out) \<Longrightarrow> msec (m, h) (m', out @ h)"

inductive_cases msecE: "msec (m, h) s'"

definition fresh :: "LiveConfig \<Rightarrow> Config \<Rightarrow> Manager \<times> Outcome list \<Rightarrow> bool" where
  "fresh lv cfg s = (s = (NewManager lv cfg, []))"

lemma fresh_manager:
  "mg_tokens (NewManager lv cfg) = Map.empty" "mg_cooldowns (NewManager lv cfg) = Map.empty"
  "mg_previewTimes (NewManager lv cfg) = []" "0 \<le> mg_confirmCooldown (NewManager lv cfg)"
  by (simp_all add: NewManager_def Let_def)

lemma counts_append [simp]:
  "issues tok (g @ h) = issues tok g + issues tok h" "confirms tok (g @ h) = confirms tok g + confirms tok h"
  by (simp_all add: issues_def confirms_def)

definition single_use :: "string \<Rightarrow> Manager \<times> Outcome list \<Rightarrow> bool" where
  "single_use tok s = (case s of (m, h) \<Rightarrow> confirms tok h + live tok m \<le> issues tok h)"

interpretation uses: invariant_system "fresh lv cfg" msec "single_use tok" for lv cfg tok
proof
  show "fresh lv cfg s \<Longrightarrow> single_use tok s" for s
    by (simp add: fresh_def single_use_def live_def fresh_manager)
next
  fix s t
  assume s: "single_use tok s" and step: "msec s t"
  from step show "single_use tok t"
  proof cases
    case (msec c m m' out h)
    have "confirms tok out + live tok m' \<le> issues tok out + live tok m"
      using msec(3) by (rule run_section_uses)
    moreover have "confirms tok h + live tok m \<le> issues tok h" using s by (simp add: single_use_def msec(1))
    ultimately show ?thesis by (simp add: single_use_def msec(2))
  qed
qed

text \<open>Where a record in the token map, and a confirmation, come from.\<close>

definition issued_as :: "Manager \<Rightarrow> Outcome list \<Rightarrow> string \<Rightarrow> BoundIntent \<Rightarrow> Binding \<Rightarrow> (int \<Rightarrow> bool) \<Rightarrow> bool" where
  "issued_as m h tok b bind P = (\<exists>norm now. Issued tok norm bind (bo_TargetHash b) now \<in> set h \<and>
     bo_Intent b = norm\<lparr> it_CurrentState := [] \<rparr> \<and> P (now + mg_ttl m))"

definition provenance :: "Manager \<times> Outcome list \<Rightarrow> bool" where
  "provenance s = (case s of (m, h) \<Rightarrow>
     (\<forall>tok r. mg_tokens m tok = Some r \<longrightarrow>
        issued_as m h tok (boundOf r) (tr_binding r) (\<lambda>exp. tr_expiresAt r = exp)) \<and>
     (\<forall>tok b bind key start. Confirmed tok b bind key start \<in> set h \<longrightarrow>
        issued_as m h tok b bind (\<lambda>exp. start < exp)))"

lemma issued_as_mono:
  "issued_as m h tok b bind P \<Longrightarrow> mg_ttl m' = mg_ttl m \<Longrightarrow> set h \<subseteq> set h' \<Longrightarrow> (\<And>x. P x \<Longrightarrow> Q x) \<Longrightarrow>
     issued_as m' h' tok b bind Q"
  unfolding issued_as_def by fastforce

lemma run_section_records:
  assumes "run_section c m = (m', out)" and "mg_tokens m' tok = Some r"
  shows "mg_tokens m tok = Some r \<or> (\<exists>norm hash now bind. Issued tok norm bind hash now \<in> set out \<and>
    tr_binding r = bind \<and> tr_targetHash r = hash \<and> tr_expiresAt r = now + mg_ttl m \<and>
    bo_Intent (boundOf r) = norm\<lparr> it_CurrentState := [] \<rparr>)"
proof (cases c)
  case (SReserve now)
  with assms reservePreview_frame show ?thesis by (fastforce split: prod.splits)
next
  case (SIssue norm hash now bind rnd ks)
  show ?thesis
  proof (cases "issueToken norm hash now bind rnd ks m")
    case (Pair m1 res)
    show ?thesis
    proof (cases res)
      case (Inl e)
      with Pair assms SIssue show ?thesis by (auto dest!: issueToken_failed)
    next
      case (Inr te)
      obtain tok' exp where te: "te = (tok', exp)" by fastforce
      from Pair Inr te have "issueToken norm hash now bind rnd ks m = (m1, Inr (tok', exp))" by simp
      then obtain r' where m1: "m1 = m\<lparr> mg_tokens := (purgeExpired ks now (mg_tokens m))(tok' \<mapsto> r') \<rparr>"
        and r': "tr_binding r' = bind" "tr_targetHash r' = hash" "tr_expiresAt r' = now + mg_ttl m"
          "bo_Intent (boundOf r') = norm\<lparr> it_CurrentState := [] \<rparr>"
        by (auto elim!: issueToken_ok)
      have out: "m' = m1" "out = [Issued tok' norm bind hash now]" using assms(1) SIssue Pair Inr te by auto
      show ?thesis
      proof (cases "tok = tok'")
        case True
        then have "r' = r" using assms(2) by (simp add: out(1) m1)
        then show ?thesis using r' True out(2) by auto
      next
        case False
        have "purgeExpired ks now (mg_tokens m) tok = Some r" using assms(2) False by (simp add: out(1) m1)
        then show ?thesis by (blast dest: purgeExpired_Some)
      qed
    qed
  qed
next
  case (SConfirm tok' norm hash bind start ks)
  with assms show ?thesis
    by (auto split: prod.splits sum.splits if_splits dest!: confirmLocked_denied elim!: confirmLocked_ok)
next
  case (SEmit e)
  with assms show ?thesis by auto
qed

lemma run_section_confirmed:
  assumes "run_section c m = (m', out)" and "Confirmed tok b bind key start \<in> set out"
  obtains r norm ks where "c = SConfirm tok norm (bo_TargetHash b) bind start ks" "mg_tokens m tok = Some r"
    "b = boundOf r" "confirmable m r norm (tr_targetHash r) bind start" "out = [Confirmed tok b bind key start]"
    "key = cooldownKey bind (it_Action norm) (bo_TargetHash b)" "mg_tokens m' = (mg_tokens m)(tok := None)"
    "mg_cooldowns m' = (if mg_confirmCooldown m > 0 then purgeCooldowns ks start ((mg_cooldowns m)
       (key \<mapsto> start + mg_confirmCooldown m)) else mg_cooldowns m)"
proof (cases c)
  case (SConfirm tok' norm hash bind' start' ks)
  show ?thesis
  proof (cases "confirmLocked tok' norm hash bind' start' ks m")
    case (Pair m1 res)
    with assms SConfirm obtain b' where res: "res = Inr b'" by (cases res) auto
    with Pair have c: "confirmLocked tok' norm hash bind' start' ks m = (m1, Inr b')" by simp
    have out: "out = [Confirmed tok' b' bind' (cooldownKey bind' (it_Action norm) hash) start']" "m' = m1"
      using assms(1) SConfirm Pair res by auto
    with assms(2) have eqs: "tok' = tok" "b' = b" "bind' = bind" "start' = start"
      "cooldownKey bind' (it_Action norm) hash = key" by auto
    from c obtain r where r: "mg_tokens m tok' = Some r" "confirmable m r norm hash bind' start'" "b' = boundOf r"
      "mg_tokens m1 = (mg_tokens m)(tok' := None)"
      "mg_cooldowns m1 = (if mg_confirmCooldown m > 0 then purgeCooldowns ks start' ((mg_cooldowns m)
         (cooldownKey bind' (it_Action norm) hash \<mapsto> start' + mg_confirmCooldown m)) else mg_cooldowns m)"
      by (rule confirmLocked_ok)
    have hash: "hash = tr_targetHash r" "bo_TargetHash b = hash"
      using r(2,3) eqs by (auto simp: confirmable_def boundOf_def)
    show ?thesis
      by (rule that [of norm ks r]) (use r eqs hash SConfirm out in auto)
  qed
qed (use assms in \<open>auto split: prod.splits sum.splits if_splits\<close>)

interpretation prov: invariant_system "fresh lv cfg" msec provenance for lv cfg
proof
  show "fresh lv cfg s \<Longrightarrow> provenance s" for s
    by (simp add: fresh_def provenance_def fresh_manager)
next
  fix s t
  assume s: "provenance s" and step: "msec s t"
  from step show "provenance t"
  proof cases
    case (msec c m m' out h)
    note ttl = run_section_frame [OF msec(3)]
    have rec: "mg_tokens m tok = Some r \<Longrightarrow>
        issued_as m h tok (boundOf r) (tr_binding r) (\<lambda>exp. tr_expiresAt r = exp)" for tok r
      using s by (simp add: provenance_def msec(1))
    have old: "Confirmed tok b bind key start \<in> set h \<Longrightarrow> issued_as m h tok b bind (\<lambda>exp. start < exp)"
      for tok b bind key start
      using s by (auto simp: provenance_def msec(1))
    have "issued_as m' (out @ h) tok (boundOf r) (tr_binding r) (\<lambda>exp. tr_expiresAt r = exp)"
      if "mg_tokens m' tok = Some r" for tok r
    proof (cases "mg_tokens m tok = Some r")
      case True
      show ?thesis by (rule issued_as_mono [OF rec [OF True]]) (use ttl in auto)
    next
      case False
      with run_section_records [OF msec(3) that] obtain norm hash now bind where
        "Issued tok norm bind hash now \<in> set out" "tr_binding r = bind" "tr_targetHash r = hash"
        "tr_expiresAt r = now + mg_ttl m" "bo_Intent (boundOf r) = norm\<lparr> it_CurrentState := [] \<rparr>" by blast
      then show ?thesis using ttl by (auto simp: issued_as_def boundOf_def)
    qed
    moreover have "issued_as m' (out @ h) tok b bind (\<lambda>exp. start < exp)"
      if "Confirmed tok b bind key start \<in> set (out @ h)" for tok b bind key start
    proof (cases "Confirmed tok b bind key start \<in> set h")
      case True
      show ?thesis by (rule issued_as_mono [OF old [OF True]]) (use ttl in auto)
    next
      case False
      with that have "Confirmed tok b bind key start \<in> set out" by simp
      then obtain r norm where r: "mg_tokens m tok = Some r" "b = boundOf r"
        and ok: "confirmable m r norm (tr_targetHash r) bind start"
        by (rule run_section_confirmed [OF msec(3)])
      have "tr_binding r = bind" "start < tr_expiresAt r"
        using ok by (auto simp: confirmable_def Binding_Equal_iff)
      with rec [OF r(1)] r(2) have "issued_as m h tok b bind (\<lambda>exp. tr_expiresAt r = exp)" by simp
      then show ?thesis by (rule issued_as_mono) (use ttl \<open>start < tr_expiresAt r\<close> in auto)
    qed
    ultimately show ?thesis by (simp add: provenance_def msec(2))
  qed
qed

section \<open>Interleavings with a clock\<close>

text \<open>The same steps when the clock readings of the sections are in the order of the sections.\<close>

inductive tsec :: "(Manager \<times> Outcome list) \<times> int \<Rightarrow> (Manager \<times> Outcome list) \<times> int \<Rightarrow> bool" where
  tsec: "run_section c m = (m', out) \<Longrightarrow> now = (case section_clock c of None \<Rightarrow> clock | Some t \<Rightarrow> t) \<Longrightarrow> clock \<le> now \<Longrightarrow>
     tsec ((m, h), clock) ((m', out @ h), now)"

inductive_cases tsecE: "tsec s t"

definition started :: "LiveConfig \<Rightarrow> Config \<Rightarrow> (Manager \<times> Outcome list) \<times> int \<Rightarrow> bool" where
  "started lv cfg s = fresh lv cfg (fst s)"

text \<open>Confirmations of one cooldown key, newest first, are at least \<open>d\<close> apart.\<close>

definition spaced :: "int \<Rightarrow> (string \<times> int) list \<Rightarrow> bool" where
  "spaced d = sorted_wrt (\<lambda>(k, t) (k', t'). k \<noteq> k' \<or> t' + d \<le> t)"

definition cooldown_inv :: "(Manager \<times> Outcome list) \<times> int \<Rightarrow> bool" where
  "cooldown_inv s = (case s of ((m, h), clock) \<Rightarrow>
     0 \<le> mg_confirmCooldown m \<and> spaced (mg_confirmCooldown m) (confirmations h) \<and>
     (\<forall>(k, t) \<in> set (confirmations h). t \<le> clock \<and>
        (clock < t + mg_confirmCooldown m \<longrightarrow> (\<exists>u. mg_cooldowns m k = Some u \<and> t + mg_confirmCooldown m \<le> u))))"

lemma confirmations_none:
  "list_all (\<lambda>e. confirmed_token e = None) out \<Longrightarrow> confirmations (out @ h) = confirmations h"
proof (induction out)
  case (Cons e out)
  then show ?case by (cases e) auto
qed simp

lemma some_confirmed:
  assumes "\<not> list_all (\<lambda>e. confirmed_token e = None) out"
  obtains tok b bind key start where "Confirmed tok b bind key start \<in> set out"
proof -
  from assms obtain e where e: "e \<in> set out" "confirmed_token e \<noteq> None" by (auto simp: list_all_iff)
  with that show ?thesis by (cases e) auto
qed

lemma run_section_no_confirm:
  assumes "run_section c m = (m', out)" and "list_all (\<lambda>e. confirmed_token e = None) out"
  shows "mg_cooldowns m' = mg_cooldowns m"
proof (cases c)
  case (SReserve now)
  with assms(1) reservePreview_frame show ?thesis by (auto split: prod.splits)
next
  case (SIssue norm hash now bind rnd ks)
  with assms(1) show ?thesis by (auto simp: issueToken_def Let_def split: option.splits)
next
  case (SConfirm tok norm hash bind start ks)
  with assms show ?thesis
    by (auto split: prod.splits sum.splits if_splits dest!: confirmLocked_denied)
next
  case (SEmit e)
  with assms(1) show ?thesis by auto
qed

lemma purgeCooldowns_live: "cds k = Some u \<Longrightarrow> now < u \<Longrightarrow> purgeCooldowns ks now cds k = Some u"
  unfolding purgeCooldowns_def by (rule purge_loop_live) auto

lemma cooldown_inv_confirm:
  assumes inv: "cooldown_inv ((m, h), clock)" and now: "clock \<le> now"
    and ok: "confirmable m r norm hash bind now" and key: "key = cooldownKey bind (it_Action norm) hash"
    and cd: "mg_cooldowns m' = (if mg_confirmCooldown m > 0 then purgeCooldowns ks now ((mg_cooldowns m)
       (key \<mapsto> now + mg_confirmCooldown m)) else mg_cooldowns m)"
    and same: "mg_confirmCooldown m' = mg_confirmCooldown m"
  shows "cooldown_inv ((m', Confirmed tok b bind key now # h), now)"
proof -
  define d where "d = mg_confirmCooldown m"
  have d: "0 \<le> d" and sp: "spaced d (confirmations h)" using inv by (auto simp: cooldown_inv_def d_def)
  have old: "t \<le> clock" "clock < t + d \<Longrightarrow> \<exists>u. mg_cooldowns m k = Some u \<and> t + d \<le> u"
    if "(k, t) \<in> set (confirmations h)" for k t
    using inv that by (auto simp: cooldown_inv_def d_def)
  have free: "t + d \<le> now" if kt: "(key, t) \<in> set (confirmations h)" for t
  proof (rule ccontr)
    assume c: "\<not> t + d \<le> now"
    with now old(2) [OF kt] obtain u where "mg_cooldowns m key = Some u" "t + d \<le> u" by force
    with ok c old(1) [OF kt] now show False by (auto simp: confirmable_def key d_def [symmetric])
  qed
  have "\<exists>u. mg_cooldowns m' k = Some u \<and> t + d \<le> u"
    if kt: "(k, t) \<in> insert (key, now) (set (confirmations h))" and soon: "now < t + d" for k t
  proof -
    have pos: "0 < d" using kt soon old(1) now by fastforce
    then have m': "mg_cooldowns m' = purgeCooldowns ks now ((mg_cooldowns m)(key \<mapsto> now + d))" using cd by (simp add: d_def)
    show ?thesis
    proof (cases "k = key")
      case True
      have "purgeCooldowns ks now ((mg_cooldowns m)(key \<mapsto> now + d)) key = Some (now + d)"
        by (rule purgeCooldowns_live) (use pos in auto)
      with True kt old(1) now m' show ?thesis by fastforce
    next
      case False
      with kt have kt': "(k, t) \<in> set (confirmations h)" by auto
      with soon now old(2) obtain u where u: "mg_cooldowns m k = Some u" "t + d \<le> u" by force
      then have "purgeCooldowns ks now ((mg_cooldowns m)(key \<mapsto> now + d)) k = Some u"
        using False soon by (intro purgeCooldowns_live) auto
      with u m' show ?thesis by auto
    qed
  qed
  moreover have "spaced d ((key, now) # confirmations h)" using sp free by (auto simp: spaced_def)
  moreover have "t \<le> now" if "(k, t) \<in> set (confirmations h)" for k t using old(1) [OF that] now by simp
  ultimately show ?thesis using d by (auto simp: cooldown_inv_def same d_def [symmetric])
qed

interpretation cooldown: invariant_system "started lv cfg" tsec cooldown_inv for lv cfg
proof
  show "started lv cfg s \<Longrightarrow> cooldown_inv s" for s
    by (cases s) (auto simp: started_def fresh_def cooldown_inv_def fresh_manager spaced_def)
next
  fix s t
  assume s: "cooldown_inv s" and step: "tsec s t"
  from step show "cooldown_inv t"
  proof cases
    case (tsec c m m' out now clock h)
    note frame = run_section_frame [OF tsec(3)]
    show ?thesis
    proof (cases "list_all (\<lambda>e. confirmed_token e = None) out")
      case True
      then have "confirmations (out @ h) = confirmations h" and "mg_cooldowns m' = mg_cooldowns m"
        using run_section_no_confirm [OF tsec(3)] confirmations_none by auto
      with s frame tsec(5) show ?thesis by (fastforce simp: cooldown_inv_def tsec(1,2))
    next
      case False
      then obtain tok b bind key start where c: "Confirmed tok b bind key start \<in> set out" by (rule some_confirmed)
      from tsec(3) c obtain r norm ks where c: "c = SConfirm tok norm (bo_TargetHash b) bind start ks" "b = boundOf r"
        and ok: "confirmable m r norm (tr_targetHash r) bind start"
        and out: "out = [Confirmed tok b bind key start]"
        and key: "key = cooldownKey bind (it_Action norm) (bo_TargetHash b)"
        and cd: "mg_cooldowns m' = (if mg_confirmCooldown m > 0 then purgeCooldowns ks start ((mg_cooldowns m)
           (key \<mapsto> start + mg_confirmCooldown m)) else mg_cooldowns m)"
        by (rule run_section_confirmed)
      have "now = start" using tsec(4) c(1) by simp
      moreover have "key = cooldownKey bind (it_Action norm) (tr_targetHash r)" using key c(2) by (simp add: boundOf_def)
      ultimately show ?thesis
        using cooldown_inv_confirm [OF s [unfolded tsec(1)] tsec(5) _ _ _ conjunct1 [OF frame], of r norm "tr_targetHash r" bind key ks]
          ok cd out by (simp add: tsec(2))
    qed
  qed
qed

section \<open>The preview rate\<close>

definition rate_inv :: "(Manager \<times> Outcome list) \<times> int \<Rightarrow> bool" where
  "rate_inv s = (case s of ((m, h), clock) \<Rightarrow> mg_maxPreviewsPerMin m < 0 \<or>
     (filter (\<lambda>t. clock - minute < t) (mg_previewTimes m) = filter (\<lambda>t. clock - minute < t) (rev (reservations h)) \<and>
      (\<forall>t \<in> set (reservations h). t \<le> clock) \<and>
      (\<forall>a. int (length (filter (\<lambda>t. a < t \<and> t \<le> a + minute) (reservations h))) \<le> mg_maxPreviewsPerMin m)))"

lemma reservations_none: "list_all (\<lambda>e. reservation e = None) out \<Longrightarrow> reservations (out @ h) = reservations h"
proof (induction out)
  case (Cons e out)
  then show ?case by (cases e) auto
qed simp

lemma run_section_previewTimes:
  assumes "run_section c m = (m', out)"
  shows "(\<exists>now. c = SReserve now) \<or> mg_previewTimes m' = mg_previewTimes m \<and> list_all (\<lambda>e. reservation e = None) out"
proof (cases c)
  case (SIssue norm hash now bind rnd ks)
  with assms show ?thesis by (auto simp: issueToken_def Let_def split: option.splits)
next
  case (SConfirm tok norm hash bind start ks)
  with assms show ?thesis
    by (auto split: prod.splits sum.splits if_splits dest!: confirmLocked_denied elim!: confirmLocked_ok)
qed (use assms in auto)

lemma filter_later:
  assumes "filter (\<lambda>t. (a :: int) < t) xs = filter (\<lambda>t. a < t) ys" and "a \<le> b"
  shows "filter (\<lambda>t. b < t) xs = filter (\<lambda>t. b < t) ys"
proof -
  have nest: "filter (\<lambda>t. b < t) zs = filter (\<lambda>t. b < t) (filter (\<lambda>t. a < t) zs)" for zs
    unfolding filter_filter using assms(2) by (intro filter_cong) auto
  show ?thesis by (simp only: nest [of xs] nest [of ys] assms(1))
qed

lemma rate_inv_later:
  assumes "rate_inv ((m, h), clock)" and "clock \<le> now" and "mg_previewTimes m' = mg_previewTimes m"
    and "mg_maxPreviewsPerMin m' = mg_maxPreviewsPerMin m" and "reservations h' = reservations h"
  shows "rate_inv ((m', h'), now)"
  using assms filter_later [of "clock - minute" "mg_previewTimes m" "rev (reservations h)" "now - minute"]
  by (fastforce simp: rate_inv_def)

lemma rate_inv_reserve:
  assumes inv: "rate_inv ((m, h), clock)" and now: "clock \<le> now"
    and res: "reservePreview now m = (m', e)"
  shows "rate_inv ((m', (if e = None then [Reserved now] else []) @ h), now)"
proof (cases "mg_maxPreviewsPerMin m < 0")
  case True
  with res show ?thesis by (auto simp: rate_inv_def reservePreview_def)
next
  case False
  define kept where "kept = filter (\<lambda>t. now - minute < t) (mg_previewTimes m)"
  define rs where "rs = reservations h"
  have eq: "kept = filter (\<lambda>t. now - minute < t) (rev rs)"
    using inv False now filter_later [of "clock - minute" "mg_previewTimes m" "rev rs" "now - minute"]
    by (simp add: rate_inv_def kept_def rs_def)
  have past: "\<forall>t \<in> set rs. t \<le> now"
    and win: "\<forall>a. int (length (filter (\<lambda>t. a < t \<and> t \<le> a + minute) rs)) \<le> mg_maxPreviewsPerMin m"
    using inv False now by (auto simp: rate_inv_def rs_def)
  have same: "filter (\<lambda>t. now - minute < t) kept = kept" by (simp add: kept_def)
  show ?thesis
  proof (cases e)
    case None
    with res False have full: "int (length kept) < mg_maxPreviewsPerMin m"
      and m': "m' = m\<lparr> mg_previewTimes := kept @ [now] \<rparr>"
      by (auto simp: reservePreview_def Let_def kept_def split: if_splits)
    have "int (length (filter (\<lambda>t. a < t \<and> t \<le> a + minute) (now # rs))) \<le> mg_maxPreviewsPerMin m" for a
    proof (cases "a < now \<and> now \<le> a + minute")
      case True
      have "length (filter (\<lambda>t. a < t \<and> t \<le> a + minute) rs) \<le> length (filter (\<lambda>t. now - minute < t) rs)"
        using True by (induction rs) auto
      also have "\<dots> = length kept" unfolding eq by (simp flip: rev_filter)
      finally show ?thesis using full True by simp
    next
      case False
      with win show ?thesis by auto
    qed
    then show ?thesis using same past eq None by (simp add: rate_inv_def m' rs_def minute_def second_def)
  next
    case (Some err)
    with res False have m': "m' = m\<lparr> mg_previewTimes := kept \<rparr>"
      by (auto simp: reservePreview_def Let_def kept_def split: if_splits)
    show ?thesis using same past win eq Some by (simp add: rate_inv_def m' rs_def)
  qed
qed

interpretation rate: invariant_system "started lv cfg" tsec rate_inv for lv cfg
proof
  show "started lv cfg s \<Longrightarrow> rate_inv s" for s
    by (cases s) (auto simp: started_def fresh_def rate_inv_def fresh_manager)
next
  fix s t
  assume s: "rate_inv s" and step: "tsec s t"
  from step show "rate_inv t"
  proof cases
    case (tsec c m m' out now clock h)
    show ?thesis
    proof (cases "\<exists>n. c = SReserve n")
      case True
      then obtain e where "reservePreview now m = (m', e)" "out = (if e = None then [Reserved now] else [])"
        using tsec(3,4) by (auto split: prod.splits)
      then show ?thesis using rate_inv_reserve [OF s [unfolded tsec(1)] tsec(5)] by (simp add: tsec(2))
    next
      case False
      with run_section_previewTimes [OF tsec(3)] reservations_none [of out h]
      have "mg_previewTimes m' = mg_previewTimes m" "reservations (out @ h) = reservations h" by auto
      then show ?thesis
        unfolding tsec(2) using rate_inv_later [OF s [unfolded tsec(1)] tsec(5)] run_section_frame [OF tsec(3)] by blast
    qed
  qed
qed

end
