(* ===== verification/MutationGate.thy ===== *)
theory MutationGate
  imports MutationSteps
begin

text \<open>
  The properties of the preview/confirm gate: what every interleaving of its critical sections
  keeps, and what single calls of \<open>Preview\<close> and \<open>Confirm\<close> do.
\<close>

section \<open>Calls as sequences of sections\<close>

lemma run_sections_one: "run_sections [c] m = run_section c m"
  by (simp split: prod.splits)

lemma emitDeny_emit:
  "\<exists>ev. emitDeny ctxb tool action reason hash start fin m = emit ev m \<and> ev_Decision ev = DecisionDeny \<and> ev_Time ev = start"
  by (rule exI [of _ "event (effectiveBinding m ctxb) start TypeDeny tool action DecisionDeny reason hash [] (fin - start)"])
    (simp add: emitDeny_def event_def)

lemma Confirm_cases:
  obtains e m' where "Confirm ctxb tok expected start fin ks (Some m) = (Some m', Inl e)"
      "\<exists>ev. m' = emit ev m \<and> ev_Decision ev = DecisionDeny \<and> ev_Time ev = start"
  | norm reason hash e m1 where "normalizeIntent expected = Inr norm" "\<not> Gate_Effective (mg_gate m)"
      "confirmLocked (trim_space tok) norm (intentHash norm) (effectiveBinding m ctxb) start ks m = (m1, Inl (reason, hash, e))"
      "Confirm ctxb tok expected start fin ks (Some m) =
         (Some (emitDeny ctxb (toolOf expected) (it_Action norm) reason hash start fin m1), Inl e)"
  | norm b m1 where "normalizeIntent expected = Inr norm" "\<not> Gate_Effective (mg_gate m)" "trim_space tok \<noteq> []"
      "confirmLocked (trim_space tok) norm (intentHash norm) (effectiveBinding m ctxb) start ks m = (m1, Inr b)"
      "Confirm ctxb tok expected start fin ks (Some m) =
         (Some (emit (event (effectiveBinding m ctxb) start TypeConfirm (toolOf expected) (it_Action (bo_Intent b))
            DecisionAllow ReasonConfirmOK (bo_TargetHash b) (bo_RequestID b) (fin - start)) m1), Inr b)"
proof (cases "DenyMutation (mg_gate m) (toolOf expected)")
  case (Some e)
  then show ?thesis by (intro that(1) [OF _ emitDeny_emit]) (simp add: Confirm_def Let_def)
next
  case None
  note gate = None
  show ?thesis
  proof (cases "trim_space tok = []")
    case True
    with gate show ?thesis by (intro that(1) [OF _ emitDeny_emit]) (simp add: Confirm_def Let_def)
  next
    case tok: False
    show ?thesis
    proof (cases "normalizeIntent expected")
      case (Inl e)
      with gate tok show ?thesis by (intro that(1) [OF _ emitDeny_emit]) (simp add: Confirm_def Let_def)
    next
      case (Inr norm)
      have g: "\<not> Gate_Effective (mg_gate m)" using gate by (simp add: DenyMutation_None)
      obtain m1 res where c: "confirmLocked (trim_space tok) norm (intentHash norm) (effectiveBinding m ctxb) start ks m = (m1, res)"
        by fastforce
      show ?thesis
      proof (cases res)
        case (Inl rhe)
        obtain reason hash e where "rhe = (reason, hash, e)" using prod_cases3 by blast
        with gate tok Inr c Inl show ?thesis by (intro that(2) [OF Inr g]) (auto simp: Confirm_def Let_def)
      next
        case (Inr b)
        with gate tok \<open>normalizeIntent expected = Inr norm\<close> c show ?thesis
          by (intro that(3) [OF \<open>normalizeIntent expected = Inr norm\<close> g tok]) (auto simp: Confirm_def Let_def)
      qed
    qed
  qed
qed

lemma Preview_cases:
  obtains e m' where "Preview redact ctxb intent start fin rnd ks (Some m) = (Some m', Inl e)"
      "\<exists>ev. m' = emit ev m \<and> ev_Decision ev = DecisionDeny \<and> ev_Time ev = start"
  | norm m1 e m' where "normalizeIntent intent = Inr norm" "\<not> Gate_Effective (mg_gate m)" "reservePreview start m = (m1, Some e)"
      "Preview redact ctxb intent start fin rnd ks (Some m) = (Some m', Inl e)"
      "\<exists>ev. m' = emit ev m1 \<and> ev_Decision ev = DecisionDeny \<and> ev_Time ev = start"
  | norm m1 e m' where "normalizeIntent intent = Inr norm" "\<not> Gate_Effective (mg_gate m)" "reservePreview start m = (m1, None)"
      "Preview redact ctxb intent start fin rnd ks (Some m) = (Some m', Inl e)"
      "\<exists>ev. m' = emit ev m1 \<and> ev_Decision ev = DecisionDeny \<and> ev_Time ev = start"
  | norm m1 m2 tok exp pr where "normalizeIntent intent = Inr norm" "\<not> Gate_Effective (mg_gate m)"
      "reservePreview start m = (m1, None)"
      "issueToken norm (intentHash norm) start (effectiveBinding m ctxb) rnd ks m1 = (m2, Inr (tok, exp))"
      "Preview redact ctxb intent start fin rnd ks (Some m) =
         (Some (emit (event (effectiveBinding m ctxb) start TypePreview (toolOf intent) (it_Action norm) DecisionAllow
            ReasonPreviewOK (intentHash norm) [] (fin - start)) m2), Inr pr)"
      "pr_ConfirmationToken pr = tok" "pr_ExpiresAt pr = exp" "pr_TargetHash pr = intentHash norm"
      "pr_Parameters pr = redact (it_Parameters norm)"
proof (cases "DenyMutation (mg_gate m) (toolOf intent)")
  case (Some e)
  then show ?thesis by (intro that(1) [OF _ emitDeny_emit]) (simp add: Preview_def Let_def)
next
  case None
  note gate = None
  have g: "\<not> Gate_Effective (mg_gate m)" using gate by (simp add: DenyMutation_None)
  show ?thesis
  proof (cases "normalizeIntent intent")
    case (Inl e)
    with gate show ?thesis by (intro that(1) [OF _ emitDeny_emit]) (simp add: Preview_def Let_def)
  next
    case norm: (Inr norm)
    obtain m1 r where r: "reservePreview start m = (m1, r)" by fastforce
    have bind: "effectiveBinding m1 ctxb = effectiveBinding m ctxb"
      using r by (auto simp: effectiveBinding_def reservePreview_def Let_def split: option.splits if_splits)
    show ?thesis
    proof (cases r)
      case (Some e)
      with gate norm r show ?thesis
        by (intro that(2) [OF norm g _ _ emitDeny_emit]) (simp_all add: Preview_def Let_def)
    next
      case None
      obtain m2 res where i: "issueToken norm (intentHash norm) start (effectiveBinding m ctxb) rnd ks m1 = (m2, res)"
        by fastforce
      show ?thesis
      proof (cases res)
        case (Inl e)
        with i issueToken_failed have "m2 = m1" by blast
        with gate norm r None i Inl bind show ?thesis
          by (intro that(3) [OF norm g _ _ emitDeny_emit]) (simp_all add: Preview_def Let_def)
      next
        case (Inr te)
        obtain tok exp where te: "te = (tok, exp)" by fastforce
        have "\<exists>pr. Preview redact ctxb intent start fin rnd ks (Some m) =
             (Some (emit (event (effectiveBinding m ctxb) start TypePreview (toolOf intent) (it_Action norm) DecisionAllow
                ReasonPreviewOK (intentHash norm) [] (fin - start)) m2), Inr pr) \<and>
            pr_ConfirmationToken pr = tok \<and> pr_ExpiresAt pr = exp \<and> pr_TargetHash pr = intentHash norm \<and>
            pr_Parameters pr = redact (it_Parameters norm)"
          using gate norm r None i Inr te bind by (simp add: Preview_def Let_def)
        then show ?thesis using that(4) [OF norm g r [unfolded None] i [unfolded Inr te]] by blast
      qed
    qed
  qed
qed

section \<open>A live token survives what others do\<close>

definition before :: "int \<Rightarrow> Section \<Rightarrow> bool" where
  "before exp c = (case section_clock c of None \<Rightarrow> True | Some now \<Rightarrow> now < exp)"

lemma run_section_keeps:
  assumes run: "run_section c m = (m', out)" and r: "mg_tokens m tok = Some r" "\<not> tr_used r"
    and clock: "before (tr_expiresAt r) c" and none: "issues tok out = 0" "confirms tok out = 0"
  shows "mg_tokens m' tok = Some r"
proof (cases c)
  case (SReserve now)
  with run r reservePreview_frame show ?thesis by (auto split: prod.splits)
next
  case (SIssue norm hash now bind rnd ks)
  have "purgeExpired ks now (mg_tokens m) tok = Some r"
    using r clock SIssue by (intro purgeExpired_live) (auto simp: before_def)
  with SIssue run r none show ?thesis
    by (auto split: prod.splits sum.splits if_splits dest!: issueToken_failed elim!: issueToken_ok)
next
  case (SConfirm tok' norm hash bind start ks)
  with run r none clock show ?thesis
    by (auto simp: before_def split: prod.splits sum.splits if_splits dest!: confirmLocked_denied elim!: confirmLocked_ok)
next
  case (SEmit e)
  with run r show ?thesis by auto
qed

lemma run_section_config:
  assumes "run_section c m = (m', out)"
  shows "mg_gate m' = mg_gate m \<and> mg_defaultBinding m' = mg_defaultBinding m \<and> mg_confirmCooldown m' = mg_confirmCooldown m"
proof (cases c)
  case (SReserve now)
  with assms show ?thesis by (auto simp: reservePreview_def Let_def split: prod.splits if_splits)
next
  case (SIssue norm hash now bind rnd ks)
  with assms show ?thesis by (auto simp: issueToken_def Let_def split: option.splits)
next
  case (SConfirm tok norm hash bind start ks)
  with assms show ?thesis by (auto simp: confirmLocked_def Let_def split: option.splits if_splits)
next
  case (SEmit e)
  with assms show ?thesis by auto
qed

lemma run_sections_config:
  "run_sections cs m = (m', out) \<Longrightarrow>
     mg_gate m' = mg_gate m \<and> mg_defaultBinding m' = mg_defaultBinding m \<and> mg_confirmCooldown m' = mg_confirmCooldown m"
  by (induction cs arbitrary: m m' out) (auto split: prod.splits dest!: run_section_config)

lemma run_sections_keep:
  "run_sections cs m = (m', out) \<Longrightarrow> mg_tokens m tok = Some r \<Longrightarrow> \<not> tr_used r \<Longrightarrow>
     list_all (before (tr_expiresAt r)) cs \<Longrightarrow> issues tok out = 0 \<Longrightarrow> confirms tok out = 0 \<Longrightarrow> mg_tokens m' tok = Some r"
proof (induction cs arbitrary: m m' out)
  case (Cons c cs)
  obtain m1 os1 where c: "run_section c m = (m1, os1)" by fastforce
  obtain m2 os2 where cs: "run_sections cs m1 = (m2, os2)" by fastforce
  have out: "m' = m2" "out = os2 @ os1" using Cons.prems(1) c cs by auto
  have "mg_tokens m1 tok = Some r"
    by (rule run_section_keeps [OF c Cons.prems(2,3)]) (use Cons.prems out in auto)
  with cs Cons.prems out show ?case by (intro Cons.IH [of m1 m' os2]) auto
qed simp

lemma hex_encode_trim [simp]: "trim_space (hex_encode raw) = hex_encode raw"
proof (rule trim_space_graphic)
  fix c assume "c \<in> set (hex_encode raw)"
  then show "32 < (of_char c :: nat) \<and> (of_char c :: nat) < 128"
    using hex_encode_is_hex by (fastforce simp: is_hex_char_def Let_def)
qed

lemma reservePreview_config:
  "reservePreview now m = (m', e) \<Longrightarrow> mg_gate m' = mg_gate m \<and> mg_defaultBinding m' = mg_defaultBinding m"
  by (auto simp: reservePreview_def Let_def split: if_splits)

lemma issueToken_config:
  "issueToken norm hash now bind rnd ks m = (m', res) \<Longrightarrow> mg_gate m' = mg_gate m \<and> mg_defaultBinding m' = mg_defaultBinding m"
  by (auto simp: issueToken_def Let_def split: option.splits)

section \<open>Runs\<close>

lemma reach_sections:
  "run_sections cs m = (m', out) \<Longrightarrow> reach (fresh lv cfg) msec (m, h) \<Longrightarrow> reach (fresh lv cfg) msec (m', out @ h)"
proof (induction cs arbitrary: m m' out h)
  case (Cons c cs)
  obtain m1 os1 where c: "run_section c m = (m1, os1)" by fastforce
  obtain m2 os2 where cs: "run_sections cs m1 = (m2, os2)" by fastforce
  have "reach (fresh lv cfg) msec (m1, os1 @ h)" using Cons.prems(2) msec [OF c] by (rule reach_step)
  with Cons.IH [OF cs this] Cons.prems(1) c cs show ?case by auto
qed simp

fun clocks_from :: "int \<Rightarrow> Section list \<Rightarrow> bool" where
  "clocks_from clock [] = True"
| "clocks_from clock (c # cs) =
     (let now = (case section_clock c of None \<Rightarrow> clock | Some t \<Rightarrow> t) in clock \<le> now \<and> clocks_from now cs)"

lemma treach_sections:
  "run_sections cs m = (m', out) \<Longrightarrow> clocks_from clock cs \<Longrightarrow> reach (started lv cfg) tsec ((m, h), clock) \<Longrightarrow>
     \<exists>now. reach (started lv cfg) tsec ((m', out @ h), now)"
proof (induction cs arbitrary: m m' out h clock)
  case (Cons c cs)
  obtain m1 os1 where c: "run_section c m = (m1, os1)" by fastforce
  obtain m2 os2 where cs: "run_sections cs m1 = (m2, os2)" by fastforce
  define now where "now = (case section_clock c of None \<Rightarrow> clock | Some t \<Rightarrow> t)"
  have now: "clock \<le> now" "clocks_from now cs" using Cons.prems(2) by (auto simp: now_def Let_def)
  have "reach (started lv cfg) tsec ((m1, os1 @ h), now)"
    using Cons.prems(3) tsec [OF c now_def now(1)] by (rule reach_step)
  from Cons.IH [OF cs now(2) this] Cons.prems(1) c cs show ?case by auto
qed auto

text \<open>A run for the witnesses: two previews and confirmations of one target, ten seconds apart.\<close>

definition exampleLive :: LiveConfig where
  "exampleLive = \<lparr> lv_TokenTTL = 0, lv_MaxPreviews = 0, lv_ConfirmCooldown = 0 \<rparr>"

definition exampleConfig :: Config where
  "exampleConfig = \<lparr> cf_Gate = NewReadOnlyGate \<lparr> in_FlagReadOnly = False, in_EnvReadOnly = False,
     in_ProfileReadOnly = Some False, in_Force = None, in_AllowMutations = True, in_SkipBuiltinDefault = False \<rparr>, cf_HasAudit = True,
     cf_ProfileID = ''prod'', cf_PrincipalID = ''alice'', cf_ExternalSubject = [], cf_Tenant = [], cf_TTL = 0,
     cf_MaxPreviewsPerMinute = 0, cf_ConfirmCooldown = 0 \<rparr>"

definition exampleBinding :: Binding where
  "exampleBinding = \<lparr> bi_ProfileID = ''prod'', bi_PrincipalID = ''alice'', bi_ExternalSubject = [], bi_Tenant = [] \<rparr>"

definition exampleSections :: "Section list" where
  "exampleSections = [SReserve 0, SIssue exampleNormal ''h'' 0 exampleBinding (Some [CHR 0x01]) [],
     SConfirm ''01'' exampleNormal ''h'' exampleBinding second [],
     SReserve (10 * second), SIssue exampleNormal ''h'' (10 * second) exampleBinding (Some [CHR 0x02]) [''01''],
     SConfirm ''02'' exampleNormal ''h'' exampleBinding (11 * second) []]"

definition exampleRun :: "Manager \<times> Outcome list" where
  "exampleRun = run_sections exampleSections (NewManager exampleLive exampleConfig)"

lemma exampleRun:
  "confirmations (snd exampleRun) =
     [(cooldownKey exampleBinding ActionStartJob ''h'', 11 * second), (cooldownKey exampleBinding ActionStartJob ''h'', second)]"
  "reservations (snd exampleRun) = [10 * second, 0]"
  "list_ex (\<lambda>e. confirmed_token e = Some ''02'') (snd exampleRun)"
  "clocks_from 0 exampleSections" "confirms ''01'' (snd exampleRun) = 1"
  by code_simp+

lemma exampleRun_config:
  "mg_maxPreviewsPerMin (fst exampleRun) = 30" "mg_confirmCooldown (fst exampleRun) = 5 * second"
  by code_simp+

lemma exampleRun_reach: "reach (fresh exampleLive exampleConfig) msec exampleRun"
proof -
  have "reach (fresh exampleLive exampleConfig) msec (NewManager exampleLive exampleConfig, [])"
    by (rule reach_init) (simp add: fresh_def)
  from reach_sections [OF _ this, of exampleSections "fst exampleRun" "snd exampleRun"]
  show ?thesis by (simp add: exampleRun_def)
qed

lemma exampleRun_treach: "\<exists>now. reach (started exampleLive exampleConfig) tsec ((fst exampleRun, snd exampleRun), now)"
proof -
  have "reach (started exampleLive exampleConfig) tsec ((NewManager exampleLive exampleConfig, []), 0)"
    by (rule reach_init) (simp add: fresh_def started_def)
  from treach_sections [OF _ exampleRun(4) this, of "fst exampleRun" "snd exampleRun"]
  show ?thesis by (simp add: exampleRun_def)
qed

section \<open>Properties of all interleavings\<close>

text \<open>C1: a confirmation token is single-use: in every interleaving of critical sections, from a fresh
  manager and whatever the tokens, clocks and purge orders, a token has been confirmed at most as
  often as it was issued, and strictly less often while it can still be presented.\<close>

theorem token_single_use:
  assumes "reach (fresh lv cfg) msec (m, h)"
  shows "confirms tok h \<le> issues tok h \<and> (mg_tokens m tok = None \<or> confirms tok h < issues tok h)"
  using uses.inv_reach [OF assms, of tok] by (auto simp: single_use_def live_def split: if_splits)

lemma token_single_use_witness:
  "confirms ''01'' (snd exampleRun) = 1 \<and> confirms ''01'' (snd exampleRun) \<le> issues ''01'' (snd exampleRun)"
  using token_single_use [of exampleLive exampleConfig "fst exampleRun" "snd exampleRun" "''01''"]
    exampleRun_reach exampleRun(5) by simp

text \<open>C4: what is executed is what was previewed: in every interleaving a confirmed intent is the
  intent a preview issued that token for, to the same binding, with the same target hash, and the
  confirmation happened within the token's lifetime.\<close>

theorem confirmed_was_previewed:
  assumes "reach (fresh lv cfg) msec (m, h)" and "Confirmed tok b bind key start \<in> set h"
  shows "\<exists>norm now. Issued tok norm bind (bo_TargetHash b) now \<in> set h \<and>
    bo_Intent b = norm\<lparr> it_CurrentState := [] \<rparr> \<and> start < now + mg_ttl m"
  using prov.inv_reach [OF assms(1)] assms(2) by (auto simp: provenance_def issued_as_def)

lemma confirmed_was_previewed_witness:
  "\<exists>b bind key start norm now. Confirmed ''02'' b bind key start \<in> set (snd exampleRun) \<and>
     Issued ''02'' norm bind (bo_TargetHash b) now \<in> set (snd exampleRun) \<and> bo_Intent b = norm\<lparr> it_CurrentState := [] \<rparr>"
proof -
  from exampleRun(3) obtain e where e: "e \<in> set (snd exampleRun)" "confirmed_token e = Some ''02''"
    by (auto simp: list_ex_iff)
  from e(2) obtain b bind key start where "e = Confirmed ''02'' b bind key start" by (cases e) auto
  with e(1) have c: "Confirmed ''02'' b bind key start \<in> set (snd exampleRun)" by simp
  have "reach (fresh exampleLive exampleConfig) msec (fst exampleRun, snd exampleRun)" using exampleRun_reach by simp
  from confirmed_was_previewed [OF this c] c show ?thesis by blast
qed

text \<open>C24: confirmations of one target by one binding are spaced, as long as the sections take the lock in
  the order in which they read the clock (\<open>tsec\<close>; the code reads it just before it takes the lock, so a
  call delayed in between is outside this statement): then two confirmations with the same cooldown key
  are at least the cooldown apart, although expired cooldowns are purged in any order.\<close>

theorem confirmations_spaced:
  assumes "reach (started lv cfg) tsec ((m, h), clock)"
    and "i < j" and "j < length (confirmations h)" and "fst (confirmations h ! i) = fst (confirmations h ! j)"
  shows "snd (confirmations h ! j) + mg_confirmCooldown m \<le> snd (confirmations h ! i)"
proof -
  have "spaced (mg_confirmCooldown m) (confirmations h)"
    using cooldown.inv_reach [OF assms(1)] by (simp add: cooldown_inv_def)
  from this [unfolded spaced_def, THEN sorted_wrt_nth_less, OF assms(2,3)] assms(4)
  show ?thesis by (simp add: split_beta)
qed

lemma confirmations_spaced_witness:
  "\<exists>now. reach (started exampleLive exampleConfig) tsec ((fst exampleRun, snd exampleRun), now) \<and>
     length (confirmations (snd exampleRun)) = 2 \<and>
     fst (confirmations (snd exampleRun) ! 0) = fst (confirmations (snd exampleRun) ! 1) \<and>
     snd (confirmations (snd exampleRun) ! 1) + mg_confirmCooldown (fst exampleRun) \<le> snd (confirmations (snd exampleRun) ! 0)"
proof -
  obtain now where r: "reach (started exampleLive exampleConfig) tsec ((fst exampleRun, snd exampleRun), now)"
    using exampleRun_treach by blast
  have c: "length (confirmations (snd exampleRun)) = 2"
    "fst (confirmations (snd exampleRun) ! 0) = fst (confirmations (snd exampleRun) ! 1)"
    unfolding exampleRun(1) by simp_all
  from confirmations_spaced [OF r, of 0 1] c r show ?thesis by auto
qed

text \<open>C25: the preview rate holds over every window, not only calendar minutes: as long as the sections take
  the lock in the order in which they read the clock, any sixty seconds hold at most the configured
  number of reserved previews.\<close>

theorem preview_rate_bound:
  assumes "reach (started lv cfg) tsec ((m, h), clock)" and "0 \<le> mg_maxPreviewsPerMin m"
  shows "int (length (filter (\<lambda>t. a < t \<and> t \<le> a + minute) (reservations h))) \<le> mg_maxPreviewsPerMin m"
  using rate.inv_reach [OF assms(1)] assms(2) by (auto simp: rate_inv_def)

lemma preview_rate_bound_witness:
  "int (length (filter (\<lambda>t. - 1 < t \<and> t \<le> - 1 + minute) (reservations (snd exampleRun)))) \<le> 30"
proof -
  obtain now where "reach (started exampleLive exampleConfig) tsec ((fst exampleRun, snd exampleRun), now)"
    using exampleRun_treach by blast
  from preview_rate_bound [OF this, of "- 1"] show ?thesis unfolding exampleRun_config by simp
qed

section \<open>An example manager for the witnesses\<close>

definition exampleManager :: Manager where
  "exampleManager = NewManager exampleLive exampleConfig"

definition exampleIssued :: Manager where
  "exampleIssued = fst (run_section (SIssue exampleNormal ''h'' 0 exampleBinding (Some [CHR 0x01]) []) exampleManager)"

lemma exampleManager: "\<not> Gate_Effective (mg_gate exampleManager)" "mg_hasAudit exampleManager" "mg_ttl exampleManager = 2 * minute"
  "mg_maxPreviewsPerMin exampleManager = 30"
  by code_simp+

lemma exampleIssued: "\<exists>r. mg_tokens exampleIssued ''01'' = Some r \<and> tr_expiresAt r = 2 * minute"
proof -
  have "(case mg_tokens exampleIssued ''01'' of None \<Rightarrow> False | Some r \<Rightarrow> tr_expiresAt r = 2 * minute)" by code_simp
  then show ?thesis by (auto split: option.splits)
qed

section \<open>Properties of single calls\<close>

lemma Confirm_sections:
  "\<exists>cs m' out. fst (Confirm ctxb tok expected start fin ks (Some m)) = Some m' \<and> run_sections cs m = (m', out) \<and>
     (case snd (Confirm ctxb tok expected start fin ks (Some m)) of
        Inl e \<Rightarrow> out = []
      | Inr b \<Rightarrow> \<exists>key. out = [Confirmed (trim_space tok) b (effectiveBinding m ctxb) key start])"
proof (cases rule: Confirm_cases [of ctxb tok expected start fin ks m])
  case (1 e m')
  then obtain ev where "m' = emit ev m" by blast
  with 1 show ?thesis by (intro exI [of _ "[SEmit ev]"]) simp
next
  case (2 norm reason hash e m1)
  then show ?thesis
    by (intro exI [of _ "[SConfirm (trim_space tok) norm (intentHash norm) (effectiveBinding m ctxb) start ks,
      SEmit (event (effectiveBinding m1 ctxb) start TypeDeny (toolOf expected) (it_Action norm) DecisionDeny reason hash [] (fin - start))]"])
      (simp add: emitDeny_def)
next
  case (3 norm b m1)
  then show ?thesis
    by (intro exI [of _ "[SConfirm (trim_space tok) norm (intentHash norm) (effectiveBinding m ctxb) start ks,
      SEmit (event (effectiveBinding m ctxb) start TypeConfirm (toolOf expected) (it_Action (bo_Intent b))
          DecisionAllow ReasonConfirmOK (bo_TargetHash b) (bo_RequestID b) (fin - start))]"]) simp
qed

lemma Preview_sections:
  "\<exists>cs m' out. fst (Preview redact ctxb intent start fin rnd ks (Some m)) = Some m' \<and> run_sections cs m = (m', out) \<and>
     (case snd (Preview redact ctxb intent start fin rnd ks (Some m)) of
        Inl e \<Rightarrow> list_all (\<lambda>e. issued_token e = None \<and> confirmed_token e = None) out
      | Inr pr \<Rightarrow> \<exists>norm. normalizeIntent intent = Inr norm \<and>
          out = [Issued (pr_ConfirmationToken pr) norm (effectiveBinding m ctxb) (pr_TargetHash pr) start, Reserved start])"
proof (cases rule: Preview_cases [of redact ctxb intent start fin rnd ks m])
  case (1 e m')
  then obtain ev where "m' = emit ev m" by blast
  with 1 show ?thesis by (intro exI [of _ "[SEmit ev]"]) simp
next
  case (2 norm m1 e m')
  then obtain ev where "m' = emit ev m1" by blast
  with 2 show ?thesis by (intro exI [of _ "[SReserve start, SEmit ev]"]) simp
next
  case (3 norm m1 e m')
  then obtain ev where "m' = emit ev m1" by blast
  with 3 show ?thesis by (intro exI [of _ "[SReserve start, SEmit ev]"]) simp
next
  case (4 norm m1 m2 tok exp pr)
  then show ?thesis
    by (intro exI [of _ "[SReserve start, SIssue norm (intentHash norm) start (effectiveBinding m ctxb) rnd ks,
      SEmit (event (effectiveBinding m ctxb) start TypePreview (toolOf intent) (it_Action norm) DecisionAllow
          ReasonPreviewOK (intentHash norm) [] (fin - start))]"]) simp
qed

text \<open>C23: the calls are their critical sections: what \<open>Confirm\<close> and \<open>Preview\<close> do to a manager is a
  sequence of the sections the interleavings are made of, a confirmation is recorded exactly when
  \<open>Confirm\<close> returns an intent, and a token issued exactly when \<open>Preview\<close> returns a result.\<close>

theorem calls_are_sections:
  "(\<exists>cs m' out. fst (Confirm ctxb tok expected start fin ks (Some m)) = Some m' \<and> run_sections cs m = (m', out) \<and>
     (case snd (Confirm ctxb tok expected start fin ks (Some m)) of
        Inl e \<Rightarrow> out = []
      | Inr b \<Rightarrow> \<exists>key. out = [Confirmed (trim_space tok) b (effectiveBinding m ctxb) key start])) \<and>
   (\<exists>cs m' out. fst (Preview redact ctxb intent start fin rnd ks (Some m)) = Some m' \<and> run_sections cs m = (m', out) \<and>
     (case snd (Preview redact ctxb intent start fin rnd ks (Some m)) of
        Inl e \<Rightarrow> list_all (\<lambda>e. issued_token e = None \<and> confirmed_token e = None) out
      | Inr pr \<Rightarrow> \<exists>norm. normalizeIntent intent = Inr norm \<and>
          out = [Issued (pr_ConfirmationToken pr) norm (effectiveBinding m ctxb) (pr_TargetHash pr) start, Reserved start]))"
  using Confirm_sections Preview_sections by (rule conjI)

lemma Confirm_succeeds:
  assumes "\<not> Gate_Effective (mg_gate m)" and "trim_space tok \<noteq> []" and "normalizeIntent expected = Inr norm"
    and "mg_tokens m (trim_space tok) = Some r"
    and "confirmable m r norm (intentHash norm) (effectiveBinding m ctxb) start"
  shows "\<exists>mo. Confirm ctxb tok expected start fin ks (Some m) = (mo, Inr (boundOf r))"
proof -
  have "\<exists>m1. confirmLocked (trim_space tok) norm (intentHash norm) (effectiveBinding m ctxb) start ks m = (m1, Inr (boundOf r))"
    using confirmLocked_ok_iff assms(4,5) by blast
  moreover have "DenyMutation (mg_gate m) (toolOf expected) = None" using assms(1) by (simp add: DenyMutation_None)
  ultimately show ?thesis using assms(2,3) by (auto simp: Confirm_def Let_def)
qed

text \<open>C15: \<open>Confirm\<close> succeeds exactly when the gate allows mutations, the expected intent normalises,
  and the trimmed token names a live unused record for the same subject binding, action and target
  hash with no cooldown running; it then returns the recorded intent.\<close>

theorem Confirm_succeeds_iff:
  "(\<exists>mo. Confirm ctxb tok expected start fin ks (Some m) = (mo, Inr b)) \<longleftrightarrow>
     \<not> Gate_Effective (mg_gate m) \<and> trim_space tok \<noteq> [] \<and>
     (\<exists>norm r. normalizeIntent expected = Inr norm \<and> mg_tokens m (trim_space tok) = Some r \<and>
        confirmable m r norm (intentHash norm) (effectiveBinding m ctxb) start \<and> b = boundOf r)"
  (is "?l \<longleftrightarrow> ?r")
proof
  assume ?l
  then show ?r
  proof (cases rule: Confirm_cases [of ctxb tok expected start fin ks m])
    case (3 norm b' m1)
    with \<open>?l\<close> have "b' = b" by auto
    with 3 confirmLocked_ok_iff show ?thesis by blast
  qed auto
next
  assume ?r
  then show ?l using Confirm_succeeds by blast
qed

text \<open>C32: a denied confirmation costs nothing: it leaves every live token, every cooldown and the
  preview window as they were, so the caller may present the token again.\<close>

theorem denied_confirm_keeps_tokens:
  assumes "Confirm ctxb tok expected start fin ks (Some m) = (Some m', Inl e)"
    and "mg_tokens m k = Some r" and "start < tr_expiresAt r"
  shows "mg_tokens m' k = Some r \<and> mg_cooldowns m' = mg_cooldowns m \<and> mg_previewTimes m' = mg_previewTimes m"
  using assms
proof (cases rule: Confirm_cases [of ctxb tok expected start fin ks m])
  case (1 e' m'')
  with assms show ?thesis by auto
next
  case (2 norm reason hash e' m1)
  then show ?thesis using assms confirmLocked_denied [OF 2(3)] by (auto simp: emitDeny_def)
qed auto

lemma denied_confirm_keeps_tokens_witness:
  "\<exists>m' e r. Confirm None '' '' exampleNormal 1 1 [] (Some exampleIssued) = (Some m', Inl e) \<and> mg_tokens m' ''01'' = Some r"
proof -
  obtain r where r: "mg_tokens exampleIssued ''01'' = Some r" "tr_expiresAt r = 2 * minute" using exampleIssued by blast
  have "isl (snd (Confirm None '' '' exampleNormal 1 1 [] (Some exampleIssued)))" by code_simp
  then obtain m' e where c: "Confirm None '' '' exampleNormal 1 1 [] (Some exampleIssued) = (Some m', Inl e)"
    by (cases rule: Confirm_cases [of None "'' ''" exampleNormal 1 1 "[]" exampleIssued]) auto
  have "1 < tr_expiresAt r" unfolding r(2) by (simp add: minute_def second_def)
  from denied_confirm_keeps_tokens [OF c r(1) this] c show ?thesis by blast
qed

text \<open>C26: effective read-only stops both halves of the gate before they touch its state: \<open>Preview\<close>
  issues no token and consumes no preview, \<open>Confirm\<close> consumes no token.\<close>

theorem read_only_freezes_gate:
  assumes "Gate_Effective (mg_gate m)"
  shows "\<exists>m1 e1 m2 e2. Preview redact ctxb intent start fin rnd ks (Some m) = (Some m1, Inl e1) \<and>
    Confirm ctxb tok expected start fin ks (Some m) = (Some m2, Inl e2) \<and>
    err_code e1 = CodePolicyDenial \<and> err_code e2 = CodePolicyDenial \<and>
    list_all (\<lambda>m'. mg_tokens m' = mg_tokens m \<and> mg_cooldowns m' = mg_cooldowns m \<and>
      mg_previewTimes m' = mg_previewTimes m) [m1, m2]"
proof -
  obtain e1 e2 where e: "DenyMutation (mg_gate m) (toolOf intent) = Some e1"
    "DenyMutation (mg_gate m) (toolOf expected) = Some e2"
    using assms DenyMutation_None by (metis not_None_eq)
  then show ?thesis by (simp add: Preview_def Confirm_def Let_def emitDeny_def DenyMutation_code)
qed

lemma read_only_freezes_gate_witness:
  "\<exists>m' e. Confirm None ''01'' exampleNormal 1 1 [] (Some (exampleIssued\<lparr> mg_gate := NewDefaultReadOnlyGate \<rparr>)) = (Some m', Inl e) \<and>
     err_code e = CodePolicyDenial"
proof -
  have "Gate_Effective (mg_gate (exampleIssued\<lparr> mg_gate := NewDefaultReadOnlyGate \<rparr>))" by code_simp
  from read_only_freezes_gate [OF this] show ?thesis by blast
qed

lemma logged_emit: "mg_hasAudit m \<Longrightarrow> mg_log (emit e m) = mg_log m @ [e]"
  by (simp add: emit_def)

lemma deny_not_allow: "DecisionDeny \<noteq> DecisionAllow"
  by (simp add: DecisionDeny_def DecisionAllow_def)

lemma reservePreview_log: "reservePreview now m = (m', e) \<Longrightarrow> mg_log m' = mg_log m \<and> mg_hasAudit m' = mg_hasAudit m"
  by (auto simp: reservePreview_def Let_def split: if_splits)

lemma confirmLocked_log:
  "confirmLocked tok norm hash bind start ks m = (m', res) \<Longrightarrow> mg_log m' = mg_log m \<and> mg_hasAudit m' = mg_hasAudit m"
  by (auto simp: confirmLocked_def Let_def split: option.splits if_splits)

text \<open>C27: every call leaves exactly one audit event, stamped with the time the call started, and the
  event says allow exactly when the call succeeded.\<close>

theorem every_call_is_audited:
  assumes "mg_hasAudit m"
  shows "(\<exists>m1 ev1. fst (Preview redact ctxb intent start fin rnd ks (Some m)) = Some m1 \<and> mg_log m1 = mg_log m @ [ev1] \<and>
      ev_Time ev1 = start \<and>
      (ev_Decision ev1 = DecisionAllow \<longleftrightarrow> \<not> isl (snd (Preview redact ctxb intent start fin rnd ks (Some m))))) \<and>
    (\<exists>m2 ev2. fst (Confirm ctxb tok expected start fin ks (Some m)) = Some m2 \<and> mg_log m2 = mg_log m @ [ev2] \<and>
      ev_Time ev2 = start \<and>
      (ev_Decision ev2 = DecisionAllow \<longleftrightarrow> \<not> isl (snd (Confirm ctxb tok expected start fin ks (Some m)))))"
  (is "?p \<and> ?c")
proof
  show ?p
  proof (cases rule: Preview_cases [of redact ctxb intent start fin rnd ks m])
    case (1 e m')
    with assms show ?thesis by (auto simp: logged_emit deny_not_allow)
  next
    case (2 norm m1 e m')
    with assms reservePreview_log [OF 2(3)] show ?thesis by (auto simp: logged_emit deny_not_allow)
  next
    case (3 norm m1 e m')
    with assms reservePreview_log [OF 3(3)] show ?thesis by (auto simp: logged_emit deny_not_allow)
  next
    case (4 norm m1 m2 tok' exp pr)
    with assms reservePreview_log [OF 4(3)] show ?thesis
      by (auto simp: logged_emit event_def elim!: issueToken_ok)
  qed
  show ?c
  proof (cases rule: Confirm_cases [of ctxb tok expected start fin ks m])
    case (1 e m')
    with assms show ?thesis by (auto simp: logged_emit deny_not_allow)
  next
    case (2 norm reason hash e m1)
    with assms confirmLocked_log [OF 2(3)] show ?thesis
      by (auto simp: logged_emit emitDeny_def event_def deny_not_allow)
  next
    case (3 norm b m1)
    with assms confirmLocked_log [OF 3(4)] show ?thesis by (auto simp: logged_emit event_def)
  qed
qed

lemma every_call_is_audited_witness:
  "\<exists>m' ev. fst (Confirm None ''01'' exampleNormal 1 1 [] (Some exampleManager)) = Some m' \<and>
     mg_log m' = mg_log exampleManager @ [ev] \<and> ev_Time ev = 1"
  using every_call_is_audited [OF exampleManager(2)] by blast

text \<open>C5: a previewed mutation can be confirmed. Let other calls run any sections after a successful preview
  that read their clocks before the token expires and neither issue nor confirm this very token. Then a
  confirmation of an intent with the same normal form, by the same binding, before the expiry and while
  no cooldown runs for this binding, action and target (a confirmation of the same target by another
  token would start one) succeeds and returns the previewed intent.\<close>

theorem previewed_can_be_confirmed:
  assumes p: "Preview redact ctxb intent t fin rnd ks (Some m) = (Some m1, Inr pr)" "pr_ConfirmationToken pr \<noteq> []"
    and others: "run_sections cs m1 = (m2, out)" "list_all (before (pr_ExpiresAt pr)) cs"
      "issues (pr_ConfirmationToken pr) out = 0" "confirms (pr_ConfirmationToken pr) out = 0"
    and same: "normalizeIntent intent = Inr norm" "normalizeIntent expected = Inr norm"
    and start: "start < pr_ExpiresAt pr"
    and quiet: "case mg_cooldowns m2 (cooldownKey (effectiveBinding m ctxb) (it_Action norm) (pr_TargetHash pr)) of
      None \<Rightarrow> True | Some until \<Rightarrow> until \<le> start"
  shows "\<exists>m3 b. Confirm ctxb (pr_ConfirmationToken pr) expected start fin' ks' (Some m2) = (Some m3, Inr b) \<and>
    bo_Intent b = norm\<lparr> it_CurrentState := [] \<rparr> \<and> bo_TargetHash b = pr_TargetHash pr"
  using p(1)
proof (cases rule: Preview_cases [of redact ctxb intent t fin rnd ks m])
  case (4 norm' m0 m0' tok exp pr')
  define bind where "bind = effectiveBinding m ctxb"
  have n: "norm' = norm" using 4(1) same(1) by simp
  have pr: "pr' = pr" "pr_ConfirmationToken pr = tok" "pr_ExpiresAt pr = exp" "pr_TargetHash pr = intentHash norm"
    using 4 p n by auto
  from 4(4) obtain raw r where tok: "tok = hex_encode raw" and m0': "mg_tokens m0' tok = Some r"
    and r: "tr_binding r = bind" "tr_targetHash r = intentHash norm" "tr_expiresAt r = exp" "\<not> tr_used r"
      "tr_action r = it_Action norm" "bo_Intent (boundOf r) = norm\<lparr> it_CurrentState := [] \<rparr>"
    unfolding n bind_def by (rule issueToken_ok) auto
  have m1: "mg_tokens m1 tok = Some r" using 4(5) p(1) m0' by auto
  have m2: "mg_tokens m2 tok = Some r"
    by (rule run_sections_keep [OF others(1) m1 r(4)]) (use others pr r in auto)
  have m1_config: "mg_gate m1 = mg_gate m \<and> mg_defaultBinding m1 = mg_defaultBinding m"
    using 4(5) p(1) issueToken_config [OF 4(4)] reservePreview_config [OF 4(3)] by auto
  then have "effectiveBinding m2 ctxb = bind" and gate: "\<not> Gate_Effective (mg_gate m2)"
    using run_sections_config [OF others(1)] 4(2) by (auto simp: effectiveBinding_def bind_def split: option.splits)
  moreover have "confirmable m2 r norm (intentHash norm) bind start"
    using r start quiet pr by (auto simp: confirmable_def Binding_Equal_iff bind_def split: option.splits)
  ultimately obtain mo where c: "Confirm ctxb tok expected start fin' ks' (Some m2) = (mo, Inr (boundOf r))"
    using Confirm_succeeds [of m2 tok expected norm r ctxb start fin' ks'] same(2) m2 p(2) pr tok by auto
  moreover obtain m3 where "mo = Some m3" using Confirm_sections [of ctxb tok expected start fin' ks' m2] c by auto
  ultimately show ?thesis using pr r by (auto simp: boundOf_def)
qed (use p in auto)

lemma examplePreview:
  "\<exists>m1 pr. Preview id None exampleIntent 0 0 (Some [CHR 0x01]) [] (Some exampleManager) = (Some m1, Inr pr) \<and>
     pr_ConfirmationToken pr = ''01'' \<and> pr_ExpiresAt pr = 2 * minute \<and> mg_cooldowns m1 = Map.empty"
proof -
  have r: "reservePreview 0 exampleManager = (exampleManager\<lparr> mg_previewTimes := [0] \<rparr>, None)"
    unfolding reservePreview_def exampleManager(4) by (simp add: exampleManager_def fresh_manager)
  have "hex_encode [CHR 0x01] = ''01''" by code_simp
  moreover have "DenyMutation (mg_gate exampleManager) tool = None" for tool by (simp add: DenyMutation_None exampleManager(1))
  moreover have "mg_cooldowns exampleManager = Map.empty" by (simp add: exampleManager_def fresh_manager)
  ultimately show ?thesis
    by (simp add: Preview_def Let_def exampleNormal(1) r issueToken_def exampleManager(3))
qed

lemma previewed_can_be_confirmed_witness:
  "\<exists>m1 pr m3 b. Preview id None exampleIntent 0 0 (Some [CHR 0x01]) [] (Some exampleManager) = (Some m1, Inr pr) \<and>
     Confirm None (pr_ConfirmationToken pr) exampleNormal second second [] (Some m1) = (Some m3, Inr b) \<and>
     bo_Intent b = exampleNormal\<lparr> it_CurrentState := [] \<rparr>"
proof -
  obtain m1 pr where p: "Preview id None exampleIntent 0 0 (Some [CHR 0x01]) [] (Some exampleManager) = (Some m1, Inr pr)"
    "pr_ConfirmationToken pr = ''01''" "pr_ExpiresAt pr = 2 * minute" "mg_cooldowns m1 = Map.empty"
    using examplePreview by blast
  have "second < pr_ExpiresAt pr" unfolding p(3) by (simp add: minute_def second_def)
  from previewed_can_be_confirmed [OF p(1) _ _ _ _ _ exampleNormal this, of "[]" m1 "[]" second "[]"] p
  show ?thesis by auto
qed

end
