(* ===== verification/Limits.thy ===== *)
theory Limits
  imports Resilience MutationGate
begin

text \<open>
  The operator limits read from flags and environment when the server starts
  (\<open>internal/jenkins/resolve_*.go\<close>, \<open>internal/mutation/resolve_*.go\<close>) and the process-wide values the
  mutation manager is built from. A function returns the resolved number or duration, or the error
  the server stops with. The live values are fields of \<open>LiveConfig\<close>; the setters return it updated.
\<close>

section \<open>Layers\<close>

abbreviation bad_arg :: "string \<Rightarrow> apperr + 'a" where
  "bad_arg m \<equiv> Inl (newErr CodeInvalidArgument m)"

text \<open>The common shape: the default, then the environment, then the flag, each when it is not blank.\<close>

definition layer :: "(string \<Rightarrow> apperr + int) \<Rightarrow> string \<Rightarrow> int \<Rightarrow> apperr + int" where
  "layer parse v d = (let raw = trim_space v in if raw \<noteq> [] then parse raw else Inr d)"

definition layers :: "int \<Rightarrow> (string \<Rightarrow> apperr + int) \<Rightarrow> (string \<Rightarrow> apperr + int) \<Rightarrow> string \<Rightarrow> string \<Rightarrow> apperr + int" where
  "layers d parse_env parse_flag flagVal envVal =
     (case layer parse_env envVal d of Inl e \<Rightarrow> Inl e | Inr d1 \<Rightarrow> layer parse_flag flagVal d1)"

section \<open>Jenkins client\<close>

definition parseCircuitOpenDurationValue :: "string \<Rightarrow> string \<Rightarrow> apperr + int" where
  "parseCircuitOpenDurationValue raw source =
     (case ParseDuration raw of
        None \<Rightarrow> bad_arg (''invalid jenkins circuit open duration from '' @ source @ '' (use Go duration, e.g. 15s, 1m, or 0 for default): '' @ raw)
      | Some d \<Rightarrow>
        if d < 0 then bad_arg (''jenkins circuit open duration from '' @ source @ '' must not be negative'')
        else if d = 0 then Inr DefaultCircuitOpenDuration else Inr d)"

definition ResolveCircuitOpenDuration :: "string \<Rightarrow> string \<Rightarrow> apperr + int" where
  "ResolveCircuitOpenDuration flagVal envVal =
     (case layers DefaultCircuitOpenDuration (\<lambda>raw. parseCircuitOpenDurationValue raw ''env JENKINS_MCP_CIRCUIT_OPEN_DURATION'')
         (\<lambda>raw. parseCircuitOpenDurationValue raw ''flag --circuit-open-duration'') flagVal envVal of
        Inl e \<Rightarrow> Inl e
      | Inr d \<Rightarrow>
        if d < MinCircuitOpenDuration then
          bad_arg (''jenkins circuit open duration is below minimum '' @ Duration_String MinCircuitOpenDuration @ '' (got '' @ Duration_String d @ '')'')
        else if d > AbsoluteMaxCircuitOpenDuration then
          bad_arg (''jenkins circuit open duration exceeds absolute maximum bound ('' @ Duration_String AbsoluteMaxCircuitOpenDuration @ '')'')
        else Inr d)"

definition parseInitialBackoffValue :: "string \<Rightarrow> string \<Rightarrow> apperr + int" where
  "parseInitialBackoffValue raw source =
     (case ParseDuration raw of
        None \<Rightarrow> bad_arg (''invalid jenkins initial backoff from '' @ source @ '' (use Go duration, e.g. 100ms, 250ms, 1s, or 0 for default): '' @ raw)
      | Some d \<Rightarrow>
        if d < 0 then bad_arg (''jenkins initial backoff from '' @ source @ '' must not be negative'')
        else if d = 0 then Inr DefaultInitialBackoff else Inr d)"

definition ResolveInitialBackoff :: "string \<Rightarrow> string \<Rightarrow> apperr + int" where
  "ResolveInitialBackoff flagVal envVal =
     (case layers DefaultInitialBackoff (\<lambda>raw. parseInitialBackoffValue raw ''env JENKINS_MCP_INITIAL_BACKOFF'')
         (\<lambda>raw. parseInitialBackoffValue raw ''flag --initial-backoff'') flagVal envVal of
        Inl e \<Rightarrow> Inl e
      | Inr d \<Rightarrow>
        if d < MinInitialBackoff then
          bad_arg (''jenkins initial backoff is below minimum '' @ Duration_String MinInitialBackoff @ '' (got '' @ Duration_String d @ '')'')
        else if d > AbsoluteMaxInitialBackoff then
          bad_arg (''jenkins initial backoff exceeds absolute maximum bound ('' @ Duration_String AbsoluteMaxInitialBackoff @ '')'')
        else Inr d)"

definition parseMaxBackoffValue :: "string \<Rightarrow> string \<Rightarrow> apperr + int" where
  "parseMaxBackoffValue raw source =
     (case ParseDuration raw of
        None \<Rightarrow> bad_arg (''invalid jenkins max backoff from '' @ source @ '' (use Go duration, e.g. 5s, 30s, 1m, or 0 for default): '' @ raw)
      | Some d \<Rightarrow>
        if d < 0 then bad_arg (''jenkins max backoff from '' @ source @ '' must not be negative'')
        else if d = 0 then Inr DefaultMaxBackoff else Inr d)"

definition ResolveMaxBackoff :: "string \<Rightarrow> string \<Rightarrow> apperr + int" where
  "ResolveMaxBackoff flagVal envVal =
     (case layers DefaultMaxBackoff (\<lambda>raw. parseMaxBackoffValue raw ''env JENKINS_MCP_MAX_BACKOFF'')
         (\<lambda>raw. parseMaxBackoffValue raw ''flag --max-backoff'') flagVal envVal of
        Inl e \<Rightarrow> Inl e
      | Inr d \<Rightarrow>
        if d < MinMaxBackoff then
          bad_arg (''jenkins max backoff is below minimum '' @ Duration_String MinMaxBackoff @ '' (got '' @ Duration_String d @ '')'')
        else if d > AbsoluteMaxMaxBackoff then
          bad_arg (''jenkins max backoff exceeds absolute maximum bound ('' @ Duration_String AbsoluteMaxMaxBackoff @ '')'')
        else Inr d)"

definition EnsureMaxBackoffAtLeastInitial :: "int \<Rightarrow> int \<Rightarrow> apperr option" where
  "EnsureMaxBackoffAtLeastInitial initial maxb =
     (if maxb < initial then Some (newErr CodeInvalidArgument
        (''jenkins max backoff ('' @ Duration_String maxb @ '') must be >= initial backoff ('' @ Duration_String initial @ '')''))
      else None)"

definition parseCircuitFailureThresholdValue :: "string \<Rightarrow> string \<Rightarrow> apperr + int" where
  "parseCircuitFailureThresholdValue raw source =
     (case ParseInt64 raw of
        None \<Rightarrow> bad_arg (''invalid jenkins circuit failure threshold from '' @ source @ '' (positive integer, or 0 for default): '' @ raw)
      | Some v \<Rightarrow>
        if v < 0 then bad_arg (''jenkins circuit failure threshold from '' @ source @ '' must not be negative'')
        else if v = 0 then Inr DefaultCircuitFailureThreshold else Inr v)"

definition ResolveCircuitFailureThreshold :: "string \<Rightarrow> string \<Rightarrow> apperr + int" where
  "ResolveCircuitFailureThreshold flagVal envVal =
     (case layers DefaultCircuitFailureThreshold (\<lambda>raw. parseCircuitFailureThresholdValue raw ''env JENKINS_MCP_CIRCUIT_FAILURE_THRESHOLD'')
         (\<lambda>raw. parseCircuitFailureThresholdValue raw ''flag --circuit-failure-threshold'') flagVal envVal of
        Inl e \<Rightarrow> Inl e
      | Inr n \<Rightarrow>
        if n > AbsoluteMaxCircuitFailureThreshold then bad_arg (''jenkins circuit failure threshold exceeds absolute maximum bound ('' @ show_int AbsoluteMaxCircuitFailureThreshold @ '')'')
        else Inr n)"

definition parseMaxConcurrentValue :: "string \<Rightarrow> string \<Rightarrow> apperr + int" where
  "parseMaxConcurrentValue raw source =
     (case ParseInt64 raw of
        None \<Rightarrow> bad_arg (''invalid jenkins max concurrent from '' @ source @ '' (non-negative integer; 0 = unlimited concurrency; empty = default unlimited): '' @ raw)
      | Some v \<Rightarrow>
        if v < 0 then bad_arg (''jenkins max concurrent from '' @ source @ '' must not be negative'')
        else Inr v)"

definition ResolveMaxConcurrent :: "string \<Rightarrow> string \<Rightarrow> apperr + int" where
  "ResolveMaxConcurrent flagVal envVal =
     (case layers DefaultMaxConcurrent (\<lambda>raw. parseMaxConcurrentValue raw ''env JENKINS_MCP_MAX_CONCURRENT'')
         (\<lambda>raw. parseMaxConcurrentValue raw ''flag --max-concurrent'') flagVal envVal of
        Inl e \<Rightarrow> Inl e
      | Inr n \<Rightarrow>
        if n > AbsoluteMaxConcurrent then bad_arg (''jenkins max concurrent exceeds absolute maximum bound ('' @ show_int AbsoluteMaxConcurrent @ '')'')
        else Inr n)"

definition parseMaxJSONBodyBytesValue :: "string \<Rightarrow> string \<Rightarrow> apperr + int" where
  "parseMaxJSONBodyBytesValue raw source =
     (case ParseInt64 raw of
        None \<Rightarrow> bad_arg (''invalid jenkins max json body bytes from '' @ source @ '' (positive integer bytes, or 0 for default): '' @ raw)
      | Some v \<Rightarrow>
        if v < 0 then bad_arg (''jenkins max json body bytes from '' @ source @ '' must not be negative'')
        else if v = 0 then Inr DefaultMaxJSONBodyBytes else Inr v)"

definition ResolveMaxJSONBodyBytes :: "string \<Rightarrow> string \<Rightarrow> apperr + int" where
  "ResolveMaxJSONBodyBytes flagVal envVal =
     (case layers DefaultMaxJSONBodyBytes (\<lambda>raw. parseMaxJSONBodyBytesValue raw ''env JENKINS_MCP_MAX_JSON_BODY_BYTES'')
         (\<lambda>raw. parseMaxJSONBodyBytesValue raw ''flag --max-json-body-bytes'') flagVal envVal of
        Inl e \<Rightarrow> Inl e
      | Inr n \<Rightarrow>
        if n > AbsoluteMaxJSONBodyBytes then bad_arg (''jenkins max json body bytes exceeds absolute maximum bound ('' @ show_int AbsoluteMaxJSONBodyBytes @ '' bytes)'')
        else Inr n)"

definition parseMaxRetriesValue :: "string \<Rightarrow> string \<Rightarrow> apperr + int" where
  "parseMaxRetriesValue raw source =
     (case ParseInt64 raw of
        None \<Rightarrow> bad_arg (''invalid jenkins max retries from '' @ source @ '' (non-negative integer; 0 disables GET/HEAD auto-retry; empty = default): '' @ raw)
      | Some v \<Rightarrow>
        if v < 0 then bad_arg (''jenkins max retries from '' @ source @ '' must not be negative'')
        else Inr v)"

definition ResolveMaxRetries :: "string \<Rightarrow> string \<Rightarrow> apperr + int" where
  "ResolveMaxRetries flagVal envVal =
     (case layers DefaultMaxRetries (\<lambda>raw. parseMaxRetriesValue raw ''env JENKINS_MCP_MAX_RETRIES'')
         (\<lambda>raw. parseMaxRetriesValue raw ''flag --max-retries'') flagVal envVal of
        Inl e \<Rightarrow> Inl e
      | Inr n \<Rightarrow>
        if n > AbsoluteMaxRetries then bad_arg (''jenkins max retries exceeds absolute maximum bound ('' @ show_int AbsoluteMaxRetries @ '')'')
        else Inr n)"

section \<open>Mutation gate\<close>

definition MinTokenTTL :: int where "MinTokenTTL = 10 * second"
definition AbsoluteMaxTokenTTL :: int where "AbsoluteMaxTokenTTL = 15 * minute"
definition MinConfirmCooldown :: int where "MinConfirmCooldown = 1 * second"
definition AbsoluteMaxConfirmCooldown :: int where "AbsoluteMaxConfirmCooldown = 5 * minute"
definition AbsoluteMaxPreviewsPerMinute :: int where "AbsoluteMaxPreviewsPerMinute = 300"

lemmas mutation_limits = MinTokenTTL_def AbsoluteMaxTokenTTL_def MinConfirmCooldown_def AbsoluteMaxConfirmCooldown_def
  AbsoluteMaxPreviewsPerMinute_def DefaultTokenTTL_def DefaultConfirmCooldown_def DefaultMaxPreviewsPerMinute_def

definition parseTokenTTLValue :: "string \<Rightarrow> string \<Rightarrow> apperr + int" where
  "parseTokenTTLValue raw source =
     (case ParseDuration raw of
        None \<Rightarrow> bad_arg (''invalid mutation token TTL from '' @ source @ '' (use Go duration, e.g. 30s, 2m, 5m, or 0 for default): '' @ raw)
      | Some d \<Rightarrow>
        if d < 0 then bad_arg (''mutation token TTL from '' @ source @ '' must not be negative'')
        else if d = 0 then Inr DefaultTokenTTL else Inr d)"

definition ResolveTokenTTL :: "string \<Rightarrow> string \<Rightarrow> apperr + int" where
  "ResolveTokenTTL flagVal envVal =
     (case layers DefaultTokenTTL (\<lambda>raw. parseTokenTTLValue raw ''env JENKINS_MCP_MUTATION_TOKEN_TTL'')
         (\<lambda>raw. parseTokenTTLValue raw ''flag --mutation-token-ttl'') flagVal envVal of
        Inl e \<Rightarrow> Inl e
      | Inr d \<Rightarrow>
        if d < MinTokenTTL then
          bad_arg (''mutation token TTL is below minimum '' @ Duration_String MinTokenTTL @ '' (got '' @ Duration_String d @ '')'')
        else if d > AbsoluteMaxTokenTTL then
          bad_arg (''mutation token TTL exceeds absolute maximum bound ('' @ Duration_String AbsoluteMaxTokenTTL @ '')'')
        else Inr d)"

definition parseConfirmCooldownValue :: "string \<Rightarrow> string \<Rightarrow> apperr + int" where
  "parseConfirmCooldownValue raw source =
     (case ParseDuration raw of
        None \<Rightarrow> bad_arg (''invalid mutation confirm cooldown from '' @ source @ '' (use Go duration, e.g. 5s, 30s, 1m, or 0 for default): '' @ raw)
      | Some d \<Rightarrow>
        if d < 0 then bad_arg (''mutation confirm cooldown from '' @ source @ '' must not be negative'')
        else if d = 0 then Inr DefaultConfirmCooldown else Inr d)"

definition ResolveConfirmCooldown :: "string \<Rightarrow> string \<Rightarrow> apperr + int" where
  "ResolveConfirmCooldown flagVal envVal =
     (case layers DefaultConfirmCooldown (\<lambda>raw. parseConfirmCooldownValue raw ''env JENKINS_MCP_MUTATION_CONFIRM_COOLDOWN'')
         (\<lambda>raw. parseConfirmCooldownValue raw ''flag --mutation-confirm-cooldown'') flagVal envVal of
        Inl e \<Rightarrow> Inl e
      | Inr d \<Rightarrow>
        if d < MinConfirmCooldown then
          bad_arg (''mutation confirm cooldown is below minimum '' @ Duration_String MinConfirmCooldown @ '' (got '' @ Duration_String d @ '')'')
        else if d > AbsoluteMaxConfirmCooldown then
          bad_arg (''mutation confirm cooldown exceeds absolute maximum bound ('' @ Duration_String AbsoluteMaxConfirmCooldown @ '')'')
        else Inr d)"

definition parseMaxPreviewsPerMinuteValue :: "string \<Rightarrow> string \<Rightarrow> apperr + int" where
  "parseMaxPreviewsPerMinuteValue raw source =
     (case ParseInt64 raw of
        None \<Rightarrow> bad_arg (''invalid mutation max previews per minute from '' @ source @ '' (positive integer, or 0 for default): '' @ raw)
      | Some v \<Rightarrow>
        if v < 0 then bad_arg (''mutation max previews per minute from '' @ source @ '' must not be negative'')
        else if v = 0 then Inr DefaultMaxPreviewsPerMinute else Inr v)"

definition ResolveMaxPreviewsPerMinute :: "string \<Rightarrow> string \<Rightarrow> apperr + int" where
  "ResolveMaxPreviewsPerMinute flagVal envVal =
     (case layers DefaultMaxPreviewsPerMinute (\<lambda>raw. parseMaxPreviewsPerMinuteValue raw ''env JENKINS_MCP_MUTATION_MAX_PREVIEWS_PER_MINUTE'')
         (\<lambda>raw. parseMaxPreviewsPerMinuteValue raw ''flag --mutation-max-previews-per-minute'') flagVal envVal of
        Inl e \<Rightarrow> Inl e
      | Inr n \<Rightarrow>
        if n > AbsoluteMaxPreviewsPerMinute then bad_arg (''mutation max previews per minute exceeds absolute maximum bound ('' @ show_int AbsoluteMaxPreviewsPerMinute @ '')'')
        else Inr n)"

definition EnsureConfirmCooldownLessThanTokenTTL :: "int \<Rightarrow> int \<Rightarrow> apperr option" where
  "EnsureConfirmCooldownLessThanTokenTTL confirmCooldown tokenTTL =
     (if confirmCooldown \<ge> tokenTTL then Some (newErr CodeInvalidArgument
        (''mutation confirm cooldown ('' @ Duration_String confirmCooldown @ '') must be < mutation token TTL ('' @
         Duration_String tokenTTL @ '')''))
      else None)"

definition SetTokenTTL :: "int \<Rightarrow> LiveConfig \<Rightarrow> LiveConfig" where
  "SetTokenTTL d lv = lv\<lparr> lv_TokenTTL := at_most AbsoluteMaxTokenTTL (at_least MinTokenTTL (or_default (d \<le> 0) DefaultTokenTTL d)) \<rparr>"

definition SetConfirmCooldown :: "int \<Rightarrow> LiveConfig \<Rightarrow> LiveConfig" where
  "SetConfirmCooldown d lv = lv\<lparr> lv_ConfirmCooldown :=
     at_most AbsoluteMaxConfirmCooldown (at_least MinConfirmCooldown (or_default (d \<le> 0) DefaultConfirmCooldown d)) \<rparr>"

definition SetMaxPreviewsPerMinute :: "int \<Rightarrow> LiveConfig \<Rightarrow> LiveConfig" where
  "SetMaxPreviewsPerMinute n lv = lv\<lparr> lv_MaxPreviews :=
     at_most AbsoluteMaxPreviewsPerMinute (or_default (n \<le> 0) DefaultMaxPreviewsPerMinute n) \<rparr>"

definition MaxPreviewsPerMinute :: "LiveConfig \<Rightarrow> int" where
  "MaxPreviewsPerMinute lv =
     (if lv_MaxPreviews lv \<le> 0 then DefaultMaxPreviewsPerMinute
      else if lv_MaxPreviews lv > AbsoluteMaxPreviewsPerMinute then AbsoluteMaxPreviewsPerMinute else lv_MaxPreviews lv)"

section \<open>Server start\<close>

text \<open>The texts of the ten flags or environment variables.\<close>

record LimitTexts =
  lt_MaxJSONBodyBytes :: string
  lt_MaxRetries :: string
  lt_CircuitFailureThreshold :: string
  lt_CircuitOpenDuration :: string
  lt_MaxConcurrent :: string
  lt_InitialBackoff :: string
  lt_MaxBackoff :: string
  lt_ConfirmCooldown :: string
  lt_MaxPreviewsPerMinute :: string
  lt_TokenTTL :: string

definition andThen :: "apperr + 'a \<Rightarrow> ('a \<Rightarrow> apperr + 'b) \<Rightarrow> apperr + 'b" where
  "andThen x f = (case x of Inl e \<Rightarrow> Inl e | Inr v \<Rightarrow> f v)"

definition ensure :: "apperr option \<Rightarrow> apperr + 'b \<Rightarrow> apperr + 'b" where
  "ensure check k = (case check of Some e \<Rightarrow> Inl e | None \<Rightarrow> k)"

lemma andThen_Inr: "andThen x f = Inr w \<longleftrightarrow> (\<exists>v. x = Inr v \<and> f v = Inr w)"
  by (cases x) (auto simp: andThen_def)

lemma ensure_Inr: "ensure check k = Inr w \<longleftrightarrow> check = None \<and> k = Inr w"
  by (cases check) (auto simp: ensure_def)

definition WithResilience :: "ResilienceConfig \<Rightarrow> Resilience" where
  "WithResilience cfg = NewResilience cfg"

text \<open>The limits section of the serve command: resolve everything, then install the client's and the
  mutation gate's values.\<close>

definition serveLimits :: "LimitTexts \<Rightarrow> LimitTexts \<Rightarrow> LiveConfig \<Rightarrow> apperr + (Resilience \<times> LiveConfig)" where
  "serveLimits flag env lv =
     andThen (ResolveMaxJSONBodyBytes (lt_MaxJSONBodyBytes flag) (lt_MaxJSONBodyBytes env)) (\<lambda>body.
     andThen (ResolveMaxRetries (lt_MaxRetries flag) (lt_MaxRetries env)) (\<lambda>retries.
     andThen (ResolveCircuitFailureThreshold (lt_CircuitFailureThreshold flag) (lt_CircuitFailureThreshold env)) (\<lambda>threshold.
     andThen (ResolveCircuitOpenDuration (lt_CircuitOpenDuration flag) (lt_CircuitOpenDuration env)) (\<lambda>openDur.
     andThen (ResolveMaxConcurrent (lt_MaxConcurrent flag) (lt_MaxConcurrent env)) (\<lambda>conc.
     andThen (ResolveInitialBackoff (lt_InitialBackoff flag) (lt_InitialBackoff env)) (\<lambda>initial.
     andThen (ResolveMaxBackoff (lt_MaxBackoff flag) (lt_MaxBackoff env)) (\<lambda>maxb.
     ensure (EnsureMaxBackoffAtLeastInitial initial maxb) (
     andThen (ResolveConfirmCooldown (lt_ConfirmCooldown flag) (lt_ConfirmCooldown env)) (\<lambda>cooldown.
     andThen (ResolveMaxPreviewsPerMinute (lt_MaxPreviewsPerMinute flag) (lt_MaxPreviewsPerMinute env)) (\<lambda>previews.
     andThen (ResolveTokenTTL (lt_TokenTTL flag) (lt_TokenTTL env)) (\<lambda>ttl.
     ensure (EnsureConfirmCooldownLessThanTokenTTL cooldown ttl) (
     Inr (WithResilience (DefaultResilienceConfig\<lparr> rc_MaxJSONBodyBytes := body, rc_MaxRetries := retries,
            rc_CircuitFailureThreshold := threshold, rc_CircuitOpenDuration := openDur, rc_MaxConcurrent := conc,
            rc_InitialBackoff := initial, rc_MaxBackoff := maxb \<rparr>),
          SetTokenTTL ttl (SetConfirmCooldown cooldown (SetMaxPreviewsPerMinute previews lv)))))))))))))))"

text \<open>What the tool registration knows when it builds the manager (\<open>internal/tools/register.go\<close>).\<close>

record RegState =
  rg_gate :: ReadOnlyGate
  rg_hasAudit :: bool
  rg_profileID :: string
  rg_principalID :: string
  rg_subject :: Subject

definition newMutationManager :: "LiveConfig \<Rightarrow> RegState \<Rightarrow> Manager" where
  "newMutationManager lv st =
     (let profileID = (if trim_space (rg_profileID st) = [] then trim_space (su_ProfileID (rg_subject st))
                       else trim_space (rg_profileID st));
          principalID = (if trim_space (rg_principalID st) = [] then trim_space (su_JenkinsUserID (rg_subject st))
                         else trim_space (rg_principalID st))
      in NewManager lv \<lparr> cf_Gate = rg_gate st, cf_HasAudit = rg_hasAudit st, cf_ProfileID = profileID,
        cf_PrincipalID = principalID, cf_ExternalSubject = trim_space (su_ExternalSubject (rg_subject st)),
        cf_Tenant = trim_space (su_Tenant (rg_subject st)), cf_TTL = 0, cf_MaxPreviewsPerMinute = 0,
        cf_ConfirmCooldown = 0 \<rparr>)"

section \<open>Properties\<close>

text \<open>A resolver's answer: a value in the range, or the error class of a bad argument.\<close>

definition in_range :: "int \<Rightarrow> int \<Rightarrow> apperr + int \<Rightarrow> bool" where
  "in_range lo hi res = (case res of Inl e \<Rightarrow> err_code e = CodeInvalidArgument | Inr v \<Rightarrow> lo \<le> v \<and> v \<le> hi)"

definition rejects_or :: "(int \<Rightarrow> bool) \<Rightarrow> apperr + int \<Rightarrow> bool" where
  "rejects_or P res = (case res of Inl e \<Rightarrow> err_code e = CodeInvalidArgument | Inr v \<Rightarrow> P v)"

text \<open>What a resolver relies on: every parsed value, and the default, is at least \<open>floor\<close>.\<close>

locale operator_limit =
  fixes parse :: "string \<Rightarrow> string \<Rightarrow> apperr + int" and default :: int and least :: int
  assumes parse_rejects: "rejects_or (\<lambda>v. least \<le> v) (parse raw src)"
    and default_ok: "least \<le> default"
begin

lemma layer_ok: "least \<le> x \<Longrightarrow> rejects_or (\<lambda>v. least \<le> v) (layer (\<lambda>raw. parse raw src) t x)"
  using parse_rejects by (simp add: layer_def Let_def rejects_or_def)

lemma layers_ok:
  "rejects_or (\<lambda>v. least \<le> v) (layers default (\<lambda>raw. parse raw es) (\<lambda>raw. parse raw fs) fv ev)"
proof (cases "layer (\<lambda>raw. parse raw es) ev default")
  case (Inl e)
  with layer_ok [OF default_ok, of es ev] show ?thesis by (simp add: layers_def rejects_or_def)
next
  case (Inr v)
  with layer_ok [OF default_ok, of es ev] have "least \<le> v" by (simp add: rejects_or_def)
  from layer_ok [OF this, of fs fv] Inr show ?thesis by (simp add: layers_def)
qed

lemma number_in_range:
  "in_range least hi (case layers default (\<lambda>raw. parse raw es) (\<lambda>raw. parse raw fs) fv ev of
     Inl e \<Rightarrow> Inl e | Inr v \<Rightarrow> if v > hi then bad_arg msg else Inr v)"
  using layers_ok [of es fs fv ev] by (auto simp: in_range_def rejects_or_def split: sum.splits)

lemma duration_in_range:
  "in_range lo hi (case layers default (\<lambda>raw. parse raw es) (\<lambda>raw. parse raw fs) fv ev of
     Inl e \<Rightarrow> Inl e | Inr v \<Rightarrow> if v < lo then bad_arg (low v) else if v > hi then bad_arg msg else Inr v)"
  using layers_ok [of es fs fv ev] by (auto simp: in_range_def rejects_or_def split: sum.splits)

end

lemmas parse_limits = rejects_or_def mutation_limits resilience_limits

interpretation lCircuitOpenDuration: operator_limit parseCircuitOpenDurationValue DefaultCircuitOpenDuration 0
  by unfold_locales (auto simp: parseCircuitOpenDurationValue_def parse_limits split: option.splits)

interpretation lInitialBackoff: operator_limit parseInitialBackoffValue DefaultInitialBackoff 0
  by unfold_locales (auto simp: parseInitialBackoffValue_def parse_limits split: option.splits)

interpretation lMaxBackoff: operator_limit parseMaxBackoffValue DefaultMaxBackoff 0
  by unfold_locales (auto simp: parseMaxBackoffValue_def parse_limits split: option.splits)

interpretation lTokenTTL: operator_limit parseTokenTTLValue DefaultTokenTTL 0
  by unfold_locales (auto simp: parseTokenTTLValue_def parse_limits split: option.splits)

interpretation lConfirmCooldown: operator_limit parseConfirmCooldownValue DefaultConfirmCooldown 0
  by unfold_locales (auto simp: parseConfirmCooldownValue_def parse_limits split: option.splits)

interpretation lCircuitFailureThreshold: operator_limit parseCircuitFailureThresholdValue DefaultCircuitFailureThreshold 1
  by unfold_locales (auto simp: parseCircuitFailureThresholdValue_def parse_limits split: option.splits)

interpretation lMaxConcurrent: operator_limit parseMaxConcurrentValue DefaultMaxConcurrent 0
  by unfold_locales (auto simp: parseMaxConcurrentValue_def parse_limits split: option.splits)

interpretation lMaxJSONBodyBytes: operator_limit parseMaxJSONBodyBytesValue DefaultMaxJSONBodyBytes 1
  by unfold_locales (auto simp: parseMaxJSONBodyBytesValue_def parse_limits split: option.splits)

interpretation lMaxRetries: operator_limit parseMaxRetriesValue DefaultMaxRetries 0
  by unfold_locales (auto simp: parseMaxRetriesValue_def parse_limits split: option.splits)

interpretation lMaxPreviewsPerMinute: operator_limit parseMaxPreviewsPerMinuteValue DefaultMaxPreviewsPerMinute 1
  by unfold_locales (auto simp: parseMaxPreviewsPerMinuteValue_def parse_limits split: option.splits)

lemma all_limits_in_range:
  "in_range MinCircuitOpenDuration AbsoluteMaxCircuitOpenDuration (ResolveCircuitOpenDuration fv ev) \<and>
   in_range MinInitialBackoff AbsoluteMaxInitialBackoff (ResolveInitialBackoff fv ev) \<and>
   in_range MinMaxBackoff AbsoluteMaxMaxBackoff (ResolveMaxBackoff fv ev) \<and>
   in_range 1 AbsoluteMaxCircuitFailureThreshold (ResolveCircuitFailureThreshold fv ev) \<and>
   in_range 0 AbsoluteMaxConcurrent (ResolveMaxConcurrent fv ev) \<and>
   in_range 1 AbsoluteMaxJSONBodyBytes (ResolveMaxJSONBodyBytes fv ev) \<and>
   in_range 0 AbsoluteMaxRetries (ResolveMaxRetries fv ev) \<and>
   in_range MinTokenTTL AbsoluteMaxTokenTTL (ResolveTokenTTL fv ev) \<and>
   in_range MinConfirmCooldown AbsoluteMaxConfirmCooldown (ResolveConfirmCooldown fv ev) \<and>
   in_range 1 AbsoluteMaxPreviewsPerMinute (ResolveMaxPreviewsPerMinute fv ev)"
  unfolding ResolveCircuitOpenDuration_def ResolveInitialBackoff_def ResolveMaxBackoff_def ResolveCircuitFailureThreshold_def ResolveMaxConcurrent_def ResolveMaxJSONBodyBytes_def ResolveMaxRetries_def ResolveTokenTTL_def ResolveConfirmCooldown_def ResolveMaxPreviewsPerMinute_def
  by (intro conjI lCircuitOpenDuration.duration_in_range lInitialBackoff.duration_in_range lMaxBackoff.duration_in_range lTokenTTL.duration_in_range lConfirmCooldown.duration_in_range
    lCircuitFailureThreshold.number_in_range lMaxConcurrent.number_in_range lMaxJSONBodyBytes.number_in_range lMaxRetries.number_in_range lMaxPreviewsPerMinute.number_in_range)

lemma in_range_Inr [simp]: "in_range lo hi (Inr v) \<longleftrightarrow> lo \<le> v \<and> v \<le> hi"
  by (simp add: in_range_def)

text \<open>An operator limit is in its range or the server does not start: each of the ten resolvers, for any
  flag and environment text, returns a value between its bounds or an invalid-argument error.\<close>

theorem operator_limits_in_range:
  "in_range MinCircuitOpenDuration AbsoluteMaxCircuitOpenDuration (ResolveCircuitOpenDuration fv ev) \<and>
   in_range MinInitialBackoff AbsoluteMaxInitialBackoff (ResolveInitialBackoff fv ev) \<and>
   in_range MinMaxBackoff AbsoluteMaxMaxBackoff (ResolveMaxBackoff fv ev) \<and>
   in_range 1 AbsoluteMaxCircuitFailureThreshold (ResolveCircuitFailureThreshold fv ev) \<and>
   in_range 0 AbsoluteMaxConcurrent (ResolveMaxConcurrent fv ev) \<and>
   in_range 1 AbsoluteMaxJSONBodyBytes (ResolveMaxJSONBodyBytes fv ev) \<and>
   in_range 0 AbsoluteMaxRetries (ResolveMaxRetries fv ev) \<and>
   in_range MinTokenTTL AbsoluteMaxTokenTTL (ResolveTokenTTL fv ev) \<and>
   in_range MinConfirmCooldown AbsoluteMaxConfirmCooldown (ResolveConfirmCooldown fv ev) \<and>
   in_range 1 AbsoluteMaxPreviewsPerMinute (ResolveMaxPreviewsPerMinute fv ev)"
  by (rule all_limits_in_range)

text \<open>C34: what the operator configures is what runs: if the server starts, the client's resilience layer has
  exactly the seven resolved values (body size, retries, both backoffs, concurrency, breaker threshold
  and open period), none clamped and the initial backoff not above the maximum, and every mutation
  manager built afterwards has the resolved token lifetime, cooldown and preview rate, with the cooldown
  shorter than the lifetime.\<close>

theorem serve_limits_take_effect:
  assumes "serveLimits flag env lv = Inr (r, lv')"
  shows "config_ok (rs_cfg r) \<and>
    ResolveMaxJSONBodyBytes (lt_MaxJSONBodyBytes flag) (lt_MaxJSONBodyBytes env) = Inr (rc_MaxJSONBodyBytes (rs_cfg r)) \<and>
    ResolveCircuitOpenDuration (lt_CircuitOpenDuration flag) (lt_CircuitOpenDuration env) =
      Inr (rc_CircuitOpenDuration (rs_cfg r)) \<and>
    ResolveInitialBackoff (lt_InitialBackoff flag) (lt_InitialBackoff env) = Inr (rc_InitialBackoff (rs_cfg r)) \<and>
    rc_InitialBackoff (rs_cfg r) \<le> rc_MaxBackoff (rs_cfg r) \<and>
    ResolveMaxRetries (lt_MaxRetries flag) (lt_MaxRetries env) = Inr (rc_MaxRetries (rs_cfg r)) \<and>
    ResolveMaxBackoff (lt_MaxBackoff flag) (lt_MaxBackoff env) = Inr (rc_MaxBackoff (rs_cfg r)) \<and>
    ResolveCircuitFailureThreshold (lt_CircuitFailureThreshold flag) (lt_CircuitFailureThreshold env) =
      Inr (rc_CircuitFailureThreshold (rs_cfg r)) \<and>
    ResolveMaxConcurrent (lt_MaxConcurrent flag) (lt_MaxConcurrent env) = Inr (rc_MaxConcurrent (rs_cfg r)) \<and>
    ResolveTokenTTL (lt_TokenTTL flag) (lt_TokenTTL env) = Inr (mg_ttl (newMutationManager lv' st)) \<and>
    ResolveConfirmCooldown (lt_ConfirmCooldown flag) (lt_ConfirmCooldown env) = Inr (mg_confirmCooldown (newMutationManager lv' st)) \<and>
    ResolveMaxPreviewsPerMinute (lt_MaxPreviewsPerMinute flag) (lt_MaxPreviewsPerMinute env) =
      Inr (mg_maxPreviewsPerMin (newMutationManager lv' st)) \<and>
    mg_confirmCooldown (newMutationManager lv' st) < mg_ttl (newMutationManager lv' st)"
proof -
  from assms obtain body retries threshold openDur conc initial maxb cooldown previews ttl where
    res: "ResolveMaxJSONBodyBytes (lt_MaxJSONBodyBytes flag) (lt_MaxJSONBodyBytes env) = Inr body"
      "ResolveMaxRetries (lt_MaxRetries flag) (lt_MaxRetries env) = Inr retries"
      "ResolveCircuitFailureThreshold (lt_CircuitFailureThreshold flag) (lt_CircuitFailureThreshold env) = Inr threshold"
      "ResolveCircuitOpenDuration (lt_CircuitOpenDuration flag) (lt_CircuitOpenDuration env) = Inr openDur"
      "ResolveMaxConcurrent (lt_MaxConcurrent flag) (lt_MaxConcurrent env) = Inr conc"
      "ResolveInitialBackoff (lt_InitialBackoff flag) (lt_InitialBackoff env) = Inr initial"
      "ResolveMaxBackoff (lt_MaxBackoff flag) (lt_MaxBackoff env) = Inr maxb"
      "ResolveConfirmCooldown (lt_ConfirmCooldown flag) (lt_ConfirmCooldown env) = Inr cooldown"
      "ResolveMaxPreviewsPerMinute (lt_MaxPreviewsPerMinute flag) (lt_MaxPreviewsPerMinute env) = Inr previews"
      "ResolveTokenTTL (lt_TokenTTL flag) (lt_TokenTTL env) = Inr ttl"
    and ens: "EnsureMaxBackoffAtLeastInitial initial maxb = None" "EnsureConfirmCooldownLessThanTokenTTL cooldown ttl = None"
    and r: "r = WithResilience (DefaultResilienceConfig\<lparr> rc_MaxJSONBodyBytes := body, rc_MaxRetries := retries,
            rc_CircuitFailureThreshold := threshold, rc_CircuitOpenDuration := openDur, rc_MaxConcurrent := conc,
            rc_InitialBackoff := initial, rc_MaxBackoff := maxb \<rparr>)"
    and lv: "lv' = SetTokenTTL ttl (SetConfirmCooldown cooldown (SetMaxPreviewsPerMinute previews lv))"
    unfolding serveLimits_def andThen_Inr ensure_Inr by auto
  have rng: "1 \<le> body" "body \<le> AbsoluteMaxJSONBodyBytes" "0 \<le> retries" "retries \<le> AbsoluteMaxRetries"
    "1 \<le> threshold" "threshold \<le> AbsoluteMaxCircuitFailureThreshold"
    "MinCircuitOpenDuration \<le> openDur" "openDur \<le> AbsoluteMaxCircuitOpenDuration" "0 \<le> conc" "conc \<le> AbsoluteMaxConcurrent"
    "MinInitialBackoff \<le> initial" "initial \<le> AbsoluteMaxInitialBackoff" "MinMaxBackoff \<le> maxb" "maxb \<le> AbsoluteMaxMaxBackoff"
    "MinConfirmCooldown \<le> cooldown" "cooldown \<le> AbsoluteMaxConfirmCooldown"
    "1 \<le> previews" "previews \<le> AbsoluteMaxPreviewsPerMinute" "MinTokenTTL \<le> ttl" "ttl \<le> AbsoluteMaxTokenTTL"
    using all_limits_in_range [of "lt_MaxJSONBodyBytes flag" "lt_MaxJSONBodyBytes env"]
      all_limits_in_range [of "lt_MaxRetries flag" "lt_MaxRetries env"]
      all_limits_in_range [of "lt_CircuitFailureThreshold flag" "lt_CircuitFailureThreshold env"]
      all_limits_in_range [of "lt_CircuitOpenDuration flag" "lt_CircuitOpenDuration env"]
      all_limits_in_range [of "lt_MaxConcurrent flag" "lt_MaxConcurrent env"]
      all_limits_in_range [of "lt_InitialBackoff flag" "lt_InitialBackoff env"]
      all_limits_in_range [of "lt_MaxBackoff flag" "lt_MaxBackoff env"]
      all_limits_in_range [of "lt_ConfirmCooldown flag" "lt_ConfirmCooldown env"]
      all_limits_in_range [of "lt_MaxPreviewsPerMinute flag" "lt_MaxPreviewsPerMinute env"]
      all_limits_in_range [of "lt_TokenTTL flag" "lt_TokenTTL env"]
    unfolding res by simp_all
  have order: "initial \<le> maxb" "cooldown < ttl"
    using ens by (auto simp: EnsureMaxBackoffAtLeastInitial_def EnsureConfirmCooldownLessThanTokenTTL_def split: if_splits)
  define c where "c = \<lparr> rc_MaxJSONBodyBytes = body, rc_MaxRetries = retries, rc_InitialBackoff = initial, rc_MaxBackoff = maxb,
      rc_MaxConcurrent = conc, rc_CircuitFailureThreshold = threshold, rc_CircuitOpenDuration = openDur \<rparr>"
  have ok: "config_ok c" using rng order by (simp add: config_ok_def c_def)
  have "rs_cfg r = normalizeResilienceConfig c"
    by (simp add: r WithResilience_def NewResilience_def DefaultResilienceConfig_def c_def)
  then have cfg: "rs_cfg r = c" by (simp only: normalize_config_fix [OF ok])
  have mg: "mg_ttl (newMutationManager lv' st) = ttl" "mg_confirmCooldown (newMutationManager lv' st) = cooldown"
    "mg_maxPreviewsPerMin (newMutationManager lv' st) = previews"
    using rng by (simp_all add: newMutationManager_def NewManager_def Let_def lv SetTokenTTL_def SetConfirmCooldown_def
      SetMaxPreviewsPerMinute_def at_least_def at_most_def or_default_def TokenTTL_def ConfirmCooldown_def
      mutation_limits duration_defs)
  show ?thesis unfolding mg cfg using res ok order by (simp add: c_def)
qed

definition noTexts :: LimitTexts where
  "noTexts = \<lparr> lt_MaxJSONBodyBytes = [], lt_MaxRetries = [], lt_CircuitFailureThreshold = [], lt_CircuitOpenDuration = [],
     lt_MaxConcurrent = [], lt_InitialBackoff = [], lt_MaxBackoff = [], lt_ConfirmCooldown = [],
     lt_MaxPreviewsPerMinute = [], lt_TokenTTL = [] \<rparr>"

lemma serve_limits_take_effect_witness:
  "\<exists>r lv'. serveLimits (noTexts\<lparr> lt_TokenTTL := '' 5m '', lt_InitialBackoff := ''1s'' \<rparr>)
       (noTexts\<lparr> lt_TokenTTL := ''30s'', lt_CircuitOpenDuration := ''45s'', lt_MaxRetries := ''0'' \<rparr>)
       exampleLive = Inr (r, lv') \<and>
     rc_InitialBackoff (rs_cfg r) = second \<and> rc_CircuitOpenDuration (rs_cfg r) = 45 * second \<and>
     rc_MaxRetries (rs_cfg r) = 0 \<and> (\<forall>st. mg_ttl (newMutationManager lv' st) = 5 * minute)"
proof -
  let ?flag = "noTexts\<lparr> lt_TokenTTL := '' 5m '', lt_InitialBackoff := ''1s'' \<rparr>"
  let ?env = "noTexts\<lparr> lt_TokenTTL := ''30s'', lt_CircuitOpenDuration := ''45s'', lt_MaxRetries := ''0'' \<rparr>"
  have "\<not> isl (serveLimits ?flag ?env exampleLive)" by code_simp
  then obtain r lv' where run: "serveLimits ?flag ?env exampleLive = Inr (r, lv')"
    by (cases "serveLimits ?flag ?env exampleLive") auto
  have res: "ResolveInitialBackoff (lt_InitialBackoff ?flag) (lt_InitialBackoff ?env) = Inr second"
    "ResolveCircuitOpenDuration (lt_CircuitOpenDuration ?flag) (lt_CircuitOpenDuration ?env) = Inr (45 * second)"
    "ResolveMaxRetries (lt_MaxRetries ?flag) (lt_MaxRetries ?env) = Inr 0"
    "ResolveTokenTTL (lt_TokenTTL ?flag) (lt_TokenTTL ?env) = Inr (5 * minute)"
    by code_simp+
  have "mg_ttl (newMutationManager lv' st) = 5 * minute" for st
    using serve_limits_take_effect [OF run, of st] unfolding res by simp
  with serve_limits_take_effect [OF run] run show ?thesis unfolding res by simp
qed

end
