(* ===== verification/ResilienceCorrect.thy ===== *)
theory ResilienceCorrect
  imports Resilience
begin

text \<open>
  Correctness of the resilience layer: the normalised limits, delays that cannot overflow, the number
  of requests a call may send, and the breaker under any interleaving of concurrent calls. A call is
  a small state machine over the critical sections of \<open>callJenkins\<close>; \<open>run_act\<close> executes one of them.
\<close>

section \<open>Delays\<close>

lemma wrap64_double: "0 \<le> x \<Longrightarrow> x < 2 ^ 62 \<Longrightarrow> wrap64 (x * 2) = x * 2"
  by (rule wrap64_id) simp_all

text \<open>The doubling loop in closed form.\<close>

lemma backoff_loop_closed:
  assumes "0 \<le> base" and "base \<le> maxb" and "maxb < 2 ^ 63"
  shows "backoff_loop maxb n base =
    (if n = 0 then base else if base * 2 ^ (n - 1) \<ge> maxb div 2 then maxb else base * 2 ^ n)"
  using assms
proof (induction n arbitrary: base)
  case (Suc n)
  have sd: "maxb sdiv 2 = maxb div 2" using Suc.prems by (cases "maxb = 0") (simp_all add: signed_divide_int_def sgn_if)
  show ?case
  proof (cases "base \<ge> maxb div 2")
    case True
    have "base * 1 \<le> base * 2 ^ n" using Suc.prems by (intro mult_left_mono) simp_all
    with True sd show ?thesis by simp
  next
    case False
    have "wrap64 (base * 2) = base * 2" using False Suc.prems by (intro wrap64_double) auto
    moreover have "backoff_loop maxb n (base * 2) =
        (if n = 0 then base * 2 else if base * 2 * 2 ^ (n - 1) \<ge> maxb div 2 then maxb else base * 2 * 2 ^ n)"
      using False Suc.prems by (intro Suc.IH) auto
    ultimately show ?thesis using False sd by (cases n) (auto simp: mult.assoc)
  qed
qed simp

lemma backoff_loop_bounds:
  assumes "0 \<le> base" and "base \<le> maxb" and "maxb < 2 ^ 63"
  shows "base \<le> backoff_loop maxb n base \<and> backoff_loop maxb n base \<le> maxb"
proof -
  have grow: "base * 1 \<le> base * 2 ^ n" using assms by (intro mult_left_mono) simp_all
  have "base * 2 ^ n \<le> maxb" if "\<not> base * 2 ^ (n - 1) \<ge> maxb div 2" "n \<noteq> 0"
    using that by (cases n) auto
  with grow assms show ?thesis unfolding backoff_loop_closed [OF assms] by auto
qed

lemma parseRetryAfter_range:
  "fst (parseRetryAfter parseTime v now) \<ge> 0 \<and> fst (parseRetryAfter parseTime v now) \<le> max_int64"
proof -
  have "wrap64 (sec * second) = sec * second" "0 \<le> sec * second" "sec * second \<le> max_int64"
    if "0 \<le> sec" "sec \<le> max_int64 div second" for sec
  proof -
    show b: "sec * second \<le> max_int64" using that by (simp add: max_int64_def second_def)
    show a: "0 \<le> sec * second" using that by (simp add: second_def)
    show "wrap64 (sec * second) = sec * second" using a b by (intro wrap64_id) (auto simp: max_int64_def)
  qed
  note exact = this
  have m: "0 \<le> max_int64" "0 \<le> max_int64 div second" by (simp_all add: max_int64_def second_def)
  show ?thesis
    using exact m
    by (auto simp: parseRetryAfter_def Let_def time_sub_def at_most_def at_least_def split: option.splits)
qed

section \<open>How many requests a call sends\<close>

lemma attempt_step_cfg: "attempt_step idem mx k a r = (r', nx, sent) \<Longrightarrow> rs_cfg r' = rs_cfg r \<and> rs_slots r' = rs_slots r"
  by (auto simp: attempt_step_def Let_def onAbort_def onFailure_def onSuccess_def split: reply.splits if_splits)


lemma call_loop_sent: "call_loop idem mx net left r = (r', res, n) \<Longrightarrow> n \<le> left"
proof (induction left arbitrary: r r' res n)
  case (Suc left)
  then show ?case by (fastforce simp: Let_def split: prod.splits next_step.splits if_splits)
qed simp

section \<open>Concurrent calls\<close>

text \<open>Where a call is: past \<open>acquire\<close>, in the attempt loop (idempotent, holds the probe slot, iteration),
  about to run the deferred \<open>onProbeDone\<close>, about to run the deferred \<open>release\<close>.\<close>

datatype phase = Idle | Acquired | Running bool bool nat | Probing | Leaving

datatype act = AAcquire nat bool | AEnter nat bool int | AAttempt nat Attempt | AProbeDone nat | ARelease nat

type_synonym sys = "Resilience \<times> (nat \<Rightarrow> phase)"

fun run_act :: "act \<Rightarrow> sys \<Rightarrow> sys option" where
  "run_act (AAcquire c cancelled) (r, ph) =
     (case ph c of
        Idle \<Rightarrow> (case acquire cancelled r of None \<Rightarrow> None | Some r' \<Rightarrow> Some (r', ph(c := Acquired)))
      | _ \<Rightarrow> None)"
| "run_act (AEnter c idem now) (r, ph) =
     (case ph c of
        Acquired \<Rightarrow>
          (case allow now r of
             (r', Inl e) \<Rightarrow> Some (r', ph(c := Leaving))
           | (r', Inr probe) \<Rightarrow> Some (r', ph(c := Running idem probe 0)))
      | _ \<Rightarrow> None)"
| "run_act (AAttempt c a) (r, ph) =
     (case ph c of
        Running idem probe k \<Rightarrow>
          (case attempt_step idem (max_attempts idem r) k a r of
             (r', Continue, sent) \<Rightarrow> Some (r', ph(c := Running idem probe (k + 1)))
           | (r', Return res, sent) \<Rightarrow> Some (r', ph(c := if probe then Probing else Leaving)))
      | _ \<Rightarrow> None)"
| "run_act (AProbeDone c) (r, ph) = (case ph c of Probing \<Rightarrow> Some (onProbeDone r, ph(c := Leaving)) | _ \<Rightarrow> None)"
| "run_act (ARelease c) (r, ph) = (case ph c of Leaving \<Rightarrow> Some (release r, ph(c := Idle)) | _ \<Rightarrow> None)"

fun run_acts :: "act list \<Rightarrow> sys \<Rightarrow> sys option" where
  "run_acts [] s = Some s"
| "run_acts (a # as) s = (case run_act a s of None \<Rightarrow> None | Some t \<Rightarrow> run_acts as t)"

inductive bstep :: "sys \<Rightarrow> sys \<Rightarrow> bool" where
  bstep: "run_act a s = Some t \<Longrightarrow> bstep s t"

definition binit :: "ResilienceConfig \<Rightarrow> sys \<Rightarrow> bool" where
  "binit cfg s = (s = (NewResilience cfg, \<lambda>_. Idle))"

lemma reach_acts: "run_acts as s = Some t \<Longrightarrow> reach (binit cfg) bstep s \<Longrightarrow> reach (binit cfg) bstep t"
proof (induction as arbitrary: s)
  case (Cons a as)
  from Cons.prems(1) obtain u where u: "run_act a s = Some u" "run_acts as u = Some t"
    by (auto split: option.splits)
  show ?case using u(2) reach_step [OF Cons.prems(2) bstep [OF u(1)]] by (rule Cons.IH)
qed simp

fun holds_probe :: "phase \<Rightarrow> bool" where
  "holds_probe (Running idem probe k) = probe"
| "holds_probe Probing = True"
| "holds_probe _ = False"

text \<open>The slot is only taken while some call holds it, and only while a reopening time is set.\<close>

definition probe_inv :: "sys \<Rightarrow> bool" where
  "probe_inv s = (case s of (r, ph) \<Rightarrow> rs_halfOpen r \<longrightarrow> rs_openUntil r \<noteq> None \<and> (\<exists>c. holds_probe (ph c)))"

definition busy :: "(nat \<Rightarrow> phase) \<Rightarrow> nat set" where "busy ph = {c. ph c \<noteq> Idle}"

definition slot_inv :: "sys \<Rightarrow> bool" where
  "slot_inv s = (case s of (r, ph) \<Rightarrow> finite (busy ph) \<and>
     (rc_MaxConcurrent (rs_cfg r) \<le> 0 \<or>
      rs_slots r = int (card (busy ph)) \<and> rs_slots r \<le> rc_MaxConcurrent (rs_cfg r)))"

lemma allow_cases:
  obtains e where "allow now r = (r, Inl e)"
  | "allow now r = (r, Inr False)"
  | "allow now r = (r\<lparr> rs_halfOpen := True \<rparr>, Inr True)" "rs_openUntil r \<noteq> None" "\<not> rs_halfOpen r"
proof (cases "rs_openUntil r")
  case None
  then show ?thesis using that(2) by (simp add: allow_def)
next
  case (Some u)
  consider "now < u" | "\<not> now < u" "rs_halfOpen r" | "\<not> now < u" "\<not> rs_halfOpen r" by blast
  then show ?thesis
  proof cases
    case 1
    with Some show ?thesis by (intro that(1)) (simp add: allow_def)
  next
    case 2
    with Some show ?thesis by (intro that(1)) (simp add: allow_def)
  next
    case 3
    with Some show ?thesis by (intro that(3)) (simp_all add: allow_def)
  qed
qed

lemma attempt_step_half:
  "attempt_step idem mx k a r = (r', nx, sent) \<Longrightarrow> rs_halfOpen r' \<Longrightarrow> rs_halfOpen r \<and> rs_openUntil r' = rs_openUntil r"
  by (auto simp: attempt_step_def Let_def onAbort_def onFailure_def onSuccess_def split: reply.splits if_splits)

lemma some_probe_kept:
  "\<exists>c. holds_probe (ph c) \<Longrightarrow> holds_probe (ph c) \<longrightarrow> holds_probe p \<Longrightarrow> \<exists>c'. holds_probe ((ph(c := p)) c')"
  by (metis fun_upd_apply)

lemma probe_inv_act:
  assumes inv: "probe_inv s" and step: "run_act a s = Some t"
  shows "probe_inv t"
proof (cases a)
  case (AAcquire c canc)
  with step inv show ?thesis
    by (cases s) (auto simp: probe_inv_def acquire_def split: phase.splits option.splits if_splits intro!: some_probe_kept)
next
  case (AEnter c idem now)
  obtain r ph where s: "s = (r, ph)" by fastforce
  from step AEnter s have ph: "ph c = Acquired" by (auto split: phase.splits)
  show ?thesis
  proof (cases rule: allow_cases [of now r])
    case 3
    with step ph AEnter s have "t = (r\<lparr> rs_halfOpen := True \<rparr>, ph(c := Running idem True 0))" by simp
    with 3 show ?thesis by (auto simp: probe_inv_def intro: exI [of _ c])
  qed (use step inv ph AEnter s in \<open>auto simp: probe_inv_def intro!: some_probe_kept\<close>)
next
  case (AAttempt c a)
  obtain r ph where s: "s = (r, ph)" by fastforce
  from step AAttempt s obtain idem probe k where ph: "ph c = Running idem probe k" by (auto split: phase.splits)
  obtain r' nx sent where st: "attempt_step idem (max_attempts idem r) k a r = (r', nx, sent)"
    using prod_cases3 by blast
  note half = attempt_step_half [OF st]
  show ?thesis
    using step inv AAttempt s ph st half
    by (cases nx) (auto simp: probe_inv_def intro!: some_probe_kept)
next
  case (AProbeDone c)
  with step show ?thesis by (cases s) (auto simp: probe_inv_def onProbeDone_def split: phase.splits)
next
  case (ARelease c)
  with step inv show ?thesis
    by (cases s) (auto simp: probe_inv_def release_def split: phase.splits if_splits intro!: some_probe_kept)
qed

lemma busy_upd: "busy (ph(c := p)) = (if p = Idle then busy ph - {c} else insert c (busy ph))"
  by (auto simp: busy_def)

lemma slot_inv_same:
  assumes "slot_inv (r, ph)" and "rs_cfg r' = rs_cfg r" and "rs_slots r' = rs_slots r" and "ph c \<noteq> Idle" and "p \<noteq> Idle"
  shows "slot_inv (r', ph(c := p))"
proof -
  have "busy (ph(c := p)) = busy ph" using assms(4,5) by (auto simp: busy_def)
  with assms(1-3) show ?thesis by (simp add: slot_inv_def)
qed

lemma slot_inv_act:
  assumes inv: "slot_inv s" and step: "run_act a s = Some t"
  shows "slot_inv t"
proof -
  obtain r ph where s: "s = (r, ph)" by fastforce
  show ?thesis
  proof (cases a)
    case (AAcquire c canc)
    with step s obtain r' where ph: "ph c = Idle" and r': "acquire canc r = Some r'" and t: "t = (r', ph(c := Acquired))"
      by (auto split: phase.splits option.splits)
    have "c \<notin> busy ph" using ph by (simp add: busy_def)
    with inv r' show ?thesis
      by (auto simp: t s slot_inv_def busy_upd acquire_def split: if_splits)
  next
    case (AEnter c idem now)
    with step s have ph: "ph c = Acquired" by (auto split: phase.splits)
    show ?thesis
      using step inv ph AEnter s
      by (cases rule: allow_cases [of now r]) (auto intro!: slot_inv_same)
  next
    case (AAttempt c a)
    with step s obtain idem probe k where ph: "ph c = Running idem probe k" by (auto split: phase.splits)
    obtain r' nx sent where st: "attempt_step idem (max_attempts idem r) k a r = (r', nx, sent)"
      using prod_cases3 by blast
    show ?thesis
      using step inv AAttempt s ph st attempt_step_cfg [OF st]
      by (cases nx) (auto intro!: slot_inv_same split: if_splits)
  next
    case (AProbeDone c)
    with step s inv show ?thesis by (auto simp: onProbeDone_def split: phase.splits intro!: slot_inv_same)
  next
    case (ARelease c)
    with step s have ph: "ph c = Leaving" and t: "t = (release r, ph(c := Idle))" by (auto split: phase.splits)
    have c: "c \<in> busy ph" using ph by (simp add: busy_def)
    with inv s have "finite (busy ph)" by (simp add: slot_inv_def)
    with c have "0 < card (busy ph)" "card (busy ph - {c}) = card (busy ph) - 1" by (auto simp: card_gt_0_iff)
    with inv s show ?thesis by (auto simp: t slot_inv_def busy_upd release_def)
  qed
qed

interpretation probe: invariant_system "binit cfg" bstep probe_inv for cfg
proof
  show "binit cfg s \<Longrightarrow> probe_inv s" for s by (simp add: binit_def probe_inv_def NewResilience_def)
  show "probe_inv s \<Longrightarrow> bstep s t \<Longrightarrow> probe_inv t" for s t by (auto elim: bstep.cases intro: probe_inv_act)
qed

interpretation slots: invariant_system "binit cfg" bstep slot_inv for cfg
proof
  show "binit cfg s \<Longrightarrow> slot_inv s" for s
    using normalize_config_ok [of cfg] by (auto simp: binit_def slot_inv_def NewResilience_def busy_def config_ok_def)
  show "slot_inv s \<Longrightarrow> bstep s t \<Longrightarrow> slot_inv t" for s t by (auto elim: bstep.cases intro: slot_inv_act)
qed




section \<open>Properties\<close>

text \<open>The limits a client runs with are always in range, whatever configuration it is built from,
  and a configuration already in range is used as it is.\<close>

theorem normalized_limits_in_range:
  "config_ok (rs_cfg (NewResilience cfg)) \<and> (\<not> config_ok cfg \<or> rs_cfg (NewResilience cfg) = cfg)"
  using normalize_config_ok normalize_config_fix by (auto simp: NewResilience_def)

lemma normalized_limits_in_range_witness:
  "rs_cfg (NewResilience DefaultResilienceConfig) = DefaultResilienceConfig"
proof -
  have "config_ok DefaultResilienceConfig" by code_simp
  then show ?thesis using normalized_limits_in_range [of DefaultResilienceConfig] by blast
qed

lemma default_config_ok: "config_ok (rs_cfg (NewResilience DefaultResilienceConfig))"
  by (simp add: NewResilience_def normalize_config_ok)

text \<open>A retry delay lies between zero and the configured maximum, also for a huge or negative
  Retry-After and whatever the clock, and never wraps around; without a usable Retry-After the range
  of the jitter doubles with every retry until it reaches the maximum.\<close>

theorem retryBackoff_bounds:
  assumes "config_ok (rs_cfg r)" and "\<And>n. 0 < n \<Longrightarrow> 0 \<le> intn n \<and> intn n < n"
  shows "0 \<le> retryBackoff parseTime intn (Some r) attempt ra now \<and>
    retryBackoff parseTime intn (Some r) attempt ra now \<le> rc_MaxBackoff (rs_cfg r) \<and>
    (ra \<noteq> None \<or> attempt < 1 \<or>
     retryBackoff parseTime intn (Some r) attempt ra now \<le> rc_InitialBackoff (rs_cfg r) * 2 ^ nat (attempt - 1) \<or>
     rc_MaxBackoff (rs_cfg r) div 2 \<le> rc_InitialBackoff (rs_cfg r) * 2 ^ nat (attempt - 2))"
proof -
  define maxb base n where "maxb = rc_MaxBackoff (rs_cfg r)" and "base = rc_InitialBackoff (rs_cfg r)"
    and "n = nat (attempt - 1)"
  define b where "b = backoff_loop maxb n base"
  have c: "0 \<le> base" "base \<le> maxb" "maxb < 2 ^ 63" "0 < base"
    using assms(1) by (auto simp: config_ok_def resilience_limits maxb_def base_def)
  note bnd = backoff_loop_bounds [OF c(1-3), of n, folded b_def]
  have jit: "0 \<le> intn (b + 1) \<and> intn (b + 1) \<le> b" using assms(2) [of "b + 1"] bnd c(1) by force
  have closed: "b \<le> base * 2 ^ n \<or> maxb div 2 \<le> base * 2 ^ (n - 1)" if "n \<noteq> 0"
    using that unfolding b_def backoff_loop_closed [OF c(1-3)] by auto
  have n: "n - 1 = nat (attempt - 2)" unfolding n_def by simp
  have "0 \<le> retryBackoff parseTime intn (Some r) attempt ra now" "retryBackoff parseTime intn (Some r) attempt ra now \<le> maxb"
    using c bnd jit by (auto simp: retryBackoff_def Let_def maxb_def base_def n_def b_def)
  moreover have "retryBackoff parseTime intn (Some r) attempt None now = intn (b + 1)"
    using c bnd by (auto simp: retryBackoff_def Let_def maxb_def base_def n_def b_def)
  moreover have "b = base" if "n = 0" using that by (simp add: b_def)
  ultimately show ?thesis
    using jit closed unfolding n [symmetric] n_def [symmetric] maxb_def [symmetric] base_def [symmetric]
    by (cases "n = 0"; cases ra) auto
qed

lemma retryBackoff_bounds_witness:
  "0 \<le> retryBackoff (\<lambda>_. None) (\<lambda>n. n - 1) (Some (NewResilience DefaultResilienceConfig)) 3 (Some ''99999999999999'') 0 \<and>
   retryBackoff (\<lambda>_. None) (\<lambda>n. n - 1) (Some (NewResilience DefaultResilienceConfig)) 3 (Some ''99999999999999'') 0
     \<le> rc_MaxBackoff (rs_cfg (NewResilience DefaultResilienceConfig))"
  using retryBackoff_bounds [of "NewResilience DefaultResilienceConfig" "\<lambda>n. n - 1" "\<lambda>_. None" 3 "Some ''99999999999999''" 0]
    default_config_ok by simp

text \<open>C35: a call sends a bounded number of requests: at most one unless its method is GET or HEAD, at most
  eleven then, and none while the breaker is open.\<close>

theorem requests_per_call:
  assumes "callJenkins http_method early cancelled now net r = (r', res, n)" and "config_ok (rs_cfg r)"
  shows "int n \<le> (if IsIdempotentRetryMethod http_method then 1 + rc_MaxRetries (rs_cfg r) else 1) \<and> n \<le> 11 \<and>
    (n = 0 \<or> (case rs_openUntil r of None \<Rightarrow> True | Some u \<Rightarrow> u \<le> now))"
proof (cases "n = 0")
  case True
  then show ?thesis using assms(2) by (simp add: config_ok_def)
next
  case False
  with assms(1) obtain r1 r2 r3 probe where acq: "acquire cancelled r = Some r1" and al: "allow now r1 = (r2, Inr probe)"
    and loop: "call_loop (IsIdempotentRetryMethod http_method) (max_attempts (IsIdempotentRetryMethod http_method) r2) net
      (max_attempts (IsIdempotentRetryMethod http_method) r2) r2 = (r3, res, n)"
    by (auto simp: callJenkins_def Let_def split: if_splits option.splits prod.splits sum.splits)
  have same: "rs_cfg r1 = rs_cfg r" "rs_openUntil r1 = rs_openUntil r"
    using acq by (auto simp: acquire_def split: if_splits)
  have cfg: "rs_cfg r2 = rs_cfg r" using al same by (cases rule: allow_cases [of now r1]) auto
  have "n \<le> max_attempts (IsIdempotentRetryMethod http_method) r2" using call_loop_sent [OF loop] .
  moreover have "case rs_openUntil r of None \<Rightarrow> True | Some u \<Rightarrow> u \<le> now"
    using al same by (auto simp: allow_def split: option.splits if_splits)
  ultimately show ?thesis
    using assms(2) cfg by (auto simp: max_attempts_def config_ok_def AbsoluteMaxRetries_def split: if_splits)
qed

definition slowReply :: "int \<Rightarrow> int \<Rightarrow> Attempt" where
  "slowReply code now = \<lparr> at_slept = True, at_built = True, at_reply = Status code, at_now = now, at_wrapped = True \<rparr>"

lemma requests_per_call_witness:
  "snd (snd (callJenkins ''get'' False False 0 (\<lambda>k. slowReply 503 (int k)) (NewResilience DefaultResilienceConfig))) = 3 \<and>
   snd (snd (callJenkins ''POST'' False False 0 (\<lambda>k. slowReply 503 (int k)) (NewResilience DefaultResilienceConfig))) \<le> 11"
proof
  show "snd (snd (callJenkins ''get'' False False 0 (\<lambda>k. slowReply 503 (int k)) (NewResilience DefaultResilienceConfig))) = 3"
    by code_simp
  obtain r' res n where c: "callJenkins ''POST'' False False 0 (\<lambda>k. slowReply 503 (int k)) (NewResilience DefaultResilienceConfig) = (r', res, n)"
    using prod_cases3 by blast
  from requests_per_call [OF c default_config_ok] c
  show "snd (snd (callJenkins ''POST'' False False 0 (\<lambda>k. slowReply 503 (int k)) (NewResilience DefaultResilienceConfig))) \<le> 11"
    by simp
qed






definition failingCall :: "nat \<Rightarrow> act list" where
  "failingCall c = [AAcquire c False, AEnter c False 0, AAttempt c (slowReply 503 0), ARelease c]"


text \<open>The semaphore bounds concurrency: in every interleaving the number of calls past \<open>acquire\<close>
  is at most the configured maximum, when there is one.\<close>

theorem concurrency_bounded:
  assumes "reach (binit cfg) bstep (r, ph)" and "0 < rc_MaxConcurrent (rs_cfg r)"
  shows "finite {c. ph c \<noteq> Idle} \<and> int (card {c. ph c \<noteq> Idle}) \<le> rc_MaxConcurrent (rs_cfg r)"
  using slots.inv_reach [OF assms(1)] assms(2) by (auto simp: slot_inv_def busy_def)

lemma concurrency_bounded_witness:
  "\<exists>r ph. reach (binit (DefaultResilienceConfig\<lparr> rc_MaxConcurrent := 1 \<rparr>)) bstep (r, ph) \<and> ph 7 = Acquired \<and>
     int (card {c. ph c \<noteq> Idle}) \<le> rc_MaxConcurrent (rs_cfg r)"
proof -
  let ?cfg = "DefaultResilienceConfig\<lparr> rc_MaxConcurrent := 1 \<rparr>"
  have run: "case run_acts [AAcquire 7 False] (NewResilience ?cfg, \<lambda>_. Idle) of None \<Rightarrow> False
    | Some (r, ph) \<Rightarrow> ph 7 = Acquired \<and> 0 < rc_MaxConcurrent (rs_cfg r)" by code_simp
  obtain r ph where s: "run_acts [AAcquire 7 False] (NewResilience ?cfg, \<lambda>_. Idle) = Some (r, ph)"
    using run by (cases "run_acts [AAcquire 7 False] (NewResilience ?cfg, \<lambda>_. Idle)") auto
  have reach: "reach (binit ?cfg) bstep (r, ph)"
    using s by (rule reach_acts) (rule reach_init, simp add: binit_def)
  have "0 < rc_MaxConcurrent (rs_cfg r)" "ph 7 = Acquired" using run s by simp_all
  with concurrency_bounded [OF reach] reach show ?thesis by blast
qed

text \<open>The reported state explains admission: in every reachable state, calls pass without probing
  exactly when the state is closed, are refused when it is open, and in the half-open state one is
  admitted as the probe exactly when no probe holds the slot.\<close>

theorem state_explains_admission:
  assumes "reach (binit cfg) bstep (r, ph)"
  shows "(cs_State (Resilience_State now (Some r)) = ''closed'' \<longleftrightarrow> snd (allow now r) = Inr False) \<and>
    (cs_State (Resilience_State now (Some r)) = ''half-open'' \<longleftrightarrow> snd (allow now r) \<in> {Inr True, Inl HalfOpenProbe}) \<and>
    (snd (allow now r) = Inl HalfOpenProbe \<longleftrightarrow> rs_halfOpen r \<and> cs_State (Resilience_State now (Some r)) = ''half-open'')"
  using probe.inv_reach [OF assms]
  by (cases "rs_openUntil r") (auto simp: probe_inv_def Resilience_State_def allow_def)

lemma state_explains_admission_witness:
  "cs_State (Resilience_State 5 (Some (NewResilience DefaultResilienceConfig))) = ''closed'' \<longleftrightarrow>
     snd (allow 5 (NewResilience DefaultResilienceConfig)) = Inr False"
proof -
  have "reach (binit DefaultResilienceConfig) bstep (NewResilience DefaultResilienceConfig, \<lambda>_. Idle)"
    by (rule reach_init) (simp add: binit_def)
  from state_explains_admission [OF this, of 5] show ?thesis by blast
qed

lemma failures_fold:
  fixes ts :: "int list" and cfg :: ResilienceConfig
  defines "r \<equiv> fold onFailure ts (NewResilience cfg)"
  shows "rs_cfg r = normalizeResilienceConfig cfg \<and> \<not> rs_halfOpen r \<and> rs_failures r = int (length ts) \<and>
    rs_openUntil r = (if int (length ts) < rc_CircuitFailureThreshold (rs_cfg r) then None
      else Some (last ts + rc_CircuitOpenDuration (rs_cfg r)))"
  unfolding r_def
proof (induction ts rule: rev_induct)
  case Nil
  have "0 < rc_CircuitFailureThreshold (normalizeResilienceConfig cfg)"
    using normalize_config_ok [of cfg] by (simp add: config_ok_def)
  then show ?case by (simp add: NewResilience_def)
next
  case (snoc t ts)
  define r0 where "r0 = fold onFailure ts (NewResilience cfg)"
  have step: "fold onFailure (ts @ [t]) (NewResilience cfg) = onFailure t r0" by (simp add: r0_def)
  from snoc show ?case unfolding step r0_def [symmetric] by (auto simp: onFailure_def Let_def)
qed

text \<open>The breaker opens at its threshold: starting closed, after failures at the instants \<open>ts\<close> it is
  closed while there are fewer than the threshold, and open until the open period after the last
  failure from then on; one success closes it again.\<close>

theorem breaker_opens_at_threshold:
  "rs_openUntil (fold onFailure ts (NewResilience cfg)) =
     (if int (length ts) < rc_CircuitFailureThreshold (rs_cfg (NewResilience cfg)) then None
      else Some (last ts + rc_CircuitOpenDuration (rs_cfg (NewResilience cfg)))) \<and>
   allow now (onSuccess (fold onFailure ts (NewResilience cfg))) = (onSuccess (fold onFailure ts (NewResilience cfg)), Inr False)"
  using failures_fold [of ts cfg] by (auto simp: allow_def onSuccess_def NewResilience_def)

definition probeRace :: "act list" where
  "probeRace = concat (replicate 5 (failingCall 3)) @
     [AAcquire 0 False, AEnter 0 True (15 * second), AAttempt 0 (slowReply 503 (16 * second)),
      AAcquire 1 False, AEnter 1 True (31 * second),
      AAttempt 0 (slowReply 500 (32 * second)), AProbeDone 0, ARelease 0,
      AAcquire 2 False, AEnter 2 True (47 * second)]"

text \<open>The single half-open probe is not single: from a new client with the default limits a state is
  reachable in which two calls were both admitted as the probe and both still wait for their first
  reply. (A probe that fails retries while the breaker is open; when it ends it gives up a slot that
  by then belongs to a later probe.)\<close>

theorem two_probes_in_flight:
  "\<exists>r ph. reach (binit DefaultResilienceConfig) bstep (r, ph) \<and>
     ph 1 = Running True True 0 \<and> ph 2 = Running True True 0 \<and> rs_halfOpen r"
proof -
  have run: "case run_acts probeRace (NewResilience DefaultResilienceConfig, \<lambda>_. Idle) of None \<Rightarrow> False
    | Some (r, ph) \<Rightarrow> ph 1 = Running True True 0 \<and> ph 2 = Running True True 0 \<and> rs_halfOpen r" by code_simp
  obtain r ph where s: "run_acts probeRace (NewResilience DefaultResilienceConfig, \<lambda>_. Idle) = Some (r, ph)"
    using run by (cases "run_acts probeRace (NewResilience DefaultResilienceConfig, \<lambda>_. Idle)") auto
  have "reach (binit DefaultResilienceConfig) bstep (r, ph)"
    using s by (rule reach_acts) (rule reach_init, simp add: binit_def)
  with run s show ?thesis by auto
qed

end
