(* ===== verification/Contracts.thy ===== *)
theory Contracts
  imports PatternCorrect
begin

text \<open>
  The references tools exchange (\<open>internal/contracts/refs.go\<close>) and the validation of tool arguments
  (\<open>internal/contracts/validate.go\<close>): job names, build numbers, queue ids and log ranges. A validation
  returns the reference or the \<open>FieldError\<close>. Message texts are the source's without their inner
  quotation marks. The last section shows that a job name this gate accepts is, letter by letter,
  the name the policy matcher sees.
\<close>

section \<open>References\<close>

type_synonym ProfileID = string

record JobRef =
  jr_Profile :: ProfileID
  jr_FullName :: string

record BuildRef =
  br_Job :: JobRef
  br_Number :: int

record QueueItemRef =
  qr_Profile :: ProfileID
  qr_ID :: int

record LogGenerationRef =
  lg_Build :: BuildRef
  lg_Generation :: string

record StageRef =
  sg_Build :: BuildRef
  sg_ID :: string
  sg_Name :: string

record TestRef =
  te_Build :: BuildRef
  te_Suite :: string
  te_ClassName :: string
  te_Name :: string

record ArtifactRef =
  ar_Build :: BuildRef
  ar_Path :: string

record NodeRef =
  nr_Profile :: ProfileID
  nr_Name :: string

record LogEvidenceRef =
  le_Build :: BuildRef
  le_Offset :: int
  le_Length :: int
  le_Generation :: string

definition JobRef_String :: "JobRef \<Rightarrow> string" where
  "JobRef_String j = (if jr_Profile j = [] then jr_FullName j else jr_FullName j @ ''@'' @ jr_Profile j)"

definition JobRef_Valid :: "JobRef \<Rightarrow> bool" where
  "JobRef_Valid j = (jr_FullName j \<noteq> [])"

definition BuildRef_String :: "BuildRef \<Rightarrow> string" where
  "BuildRef_String b = JobRef_String (br_Job b) @ ''#'' @ show_int (br_Number b)"

definition BuildRef_Valid :: "BuildRef \<Rightarrow> bool" where
  "BuildRef_Valid b = (JobRef_Valid (br_Job b) \<and> br_Number b > 0)"

definition QueueItemRef_String :: "QueueItemRef \<Rightarrow> string" where
  "QueueItemRef_String q =
     (if qr_Profile q = [] then ''queue:'' @ show_int (qr_ID q)
      else ''queue:'' @ show_int (qr_ID q) @ ''@'' @ qr_Profile q)"

definition QueueItemRef_Valid :: "QueueItemRef \<Rightarrow> bool" where
  "QueueItemRef_Valid q = (qr_ID q > 0)"

definition LogGenerationRef_String :: "LogGenerationRef \<Rightarrow> string" where
  "LogGenerationRef_String l = BuildRef_String (lg_Build l) @ ''/log:'' @ lg_Generation l"

definition LogGenerationRef_Valid :: "LogGenerationRef \<Rightarrow> bool" where
  "LogGenerationRef_Valid l = (BuildRef_Valid (lg_Build l) \<and> lg_Generation l \<noteq> [])"

definition StageRef_String :: "StageRef \<Rightarrow> string" where
  "StageRef_String s =
     (if sg_Name s \<noteq> [] then BuildRef_String (sg_Build s) @ ''/stage:'' @ sg_ID s @ ''('' @ sg_Name s @ '')''
      else BuildRef_String (sg_Build s) @ ''/stage:'' @ sg_ID s)"

definition StageRef_Valid :: "StageRef \<Rightarrow> bool" where
  "StageRef_Valid s = (BuildRef_Valid (sg_Build s) \<and> sg_ID s \<noteq> [])"

definition TestRef_String :: "TestRef \<Rightarrow> string" where
  "TestRef_String t =
     (let parts = te_Name t;
          parts = (if te_ClassName t \<noteq> [] then te_ClassName t @ ''.'' @ parts else parts);
          parts = (if te_Suite t \<noteq> [] then te_Suite t @ ''/'' @ parts else parts)
      in BuildRef_String (te_Build t) @ ''/test:'' @ parts)"

definition TestRef_Valid :: "TestRef \<Rightarrow> bool" where
  "TestRef_Valid t = (BuildRef_Valid (te_Build t) \<and> te_Name t \<noteq> [])"

definition ArtifactRef_String :: "ArtifactRef \<Rightarrow> string" where
  "ArtifactRef_String a = BuildRef_String (ar_Build a) @ ''/artifact:'' @ ar_Path a"

definition ArtifactRef_Valid :: "ArtifactRef \<Rightarrow> bool" where
  "ArtifactRef_Valid a = (BuildRef_Valid (ar_Build a) \<and> ar_Path a \<noteq> [])"

definition NodeRef_String :: "NodeRef \<Rightarrow> string" where
  "NodeRef_String n =
     (if nr_Profile n = [] then ''node:'' @ nr_Name n else ''node:'' @ nr_Name n @ ''@'' @ nr_Profile n)"

definition NodeRef_Valid :: "NodeRef \<Rightarrow> bool" where
  "NodeRef_Valid n = (nr_Name n \<noteq> [])"

definition LogEvidenceRef_String :: "LogEvidenceRef \<Rightarrow> string" where
  "LogEvidenceRef_String l =
     (if le_Generation l \<noteq> [] then BuildRef_String (le_Build l) @ ''/log:'' @ le_Generation l @ ''@'' @
        show_int (le_Offset l) @ ''+'' @ show_int (le_Length l)
      else BuildRef_String (le_Build l) @ ''/log@'' @ show_int (le_Offset l) @ ''+'' @ show_int (le_Length l))"

definition LogEvidenceRef_Valid :: "LogEvidenceRef \<Rightarrow> bool" where
  "LogEvidenceRef_Valid l =
     (if \<not> BuildRef_Valid (le_Build l) then False
      else if le_Generation l \<noteq> [] then True
      else le_Length l > 0 \<and> le_Offset l \<ge> 0)"

section \<open>Validation errors\<close>

record FieldError =
  fe_Field :: string
  fe_Message :: string
  fe_Allowed :: string

definition FieldError_Error :: "FieldError option \<Rightarrow> string" where
  "FieldError_Error eo =
     (case eo of None \<Rightarrow> ''invalid argument''
      | Some e \<Rightarrow>
          let msg = fe_Message e;
              msg = (if fe_Field e \<noteq> [] then fe_Field e @ '': '' @ fe_Message e else msg)
          in if fe_Allowed e \<noteq> [] then msg @ ''; allowed form: '' @ fe_Allowed e else msg)"

definition AllowedJobForm :: string where
  "AllowedJobForm = ''Jenkins job full name path such as job or folder/sub/job (relative; not an http(s) URL or absolute path; no . or .. segments)''"

definition AllowedBuildForm :: string where
  "AllowedBuildForm = ''job full name plus positive build_number''"

definition AllowedQueueForm :: string where
  "AllowedQueueForm = ''positive queue_id (optional profile id)''"

definition AllowedLogEvidenceForm :: string where
  "AllowedLogEvidenceForm = ''job full name, positive build_number, non-negative offset, positive length; or build + generation handle''"

abbreviation fieldErr :: "string \<Rightarrow> string \<Rightarrow> string \<Rightarrow> FieldError" where
  "fieldErr f m a \<equiv> \<lparr> fe_Field = f, fe_Message = m, fe_Allowed = a \<rparr>"

section \<open>Job names\<close>

definition IsAbsoluteHTTPURL :: "string \<Rightarrow> bool" where
  "IsAbsoluteHTTPURL s0 =
     (let s = trim_space s0 in
      if s = [] then False
      else let lower = to_lower s in
        if has_prefix lower ''http://'' \<or> has_prefix lower ''https://'' then True
        else has_prefix s ''//'')"

definition looksLikeSchemeURL :: "string \<Rightarrow> bool" where
  "looksLikeSchemeURL s0 =
     (let s = trim_space s0 in
      if s = [] then False
      else if IsAbsoluteHTTPURL s then True
      else let lower = to_lower s in
        list_ex (has_prefix lower)
          [''file:'', ''jenkins:'', ''ftp:'', ''ftps:'', ''data:'', ''javascript:'', ''ws:'', ''wss:''])"

definition control_char :: "char \<Rightarrow> bool" where
  "control_char c = (let r = (of_char c :: nat) in r = 0 \<or> (r < 0x20 \<and> c \<noteq> CHR 0x09))"

fun checkSegments :: "string \<Rightarrow> string list \<Rightarrow> FieldError option" where
  "checkSegments field [] = None"
| "checkSegments field (seg # segs) =
     (if seg = [] then Some (fieldErr field
        ''empty path segment is not allowed (use a single / between folder and job names; no leading or trailing slash)'' AllowedJobForm)
      else if seg = ''.'' \<or> seg = ''..'' then Some (fieldErr field
        ''path segment . or .. is not allowed (pass a relative job full name without path traversal)'' AllowedJobForm)
      else checkSegments field segs)"

definition ParseJobFullName :: "string \<Rightarrow> string \<Rightarrow> FieldError + JobRef" where
  "ParseJobFullName field0 raw =
     (let field = (if field0 = [] then ''job_name'' else field0); name = trim_space raw in
      if name = [] then Inl (fieldErr field ''missing or empty'' AllowedJobForm)
      else if IsAbsoluteHTTPURL name \<or> looksLikeSchemeURL name then Inl (fieldErr field
        ''absolute or scheme URL is not allowed (pass the Jenkins job full name, not a browser URL)'' AllowedJobForm)
      else if list_ex control_char name then Inl (fieldErr field ''contains control characters'' AllowedJobForm)
      else if has_prefix name ''/'' then Inl (fieldErr field
        ''absolute path form is not allowed (pass a relative job full name such as folder/job)'' AllowedJobForm)
      else case checkSegments field (split_on CHR ''/'' name) of
        Some e \<Rightarrow> Inl e
      | None \<Rightarrow> Inr \<lparr> jr_Profile = [], jr_FullName = name \<rparr>)"

definition ParseJobRef :: "string \<Rightarrow> JobRef \<Rightarrow> FieldError + JobRef" where
  "ParseJobRef field0 job =
     (let field = (if field0 = [] then ''job'' else field0) in
      case ParseJobFullName field (jr_FullName job) of
        Inl e \<Rightarrow> Inl e
      | Inr parsed \<Rightarrow> Inr (parsed\<lparr> jr_Profile := jr_Profile job \<rparr>))"

definition ParseBuildRef :: "string \<Rightarrow> string \<Rightarrow> string \<Rightarrow> int \<Rightarrow> FieldError + BuildRef" where
  "ParseBuildRef jobField0 jobName numberField0 number =
     (let jobField = (if jobField0 = [] then ''job_name'' else jobField0);
          numberField = (if numberField0 = [] then ''build_number'' else numberField0) in
      case ParseJobFullName jobField jobName of
        Inl e \<Rightarrow> Inl e
      | Inr job \<Rightarrow>
          if number \<le> 0 then Inl (fieldErr numberField ''must be a positive integer'' AllowedBuildForm)
          else Inr \<lparr> br_Job = job, br_Number = number \<rparr>)"

definition ParseQueueItemRef :: "string \<Rightarrow> int \<Rightarrow> ProfileID \<Rightarrow> FieldError + QueueItemRef" where
  "ParseQueueItemRef idField0 i profile =
     (let idField = (if idField0 = [] then ''queue_id'' else idField0) in
      if i \<le> 0 then Inl (fieldErr idField ''must be a positive integer'' AllowedQueueForm)
      else Inr \<lparr> qr_Profile = profile, qr_ID = i \<rparr>)"

definition ParseLogEvidenceRef ::
  "string \<Rightarrow> string \<Rightarrow> string \<Rightarrow> int \<Rightarrow> int \<Rightarrow> int \<Rightarrow> string \<Rightarrow> int \<Rightarrow> FieldError + LogEvidenceRef" where
  "ParseLogEvidenceRef jobField jobName numberField number offset len0 gen0 lengthDefault =
     (case ParseBuildRef jobField jobName numberField number of
        Inl e \<Rightarrow> Inl e
      | Inr build \<Rightarrow>
          let gen = trim_space gen0 in
          if offset < 0 then Inl (fieldErr ''offset'' ''must be >= 0'' AllowedLogEvidenceForm)
          else if gen \<noteq> [] then Inr \<lparr> le_Build = build, le_Offset = offset, le_Length = len0, le_Generation = gen \<rparr>
          else if len0 \<le> 0 \<and> lengthDefault \<le> 0 then
            Inl (fieldErr ''length'' ''must be a positive integer (or provide generation)'' AllowedLogEvidenceForm)
          else Inr \<lparr> le_Build = build, le_Offset = offset,
            le_Length = (if len0 \<le> 0 then lengthDefault else len0), le_Generation = [] \<rparr>)"

section \<open>Accepted names\<close>

lemma checkSegments_None:
  "checkSegments field segs = None \<longleftrightarrow> list_all (\<lambda>s. s \<noteq> [] \<and> s \<noteq> ''.'' \<and> s \<noteq> ''..'') segs"
  by (induction segs) auto

lemma checkSegments_field: "checkSegments field segs = Some e \<Longrightarrow> fe_Field e = field \<and> fe_Allowed e = AllowedJobForm"
  by (induction segs) (auto split: if_splits)

lemma normalizeSegments_clean:
  "list_all (\<lambda>s. s \<noteq> [] \<and> s \<noteq> ''.'' \<and> s \<noteq> ''..'') segs \<Longrightarrow> normalizeSegments segs = Some segs"
  by (induction segs) auto

lemma ParseJobFullName_ok:
  assumes "ParseJobFullName field raw = Inr r"
  shows "r = \<lparr> jr_Profile = [], jr_FullName = trim_space raw \<rparr>" and "trim_space raw \<noteq> []"
    and "list_all (\<lambda>s. s \<noteq> [] \<and> s \<noteq> ''.'' \<and> s \<noteq> ''..'') (split_on CHR ''/'' (trim_space raw))"
    and "\<not> list_ex control_char (trim_space raw)"
    and "\<not> looksLikeSchemeURL (trim_space raw)"
  using assms by (auto simp: ParseJobFullName_def Let_def checkSegments_None split: if_splits option.splits)

lemma ParseJobFullName_err:
  assumes "ParseJobFullName field raw = Inl e"
  shows "fe_Field e = (if field = [] then ''job_name'' else field) \<and> fe_Allowed e = AllowedJobForm"
  using assms by (auto simp: ParseJobFullName_def Let_def dest: checkSegments_field split: if_splits option.splits)

lemma clean_normalizes:
  assumes "s \<noteq> []" and "trim_space s = s" and "list_all (\<lambda>g. g \<noteq> [] \<and> g \<noteq> ''.'' \<and> g \<noteq> ''..'') (split_on CHR ''/'' s)"
  shows "NormalizeJobFullName s = Some s"
  using assms by (simp add: NormalizeJobFullName_def normalizeSegments_clean join_split_on)

text \<open>The tool-argument gate and the policy agree on names: a job name the gate accepts is returned
  exactly as the policy normalises it, so the name sent to Jenkins is the name that was checked; and
  accepting it again changes nothing.\<close>

theorem parsed_name_is_policy_name:
  assumes "ParseJobFullName field raw = Inr r"
  shows "NormalizeJobFullName raw = Some (jr_FullName r) \<and> ParseJobFullName field (jr_FullName r) = Inr r"
proof -
  note ok = ParseJobFullName_ok [OF assms]
  have "NormalizeJobFullName (trim_space raw) = Some (trim_space raw)"
    by (rule clean_normalizes) (use ok in auto)
  moreover have "NormalizeJobFullName (trim_space raw) = NormalizeJobFullName raw"
    by (simp add: NormalizeJobFullName_def)
  moreover have "ParseJobFullName field (trim_space raw) = ParseJobFullName field raw"
    by (simp add: ParseJobFullName_def)
  ultimately show ?thesis using assms ok(1) by simp
qed

lemma parsed_name_is_policy_name_witness:
  "NormalizeJobFullName '' team/app '' = Some ''team/app''"
proof -
  have "ParseJobFullName ''name'' '' team/app '' = Inr \<lparr> jr_Profile = [], jr_FullName = ''team/app'' \<rparr>" by code_simp
  from parsed_name_is_policy_name [OF this] show ?thesis by simp
qed

text \<open>A validated build reference is valid, and a refused one names the field at fault.\<close>

theorem ParseBuildRef_sound:
  "case ParseBuildRef jf jn nf n of
     Inr b \<Rightarrow> BuildRef_Valid b \<and> br_Number b = n \<and> NormalizeJobFullName jn = Some (jr_FullName (br_Job b))
   | Inl e \<Rightarrow> fe_Field e = (if fe_Allowed e = AllowedBuildForm then (if nf = [] then ''build_number'' else nf)
                            else (if jf = [] then ''job_name'' else jf))"
proof (cases "ParseJobFullName (if jf = [] then ''job_name'' else jf) jn")
  case (Inl e)
  then have "fe_Allowed e = AllowedJobForm \<and> fe_Field e = (if jf = [] then ''job_name'' else jf)"
    using ParseJobFullName_err [OF Inl] by auto
  moreover have "AllowedJobForm \<noteq> AllowedBuildForm" by (simp add: AllowedJobForm_def AllowedBuildForm_def)
  ultimately show ?thesis using Inl by (simp add: ParseBuildRef_def Let_def)
next
  case (Inr r)
  note ok = ParseJobFullName_ok [OF Inr]
  have "NormalizeJobFullName (trim_space jn) = Some (trim_space jn)" by (rule clean_normalizes) (use ok in auto)
  then have "NormalizeJobFullName jn = Some (trim_space jn)" by (simp add: NormalizeJobFullName_def)
  with Inr ok(1,2) show ?thesis
    by (auto simp: ParseBuildRef_def Let_def BuildRef_Valid_def JobRef_Valid_def)
qed

end
