(* ===== verification/FleetManifest.thy ===== *)
theory FleetManifest
  imports Contracts Sha256 GoTime
begin

text \<open>
  Identities of the shared fleet cache: locators (\<open>internal/fleetcache/locator.go\<close>), admission of
  object kinds (\<open>object_class.go\<close>), sealed manifests (\<open>manifest.go\<close>), their wire form
  (\<open>protocol.go\<close>), publication (\<open>publish.go\<close>), progressive prefixes (\<open>running.go\<close>) and the merge of
  owner lookups (\<open>lookup.go\<close>). The wire form is the decoded struct; JSON decoding is not modelled.

  Offsets and sizes are 64-bit integers in Go and integers here. No operation on them can overflow:
  a start is compared with a cursor that begins at 0 before the difference of end and start is
  formed, and a sum of sizes equals the cursor reached so far.
\<close>

section \<open>Hexadecimal digests\<close>

definition hex_rune :: "char \<Rightarrow> bool" where
  "hex_rune c = (let r = (of_char c :: nat) in
     (48 \<le> r \<and> r \<le> 57) \<or> (97 \<le> r \<and> r \<le> 102) \<or> (65 \<le> r \<and> r \<le> 70))"

definition isHex :: "string \<Rightarrow> bool" where
  "isHex s = (if s = [] then False else list_all hex_rune s)"

abbreviation hash64 :: "string \<Rightarrow> bool" where
  "hash64 s \<equiv> length s = 64 \<and> isHex s"

definition hexSum :: "string \<Rightarrow> string" where
  "hexSum b = hex_encode (Sum256 b)"

section \<open>Admission of object kinds\<close>

definition ObjectKindConsoleLog :: string where "ObjectKindConsoleLog = ''console_log''"
definition DefaultMaxObjectRawBytesConsoleLog :: int where "DefaultMaxObjectRawBytesConsoleLog = 256 * 2 ^ 20"

record ObjectClassPolicy =
  oc_Kind :: string
  oc_Enabled :: bool
  oc_MaxObjectRawBytes :: int
  oc_ApprovalToken :: string
  oc_Residual :: string

type_synonym ObjectClassAdmission = "string \<rightharpoonup> ObjectClassPolicy"

definition DefaultObjectClassRegistry :: "(string \<times> ObjectClassPolicy) list" where
  "DefaultObjectClassRegistry =
     [(ObjectKindConsoleLog, \<lparr> oc_Kind = ObjectKindConsoleLog, oc_Enabled = True,
        oc_MaxObjectRawBytes = DefaultMaxObjectRawBytesConsoleLog, oc_ApprovalToken = ''flc_v1_console_log_sealed'',
        oc_Residual = ''v1 sealed completed console logs only'' \<rparr>)]"

text \<open>The registry is visited in the order of the list; keys that normalise alike overwrite each other.\<close>

fun NewObjectClassAdmission :: "(string \<times> ObjectClassPolicy) list \<Rightarrow> ObjectClassAdmission \<Rightarrow> ObjectClassAdmission" where
  "NewObjectClassAdmission [] a = a"
| "NewObjectClassAdmission ((k0, p) # reg) a =
     (let k = to_lower (trim_space k0) in
      if k = [] then NewObjectClassAdmission reg a
      else NewObjectClassAdmission reg (a(k \<mapsto> p\<lparr> oc_Kind := k,
             oc_MaxObjectRawBytes := (if oc_MaxObjectRawBytes p < 0 then 0 else oc_MaxObjectRawBytes p) \<rparr>)))"

definition DefaultObjectClassAdmission :: ObjectClassAdmission where
  "DefaultObjectClassAdmission = NewObjectClassAdmission DefaultObjectClassRegistry Map.empty"

datatype ObjectClassResidual = ObjectClassResidualAllowed | ObjectClassResidualUnknownDenied
  | ObjectClassResidualDisabled | ObjectClassResidualExceedsSizeLimit

record ObjectClassAdmitResult =
  oa_Allowed :: bool
  oa_Kind :: string
  oa_MaxObjectRawBytes :: int
  oa_ApprovalToken :: string
  oa_Residual :: ObjectClassResidual

definition AdmitObjectClass :: "ObjectClassAdmission option \<Rightarrow> string \<Rightarrow> int \<Rightarrow> ObjectClassAdmitResult" where
  "AdmitObjectClass ao kind0 rawBytes =
     (let kind = to_lower (trim_space kind0);
          out = \<lparr> oa_Allowed = False, oa_Kind = kind, oa_MaxObjectRawBytes = 0, oa_ApprovalToken = [],
                  oa_Residual = ObjectClassResidualUnknownDenied \<rparr> in
      if kind = [] then out
      else case ao of None \<Rightarrow> out
      | Some a \<Rightarrow> (case a kind of None \<Rightarrow> out
          | Some p \<Rightarrow>
              if \<not> oc_Enabled p then out\<lparr> oa_Residual := ObjectClassResidualDisabled, oa_ApprovalToken := oc_ApprovalToken p \<rparr>
              else let maxB = (if oc_MaxObjectRawBytes p \<le> 0 \<and> kind = ObjectKindConsoleLog
                               then DefaultMaxObjectRawBytesConsoleLog else oc_MaxObjectRawBytes p) in
                if rawBytes > 0 \<and> maxB > 0 \<and> rawBytes > maxB then
                  out\<lparr> oa_Residual := ObjectClassResidualExceedsSizeLimit, oa_MaxObjectRawBytes := maxB,
                       oa_ApprovalToken := oc_ApprovalToken p \<rparr>
                else out\<lparr> oa_Allowed := True, oa_MaxObjectRawBytes := maxB, oa_ApprovalToken := oc_ApprovalToken p,
                       oa_Residual := ObjectClassResidualAllowed \<rparr>))"

definition RequireObjectClass :: "string \<Rightarrow> int \<Rightarrow> apperr option" where
  "RequireObjectClass kind rawBytes =
     (let res = AdmitObjectClass (Some DefaultObjectClassAdmission) kind rawBytes in
      if oa_Allowed res then None
      else case oa_Residual res of
        ObjectClassResidualExceedsSizeLimit \<Rightarrow> Some (newErr CodeQuota ''object class exceeds size limit'')
      | ObjectClassResidualDisabled \<Rightarrow> Some (newErr CodePolicyDenial ''object class disabled'')
      | _ \<Rightarrow> Some (newErr CodePolicyDenial ''object class not approved for peer storage''))"

section \<open>Locators\<close>

definition LocatorSchemaVersion :: int where "LocatorSchemaVersion = 1"

record Locator =
  lc_FleetID :: string
  lc_CachePool :: string
  lc_ControllerID :: string
  lc_ObjectKind :: string
  lc_JobFullNameNormalized :: string
  lc_BuildNumber :: int
  lc_LocatorSchemaVersion :: int

abbreviation fc_bad :: "string \<Rightarrow> apperr" where
  "fc_bad m \<equiv> newErr CodeInvalidArgument m"

definition looksLikeLocalStoreKey :: "string \<Rightarrow> bool" where
  "looksLikeLocalStoreKey s0 =
     (case split_on CHR ''|'' (trim_space s0) of
        [a, b, c] \<Rightarrow> ParseInt64 c \<noteq> None \<and> a \<noteq> [] \<and> b \<noteq> []
      | _ \<Rightarrow> False)"

definition NewConsoleLogLocator :: "string \<Rightarrow> string \<Rightarrow> string \<Rightarrow> string \<Rightarrow> int \<Rightarrow> apperr + Locator" where
  "NewConsoleLogLocator fleetID0 cachePool0 controllerID0 jobFullName buildNumber =
     (let fleetID = trim_space fleetID0; cachePool = trim_space cachePool0; controllerID = trim_space controllerID0 in
      if fleetID = [] then Inl (fc_bad ''fleet_id is required for cache locator'')
      else if cachePool = [] then Inl (fc_bad ''cache_pool is required for cache locator'')
      else if controllerID = [] then Inl (fc_bad ''controller_id is required for cache locator'')
      else if buildNumber < 1 then Inl (fc_bad ''build_number must be >= 1'')
      else if looksLikeLocalStoreKey jobFullName then
        Inl (fc_bad ''job full name must not be a local store key (profile|job|build)'')
      else case ParseJobFullName ''job_full_name'' jobFullName of
        Inl e \<Rightarrow> Inl (fc_bad ''invalid job_full_name for cache locator'')
      | Inr ref \<Rightarrow> Inr \<lparr> lc_FleetID = fleetID, lc_CachePool = cachePool, lc_ControllerID = controllerID,
           lc_ObjectKind = ObjectKindConsoleLog, lc_JobFullNameNormalized = jr_FullName ref,
           lc_BuildNumber = buildNumber, lc_LocatorSchemaVersion = LocatorSchemaVersion \<rparr>)"

definition Locator_validate :: "Locator \<Rightarrow> apperr option" where
  "Locator_validate l =
     (if trim_space (lc_FleetID l) = [] \<or> trim_space (lc_CachePool l) = [] \<or>
         trim_space (lc_ControllerID l) = [] \<or> trim_space (lc_JobFullNameNormalized l) = [] then
        Some (fc_bad ''locator missing required fields'')
      else case RequireObjectClass (lc_ObjectKind l) 0 of
        Some e \<Rightarrow> Some e
      | None \<Rightarrow>
        if lc_LocatorSchemaVersion l \<noteq> LocatorSchemaVersion then Some (fc_bad ''unsupported locator_schema_version'')
        else if lc_BuildNumber l < 1 then Some (fc_bad ''build_number must be >= 1'')
        else if CHR 0x00 \<in> set (lc_JobFullNameNormalized l) then Some (fc_bad ''job_full_name contains NUL'')
        else None)"

text \<open>One line \<open>name=value\<close> of a canonical text.\<close>

definition canon_line :: "string \<Rightarrow> string \<Rightarrow> string" where
  "canon_line name v = name @ ''='' @ v @ [CHR 0x0A]"

definition Locator_CanonicalBytes :: "Locator \<Rightarrow> apperr + string" where
  "Locator_CanonicalBytes l =
     (case Locator_validate l of
        Some e \<Rightarrow> Inl e
      | None \<Rightarrow> Inr (
          canon_line ''fleet_id'' (lc_FleetID l) @
          canon_line ''cache_pool'' (lc_CachePool l) @
          canon_line ''controller_id'' (lc_ControllerID l) @
          canon_line ''object_kind'' (lc_ObjectKind l) @
          canon_line ''job_full_name'' (lc_JobFullNameNormalized l) @
          canon_line ''build_number'' (show_int (lc_BuildNumber l)) @
          canon_line ''locator_schema_version'' (show_int (lc_LocatorSchemaVersion l))))"

definition Locator_Hash :: "Locator \<Rightarrow> apperr + string" where
  "Locator_Hash l =
     (case Locator_CanonicalBytes l of Inl e \<Rightarrow> Inl e | Inr raw \<Rightarrow> Inr (hexSum raw))"

section \<open>Manifests\<close>

definition ManifestCodecZstd :: string where "ManifestCodecZstd = ''zstd-independent-v1''"

record FrameDescriptor =
  fd_Seq :: int
  fd_RawStart :: int
  fd_RawEnd :: int
  fd_LineStart :: int
  fd_LineEnd :: int
  fd_DecodedSize :: int
  fd_DecodedSHA256 :: string
  fd_ZstdSize :: int
  fd_ZstdSHA256 :: string

record ManifestV1 =
  mf_LocatorHash :: string
  mf_Sealed :: bool
  mf_FormatVersion :: int
  mf_Codec :: string
  mf_Frames :: "FrameDescriptor list"
  mf_TotalRawBytes :: int
  mf_TotalLines :: int

text \<open>The loop over the frames; the result is the line cursor and the sum of the decoded sizes.\<close>

fun checkFrames :: "int \<Rightarrow> int \<Rightarrow> int \<Rightarrow> int \<Rightarrow> FrameDescriptor list \<Rightarrow> apperr + int \<times> int" where
  "checkFrames expectSeq rawCursor lineCursor sumDecoded [] = Inr (lineCursor, sumDecoded)"
| "checkFrames expectSeq rawCursor lineCursor sumDecoded (f # fs) =
     (if fd_Seq f \<noteq> expectSeq then Inl (fc_bad ''manifest frame seq must be contiguous from 0'')
      else if fd_RawStart f \<noteq> rawCursor then Inl (fc_bad ''manifest frame raw ranges must be contiguous'')
      else if fd_RawEnd f < fd_RawStart f then Inl (fc_bad ''manifest frame raw_end < raw_start'')
      else if fd_LineStart f \<noteq> lineCursor then Inl (fc_bad ''manifest frame line ranges must be contiguous'')
      else if fd_LineEnd f < fd_LineStart f then Inl (fc_bad ''manifest frame line_end < line_start'')
      else if fd_DecodedSize f \<noteq> fd_RawEnd f - fd_RawStart f then
        Inl (fc_bad ''manifest frame decoded_size must match raw range'')
      else if fd_DecodedSize f < 0 \<or> fd_ZstdSize f < 1 then Inl (fc_bad ''manifest frame sizes invalid'')
      else if length (fd_DecodedSHA256 f) \<noteq> 64 \<or> \<not> isHex (fd_DecodedSHA256 f) then
        Inl (fc_bad ''manifest frame decoded_sha256 invalid'')
      else if length (fd_ZstdSHA256 f) \<noteq> 64 \<or> \<not> isHex (fd_ZstdSHA256 f) then
        Inl (fc_bad ''manifest frame zstd_sha256 invalid'')
      else if CHR ''/'' \<in> set (fd_DecodedSHA256 f) \<or> CHR ''/'' \<in> set (fd_ZstdSHA256 f) then
        Inl (fc_bad ''manifest digests must be hex only'')
      else checkFrames (expectSeq + 1) (fd_RawEnd f) (fd_LineEnd f) (sumDecoded + fd_DecodedSize f) fs)"

definition Manifest_validate :: "ManifestV1 \<Rightarrow> apperr option" where
  "Manifest_validate m =
     (if length (mf_LocatorHash m) \<noteq> 64 \<or> \<not> isHex (mf_LocatorHash m) then
        Some (fc_bad ''manifest locator_hash must be 64 hex chars'')
      else if \<not> mf_Sealed m then Some (fc_bad ''manifest must be sealed for fleet cache v1'')
      else if mf_FormatVersion m \<noteq> 1 then Some (fc_bad ''unsupported manifest format_version'')
      else if mf_Codec m \<noteq> ManifestCodecZstd then Some (fc_bad ''unsupported manifest codec'')
      else if mf_Frames m = [] then Some (fc_bad ''manifest requires at least one frame'')
      else if mf_TotalRawBytes m < 0 \<or> mf_TotalLines m < 0 then Some (fc_bad ''manifest totals must not be negative'')
      else case checkFrames 0 0 0 0 (mf_Frames m) of
        Inl e \<Rightarrow> Some e
      | Inr (lineCursor, sumDecoded) \<Rightarrow>
        if sumDecoded \<noteq> mf_TotalRawBytes m then
          Some (fc_bad ''manifest total_raw_bytes must equal sum of frame decoded sizes'')
        else if lineCursor \<noteq> mf_TotalLines m then
          Some (fc_bad ''manifest total_lines must equal final line_end'')
        else None)"

definition show_bool :: "bool \<Rightarrow> string" where
  "show_bool b = (if b then ''true'' else ''false'')"

definition frame_lines :: "FrameDescriptor \<Rightarrow> string" where
  "frame_lines f =
     canon_line ''frame.seq'' (show_int (fd_Seq f)) @
     canon_line ''frame.raw_start'' (show_int (fd_RawStart f)) @
     canon_line ''frame.raw_end'' (show_int (fd_RawEnd f)) @
     canon_line ''frame.line_start'' (show_int (fd_LineStart f)) @
     canon_line ''frame.line_end'' (show_int (fd_LineEnd f)) @
     canon_line ''frame.decoded_size'' (show_int (fd_DecodedSize f)) @
     canon_line ''frame.decoded_sha256'' (to_lower (fd_DecodedSHA256 f)) @
     canon_line ''frame.zstd_size'' (show_int (fd_ZstdSize f)) @
     canon_line ''frame.zstd_sha256'' (to_lower (fd_ZstdSHA256 f))"

definition Manifest_CanonicalBytes :: "ManifestV1 \<Rightarrow> apperr + string" where
  "Manifest_CanonicalBytes m =
     (case Manifest_validate m of
        Some e \<Rightarrow> Inl e
      | None \<Rightarrow> Inr (
          canon_line ''locator_hash'' (mf_LocatorHash m) @
          canon_line ''sealed'' (show_bool (mf_Sealed m)) @
          canon_line ''format_version'' (show_int (mf_FormatVersion m)) @
          canon_line ''codec'' (mf_Codec m) @
          canon_line ''total_raw_bytes'' (show_int (mf_TotalRawBytes m)) @
          canon_line ''total_lines'' (show_int (mf_TotalLines m)) @
          canon_line ''frame_count'' (show_int (int (length (mf_Frames m)))) @
          concat (map frame_lines (mf_Frames m))))"

definition Manifest_Digest :: "ManifestV1 \<Rightarrow> apperr + string" where
  "Manifest_Digest m =
     (case Manifest_CanonicalBytes m of Inl e \<Rightarrow> Inl e | Inr raw \<Rightarrow> Inr (hexSum raw))"

section \<open>Wire manifests\<close>

definition ProtocolVersionV1 :: string where "ProtocolVersionV1 = ''fleet-cache/1''"
definition MaxWireFrames :: nat where "MaxWireFrames = 4096"
definition MaxDecodedFrameBytes :: int where "MaxDecodedFrameBytes = 16 * 2 ^ 20"
definition MaxZstdFrameBytes :: int where "MaxZstdFrameBytes = 16 * 2 ^ 20"

record WireFrame =
  wf_Seq :: int
  wf_RawStart :: int
  wf_RawEnd :: int
  wf_LineStart :: int
  wf_LineEnd :: int
  wf_DecodedSize :: int
  wf_DecodedSHA256 :: string
  wf_ZstdSize :: int
  wf_ZstdSHA256 :: string

record WireManifest =
  wm_ProtocolVersion :: string
  wm_FleetID :: string
  wm_CachePool :: string
  wm_ControllerID :: string
  wm_LocatorHash :: string
  wm_ManifestDigest :: string
  wm_Sealed :: bool
  wm_FormatVersion :: int
  wm_Codec :: string
  wm_Frames :: "WireFrame list"
  wm_TotalRawBytes :: int
  wm_TotalLines :: int

definition descriptorOf :: "WireFrame \<Rightarrow> FrameDescriptor" where
  "descriptorOf f =
     \<lparr> fd_Seq = wf_Seq f, fd_RawStart = wf_RawStart f, fd_RawEnd = wf_RawEnd f,
       fd_LineStart = wf_LineStart f, fd_LineEnd = wf_LineEnd f,
       fd_DecodedSize = wf_DecodedSize f, fd_DecodedSHA256 = wf_DecodedSHA256 f,
       fd_ZstdSize = wf_ZstdSize f, fd_ZstdSHA256 = wf_ZstdSHA256 f \<rparr>"

definition wireOf :: "FrameDescriptor \<Rightarrow> WireFrame" where
  "wireOf f =
     \<lparr> wf_Seq = fd_Seq f, wf_RawStart = fd_RawStart f, wf_RawEnd = fd_RawEnd f,
       wf_LineStart = fd_LineStart f, wf_LineEnd = fd_LineEnd f,
       wf_DecodedSize = fd_DecodedSize f, wf_DecodedSHA256 = fd_DecodedSHA256 f,
       wf_ZstdSize = fd_ZstdSize f, wf_ZstdSHA256 = fd_ZstdSHA256 f \<rparr>"

definition lowerDigests :: "FrameDescriptor \<Rightarrow> FrameDescriptor" where
  "lowerDigests f = f\<lparr> fd_DecodedSHA256 := to_lower (fd_DecodedSHA256 f), fd_ZstdSHA256 := to_lower (fd_ZstdSHA256 f) \<rparr>"

text \<open>The size caps of the frames are checked in one loop, before any range.\<close>

fun wireFrameCaps :: "WireFrame list \<Rightarrow> apperr option" where
  "wireFrameCaps [] = None"
| "wireFrameCaps (f # fs) =
     (if wf_DecodedSize f > MaxDecodedFrameBytes \<or> wf_ZstdSize f > MaxZstdFrameBytes then
        Some (fc_bad ''wire frame exceeds size cap'')
      else if wf_ZstdSize f < 1 then Some (fc_bad ''wire frame zstd_size invalid'')
      else wireFrameCaps fs)"

definition ValidateWireManifest :: "WireManifest \<Rightarrow> apperr option" where
  "ValidateWireManifest m =
     (if trim_space (wm_ProtocolVersion m) \<noteq> ProtocolVersionV1 then Some (fc_bad ''unsupported wire protocol_version'')
      else if trim_space (wm_FleetID m) = [] \<or> trim_space (wm_CachePool m) = [] \<or> trim_space (wm_ControllerID m) = [] then
        Some (fc_bad ''wire manifest missing fleet/pool/controller identity'')
      else if length (wm_LocatorHash m) \<noteq> 64 \<or> \<not> isHex (wm_LocatorHash m) then
        Some (fc_bad ''wire locator_hash must be 64 hex chars'')
      else if wm_ManifestDigest m \<noteq> [] \<and> (length (wm_ManifestDigest m) \<noteq> 64 \<or> \<not> isHex (wm_ManifestDigest m)) then
        Some (fc_bad ''wire manifest_digest must be 64 hex chars when set'')
      else if \<not> wm_Sealed m then Some (fc_bad ''wire manifest must be sealed'')
      else if wm_FormatVersion m \<noteq> 1 then Some (fc_bad ''unsupported wire format_version'')
      else if wm_Codec m \<noteq> ManifestCodecZstd then Some (fc_bad ''unsupported wire codec'')
      else if wm_Frames m = [] then Some (fc_bad ''wire manifest requires frames'')
      else if length (wm_Frames m) > MaxWireFrames then Some (fc_bad ''wire manifest exceeds max frames'')
      else case wireFrameCaps (wm_Frames m) of
        Some e \<Rightarrow> Some e
      | None \<Rightarrow> Manifest_validate
          \<lparr> mf_LocatorHash = to_lower (wm_LocatorHash m), mf_Sealed = True, mf_FormatVersion = wm_FormatVersion m,
            mf_Codec = wm_Codec m, mf_Frames = map descriptorOf (wm_Frames m),
            mf_TotalRawBytes = wm_TotalRawBytes m, mf_TotalLines = wm_TotalLines m \<rparr>)"

definition ToManifestV1 :: "WireManifest \<Rightarrow> ManifestV1" where
  "ToManifestV1 m =
     \<lparr> mf_LocatorHash = to_lower (wm_LocatorHash m), mf_Sealed = wm_Sealed m, mf_FormatVersion = wm_FormatVersion m,
       mf_Codec = wm_Codec m, mf_Frames = map (\<lambda>f. lowerDigests (descriptorOf f)) (wm_Frames m),
       mf_TotalRawBytes = wm_TotalRawBytes m, mf_TotalLines = wm_TotalLines m \<rparr>"

definition DigestWireManifest :: "WireManifest \<Rightarrow> apperr + string" where
  "DigestWireManifest m =
     (case ValidateWireManifest m of Some e \<Rightarrow> Inl e | None \<Rightarrow> Manifest_Digest (ToManifestV1 m))"

section \<open>Publishing a sealed log\<close>

record SealedPublishInput =
  sp_FleetID :: string
  sp_CachePool :: string
  sp_ControllerID :: string
  sp_JobFullName :: string
  sp_BuildNumber :: int
  sp_Sealed :: bool
  sp_Frames :: "FrameDescriptor list"
  sp_TotalRawBytes :: int
  sp_TotalLines :: int

definition publishFrame :: "FrameDescriptor \<Rightarrow> FrameDescriptor" where
  "publishFrame f = f\<lparr> fd_DecodedSHA256 := to_lower (trim_space (fd_DecodedSHA256 f)),
     fd_ZstdSHA256 := to_lower (trim_space (fd_ZstdSHA256 f)) \<rparr>"

text \<open>The loop of \<open>PublishSealed\<close>: normalised frames, sum of sizes, greatest line end. The sum is formed
  before any range is checked, so its wrap-around is written out.\<close>

fun publishLoop :: "int \<Rightarrow> int \<Rightarrow> FrameDescriptor list \<Rightarrow> apperr + FrameDescriptor list \<times> int \<times> int" where
  "publishLoop sumDecoded lastLine [] = Inr ([], sumDecoded, lastLine)"
| "publishLoop sumDecoded lastLine (f0 # fs) =
     (let f = publishFrame f0 in
      if fd_ZstdSize f < 1 \<or> fd_ZstdSHA256 f = [] then Inl (fc_bad ''publish frame missing wire zstd identity'')
      else case publishLoop (wrap64 (sumDecoded + fd_DecodedSize f))
                  (if fd_LineEnd f > lastLine then fd_LineEnd f else lastLine) fs of
        Inl e \<Rightarrow> Inl e
      | Inr (gs, s, l) \<Rightarrow> Inr (f # gs, s, l))"

definition PublishSealed :: "SealedPublishInput \<Rightarrow> apperr + WireManifest" where
  "PublishSealed inp =
     (if \<not> sp_Sealed inp then Inl (fc_bad ''cannot publish unsealed generation'')
      else if sp_Frames inp = [] then Inl (fc_bad ''publish requires frames'')
      else case NewConsoleLogLocator (sp_FleetID inp) (sp_CachePool inp) (sp_ControllerID inp)
                  (sp_JobFullName inp) (sp_BuildNumber inp) of
        Inl e \<Rightarrow> Inl e
      | Inr loc \<Rightarrow> (case Locator_Hash loc of
          Inl e \<Rightarrow> Inl e
        | Inr lh \<Rightarrow> (case publishLoop 0 0 (sp_Frames inp) of
            Inl e \<Rightarrow> Inl e
          | Inr (frames, sumDecoded, lastLine) \<Rightarrow>
            let totalRaw = (if sp_TotalRawBytes inp = 0 then sumDecoded else sp_TotalRawBytes inp);
                totalLines = (if sp_TotalLines inp = 0 then lastLine else sp_TotalLines inp);
                inner = \<lparr> mf_LocatorHash = lh, mf_Sealed = True, mf_FormatVersion = 1, mf_Codec = ManifestCodecZstd,
                          mf_Frames = frames, mf_TotalRawBytes = totalRaw, mf_TotalLines = totalLines \<rparr> in
            case Manifest_validate inner of
              Some e \<Rightarrow> Inl e
            | None \<Rightarrow> (case Manifest_Digest inner of
                Inl e \<Rightarrow> Inl e
              | Inr digest \<Rightarrow>
                let wm = \<lparr> wm_ProtocolVersion = ProtocolVersionV1, wm_FleetID = lc_FleetID loc,
                           wm_CachePool = lc_CachePool loc, wm_ControllerID = lc_ControllerID loc,
                           wm_LocatorHash = lh, wm_ManifestDigest = digest, wm_Sealed = True,
                           wm_FormatVersion = 1, wm_Codec = ManifestCodecZstd, wm_Frames = map wireOf frames,
                           wm_TotalRawBytes = totalRaw, wm_TotalLines = totalLines \<rparr> in
                case ValidateWireManifest wm of Some e \<Rightarrow> Inl e | None \<Rightarrow> Inr wm))))"

end
