(* ===== verification/FillLease.thy ===== *)
theory FillLease
  imports FleetManifest
begin

text \<open>
  The fill lease of the fleet cache: the primary's in-memory authority
  (\<open>internal/fleetcache/fill_lease.go\<close>) and the coordination of an origin fill
  (\<open>internal/fleetcache/fill_coord.go\<close>). Of all nodes that miss a log, one becomes the producer and reads
  it from Jenkins; the others wait.

  The authority is the record \<open>FillLeaseAuthority\<close>; a nil pointer is \<open>None\<close>. The part of a method that
  runs under the mutex is a function of its own (\<open>...Locked\<close>) on the authority; it reads the clock once
  (\<open>now\<close>, in nanoseconds). The random bytes of a lease id are the argument \<open>ent\<close>, already encoded, \<open>None\<close>
  when the reader fails. Fences are 64-bit words. A time that is only set with a lease is an option.
\<close>

section \<open>Leases\<close>

definition DefaultFillLeaseTTL :: int where "DefaultFillLeaseTTL = 30 * second"
definition MinFillLeaseTTL :: int where "MinFillLeaseTTL = 5 * second"
definition MaxFillLeaseTTL :: int where "MaxFillLeaseTTL = 5 * minute"

datatype FillRole = FillRoleProducer | FillRoleWaiter | FillRoleCompleted | FillRoleNone

datatype FillState = FillLeaseActive | FillLeaseCompleted | FillLeaseExpired | FillStateNone

record FillLease =
  fl_LeaseID :: string
  fl_LocatorHash :: string
  fl_FleetID :: string
  fl_ProducerMemberID :: string
  fl_Fence :: "64 word"
  fl_IssuedAt :: "int option"
  fl_ExpiresAt :: int
  fl_Completed :: bool
  fl_ManifestDigest :: string

record FillJoinResult =
  fj_Role :: FillRole
  fj_Lease :: FillLease
  fj_Residual :: string

record FillStatus =
  fs_LocatorHash :: string
  fs_State :: FillState
  fs_LeaseID :: string
  fs_Fence :: "64 word"
  fs_ProducerMemberID :: string
  fs_ExpiresAt :: "int option"
  fs_Completed :: bool
  fs_ManifestDigest :: string
  fs_Residual :: string

record fillLeaseRec =
  lr_lease :: FillLease
  lr_nextFence :: "64 word"

record FillLeaseAuthority =
  fa_ttl :: int
  fa_byLocator :: "string \<rightharpoonup> fillLeaseRec"

definition NewFillLeaseAuthority :: "int \<Rightarrow> FillLeaseAuthority" where
  "NewFillLeaseAuthority ttl0 =
     (let ttl = (if ttl0 \<le> 0 then DefaultFillLeaseTTL else ttl0);
          ttl = (if ttl < MinFillLeaseTTL then MinFillLeaseTTL else ttl);
          ttl = (if ttl > MaxFillLeaseTTL then MaxFillLeaseTTL else ttl)
      in \<lparr> fa_ttl = ttl, fa_byLocator = Map.empty \<rparr>)"

definition lease_active :: "int \<Rightarrow> FillLease \<Rightarrow> bool" where
  "lease_active now l = (if fl_Completed l \<or> fl_LeaseID l = [] then False else now < fl_ExpiresAt l)"

definition newLeaseID :: "string option \<Rightarrow> apperr + string" where
  "newLeaseID ent =
     (case ent of None \<Rightarrow> Inl (newErr CodeInternal ''lease id entropy'') | Some b \<Rightarrow> Inr (''fl_'' @ b))"

definition looksSecretShaped :: "string \<Rightarrow> bool" where
  "looksSecretShaped s =
     (let low = to_lower (trim_space s) in
      if low = [] then False
      else if str_contains low ''bearer '' \<or> str_contains low ''password'' \<or> has_prefix low ''ghp_'' \<or>
              CHR ''@'' \<in> set s \<or> str_contains low ''authorization:'' then True
      else length s > 128)"

definition normLocator :: "string \<Rightarrow> string" where
  "normLocator s = to_lower (trim_space s)"

section \<open>Join\<close>

definition joinLocked :: "int \<Rightarrow> string option \<Rightarrow> string \<Rightarrow> string \<Rightarrow> string \<Rightarrow> FillLeaseAuthority \<Rightarrow>
    FillLeaseAuthority \<times> (apperr + FillJoinResult)" where
  "joinLocked now ent fleetID locatorHash memberID a =
     (let rec = fa_byLocator a locatorHash;
          grant = (\<lambda>nextFence residual.
            case newLeaseID ent of
              Inl e \<Rightarrow> (a, Inl e)
            | Inr leaseID \<Rightarrow>
                let lease = \<lparr> fl_LeaseID = leaseID, fl_LocatorHash = locatorHash, fl_FleetID = fleetID,
                      fl_ProducerMemberID = memberID, fl_Fence = nextFence, fl_IssuedAt = Some now,
                      fl_ExpiresAt = now + fa_ttl a, fl_Completed = False, fl_ManifestDigest = [] \<rparr>
                in (a\<lparr> fa_byLocator := (fa_byLocator a)(locatorHash \<mapsto>
                       \<lparr> lr_lease = lease, lr_nextFence = nextFence + 1 \<rparr>) \<rparr>,
                    Inr \<lparr> fj_Role = FillRoleProducer, fj_Lease = lease, fj_Residual = residual \<rparr>)) in
      case rec of
        None \<Rightarrow> grant 1 []
      | Some r \<Rightarrow>
          let l = lr_lease r in
          if fl_Completed l then
            (a, Inr \<lparr> fj_Role = FillRoleCompleted, fj_Lease = l, fj_Residual = [] \<rparr>)
          else if lease_active now l then
            if fl_ProducerMemberID l = memberID \<and> fl_FleetID l = fleetID then
              let l' = l\<lparr> fl_ExpiresAt := now + fa_ttl a \<rparr>
              in (a\<lparr> fa_byLocator := (fa_byLocator a)(locatorHash \<mapsto> r\<lparr> lr_lease := l' \<rparr>) \<rparr>,
                  Inr \<lparr> fj_Role = FillRoleProducer, fj_Lease = l', fj_Residual = [] \<rparr>)
            else (a, Inr \<lparr> fj_Role = FillRoleWaiter, fj_Lease = l, fj_Residual = [] \<rparr>)
          else if fl_FleetID l \<noteq> [] \<and> fl_FleetID l \<noteq> fleetID \<and> lease_active now l then
            (a, Inl (newErr CodeAuthorization ''fill lease fleet mismatch''))
          else grant (if lr_nextFence r < fl_Fence l + 1 then fl_Fence l + 1 else lr_nextFence r)
                 (if \<not> fl_Completed l \<and> \<not> lease_active now l then ''takeover_after_expiry'' else []))"

definition Join :: "int \<Rightarrow> string option \<Rightarrow> string \<Rightarrow> string \<Rightarrow> string \<Rightarrow> FillLeaseAuthority option \<Rightarrow>
    FillLeaseAuthority option \<times> (apperr + FillJoinResult)" where
  "Join now ent fleetID0 locatorHash0 memberID0 ao =
     (case ao of
        None \<Rightarrow> (ao, Inl (newErr CodeInternal ''fill lease authority nil''))
      | Some a \<Rightarrow>
          let fleetID = trim_space fleetID0; memberID = trim_space memberID0; locatorHash = normLocator locatorHash0 in
          if fleetID = [] \<or> memberID = [] then (ao, Inl (fc_bad ''fill lease fleet/member required''))
          else if \<not> hash64 locatorHash then (ao, Inl (fc_bad ''fill lease locator_hash invalid''))
          else if looksSecretShaped memberID \<or> looksSecretShaped fleetID then
            (ao, Inl (fc_bad ''fill lease identity looks secret-shaped''))
          else case joinLocked now ent fleetID locatorHash memberID a of (a', r) \<Rightarrow> (Some a', r))"

section \<open>Complete, Renew, Release, Status\<close>

definition completeLocked :: "int \<Rightarrow> string \<Rightarrow> string \<Rightarrow> string \<Rightarrow> string \<Rightarrow> 64 word \<Rightarrow> string \<Rightarrow> FillLeaseAuthority \<Rightarrow>
    FillLeaseAuthority \<times> apperr option" where
  "completeLocked now fleetID locatorHash memberID leaseID fence manifestDigest a =
     (case fa_byLocator a locatorHash of
        None \<Rightarrow> (a, Some (newErr CodeNotFound ''fill lease not found''))
      | Some r \<Rightarrow>
          let l = lr_lease r in
          if fl_Completed l then
            (a, if fl_Fence l > fence then
                  Some (newErr CodePolicyDenial ''fill complete stale fence after newer completion'')
                else if fl_Fence l = fence \<and> fl_LeaseID l = leaseID \<and> fl_ProducerMemberID l = memberID then None
                else if fl_Fence l > fence then
                  Some (newErr CodePolicyDenial ''fill complete stale fence after newer completion'')
                else Some (newErr CodePolicyDenial ''fill already completed''))
          else if fl_FleetID l \<noteq> fleetID then (a, Some (newErr CodeAuthorization ''fill complete fleet mismatch''))
          else if fl_ProducerMemberID l \<noteq> memberID then (a, Some (newErr CodeAuthorization ''fill complete wrong member''))
          else if fl_LeaseID l \<noteq> leaseID then (a, Some (newErr CodeAuthorization ''fill complete lease id mismatch''))
          else if fl_Fence l \<noteq> fence then (a, Some (newErr CodePolicyDenial ''fill complete fence mismatch''))
          else if \<not> lease_active now l then (a, Some (newErr CodePolicyDenial ''fill lease expired''))
          else (a\<lparr> fa_byLocator := (fa_byLocator a)(locatorHash \<mapsto>
                  r\<lparr> lr_lease := l\<lparr> fl_Completed := True, fl_ManifestDigest := manifestDigest \<rparr> \<rparr>) \<rparr>, None))"

definition Complete :: "int \<Rightarrow> string \<Rightarrow> string \<Rightarrow> string \<Rightarrow> string \<Rightarrow> 64 word \<Rightarrow> string \<Rightarrow> FillLeaseAuthority option \<Rightarrow>
    FillLeaseAuthority option \<times> apperr option" where
  "Complete now fleetID0 locatorHash0 memberID0 leaseID0 fence manifestDigest0 ao =
     (case ao of
        None \<Rightarrow> (ao, Some (newErr CodeInternal ''fill lease authority nil''))
      | Some a \<Rightarrow>
          let fleetID = trim_space fleetID0; memberID = trim_space memberID0; leaseID = trim_space leaseID0;
              locatorHash = normLocator locatorHash0; manifestDigest = to_lower (trim_space manifestDigest0) in
          if fleetID = [] \<or> memberID = [] \<or> leaseID = [] then (ao, Some (fc_bad ''fill complete identity required''))
          else if \<not> hash64 locatorHash then (ao, Some (fc_bad ''fill complete locator_hash invalid''))
          else if manifestDigest \<noteq> [] \<and> \<not> hash64 manifestDigest then
            (ao, Some (fc_bad ''fill complete manifest_digest invalid''))
          else if looksSecretShaped memberID \<or> looksSecretShaped manifestDigest then
            (ao, Some (fc_bad ''fill complete field looks secret-shaped''))
          else case completeLocked now fleetID locatorHash memberID leaseID fence manifestDigest a of
            (a', e) \<Rightarrow> (Some a', e))"

definition renewLocked :: "int \<Rightarrow> string \<Rightarrow> string \<Rightarrow> string \<Rightarrow> FillLeaseAuthority \<Rightarrow>
    FillLeaseAuthority \<times> (apperr + FillLease)" where
  "renewLocked now fleetID locatorHash memberID a =
     (case fa_byLocator a locatorHash of
        None \<Rightarrow> (a, Inl (newErr CodeNotFound ''fill lease not active''))
      | Some r \<Rightarrow>
          let l = lr_lease r in
          if \<not> lease_active now l then (a, Inl (newErr CodeNotFound ''fill lease not active''))
          else if fl_FleetID l \<noteq> fleetID \<or> fl_ProducerMemberID l \<noteq> memberID then
            (a, Inl (newErr CodeAuthorization ''fill renew wrong member''))
          else let l' = l\<lparr> fl_ExpiresAt := now + fa_ttl a \<rparr>
               in (a\<lparr> fa_byLocator := (fa_byLocator a)(locatorHash \<mapsto> r\<lparr> lr_lease := l' \<rparr>) \<rparr>, Inr l'))"

definition Renew :: "int \<Rightarrow> string \<Rightarrow> string \<Rightarrow> string \<Rightarrow> FillLeaseAuthority option \<Rightarrow>
    FillLeaseAuthority option \<times> (apperr + FillLease)" where
  "Renew now fleetID0 locatorHash0 memberID0 ao =
     (case ao of
        None \<Rightarrow> (ao, Inl (newErr CodeInternal ''fill lease authority nil''))
      | Some a \<Rightarrow>
          let fleetID = trim_space fleetID0; memberID = trim_space memberID0; locatorHash = normLocator locatorHash0 in
          if fleetID = [] \<or> memberID = [] \<or> \<not> hash64 locatorHash then
            (ao, Inl (fc_bad ''fill renew identity/locator invalid''))
          else case renewLocked now fleetID locatorHash memberID a of (a', r) \<Rightarrow> (Some a', r))"

definition TTL :: "FillLeaseAuthority option \<Rightarrow> int" where
  "TTL ao = (case ao of None \<Rightarrow> DefaultFillLeaseTTL | Some a \<Rightarrow> fa_ttl a)"

definition releaseLocked :: "int \<Rightarrow> string \<Rightarrow> string \<Rightarrow> string \<Rightarrow> string \<Rightarrow> 64 word \<Rightarrow> FillLeaseAuthority \<Rightarrow>
    FillLeaseAuthority \<times> apperr option" where
  "releaseLocked now fleetID locatorHash memberID leaseID fence a =
     (case fa_byLocator a locatorHash of
        None \<Rightarrow> (a, None)
      | Some r \<Rightarrow>
          let l = lr_lease r in
          if fl_Completed l then (a, Some (newErr CodePolicyDenial ''fill already completed''))
          else if \<not> lease_active now l then (a, None)
          else if fl_FleetID l \<noteq> fleetID \<or> fl_ProducerMemberID l \<noteq> memberID then
            (a, Some (newErr CodeAuthorization ''fill release wrong member''))
          else if fl_LeaseID l \<noteq> leaseID \<or> fl_Fence l \<noteq> fence then
            (a, Some (newErr CodePolicyDenial ''fill release lease/fence mismatch''))
          else let next = (if lr_nextFence r \<le> fl_Fence l then fl_Fence l + 1 else lr_nextFence r);
                   gone = \<lparr> fl_LeaseID = [], fl_LocatorHash = locatorHash, fl_FleetID = fleetID,
                     fl_ProducerMemberID = [], fl_Fence = fl_Fence l, fl_IssuedAt = None,
                     fl_ExpiresAt = now - second, fl_Completed = False, fl_ManifestDigest = [] \<rparr>
               in (a\<lparr> fa_byLocator := (fa_byLocator a)(locatorHash \<mapsto>
                      \<lparr> lr_lease = gone, lr_nextFence = next \<rparr>) \<rparr>, None))"

definition Release :: "int \<Rightarrow> string \<Rightarrow> string \<Rightarrow> string \<Rightarrow> string \<Rightarrow> 64 word \<Rightarrow> FillLeaseAuthority option \<Rightarrow>
    FillLeaseAuthority option \<times> apperr option" where
  "Release now fleetID0 locatorHash0 memberID0 leaseID0 fence ao =
     (case ao of
        None \<Rightarrow> (ao, Some (newErr CodeInternal ''fill lease authority nil''))
      | Some a \<Rightarrow>
          let fleetID = trim_space fleetID0; memberID = trim_space memberID0; leaseID = trim_space leaseID0;
              locatorHash = normLocator locatorHash0 in
          if fleetID = [] \<or> memberID = [] \<or> leaseID = [] then (ao, Some (fc_bad ''fill release identity required''))
          else if \<not> hash64 locatorHash then (ao, Some (fc_bad ''fill release locator_hash invalid''))
          else case releaseLocked now fleetID locatorHash memberID leaseID fence a of (a', e) \<Rightarrow> (Some a', e))"

definition Status :: "int \<Rightarrow> string \<Rightarrow> FillLeaseAuthority option \<Rightarrow> FillStatus" where
  "Status now locatorHash0 ao =
     (let none = (\<lambda>lh res. \<lparr> fs_LocatorHash = lh, fs_State = FillStateNone, fs_LeaseID = [], fs_Fence = 0,
           fs_ProducerMemberID = [], fs_ExpiresAt = None, fs_Completed = False, fs_ManifestDigest = [],
           fs_Residual = res \<rparr>) in
      case ao of
        None \<Rightarrow> none [] ''authority_nil''
      | Some a \<Rightarrow>
          let locatorHash = normLocator locatorHash0 in
          case fa_byLocator a locatorHash of
            None \<Rightarrow> none locatorHash []
          | Some r \<Rightarrow>
              let l = lr_lease r; live = lease_active now l in
              \<lparr> fs_LocatorHash = locatorHash,
                fs_State = (if fl_Completed l then FillLeaseCompleted else if live then FillLeaseActive
                            else FillLeaseExpired),
                fs_LeaseID = fl_LeaseID l, fs_Fence = fl_Fence l,
                fs_ProducerMemberID = fl_ProducerMemberID l, fs_ExpiresAt = Some (fl_ExpiresAt l),
                fs_Completed = fl_Completed l, fs_ManifestDigest = fl_ManifestDigest l,
                fs_Residual = (if \<not> fl_Completed l \<and> \<not> live then ''expired_takeover_eligible'' else []) \<rparr>)"

section \<open>Coordinating an origin fill\<close>

definition DefaultFillWaiterMax :: int where "DefaultFillWaiterMax = 200"
definition DefaultFillHeartbeat :: int where "DefaultFillHeartbeat = second"

definition ModeOff :: string where "ModeOff = ''off''"
definition ModeShadow :: string where "ModeShadow = ''shadow''"
definition ModeRead :: string where "ModeRead = ''read''"
definition ModeFull :: string where "ModeFull = ''full''"

definition FillLocatorHash :: "string \<Rightarrow> string \<Rightarrow> string \<Rightarrow> int \<Rightarrow> string" where
  "FillLocatorHash fleetID profile job build =
     hexSum (''fill-v1'' @ [CHR 0x0A] @ trim_space fleetID @ [CHR 0x0A] @ trim_space profile @ [CHR 0x0A] @
       trim_space job @ [CHR 0x0A] @ show_int build @ [CHR 0x0A])"

record FillCoordRequest =
  cr_FleetID :: string
  cr_MemberID :: string
  cr_LocatorHash :: string
  cr_Mode :: string
  cr_WaiterMax :: int
  cr_Heartbeat :: int

record FillCoordResult =
  cs_Role :: "FillRole option"
  cs_OriginCalled :: bool
  cs_Residual :: string
  cs_Lease :: "FillLease option"

text \<open>An error of the coordination: an application error, the context's error, or the origin's.\<close>

datatype fill_error = CoordErr apperr | CtxErr | OriginErr

type_synonym coord_result = "FillCoordResult \<times> fill_error option"

abbreviation coordResult :: "FillRole option \<Rightarrow> bool \<Rightarrow> string \<Rightarrow> FillLease option \<Rightarrow> fill_error option \<Rightarrow> coord_result" where
  "coordResult role called residual lease e \<equiv>
     (\<lparr> cs_Role = role, cs_OriginCalled = called, cs_Residual = residual, cs_Lease = lease \<rparr>, e)"

definition heartbeatInterval :: "int \<Rightarrow> int \<Rightarrow> int" where
  "heartbeatInterval hb0 ttl0 =
     (let hb = (if hb0 \<le> 0 then DefaultFillHeartbeat else hb0);
          ttl = (if ttl0 \<le> 0 then DefaultFillLeaseTTL else ttl0);
          maxHB = ttl div 3;
          hb = (if hb > maxHB \<and> maxHB > 0 then maxHB else hb)
      in if hb < millisecond then millisecond else hb)"

text \<open>
  A call of \<open>CoordinateOriginFill\<close> as a machine: where it is, and what it has in hand. \<open>CDirect\<close>: mode off,
  the origin runs without a lease. \<open>CJoin n\<close>: about to join, after \<open>n\<close> takeover attempts. \<open>CStart l\<close>: the
  origin was started, the immediate renewal is due. \<open>CProduce l\<close>: the origin runs, \<open>l\<close> is the latest lease.
  \<open>CDrain l\<close>: the context is done, the origin is awaited without renewals. \<open>CWait n\<close>: waiting. \<open>CBudget\<close>:
  the takeover budget is spent, and \<open>CFallback\<close>: therefore the origin runs without a lease. An event is
  what the call sees next: the context (or, while the origin runs, which of ticker and context the
  select takes) and the clock (\<open>EvStep\<close>), or the return of the origin (\<open>EvOrigin\<close>, with whether the
  context is done by then).
\<close>

datatype Coord =
    CDirect
  | CJoin int
  | CStart FillLease
  | CProduce FillLease
  | CDrain FillLease
  | CWait int
  | CBudget
  | CFallback
  | CDone coord_result

datatype CoordEvent =
    EvStep bool int "string option" \<comment> \<open>context done, clock, lease id entropy\<close>
  | EvOrigin bool bool int \<comment> \<open>origin failed, context done, clock\<close>

definition req_fleet :: "FillCoordRequest \<Rightarrow> string" where "req_fleet req = trim_space (cr_FleetID req)"
definition req_member :: "FillCoordRequest \<Rightarrow> string" where "req_member req = trim_space (cr_MemberID req)"
definition req_locator :: "FillCoordRequest \<Rightarrow> string" where "req_locator req = normLocator (cr_LocatorHash req)"

text \<open>\<open>hasOrigin\<close>: the origin function is not nil.\<close>

definition startCoord :: "FillCoordRequest \<Rightarrow> bool \<Rightarrow> bool \<Rightarrow> FillLeaseAuthority option \<Rightarrow> Coord" where
  "startCoord req hasOrigin cancelled ao =
     (if \<not> hasOrigin then
        CDone (coordResult None False [] None (Some (CoordErr (newErr CodeInternal ''origin filler nil''))))
      else let mode = (if cr_Mode req = [] then ModeOff else cr_Mode req) in
      if mode = ModeOff \<or> mode = ModeShadow \<or> ao = None then
        if cancelled then CDone (coordResult (Some FillRoleNone) False ''cancelled'' None (Some CtxErr)) else CDirect
      else if mode \<noteq> ModeRead \<and> mode \<noteq> ModeFull then
        CDone (coordResult None False [] None (Some (CoordErr (fc_bad ''fill coord mode invalid''))))
      else let fleetID = req_fleet req; memberID = req_member req; lh = req_locator req in
        if fleetID = [] \<or> memberID = [] \<or> \<not> hash64 lh then
          CDone (coordResult None False [] None (Some (CoordErr (fc_bad ''fill coord identity/locator invalid''))))
        else if looksSecretShaped memberID \<or> looksSecretShaped fleetID then
          CDone (coordResult None False [] None (Some (CoordErr (fc_bad ''fill coord identity secret-shaped''))))
        else CJoin 0)"

definition waiterBudget :: "FillCoordRequest \<Rightarrow> int" where
  "waiterBudget req = (if cr_WaiterMax req \<le> 0 then DefaultFillWaiterMax else cr_WaiterMax req)"

definition coord_join :: "FillCoordRequest \<Rightarrow> int \<Rightarrow> bool \<Rightarrow> int \<Rightarrow> string option \<Rightarrow> FillLeaseAuthority option \<Rightarrow>
    FillLeaseAuthority option \<times> Coord" where
  "coord_join req n cancelled now ent ao =
     (if cancelled then (ao, CDone (coordResult None False ''cancelled'' None (Some CtxErr)))
      else case Join now ent (req_fleet req) (req_locator req) (req_member req) ao of
        (ao', Inl e) \<Rightarrow> (ao', CDone (coordResult None False [] None (Some (CoordErr e))))
      | (ao', Inr j) \<Rightarrow>
          (ao', case fj_Role j of
             FillRoleCompleted \<Rightarrow>
               CDone (coordResult (Some FillRoleCompleted) False ''already_completed'' (Some (fj_Lease j)) None)
           | FillRoleProducer \<Rightarrow> CStart (fj_Lease j)
           | FillRoleWaiter \<Rightarrow> CWait n
           | FillRoleNone \<Rightarrow>
               CDone (coordResult None False [] None (Some (CoordErr (newErr CodeInternal ''fill join role unknown''))))))"

definition coord_renew :: "FillCoordRequest \<Rightarrow> FillLease \<Rightarrow> int \<Rightarrow> FillLeaseAuthority option \<Rightarrow>
    FillLeaseAuthority option \<times> Coord" where
  "coord_renew req l now ao =
     (case Renew now (req_fleet req) (req_locator req) (req_member req) ao of
        (ao', Inr l') \<Rightarrow> (ao', CProduce l')
      | (ao', Inl e) \<Rightarrow> (ao', CProduce l))"

definition coord_finish :: "FillCoordRequest \<Rightarrow> FillLease \<Rightarrow> bool \<Rightarrow> bool \<Rightarrow> int \<Rightarrow> FillLeaseAuthority option \<Rightarrow>
    FillLeaseAuthority option \<times> Coord" where
  "coord_finish req l failed cancelled now ao =
     (let lh = req_locator req; m = req_member req; f = req_fleet req in
      if failed then
        (fst (Release now f lh m (fl_LeaseID l) (fl_Fence l) ao),
         CDone (if cancelled then coordResult (Some FillRoleProducer) True ''producer_cancelled'' (Some l) (Some CtxErr)
                else coordResult (Some FillRoleProducer) True ''origin_error_released'' (Some l) (Some OriginErr)))
      else case Complete now f lh m (fl_LeaseID l) (fl_Fence l) [] ao of
        (ao', Some e) \<Rightarrow> (ao', CDone (coordResult (Some FillRoleProducer) True ''complete_failed'' (Some l) (Some (CoordErr e))))
      | (ao', None) \<Rightarrow> (ao', CDone (coordResult (Some FillRoleProducer) True [] (Some l) None)))"

definition coord_wait :: "FillCoordRequest \<Rightarrow> int \<Rightarrow> bool \<Rightarrow> int \<Rightarrow> FillLeaseAuthority option \<Rightarrow> Coord" where
  "coord_wait req n cancelled now ao =
     (if cancelled then CDone (coordResult (Some FillRoleWaiter) False ''waiter_cancelled'' None (Some CtxErr))
      else let st = Status now (req_locator req) ao in
        if fs_Completed st \<or> fs_State st = FillLeaseCompleted then
          CDone (coordResult (Some FillRoleWaiter) False ''waiter_saw_completed'' None None)
        else if fs_State st = FillLeaseExpired \<or> fs_State st = FillStateNone then
          if n + 1 > waiterBudget req then CBudget else CJoin (n + 1)
        else CWait n)"

fun coord_step :: "FillCoordRequest \<Rightarrow> CoordEvent \<Rightarrow> FillLeaseAuthority option \<times> Coord \<Rightarrow>
    (FillLeaseAuthority option \<times> Coord) option" where
  "coord_step req (EvOrigin failed cancelled now) (ao, CDirect) =
     Some (ao, CDone (coordResult (Some FillRoleNone) True ''mode_off_or_no_auth'' None
                        (if failed then Some OriginErr else None)))"
| "coord_step req (EvStep cancelled now ent) (ao, CJoin n) = Some (coord_join req n cancelled now ent ao)"
| "coord_step req (EvStep cancelled now ent) (ao, CStart l) = Some (coord_renew req l now ao)"
| "coord_step req (EvStep cancelled now ent) (ao, CProduce l) =
     Some (if cancelled then (ao, CDrain l) else coord_renew req l now ao)"
| "coord_step req (EvOrigin failed cancelled now) (ao, CProduce l) = Some (coord_finish req l failed cancelled now ao)"
| "coord_step req (EvOrigin failed cancelled now) (ao, CDrain l) = Some (coord_finish req l failed cancelled now ao)"
| "coord_step req (EvStep cancelled now ent) (ao, CBudget) =
     Some (ao, if cancelled then CDone (coordResult (Some FillRoleWaiter) False ''waiter_budget_cancelled'' None (Some CtxErr))
               else CFallback)"
| "coord_step req (EvStep cancelled now ent) (ao, CWait n) = Some (ao, coord_wait req n cancelled now ao)"
| "coord_step req (EvOrigin failed cancelled now) (ao, CFallback) =
     Some (ao, CDone (coordResult (Some FillRoleWaiter) True ''waiter_takeover_budget_origin_fallback'' None
                        (if failed then Some OriginErr else None)))"
| "coord_step req ev s = None"

end
