(* ===== verification/FleetManifestCorrect.thy ===== *)
theory FleetManifestCorrect
  imports FleetManifest
begin

text \<open>
  Correctness of fleet-cache identities. The frames of an accepted manifest partition the log; a
  canonical text determines the manifest, and the locator when its identity fields are single lines,
  so two objects with one hash are one object up to a collision of SHA-256; a published manifest
  carries its own digest; unknown object kinds get no identity at all.
\<close>

section \<open>Texts made of lines\<close>

lemma show_int_no_newline [simp]: "CHR 0x0A \<notin> set (show_int i)"
  using show_int_chars by fastforce

lemma minus_not_digit: "show_nat n \<noteq> CHR ''-'' # s"
proof
  assume "show_nat n = CHR ''-'' # s"
  then have "CHR ''-'' \<in> set (show_nat n)" by simp
  then obtain d where d: "d < 10" "CHR ''-'' = digit_char d" using show_nat_digits by blast
  have "(of_char CHR ''-'' :: nat) = 48 + d" using d of_digit_char by metis
  then show False by simp
qed

lemma show_int_inj: "show_int i = show_int j \<Longrightarrow> i = j"
  by (auto simp: show_int_def minus_not_digit minus_not_digit [symmetric] dest: show_nat_inj split: if_splits)

text \<open>Lines of a text end where the next newline is, so equal texts have equal lines.\<close>

lemma lines_inj:
  assumes "list_all (\<lambda>l. CHR 0x0A \<notin> set l) ls" and "list_all (\<lambda>l. CHR 0x0A \<notin> set l) ks"
    and "concat (map (\<lambda>l. l @ [CHR 0x0A]) ls) = concat (map (\<lambda>l. l @ [CHR 0x0A]) ks)"
  shows "ls = ks"
  using assms
proof (induction ls arbitrary: ks)
  case Nil
  then show ?case by (cases ks) auto
next
  case (Cons l ls)
  then obtain k ks' where ks: "ks = k # ks'" by (cases ks) auto
  with Cons.prems have "l @ CHR 0x0A # concat (map (\<lambda>l. l @ [CHR 0x0A]) ls) =
      k @ CHR 0x0A # concat (map (\<lambda>l. l @ [CHR 0x0A]) ks')" by simp
  with Cons.prems ks have "l = k \<and> concat (map (\<lambda>l. l @ [CHR 0x0A]) ls) = concat (map (\<lambda>l. l @ [CHR 0x0A]) ks')"
    by (intro char_sep) auto
  with Cons ks show ?case by auto
qed

text \<open>Fields of a canonical text: name and value.\<close>

definition canon_text :: "(string \<times> string) list \<Rightarrow> string" where
  "canon_text fs = concat (map (\<lambda>(n, v). canon_line n v) fs)"

definition plain_field :: "string \<times> string \<Rightarrow> bool" where
  "plain_field f = (CHR 0x0A \<notin> set (fst f) \<and> CHR 0x0A \<notin> set (snd f))"

lemma canon_text_lines: "canon_text fs = concat (map (\<lambda>l. l @ [CHR 0x0A]) (map (\<lambda>(n, v). n @ ''='' @ v) fs))"
  by (induction fs) (auto simp: canon_text_def canon_line_def)

lemma canon_text_inj:
  assumes "canon_text fs = canon_text gs" and "list_all plain_field fs" and "list_all plain_field gs"
    and "map fst fs = map fst gs"
  shows "fs = gs"
proof -
  have "map (\<lambda>(n, v). n @ ''='' @ v) fs = map (\<lambda>(n, v). n @ ''='' @ v) gs"
    by (rule lines_inj)
      (use assms in \<open>auto simp: canon_text_lines list_all_iff plain_field_def split: prod.splits\<close>)
  with assms(4) show ?thesis
  proof (induction fs arbitrary: gs)
    case (Cons f fs)
    then show ?case by (cases f; cases gs) auto
  qed simp
qed

section \<open>Digests in hexadecimal\<close>

lemma hex_rune_no_newline: "hex_rune c \<Longrightarrow> c \<noteq> CHR 0x0A"
  by (auto simp: hex_rune_def Let_def)

lemma isHex_chars: "isHex s \<longleftrightarrow> s \<noteq> [] \<and> (\<forall>c \<in> set s. hex_rune c)"
  by (simp add: isHex_def list_all_iff)

lemma isHex_no_newline: "isHex s \<Longrightarrow> CHR 0x0A \<notin> set s"
  by (auto simp: isHex_chars dest: hex_rune_no_newline)

lemma hex_rune_lower: "hex_rune c \<Longrightarrow> is_hex_char (lower_char c)"
proof -
  assume "hex_rune c"
  moreover have "(of_char c :: nat) < 256" by simp
  ultimately show ?thesis
    by (auto simp: hex_rune_def is_hex_char_def lower_char_def Let_def)
qed

lemma is_hex_char_facts: "is_hex_char c \<Longrightarrow> hex_rune c \<and> lower_char c = c"
  by (auto simp: is_hex_char_def hex_rune_def lower_char_def Let_def)

lemma length_to_lower [simp]: "length (to_lower s) = length s"
  by (simp add: to_lower_def)

lemma isHex_lower: "isHex s \<Longrightarrow> isHex (to_lower s)"
  using hex_rune_lower is_hex_char_facts by (fastforce simp: isHex_chars to_lower_def)

lemma lower_char_idem [simp]: "lower_char (lower_char c) = lower_char c"
proof -
  have "(of_char c :: nat) < 256" by simp
  then show ?thesis by (auto simp: lower_char_def Let_def)
qed

lemma to_lower_idem [simp]: "to_lower (to_lower s) = to_lower s"
  by (simp add: to_lower_def)

lemma hexSum_lower [simp]: "to_lower (hexSum b) = hexSum b"
  unfolding hexSum_def to_lower_def
  by (rule map_idI) (use hex_encode_is_hex is_hex_char_facts in blast)

lemma hexSum_hash64 [simp]: "length (hexSum b) = 64" "isHex (hexSum b)"
proof -
  show "length (hexSum b) = 64" by (simp add: hexSum_def)
  then have "hexSum b \<noteq> []" by auto
  then show "isHex (hexSum b)"
    using hex_encode_is_hex is_hex_char_facts by (fastforce simp: isHex_chars hexSum_def)
qed

section \<open>Frames of an accepted manifest\<close>

text \<open>Half-open ranges that follow each other without gap or overlap.\<close>

fun covers :: "int \<Rightarrow> (int \<times> int) list \<Rightarrow> int \<Rightarrow> bool" where
  "covers a [] b = (a = b)"
| "covers a ((x, y) # rs) b = (x = a \<and> x \<le> y \<and> covers y rs b)"

lemma covers_le: "covers a rs b \<Longrightarrow> a \<le> b"
  by (induction a rs b rule: covers.induct) auto

lemma covers_bounds: "covers a rs b \<Longrightarrow> r \<in> set rs \<Longrightarrow> a \<le> fst r \<and> fst r \<le> snd r \<and> snd r \<le> b"
proof (induction rs arbitrary: a)
  case (Cons q rs)
  obtain x y where q: "q = (x, y)" by fastforce
  with Cons.prems(1) have c: "x = a" "x \<le> y" "covers y rs b" by auto
  show ?case
  proof (cases "r = q")
    case True
    with q c covers_le [OF c(3)] show ?thesis by simp
  next
    case False
    with Cons.prems(2) Cons.IH [OF c(3)] c show ?thesis by simp
  qed
qed simp

lemma covers_unique:
  assumes "covers a rs b" and "a \<le> p" and "p < b"
  shows "\<exists>!i. i < length rs \<and> fst (rs ! i) \<le> p \<and> p < snd (rs ! i)"
  using assms
proof (induction rs arbitrary: a)
  case (Cons r rs)
  obtain x y where r: "r = (x, y)" by fastforce
  with Cons.prems have c: "x = a" "x \<le> y" "covers y rs b" by auto
  show ?case
  proof (cases "p < y")
    case True
    have "\<not> (i < length rs \<and> fst (rs ! i) \<le> p)" for i
      using covers_bounds [OF c(3), of "rs ! i"] True by auto
    with True c r Cons.prems(2) show ?thesis
      by (intro ex1I [of _ 0]) (auto simp: nth_Cons split: nat.splits)
  next
    case False
    with Cons.IH [OF c(3)] Cons.prems(3)
    obtain i where i: "i < length rs" "fst (rs ! i) \<le> p" "p < snd (rs ! i)"
      and u: "\<And>j. j < length rs \<and> fst (rs ! j) \<le> p \<and> p < snd (rs ! j) \<Longrightarrow> j = i" by auto
    show ?thesis
    proof (rule ex1I [of _ "Suc i"])
      show "j < length (r # rs) \<and> fst ((r # rs) ! j) \<le> p \<and> p < snd ((r # rs) ! j) \<Longrightarrow> j = Suc i" for j
        using u False r by (cases j) auto
    qed (use i in simp)
  qed
qed simp

definition frame_ok :: "FrameDescriptor \<Rightarrow> bool" where
  "frame_ok f = (fd_DecodedSize f = fd_RawEnd f - fd_RawStart f \<and> 1 \<le> fd_ZstdSize f \<and>
     hash64 (fd_DecodedSHA256 f) \<and> hash64 (fd_ZstdSHA256 f))"

lemma checkFrames_ok:
  assumes "checkFrames s r l d fs = Inr (l', d')"
  shows "map fd_Seq fs = map (\<lambda>i. s + int i) [0..<length fs]"
    and "covers r (map (\<lambda>f. (fd_RawStart f, fd_RawEnd f)) fs) (r + (d' - d))"
    and "covers l (map (\<lambda>f. (fd_LineStart f, fd_LineEnd f)) fs) l'"
    and "list_all frame_ok fs" and "d' = d + sum_list (map fd_DecodedSize fs)"
  using assms
proof (induction fs arbitrary: s r l d)
  case (Cons f fs)
  {
    case 1
    then show ?case using Cons.IH(1) [of "s + 1" "fd_RawEnd f" "fd_LineEnd f" "d + fd_DecodedSize f"]
      by (auto simp: upt_conv_Cons map_Suc_upt [symmetric] simp del: upt_Suc split: if_splits)
  next
    case 2
    then have e: "fd_RawEnd f + (d' - (d + fd_DecodedSize f)) = r + (d' - d)" by (simp split: if_splits)
    from 2 have cov: "covers (fd_RawEnd f) (map (\<lambda>f. (fd_RawStart f, fd_RawEnd f)) fs)
        (fd_RawEnd f + (d' - (d + fd_DecodedSize f)))"
      by (intro Cons.IH(2)) (simp split: if_splits)
    from 2 have "fd_RawStart f = r \<and> r \<le> fd_RawEnd f" by (simp split: if_splits)
    with cov [unfolded e] show ?case by simp
  next
    case 3
    then show ?case using Cons.IH(3) [of "s + 1" "fd_RawEnd f" "fd_LineEnd f" "d + fd_DecodedSize f"]
      by (auto split: if_splits)
  next
    case 4
    then show ?case using Cons.IH(4) [of "s + 1" "fd_RawEnd f" "fd_LineEnd f" "d + fd_DecodedSize f"]
      by (auto simp: frame_ok_def split: if_splits)
  next
    case 5
    then show ?case using Cons.IH(5) [of "s + 1" "fd_RawEnd f" "fd_LineEnd f" "d + fd_DecodedSize f"]
      by (auto split: if_splits)
  }
qed auto

lemma Manifest_validate_ok:
  assumes "Manifest_validate m = None"
  shows "hash64 (mf_LocatorHash m)" and "mf_Sealed m" and "mf_FormatVersion m = 1" and "mf_Codec m = ManifestCodecZstd"
    and "mf_Frames m \<noteq> []" and "checkFrames 0 0 0 0 (mf_Frames m) = Inr (mf_TotalLines m, mf_TotalRawBytes m)"
  using assms by (auto simp: Manifest_validate_def split: if_splits sum.splits)

lemma Manifest_frames_ok:
  assumes "Manifest_validate m = None"
  shows "map fd_Seq (mf_Frames m) = map int [0..<length (mf_Frames m)]"
    and "covers 0 (map (\<lambda>f. (fd_RawStart f, fd_RawEnd f)) (mf_Frames m)) (mf_TotalRawBytes m)"
    and "covers 0 (map (\<lambda>f. (fd_LineStart f, fd_LineEnd f)) (mf_Frames m)) (mf_TotalLines m)"
    and "list_all frame_ok (mf_Frames m)"
    and "sum_list (map fd_DecodedSize (mf_Frames m)) = mf_TotalRawBytes m"
  using checkFrames_ok [OF Manifest_validate_ok(6) [OF assms]] by simp_all

section \<open>What a canonical text determines\<close>

definition manifest_header :: "ManifestV1 \<Rightarrow> (string \<times> string) list" where
  "manifest_header m =
     [(''locator_hash'', mf_LocatorHash m), (''sealed'', show_bool (mf_Sealed m)),
      (''format_version'', show_int (mf_FormatVersion m)), (''codec'', mf_Codec m),
      (''total_raw_bytes'', show_int (mf_TotalRawBytes m)), (''total_lines'', show_int (mf_TotalLines m)),
      (''frame_count'', show_int (int (length (mf_Frames m))))]"

definition frame_fields :: "FrameDescriptor \<Rightarrow> (string \<times> string) list" where
  "frame_fields f =
     [(''frame.seq'', show_int (fd_Seq f)), (''frame.raw_start'', show_int (fd_RawStart f)),
      (''frame.raw_end'', show_int (fd_RawEnd f)), (''frame.line_start'', show_int (fd_LineStart f)),
      (''frame.line_end'', show_int (fd_LineEnd f)), (''frame.decoded_size'', show_int (fd_DecodedSize f)),
      (''frame.decoded_sha256'', to_lower (fd_DecodedSHA256 f)), (''frame.zstd_size'', show_int (fd_ZstdSize f)),
      (''frame.zstd_sha256'', to_lower (fd_ZstdSHA256 f))]"

definition manifest_fields :: "ManifestV1 \<Rightarrow> (string \<times> string) list" where
  "manifest_fields m = manifest_header m @ concat (map frame_fields (mf_Frames m))"

lemma canon_text_append: "canon_text (fs @ gs) = canon_text fs @ canon_text gs"
  by (simp add: canon_text_def)

lemma canon_text_frames: "canon_text (concat (map frame_fields fs)) = concat (map frame_lines fs)"
  by (induction fs) (simp_all add: canon_text_append, simp_all add: canon_text_def frame_fields_def frame_lines_def)

lemma Manifest_CanonicalBytes_ok:
  "Manifest_CanonicalBytes m = Inr b \<longleftrightarrow> Manifest_validate m = None \<and> b = canon_text (manifest_fields m)"
proof -
  have "canon_text (manifest_fields m) = canon_text (manifest_header m) @ concat (map frame_lines (mf_Frames m))"
    by (simp add: manifest_fields_def canon_text_append canon_text_frames)
  then show ?thesis
    by (auto simp: Manifest_CanonicalBytes_def canon_text_def manifest_header_def split: option.splits)
qed

lemma frame_fields_plain: "frame_ok f \<Longrightarrow> list_all plain_field (frame_fields f)"
  using isHex_no_newline isHex_lower by (simp add: frame_fields_def frame_ok_def plain_field_def)

lemma manifest_header_plain: "Manifest_validate m = None \<Longrightarrow> list_all plain_field (manifest_header m)"
  using Manifest_validate_ok [of m]
  by (simp add: manifest_header_def plain_field_def show_bool_def ManifestCodecZstd_def isHex_no_newline)

lemma manifest_fields_plain:
  assumes "Manifest_validate m = None"
  shows "list_all plain_field (manifest_fields m)"
  using manifest_header_plain [OF assms] Manifest_frames_ok(4) [OF assms] frame_fields_plain
  by (auto simp: manifest_fields_def list_all_iff)

lemma canon_text_length:
  assumes "canon_text fs = canon_text gs" and "list_all plain_field fs" and "list_all plain_field gs"
  shows "length fs = length gs"
proof -
  have "map (\<lambda>(n, v). n @ ''='' @ v) fs = map (\<lambda>(n, v). n @ ''='' @ v) gs"
    by (rule lines_inj)
      (use assms in \<open>auto simp: canon_text_lines list_all_iff plain_field_def split: prod.splits\<close>)
  then show ?thesis by (rule map_eq_imp_length_eq)
qed

lemma length_frame_fields [simp]: "length (frame_fields f) = 9"
  by (simp add: frame_fields_def)

lemma names_of_frames: "length fs = length gs \<Longrightarrow>
  map fst (concat (map frame_fields fs)) = map fst (concat (map frame_fields gs))"
  by (induction rule: list_induct2) (simp_all add: frame_fields_def)

lemma length_frames_fields: "length (concat (map frame_fields fs)) = 9 * length fs"
  by (induction fs) simp_all

lemma frame_fields_inj: "frame_fields f = frame_fields g \<Longrightarrow> lowerDigests f = lowerDigests g"
  by (cases f; cases g) (auto simp: frame_fields_def lowerDigests_def dest: show_int_inj)

text \<open>A manifest with its digests in lower case: what the digest stands for.\<close>

definition lowerManifest :: "ManifestV1 \<Rightarrow> ManifestV1" where
  "lowerManifest m = m\<lparr> mf_Frames := map lowerDigests (mf_Frames m) \<rparr>"

lemma manifest_fields_inj:
  assumes "Manifest_validate m = None" and "Manifest_validate n = None"
    and "canon_text (manifest_fields m) = canon_text (manifest_fields n)"
  shows "lowerManifest m = lowerManifest n"
proof -
  note plain = manifest_fields_plain [OF assms(1)] manifest_fields_plain [OF assms(2)]
  have hl: "length (manifest_header m) = length (manifest_header n)" by (simp add: manifest_header_def)
  with canon_text_length [OF assms(3) plain] have l: "length (mf_Frames m) = length (mf_Frames n)"
    by (simp add: manifest_fields_def length_frames_fields)
  have "map fst (manifest_fields m) = map fst (manifest_fields n)"
    using names_of_frames [OF l] by (simp add: manifest_fields_def manifest_header_def)
  from canon_text_inj [OF assms(3) plain this] hl
  have h: "manifest_header m = manifest_header n"
    and c: "concat (map frame_fields (mf_Frames m)) = concat (map frame_fields (mf_Frames n))"
    by (simp_all add: manifest_fields_def)
  have "map frame_fields (mf_Frames m) = map frame_fields (mf_Frames n)"
    using c l by (subst (asm) concat_eq_concat_iff) (auto simp: set_zip)
  with l have "map lowerDigests (mf_Frames m) = map lowerDigests (mf_Frames n)"
    by (auto simp: list_eq_iff_nth_eq intro: frame_fields_inj)
  moreover have "mf_Sealed m = mf_Sealed n"
    using assms(1,2) [THEN Manifest_validate_ok(2)] by simp
  ultimately show ?thesis
    using h by (auto simp: lowerManifest_def manifest_header_def dest: show_int_inj intro!: ManifestV1.equality)
qed

text \<open>C31: a manifest digest identifies the sealed content: if two manifests have the same digest and
  SHA-256 does not collide on their canonical texts, they agree in every field, the case of the
  hexadecimal digits of frame hashes apart.\<close>

theorem manifest_digest_identifies:
  assumes "Manifest_CanonicalBytes m = Inr a" and "Manifest_CanonicalBytes n = Inr b"
    and "Manifest_Digest m = Manifest_Digest n" and "hexSum a = hexSum b \<Longrightarrow> a = b"
  shows "lowerManifest m = lowerManifest n"
proof -
  have "hexSum a = hexSum b" using assms(1-3) by (simp add: Manifest_Digest_def)
  with assms(4) have "a = b" by blast
  with assms(1,2) show ?thesis by (auto simp: Manifest_CanonicalBytes_ok intro: manifest_fields_inj)
qed

definition exampleHash :: string where "exampleHash = replicate 64 CHR ''a''"

definition exampleFrame :: "int \<Rightarrow> FrameDescriptor" where
  "exampleFrame i = \<lparr> fd_Seq = i, fd_RawStart = 10 * i, fd_RawEnd = 10 * i + 10, fd_LineStart = i, fd_LineEnd = i + 1,
     fd_DecodedSize = 10, fd_DecodedSHA256 = exampleHash, fd_ZstdSize = 5, fd_ZstdSHA256 = exampleHash \<rparr>"

definition exampleManifest :: ManifestV1 where
  "exampleManifest = \<lparr> mf_LocatorHash = exampleHash, mf_Sealed = True, mf_FormatVersion = 1,
     mf_Codec = ManifestCodecZstd, mf_Frames = [exampleFrame 0, exampleFrame 1],
     mf_TotalRawBytes = 20, mf_TotalLines = 2 \<rparr>"

lemma exampleManifest_ok: "Manifest_validate exampleManifest = None" by code_simp

text \<open>The same manifest with the hashes of its frames in capitals: another manifest with the same canonical text.\<close>

definition upperManifest :: ManifestV1 where
  "upperManifest = exampleManifest\<lparr> mf_Frames := map (\<lambda>f. f\<lparr> fd_DecodedSHA256 := replicate 64 CHR ''A'' \<rparr>) (mf_Frames exampleManifest) \<rparr>"

lemma upperManifest_ok: "Manifest_validate upperManifest = None" by code_simp

lemma manifest_digest_identifies_witness:
  "exampleManifest \<noteq> upperManifest \<and> Manifest_Digest exampleManifest = Manifest_Digest upperManifest \<and>
   lowerManifest exampleManifest = lowerManifest upperManifest"
proof -
  have same: "manifest_fields upperManifest = manifest_fields exampleManifest" by code_simp
  have b: "Manifest_CanonicalBytes exampleManifest = Inr (canon_text (manifest_fields exampleManifest))"
    "Manifest_CanonicalBytes upperManifest = Inr (canon_text (manifest_fields exampleManifest))"
    using exampleManifest_ok upperManifest_ok same by (simp_all add: Manifest_CanonicalBytes_ok)
  have "exampleManifest \<noteq> upperManifest" by code_simp
  moreover from b have d: "Manifest_Digest exampleManifest = Manifest_Digest upperManifest"
    by (simp add: Manifest_Digest_def)
  ultimately show ?thesis using manifest_digest_identifies [OF b d] by blast
qed

text \<open>C30: the frames of an accepted manifest partition the log: they are numbered from zero, every byte
  offset of the log lies in exactly one frame, every line number in exactly one frame, and the decoded
  sizes add up to the total.\<close>

theorem manifest_partitions_log:
  assumes "Manifest_validate m = None"
  shows "map fd_Seq (mf_Frames m) = map int [0..<length (mf_Frames m)] \<and>
    sum_list (map fd_DecodedSize (mf_Frames m)) = mf_TotalRawBytes m \<and>
    (\<forall>p. 0 \<le> p \<longrightarrow> p < mf_TotalRawBytes m \<longrightarrow>
      (\<exists>!i. i < length (mf_Frames m) \<and> fd_RawStart (mf_Frames m ! i) \<le> p \<and> p < fd_RawEnd (mf_Frames m ! i))) \<and>
    (\<forall>l. 0 \<le> l \<longrightarrow> l < mf_TotalLines m \<longrightarrow>
      (\<exists>!i. i < length (mf_Frames m) \<and> fd_LineStart (mf_Frames m ! i) \<le> l \<and> l < fd_LineEnd (mf_Frames m ! i)))"
proof -
  note ok = Manifest_frames_ok [OF assms]
  have bytes: "\<exists>!i. i < length (mf_Frames m) \<and> fd_RawStart (mf_Frames m ! i) \<le> p \<and> p < fd_RawEnd (mf_Frames m ! i)"
    if "0 \<le> p" "p < mf_TotalRawBytes m" for p
    using covers_unique [OF ok(2) that] by (simp cong: conj_cong)
  have "\<exists>!i. i < length (mf_Frames m) \<and> fd_LineStart (mf_Frames m ! i) \<le> l \<and> l < fd_LineEnd (mf_Frames m ! i)"
    if "0 \<le> l" "l < mf_TotalLines m" for l
    using covers_unique [OF ok(3) that] by (simp cong: conj_cong)
  with ok(1,5) bytes show ?thesis by blast
qed

lemma manifest_partitions_log_witness:
  "\<exists>!i. i < length (mf_Frames exampleManifest) \<and> fd_RawStart (mf_Frames exampleManifest ! i) \<le> 13 \<and>
     13 < fd_RawEnd (mf_Frames exampleManifest ! i)"
proof -
  have "13 < mf_TotalRawBytes exampleManifest" by (simp add: exampleManifest_def)
  then show ?thesis using manifest_partitions_log [OF exampleManifest_ok] by simp
qed

section \<open>Object kinds and locators\<close>

lemma default_admission:
  "DefaultObjectClassAdmission = [ObjectKindConsoleLog \<mapsto>
     \<lparr> oc_Kind = ObjectKindConsoleLog, oc_Enabled = True, oc_MaxObjectRawBytes = DefaultMaxObjectRawBytesConsoleLog,
       oc_ApprovalToken = ''flc_v1_console_log_sealed'', oc_Residual = ''v1 sealed completed console logs only'' \<rparr>]"
proof -
  have "to_lower (trim_space ObjectKindConsoleLog) = ObjectKindConsoleLog" by code_simp
  moreover have "ObjectKindConsoleLog \<noteq> []" by (simp add: ObjectKindConsoleLog_def)
  ultimately show ?thesis
    by (simp add: DefaultObjectClassAdmission_def DefaultObjectClassRegistry_def
      DefaultMaxObjectRawBytesConsoleLog_def)
qed

text \<open>Unknown kinds of object are refused by default: with the registry the program ships, exactly
  sealed console logs within the size cap get an identity in the shared cache.\<close>

theorem RequireObjectClass_iff:
  "RequireObjectClass kind n = None \<longleftrightarrow>
     to_lower (trim_space kind) = ''console_log'' \<and> n \<le> 256 * 2 ^ 20"
  by (simp add: RequireObjectClass_def AdmitObjectClass_def Let_def default_admission
    DefaultMaxObjectRawBytesConsoleLog_def ObjectKindConsoleLog_def split: option.splits) auto

lemma console_log_admitted [simp]: "RequireObjectClass ObjectKindConsoleLog 0 = None"
proof -
  have "to_lower (trim_space ObjectKindConsoleLog) = ''console_log''" by code_simp
  moreover have "ObjectKindConsoleLog \<noteq> []" by (simp add: ObjectKindConsoleLog_def)
  ultimately show ?thesis
    by (simp add: RequireObjectClass_def AdmitObjectClass_def default_admission
      DefaultMaxObjectRawBytesConsoleLog_def ObjectKindConsoleLog_def)
qed

definition locator_fields :: "Locator \<Rightarrow> (string \<times> string) list" where
  "locator_fields l =
     [(''fleet_id'', lc_FleetID l), (''cache_pool'', lc_CachePool l), (''controller_id'', lc_ControllerID l),
      (''object_kind'', lc_ObjectKind l), (''job_full_name'', lc_JobFullNameNormalized l),
      (''build_number'', show_int (lc_BuildNumber l)), (''locator_schema_version'', show_int (lc_LocatorSchemaVersion l))]"

lemma Locator_CanonicalBytes_ok:
  "Locator_CanonicalBytes l = Inr b \<longleftrightarrow> Locator_validate l = None \<and> b = canon_text (locator_fields l)"
  by (auto simp: Locator_CanonicalBytes_def canon_text_def locator_fields_def split: option.splits)

lemma NewConsoleLogLocator_ok:
  assumes "NewConsoleLogLocator f p c j n = Inr l"
  shows "lc_FleetID l = trim_space f" and "lc_CachePool l = trim_space p" and "lc_ControllerID l = trim_space c"
    and "lc_ObjectKind l = ObjectKindConsoleLog" and "lc_JobFullNameNormalized l = trim_space j"
    and "lc_BuildNumber l = n" and "lc_LocatorSchemaVersion l = LocatorSchemaVersion"
    and "\<not> list_ex control_char (trim_space j)" and "Locator_validate l = None"
proof -
  from assms obtain r where r: "ParseJobFullName ''job_full_name'' j = Inr r"
    and ne: "trim_space f \<noteq> []" "trim_space p \<noteq> []" "trim_space c \<noteq> []" "1 \<le> n"
    and l: "l = \<lparr> lc_FleetID = trim_space f, lc_CachePool = trim_space p, lc_ControllerID = trim_space c,
           lc_ObjectKind = ObjectKindConsoleLog, lc_JobFullNameNormalized = jr_FullName r,
           lc_BuildNumber = n, lc_LocatorSchemaVersion = LocatorSchemaVersion \<rparr>"
    by (auto simp: NewConsoleLogLocator_def Let_def split: if_splits sum.splits)
  note ok = ParseJobFullName_ok [OF r]
  show ctl: "\<not> list_ex control_char (trim_space j)" by (rule ok(4))
  have "CHR 0x00 \<notin> set (trim_space j)"
  proof
    assume "CHR 0x00 \<in> set (trim_space j)"
    with ctl have "\<not> control_char (CHR 0x00)" by (auto simp: list_ex_iff)
    then show False by (simp add: control_char_def)
  qed
  with l ok(1,2) ne show "Locator_validate l = None"
    by (simp add: Locator_validate_def)
  show "lc_FleetID l = trim_space f" "lc_CachePool l = trim_space p" "lc_ControllerID l = trim_space c"
    "lc_ObjectKind l = ObjectKindConsoleLog" "lc_JobFullNameNormalized l = trim_space j"
    "lc_BuildNumber l = n" "lc_LocatorSchemaVersion l = LocatorSchemaVersion"
    using l ok(1) by simp_all
qed

lemma no_control_no_newline: "\<not> list_ex control_char s \<Longrightarrow> CHR 0x0A \<notin> set s"
proof
  assume "\<not> list_ex control_char s" "CHR 0x0A \<in> set s"
  then have "\<not> control_char (CHR 0x0A)" by (auto simp: list_ex_iff)
  then show False by (simp add: control_char_def)
qed

lemma locator_fields_plain:
  assumes "NewConsoleLogLocator f p c j n = Inr l" and "CHR 0x0A \<notin> set f \<union> set p \<union> set c"
  shows "list_all plain_field (locator_fields l)"
  using NewConsoleLogLocator_ok [OF assms(1)] assms(2) trim_space_subset [of f] trim_space_subset [of p]
    trim_space_subset [of c] no_control_no_newline [of "trim_space j"]
  by (auto simp: locator_fields_def plain_field_def ObjectKindConsoleLog_def)

text \<open>The locator hash identifies the object: two locators built from identities that are single
  lines, and with one hash, are the same locator, if SHA-256 does not collide on their texts.\<close>

theorem locator_hash_identifies:
  assumes "NewConsoleLogLocator f p c j n = Inr l" and "NewConsoleLogLocator f' p' c' j' n' = Inr l'"
    and "CHR 0x0A \<notin> set f \<union> set p \<union> set c" and "CHR 0x0A \<notin> set f' \<union> set p' \<union> set c'"
    and "Locator_Hash l = Locator_Hash l'"
    and "\<And>a b. Locator_CanonicalBytes l = Inr a \<Longrightarrow> Locator_CanonicalBytes l' = Inr b \<Longrightarrow> hexSum a = hexSum b \<Longrightarrow> a = b"
  shows "l = l' \<and> trim_space f = trim_space f' \<and> trim_space j = trim_space j' \<and> n = n'"
proof -
  note ok = NewConsoleLogLocator_ok [OF assms(1)] NewConsoleLogLocator_ok [OF assms(2)]
  have b: "Locator_CanonicalBytes l = Inr (canon_text (locator_fields l))"
    "Locator_CanonicalBytes l' = Inr (canon_text (locator_fields l'))"
    using ok by (simp_all add: Locator_CanonicalBytes_ok)
  have "hexSum (canon_text (locator_fields l)) = hexSum (canon_text (locator_fields l'))"
    using assms(5) b by (simp add: Locator_Hash_def)
  from assms(6) [OF b this] have "locator_fields l = locator_fields l'"
    using locator_fields_plain [OF assms(1,3)] locator_fields_plain [OF assms(2,4)]
    by (rule canon_text_inj) (simp add: locator_fields_def)
  then have "l = l'" by (auto simp: locator_fields_def dest: show_int_inj intro!: Locator.equality)
  with ok show ?thesis by simp
qed

definition exampleLocator :: Locator where
  "exampleLocator = \<lparr> lc_FleetID = ''f'', lc_CachePool = ''p'', lc_ControllerID = ''c'',
     lc_ObjectKind = ObjectKindConsoleLog, lc_JobFullNameNormalized = ''team/app'', lc_BuildNumber = 7,
     lc_LocatorSchemaVersion = LocatorSchemaVersion \<rparr>"

lemma exampleLocator_new: "NewConsoleLogLocator ''f'' ''p'' ''c'' ''team/app'' 7 = Inr exampleLocator" by code_simp

lemma locator_hash_identifies_witness: "exampleLocator = exampleLocator \<and> (7::int) = 7"
  using locator_hash_identifies [OF exampleLocator_new exampleLocator_new] by fastforce

text \<open>Identity fields are only trimmed: two different locators, of different fleets, whose fields
  contain a newline, have the same canonical text and so the same hash.\<close>

theorem newline_locators_share_hash:
  "\<exists>a b. NewConsoleLogLocator (''x'' @ [CHR 0x0A] @ ''cache_pool=y'') ''z'' ''c'' ''job'' 1 = Inr a \<and>
     NewConsoleLogLocator ''x'' (''y'' @ [CHR 0x0A] @ ''cache_pool=z'') ''c'' ''job'' 1 = Inr b \<and>
     lc_FleetID a \<noteq> lc_FleetID b \<and> Locator_Hash a = Locator_Hash b"
proof -
  define a where "a = \<lparr> lc_FleetID = ''x'' @ [CHR 0x0A] @ ''cache_pool=y'', lc_CachePool = ''z'', lc_ControllerID = ''c'',
     lc_ObjectKind = ObjectKindConsoleLog, lc_JobFullNameNormalized = ''job'', lc_BuildNumber = 1,
     lc_LocatorSchemaVersion = LocatorSchemaVersion \<rparr>"
  define b where "b = \<lparr> lc_FleetID = ''x'', lc_CachePool = ''y'' @ [CHR 0x0A] @ ''cache_pool=z'', lc_ControllerID = ''c'',
     lc_ObjectKind = ObjectKindConsoleLog, lc_JobFullNameNormalized = ''job'', lc_BuildNumber = 1,
     lc_LocatorSchemaVersion = LocatorSchemaVersion \<rparr>"
  have n: "NewConsoleLogLocator (''x'' @ [CHR 0x0A] @ ''cache_pool=y'') ''z'' ''c'' ''job'' 1 = Inr a"
    "NewConsoleLogLocator ''x'' (''y'' @ [CHR 0x0A] @ ''cache_pool=z'') ''c'' ''job'' 1 = Inr b"
    unfolding a_def b_def by code_simp+
  have "Locator_CanonicalBytes a = Locator_CanonicalBytes b" unfolding a_def b_def by code_simp
  then have "Locator_Hash a = Locator_Hash b" by (simp add: Locator_Hash_def)
  with n show ?thesis by (intro exI [of _ a] exI [of _ b]) (simp add: a_def b_def)
qed

section \<open>Publishing\<close>

lemma publishLoop_frames: "publishLoop s l fs = Inr (gs, s', l') \<Longrightarrow> gs = map publishFrame fs"
  by (induction fs arbitrary: s l gs) (auto simp: Let_def split: if_splits sum.splits)

lemma wireOf_inverse [simp]: "descriptorOf (wireOf f) = f"
  by (simp add: descriptorOf_def wireOf_def)

lemma lowerDigests_publishFrame [simp]: "lowerDigests (publishFrame f) = publishFrame f"
  by (simp add: lowerDigests_def publishFrame_def)

lemma PublishSealed_ok:
  assumes "PublishSealed inp = Inr wm"
  obtains loc frames s l where
    "NewConsoleLogLocator (sp_FleetID inp) (sp_CachePool inp) (sp_ControllerID inp) (sp_JobFullName inp) (sp_BuildNumber inp) = Inr loc"
    "Locator_Hash loc = Inr (wm_LocatorHash wm)" "sp_Sealed inp" "frames = map publishFrame (sp_Frames inp)"
    "wm_Frames wm = map wireOf frames" "wm_FleetID wm = lc_FleetID loc" "wm_Sealed wm" "wm_FormatVersion wm = 1"
    "wm_Codec wm = ManifestCodecZstd" "ValidateWireManifest wm = None"
    "Manifest_Digest \<lparr> mf_LocatorHash = wm_LocatorHash wm, mf_Sealed = True, mf_FormatVersion = 1, mf_Codec = ManifestCodecZstd,
       mf_Frames = frames, mf_TotalRawBytes = wm_TotalRawBytes wm, mf_TotalLines = wm_TotalLines wm \<rparr> = Inr (wm_ManifestDigest wm)"
  using assms
  by (auto simp: PublishSealed_def Let_def dest: publishLoop_frames
      split: if_splits sum.splits option.splits prod.splits)

text \<open>C40: a published manifest is one every peer accepts: it passes wire validation, it is stored under
  the hash of its job's locator, and the digest it carries is the digest a peer computes from it.\<close>

theorem published_manifest_verifies:
  assumes "PublishSealed inp = Inr wm"
  shows "ValidateWireManifest wm = None \<and> DigestWireManifest wm = Inr (wm_ManifestDigest wm) \<and> sp_Sealed inp \<and>
    (\<exists>loc. NewConsoleLogLocator (sp_FleetID inp) (sp_CachePool inp) (sp_ControllerID inp) (sp_JobFullName inp)
        (sp_BuildNumber inp) = Inr loc \<and> Locator_Hash loc = Inr (wm_LocatorHash wm) \<and> wm_FleetID wm = lc_FleetID loc)"
proof -
  obtain loc frames where p:
    "NewConsoleLogLocator (sp_FleetID inp) (sp_CachePool inp) (sp_ControllerID inp) (sp_JobFullName inp) (sp_BuildNumber inp) = Inr loc"
    "Locator_Hash loc = Inr (wm_LocatorHash wm)" "sp_Sealed inp" "frames = map publishFrame (sp_Frames inp)"
    "wm_Frames wm = map wireOf frames" "wm_FleetID wm = lc_FleetID loc" "wm_Sealed wm" "wm_FormatVersion wm = 1"
    "wm_Codec wm = ManifestCodecZstd" "ValidateWireManifest wm = None"
    "Manifest_Digest \<lparr> mf_LocatorHash = wm_LocatorHash wm, mf_Sealed = True, mf_FormatVersion = 1, mf_Codec = ManifestCodecZstd,
       mf_Frames = frames, mf_TotalRawBytes = wm_TotalRawBytes wm, mf_TotalLines = wm_TotalLines wm \<rparr> = Inr (wm_ManifestDigest wm)"
    using PublishSealed_ok [OF assms] by metis
  from p(2) obtain raw where "hexSum raw = wm_LocatorHash wm"
    by (auto simp: Locator_Hash_def split: sum.splits)
  then have "to_lower (wm_LocatorHash wm) = wm_LocatorHash wm" using hexSum_lower [of raw] by simp
  then have "ToManifestV1 wm = \<lparr> mf_LocatorHash = wm_LocatorHash wm, mf_Sealed = True, mf_FormatVersion = 1,
      mf_Codec = ManifestCodecZstd, mf_Frames = frames, mf_TotalRawBytes = wm_TotalRawBytes wm, mf_TotalLines = wm_TotalLines wm \<rparr>"
    using p(4,5,7-9) by (simp add: ToManifestV1_def)
  with p show ?thesis by (auto simp: DigestWireManifest_def)
qed

definition examplePublish :: SealedPublishInput where
  "examplePublish = \<lparr> sp_FleetID = ''f'', sp_CachePool = ''p'', sp_ControllerID = ''c'', sp_JobFullName = ''team/app'',
     sp_BuildNumber = 7, sp_Sealed = True, sp_Frames = [exampleFrame 0, exampleFrame 1],
     sp_TotalRawBytes = 0, sp_TotalLines = 0 \<rparr>"

lemma examplePublish_ok: "\<exists>wm. PublishSealed examplePublish = Inr wm"
proof -
  have "Locator_CanonicalBytes exampleLocator = Inr (canon_text (locator_fields exampleLocator))"
    using NewConsoleLogLocator_ok [OF exampleLocator_new] by (simp add: Locator_CanonicalBytes_ok)
  then have hash: "Locator_Hash exampleLocator = Inr (hexSum (canon_text (locator_fields exampleLocator)))"
    by (simp add: Locator_Hash_def)
  have ids: "lc_FleetID exampleLocator = ''f''" "lc_CachePool exampleLocator = ''p''" "lc_ControllerID exampleLocator = ''c''"
    by (simp_all add: exampleLocator_def)
  have frames: "publishLoop 0 0 [exampleFrame 0, exampleFrame 1] = Inr ([exampleFrame 0, exampleFrame 1], 20, 2)"
    by code_simp
  have check: "checkFrames 0 0 0 0 [exampleFrame 0, exampleFrame 1] = Inr (2, 20)" by code_simp
  have wire: "map (descriptorOf \<circ> wireOf) [exampleFrame 0, exampleFrame 1] = [exampleFrame 0, exampleFrame 1]" by simp
  have caps: "wireFrameCaps [wireOf (exampleFrame 0), wireOf (exampleFrame 1)] = None" by code_simp
  have names: "trim_space ''f'' = ''f''" "trim_space ''p'' = ''p''" "trim_space ''c'' = ''c''"
    "trim_space ''fleet-cache/1'' = ''fleet-cache/1''" by code_simp+
  show ?thesis
    by (simp add: PublishSealed_def examplePublish_def exampleLocator_new hash ids frames Let_def
      Manifest_validate_def check Manifest_Digest_def Manifest_CanonicalBytes_def ValidateWireManifest_def names
      ProtocolVersionV1_def MaxWireFrames_def caps
      del: checkFrames.simps publishLoop.simps wireFrameCaps.simps)
qed

lemma published_manifest_verifies_witness:
  "\<exists>wm. PublishSealed examplePublish = Inr wm \<and> DigestWireManifest wm = Inr (wm_ManifestDigest wm)"
proof -
  from examplePublish_ok obtain wm where "PublishSealed examplePublish = Inr wm" by blast
  with published_manifest_verifies [OF this] show ?thesis by blast
qed

end
