(* ===== verification/FillLeaseCorrect.thy ===== *)
theory FillLeaseCorrect
  imports FillLease FleetManifestCorrect
begin

text \<open>
  Correctness of the fill lease. Critical sections of the authority, in any interleaving, keep a
  history: fences count the grants of a locator, and a locator is completed at most once, by the last
  producer. The coordinating calls of any number of members are a machine over one authority whose
  clock never goes back: at most one member runs the origin under a lease that has not expired.
\<close>

section \<open>What a section does\<close>

text \<open>The lease of a locator, whatever its state.\<close>

definition lease_of :: "FillLeaseAuthority \<Rightarrow> string \<Rightarrow> FillLease option" where
  "lease_of a lh = map_option lr_lease (fa_byLocator a lh)"

lemma newLeaseID_ok: "newLeaseID ent = Inr i \<Longrightarrow> i \<noteq> []"
  by (auto simp: newLeaseID_def split: option.splits)

lemma lease_active_iff: "lease_active now l \<longleftrightarrow> \<not> fl_Completed l \<and> fl_LeaseID l \<noteq> [] \<and> now < fl_ExpiresAt l"
  by (simp add: lease_active_def)

text \<open>Joining ends in one of five ways.\<close>

lemma joinLocked_cases:
  assumes "joinLocked now ent f lh m a = (a', r)"
  obtains (failed) e where "r = Inl e" "a' = a"
  | (completed) l where "lease_of a lh = Some l" "fl_Completed l" "a' = a"
      "r = Inr \<lparr> fj_Role = FillRoleCompleted, fj_Lease = l, fj_Residual = [] \<rparr>"
  | (rejoin) rc where "fa_byLocator a lh = Some rc" "lease_active now (lr_lease rc)"
      "fl_ProducerMemberID (lr_lease rc) = m" "fl_FleetID (lr_lease rc) = f"
      "a' = a\<lparr> fa_byLocator := (fa_byLocator a)(lh \<mapsto> rc\<lparr> lr_lease := (lr_lease rc)\<lparr> fl_ExpiresAt := now + fa_ttl a \<rparr> \<rparr>) \<rparr>"
      "r = Inr \<lparr> fj_Role = FillRoleProducer, fj_Lease = (lr_lease rc)\<lparr> fl_ExpiresAt := now + fa_ttl a \<rparr>, fj_Residual = [] \<rparr>"
  | (waiter) l where "lease_of a lh = Some l" "lease_active now l" "fl_ProducerMemberID l \<noteq> m \<or> fl_FleetID l \<noteq> f"
      "a' = a" "r = Inr \<lparr> fj_Role = FillRoleWaiter, fj_Lease = l, fj_Residual = [] \<rparr>"
  | (grant) i n res l where "i \<noteq> []" "newLeaseID ent = Inr i"
      "l = \<lparr> fl_LeaseID = i, fl_LocatorHash = lh, fl_FleetID = f, fl_ProducerMemberID = m, fl_Fence = n,
             fl_IssuedAt = Some now, fl_ExpiresAt = now + fa_ttl a, fl_Completed = False, fl_ManifestDigest = [] \<rparr>"
      "a' = a\<lparr> fa_byLocator := (fa_byLocator a)(lh \<mapsto> \<lparr> lr_lease = l, lr_nextFence = n + 1 \<rparr>) \<rparr>"
      "r = Inr \<lparr> fj_Role = FillRoleProducer, fj_Lease = l, fj_Residual = res \<rparr>"
      "case fa_byLocator a lh of None \<Rightarrow> n = 1
       | Some rc \<Rightarrow> \<not> fl_Completed (lr_lease rc) \<and> \<not> lease_active now (lr_lease rc) \<and>
           n = (if lr_nextFence rc < fl_Fence (lr_lease rc) + 1 then fl_Fence (lr_lease rc) + 1 else lr_nextFence rc)"
  using assms newLeaseID_ok [of ent]
  by (auto simp: joinLocked_def Let_def lease_of_def split: option.splits if_splits sum.splits)

lemma renewLocked_cases:
  assumes "renewLocked now f lh m a = (a', r)"
  obtains (failed) e where "r = Inl e" "a' = a"
      "\<not> (\<exists>rc. fa_byLocator a lh = Some rc \<and> lease_active now (lr_lease rc) \<and>
           fl_ProducerMemberID (lr_lease rc) = m \<and> fl_FleetID (lr_lease rc) = f)"
  | (renewed) rc where "fa_byLocator a lh = Some rc" "lease_active now (lr_lease rc)"
      "fl_ProducerMemberID (lr_lease rc) = m" "fl_FleetID (lr_lease rc) = f"
      "a' = a\<lparr> fa_byLocator := (fa_byLocator a)(lh \<mapsto> rc\<lparr> lr_lease := (lr_lease rc)\<lparr> fl_ExpiresAt := now + fa_ttl a \<rparr> \<rparr>) \<rparr>"
      "r = Inr ((lr_lease rc)\<lparr> fl_ExpiresAt := now + fa_ttl a \<rparr>)"
  using assms by (auto simp: renewLocked_def Let_def split: option.splits if_splits)

lemma completeLocked_cases:
  assumes "completeLocked now f lh m i n d a = (a', r)"
  obtains (failed) e where "r = Some e" "a' = a"
  | (replayed) l where "lease_of a lh = Some l" "fl_Completed l" "fl_Fence l = n" "fl_LeaseID l = i"
      "fl_ProducerMemberID l = m" "a' = a" "r = None"
  | (completed) rc where "fa_byLocator a lh = Some rc" "lease_active now (lr_lease rc)"
      "fl_ProducerMemberID (lr_lease rc) = m" "fl_FleetID (lr_lease rc) = f" "fl_LeaseID (lr_lease rc) = i"
      "fl_Fence (lr_lease rc) = n" "r = None"
      "a' = a\<lparr> fa_byLocator := (fa_byLocator a)(lh \<mapsto>
         rc\<lparr> lr_lease := (lr_lease rc)\<lparr> fl_Completed := True, fl_ManifestDigest := d \<rparr> \<rparr>) \<rparr>"
  using assms by (auto simp: completeLocked_def Let_def lease_of_def split: option.splits if_splits)

lemma releaseLocked_cases:
  assumes "releaseLocked now f lh m i n a = (a', r)"
  obtains (kept) "a' = a"
  | (released) rc where "fa_byLocator a lh = Some rc" "lease_active now (lr_lease rc)"
      "fl_ProducerMemberID (lr_lease rc) = m" "fl_FleetID (lr_lease rc) = f" "fl_LeaseID (lr_lease rc) = i"
      "fl_Fence (lr_lease rc) = n" "r = None"
      "a' = a\<lparr> fa_byLocator := (fa_byLocator a)(lh \<mapsto> \<lparr> lr_lease = \<lparr> fl_LeaseID = [], fl_LocatorHash = lh,
           fl_FleetID = f, fl_ProducerMemberID = [], fl_Fence = n, fl_IssuedAt = None, fl_ExpiresAt = now - second,
           fl_Completed = False, fl_ManifestDigest = [] \<rparr>,
         lr_nextFence = (if lr_nextFence rc \<le> n then n + 1 else lr_nextFence rc) \<rparr>) \<rparr>"
  using assms by (auto simp: releaseLocked_def Let_def split: option.splits if_splits)

section \<open>Sections with their history\<close>

text \<open>An operation of the authority under its mutex, with normalised arguments.\<close>

datatype FillOp =
    OJoin int "string option" string string string
  | OComplete int string string string string "64 word" string
  | ORenew int string string string
  | ORelease int string string string string "64 word"

datatype FillEvent =
    FGranted string "64 word" string string \<comment> \<open>locator, fence, lease id, member\<close>
  | FCompleted string "64 word" string string \<comment> \<open>locator, fence, lease id, digest\<close>

text \<open>The history records a grant of a new lease, and the completion that changed the record.\<close>

fun run_fill :: "FillOp \<Rightarrow> FillLeaseAuthority \<Rightarrow> FillLeaseAuthority \<times> FillEvent list" where
  "run_fill (OJoin now ent f lh m) a =
     (case joinLocked now ent f lh m a of
        (a', Inr j) \<Rightarrow> (a', if fj_Role j = FillRoleProducer \<and>
             (case lease_of a lh of None \<Rightarrow> True | Some l \<Rightarrow> \<not> lease_active now l)
           then [FGranted lh (fl_Fence (fj_Lease j)) (fl_LeaseID (fj_Lease j)) m] else [])
      | (a', Inl e) \<Rightarrow> (a', []))"
| "run_fill (OComplete now f lh m i n d) a =
     (case completeLocked now f lh m i n d a of
        (a', None) \<Rightarrow> (a', if (case lease_of a lh of None \<Rightarrow> False | Some l \<Rightarrow> \<not> fl_Completed l)
           then [FCompleted lh n i d] else [])
      | (a', Some e) \<Rightarrow> (a', []))"
| "run_fill (ORenew now f lh m) a = (fst (renewLocked now f lh m a), [])"
| "run_fill (ORelease now f lh m i n) a = (fst (releaseLocked now f lh m i n a), [])"


fun grant_fence :: "string \<Rightarrow> FillEvent \<Rightarrow> 64 word option" where
  "grant_fence lh (FGranted lh' n i m) = (if lh' = lh then Some n else None)"
| "grant_fence lh _ = None"

fun completion :: "string \<Rightarrow> FillEvent \<Rightarrow> (64 word \<times> string \<times> string) option" where
  "completion lh (FCompleted lh' n i d) = (if lh' = lh then Some (n, i, d) else None)"
| "completion lh _ = None"

text \<open>The fences granted for a locator, and its completions, newest first.\<close>

definition fences :: "string \<Rightarrow> FillEvent list \<Rightarrow> 64 word list" where
  "fences lh h = List.map_filter (grant_fence lh) h"

definition completions :: "string \<Rightarrow> FillEvent list \<Rightarrow> (64 word \<times> string \<times> string) list" where
  "completions lh h = List.map_filter (completion lh) h"

lemma history_simps [simp]:
  "fences lh [] = []" "completions lh [] = []"
  "fences lh (e # h) = (case grant_fence lh e of None \<Rightarrow> fences lh h | Some n \<Rightarrow> n # fences lh h)"
  "completions lh (e # h) = (case completion lh e of None \<Rightarrow> completions lh h | Some c \<Rightarrow> c # completions lh h)"
  by (simp_all add: fences_def completions_def List.map_filter_simps split: option.split)

fun first_fences :: "nat \<Rightarrow> 64 word list" where
  "first_fences 0 = []"
| "first_fences (Suc n) = of_nat (Suc n) # first_fences n"

text \<open>A locator after \<open>n\<close> grants: its record carries fence \<open>n\<close>, and its completions are those of the record.\<close>

definition fence_state :: "nat \<Rightarrow> (64 word \<times> string \<times> string) list \<Rightarrow> fillLeaseRec option \<Rightarrow> bool" where
  "fence_state n cs ro =
     (case ro of
        None \<Rightarrow> n = 0 \<and> cs = []
      | Some rc \<Rightarrow> fl_Fence (lr_lease rc) = of_nat n \<and> lr_nextFence rc = of_nat n + 1 \<and> 0 < n \<and>
          cs = (if fl_Completed (lr_lease rc) then
                  [(fl_Fence (lr_lease rc), fl_LeaseID (lr_lease rc), fl_ManifestDigest (lr_lease rc))] else []))"

definition fenced :: "FillLeaseAuthority \<times> FillEvent list \<Rightarrow> string \<Rightarrow> bool" where
  "fenced s lh = (\<exists>n. fences lh (snd s) = first_fences n \<and>
     fence_state n (completions lh (snd s)) (fa_byLocator (fst s) lh))"

inductive fstep :: "FillLeaseAuthority \<times> FillEvent list \<Rightarrow> FillLeaseAuthority \<times> FillEvent list \<Rightarrow> bool" where
  fstep_op: "run_fill op a = (a', os) \<Longrightarrow> fstep (a, h) (a', os @ h)"

inductive_cases fstepE: "fstep s t"

definition fstart :: "int \<Rightarrow> FillLeaseAuthority \<times> FillEvent list \<Rightarrow> bool" where
  "fstart ttl s = (s = (NewFillLeaseAuthority ttl, []))"

lemma history_append:
  "fences lh (os @ h) = fences lh os @ fences lh h" "completions lh (os @ h) = completions lh os @ completions lh h"
  by (simp_all add: fences_def completions_def List.map_filter_def)

lemma fenced_same:
  assumes "fenced (a, h) lh" and "fences lh os = []" and "completions lh os = []"
    and "\<And>n cs. fence_state n cs (fa_byLocator a lh) \<Longrightarrow> fence_state n cs (fa_byLocator a' lh)"
  shows "fenced (a', os @ h) lh"
  using assms by (auto simp: fenced_def history_append)

lemma fence_state_expiry [simp]:
  "fence_state n cs (Some (rc\<lparr> lr_lease := (lr_lease rc)\<lparr> fl_ExpiresAt := t \<rparr> \<rparr>)) = fence_state n cs (Some rc)"
  by (simp add: fence_state_def)

lemma fenced_grant:
  assumes "fenced (a, h) lh"
    and "case fa_byLocator a lh of None \<Rightarrow> n = 1
       | Some rc \<Rightarrow> \<not> fl_Completed (lr_lease rc) \<and>
           n = (if lr_nextFence rc < fl_Fence (lr_lease rc) + 1 then fl_Fence (lr_lease rc) + 1 else lr_nextFence rc)"
    and "fl_Fence l = n" and "\<not> fl_Completed l"
    and "fa_byLocator a' lh = Some \<lparr> lr_lease = l, lr_nextFence = n + 1 \<rparr>"
  shows "fenced (a', FGranted lh n i m # h) lh"
proof -
  from assms(1) obtain k where k: "fences lh h = first_fences k"
    and st: "fence_state k (completions lh h) (fa_byLocator a lh)" by (auto simp: fenced_def)
  have n: "n = of_nat (Suc k)" and c: "completions lh h = []"
    using assms(2) st by (auto simp: fence_state_def split: option.splits)
  have "fences lh (FGranted lh n i m # h) = first_fences (Suc k)" using k n by simp
  moreover have "fence_state (Suc k) (completions lh (FGranted lh n i m # h)) (fa_byLocator a' lh)"
    using assms(3-5) n c by (simp add: fence_state_def)
  ultimately show ?thesis unfolding fenced_def by (intro exI [of _ "Suc k"]) simp
qed

lemma fenced_complete:
  assumes "fenced (a, h) lh" and "fa_byLocator a lh = Some rc" and "\<not> fl_Completed (lr_lease rc)"
    and "fl_Fence (lr_lease rc) = n" and "fl_LeaseID (lr_lease rc) = i"
    and "fa_byLocator a' lh = Some (rc\<lparr> lr_lease := (lr_lease rc)\<lparr> fl_Completed := True, fl_ManifestDigest := d \<rparr> \<rparr>)"
  shows "fenced (a', FCompleted lh n i d # h) lh"
  using assms by (auto simp: fenced_def fence_state_def)

lemma fenced_run:
  assumes inv: "fenced (a, h) lh" and run: "run_fill op a = (a', os)"
  shows "fenced (a', os @ h) lh"
proof (cases op)
  case (OJoin now ent f lh' m)
  obtain r where j: "joinLocked now ent f lh' m a = (a', r)" using run OJoin by (auto split: prod.splits sum.splits if_splits)
  then show ?thesis
  proof (cases rule: joinLocked_cases)
    case (grant i n res l)
    then have os: "os = [FGranted lh' n i m]" using run OJoin j by (auto simp: lease_of_def split: option.splits)
    show ?thesis
    proof (cases "lh' = lh")
      case True
      have "fenced (a', FGranted lh n i m # h) lh"
        by (rule fenced_grant [OF inv, of n l]) (use grant True in \<open>auto split: option.splits\<close>)
      with os True show ?thesis by simp
    next
      case False
      then show ?thesis using grant(4) os by (intro fenced_same [OF inv]) auto
    qed
  next
    case (rejoin rc)
    then have "os = []" using run OJoin j by (auto simp: lease_of_def)
    with rejoin show ?thesis by (intro fenced_same [OF inv]) auto
  next
    case (completed l)
    then have "os = []" using run OJoin j by simp
    with completed inv show ?thesis by simp
  next
    case (waiter l)
    then have "os = []" using run OJoin j by simp
    with waiter inv show ?thesis by simp
  next
    case (failed e)
    then have "os = []" using run OJoin j by simp
    with failed inv show ?thesis by simp
  qed
next
  case (OComplete now f lh' m i n d)
  obtain r where c: "completeLocked now f lh' m i n d a = (a', r)"
    using run OComplete by (auto split: prod.splits option.splits if_splits)
  then show ?thesis
  proof (cases rule: completeLocked_cases)
    case (completed rc)
    then have os: "os = [FCompleted lh' n i d]" using run OComplete c by (auto simp: lease_of_def lease_active_iff)
    show ?thesis
    proof (cases "lh' = lh")
      case True
      have "fenced (a', FCompleted lh n i d # h) lh"
        by (rule fenced_complete [OF inv]) (use completed True in \<open>auto simp: lease_active_iff\<close>)
      with os True show ?thesis by simp
    next
      case False
      then show ?thesis using completed os by (intro fenced_same [OF inv]) auto
    qed
  next
    case (replayed l)
    then have "os = []" using run OComplete c by simp
    with replayed inv show ?thesis by simp
  next
    case (failed e)
    then have "os = []" using run OComplete c by simp
    with failed inv show ?thesis by simp
  qed
next
  case (ORenew now f lh' m)
  with run obtain r where c: "renewLocked now f lh' m a = (a', r)" "os = []" by (auto simp: prod_eq_iff)
  from c(1) show ?thesis
  proof (cases rule: renewLocked_cases)
    case (renewed rc)
    with c(2) show ?thesis by (intro fenced_same [OF inv]) auto
  qed (use inv c(2) in simp)
next
  case (ORelease now f lh' m i n)
  with run obtain r where c: "releaseLocked now f lh' m i n a = (a', r)" "os = []" by (auto simp: prod_eq_iff)
  from c(1) show ?thesis
  proof (cases rule: releaseLocked_cases)
    case (released rc)
    have "fence_state k cs (fa_byLocator a' lh)" if "fence_state k cs (fa_byLocator a lh)" for k cs
      using that released by (auto simp: fence_state_def lease_active_iff)
    with c(2) show ?thesis by (intro fenced_same [OF inv]) auto
  qed (use inv c(2) in simp)
qed

interpretation fence: invariant_system "fstart ttl" fstep "\<lambda>s. fenced s lh" for ttl lh
proof
  show "fstart ttl s \<Longrightarrow> fenced s lh" for s
    by (auto simp: fstart_def fenced_def fence_state_def NewFillLeaseAuthority_def Let_def intro: exI [of _ 0])
  show "fenced s lh \<Longrightarrow> fstep s t \<Longrightarrow> fenced t lh" for s t
    by (auto elim!: fstepE intro: fenced_run)
qed

section \<open>Coordinating calls as one machine\<close>

text \<open>An operation by a member leaves other locators alone, and an active lease of somebody else.\<close>

definition touches :: "int \<Rightarrow> string \<Rightarrow> string \<Rightarrow> string \<Rightarrow> FillLeaseAuthority \<Rightarrow> FillLeaseAuthority \<Rightarrow> bool" where
  "touches now f k m a a' =
     ((\<forall>k'. k' \<noteq> k \<longrightarrow> fa_byLocator a' k' = fa_byLocator a k') \<and>
      (\<forall>rc. fa_byLocator a k = Some rc \<longrightarrow> lease_active now (lr_lease rc) \<longrightarrow>
         \<not> (fl_ProducerMemberID (lr_lease rc) = m \<and> fl_FleetID (lr_lease rc) = f) \<longrightarrow> fa_byLocator a' k = Some rc))"

lemma touches_refl [simp]: "touches now f k m a a"
  by (simp add: touches_def)

lemma locked_touches:
  "joinLocked now ent f k m a = (a', j) \<Longrightarrow> touches now f k m a a'"
  "renewLocked now f k m a = (a', r) \<Longrightarrow> touches now f k m a a'"
  "completeLocked now f k m i n d a = (a', c) \<Longrightarrow> touches now f k m a a'"
  "releaseLocked now f k m i n a = (a', c) \<Longrightarrow> touches now f k m a a'"
proof -
  show "touches now f k m a a'" if "joinLocked now ent f k m a = (a', j)"
    using that by (cases rule: joinLocked_cases) (auto simp: touches_def split: option.splits)
  show "touches now f k m a a'" if "renewLocked now f k m a = (a', r)"
    using that by (cases rule: renewLocked_cases) (auto simp: touches_def)
  show "touches now f k m a a'" if "completeLocked now f k m i n d a = (a', c)"
    using that by (cases rule: completeLocked_cases) (auto simp: touches_def)
  show "touches now f k m a a'" if "releaseLocked now f k m i n a = (a', c)"
    using that by (cases rule: releaseLocked_cases) (auto simp: touches_def)
qed

lemma touches_methods:
  assumes "trim_space f = f" and "trim_space m = m"
  shows "Join now ent f lh m (Some a) = (ao, j) \<Longrightarrow> \<exists>a'. ao = Some a' \<and> touches now f (normLocator lh) m a a'"
    and "Renew now f lh m (Some a) = (ao, r) \<Longrightarrow> \<exists>a'. ao = Some a' \<and> touches now f (normLocator lh) m a a'"
    and "Complete now f lh m i n d (Some a) = (ao, c) \<Longrightarrow> \<exists>a'. ao = Some a' \<and> touches now f (normLocator lh) m a a'"
    and "Release now f lh m i n (Some a) = (ao, c) \<Longrightarrow> \<exists>a'. ao = Some a' \<and> touches now f (normLocator lh) m a a'"
  using assms
  by (auto simp: Join_def Renew_def Complete_def Release_def Let_def dest: locked_touches split: if_splits prod.splits)

fun event_clock :: "CoordEvent \<Rightarrow> int" where
  "event_clock (EvStep cancelled now ent) = now"
| "event_clock (EvOrigin failed cancelled now) = now"

text \<open>The lease under which a call runs the origin.\<close>

fun holds :: "Coord \<Rightarrow> FillLease option" where
  "holds (CStart l) = Some l"
| "holds (CProduce l) = Some l"
| "holds (CDrain l) = Some l"
| "holds _ = None"

lemma req_trimmed [simp]:
  "trim_space (req_fleet req) = req_fleet req" "trim_space (req_member req) = req_member req"
  by (simp_all add: req_fleet_def req_member_def)

abbreviation req_key :: "FillCoordRequest \<Rightarrow> string" where
  "req_key req \<equiv> normLocator (req_locator req)"

lemma coord_step_touches:
  assumes "coord_step req ev (Some a, p) = Some (ao, p')"
  shows "\<exists>a'. ao = Some a' \<and> touches (event_clock ev) (req_fleet req) (req_key req) (req_member req) a a'"
proof (cases ev)
  case (EvStep cancelled now ent)
  note join = touches_methods(1) [OF req_trimmed]
  note renew = touches_methods(2) [OF req_trimmed]
  show ?thesis
    using assms EvStep
    by (cases p) (auto simp: coord_join_def coord_renew_def split: if_splits prod.splits sum.splits dest: join renew)
next
  case (EvOrigin failed cancelled now)
  note complete = touches_methods(3) [OF req_trimmed]
  note release = touches_methods(4) [OF req_trimmed prod.collapse [symmetric]]
  show ?thesis
    using assms EvOrigin
    by (cases p) (auto simp: coord_finish_def Let_def split: if_splits prod.splits option.splits dest: complete intro: release)
qed

text \<open>A record still carries the lease a call holds, perhaps with a later expiry.\<close>

definition carries :: "fillLeaseRec option \<Rightarrow> FillLease \<Rightarrow> bool" where
  "carries ro l = (\<exists>rc. ro = Some rc \<and> fl_LeaseID (lr_lease rc) = fl_LeaseID l \<and> fl_LeaseID l \<noteq> [] \<and>
     fl_FleetID (lr_lease rc) = fl_FleetID l \<and> fl_ProducerMemberID (lr_lease rc) = fl_ProducerMemberID l \<and>
     fl_Fence (lr_lease rc) = fl_Fence l \<and> \<not> fl_Completed (lr_lease rc) \<and> fl_ExpiresAt l \<le> fl_ExpiresAt (lr_lease rc))"

definition own_lease :: "FillCoordRequest \<Rightarrow> FillLeaseAuthority \<Rightarrow> int \<Rightarrow> FillLease \<Rightarrow> bool" where
  "own_lease req a t l = (fl_FleetID l = req_fleet req \<and> fl_ProducerMemberID l = req_member req \<and>
     (t < fl_ExpiresAt l \<longrightarrow> carries (fa_byLocator a (req_key req)) l))"

lemma own_lease_later: "own_lease req a t l \<Longrightarrow> t \<le> now \<Longrightarrow> own_lease req a now l"
  by (simp add: own_lease_def)

lemma Join_produces:
  assumes "Join now ent (req_fleet req) (req_locator req) (req_member req) (Some a) = (Some a', Inr j)"
    and "fj_Role j = FillRoleProducer"
  shows "own_lease req a' now (fj_Lease j)"
proof -
  have "joinLocked now ent (req_fleet req) (req_key req) (req_member req) a = (a', Inr j)"
    using assms(1) by (auto simp: Join_def Let_def split: if_splits prod.splits)
  then show ?thesis
    using assms(2) by (cases rule: joinLocked_cases) (auto simp: own_lease_def carries_def lease_active_iff)
qed

lemma coord_renew_own:
  assumes "own_lease req a t l" and "t \<le> now" and "coord_renew req l now (Some a) = (Some a', p')" and "holds p' = Some l'"
  shows "own_lease req a' now l'"
proof -
  obtain ao r where rn: "Renew now (req_fleet req) (req_locator req) (req_member req) (Some a) = (ao, r)" by fastforce
  show ?thesis
  proof (cases r)
    case (Inl e)
    with assms(3,4) rn have l': "l' = l" "ao = Some a'" by (auto simp: coord_renew_def)
    from rn Inl l'(2) have "a' = a"
      by (auto simp: Renew_def Let_def split: if_splits prod.splits elim: renewLocked_cases)
    with assms(1,2) l' show ?thesis by (auto simp: own_lease_def)
  next
    case (Inr l2)
    with assms(3,4) rn have l': "l' = l2" "ao = Some a'" by (auto simp: coord_renew_def)
    with rn Inr have "renewLocked now (req_fleet req) (req_key req) (req_member req) a = (a', Inr l')"
      by (auto simp: Renew_def Let_def split: if_splits prod.splits)
    then show ?thesis
      by (cases rule: renewLocked_cases) (auto simp: own_lease_def carries_def lease_active_iff)
  qed
qed

lemma coord_step_own:
  assumes "coord_step req ev (Some a, p) = Some (Some a', p')" and "t \<le> event_clock ev"
    and "\<And>l. holds p = Some l \<Longrightarrow> own_lease req a t l" and "holds p' = Some l'"
  shows "own_lease req a' (event_clock ev) l'"
proof (cases ev)
  case (EvStep cancelled now ent)
  show ?thesis
  proof (cases p)
    case (CJoin n)
    with assms EvStep show ?thesis
      by (auto simp: coord_join_def split: if_splits prod.splits sum.splits FillRole.splits intro: Join_produces)
  next
    case (CStart l)
    with assms EvStep show ?thesis by (auto intro: coord_renew_own)
  next
    case (CProduce l)
    with assms(3) have own: "own_lease req a t l" by simp
    show ?thesis
    proof (cases cancelled)
      case True
      with CProduce EvStep assms(1,4) have "a' = a" "l' = l" by auto
      with own assms(2) EvStep show ?thesis by (simp add: own_lease_later)
    next
      case False
      with CProduce EvStep assms own show ?thesis by (auto intro: coord_renew_own)
    qed
  next
    case (CWait n)
    with assms EvStep show ?thesis by (auto simp: coord_wait_def Let_def split: if_splits)
  qed (use assms EvStep in \<open>auto split: if_splits\<close>)
next
  case (EvOrigin failed cancelled now)
  with assms show ?thesis
    by (cases p) (auto simp: coord_finish_def Let_def split: if_splits prod.splits option.splits)
qed

text \<open>An action by one member does not take an unexpired lease away from another.\<close>

lemma own_lease_kept:
  assumes "own_lease req a t l" and "t \<le> now" and "touches now f k m a a'"
    and "k = req_key req \<longrightarrow> (f, m) \<noteq> (req_fleet req, req_member req)"
  shows "own_lease req a' now l"
proof (cases "now < fl_ExpiresAt l")
  case True
  with assms(1,2) have own: "fl_FleetID l = req_fleet req" "fl_ProducerMemberID l = req_member req"
    and c: "carries (fa_byLocator a (req_key req)) l" by (simp_all add: own_lease_def)
  have "fa_byLocator a' (req_key req) = fa_byLocator a (req_key req)"
  proof (cases "k = req_key req")
    case same: True
    from c obtain rc where rc: "fa_byLocator a k = Some rc" "lease_active now (lr_lease rc)"
      "fl_ProducerMemberID (lr_lease rc) = req_member req" "fl_FleetID (lr_lease rc) = req_fleet req"
      using True own same by (auto simp: carries_def lease_active_iff)
    with assms(3,4) same show ?thesis by (auto simp: touches_def)
  next
    case False
    with assms(3) show ?thesis by (auto simp: touches_def)
  qed
  with own c show ?thesis by (simp add: own_lease_def)
next
  case False
  with assms(1) show ?thesis by (simp add: own_lease_def)
qed

text \<open>Any number of calls, one authority, a clock that does not go back. The calls are of different members.\<close>

type_synonym fill_system = "FillLeaseAuthority option \<times> int \<times> (nat \<Rightarrow> Coord)"

definition distinct_members :: "FillCoordRequest list \<Rightarrow> bool" where
  "distinct_members reqs = distinct (map (\<lambda>r. (req_key r, req_fleet r, req_member r)) reqs)"

definition minit :: "FillCoordRequest list \<Rightarrow> int \<Rightarrow> fill_system \<Rightarrow> bool" where
  "minit reqs ttl s = (distinct_members reqs \<and> (\<exists>t. s = (Some (NewFillLeaseAuthority ttl), t,
     \<lambda>i. if i < length reqs then startCoord (reqs ! i) True False (Some (NewFillLeaseAuthority ttl)) else CJoin 0)))"

inductive mstep :: "FillCoordRequest list \<Rightarrow> fill_system \<Rightarrow> fill_system \<Rightarrow> bool" for reqs where
  mstep_event: "i < length reqs \<Longrightarrow> t \<le> event_clock ev \<Longrightarrow> coord_step (reqs ! i) ev (ao, pc i) = Some (ao', p') \<Longrightarrow>
     mstep reqs (ao, t, pc) (ao', event_clock ev, pc(i := p'))"

definition fill_inv :: "FillCoordRequest list \<Rightarrow> fill_system \<Rightarrow> bool" where
  "fill_inv reqs s = (case s of (ao, t, pc) \<Rightarrow> distinct_members reqs \<and> (\<exists>a. ao = Some a \<and>
     (\<forall>i l. holds (pc i) = Some l \<longrightarrow> i < length reqs \<and> own_lease (reqs ! i) a t l)))"

lemma distinct_membersD:
  assumes "distinct_members reqs" and "i < length reqs" and "j < length reqs" and "i \<noteq> j"
    and "req_key (reqs ! i) = req_key (reqs ! j)"
  shows "(req_fleet (reqs ! i), req_member (reqs ! i)) \<noteq> (req_fleet (reqs ! j), req_member (reqs ! j))"
  using assms nth_eq_iff_index_eq [of "map (\<lambda>r. (req_key r, req_fleet r, req_member r)) reqs" i j]
  by (auto simp: distinct_members_def)

lemma startCoord_holds [simp]: "holds (startCoord req hasOrigin cancelled ao) = None"
  by (simp add: startCoord_def Let_def)

interpretation exclusive: invariant_system "minit reqs ttl" "mstep reqs" "fill_inv reqs" for reqs ttl
proof
  show "minit reqs ttl s \<Longrightarrow> fill_inv reqs s" for s
    by (auto simp: minit_def fill_inv_def split: if_splits)
next
  fix s u
  assume inv: "fill_inv reqs s" and step: "mstep reqs s u"
  from step show "fill_inv reqs u"
  proof (cases rule: mstep.cases)
    case (mstep_event i t ev ao pc ao' p')
    from inv mstep_event(1) obtain a where a: "ao = Some a" and d: "distinct_members reqs"
      and own: "\<And>i l. holds (pc i) = Some l \<Longrightarrow> i < length reqs \<and> own_lease (reqs ! i) a t l"
      by (auto simp: fill_inv_def)
    from coord_step_touches mstep_event(5) a obtain a' where a': "ao' = Some a'"
      and tc: "touches (event_clock ev) (req_fleet (reqs ! i)) (req_key (reqs ! i)) (req_member (reqs ! i)) a a'"
      by blast
    have "j < length reqs \<and> own_lease (reqs ! j) a' (event_clock ev) l" if h: "holds ((pc(i := p')) j) = Some l" for j l
    proof (cases "j = i")
      case True
      have "own_lease (reqs ! i) a' (event_clock ev) l"
        by (rule coord_step_own [of _ _ a "pc i" a' p' t]) (use mstep_event a a' own True h in auto)
      with True mstep_event(3) show ?thesis by simp
    next
      case False
      with h own have j: "j < length reqs" "own_lease (reqs ! j) a t l" by auto
      have "own_lease (reqs ! j) a' (event_clock ev) l"
        by (rule own_lease_kept [OF j(2) mstep_event(4) tc])
          (use distinct_membersD [OF d mstep_event(3) j(1)] False in auto)
      with j show ?thesis by simp
    qed
    with d a' mstep_event(2) show ?thesis by (auto simp: fill_inv_def)
  qed
qed

section \<open>Properties\<close>

text \<open>C10: at most one member at a time fills a log from Jenkins under a live lease: whatever calls of
  different members interleave with the authority and however slow they are, two of them that run the
  origin for one locator cannot both hold a lease that has not expired.\<close>

theorem one_live_producer:
  assumes "reach (minit reqs ttl) (mstep reqs) (ao, t, pc)" and "i \<noteq> j"
    and "req_locator (reqs ! i) = req_locator (reqs ! j)"
    and "holds (pc i) = Some l" and "holds (pc j) = Some l'"
  shows "fl_ExpiresAt l \<le> t \<or> fl_ExpiresAt l' \<le> t"
proof (rule ccontr)
  assume "\<not> ?thesis"
  then have live: "t < fl_ExpiresAt l" "t < fl_ExpiresAt l'" by simp_all
  from exclusive.inv_reach [OF assms(1)] assms(4,5) obtain a where d: "distinct_members reqs"
    and b: "i < length reqs" "j < length reqs" and own: "own_lease (reqs ! i) a t l" "own_lease (reqs ! j) a t l'"
    by (auto simp: fill_inv_def)
  have "carries (fa_byLocator a (req_key (reqs ! i))) l" "carries (fa_byLocator a (req_key (reqs ! i))) l'"
    using own live assms(3) by (auto simp: own_lease_def)
  then have "fl_FleetID l = fl_FleetID l'" "fl_ProducerMemberID l = fl_ProducerMemberID l'"
    by (auto simp: carries_def)
  with own distinct_membersD [OF d b assms(2)] assms(3) show False by (auto simp: own_lease_def)
qed

definition exampleFill :: "string \<Rightarrow> FillCoordRequest" where
  "exampleFill m = \<lparr> cr_FleetID = ''f'', cr_MemberID = m, cr_LocatorHash = exampleHash, cr_Mode = ''full'',
     cr_WaiterMax = 0, cr_Heartbeat = 0 \<rparr>"

definition exampleLease :: "string \<Rightarrow> string \<Rightarrow> 64 word \<Rightarrow> int \<Rightarrow> FillLease" where
  "exampleLease i m n t = \<lparr> fl_LeaseID = i, fl_LocatorHash = exampleHash, fl_FleetID = ''f'', fl_ProducerMemberID = m,
     fl_Fence = n, fl_IssuedAt = Some t, fl_ExpiresAt = t + 30000000000, fl_Completed = False, fl_ManifestDigest = [] \<rparr>"

definition exampleAuthority :: "FillLease \<Rightarrow> FillLeaseAuthority" where
  "exampleAuthority l = \<lparr> fa_ttl = 30000000000,
     fa_byLocator = [exampleHash \<mapsto> \<lparr> lr_lease = l, lr_nextFence = fl_Fence l + 1 \<rparr>] \<rparr>"

lemma exampleFill_args:
  "trim_space ''f'' = ''f''" "trim_space ''a'' = ''a''" "trim_space ''b'' = ''b''" "normLocator exampleHash = exampleHash"
  "length exampleHash = 64" "isHex exampleHash" "\<not> looksSecretShaped ''a''" "\<not> looksSecretShaped ''b''" "\<not> looksSecretShaped ''f''"
  by code_simp+

lemma exampleJoin_first:
  "Join 0 (Some ''x'') ''f'' exampleHash ''a'' (Some (NewFillLeaseAuthority 0)) =
     (Some (exampleAuthority (exampleLease ''fl_x'' ''a'' 1 0)),
      Inr \<lparr> fj_Role = FillRoleProducer, fj_Lease = exampleLease ''fl_x'' ''a'' 1 0, fj_Residual = [] \<rparr>)"
  by (simp add: Join_def exampleFill_args NewFillLeaseAuthority_def DefaultFillLeaseTTL_def MinFillLeaseTTL_def
    MaxFillLeaseTTL_def second_def minute_def joinLocked_def newLeaseID_def exampleAuthority_def exampleLease_def Let_def)

lemma exampleJoin_second:
  "Join 31000000000 (Some ''y'') ''f'' exampleHash ''b'' (Some (exampleAuthority (exampleLease ''fl_x'' ''a'' 1 0))) =
     (Some (exampleAuthority (exampleLease ''fl_y'' ''b'' 2 31000000000)),
      Inr \<lparr> fj_Role = FillRoleProducer, fj_Lease = exampleLease ''fl_y'' ''b'' 2 31000000000,
            fj_Residual = ''takeover_after_expiry'' \<rparr>)"
  by (simp add: Join_def exampleFill_args joinLocked_def lease_active_def newLeaseID_def
    exampleAuthority_def exampleLease_def Let_def)

lemma one_live_producer_witness:
  "\<exists>ao pc l l'. reach (minit [exampleFill ''a'', exampleFill ''b''] 0) (mstep [exampleFill ''a'', exampleFill ''b'']) (ao, 31000000000, pc) \<and>
     holds (pc 0) = Some l \<and> holds (pc 1) = Some l' \<and> (fl_ExpiresAt l \<le> 31000000000 \<or> fl_ExpiresAt l' \<le> 31000000000)"
proof -
  let ?reqs = "[exampleFill ''a'', exampleFill ''b'']"
  let ?auth = "\<lambda>l. Some (exampleAuthority l)"
  let ?l = "exampleLease ''fl_x'' ''a'' 1 0" and ?l' = "exampleLease ''fl_y'' ''b'' 2 31000000000"
  let ?pc = "\<lambda>i::nat. CJoin 0"
  have norm: "req_fleet (exampleFill m) = ''f''" "req_locator (exampleFill m) = exampleHash"
    "req_member (exampleFill ''a'') = ''a''" "req_member (exampleFill ''b'') = ''b''" for m
    by (simp_all add: req_fleet_def req_locator_def req_member_def exampleFill_def exampleFill_args)
  have start: "startCoord (exampleFill m) True False (Some a) = CJoin 0" if "m = ''a'' \<or> m = ''b''" for m a
    using that by (auto simp: startCoord_def norm exampleFill_args Let_def)
      (simp_all add: exampleFill_def ModeOff_def ModeShadow_def ModeRead_def ModeFull_def)
  have "distinct_members ?reqs" by (simp add: distinct_members_def norm)
  moreover have "(\<lambda>i. if i < length ?reqs then startCoord (?reqs ! i) True False (Some (NewFillLeaseAuthority 0)) else CJoin 0) = ?pc"
    by (auto simp: fun_eq_iff start less_Suc_eq nth_Cons split: nat.splits)
  ultimately have "reach (minit ?reqs 0) (mstep ?reqs) (Some (NewFillLeaseAuthority 0), 0, ?pc)"
    by (intro reach_init) (auto simp: minit_def)
  moreover have "mstep ?reqs (Some (NewFillLeaseAuthority 0), 0, ?pc)
      (?auth ?l, event_clock (EvStep False 0 (Some ''x'')), ?pc(0 := CStart ?l))"
    by (rule mstep_event) (simp_all add: coord_join_def norm exampleJoin_first)
  ultimately have "reach (minit ?reqs 0) (mstep ?reqs) (?auth ?l, 0, ?pc(0 := CStart ?l))"
    by (auto intro: reach_step)
  moreover have "mstep ?reqs (?auth ?l, 0, ?pc(0 := CStart ?l))
      (?auth ?l', event_clock (EvStep False 31000000000 (Some ''y'')), (?pc(0 := CStart ?l))(1 := CStart ?l'))"
    by (rule mstep_event) (simp_all add: coord_join_def norm exampleJoin_second)
  ultimately have r: "reach (minit ?reqs 0) (mstep ?reqs) (?auth ?l', 31000000000, (?pc(0 := CStart ?l))(1 := CStart ?l'))"
    by (auto intro: reach_step)
  from one_live_producer [OF r, of 0 1 ?l ?l'] r show ?thesis
    by (intro exI [of _ "?auth ?l'"] exI [of _ "(?pc(0 := CStart ?l))(1 := CStart ?l')"] exI [of _ ?l] exI [of _ ?l'])
      (simp add: norm)
qed

lemma length_first_fences: "length (first_fences n) = n"
  by (induction n) simp_all

lemma unat_of_nat64: "n < 2 ^ 64 \<Longrightarrow> unat (of_nat n :: 64 word) = n"
  by (simp add: unat_of_nat)

lemma unat_first_fences: "n < 2 ^ 64 \<Longrightarrow> map unat (first_fences n) = rev [1..<Suc n]"
proof (induction n)
  case (Suc n)
  have "unat (of_nat (Suc n) :: 64 word) = Suc n" using Suc.prems by (rule unat_of_nat64)
  with Suc show ?case by simp
qed simp

lemma fenced_reach:
  assumes "reach (fstart ttl) fstep (a, h)"
  obtains n where "fences lh h = first_fences n" "fence_state n (completions lh h) (fa_byLocator a lh)"
  using fence.inv_reach [OF assms, of lh] by (auto simp: fenced_def)

text \<open>C20: fences of a locator grow by one with every new lease and are never reused, in every
  interleaving of the authority's operations, for the first $2^{64}$ leases.\<close>

theorem fences_count_leases:
  assumes "reach (fstart ttl) fstep (a, h)" and "length (fences lh h) < 2 ^ 64"
  shows "map unat (fences lh h) = rev [1..<Suc (length (fences lh h))] \<and>
    (case lease_of a lh of None \<Rightarrow> fences lh h = [] | Some l \<Rightarrow> unat (fl_Fence l) = length (fences lh h))"
proof -
  from fenced_reach [OF assms(1)] obtain n where n: "fences lh h = first_fences n"
    and st: "fence_state n (completions lh h) (fa_byLocator a lh)" by blast
  from n have l: "length (fences lh h) = n" by (simp add: length_first_fences)
  with assms(2) have b: "n < 2 ^ 64" by simp
  then have "unat (of_nat n :: 64 word) = n" by (rule unat_of_nat64)
  with st n have c: "case lease_of a lh of None \<Rightarrow> fences lh h = [] | Some l \<Rightarrow> unat (fl_Fence l) = n"
    by (auto simp: lease_of_def fence_state_def split: option.splits)
  have "map unat (fences lh h) = rev [1..<Suc n]" unfolding n by (rule unat_first_fences [OF b])
  then show ?thesis unfolding l using c by (rule conjI)
qed

lemma example_grant:
  "reach (fstart 0) fstep (exampleAuthority (exampleLease ''fl_x'' ''a'' 1 0), [FGranted exampleHash 1 ''fl_x'' ''a''])"
proof -
  have "run_fill (OJoin 0 (Some ''x'') ''f'' exampleHash ''a'') (NewFillLeaseAuthority 0) =
      (exampleAuthority (exampleLease ''fl_x'' ''a'' 1 0), [FGranted exampleHash 1 ''fl_x'' ''a''])"
    by (simp add: NewFillLeaseAuthority_def DefaultFillLeaseTTL_def MinFillLeaseTTL_def lease_of_def
      MaxFillLeaseTTL_def second_def minute_def joinLocked_def newLeaseID_def exampleAuthority_def exampleLease_def Let_def)
  from fstep_op [OF this, of "[]"] show ?thesis
    by (intro reach_step [OF reach_init, of "fstart 0" "(NewFillLeaseAuthority 0, [])"]) (simp_all add: fstart_def)
qed

lemma fences_count_leases_witness:
  "map unat (fences exampleHash [FGranted exampleHash 1 ''fl_x'' ''a'']) = [1]"
  using fences_count_leases [OF example_grant, of exampleHash] by simp

text \<open>C21: a locator is completed at most once, and finally: in every interleaving the history has at
  most one completion of it, made under its last fence, and the record stays completed by that lease
  with that digest.\<close>

theorem completed_once_and_for_all:
  assumes "reach (fstart ttl) fstep (a, h)"
  shows "length (completions lh h) \<le> 1 \<and>
    list_all (\<lambda>(n, i, d). fences lh h \<noteq> [] \<and> n = hd (fences lh h) \<and>
       (\<exists>l. lease_of a lh = Some l \<and> fl_Completed l \<and> fl_Fence l = n \<and> fl_LeaseID l = i \<and> fl_ManifestDigest l = d))
      (completions lh h)"
proof -
  from fenced_reach [OF assms] obtain n where n: "fences lh h = first_fences n"
    and st: "fence_state n (completions lh h) (fa_byLocator a lh)" by blast
  then show ?thesis
    by (cases n) (auto simp: fence_state_def lease_of_def split: option.splits if_splits)
qed

lemma completed_once_and_for_all_witness:
  "length (completions exampleHash [FGranted exampleHash 1 ''fl_x'' ''a'']) \<le> 1"
  using completed_once_and_for_all [OF example_grant] by blast

definition fill_args :: "string \<Rightarrow> string \<Rightarrow> string \<Rightarrow> bool" where
  "fill_args f lh m = (trim_space f \<noteq> [] \<and> trim_space m \<noteq> [] \<and> hash64 (normLocator lh) \<and>
     \<not> looksSecretShaped (trim_space f) \<and> \<not> looksSecretShaped (trim_space m))"

text \<open>C29: a failed producer does not block a log for ever: once a lease has run out or was released, the
  next member with well-formed arguments and a working random source becomes the producer, under the
  next fence and for the full lease time.\<close>

theorem expired_lease_is_taken_over:
  assumes "reach (fstart ttl) fstep (a, h)" and "lease_of a (normLocator lh) = Some l"
    and "\<not> fl_Completed l" and "fl_ExpiresAt l \<le> now" and "fill_args f lh m"
  shows "\<exists>a' j. Join now (Some b) f lh m (Some a) = (Some a', Inr j) \<and> fj_Role j = FillRoleProducer \<and>
    fl_Fence (fj_Lease j) = fl_Fence l + 1 \<and> fl_ExpiresAt (fj_Lease j) = now + fa_ttl a \<and>
    lease_of a' (normLocator lh) = Some (fj_Lease j)"
proof -
  from fenced_reach [OF assms(1)] obtain n
    where "fence_state n (completions (normLocator lh) h) (fa_byLocator a (normLocator lh))" by blast
  with assms(2) obtain rc where rc: "fa_byLocator a (normLocator lh) = Some rc" "lr_lease rc = l"
    "lr_nextFence rc = fl_Fence l + 1"
    by (auto simp: fence_state_def lease_of_def)
  with assms(3-5) show ?thesis
    by (simp add: Join_def fill_args_def joinLocked_def Let_def lease_active_iff newLeaseID_def lease_of_def)
qed

lemma expired_lease_is_taken_over_witness:
  "\<exists>a' j. Join 31000000000 (Some ''y'') ''f'' exampleHash ''b'' (Some (exampleAuthority (exampleLease ''fl_x'' ''a'' 1 0))) =
     (Some a', Inr j) \<and> fl_Fence (fj_Lease j) = 2"
proof -
  have "lease_of (exampleAuthority (exampleLease ''fl_x'' ''a'' 1 0)) (normLocator exampleHash) = Some (exampleLease ''fl_x'' ''a'' 1 0)"
    by (simp add: lease_of_def exampleAuthority_def exampleFill_args)
  moreover have "\<not> fl_Completed (exampleLease ''fl_x'' ''a'' 1 0)" "fl_ExpiresAt (exampleLease ''fl_x'' ''a'' 1 0) \<le> 31000000000"
    "fl_Fence (exampleLease ''fl_x'' ''a'' 1 0) = 1"
    by (simp_all add: exampleLease_def)
  moreover have "fill_args ''f'' exampleHash ''b''" by (simp add: fill_args_def exampleFill_args)
  ultimately show ?thesis
    using expired_lease_is_taken_over [OF example_grant, of exampleHash _ 31000000000 "''f''" "''b''" "''y''"] by fastforce
qed

text \<open>A producer renews well before its lease runs out: whatever lease time and heartbeat are
  configured, the heartbeat is at least a millisecond and at most a third of the lease time.\<close>

theorem heartbeat_within_ttl:
  "millisecond \<le> heartbeatInterval hb (TTL (Some (NewFillLeaseAuthority ttl))) \<and>
   3 * heartbeatInterval hb (TTL (Some (NewFillLeaseAuthority ttl))) \<le> TTL (Some (NewFillLeaseAuthority ttl)) \<and>
   5 * second \<le> TTL (Some (NewFillLeaseAuthority ttl)) \<and> TTL (Some (NewFillLeaseAuthority ttl)) \<le> 5 * minute"
proof -
  define T where "T = TTL (Some (NewFillLeaseAuthority ttl))"
  have T: "5000000000 \<le> T" "T \<le> 300000000000"
    by (auto simp: T_def TTL_def NewFillLeaseAuthority_def DefaultFillLeaseTTL_def MinFillLeaseTTL_def MaxFillLeaseTTL_def
      second_def minute_def Let_def)
  then have third: "1000000000 < T div 3" "3 * (T div 3) \<le> T" by linarith+
  have "1000000 \<le> heartbeatInterval hb T \<and> heartbeatInterval hb T \<le> T div 3"
    using T third by (auto simp: heartbeatInterval_def Let_def DefaultFillHeartbeat_def second_def millisecond_def)
  with T third show ?thesis by (auto simp: T_def [symmetric] second_def minute_def millisecond_def)
qed

text \<open>A live lease keeps everyone else from the origin: another member that joins becomes a waiter,
  a waiter keeps waiting however often it has retried, and neither changes the authority.\<close>

theorem live_lease_keeps_others_waiting:
  assumes "lease_of a (req_key req) = Some l" and "lease_active now l"
    and "(fl_FleetID l, fl_ProducerMemberID l) \<noteq> (req_fleet req, req_member req)"
    and "fill_args (req_fleet req) (req_locator req) (req_member req)"
  shows "coord_step req (EvStep False now ent) (Some a, CJoin n) = Some (Some a, CWait n) \<and>
         coord_step req (EvStep False now ent) (Some a, CWait n) = Some (Some a, CWait n)"
proof -
  obtain rc where rc: "fa_byLocator a (req_key req) = Some rc" "lr_lease rc = l"
    using assms(1) by (auto simp: lease_of_def)
  have "Join now ent (req_fleet req) (req_locator req) (req_member req) (Some a) =
      (Some a, Inr \<lparr> fj_Role = FillRoleWaiter, fj_Lease = l, fj_Residual = [] \<rparr>)"
    using assms(2-4) rc by (auto simp: Join_def fill_args_def joinLocked_def Let_def lease_active_iff)
  moreover have "fs_State (Status now (req_locator req) (Some a)) = FillLeaseActive" "\<not> fs_Completed (Status now (req_locator req) (Some a))"
    using assms(2) rc by (auto simp: Status_def Let_def lease_active_iff)
  ultimately show ?thesis by (simp add: coord_join_def coord_wait_def Let_def)
qed

lemma live_lease_keeps_others_waiting_witness:
  "coord_step (exampleFill ''b'') (EvStep False 5 None) (Some (exampleAuthority (exampleLease ''fl_x'' ''a'' 1 0)), CWait 7) =
     Some (Some (exampleAuthority (exampleLease ''fl_x'' ''a'' 1 0)), CWait 7)"
proof -
  let ?a = "exampleAuthority (exampleLease ''fl_x'' ''a'' 1 0)"
  have norm: "req_fleet (exampleFill ''b'') = ''f''" "req_locator (exampleFill ''b'') = exampleHash" "req_member (exampleFill ''b'') = ''b''"
    by (simp_all add: req_fleet_def req_locator_def req_member_def exampleFill_def exampleFill_args)
  have "lease_of ?a (req_key (exampleFill ''b'')) = Some (exampleLease ''fl_x'' ''a'' 1 0)"
    by (simp add: norm lease_of_def exampleAuthority_def exampleFill_args)
  moreover have "lease_active 5 (exampleLease ''fl_x'' ''a'' 1 0)" by (simp add: lease_active_def exampleLease_def)
  moreover have "(fl_FleetID (exampleLease ''fl_x'' ''a'' 1 0), fl_ProducerMemberID (exampleLease ''fl_x'' ''a'' 1 0)) \<noteq>
      (req_fleet (exampleFill ''b''), req_member (exampleFill ''b''))"
    by (simp add: norm exampleLease_def)
  moreover have "fill_args (req_fleet (exampleFill ''b'')) (req_locator (exampleFill ''b'')) (req_member (exampleFill ''b''))"
    by (simp add: norm fill_args_def exampleFill_args)
  ultimately show ?thesis by (rule live_lease_keeps_others_waiting [THEN conjunct2])
qed

text \<open>A repeated completion is accepted whatever digest it reports and whatever fleet it names: a
  second, different digest under the completed lease is answered with success and dropped.\<close>

theorem completion_replay_ignores_digest:
  assumes "lease_of a (normLocator lh) = Some l" and "fl_Completed l" and "fl_ManifestDigest l \<noteq> to_lower (trim_space d)"
    and "fl_ProducerMemberID l = trim_space m" and "fl_LeaseID l = trim_space i"
    and "fill_args f lh m" and "trim_space i \<noteq> []" and "hash64 (to_lower (trim_space d))"
    and "\<not> looksSecretShaped (to_lower (trim_space d))"
  shows "Complete now f lh m i (fl_Fence l) d (Some a) = (Some a, None)"
  using assms by (auto simp: Complete_def fill_args_def Let_def completeLocked_def lease_of_def)

definition doneLease :: FillLease where
  "doneLease = (exampleLease ''fl_x'' ''a'' 1 0)\<lparr> fl_Completed := True, fl_ManifestDigest := exampleHash \<rparr>"

lemma completion_replay_ignores_digest_witness:
  "Complete 9 ''g'' exampleHash ''a'' ''fl_x'' 1 (replicate 64 CHR ''b'') (Some (exampleAuthority doneLease)) =
     (Some (exampleAuthority doneLease), None)"
proof -
  have strings: "trim_space ''fl_x'' = ''fl_x''" "to_lower (trim_space (replicate 64 CHR ''b'')) = replicate 64 CHR ''b''"
    "isHex (replicate 64 CHR ''b'')" "\<not> looksSecretShaped (replicate 64 CHR ''b'')" "exampleHash \<noteq> replicate 64 CHR ''b''"
    "trim_space ''g'' = ''g''" "\<not> looksSecretShaped ''g''"
    by code_simp+
  have "fl_Fence doneLease = 1" by (simp add: doneLease_def exampleLease_def)
  with completion_replay_ignores_digest [of "exampleAuthority doneLease" exampleHash doneLease
      "replicate 64 CHR ''b''" "''a''" "''fl_x''" "''g''" 9]
  show ?thesis
    by (simp add: lease_of_def exampleAuthority_def exampleFill_args strings fill_args_def)
      (simp add: doneLease_def exampleLease_def strings)
qed

end
