(* ===== verification/FleetPurge.thy ===== *)
theory FleetPurge
  imports FleetManifestCorrect
begin

text \<open>
  Purging an object from the shared cache and the tombstones that keep stale replicas from bringing it
  back (\<open>internal/fleetcache/purge.go\<close>). The tombstone store is a map from locators to lists, \<open>None\<close> for a
  nil store. Sinks are an association list in the order the runtime visits the map, with the flag
  whether the sink is present; what \<open>DeleteCommitted\<close> does to a sink is the argument \<open>del\<close> on a state of
  the caller's choice. \<open>canc k\<close> is whether the context is done at its \<open>k\<close>-th look. Times are integers,
  a zero expiry is \<open>None\<close>, and so is an empty status.
\<close>

section \<open>Tombstones\<close>

definition DefaultTombstoneTTL :: int where "DefaultTombstoneTTL = 24 * hour"

record Tombstone =
  tb_LocatorHash :: string
  tb_ManifestDigest :: string
  tb_ExpiresAt :: "int option"
  tb_Reason :: string

type_synonym MemoryTombstoneStore = "string \<rightharpoonup> Tombstone list"

definition scrubPurgeReason :: "string \<Rightarrow> string" where
  "scrubPurgeReason s0 =
     (let s = trim_space s0 in
      if s = [] then []
      else let s = take 128 s; low = to_lower s in
        if list_ex (str_contains low)
             [''token='', ''bearer '', ''password'', ''authorization:'', ''cookie'', ''ghp_'', ''sk-live'']
        then ''scrubbed'' else s)"

fun replaceTombstone :: "Tombstone \<Rightarrow> Tombstone list \<Rightarrow> Tombstone list \<times> bool" where
  "replaceTombstone t [] = ([], False)"
| "replaceTombstone t (e # es) =
     (case replaceTombstone t es of (out, replaced) \<Rightarrow>
        if equal_fold (tb_ManifestDigest e) (tb_ManifestDigest t) then (t # out, True) else (e # out, replaced))"

definition Tombstone_Put :: "Tombstone \<Rightarrow> MemoryTombstoneStore option \<Rightarrow> MemoryTombstoneStore option \<times> apperr option" where
  "Tombstone_Put t0 so =
     (case so of None \<Rightarrow> (so, Some (newErr CodeInternal ''tombstone store nil''))
      | Some s \<Rightarrow>
          let lh = to_lower (trim_space (tb_LocatorHash t0)) in
          if lh = [] then (so, Some (fc_bad ''tombstone locator empty''))
          else let t = t0\<lparr> tb_LocatorHash := lh, tb_ManifestDigest := to_lower (trim_space (tb_ManifestDigest t0)),
                           tb_Reason := scrubPurgeReason (tb_Reason t0) \<rparr>;
                   list = (case s lh of None \<Rightarrow> [] | Some l \<Rightarrow> l) in
               case replaceTombstone t list of
                 (out, replaced) \<Rightarrow> (Some (s(lh \<mapsto> (if replaced then out else out @ [t]))), None))"

definition Tombstone_Get :: "string \<Rightarrow> MemoryTombstoneStore option \<Rightarrow> Tombstone list" where
  "Tombstone_Get locatorHash so =
     (case so of None \<Rightarrow> []
      | Some s \<Rightarrow> (case s (to_lower (trim_space locatorHash)) of None \<Rightarrow> [] | Some l \<Rightarrow> l))"

fun tombstonesBlockLoop :: "string \<Rightarrow> int \<Rightarrow> Tombstone list \<Rightarrow> bool" where
  "tombstonesBlockLoop digest now [] = False"
| "tombstonesBlockLoop digest now (t # ts) =
     (if (case tb_ExpiresAt t of None \<Rightarrow> False | Some e \<Rightarrow> \<not> now < e) then tombstonesBlockLoop digest now ts
      else if tb_ManifestDigest t = [] then True
      else if digest = [] \<or> equal_fold (tb_ManifestDigest t) digest then True
      else tombstonesBlockLoop digest now ts)"

definition tombstonesBlock :: "Tombstone list \<Rightarrow> string \<Rightarrow> int \<Rightarrow> bool" where
  "tombstonesBlock ts manifestDigest now = tombstonesBlockLoop (to_lower (trim_space manifestDigest)) now ts"

definition PurgeResidualTombstoneBlocked :: string where "PurgeResidualTombstoneBlocked = ''tombstone_blocked''"

definition TombstoneBlocks :: "MemoryTombstoneStore option \<Rightarrow> string \<Rightarrow> string \<Rightarrow> int \<Rightarrow> bool \<times> string" where
  "TombstoneBlocks so locatorHash manifestDigest now =
     (case so of None \<Rightarrow> (False, [])
      | Some s \<Rightarrow> if tombstonesBlock (Tombstone_Get locatorHash so) manifestDigest now
                  then (True, PurgeResidualTombstoneBlocked) else (False, []))"

section \<open>Planning\<close>

definition PurgeConfirmToken :: string where "PurgeConfirmToken = ''PURGE''"
definition DefaultMaxPurgeOwners :: int where "DefaultMaxPurgeOwners = 16"
definition AbsoluteMaxPurgeOwners :: int where "AbsoluteMaxPurgeOwners = 64"

datatype PurgeAction = PurgeActionPurge | PurgeActionDeny | PurgeActionNoop

datatype PurgeStatus = PurgeStatusPurged | PurgeStatusDenied | PurgeStatusNoop | PurgeStatusPartial

record PurgeRequest =
  pr_LocatorHash :: string
  pr_ManifestDigest :: string
  pr_OperatorRole :: string
  pr_Confirm :: string
  pr_MaxOwners :: int
  pr_TargetMemberIDs :: "string list"
  pr_Reason :: string
  pr_TTL :: int

record PurgePlan =
  pp_Targets :: "string list"
  pp_Residual :: string
  pp_Action :: PurgeAction
  pp_LocatorHash :: string
  pp_ManifestDigest :: string
  pp_Truncated :: bool

record PurgeResult =
  pu_Status :: "PurgeStatus option"
  pu_LocatorHash :: string
  pu_ManifestDigest :: string
  pu_PurgedMembers :: "string list"
  pu_ResidualMembers :: "string list"
  pu_TombstonePut :: bool
  pu_Residual :: string

definition purgeRoleAllowed :: "string \<Rightarrow> bool" where
  "purgeRoleAllowed role = (to_lower (trim_space role) \<in> {''operator'', ''policy_admin''})"

text \<open>The loop over the owners: trimmed, not empty, in the filter if there is one, not seen before.\<close>

fun purgeTargets :: "string list \<Rightarrow> string list \<Rightarrow> string list \<Rightarrow> string list" where
  "purgeTargets flt seen [] = []"
| "purgeTargets flt seen (id0 # ids) =
     (let i = trim_space id0 in
      if i = [] then purgeTargets flt seen ids
      else if flt \<noteq> [] \<and> i \<notin> set flt then purgeTargets flt seen ids
      else if i \<in> set seen then purgeTargets flt seen ids
      else i # purgeTargets flt (i # seen) ids)"

definition purgeFilter :: "string list \<Rightarrow> string list" where
  "purgeFilter ids = filter (\<lambda>i. i \<noteq> []) (map trim_space ids)"

definition PlanPurge :: "PurgeRequest \<Rightarrow> string list \<Rightarrow> PurgePlan \<times> apperr option" where
  "PlanPurge req owners =
     (let lh = to_lower (trim_space (pr_LocatorHash req)); digest = to_lower (trim_space (pr_ManifestDigest req));
          plan = \<lparr> pp_Targets = [], pp_Residual = [], pp_Action = PurgeActionDeny, pp_LocatorHash = lh,
                   pp_ManifestDigest = digest, pp_Truncated = False \<rparr> in
      if lh = [] then (plan\<lparr> pp_Residual := ''empty_locator'' \<rparr>, Some (fc_bad ''purge locator empty''))
      else if \<not> purgeRoleAllowed (pr_OperatorRole req) then
        (plan\<lparr> pp_Residual := ''unauthorized_role'' \<rparr>,
         Some (newErr CodeAuthorization ''purge requires operator or policy_admin role''))
      else if trim_space (pr_Confirm req) \<noteq> PurgeConfirmToken then
        (plan\<lparr> pp_Residual := ''confirm_required'' \<rparr>, Some (newErr CodePolicyDenial ''purge requires confirm PURGE''))
      else let m = (if pr_MaxOwners req \<le> 0 then DefaultMaxPurgeOwners else pr_MaxOwners req);
               m = (if m > AbsoluteMaxPurgeOwners then AbsoluteMaxPurgeOwners else m);
               targets = purgeTargets (purgeFilter (pr_TargetMemberIDs req)) [] owners in
        if targets = [] then
          (plan\<lparr> pp_Action := PurgeActionPurge, pp_Residual := ''no_owners'' \<rparr>, None)
        else if int (length targets) > m then
          (plan\<lparr> pp_Action := PurgeActionPurge, pp_Truncated := True, pp_Residual := ''max_owners_bounded'',
                 pp_Targets := take (nat m) targets \<rparr>, None)
        else (plan\<lparr> pp_Action := PurgeActionPurge, pp_Targets := targets \<rparr>, None))"

section \<open>Applying\<close>

text \<open>The loop over the targets: the result so far, and whether the context ended it.\<close>

fun purgeLoop :: "(string \<Rightarrow> string \<Rightarrow> string \<Rightarrow> 's \<Rightarrow> 's \<times> apperr option) \<Rightarrow> (nat \<Rightarrow> bool) \<Rightarrow> (string \<times> bool) list \<Rightarrow>
    nat \<Rightarrow> string list \<Rightarrow> PurgeResult \<times> 's \<Rightarrow> PurgeResult \<times> 's \<times> bool" where
  "purgeLoop del canc sinks k [] (out, s) = (out, s, False)"
| "purgeLoop del canc sinks k (i # ids) (out, s) =
     (if canc k then (out\<lparr> pu_Status := Some PurgeStatusPartial, pu_Residual := ''cancelled'' \<rparr>, s, True)
      else if map_of sinks i \<noteq> Some True then
        purgeLoop del canc sinks (Suc k) ids (out\<lparr> pu_ResidualMembers := pu_ResidualMembers out @ [i] \<rparr>, s)
      else case del i (pu_LocatorHash out) (pu_ManifestDigest out) s of
        (s', Some e) \<Rightarrow> purgeLoop del canc sinks (Suc k) ids
          (out\<lparr> pu_ResidualMembers := pu_ResidualMembers out @ [i],
                pu_Residual := (if pu_Residual out = [] \<or> pu_Residual out = ''owner_unreachable''
                                then ''delete_failed'' else pu_Residual out) \<rparr>, s')
      | (s', None) \<Rightarrow> purgeLoop del canc sinks (Suc k) ids
          (out\<lparr> pu_PurgedMembers := pu_PurgedMembers out @ [i] \<rparr>, s'))"

datatype purge_error = PurgeErr apperr | PurgeCtx

definition purgeStatus :: "PurgePlan \<Rightarrow> PurgeResult \<Rightarrow> PurgeResult" where
  "purgeStatus plan out =
     (if pu_ResidualMembers out \<noteq> [] then
        out\<lparr> pu_Status := Some PurgeStatusPartial,
             pu_Residual := (if pu_Residual out = [] then ''owner_unreachable'' else pu_Residual out) \<rparr>
      else if pu_PurgedMembers out = [] \<and> pu_TombstonePut out then
        out\<lparr> pu_Status := Some PurgeStatusPurged, pu_Residual := ''purge_idempotent'' \<rparr>
      else out\<lparr> pu_Status := Some PurgeStatusPurged,
                pu_Residual := (if pp_Residual plan = ''max_owners_bounded'' then ''max_owners_bounded''
                                else pu_Residual out) \<rparr>)"

definition applyPurgeOnSinks ::
  "(string \<Rightarrow> string \<Rightarrow> string \<Rightarrow> 's \<Rightarrow> 's \<times> apperr option) \<Rightarrow> (nat \<Rightarrow> bool) \<Rightarrow> PurgePlan \<Rightarrow> PurgeRequest \<Rightarrow>
    (string \<times> bool) list \<Rightarrow> MemoryTombstoneStore option \<Rightarrow> int \<Rightarrow> 's \<Rightarrow>
    PurgeResult \<times> purge_error option \<times> MemoryTombstoneStore option \<times> 's" where
  "applyPurgeOnSinks del canc plan req sinks ts now s =
     (let out = \<lparr> pu_Status = None, pu_LocatorHash = pp_LocatorHash plan,
                  pu_ManifestDigest = pp_ManifestDigest plan, pu_PurgedMembers = [], pu_ResidualMembers = [],
                  pu_TombstonePut = False, pu_Residual = [] \<rparr> in
      if canc 0 then (out\<lparr> pu_Status := Some PurgeStatusDenied, pu_Residual := ''cancelled'' \<rparr>, Some PurgeCtx, ts, s)
      else let targets = (if pp_Targets plan = [] then map fst sinks else pp_Targets plan) in
        case purgeLoop del canc sinks 1 targets (out, s) of
          (out, s', True) \<Rightarrow> (out, Some PurgeCtx, ts, s')
        | (out, s', False) \<Rightarrow>
            (case ts of
               None \<Rightarrow> (purgeStatus plan out, None, ts, s')
             | Some store \<Rightarrow>
                 let ttl = (if pr_TTL req \<le> 0 then DefaultTombstoneTTL else pr_TTL req);
                     reason = scrubPurgeReason (pr_Reason req);
                     t = \<lparr> tb_LocatorHash = pp_LocatorHash plan, tb_ManifestDigest = pp_ManifestDigest plan,
                           tb_ExpiresAt = Some (now + ttl),
                           tb_Reason = (if reason = [] then ''process_local_tombstones'' else reason) \<rparr> in
                 case Tombstone_Put t ts of
                   (ts', Some e) \<Rightarrow>
                     (out\<lparr> pu_Residual := (if pu_Residual out = [] then ''tombstone_put_failed'' else pu_Residual out),
                           pu_Status := (if pu_PurgedMembers out \<noteq> [] \<and> pu_ResidualMembers out = [] \<or>
                                            pu_PurgedMembers out = [] then Some PurgeStatusPartial else pu_Status out) \<rparr>,
                      Some (PurgeErr e), ts', s')
                 | (ts', None) \<Rightarrow> (purgeStatus plan (out\<lparr> pu_TombstonePut := True \<rparr>), None, ts', s')))"

definition deniedResult :: "PurgePlan \<Rightarrow> string \<Rightarrow> PurgeResult" where
  "deniedResult plan residual =
     \<lparr> pu_Status = Some PurgeStatusDenied, pu_LocatorHash = pp_LocatorHash plan, pu_ManifestDigest = pp_ManifestDigest plan,
       pu_PurgedMembers = [], pu_ResidualMembers = [], pu_TombstonePut = False, pu_Residual = residual \<rparr>"

definition ApplyPurge ::
  "(string \<Rightarrow> string \<Rightarrow> string \<Rightarrow> 's \<Rightarrow> 's \<times> apperr option) \<Rightarrow> (nat \<Rightarrow> bool) \<Rightarrow> PurgePlan \<Rightarrow> PurgeRequest \<Rightarrow>
    (string \<times> bool) list \<Rightarrow> MemoryTombstoneStore option \<Rightarrow> int \<Rightarrow> 's \<Rightarrow>
    PurgeResult \<times> purge_error option \<times> MemoryTombstoneStore option \<times> 's" where
  "ApplyPurge del canc plan req sinks ts now s =
     (if pp_Action plan = PurgeActionDeny then
        (deniedResult plan (pp_Residual plan), Some (PurgeErr (newErr CodePolicyDenial ''purge plan denied'')), ts, s)
      else if \<not> purgeRoleAllowed (pr_OperatorRole req) \<or> trim_space (pr_Confirm req) \<noteq> PurgeConfirmToken then
        (deniedResult plan ''unauthorized_role'', Some (PurgeErr (newErr CodeAuthorization ''purge unauthorized'')), ts, s)
      else applyPurgeOnSinks del canc plan req sinks ts now s)"

definition ApplyPurgeLocal ::
  "(string \<Rightarrow> string \<Rightarrow> string \<Rightarrow> 's \<Rightarrow> 's \<times> apperr option) \<Rightarrow> (nat \<Rightarrow> bool) \<Rightarrow> bool \<Rightarrow> PurgeRequest \<Rightarrow>
    MemoryTombstoneStore option \<Rightarrow> int \<Rightarrow> 's \<Rightarrow> PurgeResult \<times> purge_error option \<times> MemoryTombstoneStore option \<times> 's" where
  "ApplyPurgeLocal del canc present req ts now s =
     (case PlanPurge req [] of
        (plan, Some e) \<Rightarrow>
          if pp_Action plan = PurgeActionDeny then (deniedResult plan (pp_Residual plan), Some (PurgeErr e), ts, s)
          else applyPurgeOnSinks del canc plan req [(''local'', present)] ts now s
      | (plan, None) \<Rightarrow> applyPurgeOnSinks del canc plan req [(''local'', present)] ts now s)"

section \<open>Facts about plans\<close>

lemma purgeTargets_spec:
  "distinct (purgeTargets flt seen ids) \<and>
   set (purgeTargets flt seen ids) = {i \<in> trim_space ` set ids. i \<noteq> [] \<and> (flt = [] \<or> i \<in> set flt) \<and> i \<notin> set seen}"
  by (induction ids arbitrary: seen) (auto simp: Let_def)

definition purge_authorized :: "PurgeRequest \<Rightarrow> bool" where
  "purge_authorized req = (to_lower (trim_space (pr_LocatorHash req)) \<noteq> [] \<and> purgeRoleAllowed (pr_OperatorRole req) \<and>
     trim_space (pr_Confirm req) = PurgeConfirmToken)"

lemma PlanPurge_action: "pp_Action (fst (PlanPurge req owners)) = (if purge_authorized req then PurgeActionPurge else PurgeActionDeny)"
  by (simp add: PlanPurge_def purge_authorized_def Let_def)

lemma PlanPurge_locator [simp]:
  "pp_LocatorHash (fst (PlanPurge req owners)) = to_lower (trim_space (pr_LocatorHash req))"
  "pp_ManifestDigest (fst (PlanPurge req owners)) = to_lower (trim_space (pr_ManifestDigest req))"
  by (simp_all add: PlanPurge_def Let_def)

text \<open>A purge plan is bounded and stays inside its request: it is made exactly for an authorised role
  with the confirmation word and a locator; its targets are at most 64 distinct owners, and only members
  the request names when it names any.\<close>

theorem PlanPurge_bounded:
  "(snd (PlanPurge req owners) = None \<longleftrightarrow> purge_authorized req) \<and>
   (let ts = pp_Targets (fst (PlanPurge req owners)) in
      distinct ts \<and> length ts \<le> 64 \<and> set ts \<subseteq> trim_space ` set owners \<and>
      (purgeFilter (pr_TargetMemberIDs req) = [] \<or> set ts \<subseteq> set (purgeFilter (pr_TargetMemberIDs req))))"
proof -
  let ?all = "purgeTargets (purgeFilter (pr_TargetMemberIDs req)) [] owners"
  have all: "distinct ?all" "set ?all \<subseteq> trim_space ` set owners"
    "purgeFilter (pr_TargetMemberIDs req) = [] \<or> set ?all \<subseteq> set (purgeFilter (pr_TargetMemberIDs req))"
    using purgeTargets_spec [of "purgeFilter (pr_TargetMemberIDs req)" "[]" owners] by auto
  have "snd (PlanPurge req owners) = None \<longleftrightarrow> purge_authorized req"
    by (simp add: PlanPurge_def purge_authorized_def Let_def)
  moreover have "\<exists>n. pp_Targets (fst (PlanPurge req owners)) = take n ?all \<and> (n \<le> 64 \<or> length ?all \<le> 64)"
    by (auto simp: PlanPurge_def Let_def DefaultMaxPurgeOwners_def AbsoluteMaxPurgeOwners_def
        intro: exI [of _ 0] exI [of _ "length ?all"] exI [of _ "nat (pr_MaxOwners req)"] exI [of _ 16] exI [of _ 64])
  ultimately show ?thesis
    using all by (auto simp: Let_def dest!: in_set_takeD)
qed

section \<open>Tombstones that block\<close>

definition tombstone_live :: "int \<Rightarrow> Tombstone \<Rightarrow> bool" where
  "tombstone_live now t = (case tb_ExpiresAt t of None \<Rightarrow> True | Some e \<Rightarrow> now < e)"

lemma tombstonesBlock_iff:
  "tombstonesBlock ts d now \<longleftrightarrow> (\<exists>t \<in> set ts. tombstone_live now t \<and>
     (tb_ManifestDigest t = [] \<or> to_lower (trim_space d) = [] \<or> equal_fold (tb_ManifestDigest t) (to_lower (trim_space d))))"
proof -
  have "tombstonesBlockLoop dg now ts \<longleftrightarrow> (\<exists>t \<in> set ts. tombstone_live now t \<and>
     (tb_ManifestDigest t = [] \<or> dg = [] \<or> equal_fold (tb_ManifestDigest t) dg))" for dg
    by (induction ts) (auto simp: tombstone_live_def split: option.splits)
  then show ?thesis by (simp add: tombstonesBlock_def)
qed

lemma replaceTombstone_in:
  "replaceTombstone t es = (out, True) \<Longrightarrow> t \<in> set out"
  by (induction es arbitrary: out) (auto split: prod.splits if_splits)

lemma Tombstone_Put_in:
  assumes "Tombstone_Put t so = (so', None)"
  shows "t\<lparr> tb_LocatorHash := to_lower (trim_space (tb_LocatorHash t)), tb_ManifestDigest := to_lower (trim_space (tb_ManifestDigest t)),
      tb_Reason := scrubPurgeReason (tb_Reason t) \<rparr> \<in> set (Tombstone_Get (tb_LocatorHash t) so')"
    and "so' \<noteq> None"
  using assms by (auto simp: Tombstone_Put_def Tombstone_Get_def Let_def dest: replaceTombstone_in split: option.splits if_splits prod.splits)

lemma Tombstone_Put_ok: "to_lower (trim_space (tb_LocatorHash t)) \<noteq> [] \<Longrightarrow> \<exists>so'. Tombstone_Put t (Some st) = (so', None)"
  by (simp add: Tombstone_Put_def Let_def split: prod.splits)

lemma purgeLoop_uncancelled:
  "(\<And>k. \<not> canc k) \<Longrightarrow> \<exists>out' s'. purgeLoop del canc sinks k ids (out, s) = (out', s', False)"
  by (induction ids arbitrary: k out s) (auto split: option.splits prod.splits)

text \<open>C28: a purge keeps the object out: after an authorised purge on a member that has a tombstone store, when
  the context is not cancelled while it runs (a cancellation between two deletions returns before the
  tombstone is written), whatever the sinks answered, every import of the purged object is blocked until
  the tombstone expires; a purge without a digest blocks every version.\<close>

theorem purge_blocks_resurrection:
  assumes "ApplyPurge del canc plan req sinks (Some store) now s = (res, e, ts', s')"
    and "pp_Action plan = PurgeActionPurge" and "purgeRoleAllowed (pr_OperatorRole req)"
    and "trim_space (pr_Confirm req) = PurgeConfirmToken" and "to_lower (trim_space (pp_LocatorHash plan)) \<noteq> []"
    and "\<And>k. \<not> canc k"
    and "t < now + (if pr_TTL req \<le> 0 then DefaultTombstoneTTL else pr_TTL req)"
    and "to_lower (trim_space (pp_ManifestDigest plan)) = [] \<or> d = pp_ManifestDigest plan"
  shows "pu_TombstonePut res \<and> fst (TombstoneBlocks ts' (pp_LocatorHash plan) d t)"
proof -
  let ?out0 = "\<lparr> pu_Status = None, pu_LocatorHash = pp_LocatorHash plan,
      pu_ManifestDigest = pp_ManifestDigest plan, pu_PurgedMembers = [], pu_ResidualMembers = [],
      pu_TombstonePut = False, pu_Residual = [] \<rparr>"
  let ?targets = "if pp_Targets plan = [] then map fst sinks else pp_Targets plan"
  obtain out s1 where loop: "purgeLoop del canc sinks 1 ?targets (?out0, s) = (out, s1, False)"
    using purgeLoop_uncancelled [where canc = canc and del = del and sinks = sinks and k = 1 and ids = ?targets and out = ?out0 and s = s] assms(6)
    by blast
  define tb where "tb = \<lparr> tb_LocatorHash = pp_LocatorHash plan, tb_ManifestDigest = pp_ManifestDigest plan,
      tb_ExpiresAt = Some (now + (if pr_TTL req \<le> 0 then DefaultTombstoneTTL else pr_TTL req)),
      tb_Reason = (if scrubPurgeReason (pr_Reason req) = [] then ''process_local_tombstones'' else scrubPurgeReason (pr_Reason req)) \<rparr>"
  obtain so' where put: "Tombstone_Put tb (Some store) = (so', None)"
    using Tombstone_Put_ok [of tb] assms(5) by (auto simp: tb_def)
  have r: "ts' = so'" "res = purgeStatus plan (out\<lparr> pu_TombstonePut := True \<rparr>)"
    using assms(1-4,6) loop put by (auto simp: ApplyPurge_def applyPurgeOnSinks_def Let_def tb_def)
  from Tombstone_Put_in [OF put] obtain store' where st: "so' = Some store'"
    and m: "tb\<lparr> tb_LocatorHash := to_lower (trim_space (tb_LocatorHash tb)), tb_ManifestDigest := to_lower (trim_space (tb_ManifestDigest tb)),
      tb_Reason := scrubPurgeReason (tb_Reason tb) \<rparr> \<in> set (Tombstone_Get (pp_LocatorHash plan) so')"
    by (auto simp: tb_def)
  have "tombstonesBlock (Tombstone_Get (pp_LocatorHash plan) so') d t"
    unfolding tombstonesBlock_iff
    by (rule bexI [OF _ m]) (use assms(7,8) in \<open>auto simp: tombstone_live_def tb_def equal_fold_def\<close>)
  then show ?thesis using r st by (simp add: TombstoneBlocks_def purgeStatus_def)
qed

definition examplePurge :: PurgeRequest where
  "examplePurge = \<lparr> pr_LocatorHash = exampleHash, pr_ManifestDigest = [], pr_OperatorRole = ''operator'',
     pr_Confirm = ''PURGE'', pr_MaxOwners = 0, pr_TargetMemberIDs = [''c''], pr_Reason = [], pr_TTL = 0 \<rparr>"

lemma examplePurge_plan:
  "PlanPurge examplePurge [''a'', ''b''] = (\<lparr> pp_Targets = [], pp_Residual = ''no_owners'', pp_Action = PurgeActionPurge,
     pp_LocatorHash = exampleHash, pp_ManifestDigest = [], pp_Truncated = False \<rparr>, None)"
  by code_simp

lemma examplePurge_auth:
  "purgeRoleAllowed (pr_OperatorRole examplePurge)" "trim_space (pr_Confirm examplePurge) = PurgeConfirmToken"
  "to_lower (trim_space (pr_LocatorHash examplePurge)) = exampleHash" "exampleHash \<noteq> []"
  "to_lower (trim_space exampleHash) = exampleHash" "purgeFilter (pr_TargetMemberIDs examplePurge) = [''c'']"
  by code_simp+

lemma purge_blocks_resurrection_witness:
  "fst (TombstoneBlocks (fst (snd (snd (ApplyPurge (\<lambda>i lh d s. (s, None)) (\<lambda>k. False)
     (fst (PlanPurge examplePurge [''a'', ''b''])) examplePurge [(''a'', True)] (Some Map.empty) 0 ())))) exampleHash ''x'' 5)"
proof -
  obtain res e ts' s' where r: "ApplyPurge (\<lambda>i lh d s. (s, None)) (\<lambda>k. False)
     (fst (PlanPurge examplePurge [''a'', ''b''])) examplePurge [(''a'', True)] (Some Map.empty) 0 () = (res, e, ts', s')"
    using prod_cases4 by blast
  have "(5::int) < 0 + (if pr_TTL examplePurge \<le> 0 then DefaultTombstoneTTL else pr_TTL examplePurge)"
    by (simp add: examplePurge_def DefaultTombstoneTTL_def hour_def minute_def second_def)
  from purge_blocks_resurrection [OF r _ examplePurge_auth(1,2) _ _ this, of "''x''"] r
  have "to_lower [] = [] \<Longrightarrow> ?thesis" by (simp add: examplePurge_plan examplePurge_auth)
  then show ?thesis by (simp add: to_lower_def)
qed

section \<open>Purges that touch too much or nothing\<close>

text \<open>Without the role or the confirmation word a purge changes nothing, whatever plan it is given.\<close>

theorem unauthorized_purge_is_noop:
  "snd (snd (ApplyPurge del canc plan req sinks ts now s)) = (ts, s) \<or>
   pp_Action plan \<noteq> PurgeActionDeny \<and> purgeRoleAllowed (pr_OperatorRole req) \<and> trim_space (pr_Confirm req) = PurgeConfirmToken"
  by (auto simp: ApplyPurge_def)

lemma purgeLoop_all:
  assumes "\<And>k. \<not> canc k" and "\<And>i lh d s. snd (del i lh d s) = None" and "\<And>i. i \<in> set ids \<Longrightarrow> map_of sinks i = Some True"
  shows "\<exists>s'. purgeLoop del canc sinks k ids (out, s) =
    (out\<lparr> pu_PurgedMembers := pu_PurgedMembers out @ ids \<rparr>, s', False)"
  using assms(3)
proof (induction ids arbitrary: k out s)
  case (Cons i ids)
  obtain s1 where "del i (pu_LocatorHash out) (pu_ManifestDigest out) s = (s1, None)"
    using assms(2) by (metis prod.collapse)
  moreover have "map_of sinks i = Some True" "\<not> canc k" using Cons.prems assms(1) by simp_all
  moreover obtain s' where "purgeLoop del canc sinks (Suc k) ids (out\<lparr> pu_PurgedMembers := pu_PurgedMembers out @ [i] \<rparr>, s1) =
      (out\<lparr> pu_PurgedMembers := pu_PurgedMembers out @ i # ids \<rparr>, s', False)"
    using Cons.IH [of "Suc k" "out\<lparr> pu_PurgedMembers := pu_PurgedMembers out @ [i] \<rparr>" s1] Cons.prems by auto
  ultimately show ?case by simp
qed simp

text \<open>The member filter of a purge fails open: a local purge ignores it altogether, and a purge
  restricted to members that own nothing deletes the object from every sink it is given.\<close>

theorem purge_filter_fails_open:
  assumes "purge_authorized req" and "purgeFilter (pr_TargetMemberIDs req) \<noteq> []"
    and "set (purgeFilter (pr_TargetMemberIDs req)) \<inter> trim_space ` set owners = {}"
    and "\<And>k. \<not> canc k" and "\<And>i lh d s. snd (del i lh d s) = None"
    and "distinct (map fst sinks)" and "list_all snd sinks"
  shows "pu_PurgedMembers (fst (ApplyPurge del canc (fst (PlanPurge req owners)) req sinks None now s)) = map fst sinks \<and>
    ApplyPurgeLocal del canc p (req\<lparr> pr_TargetMemberIDs := ids \<rparr>) ts now s = ApplyPurgeLocal del canc p req ts now s"
proof -
  have "purgeTargets (purgeFilter (pr_TargetMemberIDs req)) [] owners = []"
    using purgeTargets_spec [of "purgeFilter (pr_TargetMemberIDs req)" "[]" owners] assms(2,3)
    by (metis (mono_tags, lifting) Collect_empty_eq Int_iff empty_iff set_empty)
  then have plan: "pp_Targets (fst (PlanPurge req owners)) = []" "pp_Action (fst (PlanPurge req owners)) = PurgeActionPurge"
    using assms(1) by (simp_all add: PlanPurge_def purge_authorized_def Let_def)
  have "map_of sinks i = Some True" if "i \<in> set (map fst sinks)" for i
    using that assms(6,7) by (auto simp: list_all_iff intro!: map_of_is_SomeI)
  then have loop: "\<exists>s'. purgeLoop del canc sinks k (map fst sinks) (out, s) =
    (out\<lparr> pu_PurgedMembers := pu_PurgedMembers out @ map fst sinks \<rparr>, s', False)" for k out s
    using assms(4,5) by (intro purgeLoop_all) auto
  let ?out0 = "\<lparr> pu_Status = None, pu_LocatorHash = pp_LocatorHash (fst (PlanPurge req owners)),
      pu_ManifestDigest = pp_ManifestDigest (fst (PlanPurge req owners)), pu_PurgedMembers = [], pu_ResidualMembers = [],
      pu_TombstonePut = False, pu_Residual = [] \<rparr>"
  from loop [of 1 ?out0 s] obtain s' where
    "purgeLoop del canc sinks 1 (map fst sinks) (?out0, s) = (?out0\<lparr> pu_PurgedMembers := map fst sinks \<rparr>, s', False)"
    by auto
  then have "pu_PurgedMembers (fst (ApplyPurge del canc (fst (PlanPurge req owners)) req sinks None now s)) = map fst sinks"
    using plan assms(1,4) by (simp add: ApplyPurge_def applyPurgeOnSinks_def purge_authorized_def purgeStatus_def del: PlanPurge_locator)
  moreover have "ApplyPurgeLocal del canc p (req\<lparr> pr_TargetMemberIDs := ids \<rparr>) ts now s = ApplyPurgeLocal del canc p req ts now s"
  proof -
    have plan: "PlanPurge (req\<lparr> pr_TargetMemberIDs := ids \<rparr>) [] = PlanPurge req []"
      by (simp add: PlanPurge_def Let_def)
    have fields: "pr_TTL (req\<lparr> pr_TargetMemberIDs := ids \<rparr>) = pr_TTL req"
        "pr_Reason (req\<lparr> pr_TargetMemberIDs := ids \<rparr>) = pr_Reason req" by simp_all
    show ?thesis unfolding ApplyPurgeLocal_def applyPurgeOnSinks_def plan fields ..
  qed
  ultimately show ?thesis by blast
qed

lemma purge_filter_fails_open_witness:
  "pu_PurgedMembers (fst (ApplyPurge (\<lambda>i lh d s. (s, None)) (\<lambda>k. False) (fst (PlanPurge examplePurge [''a'', ''b'']))
     examplePurge [(''a'', True), (''b'', True)] None 0 ())) = [''a'', ''b'']"
proof -
  have "trim_space ''a'' = ''a''" "trim_space ''b'' = ''b''" by code_simp+
  then have "set (purgeFilter (pr_TargetMemberIDs examplePurge)) \<inter> trim_space ` set [''a'', ''b''] = {}"
    by (simp add: examplePurge_auth)
  moreover have "purge_authorized examplePurge" using examplePurge_auth by (simp add: purge_authorized_def)
  ultimately show ?thesis
    using purge_filter_fails_open [of examplePurge "[''a'', ''b'']" "\<lambda>k. False" "\<lambda>i lh d (s::unit). (s, None)"
      "[(''a'', True), (''b'', True)]"] examplePurge_auth by simp
qed

end
