(* ===== verification/StoreCrypto.thy ===== *)
theory StoreCrypto
  imports FleetPurge
begin

text \<open>
  Encryption of frame files (\<open>internal/store/crypto/aead.go\<close>, \<open>internal/store/frame_crypto.go\<close>): versioned
  keys, the envelope on disk, the order in which keys are tried, key rotation. AES-GCM is Go's library:
  sealing and opening with key bytes, nonce, text and additional data are the fields of \<open>Gcm\<close>. The nonce is
  an argument; one of another length than \<open>NonceSize\<close> stands for a failed read of entropy. Byte strings are
  strings of characters; a version is written to the envelope in 32 bits.
\<close>

section \<open>Keys\<close>

definition CryptoMagic :: string where "CryptoMagic = ''JME1''"
definition AlgAES256GCM :: string where "AlgAES256GCM = ''aes-256-gcm''"
definition KeySize :: nat where "KeySize = 32"
definition NonceSize :: nat where "NonceSize = 12"
definition headerLen :: nat where "headerLen = 4 + 4 + NonceSize"

record Key =
  k_Version :: int
  k_Material :: string

record Envelope =
  en_Enabled :: bool
  en_Write :: Key
  en_Prev :: "Key option"

record Gcm =
  gcm_Seal :: "string \<Rightarrow> string \<Rightarrow> string \<Rightarrow> string \<Rightarrow> string"
  gcm_Open :: "string \<Rightarrow> string \<Rightarrow> string \<Rightarrow> string \<Rightarrow> string option"

definition Key_Validate :: "Key \<Rightarrow> apperr option" where
  "Key_Validate k =
     (if k_Version k < 1 then Some (fc_bad ''cache key version must be >= 1'')
      else if length (k_Material k) \<noteq> KeySize then Some (fc_bad ''cache key must be 32 bytes'') else None)"

definition Envelope_Validate :: "Envelope option \<Rightarrow> apperr option" where
  "Envelope_Validate eo =
     (case eo of None \<Rightarrow> None
      | Some e \<Rightarrow>
          if \<not> en_Enabled e then None
          else case Key_Validate (en_Write e) of Some x \<Rightarrow> Some x
          | None \<Rightarrow>
              (case en_Prev e of None \<Rightarrow> None
               | Some p \<Rightarrow>
                  (case Key_Validate p of Some x \<Rightarrow> Some x
                   | None \<Rightarrow> if k_Version p \<ge> k_Version (en_Write e) then
                              Some (fc_bad ''previous cache key version must be less than write version'') else None)))"

definition KeysForRead :: "Envelope option \<Rightarrow> Key list" where
  "KeysForRead eo =
     (case eo of None \<Rightarrow> []
      | Some e \<Rightarrow> if \<not> en_Enabled e then [] else en_Write e # (case en_Prev e of None \<Rightarrow> [] | Some p \<Rightarrow> [p]))"

section \<open>Envelopes\<close>

definition FrameAAD :: "int \<Rightarrow> int \<Rightarrow> int \<Rightarrow> string" where
  "FrameAAD generationID seq formatVersion =
     CryptoMagic @ be_bytes 8 (nat (generationID mod 2 ^ 64)) @ be_bytes 4 (nat (seq mod 2 ^ 32)) @
       be_bytes 4 (nat (formatVersion mod 2 ^ 32)) @ ''zstd''"

definition IsEncrypted :: "string \<Rightarrow> bool" where
  "IsEncrypted onDisk = (length onDisk \<ge> headerLen \<and> take 4 onDisk = CryptoMagic)"

text \<open>\<open>binary.BigEndian.Uint32\<close>.\<close>

definition beUint32 :: "string \<Rightarrow> int" where
  "beUint32 b = foldl (\<lambda>v c. 256 * v + of_char c) 0 b"

definition KeyVersionOf :: "string \<Rightarrow> apperr + int" where
  "KeyVersionOf onDisk =
     (if \<not> IsEncrypted onDisk then Inl (fc_bad ''frame is not an encrypted envelope'')
      else Inr (beUint32 (take 4 (drop 4 onDisk))))"

definition Seal :: "Gcm \<Rightarrow> Key \<Rightarrow> string \<Rightarrow> string \<Rightarrow> string \<Rightarrow> apperr + string" where
  "Seal gcm key nonce compressed aad =
     (case Key_Validate key of Some e \<Rightarrow> Inl e
      | None \<Rightarrow>
          if length nonce \<noteq> NonceSize then Inl (newErr CodeInternal ''failed to generate AEAD nonce'')
          else Inr (CryptoMagic @ be_bytes 4 (nat (k_Version key mod 2 ^ 32)) @ nonce @
                    gcm_Seal gcm (k_Material key) nonce compressed aad))"

definition orderKeys :: "Key list \<Rightarrow> int \<Rightarrow> Key list" where
  "orderKeys keys preferVersion =
     filter (\<lambda>k. k_Version k = preferVersion) keys @ filter (\<lambda>k. k_Version k \<noteq> preferVersion) keys"

text \<open>The first valid key that opens; whether a valid key failed.\<close>

fun tryKeys :: "Gcm \<Rightarrow> Key list \<Rightarrow> string \<Rightarrow> string \<Rightarrow> string \<Rightarrow> bool \<Rightarrow> (string \<times> int) option \<times> bool" where
  "tryKeys gcm [] nonce ct aad failed = (None, failed)"
| "tryKeys gcm (k # ks) nonce ct aad failed =
     (if Key_Validate k \<noteq> None then tryKeys gcm ks nonce ct aad failed
      else case gcm_Open gcm (k_Material k) nonce ct aad of
        Some pt \<Rightarrow> (Some (pt, k_Version k), failed)
      | None \<Rightarrow> tryKeys gcm ks nonce ct aad True)"

definition Open :: "Gcm \<Rightarrow> Key list \<Rightarrow> string \<Rightarrow> string \<Rightarrow> apperr + string \<times> int" where
  "Open gcm keys onDisk aad =
     (if \<not> IsEncrypted onDisk then Inl (newErr CodeCorruptCache ''encrypted frame magic missing or invalid'')
      else if keys = [] then Inl (newErr CodeAuthentication ''cache encryption key required to read encrypted frame'')
      else let ver = beUint32 (take 4 (drop 4 onDisk)); nonce = take NonceSize (drop 8 onDisk); ct = drop (8 + NonceSize) onDisk in
        case tryKeys gcm (orderKeys keys ver) nonce ct aad False of
          (Some r, _) \<Rightarrow> Inr r
        | (None, True) \<Rightarrow> Inl (newErrf CodeCorruptCache ''frame AEAD authentication failed (key_version=%d)'' [show_int ver])
        | (None, False) \<Rightarrow> Inl (newErrf CodeAuthentication ''no usable cache key for encrypted frame (key_version=%d)'' [show_int ver]))"

section \<open>Frame encryption\<close>

record FrameCrypto =
  cr_Env :: Envelope
  cr_Gcm :: Gcm

definition NewFrameCrypto :: "Gcm \<Rightarrow> Envelope option \<Rightarrow> apperr + FrameCrypto option" where
  "NewFrameCrypto gcm eo =
     (case eo of None \<Rightarrow> Inr None
      | Some e \<Rightarrow>
          if \<not> en_Enabled e then Inr None
          else case Envelope_Validate eo of Some x \<Rightarrow> Inl x
          | None \<Rightarrow> Inr (Some \<lparr> cr_Env = \<lparr> en_Enabled = True, en_Write = en_Write e, en_Prev = en_Prev e \<rparr>, cr_Gcm = gcm \<rparr>))"

definition CryptoEnabled :: "FrameCrypto option \<Rightarrow> bool" where
  "CryptoEnabled co = (case co of None \<Rightarrow> False | Some c \<Rightarrow> en_Enabled (cr_Env c))"

definition WriteKeyVersion :: "FrameCrypto option \<Rightarrow> int" where
  "WriteKeyVersion co = (case co of None \<Rightarrow> 0 | Some c \<Rightarrow> if \<not> en_Enabled (cr_Env c) then 0 else k_Version (en_Write (cr_Env c)))"

definition sealCompressed :: "FrameCrypto option \<Rightarrow> string \<Rightarrow> int \<Rightarrow> int \<Rightarrow> int \<Rightarrow> string \<Rightarrow> apperr + string \<times> string \<times> int" where
  "sealCompressed co nonce generationID seq formatVersion compressed =
     (case co of None \<Rightarrow> Inr (compressed, [], 0)
      | Some c \<Rightarrow>
          if \<not> en_Enabled (cr_Env c) then Inr (compressed, [], 0)
          else case Seal (cr_Gcm c) (en_Write (cr_Env c)) nonce compressed (FrameAAD generationID seq formatVersion) of
            Inl e \<Rightarrow> Inl e | Inr onDisk \<Rightarrow> Inr (onDisk, AlgAES256GCM, k_Version (en_Write (cr_Env c))))"

definition openToCompressed :: "FrameCrypto option \<Rightarrow> int \<Rightarrow> int \<Rightarrow> int \<Rightarrow> string \<Rightarrow> int \<Rightarrow> apperr + string" where
  "openToCompressed co generationID seq formatVersion onDisk metaEncVer =
     (if \<not> (IsEncrypted onDisk \<or> metaEncVer > 0) then Inr onDisk
      else case co of
        None \<Rightarrow> Inl (newErr CodeAuthentication ''cache encryption key required to read encrypted frame'')
      | Some c \<Rightarrow>
          (case Open (cr_Gcm c) (KeysForRead (Some (cr_Env c))) onDisk (FrameAAD generationID seq formatVersion) of
             Inl e \<Rightarrow> Inl e | Inr (compressed, _) \<Rightarrow> Inr compressed))"

section \<open>What is sealed can be opened\<close>

text \<open>The one law of AES-GCM that is used: opening undoes sealing under the same key, nonce and data.\<close>

definition gcm_opens :: "Gcm \<Rightarrow> bool" where
  "gcm_opens gcm \<longleftrightarrow> (\<forall>key nonce text aad. gcm_Open gcm key nonce (gcm_Seal gcm key nonce text aad) aad = Some text)"

lemma beUint32_be_bytes:
  assumes "n < 2 ^ 32"
  shows "beUint32 (be_bytes 4 n) = int n"
proof -
  define a b c where "a = n div 256" and "b = a div 256" and "c = b div 256"
  have p: "n div 256 ^ 2 = b" "n div 256 ^ 3 = c"
    unfolding a_def b_def c_def by (simp_all only: power2_eq_square power3_eq_cube div_mult2_eq)
  have u: "rev [0..<4] = [3, 2, 1, 0 :: nat]" by code_simp
  have oc: "(of_char (char_of x :: char) :: int) = int (x mod 256)" for x :: nat
    by (metis of_nat_of_char of_char_of)
  have "be_bytes 4 n = [char_of (c mod 256), char_of (b mod 256), char_of (a mod 256), char_of (n mod 256)]"
    unfolding be_bytes_def u using p by (simp add: a_def)
  then have "beUint32 (be_bytes 4 n) = int (256 * (256 * (256 * (c mod 256) + b mod 256) + a mod 256) + n mod 256)"
    by (simp add: beUint32_def oc)
  also have "c mod 256 = c" using assms unfolding a_def b_def c_def by (intro mod_less less_mult_imp_div_less) simp
  also have "256 * c + b mod 256 = b" unfolding c_def by (simp add: mult_div_mod_eq)
  also have "256 * b + a mod 256 = a" unfolding b_def by (simp add: mult_div_mod_eq)
  also have "256 * a + n mod 256 = n" unfolding a_def by (simp add: mult_div_mod_eq)
  finally show ?thesis .
qed

lemma length_Seal:
  assumes "Seal gcm k nonce pt aad = Inr b"
  shows "b = CryptoMagic @ be_bytes 4 (nat (k_Version k mod 2 ^ 32)) @ nonce @ gcm_Seal gcm (k_Material k) nonce pt aad"
    and "length nonce = NonceSize" and "Key_Validate k = None" and "IsEncrypted b"
  using assms by (auto simp: Seal_def IsEncrypted_def headerLen_def CryptoMagic_def split: option.splits if_splits)

lemma tryKeys_first:
  "Key_Validate k = None \<Longrightarrow> gcm_Open gcm (k_Material k) nonce ct aad = Some pt \<Longrightarrow>
   (\<forall>k' \<in> set pre. k' = k) \<Longrightarrow> k \<in> set (pre @ [k]) \<Longrightarrow> fst (tryKeys gcm (pre @ k # post) nonce ct aad f) = Some (pt, k_Version k)"
  by (cases pre) auto

lemma Open_Seal:
  assumes gcm: "gcm_opens gcm" and "Seal gcm k nonce pt aad = Inr b" and "k_Version k < 2 ^ 32" and "k \<in> set keys"
    and uniq: "\<forall>k' \<in> set keys. k_Version k' = k_Version k \<longrightarrow> k' = k"
  shows "Open gcm keys b aad = Inr (pt, k_Version k)"
proof -
  note b = length_Seal [OF assms(2)]
  have v: "1 \<le> k_Version k" using b(3) by (auto simp: Key_Validate_def split: if_splits)
  let ?h = "be_bytes 4 (nat (k_Version k mod 2 ^ 32))"
  have ver: "beUint32 (take 4 (drop 4 b)) = k_Version k"
    using beUint32_be_bytes [of "nat (k_Version k)"] v assms(3) unfolding b(1) by (simp add: CryptoMagic_def)
  have parts: "take NonceSize (drop 8 b) = nonce" "drop (8 + NonceSize) b = gcm_Seal gcm (k_Material k) nonce pt aad"
    using b(2) unfolding b(1) by (simp_all add: CryptoMagic_def NonceSize_def)
  let ?pre = "filter (\<lambda>k'. k_Version k' = k_Version k) keys"
  obtain ks where ks: "?pre = k # ks" using assms(4) uniq by (cases ?pre) (force simp: filter_empty_conv filter_eq_Cons_iff)+
  have "fst (tryKeys gcm (orderKeys keys (k_Version k)) nonce (gcm_Seal gcm (k_Material k) nonce pt aad) aad False) = Some (pt, k_Version k)"
    using tryKeys_first [of k gcm nonce _ aad pt "[]"] b(3) gcm by (simp add: orderKeys_def ks gcm_opens_def)
  then obtain f where "tryKeys gcm (orderKeys keys (k_Version k)) nonce (gcm_Seal gcm (k_Material k) nonce pt aad) aad False
      = (Some (pt, k_Version k), f)" by (metis prod.collapse)
  then show ?thesis using b(4) ver parts assms(4) by (auto simp: Open_def Let_def)
qed

text \<open>\<open>reads_from co co'\<close>: what was written with \<open>co\<close> is read with \<open>co'\<close>, where the key of \<open>co\<close> is the current
  or the previous one.\<close>

definition reads_from :: "FrameCrypto option \<Rightarrow> FrameCrypto option \<Rightarrow> bool" where
  "reads_from co co' \<longleftrightarrow>
     (case co of None \<Rightarrow> True
      | Some c \<Rightarrow> en_Enabled (cr_Env c) \<longrightarrow>
          (\<exists>c'. co' = Some c' \<and> cr_Gcm c' = cr_Gcm c \<and> gcm_opens (cr_Gcm c) \<and> Envelope_Validate (Some (cr_Env c')) = None \<and>
             k_Version (en_Write (cr_Env c)) < 2 ^ 32 \<and> en_Write (cr_Env c) \<in> set (KeysForRead (Some (cr_Env c')))))"

lemma read_keys_unique:
  assumes "Envelope_Validate (Some e) = None" and "k \<in> set (KeysForRead (Some e))" and "k' \<in> set (KeysForRead (Some e))"
    and "k_Version k' = k_Version k"
  shows "k' = k"
  using assms by (auto simp: Envelope_Validate_def KeysForRead_def split: if_splits option.splits)

lemma openToCompressed_sealCompressed:
  assumes "sealCompressed co nonce g q fv z = Inr (b, alg, ver)" and "reads_from co co'" and "\<not> IsEncrypted z"
  shows "openToCompressed co' g q fv b ver = Inr z"
proof (cases "CryptoEnabled co")
  case False
  then have "b = z" "ver = 0" using assms(1) by (auto simp: CryptoEnabled_def sealCompressed_def split: option.splits if_splits)
  then show ?thesis using assms(3) by (simp add: openToCompressed_def)
next
  case True
  then obtain c where c: "co = Some c" "en_Enabled (cr_Env c)" by (auto simp: CryptoEnabled_def split: option.splits)
  let ?k = "en_Write (cr_Env c)"
  have seal: "Seal (cr_Gcm c) ?k nonce z (FrameAAD g q fv) = Inr b"
    using assms(1) c by (auto simp: sealCompressed_def split: sum.splits)
  from assms(2) c obtain c' where c': "co' = Some c'" "cr_Gcm c' = cr_Gcm c" "gcm_opens (cr_Gcm c)"
    "Envelope_Validate (Some (cr_Env c')) = None" "k_Version ?k < 2 ^ 32" "?k \<in> set (KeysForRead (Some (cr_Env c')))"
    by (auto simp: reads_from_def)
  have "\<forall>k' \<in> set (KeysForRead (Some (cr_Env c'))). k_Version k' = k_Version ?k \<longrightarrow> k' = ?k"
    using read_keys_unique [OF c'(4,6)] by blast
  from Open_Seal [OF c'(3) seal c'(5,6) this] show ?thesis
    using length_Seal(4) [OF seal] c' by (simp add: openToCompressed_def)
qed

end
