(* ===== verification/FleetStore.thy ===== *)
theory FleetStore
  imports StoreCrypto
begin

unbundle bit_operations_syntax

text \<open>
  The local store behind the shared cache: the tables that peer imports touch
  (\<open>internal/store/fleet_mapping.go\<close>, \<open>meta.go\<close>, \<open>chunk_meta.go\<close>), the frame files and their import
  (\<open>import_frame.go\<close>, \<open>commit.go\<close>, \<open>walkLines\<close> of \<open>frame_writer.go\<close>).

  A table is the list of its rows in the order of their ids, an \<open>UPDATE\<close> maps over it and a failed
  constraint is a failed statement. \<open>flt k\<close> is whether the \<open>k\<close>-th statement or system call of an
  operation fails, for whatever reason (a dead disk, a lock, a cancelled context). Offsets are 64-bit in
  Go and integers here. Time stamps are left out, as are nil receivers, which only answer an error.
  Zstandard is not under \<open>src/\<close>: decompression is an argument.
\<close>

section \<open>Lines of a frame\<close>

definition LineCheckpointInterval :: int where "LineCheckpointInterval = 256"

record LineCheckpoint =
  cp_LineNo :: int
  cp_RawOffset :: int

text \<open>The loop over the bytes: line, highest line seen, newlines so far, checkpoints so far.\<close>

fun walkLoop :: "int \<Rightarrow> string \<Rightarrow> int \<times> int \<times> int \<times> LineCheckpoint list \<Rightarrow> int \<times> int \<times> int \<times> LineCheckpoint list" where
  "walkLoop off [] st = st"
| "walkLoop off (c # cs) (line, maxLine, newlines, cps) =
     (let maxLine = (if line > maxLine then line else maxLine) in
      if c \<noteq> CHR 0x0A then walkLoop (off + 1) cs (line, maxLine, newlines, cps)
      else let newlines = newlines + 1; line = line + 1 in
        walkLoop (off + 1) cs (line, maxLine, newlines,
          if cs \<noteq> [] \<and> (newlines = 1 \<or> line mod LineCheckpointInterval = 0)
          then cps @ [\<lparr> cp_LineNo = line, cp_RawOffset = off + 1 \<rparr>] else cps))"

definition walkLines :: "string \<Rightarrow> int \<Rightarrow> int \<Rightarrow> bool \<Rightarrow> LineCheckpoint list \<times> int \<times> int \<times> bool" where
  "walkLines raw rawStart lineStart firstIsLineStart =
     (if raw = [] then ([], lineStart, lineStart, True)
      else case walkLoop rawStart raw (lineStart, lineStart, 0,
          if firstIsLineStart then [\<lparr> cp_LineNo = lineStart, cp_RawOffset = rawStart \<rparr>] else []) of
        (line, maxLine, newlines, cps) \<Rightarrow>
          let endedNL = (last raw = CHR 0x0A);
              lineEndExcl = (if endedNL then line else (if line > maxLine then line else maxLine) + 1);
              lineEndExcl = (if lineEndExcl \<le> lineStart then lineStart + 1 else lineEndExcl) in
          (cps, lineEndExcl, line, endedNL))"

section \<open>Frame files\<close>

definition FrameFormatVersion :: int where "FrameFormatVersion = 1"
definition MaxFrameBytes :: int where "MaxFrameBytes = 16 * 2 ^ 20"
definition FramesDirName :: string where "FramesDirName = ''frames''"

definition FrameRelPath :: "int \<Rightarrow> int \<Rightarrow> string" where
  "FrameRelPath generationID seq = FramesDirName @ ''/'' @ show_int generationID @ ''/'' @ show_int seq @ ''.zst''"

text \<open>The data directory is fixed; a file is named by its path below it.\<close>

definition FrameAbsPath :: "string \<Rightarrow> apperr + string" where
  "FrameAbsPath rel0 =
     (let rel = trim_space rel0 in
      if rel = [] then Inl (fc_bad ''frame path is empty'')
      else if str_contains rel ''..'' then Inl (fc_bad ''frame path must not traverse'')
      else if \<not> has_prefix rel (FramesDirName @ ''/'') then Inl (fc_bad ''frame path must be under frames/'')
      else Inr rel)"

definition hmacEqualHex :: "string \<Rightarrow> string \<Rightarrow> bool" where
  "hmacEqualHex a b =
     (if length a \<noteq> length b then False
      else foldl (\<lambda>v p. v OR ((of_char (fst p) :: 8 word) XOR of_char (snd p))) (0 :: 8 word) (zip a b) = 0)"

type_synonym FrameFiles = "string \<rightharpoonup> string"

text \<open>A step before the rename fails, a step after it fails with the file in place, or none does.\<close>

definition writeFileAtomic :: "(nat \<Rightarrow> bool) \<Rightarrow> string \<Rightarrow> string \<Rightarrow> FrameFiles \<Rightarrow> apperr option \<times> FrameFiles" where
  "writeFileAtomic flt finalPath data fs =
     (if flt 0 then (Some (newErr CodeInternal ''failed to write frame temp file''), fs)
      else let fs' = fs(finalPath \<mapsto> data) in
        if flt 1 then (Some (newErr CodeInternal ''failed to fsync frame directory''), fs') else (None, fs'))"

definition DecompressZstdFrame :: "(string \<Rightarrow> apperr + string) \<Rightarrow> string \<Rightarrow> apperr + string" where
  "DecompressZstdFrame zstd b =
     (if has_prefix b CryptoMagic then Inl (newErr CodeAuthentication ''encrypted frame requires cache key (use OpenFrameCompressed)'')
      else zstd b)"

section \<open>Tables\<close>

record LogGeneration =
  lg_ID :: int
  lg_Profile :: string
  lg_Job :: string
  lg_Build :: int
  lg_Generation :: int
  lg_Sealed :: bool
  lg_JenkinsOffset :: int
  lg_MoreData :: bool
  lg_BuildComplete :: bool
  lg_PackedPackID :: string
  lg_L1Released :: bool

record Chunk =
  ch_GenerationID :: int
  ch_Seq :: int
  ch_RawStart :: int
  ch_RawEnd :: int
  ch_LineStart :: int
  ch_LineEnd :: int
  ch_UncompressedSize :: int
  ch_CompressedSize :: int
  ch_ContentSHA256 :: string
  ch_FrameSHA256 :: string
  ch_ZstdSize :: int
  ch_ZstdSHA256 :: string
  ch_RelPath :: string
  ch_FormatVersion :: int
  ch_EncAlg :: string
  ch_EncKeyVersion :: int
  ch_Checkpoints :: "LineCheckpoint list"

datatype FleetMappingStatus = FleetMappingCommitted | FleetMappingQuarantined

datatype FleetImportStatus = FleetImportStaging | FleetImportCommitted | FleetImportAborted

record FleetObjectMapping =
  fm_LocatorHash :: string
  fm_ManifestDigest :: string
  fm_FleetID :: string
  fm_CachePool :: string
  fm_ControllerID :: string
  fm_GenerationID :: int
  fm_Status :: FleetMappingStatus

record FleetImportJournal =
  fj_ID :: int
  fj_LocatorHash :: string
  fj_ManifestDigest :: string
  fj_Status :: FleetImportStatus
  fj_GenerationID :: int
  fj_FramesDone :: int
  fj_FramesTotal :: int

text \<open>The counters are the highest ids handed out so far: ids are never used again.\<close>

record Meta =
  mt_generations :: "LogGeneration list"
  mt_lastGeneration :: int
  mt_chunks :: "Chunk list"
  mt_mappings :: "FleetObjectMapping list"
  mt_journal :: "FleetImportJournal list"
  mt_lastImport :: int

definition emptyMeta :: Meta where
  "emptyMeta = \<lparr> mt_generations = [], mt_lastGeneration = 0, mt_chunks = [], mt_mappings = [], mt_journal = [],
     mt_lastImport = 0 \<rparr>"

section \<open>Generations and chunks\<close>

definition LogKey_Validate :: "string \<Rightarrow> string \<Rightarrow> int \<Rightarrow> apperr option" where
  "LogKey_Validate profile job build =
     (if trim_space profile = [] then Some (fc_bad ''profile is required'')
      else if trim_space job = [] then Some (fc_bad ''job is required'')
      else if build \<le> 0 then Some (fc_bad ''build number must be positive'') else None)"

definition sameKey :: "string \<Rightarrow> string \<Rightarrow> int \<Rightarrow> LogGeneration \<Rightarrow> bool" where
  "sameKey profile job build g = (lg_Profile g = profile \<and> lg_Job g = job \<and> lg_Build g = build)"

text \<open>\<open>ORDER BY generation DESC LIMIT 1\<close>.\<close>

fun latestOf :: "LogGeneration list \<Rightarrow> LogGeneration option" where
  "latestOf [] = None"
| "latestOf (g # gs) =
     (case latestOf gs of None \<Rightarrow> Some g | Some h \<Rightarrow> if lg_Generation h > lg_Generation g then Some h else Some g)"

definition GetLatestGeneration :: "bool \<Rightarrow> string \<Rightarrow> string \<Rightarrow> int \<Rightarrow> Meta \<Rightarrow> apperr + LogGeneration option" where
  "GetLatestGeneration fails profile job build m =
     (case LogKey_Validate profile job build of Some e \<Rightarrow> Inl e
      | None \<Rightarrow> if fails then Inl (newErr CodeCorruptCache ''failed to load log generation'')
                else Inr (latestOf (filter (sameKey profile job build) (mt_generations m))))"

definition InsertGeneration :: "bool \<Rightarrow> LogGeneration \<Rightarrow> Meta \<Rightarrow> (apperr + int) \<times> Meta" where
  "InsertGeneration fails g m =
     (case LogKey_Validate (lg_Profile g) (lg_Job g) (lg_Build g) of Some e \<Rightarrow> (Inl e, m)
      | None \<Rightarrow>
          if lg_Generation g \<le> 0 then (Inl (fc_bad ''generation must be positive''), m)
          else if lg_JenkinsOffset g < 0 then (Inl (fc_bad ''jenkins_offset must be non-negative''), m)
          else if fails \<or> (\<exists>h \<in> set (mt_generations m). sameKey (lg_Profile g) (lg_Job g) (lg_Build g) h \<and>
                             lg_Generation h = lg_Generation g)
            then (Inl (newErr CodeInternal ''failed to insert log generation''), m)
          else let i = mt_lastGeneration m + 1 in
            (Inr i, m\<lparr> mt_generations := mt_generations m @ [g\<lparr> lg_ID := i \<rparr>], mt_lastGeneration := i \<rparr>))"

definition GetGenerationByID :: "bool \<Rightarrow> int \<Rightarrow> Meta \<Rightarrow> apperr + LogGeneration option" where
  "GetGenerationByID fails i m =
     (if i \<le> 0 then Inl (fc_bad ''generation id is required'')
      else if fails then Inl (newErr CodeCorruptCache ''failed to load log generation'')
      else Inr (List.find (\<lambda>g. lg_ID g = i) (mt_generations m)))"

definition UpdateGenerationOffset ::
  "bool \<Rightarrow> int \<Rightarrow> int \<Rightarrow> bool \<Rightarrow> bool \<Rightarrow> bool \<Rightarrow> Meta \<Rightarrow> apperr option \<times> Meta" where
  "UpdateGenerationOffset fails i offset moreData buildComplete sealed m =
     (if i \<le> 0 then (Some (fc_bad ''generation id is required''), m)
      else if offset < 0 then (Some (fc_bad ''jenkins_offset must be non-negative''), m)
      else if fails then (Some (newErr CodeInternal ''failed to update log generation''), m)
      else case List.find (\<lambda>g. lg_ID g = i) (mt_generations m) of
        None \<Rightarrow> (Some (newErr CodeNotFound ''log generation not found''), m)
      | Some g \<Rightarrow>
          if lg_Sealed g then (Some (fc_bad ''cannot update sealed log generation''), m)
          else if offset < lg_JenkinsOffset g then
            (Some (newErrf CodeInvalidArgument ''jenkins_offset cannot regress within generation (%d < %d)''
               [show_int offset, show_int (lg_JenkinsOffset g)]), m)
          else (None, m\<lparr> mt_generations := map (\<lambda>g. if lg_ID g = i \<and> \<not> lg_Sealed g then
                 g\<lparr> lg_JenkinsOffset := offset, lg_MoreData := moreData, lg_BuildComplete := buildComplete, lg_Sealed := sealed \<rparr>
               else g) (mt_generations m) \<rparr>))"

definition SealGeneration :: "bool \<Rightarrow> int \<Rightarrow> Meta \<Rightarrow> apperr option \<times> Meta" where
  "SealGeneration fails i m =
     (if i \<le> 0 then (Some (fc_bad ''generation id is required''), m)
      else if fails then (Some (newErr CodeInternal ''failed to seal log generation''), m)
      else if filter (\<lambda>g. lg_ID g = i) (mt_generations m) = [] then
        (Some (newErr CodeNotFound ''log generation not found''), m)
      else (None, m\<lparr> mt_generations := map (\<lambda>g. if lg_ID g = i then
              g\<lparr> lg_Sealed := True, lg_MoreData := False, lg_BuildComplete := True \<rparr> else g) (mt_generations m) \<rparr>))"

definition chunksOf :: "int \<Rightarrow> Meta \<Rightarrow> Chunk list" where
  "chunksOf i m = filter (\<lambda>c. ch_GenerationID c = i) (mt_chunks m)"

text \<open>One transaction; the constraints are the unique pair of generation and sequence and the reference
  to the generation.\<close>

definition InsertChunk :: "bool \<Rightarrow> Chunk \<Rightarrow> Meta \<Rightarrow> apperr option \<times> Meta" where
  "InsertChunk fails c m =
     (if ch_GenerationID c \<le> 0 then (Some (fc_bad ''generation_id is required''), m)
      else if ch_Seq c < 0 then (Some (fc_bad ''seq must be non-negative''), m)
      else if ch_RawEnd c < ch_RawStart c then (Some (fc_bad ''raw_end must be >= raw_start''), m)
      else if ch_UncompressedSize c \<noteq> ch_RawEnd c - ch_RawStart c then
        (Some (fc_bad ''uncompressed_size must equal raw_end-raw_start''), m)
      else if ch_ContentSHA256 c = [] \<or> ch_FrameSHA256 c = [] then
        (Some (fc_bad ''content and frame checksums are required''), m)
      else if ch_RelPath c = [] then (Some (fc_bad ''rel_path is required''), m)
      else if fails \<or> (\<exists>d \<in> set (chunksOf (ch_GenerationID c) m). ch_Seq d = ch_Seq c) \<or>
              (\<forall>g \<in> set (mt_generations m). lg_ID g \<noteq> ch_GenerationID c) then
        (Some (newErr CodeInternal ''failed to insert chunk''), m)
      else (None, m\<lparr> mt_chunks := mt_chunks m @ [c] \<rparr>))"

section \<open>Importing one frame\<close>

record PureZstdImportSpec =
  sp_Seq :: int
  sp_RawStart :: int
  sp_RawEnd :: int
  sp_LineStart :: int
  sp_LineEnd :: int
  sp_DecodedSize :: int
  sp_DecodedSHA256 :: string
  sp_ZstdSize :: int
  sp_ZstdSHA256 :: string
  sp_PureZstd :: string

text \<open>The checks on the bytes: the decoded frame when all hold. \<open>flt 0\<close> is the state of the context.\<close>

definition checkImportFrame :: "(nat \<Rightarrow> bool) \<Rightarrow> (string \<Rightarrow> apperr + string) \<Rightarrow> int \<Rightarrow> PureZstdImportSpec \<Rightarrow> apperr + string" where
  "checkImportFrame flt zstd generationID spec =
     (let z = sp_PureZstd spec; n = int (length z) in
      if generationID \<le> 0 then Inl (fc_bad ''generation_id is required'')
      else if flt 0 then Inl (newErr CodeCancelled ''context done'')
      else if sp_Seq spec < 0 then Inl (fc_bad ''seq negative'')
      else if z = [] then Inl (fc_bad ''pure zstd empty'')
      else if n > MaxFrameBytes then Inl (newErr CodeQuota ''import zstd exceeds max frame bytes'')
      else if has_prefix z CryptoMagic then Inl (fc_bad ''import must not be AEAD envelope'')
      else if sp_ZstdSize spec > 0 \<and> n \<noteq> sp_ZstdSize spec then Inl (newErr CodeCorruptCache ''import zstd size mismatch'')
      else if sp_ZstdSHA256 spec \<noteq> [] \<and> \<not> hmacEqualHex (to_lower (sp_ZstdSHA256 spec)) (hexSum z) then
        Inl (newErr CodeCorruptCache ''import zstd sha256 mismatch'')
      else case DecompressZstdFrame zstd z of
        Inl e \<Rightarrow> Inl (newErr CodeCorruptCache ''import zstd decode failed'')
      | Inr raw \<Rightarrow>
          let r = int (length raw) in
          if r > MaxFrameBytes then Inl (newErr CodeQuota ''import decoded exceeds max frame bytes'')
          else if sp_DecodedSize spec > 0 \<and> r \<noteq> sp_DecodedSize spec then Inl (newErr CodeCorruptCache ''import decoded size mismatch'')
          else if sp_DecodedSHA256 spec \<noteq> [] \<and> \<not> hmacEqualHex (to_lower (sp_DecodedSHA256 spec)) (hexSum raw) then
            Inl (newErr CodeCorruptCache ''import content sha256 mismatch'')
          else if sp_RawEnd spec < sp_RawStart spec \<or> sp_RawEnd spec - sp_RawStart spec \<noteq> r then
            Inl (newErr CodeCorruptCache ''import raw range mismatch'')
          else Inr raw)"

text \<open>The lines of the decoded frame, reconciled with the lines the peer claims.\<close>

definition importLines :: "PureZstdImportSpec \<Rightarrow> string \<Rightarrow> apperr + LineCheckpoint list \<times> int" where
  "importLines spec raw =
     (let lineStart = sp_LineStart spec;
          firstIsLineStart = (if sp_RawStart spec > 0 then True else sp_RawStart spec = 0 \<or> sp_LineStart spec = 0) in
      case walkLines raw (sp_RawStart spec) lineStart firstIsLineStart of
        (checkpoints, lineEndExcl, _, _) \<Rightarrow>
          if sp_LineEnd spec > 0 \<and> lineEndExcl \<noteq> sp_LineEnd spec then
            if sp_LineEnd spec < lineStart \<or> sp_LineEnd spec - lineStart > int (length raw) + 1 then
              Inl (newErr CodeCorruptCache ''import line range inconsistent'')
            else Inr (checkpoints, sp_LineEnd spec)
          else Inr (checkpoints, lineEndExcl))"

definition importedChunk :: "int \<Rightarrow> PureZstdImportSpec \<Rightarrow> string \<Rightarrow> LineCheckpoint list \<Rightarrow> int \<Rightarrow> string \<Rightarrow> string \<Rightarrow> int \<Rightarrow> Chunk" where
  "importedChunk generationID spec raw checkpoints lineEndExcl onDisk encAlg encVer =
     \<lparr> ch_GenerationID = generationID, ch_Seq = sp_Seq spec, ch_RawStart = sp_RawStart spec, ch_RawEnd = sp_RawEnd spec,
       ch_LineStart = sp_LineStart spec, ch_LineEnd = lineEndExcl, ch_UncompressedSize = int (length raw),
       ch_CompressedSize = int (length onDisk), ch_ContentSHA256 = hexSum raw, ch_FrameSHA256 = hexSum onDisk,
       ch_ZstdSize = int (length (sp_PureZstd spec)), ch_ZstdSHA256 = hexSum (sp_PureZstd spec),
       ch_RelPath = FrameRelPath generationID (sp_Seq spec), ch_FormatVersion = FrameFormatVersion, ch_EncAlg = encAlg, ch_EncKeyVersion = encVer,
       ch_Checkpoints = checkpoints \<rparr>"

definition ImportPureZstdFrame ::
  "(nat \<Rightarrow> bool) \<Rightarrow> (string \<Rightarrow> apperr + string) \<Rightarrow> FrameCrypto option \<Rightarrow> string \<Rightarrow> int \<Rightarrow> PureZstdImportSpec \<Rightarrow>
    Meta \<times> FrameFiles \<Rightarrow> apperr option \<times> Meta \<times> FrameFiles" where
  "ImportPureZstdFrame flt zstd crypto nonce generationID spec st =
     (case st of (m, fs) \<Rightarrow>
      case checkImportFrame flt zstd generationID spec of Inl e \<Rightarrow> (Some e, m, fs)
      | Inr raw \<Rightarrow>
      (case sealCompressed crypto nonce generationID (sp_Seq spec) FrameFormatVersion (sp_PureZstd spec) of Inl e \<Rightarrow> (Some e, m, fs)
      | Inr (onDisk, encAlg, encVer) \<Rightarrow>
      (case importLines spec raw of Inl e \<Rightarrow> (Some e, m, fs)
      | Inr (checkpoints, lineEndExcl) \<Rightarrow>
      (case FrameAbsPath (FrameRelPath generationID (sp_Seq spec)) of Inl e \<Rightarrow> (Some e, m, fs)
      | Inr path \<Rightarrow>
      (case writeFileAtomic (\<lambda>k. flt (1 + k)) path onDisk fs of (Some e, fs') \<Rightarrow> (Some e, m, fs')
      | (None, fs') \<Rightarrow>
      (case InsertChunk (flt 3) (importedChunk generationID spec raw checkpoints lineEndExcl onDisk encAlg encVer) m of
         (e, m') \<Rightarrow> (e, m', fs')))))))"

end
