(* ===== verification/FleetImport.thy ===== *)
theory FleetImport
  imports FleetStore
begin

text \<open>
  Importing a sealed object from a peer: the decision (\<open>internal/fleetcache/partition.go\<close>, \<open>import.go\<close>),
  the import and its resumption (\<open>import.go\<close>, \<open>replicate.go\<close>, with the frame sets of \<open>rf2.go\<close>), the
  journal and the mapping (\<open>internal/store/fleet_mapping.go\<close>) and the sink that connects the two
  (\<open>internal/store/peer_import.go\<close>). The interface \<open>ImportSink\<close> is a record of functions on a state of the
  sink's choice, as in Go; \<open>GetStaging\<close> is the optional capability. \<open>canc k\<close> is whether the context is done
  at its \<open>k\<close>-th look; the process-wide tombstones and the clock are the arguments \<open>ts\<close> and \<open>now\<close>.
\<close>

section \<open>Partition decisions\<close>

datatype PartitionAction = PartitionActionStart | PartitionActionConverge | PartitionActionConflict | PartitionActionReject

record PartitionOutcome =
  po_Action :: PartitionAction
  po_Residual :: string
  po_ExistingDigest :: string
  po_CandidateDigest :: string

definition PartitionResidualConflictDigest :: string where "PartitionResidualConflictDigest = ''partition_conflict_digest''"
definition PartitionResidualStaleFence :: string where "PartitionResidualStaleFence = ''partition_stale_fence''"
definition PartitionResidualStaleEpoch :: string where "PartitionResidualStaleEpoch = ''partition_stale_epoch''"
definition PartitionResidualDuplicateConverged :: string where "PartitionResidualDuplicateConverged = ''partition_duplicate_converged''"
definition PartitionResidualMixedFramesRejected :: string where
  "PartitionResidualMixedFramesRejected = ''partition_mixed_frames_rejected''"
definition PartitionResidualNoCommitted :: string where "PartitionResidualNoCommitted = ''partition_no_committed''"

definition EvaluateDuplicateFill :: "string \<Rightarrow> string \<Rightarrow> PartitionOutcome" where
  "EvaluateDuplicateFill existing0 candidate0 =
     (let e = to_lower (trim_space existing0); c = to_lower (trim_space candidate0);
          out = (\<lambda>a r. \<lparr> po_Action = a, po_Residual = r, po_ExistingDigest = e, po_CandidateDigest = c \<rparr>) in
      if e = [] then out PartitionActionStart PartitionResidualNoCommitted
      else if c = [] then out PartitionActionReject PartitionResidualConflictDigest
      else if equal_fold e c then out PartitionActionConverge PartitionResidualDuplicateConverged
      else out PartitionActionConflict PartitionResidualConflictDigest)"

definition EvaluateStaleFence :: "64 word \<Rightarrow> 64 word \<Rightarrow> apperr option" where
  "EvaluateStaleFence expected provided =
     (if expected \<noteq> provided then Some (newErr CodePolicyDenial PartitionResidualStaleFence) else None)"

definition EvaluateStaleEpoch :: "bool \<Rightarrow> 64 word \<Rightarrow> 64 word \<Rightarrow> apperr option" where
  "EvaluateStaleEpoch completed completedFence providedFence =
     (if \<not> completed then EvaluateStaleFence completedFence providedFence
      else if completedFence = providedFence then None
      else Some (newErr CodePolicyDenial PartitionResidualStaleEpoch))"

text \<open>The status of a mapping is compared as text in Go; the text is \<open>committed\<close> or \<open>quarantined\<close>.\<close>

record CommittedMapping =
  cm_LocatorHash :: string
  cm_ManifestDigest :: string
  cm_GenerationID :: int
  cm_Status :: FleetMappingStatus

definition EvaluateManifestConflict :: "CommittedMapping option \<Rightarrow> WireManifest \<Rightarrow> PartitionOutcome" where
  "EvaluateManifestConflict committed candidate =
     (let decide = (\<lambda>d. let digest = to_lower (trim_space d) in
            case committed of
              None \<Rightarrow> \<lparr> po_Action = PartitionActionStart, po_Residual = PartitionResidualNoCommitted,
                       po_ExistingDigest = [], po_CandidateDigest = digest \<rparr>
            | Some c \<Rightarrow>
                if cm_Status c \<noteq> FleetMappingCommitted then
                  \<lparr> po_Action = PartitionActionStart, po_Residual = PartitionResidualNoCommitted,
                    po_ExistingDigest = [], po_CandidateDigest = digest \<rparr>
                else let out = EvaluateDuplicateFill (to_lower (trim_space (cm_ManifestDigest c))) digest in
                  if po_Action out = PartitionActionConverge
                  then out\<lparr> po_Residual := PartitionResidualDuplicateConverged \<rparr> else out) in
      case DigestWireManifest candidate of
        Inr d \<Rightarrow> decide d
      | Inl e \<Rightarrow> let d = to_lower (trim_space (wm_ManifestDigest candidate)) in
          if d = [] then \<lparr> po_Action = PartitionActionReject, po_Residual = ''invalid manifest'',
                           po_ExistingDigest = [], po_CandidateDigest = [] \<rparr>
          else decide d)"

section \<open>Planning and validating an import\<close>

record ImportFrameBytes =
  ib_Seq :: int
  ib_PureZstd :: string

datatype ImportAction = ImportActionNone | ImportActionStart | ImportActionIdempotent | ImportActionRejectStale

record ImportPlan =
  ip_Action :: ImportAction
  ip_LocatorHash :: string
  ip_ManifestDigest :: string
  ip_Residual :: string

definition PlanImport ::
  "MemoryTombstoneStore option \<Rightarrow> int \<Rightarrow> CommittedMapping option \<Rightarrow> WireManifest \<Rightarrow> ImportPlan \<times> apperr option" where
  "PlanImport ts now existing m =
     (let no = (\<lambda>a r. \<lparr> ip_Action = a, ip_LocatorHash = [], ip_ManifestDigest = [], ip_Residual = r \<rparr>) in
      case ValidateWireManifest m of
        Some e \<Rightarrow> (no ImportActionRejectStale ''invalid manifest'', Some e)
      | None \<Rightarrow>
      (case Manifest_Digest (ToManifestV1 m) of
        Inl e \<Rightarrow> (no ImportActionNone [], Some e)
      | Inr digest \<Rightarrow>
          if wm_ManifestDigest m \<noteq> [] \<and> \<not> equal_fold (wm_ManifestDigest m) digest then
            (no ImportActionRejectStale ''manifest digest mismatch'',
             Some (fc_bad ''import manifest_digest does not match content''))
          else let lh = to_lower (trim_space (wm_LocatorHash m));
                   plan = (\<lambda>a r. \<lparr> ip_Action = a, ip_LocatorHash = lh, ip_ManifestDigest = digest, ip_Residual = r \<rparr>) in
            case TombstoneBlocks ts lh digest now of
              (True, res) \<Rightarrow> (plan ImportActionRejectStale res, Some (newErr CodePolicyDenial ''tombstoned fleet object''))
            | (False, _) \<Rightarrow>
                let outcome = EvaluateManifestConflict existing (m\<lparr> wm_ManifestDigest := digest \<rparr>) in
                case po_Action outcome of
                  PartitionActionStart \<Rightarrow> (plan ImportActionStart [], None)
                | PartitionActionConverge \<Rightarrow> (plan ImportActionIdempotent (po_Residual outcome), None)
                | PartitionActionConflict \<Rightarrow> (plan ImportActionRejectStale (po_Residual outcome),
                    Some (newErr CodePolicyDenial ''conflicting fleet object version''))
                | PartitionActionReject \<Rightarrow>
                    (plan ImportActionRejectStale (if po_Residual outcome = [] then ''partition reject'' else po_Residual outcome),
                     Some (newErr CodePolicyDenial ''import partition reject''))))"

text \<open>The map from sequences to frames of the manifest: a later frame with the same sequence wins.\<close>

definition manBySeq :: "WireManifest \<Rightarrow> int \<rightharpoonup> WireFrame" where
  "manBySeq m = map_of (rev (map (\<lambda>f. (wf_Seq f, f)) (wm_Frames m)))"

fun validateSubset :: "WireManifest \<Rightarrow> int list \<Rightarrow> ImportFrameBytes list \<Rightarrow> apperr option" where
  "validateSubset m seen [] = None"
| "validateSubset m seen (f # fs) =
     (if ib_Seq f < 0 then Some (fc_bad ''import frame seq negative'')
      else if ib_Seq f \<in> set seen then Some (fc_bad ''import duplicate frame seq'')
      else case manBySeq m (ib_Seq f) of
        None \<Rightarrow> Some (fc_bad ''import frame seq not in manifest'')
      | Some wfr \<Rightarrow>
          let z = ib_PureZstd f in
          if z = [] then Some (fc_bad ''import frame empty'')
          else if int (length z) > MaxZstdFrameBytes then Some (newErr CodeQuota ''import frame exceeds max zstd size'')
          else if has_prefix z CryptoMagic then Some (fc_bad ''import frame must not be AEAD envelope'')
          else if int (length z) \<noteq> wf_ZstdSize wfr then Some (newErr CodeCorruptCache ''import zstd size mismatch'')
          else if \<not> equal_fold (hexSum z) (wf_ZstdSHA256 wfr) then Some (newErr CodeCorruptCache ''import zstd sha256 mismatch'')
          else validateSubset m (ib_Seq f # seen) fs)"

definition ValidateImportFrameSubset :: "WireManifest \<Rightarrow> ImportFrameBytes list \<Rightarrow> apperr option" where
  "ValidateImportFrameSubset m frames =
     (case ValidateWireManifest m of Some e \<Rightarrow> Some e | None \<Rightarrow> validateSubset m [] frames)"

definition ValidateImportFrames :: "WireManifest \<Rightarrow> ImportFrameBytes list \<Rightarrow> apperr option" where
  "ValidateImportFrames m frames =
     (case ValidateWireManifest m of Some e \<Rightarrow> Some e
      | None \<Rightarrow>
          if length frames \<noteq> length (wm_Frames m) then Some (fc_bad ''import frame count mismatch'')
          else case ValidateImportFrameSubset m frames of Some e \<Rightarrow> Some e
            | None \<Rightarrow> if list_all (\<lambda>wfr. wf_Seq wfr \<in> set (map ib_Seq frames)) (wm_Frames m) then None
                      else Some (fc_bad ''import missing frame seq''))"

definition AssertFramesSameManifest :: "WireManifest \<Rightarrow> ImportFrameBytes list \<Rightarrow> apperr option" where
  "AssertFramesSameManifest m frames =
     (case ValidateImportFrames m frames of None \<Rightarrow> None
      | Some e \<Rightarrow> Some (newErr CodeCorruptCache PartitionResidualMixedFramesRejected))"

section \<open>The sink interface and the import\<close>

record 's ImportSink =
  is_GetCommitted :: "string \<Rightarrow> 's \<Rightarrow> (apperr + CommittedMapping option) \<times> 's"
  is_Begin :: "WireManifest \<Rightarrow> 's \<Rightarrow> (apperr + int \<times> int) \<times> 's"
  is_WriteFrame :: "int \<Rightarrow> int \<Rightarrow> WireFrame \<Rightarrow> string \<Rightarrow> 's \<Rightarrow> apperr option \<times> 's"
  is_Commit :: "int \<Rightarrow> int \<Rightarrow> WireManifest \<Rightarrow> 's \<Rightarrow> apperr option \<times> 's"
  is_Abort :: "int \<Rightarrow> 's \<Rightarrow> apperr option \<times> 's"
  is_GetStaging :: "(string \<Rightarrow> string \<Rightarrow> 's \<Rightarrow> (apperr + (int \<times> int \<times> int list) option) \<times> 's) option"

datatype ImportStatus = ImportStatusCommitted | ImportStatusIdempotent | ImportStatusRejected | ImportStatusAborted
  | ReplicateSkipped

record ImportResult =
  ir_Status :: ImportStatus
  ir_LocatorHash :: string
  ir_ManifestDigest :: string
  ir_GenerationID :: int
  ir_ImportID :: int
  ir_Residual :: string

abbreviation importRes :: "ImportStatus \<Rightarrow> string \<Rightarrow> string \<Rightarrow> int \<Rightarrow> int \<Rightarrow> string \<Rightarrow> ImportResult" where
  "importRes st lh d g i r \<equiv> \<lparr> ir_Status = st, ir_LocatorHash = lh, ir_ManifestDigest = d, ir_GenerationID = g,
     ir_ImportID = i, ir_Residual = r \<rparr>"

abbreviation ctx_done :: apperr where "ctx_done \<equiv> newErr CodeCancelled ''context done''"

text \<open>The frames to write, by sequence; a frame that was not given is empty.\<close>

definition bytesBySeq :: "ImportFrameBytes list \<Rightarrow> int \<Rightarrow> string" where
  "bytesBySeq frames seq =
     (case map_of (rev (map (\<lambda>f. (ib_Seq f, ib_PureZstd f)) frames)) seq of None \<Rightarrow> [] | Some z \<Rightarrow> z)"

text \<open>The loop over the frames of the manifest: \<open>None\<close> when all are written, else the status of the
  context or the error of the sink.\<close>

fun importLoop :: "'s ImportSink \<Rightarrow> (nat \<Rightarrow> bool) \<Rightarrow> nat \<Rightarrow> int \<Rightarrow> int \<Rightarrow> (int \<Rightarrow> string) \<Rightarrow> WireFrame list \<Rightarrow> 's \<Rightarrow>
    (string \<times> apperr) option \<times> 's" where
  "importLoop sk canc k iid gen by [] s = (None, s)"
| "importLoop sk canc k iid gen by (wfr # wfrs) s =
     (if canc k then (Some (''cancelled'', ctx_done), s)
      else case is_WriteFrame sk iid gen wfr (by (wf_Seq wfr)) s of
        (Some e, s') \<Rightarrow> (Some (''frame write failed'', e), s')
      | (None, s') \<Rightarrow> importLoop sk canc (Suc k) iid gen by wfrs s')"

definition RunImport ::
  "MemoryTombstoneStore option \<Rightarrow> int \<Rightarrow> 's ImportSink option \<Rightarrow> (nat \<Rightarrow> bool) \<Rightarrow> WireManifest \<Rightarrow> ImportFrameBytes list \<Rightarrow>
    's \<Rightarrow> ImportResult \<times> apperr option \<times> 's" where
  "RunImport ts now sko canc m0 frames s =
     (case sko of None \<Rightarrow> (importRes ImportStatusRejected [] [] 0 0 ''import sink nil'', Some (newErr CodeInternal ''import sink nil''), s)
      | Some sk \<Rightarrow>
      if canc 0 then (importRes ImportStatusAborted [] [] 0 0 ''cancelled'', Some ctx_done, s)
      else case ValidateImportFrames m0 frames of
        Some e \<Rightarrow> (importRes ImportStatusRejected [] [] 0 0 ''frame validation failed'', Some e, s)
      | None \<Rightarrow>
      (case Manifest_Digest (ToManifestV1 m0) of
        Inl e \<Rightarrow> (importRes ImportStatusRejected [] [] 0 0 [], Some e, s)
      | Inr digest \<Rightarrow>
      let m = m0\<lparr> wm_ManifestDigest := digest, wm_LocatorHash := to_lower (trim_space (wm_LocatorHash m0)) \<rparr>;
          lh = wm_LocatorHash m in
      (case is_GetCommitted sk lh s of
        (Inl e, s1) \<Rightarrow> (importRes ImportStatusRejected [] [] 0 0 ''mapping lookup failed'', Some e, s1)
      | (Inr existing, s1) \<Rightarrow>
      (case PlanImport ts now existing m of (plan, perr) \<Rightarrow>
        if perr \<noteq> None \<and> ip_Action plan = ImportActionRejectStale then
          (importRes ImportStatusRejected (ip_LocatorHash plan) (ip_ManifestDigest plan) 0 0 (ip_Residual plan), perr, s1)
        else if ip_Action plan = ImportActionIdempotent then
          (importRes ImportStatusIdempotent (ip_LocatorHash plan) (ip_ManifestDigest plan)
             (case existing of None \<Rightarrow> 0 | Some c \<Rightarrow> cm_GenerationID c) 0 (ip_Residual plan), None, s1)
        else case is_Begin sk m s1 of
          (Inl e, s2) \<Rightarrow> (importRes ImportStatusRejected [] [] 0 0 ''begin failed'', Some e, s2)
        | (Inr (iid, gen), s2) \<Rightarrow>
        (case importLoop sk canc 1 iid gen (bytesBySeq frames) (wm_Frames m) s2 of
          (Some (r, e), s3) \<Rightarrow>
            (if r = ''cancelled'' then importRes ImportStatusAborted [] [] gen iid r
             else importRes ImportStatusAborted lh digest gen iid r, Some e, snd (is_Abort sk iid s3))
        | (None, s3) \<Rightarrow>
        (case is_Commit sk iid gen m s3 of
          (Some e, s4) \<Rightarrow> (importRes ImportStatusAborted lh digest gen iid ''commit failed'', Some e, snd (is_Abort sk iid s4))
        | (None, s4) \<Rightarrow> (importRes ImportStatusCommitted lh digest gen iid [], None, s4)))))))"

section \<open>Replication with resumption\<close>

definition MissingFrameSeqs :: "WireManifest \<Rightarrow> int list \<Rightarrow> int list" where
  "MissingFrameSeqs m have = filter (\<lambda>q. q \<notin> set have) (map wf_Seq (wm_Frames m))"

definition FilterImportFrames :: "ImportFrameBytes list \<Rightarrow> int list \<Rightarrow> ImportFrameBytes list" where
  "FilterImportFrames frames seqs = (if seqs = [] then [] else filter (\<lambda>f. ib_Seq f \<in> set seqs) frames)"

record ReplicateResult =
  rr_Status :: ImportStatus
  rr_LocatorHash :: string
  rr_ManifestDigest :: string
  rr_FramesTransferred :: nat
  rr_GenerationID :: int
  rr_Residual :: string

abbreviation replRes :: "ImportStatus \<Rightarrow> string \<Rightarrow> string \<Rightarrow> nat \<Rightarrow> int \<Rightarrow> string \<Rightarrow> ReplicateResult" where
  "replRes st lh d n g r \<equiv> \<lparr> rr_Status = st, rr_LocatorHash = lh, rr_ManifestDigest = d, rr_FramesTransferred = n,
     rr_GenerationID = g, rr_Residual = r \<rparr>"

definition residualResume :: "bool \<Rightarrow> string" where
  "residualResume resuming = (if resuming then ''resume_missing_frames'' else [])"

text \<open>The loop over the frames that are to be written: how many were, and what ended it.\<close>

fun replicateLoop :: "'s ImportSink \<Rightarrow> (nat \<Rightarrow> bool) \<Rightarrow> nat \<Rightarrow> int \<Rightarrow> int \<Rightarrow> (int \<Rightarrow> string) \<Rightarrow> int list \<Rightarrow> WireFrame list \<Rightarrow> nat \<Rightarrow> 's \<Rightarrow>
    (string \<times> apperr) option \<times> nat \<times> 's" where
  "replicateLoop sk canc k iid gen by need [] written s = (None, written, s)"
| "replicateLoop sk canc k iid gen by need (wfr # wfrs) written s =
     (if wf_Seq wfr \<notin> set need then replicateLoop sk canc k iid gen by need wfrs written s
      else if canc k then (Some (''cancelled'', ctx_done), written, s)
      else case is_WriteFrame sk iid gen wfr (by (wf_Seq wfr)) s of
        (Some e, s') \<Rightarrow> (Some (''frame write failed'', e), written, s')
      | (None, s') \<Rightarrow> replicateLoop sk canc (Suc k) iid gen by need wfrs (Suc written) s')"

text \<open>From the staging import on: \<open>present\<close> are its durable frames, \<open>resume\<close> its ids if there is one.\<close>

definition replicateInto ::
  "'s ImportSink \<Rightarrow> (nat \<Rightarrow> bool) \<Rightarrow> WireManifest \<Rightarrow> ImportFrameBytes list \<Rightarrow> (int \<times> int) option \<Rightarrow> int list \<Rightarrow> 's \<Rightarrow>
    ReplicateResult \<times> apperr option \<times> 's" where
  "replicateInto sk canc m frames resume present s =
     (let lh = wm_LocatorHash m; digest = wm_ManifestDigest m; missing = MissingFrameSeqs m present;
          toWrite = FilterImportFrames frames missing in
      case ValidateImportFrameSubset m toWrite of
        Some e \<Rightarrow> (replRes ImportStatusRejected lh digest 0 0 ''frame validation failed'', Some e, s)
      | None \<Rightarrow>
      if \<not> list_all (\<lambda>q. q \<in> set (map ib_Seq toWrite)) missing then
        (if resume = None then (replRes ImportStatusRejected lh digest 0 0 ''incomplete_frame_set'',
             Some (fc_bad ''replicate requires full sealed frame set for atomic commit''), s)
         else (replRes ImportStatusRejected lh digest 0 0 ''incomplete_missing_set'',
             Some (fc_bad ''replicate resume missing frames incomplete''), s))
      else case (case resume of Some ig \<Rightarrow> (Inr ig, s) | None \<Rightarrow> is_Begin sk m s) of
        (Inl e, s1) \<Rightarrow> (replRes ImportStatusRejected [] [] 0 0 ''begin failed'', Some e, s1)
      | (Inr (iid, gen), s1) \<Rightarrow>
        if missing = [] then
          (case is_Commit sk iid gen m s1 of
             (Some e, s2) \<Rightarrow> (replRes ImportStatusAborted lh digest 0 gen ''commit failed'', Some e, snd (is_Abort sk iid s2))
           | (None, s2) \<Rightarrow> (replRes ImportStatusCommitted lh digest 0 gen ''staging_commit_only'', None, s2))
        else (case replicateLoop sk canc 1 iid gen (bytesBySeq toWrite) (map ib_Seq toWrite) (wm_Frames m) 0 s1 of
          (Some (r, e), written, s2) \<Rightarrow> (replRes ImportStatusAborted lh digest written gen r, Some e, s2)
        | (None, written, s2) \<Rightarrow>
          (case is_Commit sk iid gen m s2 of
             (Some e, s3) \<Rightarrow> (replRes ImportStatusAborted lh digest written gen ''commit failed'', Some e, s3)
           | (None, s3) \<Rightarrow> (replRes ImportStatusCommitted lh digest written gen (residualResume (resume \<noteq> None)), None, s3))))"

definition ReplicateSealed ::
  "MemoryTombstoneStore option \<Rightarrow> int \<Rightarrow> 's ImportSink option \<Rightarrow> (nat \<Rightarrow> bool) \<Rightarrow> WireManifest \<Rightarrow> ImportFrameBytes list \<Rightarrow>
    's \<Rightarrow> ReplicateResult \<times> apperr option \<times> 's" where
  "ReplicateSealed ts now sko canc m0 frames s =
     (case sko of None \<Rightarrow> (replRes ImportStatusRejected [] [] 0 0 ''sink nil'', Some (newErr CodeInternal ''replicate sink nil''), s)
      | Some sk \<Rightarrow>
      if canc 0 then (replRes ImportStatusAborted [] [] 0 0 ''cancelled'', Some ctx_done, s)
      else case ValidateWireManifest m0 of
        Some e \<Rightarrow> (replRes ImportStatusRejected [] [] 0 0 ''invalid manifest'', Some e, s)
      | None \<Rightarrow>
      (case DigestWireManifest m0 of
        Inl e \<Rightarrow> (replRes ImportStatusRejected [] [] 0 0 [], Some e, s)
      | Inr digest \<Rightarrow>
      let m = m0\<lparr> wm_ManifestDigest := digest, wm_LocatorHash := to_lower (trim_space (wm_LocatorHash m0)) \<rparr>;
          lh = wm_LocatorHash m in
      (case TombstoneBlocks ts lh digest now of
        (True, res) \<Rightarrow> (replRes ImportStatusRejected lh digest 0 0 res, Some (newErr CodePolicyDenial ''tombstoned fleet object''), s)
      | (False, _) \<Rightarrow>
      (case is_GetCommitted sk lh s of
        (Inl e, s1) \<Rightarrow> (replRes ImportStatusRejected [] [] 0 0 ''lookup failed'', Some e, s1)
      | (Inr existing, s1) \<Rightarrow>
        let action = (case existing of None \<Rightarrow> PartitionActionStart | Some c \<Rightarrow> po_Action (EvaluateManifestConflict existing m)) in
        if action = PartitionActionConverge then
          (replRes ImportStatusIdempotent lh digest 0 (case existing of None \<Rightarrow> 0 | Some c \<Rightarrow> cm_GenerationID c)
             PartitionResidualDuplicateConverged, None, s1)
        else if action = PartitionActionConflict then
          (replRes ImportStatusRejected lh digest 0 0 PartitionResidualConflictDigest,
           Some (newErr CodePolicyDenial ''conflicting fleet object version''), s1)
        else (case is_GetStaging sk of
          None \<Rightarrow> replicateInto sk canc m frames None [] s1
        | Some get \<Rightarrow>
          (case get lh digest s1 of
            (Inl e, s2) \<Rightarrow> (replRes ImportStatusRejected [] [] 0 0 ''staging lookup failed'', Some e, s2)
          | (Inr None, s2) \<Rightarrow> replicateInto sk canc m frames None [] s2
          | (Inr (Some (iid, gen, seqs)), s2) \<Rightarrow> replicateInto sk canc m frames (Some (iid, gen)) seqs s2))))))"

end
