(* ===== verification/PeerImport.thy ===== *)
theory PeerImport
  imports FleetImport
begin

text \<open>
  The local side of a peer import: the import journal and the mapping of published objects
  (\<open>internal/store/fleet_mapping.go\<close>, \<open>QuarantineFleetMapping\<close> of \<open>fleet_recover.go\<close>) and the sink over
  them (\<open>internal/store/peer_import.go\<close>). As in \<open>FleetStore\<close>, \<open>flt k\<close> is whether the \<open>k\<close>-th statement of an
  operation fails. The sink draws these functions from its field \<open>ps_fault\<close>, one for each call, and the
  nonces from \<open>ps_nonce\<close>, so that a state fixes what is to come and a theorem over all states is one over
  all failures.
\<close>

section \<open>Mapping and journal\<close>

definition norm_hash :: "string \<Rightarrow> string" where "norm_hash h = to_lower (trim_space h)"

definition GetCommittedFleetMapping :: "bool \<Rightarrow> string \<Rightarrow> Meta \<Rightarrow> apperr + FleetObjectMapping option" where
  "GetCommittedFleetMapping fails locatorHash m =
     (let lh = norm_hash locatorHash in
      if length lh \<noteq> 64 then Inl (fc_bad ''locator_hash invalid'')
      else if fails then Inl (newErr CodeCorruptCache ''fleet mapping lookup'')
      else Inr (List.find (\<lambda>r. fm_LocatorHash r = lh \<and> fm_Status r = FleetMappingCommitted) (mt_mappings m)))"

definition BeginFleetImport :: "(nat \<Rightarrow> bool) \<Rightarrow> string \<Rightarrow> string \<Rightarrow> int \<Rightarrow> Meta \<Rightarrow> (apperr + int \<times> int) \<times> Meta" where
  "BeginFleetImport flt locatorHash manifestDigest framesTotal m =
     (let lh = norm_hash locatorHash; digest = norm_hash manifestDigest in
      if length lh \<noteq> 64 \<or> length digest \<noteq> 64 then (Inl (fc_bad ''locator/manifest hash invalid''), m)
      else if framesTotal < 1 then (Inl (fc_bad ''frames_total invalid''), m)
      else let n = (case GetLatestGeneration (flt 0) ''fleet-import'' lh 1 m of
                      Inr (Some e) \<Rightarrow> lg_Generation e + 1 | _ \<Rightarrow> 1);
               g = \<lparr> lg_ID = 0, lg_Profile = ''fleet-import'', lg_Job = lh, lg_Build = 1, lg_Generation = n,
                     lg_Sealed = False, lg_JenkinsOffset = 0, lg_MoreData = True, lg_BuildComplete = False,
                     lg_PackedPackID = [], lg_L1Released = False \<rparr> in
        case InsertGeneration (flt 1) g m of
          (Inl e, m1) \<Rightarrow> (Inl e, m1)
        | (Inr gid, m1) \<Rightarrow>
            if flt 2 then (Inl (newErr CodeInternal ''fleet import journal insert''), m1)
            else let i = mt_lastImport m1 + 1 in
              (Inr (i, gid), m1\<lparr> mt_lastImport := i, mt_journal := mt_journal m1 @
                 [\<lparr> fj_ID = i, fj_LocatorHash = lh, fj_ManifestDigest = digest, fj_Status = FleetImportStaging,
                    fj_GenerationID = gid, fj_FramesDone = 0, fj_FramesTotal = framesTotal \<rparr>] \<rparr>))"

definition AdvanceFleetImportFrames :: "bool \<Rightarrow> int \<Rightarrow> int \<Rightarrow> Meta \<Rightarrow> apperr option \<times> Meta" where
  "AdvanceFleetImportFrames fails importID framesDone m =
     (if importID \<le> 0 \<or> framesDone < 0 then (Some (fc_bad ''import progress invalid''), m)
      else if fails then (Some (newErr CodeInternal ''fleet import progress''), m)
      else let hit = (\<lambda>j. fj_ID j = importID \<and> fj_Status j = FleetImportStaging);
               m' = m\<lparr> mt_journal := map (\<lambda>j. if hit j then j\<lparr> fj_FramesDone := framesDone \<rparr> else j) (mt_journal m) \<rparr> in
        if length (filter hit (mt_journal m)) \<noteq> 1 then (Some (newErr CodeNotFound ''fleet import not staging''), m')
        else (None, m'))"

definition findImport :: "int \<Rightarrow> Meta \<Rightarrow> FleetImportJournal option" where
  "findImport importID m = List.find (\<lambda>j. fj_ID j = importID) (mt_journal m)"

text \<open>Before anything is sealed: the journal, the number of chunks, and their sequences.\<close>

definition commitGate :: "(nat \<Rightarrow> bool) \<Rightarrow> int \<Rightarrow> int \<Rightarrow> string \<Rightarrow> Meta \<Rightarrow> apperr option" where
  "commitGate flt importID generationID digest m =
     (if flt 0 then Some (newErr CodeInternal ''fleet import read'')
      else case findImport importID m of
        None \<Rightarrow> Some (newErr CodeNotFound ''fleet import not found'')
      | Some j \<Rightarrow>
          if fj_Status j \<noteq> FleetImportStaging \<or> fj_GenerationID j \<noteq> generationID \<or> \<not> equal_fold (fj_ManifestDigest j) digest
          then Some (newErr CodePolicyDenial ''fleet import not staging for commit'')
          else if fj_FramesTotal j < 1 \<or> fj_FramesDone j \<noteq> fj_FramesTotal j then
            Some (newErr CodePolicyDenial ''fleet import incomplete: frames_done != frames_total'')
          else if flt 1 then Some (newErr CodeInternal ''fleet import chunk count'')
          else if int (length (chunksOf generationID m)) \<noteq> fj_FramesTotal j then
            Some (newErr CodePolicyDenial ''fleet import incomplete: chunk count mismatch'')
          else if flt 2 then Some (newErr CodeInternal ''fleet import chunk seq scan'')
          else let seqs = map ch_Seq (chunksOf generationID m) in
            if foldr min seqs (hd (seqs @ [- 1])) \<noteq> 0 \<or> foldr max seqs (hd (seqs @ [- 1])) \<noteq> fj_FramesTotal j - 1 \<or>
               int (length (remdups seqs)) \<noteq> fj_FramesTotal j
            then Some (newErr CodePolicyDenial ''fleet import incomplete: frame seq not contiguous'') else None)"

definition journalCommitted :: "int \<Rightarrow> Meta \<Rightarrow> Meta" where
  "journalCommitted importID m =
     m\<lparr> mt_journal := map (\<lambda>j. if fj_ID j = importID then j\<lparr> fj_Status := FleetImportCommitted \<rparr> else j) (mt_journal m) \<rparr>"

text \<open>The publishing transaction; a failed statement leaves the tables as they were.\<close>

definition commitTx ::
  "(nat \<Rightarrow> bool) \<Rightarrow> int \<Rightarrow> int \<Rightarrow> string \<Rightarrow> string \<Rightarrow> string \<Rightarrow> string \<Rightarrow> string \<Rightarrow> Meta \<Rightarrow> apperr option \<times> Meta" where
  "commitTx flt importID generationID lh digest fleetID cachePool controllerID m =
     (if flt 5 then (Some (newErr CodeInternal ''fleet commit begin''), m)
      else case findImport importID m of
        None \<Rightarrow> (Some (newErr CodeNotFound ''fleet import not found''), m)
      | Some j \<Rightarrow>
          if fj_Status j \<noteq> FleetImportStaging \<or> fj_GenerationID j \<noteq> generationID \<or> \<not> equal_fold (fj_ManifestDigest j) digest
          then (Some (newErr CodePolicyDenial ''fleet import not staging for commit''), m)
          else if fj_FramesDone j \<noteq> fj_FramesTotal j \<or> fj_FramesTotal j < 1 then
            (Some (newErr CodePolicyDenial ''fleet import incomplete: frames_done != frames_total''), m)
          else if flt 6 then (Some (newErr CodeInternal ''fleet mapping check''), m)
          else let row = \<lparr> fm_LocatorHash = lh, fm_ManifestDigest = digest, fm_FleetID = fleetID, fm_CachePool = cachePool,
                     fm_ControllerID = controllerID, fm_GenerationID = generationID, fm_Status = FleetMappingCommitted \<rparr> in
            case List.find (\<lambda>r. fm_LocatorHash r = lh) (mt_mappings m) of
              Some r \<Rightarrow>
                if fm_Status r = FleetMappingCommitted then
                  (if \<not> equal_fold (fm_ManifestDigest r) digest then
                     (Some (newErr CodePolicyDenial ''conflicting fleet object version''), m)
                   else if flt 7 then (Some (newErr CodeInternal ''existing mapping chunk count''), m)
                   else if int (length (chunksOf (fm_GenerationID r) m)) \<noteq> fj_FramesTotal j then
                     (Some (newErr CodeCorruptCache ''existing mapping incomplete; refuse idempotent commit''), m)
                   else if flt 8 then (Some (newErr CodeInternal ''fleet import journal commit''), m)
                   else (None, journalCommitted importID m))
                else if flt 9 then (Some (newErr CodeInternal ''fleet commit''), m)
                else (None, journalCommitted importID
                        (m\<lparr> mt_mappings := map (\<lambda>r. if fm_LocatorHash r = lh then row else r) (mt_mappings m) \<rparr>))
            | None \<Rightarrow>
                if flt 9 then (Some (newErr CodeInternal ''fleet commit''), m)
                else (None, journalCommitted importID (m\<lparr> mt_mappings := mt_mappings m @ [row] \<rparr>)))"

definition CommitFleetImport ::
  "(nat \<Rightarrow> bool) \<Rightarrow> int \<Rightarrow> int \<Rightarrow> string \<Rightarrow> string \<Rightarrow> string \<Rightarrow> string \<Rightarrow> string \<Rightarrow> int \<Rightarrow> Meta \<Rightarrow> apperr option \<times> Meta" where
  "CommitFleetImport flt importID generationID locatorHash manifestDigest fleetID cachePool controllerID totalRaw m =
     (let lh = norm_hash locatorHash; digest = norm_hash manifestDigest in
      if importID \<le> 0 \<or> generationID \<le> 0 then (Some (fc_bad ''import/generation id required''), m)
      else case commitGate flt importID generationID digest m of Some e \<Rightarrow> (Some e, m)
      | None \<Rightarrow>
      (case UpdateGenerationOffset (flt 3) generationID totalRaw False True False m of (Some e, m1) \<Rightarrow> (Some e, m1)
      | (None, m1) \<Rightarrow>
      (case SealGeneration (flt 4) generationID m1 of (Some e, m2) \<Rightarrow> (Some e, m2)
      | (None, m2) \<Rightarrow> commitTx flt importID generationID lh digest fleetID cachePool controllerID m2)))"

definition AbortFleetImport :: "bool \<Rightarrow> int \<Rightarrow> Meta \<Rightarrow> apperr option \<times> Meta" where
  "AbortFleetImport fails importID m =
     (if importID \<le> 0 then (Some (fc_bad ''import id required''), m)
      else if fails then (Some (newErr CodeInternal ''fleet import abort''), m)
      else (None, m\<lparr> mt_journal := map (\<lambda>j. if fj_ID j = importID \<and> fj_Status j = FleetImportStaging
                                          then j\<lparr> fj_Status := FleetImportAborted \<rparr> else j) (mt_journal m) \<rparr>))"

text \<open>\<open>ORDER BY id DESC LIMIT 1\<close>: the last row that matches; the sequences are in ascending order.\<close>

definition GetStagingFleetImport ::
  "(nat \<Rightarrow> bool) \<Rightarrow> string \<Rightarrow> string \<Rightarrow> Meta \<Rightarrow> apperr + (FleetImportJournal \<times> int list) option" where
  "GetStagingFleetImport flt locatorHash manifestDigest m =
     (let lh = norm_hash locatorHash; digest = norm_hash manifestDigest in
      if length lh \<noteq> 64 \<or> length digest \<noteq> 64 then Inl (fc_bad ''locator/manifest hash invalid'')
      else if flt 0 then Inl (newErr CodeCorruptCache ''staging fleet import lookup'')
      else case List.find (\<lambda>j. fj_LocatorHash j = lh \<and> to_lower (fj_ManifestDigest j) = digest \<and>
                             fj_Status j = FleetImportStaging) (rev (mt_journal m)) of
        None \<Rightarrow> Inr None
      | Some j \<Rightarrow>
          if fj_GenerationID j \<le> 0 then Inr (Some (j, []))
          else if flt 1 then Inl (newErr CodeCorruptCache ''staging chunk seq list'')
          else Inr (Some (j, sort (map ch_Seq (chunksOf (fj_GenerationID j) m)))))"

definition GetFleetImport :: "bool \<Rightarrow> int \<Rightarrow> Meta \<Rightarrow> apperr + FleetImportJournal" where
  "GetFleetImport fails importID m =
     (if fails then Inl (newErr CodeCorruptCache ''fleet import scan'')
      else case findImport importID m of
        None \<Rightarrow> Inl (newErr CodeNotFound ''fleet import not found'') | Some j \<Rightarrow> Inr j)"

definition QuarantineFleetMapping :: "bool \<Rightarrow> string \<Rightarrow> Meta \<Rightarrow> apperr option \<times> Meta" where
  "QuarantineFleetMapping fails locatorHash m =
     (let lh = norm_hash locatorHash in
      if length lh \<noteq> 64 then (Some (fc_bad ''locator_hash invalid''), m)
      else if fails then (Some (newErr CodeInternal ''fleet mapping quarantine''), m)
      else (None, m\<lparr> mt_mappings := map (\<lambda>r. if fm_LocatorHash r = lh \<and> fm_Status r = FleetMappingCommitted
                                           then r\<lparr> fm_Status := FleetMappingQuarantined \<rparr> else r) (mt_mappings m) \<rparr>))"

section \<open>The sink\<close>

record PeerImportSink =
  ps_Meta :: Meta
  ps_Files :: FrameFiles
  ps_Zstd :: "string \<Rightarrow> apperr + string"
  ps_Crypto :: "FrameCrypto option"
  ps_framesDone :: "int \<rightharpoonup> int"
  ps_fault :: "nat \<Rightarrow> nat \<Rightarrow> bool"
  ps_nonce :: "nat \<Rightarrow> string"
  ps_calls :: nat

abbreviation faults :: "PeerImportSink \<Rightarrow> nat \<Rightarrow> bool" where "faults s \<equiv> ps_fault s (ps_calls s)"

abbreviation called :: "PeerImportSink \<Rightarrow> PeerImportSink" where "called s \<equiv> s\<lparr> ps_calls := Suc (ps_calls s) \<rparr>"

definition mappingOf :: "FleetObjectMapping \<Rightarrow> CommittedMapping" where
  "mappingOf r = \<lparr> cm_LocatorHash = fm_LocatorHash r, cm_ManifestDigest = fm_ManifestDigest r,
     cm_GenerationID = fm_GenerationID r, cm_Status = fm_Status r \<rparr>"

definition ps_GetCommitted :: "string \<Rightarrow> PeerImportSink \<Rightarrow> (apperr + CommittedMapping option) \<times> PeerImportSink" where
  "ps_GetCommitted locatorHash s =
     (case GetCommittedFleetMapping (faults s 0) locatorHash (ps_Meta s) of
        Inl e \<Rightarrow> (Inl e, called s) | Inr r \<Rightarrow> (Inr (map_option mappingOf r), called s))"

definition wireDigest :: "WireManifest \<Rightarrow> apperr + string" where
  "wireDigest m = (if wm_ManifestDigest m = [] then DigestWireManifest m else Inr (wm_ManifestDigest m))"

definition ps_Begin :: "WireManifest \<Rightarrow> PeerImportSink \<Rightarrow> (apperr + int \<times> int) \<times> PeerImportSink" where
  "ps_Begin m s =
     (case wireDigest m of Inl e \<Rightarrow> (Inl e, called s)
      | Inr digest \<Rightarrow>
      (case BeginFleetImport (faults s) (wm_LocatorHash m) digest (int (length (wm_Frames m))) (ps_Meta s) of
        (Inl e, mt) \<Rightarrow> (Inl e, (called s)\<lparr> ps_Meta := mt \<rparr>)
      | (Inr (i, g), mt) \<Rightarrow> (Inr (i, g), (called s)\<lparr> ps_Meta := mt, ps_framesDone := (ps_framesDone s)(i \<mapsto> 0) \<rparr>)))"

definition ps_GetStaging ::
  "string \<Rightarrow> string \<Rightarrow> PeerImportSink \<Rightarrow> (apperr + (int \<times> int \<times> int list) option) \<times> PeerImportSink" where
  "ps_GetStaging locatorHash manifestDigest s =
     (case GetStagingFleetImport (faults s) locatorHash manifestDigest (ps_Meta s) of
        Inl e \<Rightarrow> (Inl e, called s)
      | Inr None \<Rightarrow> (Inr None, called s)
      | Inr (Some (j, seqs)) \<Rightarrow>
          let n = (if int (length seqs) > fj_FramesDone j then int (length seqs) else fj_FramesDone j) in
          (Inr (Some (fj_ID j, fj_GenerationID j, seqs)),
           (called s)\<lparr> ps_framesDone := (ps_framesDone s)(fj_ID j \<mapsto> n) \<rparr>))"

definition specOf :: "WireFrame \<Rightarrow> string \<Rightarrow> PureZstdImportSpec" where
  "specOf f z =
     \<lparr> sp_Seq = wf_Seq f, sp_RawStart = wf_RawStart f, sp_RawEnd = wf_RawEnd f, sp_LineStart = wf_LineStart f,
       sp_LineEnd = wf_LineEnd f, sp_DecodedSize = wf_DecodedSize f, sp_DecodedSHA256 = wf_DecodedSHA256 f,
       sp_ZstdSize = wf_ZstdSize f, sp_ZstdSHA256 = wf_ZstdSHA256 f, sp_PureZstd = z \<rparr>"

definition ps_WriteFrame :: "int \<Rightarrow> int \<Rightarrow> WireFrame \<Rightarrow> string \<Rightarrow> PeerImportSink \<Rightarrow> apperr option \<times> PeerImportSink" where
  "ps_WriteFrame importID generationID f z s =
     (case GetFleetImport (faults s 0) importID (ps_Meta s) of Inl e \<Rightarrow> (Some e, called s)
      | Inr j \<Rightarrow>
          if fj_Status j \<noteq> FleetImportStaging \<or> fj_GenerationID j \<noteq> generationID then
            (Some (newErr CodePolicyDenial ''import not staging''), called s)
          else case ImportPureZstdFrame (\<lambda>k. faults s (1 + k)) (ps_Zstd s) (ps_Crypto s) (ps_nonce s (ps_calls s)) generationID (specOf f z)
                      (ps_Meta s, ps_Files s) of
            (Some e, mt, fs) \<Rightarrow> (Some e, (called s)\<lparr> ps_Meta := mt, ps_Files := fs \<rparr>)
          | (None, mt, fs) \<Rightarrow>
              let base = (case ps_framesDone s importID of
                            Some cur \<Rightarrow> if cur > fj_FramesDone j then cur else fj_FramesDone j
                          | None \<Rightarrow> fj_FramesDone j);
                  done = base + 1 in
              case AdvanceFleetImportFrames (faults s 5) importID done mt of
                (e, mt') \<Rightarrow> (e, (called s)\<lparr> ps_Meta := mt', ps_Files := fs,
                                           ps_framesDone := (ps_framesDone s)(importID \<mapsto> done) \<rparr>))"

definition totalRawOf :: "WireManifest \<Rightarrow> int" where
  "totalRawOf m =
     (if wm_TotalRawBytes m \<le> 0 then fold (\<lambda>f t. if wf_RawEnd f > t then wf_RawEnd f else t) (wm_Frames m) (wm_TotalRawBytes m)
      else wm_TotalRawBytes m)"

definition ps_Commit :: "int \<Rightarrow> int \<Rightarrow> WireManifest \<Rightarrow> PeerImportSink \<Rightarrow> apperr option \<times> PeerImportSink" where
  "ps_Commit importID generationID m s =
     (case wireDigest m of Inl e \<Rightarrow> (Some e, called s)
      | Inr digest \<Rightarrow>
      (case CommitFleetImport (faults s) importID generationID (to_lower (wm_LocatorHash m)) digest (wm_FleetID m)
              (wm_CachePool m) (wm_ControllerID m) (totalRawOf m) (ps_Meta s) of
         (e, mt) \<Rightarrow> (e, (called s)\<lparr> ps_Meta := mt \<rparr>)))"

definition ps_Abort :: "int \<Rightarrow> PeerImportSink \<Rightarrow> apperr option \<times> PeerImportSink" where
  "ps_Abort importID s =
     (case AbortFleetImport (faults s 0) importID (ps_Meta s) of
        (e, mt) \<Rightarrow> (e, (called s)\<lparr> ps_Meta := mt, ps_framesDone := (ps_framesDone s)(importID := None) \<rparr>))"

definition PeerSink :: "PeerImportSink ImportSink" where
  "PeerSink = \<lparr> is_GetCommitted = ps_GetCommitted, is_Begin = ps_Begin, is_WriteFrame = ps_WriteFrame,
     is_Commit = ps_Commit, is_Abort = ps_Abort, is_GetStaging = Some ps_GetStaging \<rparr>"

end
