(* ===== verification/FleetRecover.thy ===== *)
theory FleetRecover
  imports PeerImport
begin

text \<open>
  Recovery at start-up: the health of a generation and the recovery of imports
  (\<open>internal/store/fleet_recover.go\<close>), the reconciliation of frame files with the tables
  (\<open>internal/store/recover.go\<close>). \<open>flt k j\<close> is whether statement \<open>j\<close> of round \<open>k\<close> of a loop fails. The order of
  rows stands for the order of their ids and of their times of creation.
\<close>

section \<open>Health of a generation\<close>

record GenerationHealth =
  gh_Healthy :: bool
  gh_Residual :: string
  gh_ChunkCount :: int

definition ListChunks :: "bool \<Rightarrow> int \<Rightarrow> Meta \<Rightarrow> apperr + Chunk list" where
  "ListChunks fails generationID m =
     (if generationID \<le> 0 then Inl (fc_bad ''generation_id is required'')
      else if fails then Inl (newErr CodeCorruptCache ''failed to list chunks'')
      else Inr (sort_key ch_Seq (chunksOf generationID m)))"

text \<open>The first sequence that is out of range or seen before.\<close>

fun healthSeqs :: "int \<Rightarrow> int list \<Rightarrow> Chunk list \<Rightarrow> string option" where
  "healthSeqs n seen [] = None"
| "healthSeqs n seen (c # cs) =
     (if ch_Seq c < 0 \<or> ch_Seq c \<ge> n then Some ''seq_out_of_range''
      else if ch_Seq c \<in> set seen then Some ''seq_duplicate''
      else healthSeqs n (ch_Seq c # seen) cs)"

definition seqGap :: "int \<Rightarrow> Chunk list \<Rightarrow> bool" where
  "seqGap n cs = list_ex (\<lambda>i. i \<notin> set (map ch_Seq cs)) (map int [0..<nat n])"

text \<open>The frame files: \<open>flt k\<close> is whether reading the file of chunk \<open>k\<close> fails although it exists.\<close>

fun healthFiles :: "(nat \<Rightarrow> bool) \<Rightarrow> nat \<Rightarrow> FrameFiles \<Rightarrow> Chunk list \<Rightarrow> apperr + string option" where
  "healthFiles flt k files [] = Inr None"
| "healthFiles flt k files (c # cs) =
     (case FrameAbsPath (ch_RelPath c) of
        Inl e \<Rightarrow> Inr (Some ''bad_rel_path'')
      | Inr path \<Rightarrow>
          if flt k then Inl (newErr CodeInternal ''frame file read'')
          else case files path of
            None \<Rightarrow> Inr (Some ''frame_file_missing'')
          | Some onDisk \<Rightarrow>
              if onDisk = [] then Inr (Some ''frame_file_empty'')
              else if ch_FrameSHA256 c \<noteq> [] \<and> \<not> hmacEqualHex (to_lower (ch_FrameSHA256 c)) (hexSum onDisk) then
                Inr (Some ''frame_hash_mismatch'')
              else healthFiles flt (Suc k) files cs)"

definition CheckGenerationHealth ::
  "(nat \<Rightarrow> bool) \<Rightarrow> FrameFiles \<Rightarrow> int \<Rightarrow> int \<Rightarrow> Meta \<Rightarrow> apperr + GenerationHealth" where
  "CheckGenerationHealth flt files generationID expectFrames m =
     (let sick = (\<lambda>r n. Inr \<lparr> gh_Healthy = False, gh_Residual = r, gh_ChunkCount = n \<rparr>) in
      if generationID \<le> 0 then sick ''invalid_generation'' 0
      else case GetGenerationByID (flt 0) generationID m of
        Inl e \<Rightarrow> if err_code e = CodeNotFound then sick ''generation_missing'' 0 else Inl e
      | Inr None \<Rightarrow> sick ''generation_missing'' 0
      | Inr (Some g) \<Rightarrow>
          if \<not> lg_Sealed g then sick ''generation_unsealed'' 0
          else case ListChunks (flt 1) generationID m of Inl e \<Rightarrow> Inl e
          | Inr cks \<Rightarrow>
              let n = int (length cks) in
              if n < 1 then sick ''no_chunks'' 0
              else if expectFrames > 0 \<and> n \<noteq> expectFrames then sick ''chunk_count_mismatch'' n
              else case healthSeqs n [] cks of Some r \<Rightarrow> sick r n
              | None \<Rightarrow>
                  if seqGap n cks then sick ''seq_gap'' n
                  else case healthFiles (\<lambda>k. flt (2 + k)) 0 files cks of
                    Inl e \<Rightarrow> Inl e
                  | Inr (Some r) \<Rightarrow> sick r n
                  | Inr None \<Rightarrow> Inr \<lparr> gh_Healthy = True, gh_Residual = [], gh_ChunkCount = n \<rparr>)"

section \<open>Recovery of imports\<close>

record FleetRecoverResult =
  fr_StagingAborted :: int
  fr_MappingsQuarantined :: int
  fr_HealthyMappings :: int
  fr_Residuals :: "string list"

definition ListStagingFleetImports :: "bool \<Rightarrow> Meta \<Rightarrow> apperr + FleetImportJournal list" where
  "ListStagingFleetImports fails m =
     (if fails then Inl (newErr CodeCorruptCache ''list fleet imports'')
      else Inr (filter (\<lambda>j. fj_Status j = FleetImportStaging) (mt_journal m)))"

definition listFleetMappingsByStatus :: "bool \<Rightarrow> FleetMappingStatus \<Rightarrow> Meta \<Rightarrow> apperr + FleetObjectMapping list" where
  "listFleetMappingsByStatus fails status m =
     (if fails then Inl (newErr CodeCorruptCache ''list fleet mappings'')
      else Inr (filter (\<lambda>r. fm_Status r = status) (mt_mappings m)))"

definition GetFleetMappingAny :: "bool \<Rightarrow> string \<Rightarrow> Meta \<Rightarrow> apperr + FleetObjectMapping option" where
  "GetFleetMappingAny fails locatorHash m =
     (let lh = norm_hash locatorHash in
      if length lh \<noteq> 64 then Inl (fc_bad ''locator_hash invalid'')
      else if fails then Inl (newErr CodeCorruptCache ''fleet mapping any'')
      else Inr (List.find (\<lambda>r. fm_LocatorHash r = lh) (mt_mappings m)))"

definition noted :: "string \<Rightarrow> string list \<Rightarrow> string list" where
  "noted code set0 = (if code \<in> set set0 then set0 else code # set0)"

text \<open>Step 1: every staging import is aborted. The context is looked at before each.\<close>

fun abortStaging ::
  "(nat \<Rightarrow> bool) \<Rightarrow> (nat \<Rightarrow> bool) \<Rightarrow> nat \<Rightarrow> FleetImportJournal list \<Rightarrow> FleetRecoverResult \<Rightarrow> Meta \<Rightarrow>
    apperr option \<times> FleetRecoverResult \<times> Meta" where
  "abortStaging canc flt k [] out m = (None, out, m)"
| "abortStaging canc flt k (j # js) out m =
     (if canc k then (Some (newErr CodeCancelled ''context done''), out, m)
      else case AbortFleetImport (flt k) (fj_ID j) m of
        (Some e, m') \<Rightarrow> (Some e, out, m')
      | (None, m') \<Rightarrow>
          abortStaging canc flt (Suc k) js
            (out\<lparr> fr_StagingAborted := fr_StagingAborted out + 1, fr_Residuals := noted ''staging_aborted'' (fr_Residuals out) \<rparr>) m')"

text \<open>The number of frames of the last committed import of a version; an unreadable one is not expected.\<close>

definition expectedFrames :: "bool \<Rightarrow> FleetObjectMapping \<Rightarrow> Meta \<Rightarrow> int" where
  "expectedFrames fails r m =
     (if fails then 0
      else case List.find (\<lambda>j. fj_LocatorHash j = fm_LocatorHash r \<and> fj_ManifestDigest j = fm_ManifestDigest r \<and>
                              fj_Status j = FleetImportCommitted) (rev (mt_journal m)) of
        None \<Rightarrow> 0 | Some j \<Rightarrow> if fj_FramesTotal j > 0 then fj_FramesTotal j else 0)"

text \<open>Step 2: every committed mapping is checked and quarantined when it is not healthy.\<close>

fun quarantineUnhealthy ::
  "(nat \<Rightarrow> bool) \<Rightarrow> (nat \<Rightarrow> nat \<Rightarrow> bool) \<Rightarrow> FrameFiles \<Rightarrow> nat \<Rightarrow> FleetObjectMapping list \<Rightarrow> FleetRecoverResult \<Rightarrow> Meta \<Rightarrow>
    apperr option \<times> FleetRecoverResult \<times> Meta" where
  "quarantineUnhealthy canc flt files k [] out m = (None, out, m)"
| "quarantineUnhealthy canc flt files k (r # rs) out m =
     (if canc k then (Some (newErr CodeCancelled ''context done''), out, m)
      else case CheckGenerationHealth (\<lambda>j. flt k (2 + j)) files (fm_GenerationID r) (expectedFrames (flt k 0) r m) m of
        Inl e \<Rightarrow> (Some e, out, m)
      | Inr h \<Rightarrow>
          if gh_Healthy h then
            quarantineUnhealthy canc flt files (Suc k) rs (out\<lparr> fr_HealthyMappings := fr_HealthyMappings out + 1 \<rparr>) m
          else case QuarantineFleetMapping (flt k 1) (fm_LocatorHash r) m of
            (Some e, m') \<Rightarrow> (Some e, out, m')
          | (None, m') \<Rightarrow>
              let code = (if gh_Residual h = [] then ''quarantined'' else gh_Residual h) in
              quarantineUnhealthy canc flt files (Suc k) rs
                (out\<lparr> fr_MappingsQuarantined := fr_MappingsQuarantined out + 1, fr_Residuals := noted code (fr_Residuals out) \<rparr>) m')"

definition RecoverFleetImports ::
  "(nat \<Rightarrow> nat \<Rightarrow> bool) \<Rightarrow> (nat \<Rightarrow> nat \<Rightarrow> nat \<Rightarrow> bool) \<Rightarrow> FrameFiles \<Rightarrow> Meta \<Rightarrow> apperr option \<times> FleetRecoverResult \<times> Meta" where
  "RecoverFleetImports canc flt files m =
     (let out = \<lparr> fr_StagingAborted = 0, fr_MappingsQuarantined = 0, fr_HealthyMappings = 0, fr_Residuals = [] \<rparr> in
      case ListStagingFleetImports (flt 0 0 0) m of Inl e \<Rightarrow> (Some e, out, m)
      | Inr staging \<Rightarrow>
      (case abortStaging (canc 0) (\<lambda>k. flt 1 k 0) 0 staging out m of (Some e, out1, m1) \<Rightarrow> (Some e, out1\<lparr> fr_Residuals := [] \<rparr>, m1)
      | (None, out1, m1) \<Rightarrow>
      (case listFleetMappingsByStatus (flt 2 0 0) FleetMappingCommitted m1 of Inl e \<Rightarrow> (Some e, out1\<lparr> fr_Residuals := [] \<rparr>, m1)
      | Inr committed \<Rightarrow>
      (case quarantineUnhealthy (canc 1) (flt 3) files 0 committed out1 m1 of (Some e, out2, m2) \<Rightarrow> (Some e, out2\<lparr> fr_Residuals := [] \<rparr>, m2)
      | (None, out2, m2) \<Rightarrow> (None, out2\<lparr> fr_Residuals := sort (fr_Residuals out2) \<rparr>, m2)))))"

section \<open>Files and rows\<close>

record RecoverResult =
  rc_OrphanTempsRemoved :: int
  rc_OrphanFramesRemoved :: int
  rc_MissingFiles :: int

text \<open>The walk over the files below \<open>frames/\<close> in the order of the directory listing: \<open>flt k 0\<close> is an error of the
  walk at the \<open>k\<close>-th entry, \<open>flt k 1\<close> one of the removal.\<close>

fun walkFrames ::
  "(nat \<Rightarrow> nat \<Rightarrow> bool) \<Rightarrow> string list \<Rightarrow> nat \<Rightarrow> string list \<Rightarrow> RecoverResult \<Rightarrow> FrameFiles \<Rightarrow> apperr option \<times> RecoverResult \<times> FrameFiles" where
  "walkFrames flt known k [] res fs = (None, res, fs)"
| "walkFrames flt known k (path # paths) res fs =
     (if flt k 0 then (Some (newErr CodeInternal ''walk''), res, fs)
      else if has_suffix path ''.tmp'' then
        (if flt k 1 then (Some (newErr CodeInternal ''failed to remove orphan temp frame''), res, fs)
         else walkFrames flt known (Suc k) paths (res\<lparr> rc_OrphanTempsRemoved := rc_OrphanTempsRemoved res + 1 \<rparr>) (fs(path := None)))
      else if \<not> has_suffix path ''.zst'' \<or> path \<in> set known then walkFrames flt known (Suc k) paths res fs
      else if flt k 1 then (Some (newErr CodeInternal ''failed to remove orphan frame''), res, fs)
      else walkFrames flt known (Suc k) paths (res\<lparr> rc_OrphanFramesRemoved := rc_OrphanFramesRemoved res + 1 \<rparr>) (fs(path := None)))"

text \<open>The rows by their path; of two rows with one path the later one is kept.\<close>

definition filepathToSlash :: "string \<Rightarrow> string" where
  "filepathToSlash p = map (\<lambda>c. if c = CHR 0x5C then CHR ''/'' else c) p"

definition ListAllChunkRelPaths :: "bool \<Rightarrow> Meta \<Rightarrow> apperr + (string \<times> Chunk) list" where
  "ListAllChunkRelPaths fails m =
     (if fails then Inl (newErr CodeCorruptCache ''failed to list chunk paths'')
      else Inr (fold (\<lambda>c kv. (filepathToSlash (ch_RelPath c), c) # filter (\<lambda>p. fst p \<noteq> filepathToSlash (ch_RelPath c)) kv)
                  (mt_chunks m) []))"

text \<open>A row is named by its generation and sequence.\<close>

definition DeleteChunkRow :: "bool \<Rightarrow> Chunk \<Rightarrow> Meta \<Rightarrow> apperr option \<times> Meta" where
  "DeleteChunkRow fails c m =
     (if fails then (Some (newErr CodeInternal ''failed to delete chunk''), m)
      else (None, m\<lparr> mt_chunks := filter (\<lambda>d. (ch_GenerationID d, ch_Seq d) \<noteq> (ch_GenerationID c, ch_Seq c)) (mt_chunks m) \<rparr>))"

text \<open>Rows without a file are dropped; a file whose state cannot be read (\<open>flt k 0\<close>) counts as there.\<close>

fun dropMissing ::
  "(nat \<Rightarrow> nat \<Rightarrow> bool) \<Rightarrow> FrameFiles \<Rightarrow> nat \<Rightarrow> (string \<times> Chunk) list \<Rightarrow> RecoverResult \<Rightarrow> Meta \<Rightarrow> apperr option \<times> RecoverResult \<times> Meta" where
  "dropMissing flt fs k [] res m = (None, res, m)"
| "dropMissing flt fs k ((rel, c) # rows) res m =
     (let res' = res\<lparr> rc_MissingFiles := rc_MissingFiles res + 1 \<rparr> in
      case FrameAbsPath rel of
        Inl e \<Rightarrow> dropMissing flt fs (Suc k) rows res' (snd (DeleteChunkRow (flt k 1) c m))
      | Inr path \<Rightarrow>
          if fs path \<noteq> None \<or> flt k 0 then dropMissing flt fs (Suc k) rows res m
          else case DeleteChunkRow (flt k 1) c m of
            (Some e, m') \<Rightarrow> (Some e, res, m')
          | (None, m') \<Rightarrow> dropMissing flt fs (Suc k) rows res' m')"

text \<open>\<open>listing\<close> is what the walk finds below \<open>frames/\<close>, if the directory is there, and \<open>ord\<close> the order in which Go
  goes through a map.\<close>

definition reconcileFrames ::
  "(nat \<Rightarrow> nat \<Rightarrow> nat \<Rightarrow> bool) \<Rightarrow> string list \<Rightarrow> ((string \<times> Chunk) list \<Rightarrow> (string \<times> Chunk) list) \<Rightarrow>
    RecoverResult \<Rightarrow> Meta \<Rightarrow> FrameFiles \<Rightarrow> apperr option \<times> RecoverResult \<times> Meta \<times> FrameFiles" where
  "reconcileFrames flt listing ord res m fs =
     (case ListAllChunkRelPaths (flt 5 0 0) m of Inl e \<Rightarrow> (Some e, res, m, fs)
      | Inr known \<Rightarrow>
      (case walkFrames (flt 6) (map fst known) 0 listing res fs of (Some e, res1, fs1) \<Rightarrow> (Some e, res1, m, fs1)
      | (None, res1, fs1) \<Rightarrow>
      (case dropMissing (flt 7) fs1 0 (ord known) res1 m of (e, res2, m2) \<Rightarrow> (e, res2, m2, fs1))))"

definition recoverDataDir ::
  "(nat \<Rightarrow> nat \<Rightarrow> bool) \<Rightarrow> (nat \<Rightarrow> nat \<Rightarrow> nat \<Rightarrow> bool) \<Rightarrow> string list option \<Rightarrow> ((string \<times> Chunk) list \<Rightarrow> (string \<times> Chunk) list) \<Rightarrow>
    Meta \<Rightarrow> FrameFiles \<Rightarrow> apperr option \<times> RecoverResult \<times> FleetRecoverResult \<times> Meta \<times> FrameFiles" where
  "recoverDataDir canc flt listing ord m fs =
     (let res = \<lparr> rc_OrphanTempsRemoved = 0, rc_OrphanFramesRemoved = 0, rc_MissingFiles = 0 \<rparr>;
          none = \<lparr> fr_StagingAborted = 0, fr_MappingsQuarantined = 0, fr_HealthyMappings = 0, fr_Residuals = [] \<rparr> in
      if flt 4 0 0 then (Some (newErr CodeInternal ''failed to stat frames dir''), res, none, m, fs)
      else case (case listing of None \<Rightarrow> (None, res, m, fs) | Some paths \<Rightarrow> reconcileFrames flt paths ord res m fs) of
        (Some e, res1, m1, fs1) \<Rightarrow> (Some e, res1, none, m1, fs1)
      | (None, res1, m1, fs1) \<Rightarrow>
      (case RecoverFleetImports canc flt fs1 m1 of
        (Some e, out, m2) \<Rightarrow> (Some e, res1, none, m2, fs1)
      | (None, out, m2) \<Rightarrow> (None, res1, out, m2, fs1)))"

end
