(* ===== verification/ImportSinks.thy ===== *)
theory ImportSinks
  imports FleetImport
begin

text \<open>
  What an import promises whatever sink it runs on. The locale \<open>import_sink\<close> states the contract of the
  Go interface \<open>ImportSink\<close>: \<open>visible\<close> is the published version and generation of a locator, \<open>stored s g f\<close>
  that generation \<open>g\<close> holds frame \<open>f\<close>, verified. \<open>RunImport\<close> and \<open>ReplicateSealed\<close> are proved once inside it.
\<close>

section \<open>Digests and the manifests that are accepted\<close>

definition printing :: "char \<Rightarrow> bool" where
  "printing c = (33 \<le> (of_char c :: nat) \<and> (of_char c :: nat) < 128)"

lemma go_spaces_not_printing: "list_all (\<lambda>w. w \<noteq> [] \<and> list_all (\<lambda>c. \<not> printing c) w) go_spaces"
  by code_simp

lemma trim_space_printing:
  assumes "list_all printing s"
  shows "trim_space s = s"
proof -
  have no: "\<not> prefix w s" if "w \<in> set go_spaces" for w
  proof
    assume "prefix w s"
    moreover have "w \<noteq> []" "list_all (\<lambda>c. \<not> printing c) w"
      using that go_spaces_not_printing by (simp_all add: list_all_iff)
    ultimately show False using assms by (cases w) (auto simp: prefix_def)
  qed
  have "trim_left s = s"
    using no by (auto simp: trim_left_def find_None_iff intro!: strip_words_fix)
  moreover have no': "\<not> prefix (rev w) (rev s)" if "w \<in> set go_spaces" for w
  proof
    assume "prefix (rev w) (rev s)"
    moreover have "rev w \<noteq> []" "list_all (\<lambda>c. \<not> printing c) (rev w)"
      using that go_spaces_not_printing by (simp_all add: list_all_iff)
    ultimately show False using assms by (cases "rev w") (auto simp: prefix_def list_all_iff dest: arg_cong [where f = set])
  qed
  then have "trim_right s = s"
    by (auto simp: trim_right_def find_None_iff strip_words_fix)
  ultimately show ?thesis by (simp add: trim_space_def)
qed

lemma isHex_printing: "isHex s \<Longrightarrow> list_all printing s"
  by (auto simp: isHex_chars list_all_iff hex_rune_def printing_def Let_def)

lemma trim_space_hex: "isHex s \<Longrightarrow> trim_space s = s"
  by (rule trim_space_printing, rule isHex_printing)

lemma norm_hexSum [simp]: "trim_space (hexSum b) = hexSum b"
  by (simp add: trim_space_hex)

lemma isHex_no_slash: "isHex s \<Longrightarrow> CHR ''/'' \<notin> set s"
  by (auto simp: isHex_chars hex_rune_def Let_def)

lemma isHex_to_lower: "isHex (to_lower s) = isHex s"
proof
  assume h: "isHex (to_lower s)"
  have "hex_rune c" if "hex_rune (lower_char c)" for c
    using that by (auto simp: hex_rune_def lower_char_def Let_def split: if_splits)
  with h show "isHex s" by (auto simp: isHex_chars to_lower_def)
qed (rule isHex_lower)

definition frame_digests :: "WireFrame \<Rightarrow> bool" where
  "frame_digests f = (wf_DecodedSHA256 f \<noteq> [] \<and> wf_ZstdSHA256 f \<noteq> [])"

lemma ValidateWireManifest_ok:
  assumes "ValidateWireManifest m = None"
  shows "hash64 (wm_LocatorHash m)" and "Manifest_validate (ToManifestV1 m) = None"
    and "map wf_Seq (wm_Frames m) = map int [0..<length (wm_Frames m)]"
    and "list_all (\<lambda>f. hash64 (wf_DecodedSHA256 f) \<and> hash64 (wf_ZstdSHA256 f)) (wm_Frames m)"
    and "wm_Frames m \<noteq> []"
proof -
  let ?v = "\<lparr> mf_LocatorHash = to_lower (wm_LocatorHash m), mf_Sealed = True, mf_FormatVersion = wm_FormatVersion m,
            mf_Codec = wm_Codec m, mf_Frames = map descriptorOf (wm_Frames m),
            mf_TotalRawBytes = wm_TotalRawBytes m, mf_TotalLines = wm_TotalLines m \<rparr>"
  have v: "Manifest_validate ?v = None" and sealed: "wm_Sealed m" and lh: "hash64 (wm_LocatorHash m)"
    and frames: "wm_Frames m \<noteq> []"
    using assms by (auto simp: ValidateWireManifest_def split: if_splits option.splits)
  show "hash64 (wm_LocatorHash m)" "wm_Frames m \<noteq> []" by fact+
  have lower: "checkFrames a b c d (map lowerDigests fs) = checkFrames a b c d fs" for a b c d fs
  proof (induction fs arbitrary: a b c d)
    case (Cons f fs)
    have "(CHR ''/'' \<in> set (to_lower s)) = (CHR ''/'' \<in> set s)" if "isHex s" for s
      using isHex_no_slash that isHex_lower by blast
    then show ?case using Cons isHex_to_lower
      by (cases "isHex (fd_DecodedSHA256 f)"; cases "isHex (fd_ZstdSHA256 f)") (simp_all add: lowerDigests_def)
  qed simp
  have "Manifest_validate (ToManifestV1 m) = Manifest_validate ?v"
  proof -
    have "mf_LocatorHash (ToManifestV1 m) = mf_LocatorHash ?v" "mf_Sealed (ToManifestV1 m) = mf_Sealed ?v"
      "mf_FormatVersion (ToManifestV1 m) = mf_FormatVersion ?v" "mf_Codec (ToManifestV1 m) = mf_Codec ?v"
      "(mf_Frames (ToManifestV1 m) = []) = (mf_Frames ?v = [])"
      "mf_TotalRawBytes (ToManifestV1 m) = mf_TotalRawBytes ?v" "mf_TotalLines (ToManifestV1 m) = mf_TotalLines ?v"
      "checkFrames 0 0 0 0 (mf_Frames (ToManifestV1 m)) = checkFrames 0 0 0 0 (mf_Frames ?v)"
      using sealed lower [of 0 0 0 0 "map descriptorOf (wm_Frames m)"] by (simp_all add: ToManifestV1_def comp_def)
    then show ?thesis unfolding Manifest_validate_def by (simp only:)
  qed
  with v show "Manifest_validate (ToManifestV1 m) = None" by simp
  show "map wf_Seq (wm_Frames m) = map int [0..<length (wm_Frames m)]"
    using Manifest_frames_ok(1) [OF v] by (simp add: comp_def descriptorOf_def)
  show "list_all (\<lambda>f. hash64 (wf_DecodedSHA256 f) \<and> hash64 (wf_ZstdSHA256 f)) (wm_Frames m)"
    using Manifest_frames_ok(4) [OF v] by (simp add: frame_ok_def descriptorOf_def list.pred_map comp_def list_all_iff)
qed

text \<open>An import works on the manifest with its computed digest and its locator in lower case.\<close>

definition normalized :: "WireManifest \<Rightarrow> string \<Rightarrow> WireManifest" where
  "normalized m digest = m\<lparr> wm_ManifestDigest := digest, wm_LocatorHash := to_lower (trim_space (wm_LocatorHash m)) \<rparr>"

lemma normalized_manifest:
  assumes "ValidateWireManifest m = None" and "Manifest_Digest (ToManifestV1 m) = Inr d"
  shows "hash64 d" and "to_lower d = d" and "trim_space d = d"
    and "wm_LocatorHash (normalized m d) = to_lower (wm_LocatorHash m)"
    and "to_lower (trim_space (to_lower (wm_LocatorHash m))) = to_lower (wm_LocatorHash m)"
    and "hash64 (to_lower (wm_LocatorHash m))"
    and "wm_Frames (normalized m d) = wm_Frames m" and "wm_ManifestDigest (normalized m d) = d"
    and "ValidateWireManifest (normalized m d) = None" and "ToManifestV1 (normalized m d) = ToManifestV1 m"
    and "DigestWireManifest (normalized m d) = Inr d"
proof -
  note lh = ValidateWireManifest_ok(1) [OF assms(1)]
  obtain b where d: "d = hexSum b"
    using assms(2) by (auto simp: Manifest_Digest_def split: sum.splits)
  then show D: "hash64 d" "to_lower d = d" "trim_space d = d" by simp_all
  show l: "wm_LocatorHash (normalized m d) = to_lower (wm_LocatorHash m)"
    using lh by (simp add: normalized_def trim_space_hex)
  show L: "hash64 (to_lower (wm_LocatorHash m))" using lh isHex_lower by simp
  then show "to_lower (trim_space (to_lower (wm_LocatorHash m))) = to_lower (wm_LocatorHash m)"
    by (simp add: trim_space_hex)
  show "wm_Frames (normalized m d) = wm_Frames m" "wm_ManifestDigest (normalized m d) = d"
    by (simp_all add: normalized_def)
  show t: "ToManifestV1 (normalized m d) = ToManifestV1 m"
    using l by (simp add: ToManifestV1_def normalized_def)
  have "d \<noteq> []" using D(1) by auto
  then show v: "ValidateWireManifest (normalized m d) = None"
    using assms(1) l L lh D(1) by (auto simp: ValidateWireManifest_def normalized_def split: if_splits option.splits)
  show "DigestWireManifest (normalized m d) = Inr d"
    using v t assms(2) by (simp add: DigestWireManifest_def)
qed

definition canonical :: "string \<Rightarrow> bool" where
  "canonical d = (d \<noteq> [] \<and> to_lower d = d \<and> trim_space d = d)"

lemma EvaluateManifestConflict_canonical:
  assumes "DigestWireManifest m = Inr d" and "canonical d"
    and "\<And>e. c = Some e \<Longrightarrow> cm_Status e = FleetMappingCommitted \<and> canonical (cm_ManifestDigest e)"
  shows "po_Action (EvaluateManifestConflict c m) =
     (case c of None \<Rightarrow> PartitionActionStart
      | Some e \<Rightarrow> if cm_ManifestDigest e = d then PartitionActionConverge else PartitionActionConflict)"
  using assms by (cases c)
    (auto simp: EvaluateManifestConflict_def EvaluateDuplicateFill_def canonical_def equal_fold_def Let_def)

lemma PlanImport_normalized:
  assumes "ValidateWireManifest m = None" and "Manifest_Digest (ToManifestV1 m) = Inr d"
    and "\<And>e. c = Some e \<Longrightarrow> cm_Status e = FleetMappingCommitted \<and> canonical (cm_ManifestDigest e)"
    and "PlanImport ts now c (normalized m d) = (plan, perr)"
  shows "perr \<noteq> None \<and> ip_Action plan = ImportActionRejectStale \<or>
    perr = None \<and> ip_Action plan = ImportActionIdempotent \<and> (\<exists>e. c = Some e \<and> cm_ManifestDigest e = d) \<or>
    perr = None \<and> ip_Action plan = ImportActionStart \<and> c = None"
proof -
  note n = normalized_manifest [OF assms(1,2)]
  have can: "canonical d" using n(1-3) by (auto simp: canonical_def)
  have upd: "(normalized m d)\<lparr> wm_ManifestDigest := d \<rparr> = normalized m d" by (simp add: normalized_def)
  have act: "po_Action (EvaluateManifestConflict c (normalized m d)) =
     (case c of None \<Rightarrow> PartitionActionStart
      | Some e \<Rightarrow> if cm_ManifestDigest e = d then PartitionActionConverge else PartitionActionConflict)"
    by (rule EvaluateManifestConflict_canonical [OF n(11) can assms(3)])
  show ?thesis
    using assms(2,4) unfolding PlanImport_def
    by (auto simp: n upd act equal_fold_def Let_def split: if_splits prod.splits bool.splits option.splits)
qed

text \<open>The ways an import can go: it stops before the sink is asked, after the lookup, or when the import cannot
  be opened; or it is started.\<close>

definition importRest ::
  "'s ImportSink \<Rightarrow> (nat \<Rightarrow> bool) \<Rightarrow> WireManifest \<Rightarrow> string \<Rightarrow> ImportFrameBytes list \<Rightarrow> int \<Rightarrow> int \<Rightarrow> 's \<Rightarrow> ImportResult \<times> apperr option \<times> 's" where
  "importRest sk canc m d frames i g s =
     (let lh = wm_LocatorHash (normalized m d) in
      case importLoop sk canc 1 i g (bytesBySeq frames) (wm_Frames m) s of
          (Some (r, e), t) \<Rightarrow>
            (if r = ''cancelled'' then importRes ImportStatusAborted [] [] g i r
             else importRes ImportStatusAborted lh d g i r, Some e, snd (is_Abort sk i t))
        | (None, t) \<Rightarrow>
        (case is_Commit sk i g (normalized m d) t of
          (Some e, u) \<Rightarrow> (importRes ImportStatusAborted lh d g i ''commit failed'', Some e, snd (is_Abort sk i u))
        | (None, u) \<Rightarrow> (importRes ImportStatusCommitted lh d g i [], None, u)))"

abbreviation refused :: "ImportStatus \<Rightarrow> apperr option \<Rightarrow> bool" where
  "refused st e \<equiv> (st = ImportStatusRejected \<or> st = ImportStatusAborted) \<and> e \<noteq> None"

lemma RunImport_elim:
  assumes R: "RunImport ts now (Some sk) canc m frames s = (res, e, s')"
  obtains
    (stop) "s' = s" "refused (ir_Status res) e"
  | (looked) d c where "ValidateWireManifest m = None" "Manifest_Digest (ToManifestV1 m) = Inr d"
      "is_GetCommitted sk (to_lower (wm_LocatorHash m)) s = (c, s')"
      "refused (ir_Status res) e \<or> (\<exists>ex plan perr. c = Inr ex \<and> PlanImport ts now ex (normalized m d) = (plan, perr) \<and>
         \<not> (perr \<noteq> None \<and> ip_Action plan = ImportActionRejectStale) \<and> ip_Action plan = ImportActionIdempotent \<and> e = None \<and>
         ir_Status res = ImportStatusIdempotent \<and> ir_GenerationID res = (case ex of None \<Rightarrow> 0 | Some y \<Rightarrow> cm_GenerationID y))"
  | (unopened) d ex s1 where "ValidateWireManifest m = None" "Manifest_Digest (ToManifestV1 m) = Inr d"
      "is_GetCommitted sk (to_lower (wm_LocatorHash m)) s = (Inr ex, s1)" "refused (ir_Status res) e"
      "\<exists>x. is_Begin sk (normalized m d) s1 = (Inl x, s')"
  | (started) d ex s1 plan perr i g s2 where "ValidateWireManifest m = None" "Manifest_Digest (ToManifestV1 m) = Inr d"
      "is_GetCommitted sk (to_lower (wm_LocatorHash m)) s = (Inr ex, s1)" "PlanImport ts now ex (normalized m d) = (plan, perr)"
      "\<not> (perr \<noteq> None \<and> ip_Action plan = ImportActionRejectStale)" "ip_Action plan \<noteq> ImportActionIdempotent"
      "is_Begin sk (normalized m d) s1 = (Inr (i, g), s2)" "importRest sk canc m d frames i g s2 = (res, e, s')"
      "\<not> canc 0" "ValidateImportFrames m frames = None"
proof (cases "canc 0 \<or> ValidateImportFrames m frames \<noteq> None")
  case True
  then have "s' = s" "refused (ir_Status res) e"
    using R by (cases "ValidateImportFrames m frames"; auto simp: RunImport_def split: if_splits)+
  then show thesis using stop by simp
next
  case False
  then have go: "\<not> canc 0" "ValidateImportFrames m frames = None" by simp_all
  then have val: "ValidateWireManifest m = None" by (auto simp: ValidateImportFrames_def split: option.splits)
  then obtain d where dig: "Manifest_Digest (ToManifestV1 m) = Inr d"
    using ValidateWireManifest_ok(2) by (auto simp: Manifest_Digest_def Manifest_CanonicalBytes_def split: option.splits sum.splits)
  note n = normalized_manifest [OF val dig]
  obtain c s1 where G: "is_GetCommitted sk (to_lower (wm_LocatorHash m)) s = (c, s1)" by fastforce
  show thesis
  proof (cases c)
    case (Inl x)
    then have "s' = s1" "refused (ir_Status res) e"
      using R go dig G n(4) by (auto simp: RunImport_def Let_def normalized_def)
    then show thesis using looked [OF val dig] G by blast
  next
    case (Inr ex)
    obtain plan perr where P: "PlanImport ts now ex (normalized m d) = (plan, perr)" by fastforce
    have G': "is_GetCommitted sk (wm_LocatorHash (normalized m d)) s = (Inr ex, s1)" using G n(4) Inr by simp
    note R' = R [unfolded RunImport_def normalized_def [symmetric] Let_def, simplified go dig]
    consider (reject) "perr \<noteq> None \<and> ip_Action plan = ImportActionRejectStale"
      | (same) "\<not> (perr \<noteq> None \<and> ip_Action plan = ImportActionRejectStale)" "ip_Action plan = ImportActionIdempotent"
      | (go) "\<not> (perr \<noteq> None \<and> ip_Action plan = ImportActionRejectStale)" "ip_Action plan \<noteq> ImportActionIdempotent"
      by blast
    then show thesis
    proof cases
      case reject
      then have "s' = s1" "refused (ir_Status res) e" using R' go dig G Inr P n(4) by auto
      then show thesis using looked [OF val dig] G by blast
    next
      case same
      then have "s' = s1" "e = None" "ir_Status res = ImportStatusIdempotent"
        "ir_GenerationID res = (case ex of None \<Rightarrow> 0 | Some y \<Rightarrow> cm_GenerationID y)"
        using R' go dig G Inr P n(4) by auto
      then show thesis using looked [OF val dig G [folded \<open>s' = s1\<close>]] Inr P same by blast
    next
      case go': go
      obtain b s2 where B: "is_Begin sk (normalized m d) s1 = (b, s2)" by fastforce
      show thesis
      proof (cases b)
        case (Inl x)
        then have "s' = s2" "refused (ir_Status res) e"
          using R' go dig G Inr P n(4) go' B by auto
        then show thesis using unopened [OF val dig G [unfolded Inr]] B Inl by simp
      next
        case b: (Inr ig)
        obtain i g where ig: "ig = (i, g)" by fastforce
        have "importRest sk canc m d frames i g s2 = (res, e, s')"
          using R' G' P n(7) go' B b ig by (cases perr) (simp_all add: importRest_def Let_def)
        then show thesis using started [OF val dig G [unfolded Inr] P go' _ _ go] B b ig by simp
      qed
    qed
  qed
qed

lemma importLoop_as_replicateLoop:
  "set (map wf_Seq fs) \<subseteq> set need \<Longrightarrow> replicateLoop sk canc k i g by need fs w s = (r, n, s') \<Longrightarrow>
   importLoop sk canc k i g by fs s = (r, s')"
  by (induction fs arbitrary: k w s) (auto split: option.splits prod.splits)

text \<open>The ways a replication can go.\<close>

definition replicateRest ::
  "'s ImportSink \<Rightarrow> (nat \<Rightarrow> bool) \<Rightarrow> WireManifest \<Rightarrow> ImportFrameBytes list \<Rightarrow> bool \<Rightarrow> int list \<Rightarrow> int \<Rightarrow> int \<Rightarrow> 's \<Rightarrow> ReplicateResult \<times> apperr option \<times> 's" where
  "replicateRest sk canc m frames resuming missing i g s =
     (let lh = wm_LocatorHash m; digest = wm_ManifestDigest m; toWrite = FilterImportFrames frames missing in
      case replicateLoop sk canc 1 i g (bytesBySeq toWrite) (map ib_Seq toWrite) (wm_Frames m) 0 s of
        (Some (r, e), written, t) \<Rightarrow> (replRes ImportStatusAborted lh digest written g r, Some e, t)
      | (None, written, t) \<Rightarrow>
        (case is_Commit sk i g m t of
           (Some e, u) \<Rightarrow> (replRes ImportStatusAborted lh digest written g ''commit failed'', Some e,
                            if missing = [] then snd (is_Abort sk i u) else u)
         | (None, u) \<Rightarrow> (replRes ImportStatusCommitted lh digest written g
                          (if missing = [] then ''staging_commit_only'' else residualResume resuming), None, u)))"

lemma replicateLoop_nothing: "replicateLoop sk canc k i g by [] fs w s = (None, w, s)"
  by (induction fs) simp_all

lemma replicateInto_elim:
  assumes R: "replicateInto sk canc m frames resume present s = (res, e, s')"
  obtains
    (stop) "s' = s" "refused (rr_Status res) e"
  | (unopened) x where "resume = None" "is_Begin sk m s = (Inl x, s')" "refused (rr_Status res) e"
  | (opened) i g s1 where "resume = Some (i, g) \<and> s1 = s \<or> resume = None \<and> is_Begin sk m s = (Inr (i, g), s1)"
      "replicateRest sk canc m frames (resume \<noteq> None) (MissingFrameSeqs m present) i g s1 = (res, e, s')"
      "ValidateImportFrameSubset m (FilterImportFrames frames (MissingFrameSeqs m present)) = None"
      "set (MissingFrameSeqs m present) \<subseteq> set (map ib_Seq (FilterImportFrames frames (MissingFrameSeqs m present)))"
proof -
  let ?missing = "MissingFrameSeqs m present"
  let ?w = "FilterImportFrames frames ?missing"
  show thesis
  proof (cases "ValidateImportFrameSubset m ?w = None \<and> list_all (\<lambda>q. q \<in> set (map ib_Seq ?w)) ?missing")
    case False
    have "s' = s \<and> refused (rr_Status res) e"
    proof (cases "ValidateImportFrameSubset m ?w")
      case None
      then have n: "\<not> list_all (\<lambda>q. q \<in> set (map ib_Seq ?w)) ?missing" using False by simp
      show ?thesis
        using R unfolding replicateInto_def Let_def None option.case if_P [OF n] by (auto split: if_splits)
    next
      case (Some x)
      show ?thesis using R unfolding replicateInto_def Let_def Some option.case by auto
    qed
    then show thesis using stop by simp
  next
    case True
    then have ok: "ValidateImportFrameSubset m ?w = None" "set ?missing \<subseteq> set (map ib_Seq ?w)"
      by (auto simp: list_all_iff)
    obtain b s1 where B: "(case resume of Some ig \<Rightarrow> (Inr ig, s) | None \<Rightarrow> is_Begin sk m s) = (b, s1)" by fastforce
    show thesis
    proof (cases b)
      case (Inl x)
      then have "resume = None" "is_Begin sk m s = (Inl x, s1)" using B by (auto split: option.splits)
      moreover from this have "s' = s1" "refused (rr_Status res) e" using R True by (auto simp: replicateInto_def Let_def)
      ultimately show thesis using unopened by simp
    next
      case (Inr ig)
      obtain i g where ig: "ig = (i, g)" by fastforce
      have open_as: "resume = Some (i, g) \<and> s1 = s \<or> resume = None \<and> is_Begin sk m s = (Inr (i, g), s1)"
        using B Inr ig by (auto split: option.splits)
      have "replicateRest sk canc m frames (resume \<noteq> None) ?missing i g s1 = (res, e, s')"
      proof (cases "?missing = []")
        case True
        then have "?w = []" by (simp add: FilterImportFrames_def)
        then show ?thesis using R ok B Inr ig True
          by (auto simp: replicateInto_def replicateRest_def replicateLoop_nothing Let_def list_all_iff split: prod.splits option.splits)
      next
        case False
        then show ?thesis using R ok B Inr ig \<open>_ \<and> _\<close>
          by (auto simp: replicateInto_def replicateRest_def Let_def split: prod.splits option.splits)
      qed
      then show thesis using opened [OF open_as] ok by simp
    qed
  qed
qed

definition staging_found :: "'s ImportSink \<Rightarrow> string \<Rightarrow> string \<Rightarrow> 's \<Rightarrow> (int \<times> int) option \<Rightarrow> int list \<Rightarrow> 's \<Rightarrow> bool" where
  "staging_found sk lh d s resume present s' \<longleftrightarrow>
     is_GetStaging sk = None \<and> resume = None \<and> present = [] \<and> s' = s \<or>
     (\<exists>look. is_GetStaging sk = Some look \<and>
        (look lh d s = (Inr None, s') \<and> resume = None \<and> present = [] \<or>
         (\<exists>i g. look lh d s = (Inr (Some (i, g, present)), s') \<and> resume = Some (i, g))))"

lemma ReplicateSealed_elim:
  assumes R: "ReplicateSealed ts now (Some sk) canc m frames s = (res, e, s')"
  obtains
    (stop) "s' = s" "refused (rr_Status res) e"
  | (looked) d c where "ValidateWireManifest m = None" "Manifest_Digest (ToManifestV1 m) = Inr d"
      "is_GetCommitted sk (to_lower (wm_LocatorHash m)) s = (c, s')"
      "refused (rr_Status res) e \<or> (\<exists>y. c = Inr (Some y) \<and> po_Action (EvaluateManifestConflict (Some y) (normalized m d)) = PartitionActionConverge \<and>
         e = None \<and> rr_Status res = ImportStatusIdempotent \<and> rr_GenerationID res = cm_GenerationID y)"
  | (unstaged) d ex s1 look x where "ValidateWireManifest m = None" "Manifest_Digest (ToManifestV1 m) = Inr d"
      "is_GetCommitted sk (to_lower (wm_LocatorHash m)) s = (Inr ex, s1)" "is_GetStaging sk = Some look"
      "look (to_lower (wm_LocatorHash m)) d s1 = (Inl x, s')" "refused (rr_Status res) e"
  | (running) d ex s1 resume present s2 where "ValidateWireManifest m = None" "Manifest_Digest (ToManifestV1 m) = Inr d"
      "is_GetCommitted sk (to_lower (wm_LocatorHash m)) s = (Inr ex, s1)"
      "\<And>y. ex = Some y \<Longrightarrow> po_Action (EvaluateManifestConflict (Some y) (normalized m d)) \<notin> {PartitionActionConverge, PartitionActionConflict}"
      "staging_found sk (to_lower (wm_LocatorHash m)) d s1 resume present s2"
      "replicateInto sk canc (normalized m d) frames resume present s2 = (res, e, s')"
proof (cases "canc 0 \<or> ValidateWireManifest m \<noteq> None")
  case True
  then have "s' = s \<and> refused (rr_Status res) e"
    using R by (cases "ValidateWireManifest m") (auto simp: ReplicateSealed_def split: if_splits, metis)
  then show thesis using stop by simp
next
  case False
  then have go: "\<not> canc 0" and val: "ValidateWireManifest m = None" by simp_all
  then obtain d where dig: "Manifest_Digest (ToManifestV1 m) = Inr d"
    using ValidateWireManifest_ok(2) by (auto simp: Manifest_Digest_def Manifest_CanonicalBytes_def split: option.splits sum.splits)
  note n = normalized_manifest [OF val dig]
  have dw: "DigestWireManifest m = Inr d" using val dig by (simp add: DigestWireManifest_def)
  note R' = R [unfolded ReplicateSealed_def normalized_def [symmetric] Let_def, simplified go val dw n(4)]
  obtain bl rs where T: "TombstoneBlocks ts (to_lower (wm_LocatorHash m)) d now = (bl, rs)" by fastforce
  obtain c s1 where G: "is_GetCommitted sk (to_lower (wm_LocatorHash m)) s = (c, s1)" by fastforce
  show thesis
  proof (cases bl)
    case True
    then show thesis using stop R' T go val dw n(4) by auto
  next
    case bl: False
    show thesis
    proof (cases c)
      case (Inl x)
      then have "s' = s1 \<and> refused (rr_Status res) e" using R' T bl G n(4) go val dw by auto
      then show thesis using looked [OF val dig] G by blast
    next
      case (Inr ex)
      have T': "TombstoneBlocks ts (to_lower (wm_LocatorHash m)) d now = (False, rs)" using T bl by simp
      let ?act = "case ex of None \<Rightarrow> PartitionActionStart | Some y \<Rightarrow> po_Action (EvaluateManifestConflict ex (normalized m d))"
      have R2: "(if ?act = PartitionActionConverge then
          (replRes ImportStatusIdempotent (to_lower (wm_LocatorHash m)) d 0 (case ex of None \<Rightarrow> 0 | Some c \<Rightarrow> cm_GenerationID c)
             PartitionResidualDuplicateConverged, None, s1)
        else if ?act = PartitionActionConflict then
          (replRes ImportStatusRejected (to_lower (wm_LocatorHash m)) d 0 0 PartitionResidualConflictDigest,
           Some (newErr CodePolicyDenial ''conflicting fleet object version''), s1)
        else (case is_GetStaging sk of
          None \<Rightarrow> replicateInto sk canc (normalized m d) frames None [] s1
        | Some get \<Rightarrow>
          (case get (to_lower (wm_LocatorHash m)) d s1 of
            (Inl e, s2) \<Rightarrow> (replRes ImportStatusRejected [] [] 0 0 ''staging lookup failed'', Some e, s2)
          | (Inr None, s2) \<Rightarrow> replicateInto sk canc (normalized m d) frames None [] s2
          | (Inr (Some (iid, gen, seqs)), s2) \<Rightarrow> replicateInto sk canc (normalized m d) frames (Some (iid, gen)) seqs s2)))
        = (res, e, s')"
        using R unfolding ReplicateSealed_def option.case if_not_P [OF go] val dw sum.case normalized_def [symmetric] Let_def
          n(4) T' prod.case bool.case G [unfolded Inr] .
      show thesis
      proof (cases "?act = PartitionActionConverge \<or> ?act = PartitionActionConflict")
        case True
        then obtain y where y: "ex = Some y" by (cases ex) auto
        have "s' = s1" using R2 True by (auto split: if_splits)
        then show thesis using looked [OF val dig G [folded \<open>s' = s1\<close>]] R2 True y Inr by (auto split: if_splits)
      next
        case False
        have act: "po_Action (EvaluateManifestConflict (Some y) (normalized m d)) \<notin> {PartitionActionConverge, PartitionActionConflict}"
          if "ex = Some y" for y using False that by simp
        note run = running [OF val dig G [unfolded Inr] act]
        have R3: "(case is_GetStaging sk of
          None \<Rightarrow> replicateInto sk canc (normalized m d) frames None [] s1
        | Some get \<Rightarrow>
          (case get (to_lower (wm_LocatorHash m)) d s1 of
            (Inl e, s2) \<Rightarrow> (replRes ImportStatusRejected [] [] 0 0 ''staging lookup failed'', Some e, s2)
          | (Inr None, s2) \<Rightarrow> replicateInto sk canc (normalized m d) frames None [] s2
          | (Inr (Some (iid, gen, seqs)), s2) \<Rightarrow> replicateInto sk canc (normalized m d) frames (Some (iid, gen)) seqs s2))
        = (res, e, s')" using R2 False by (simp split: if_splits)
        show thesis
        proof (cases "is_GetStaging sk")
          case None
          then show thesis using run [of None "[]" s1] R3 by (simp add: staging_found_def)
        next
          case (Some look)
          obtain l s2 where L: "look (to_lower (wm_LocatorHash m)) d s1 = (l, s2)" by fastforce
          consider x where "l = Inl x" | "l = Inr None" | i g q where "l = Inr (Some (i, g, q))"
            by (cases l) (auto, metis not_None_eq prod_cases3)
          then show thesis
          proof cases
            case (1 x)
            then show thesis using unstaged [OF val dig G [unfolded Inr] Some] R3 L Some by auto
          next
            case 2
            then show thesis using run [of None "[]" s2] R3 L Some by (simp add: staging_found_def)
          next
            case (3 i g q)
            then show thesis using run [of "Some (i, g)" q s2] R3 L Some by (simp add: staging_found_def)
          qed
        qed
      qed
    qed
  qed
qed

section \<open>The contract of a sink\<close>

definition canonical_manifest :: "WireManifest \<Rightarrow> bool" where
  "canonical_manifest m = (canonical (wm_ManifestDigest m) \<and> hash64 (wm_ManifestDigest m) \<and>
     canonical (wm_LocatorHash m) \<and> hash64 (wm_LocatorHash m))"

lemma hash64_canonical: "hash64 d \<Longrightarrow> to_lower d = d \<Longrightarrow> canonical d"
  by (auto simp: canonical_def trim_space_hex)

lemma canonical_normalized:
  assumes "ValidateWireManifest m = None" and "Manifest_Digest (ToManifestV1 m) = Inr d"
  shows "canonical_manifest (normalized m d)" and "canonical (to_lower (wm_LocatorHash m))"
  using normalized_manifest [OF assms] by (simp_all add: canonical_manifest_def hash64_canonical)

locale import_sink =
  fixes sk :: "'s ImportSink" and inv :: "'s \<Rightarrow> bool" and visible :: "'s \<Rightarrow> string \<rightharpoonup> string \<times> int"
    and stored :: "'s \<Rightarrow> int \<Rightarrow> WireFrame \<Rightarrow> bool"
  assumes visible_canonical: "inv s \<Longrightarrow> visible s lh = Some (d, g) \<Longrightarrow> canonical d"
    and get: "inv s \<Longrightarrow> is_GetCommitted sk lh s = (r, s') \<Longrightarrow> inv s' \<and> visible s' = visible s \<and> stored s' = stored s"
    and get_value: "inv s \<Longrightarrow> is_GetCommitted sk lh s = (Inr c, s') \<Longrightarrow> canonical lh \<Longrightarrow>
        visible s lh = map_option (\<lambda>c. (cm_ManifestDigest c, cm_GenerationID c)) c \<and>
        (\<forall>e. c = Some e \<longrightarrow> cm_Status e = FleetMappingCommitted)"
    and begin_keeps: "inv s \<Longrightarrow> is_Begin sk m s = (rb, s') \<Longrightarrow> inv s' \<and> visible s' = visible s \<and> stored s' = stored s"
    and begin_fresh: "inv s \<Longrightarrow> is_Begin sk m s = (Inr (i, g), s') \<Longrightarrow> \<not> stored s g f"
    and write_keeps: "inv s \<Longrightarrow> is_WriteFrame sk i g f z s = (e, s') \<Longrightarrow> inv s' \<and> visible s' = visible s \<and>
        (\<forall>g' f'. (g', wf_Seq f') \<noteq> (g, wf_Seq f) \<longrightarrow> stored s' g' f' = stored s g' f')"
    and write_stores: "inv s \<Longrightarrow> is_WriteFrame sk i g f z s = (None, s') \<Longrightarrow> frame_digests f \<Longrightarrow> stored s' g f"
    and commit_keeps: "inv s \<Longrightarrow> is_Commit sk i g m s = (e, s') \<Longrightarrow> canonical_manifest m \<Longrightarrow> inv s' \<and> stored s' = stored s"
    and commit_fails: "inv s \<Longrightarrow> is_Commit sk i g m s = (Some err, s') \<Longrightarrow> canonical_manifest m \<Longrightarrow> visible s' = visible s"
    and commit_publishes: "inv s \<Longrightarrow> is_Commit sk i g m s = (None, s') \<Longrightarrow> canonical_manifest m \<Longrightarrow>
        (case visible s (wm_LocatorHash m) of
           None \<Rightarrow> visible s' = (visible s)(wm_LocatorHash m \<mapsto> (wm_ManifestDigest m, g))
         | Some (d, g') \<Rightarrow> d = wm_ManifestDigest m \<and> visible s' = visible s)"
    and abort: "inv s \<Longrightarrow> is_Abort sk i s = (e, s') \<Longrightarrow> inv s' \<and> visible s' = visible s \<and> stored s' = stored s"
    and staging: "inv s \<Longrightarrow> is_GetStaging sk = Some look \<Longrightarrow> look lh d s = (rs, s') \<Longrightarrow>
        inv s' \<and> visible s' = visible s \<and> stored s' = stored s"
begin

text \<open>\<open>kept g s s'\<close>: nothing published and no frame outside generation \<open>g\<close> changed.\<close>

definition kept :: "int \<Rightarrow> 's \<Rightarrow> 's \<Rightarrow> bool" where
  "kept g s s' = (inv s' \<and> visible s' = visible s \<and> (\<forall>g' f. g' \<noteq> g \<longrightarrow> stored s' g' f = stored s g' f))"

lemma kept_trans: "kept g s t \<Longrightarrow> kept g t u \<Longrightarrow> kept g s u"
  by (simp add: kept_def)

lemma kept_write: "inv s \<Longrightarrow> is_WriteFrame sk i g f z s = (e, s') \<Longrightarrow> kept g s s'"
  using write_keeps by (fastforce simp: kept_def)

lemma kept_abort: "inv s \<Longrightarrow> kept g s (snd (is_Abort sk i s))"
  using abort [of s i] by (cases "is_Abort sk i s") (simp add: kept_def)

lemma importLoop_kept:
  "inv s \<Longrightarrow> importLoop sk canc k i g by fs s = (r, s') \<Longrightarrow> kept g s s'"
proof (induction fs arbitrary: k s)
  case (Cons f fs)
  show ?case
  proof (cases "canc k")
    case False
    obtain e t where w: "is_WriteFrame sk i g f (by (wf_Seq f)) s = (e, t)" by fastforce
    have t: "kept g s t" by (rule kept_write [OF Cons.prems(1) w])
    then have "inv t" by (simp add: kept_def)
    show ?thesis
    proof (cases e)
      case None
      then have "importLoop sk canc (Suc k) i g by fs t = (r, s')" using Cons.prems(2) w False by simp
      from kept_trans [OF t Cons.IH [OF \<open>inv t\<close> this]] show ?thesis .
    next
      case (Some _)
      then show ?thesis using Cons.prems(2) w False t by simp
    qed
  next
    case True
    then show ?thesis using Cons.prems by (simp add: kept_def)
  qed
qed (simp add: kept_def)

lemma importLoop_untouched:
  "inv s \<Longrightarrow> importLoop sk canc k i g by fs s = (r, s') \<Longrightarrow> wf_Seq f \<notin> wf_Seq ` set fs \<Longrightarrow> stored s' g f = stored s g f"
proof (induction fs arbitrary: k s)
  case (Cons h fs)
  obtain e t where w: "is_WriteFrame sk i g h (by (wf_Seq h)) s = (e, t)" by fastforce
  have "inv t" "stored t g f = stored s g f"
    using write_keeps [OF Cons.prems(1) w] Cons.prems(3) by auto
  then show ?case using Cons.IH [of t "Suc k"] Cons.prems w by (cases e) (auto split: if_splits)
qed simp

lemma importLoop_stored:
  "inv s \<Longrightarrow> importLoop sk canc k i g by fs s = (None, s') \<Longrightarrow> distinct (map wf_Seq fs) \<Longrightarrow> list_all frame_digests fs \<Longrightarrow>
   f \<in> set fs \<Longrightarrow> stored s' g f"
proof (induction fs arbitrary: k s)
  case (Cons h fs)
  obtain e t where w: "is_WriteFrame sk i g h (by (wf_Seq h)) s = (e, t)" by fastforce
  with Cons.prems have e: "e = None" and rest: "importLoop sk canc (Suc k) i g by fs t = (None, s')"
    by (auto split: if_splits option.splits)
  have t: "inv t" "stored t g h"
    using write_keeps [OF Cons.prems(1) w] write_stores [OF Cons.prems(1) w [unfolded e]] Cons.prems(4) by auto
  show ?case
  proof (cases "f \<in> set fs")
    case True
    then show ?thesis using Cons.IH [OF t(1) rest] Cons.prems by simp
  next
    case False
    then have "f = h" using Cons.prems(5) by simp
    then show ?thesis using importLoop_untouched [OF t(1) rest, of h] t(2) Cons.prems(3) by auto
  qed
qed simp

definition import_outcome :: "'s \<Rightarrow> WireManifest \<Rightarrow> ImportResult \<Rightarrow> apperr option \<Rightarrow> 's \<Rightarrow> bool" where
  "import_outcome s m res e s' =
     (let lh = to_lower (wm_LocatorHash m); g = ir_GenerationID res in
      case ir_Status res of
        ImportStatusCommitted \<Rightarrow> e = None \<and> (\<forall>f \<in> set (wm_Frames m). stored s' g f) \<and>
          (\<exists>d. DigestWireManifest m = Inr d \<and> visible s lh = None \<and> visible s' = (visible s)(lh \<mapsto> (d, g)))
      | ImportStatusIdempotent \<Rightarrow> e = None \<and> visible s' = visible s \<and>
          (\<exists>d. DigestWireManifest m = Inr d \<and> visible s lh = Some (d, g))
      | _ \<Rightarrow> e \<noteq> None \<and> visible s' = visible s)"

lemma outcome_rejected:
  "ir_Status res = ImportStatusRejected \<or> ir_Status res = ImportStatusAborted \<Longrightarrow> e \<noteq> None \<Longrightarrow> visible s' = visible s \<Longrightarrow>
   import_outcome s m res e s'"
  by (auto simp: import_outcome_def)

lemma RunImport_started:
  assumes I: "inv s" and val: "ValidateWireManifest m = None" and dig: "Manifest_Digest (ToManifestV1 m) = Inr d"
    and fresh: "\<And>f. \<not> stored s g f" and none: "visible s (to_lower (wm_LocatorHash m)) = None"
    and R: "importRest sk canc m d frames i g s = (res, e, s')"
  shows "inv s' \<and> (\<forall>g f. stored s g f \<longrightarrow> stored s' g f) \<and> import_outcome s m res e s'"
proof -
  note n = normalized_manifest [OF val dig]
  note can = canonical_normalized(1) [OF val dig]
  obtain r t where L: "importLoop sk canc 1 i g (bytesBySeq frames) (wm_Frames m) s = (r, t)" by fastforce
  have kt: "kept g s t" by (rule importLoop_kept [OF I L])
  then have t: "inv t" "visible t = visible s" by (simp_all add: kept_def)
  have old: "stored u g' f \<Longrightarrow> g' \<noteq> g \<and> stored s g' f \<or> g' = g" if "kept g s u" for u g' f
    using that by (auto simp: kept_def)
  have mono: "stored s g' f \<Longrightarrow> stored u g' f" if "kept g s u" for u g' f
    using that fresh by (cases "g' = g") (auto simp: kept_def)
  show ?thesis
  proof (cases r)
    case (Some p)
    have k: "kept g s (snd (is_Abort sk i t))" using kept_trans [OF kt kept_abort [OF t(1)]] .
    obtain q x where "p = (q, x)" by fastforce
    with R [unfolded importRest_def] L Some have "s' = snd (is_Abort sk i t)" "e = Some x" "ir_Status res = ImportStatusAborted"
      by (auto simp: Let_def split: if_splits)
    with k mono [OF k] show ?thesis by (auto simp: kept_def intro: outcome_rejected)
  next
    case None
    have all: "\<forall>f \<in> set (wm_Frames m). stored t g f"
    proof
      fix f assume "f \<in> set (wm_Frames m)"
      have "distinct (map wf_Seq (wm_Frames m))"
        unfolding ValidateWireManifest_ok(3) [OF val] by (simp add: distinct_map inj_on_def)
      moreover have "list_all frame_digests (wm_Frames m)"
        using ValidateWireManifest_ok(4) [OF val] by (fastforce simp: list_all_iff frame_digests_def)
      ultimately show "stored t g f"
        using importLoop_stored [OF I L [unfolded None]] \<open>f \<in> set (wm_Frames m)\<close> by blast
    qed
    obtain c u where C: "is_Commit sk i g (normalized m d) t = (c, u)" by fastforce
    have u: "inv u" "stored u = stored t" using commit_keeps [OF t(1) C can] by simp_all
    show ?thesis
    proof (cases c)
      case c: None
      have "visible u = (visible s)(to_lower (wm_LocatorHash m) \<mapsto> (d, g))"
        using commit_publishes [OF t(1) C [unfolded c] can] t(2) none n(4,8) by simp
      moreover have "s' = u" "e = None" "ir_Status res = ImportStatusCommitted" "ir_GenerationID res = g"
        using R L None C c by (auto simp: importRest_def Let_def)
      moreover have "DigestWireManifest m = Inr d" using val dig by (simp add: DigestWireManifest_def)
      moreover have "stored s g' f \<Longrightarrow> stored u g' f" for g' f
        using mono [OF kt] u(2) by simp
      ultimately show ?thesis using none all u by (simp add: import_outcome_def Let_def)
    next
      case (Some x)
      have "kept g t u"
        using u commit_fails [OF t(1) C [unfolded Some] can] by (simp add: kept_def)
      then have k: "kept g s (snd (is_Abort sk i u))"
        using kept_trans [OF kt kept_trans [OF _ kept_abort [OF u(1)]]] by blast
      have "s' = snd (is_Abort sk i u)" "e = Some x" "ir_Status res = ImportStatusAborted"
        using R L None C Some by (auto simp: importRest_def Let_def)
      with k mono [OF k] show ?thesis by (auto simp: kept_def intro: outcome_rejected)
    qed
  qed
qed

lemma RunImport_correct:
  assumes I: "inv s" and R: "RunImport ts now (Some sk) canc m frames s = (res, e, s')"
  shows "inv s' \<and> (\<forall>g f. stored s g f \<longrightarrow> stored s' g f) \<and> import_outcome s m res e s'"
proof -
  have ex: "visible s (to_lower (wm_LocatorHash m)) = map_option (\<lambda>c. (cm_ManifestDigest c, cm_GenerationID c)) ex \<and>
      (\<forall>y. ex = Some y \<longrightarrow> cm_Status y = FleetMappingCommitted \<and> canonical (cm_ManifestDigest y))"
    if "ValidateWireManifest m = None" "Manifest_Digest (ToManifestV1 m) = Inr d"
      "is_GetCommitted sk (to_lower (wm_LocatorHash m)) s = (Inr ex, s1)" for d ex s1
    using get_value [OF I that(3) canonical_normalized(2) [OF that(1,2)]] visible_canonical [OF I] by auto
  from R show ?thesis
  proof (cases rule: RunImport_elim)
    case stop
    then show ?thesis using I by (auto intro: outcome_rejected)
  next
    case (looked d c)
    have s': "inv s'" "visible s' = visible s" "stored s' = stored s" using get [OF I looked(3)] by simp_all
    show ?thesis
    proof (cases "refused (ir_Status res) e")
      case True
      then show ?thesis using s' by (auto intro: outcome_rejected)
    next
      case False
      with looked(4) obtain x plan perr where c: "c = Inr x" "PlanImport ts now x (normalized m d) = (plan, perr)"
          "\<not> (perr \<noteq> None \<and> ip_Action plan = ImportActionRejectStale)" "ip_Action plan = ImportActionIdempotent" "e = None"
          "ir_Status res = ImportStatusIdempotent" "ir_GenerationID res = (case x of None \<Rightarrow> 0 | Some y \<Rightarrow> cm_GenerationID y)"
        by blast
      note ex' = ex [OF looked(1,2) looked(3) [unfolded c(1)]]
      obtain y where "x = Some y" "cm_ManifestDigest y = d"
        using PlanImport_normalized [OF looked(1,2) _ c(2)] ex' c(3,4) by auto
      moreover have "DigestWireManifest m = Inr d" using looked(1,2) by (simp add: DigestWireManifest_def)
      ultimately show ?thesis using s' ex' c by (simp add: import_outcome_def Let_def)
    qed
  next
    case (unopened d x s1)
    have s1: "inv s1" "visible s1 = visible s" "stored s1 = stored s" using get [OF I unopened(3)] by simp_all
    obtain y where "is_Begin sk (normalized m d) s1 = (Inl y, s')" using unopened(5) by blast
    from begin_keeps [OF s1(1) this] s1 unopened(4) show ?thesis by (auto intro: outcome_rejected)
  next
    case (started d x s1 plan perr i g s2)
    have s1: "inv s1" "visible s1 = visible s" "stored s1 = stored s" using get [OF I started(3)] by simp_all
    have s2: "inv s2" "visible s2 = visible s" "stored s2 = stored s" using begin_keeps [OF s1(1) started(7)] s1 by simp_all
    have fresh: "\<not> stored s2 g f" for f using begin_fresh [OF s1(1) started(7)] s1 s2 by simp
    note ex' = ex [OF started(1,2,3)]
    have "x = None" using PlanImport_normalized [OF started(1,2) _ started(4)] ex' started(5,6) by auto
    then have none: "visible s2 (to_lower (wm_LocatorHash m)) = None" using ex' s2 by simp
    have "inv s' \<and> (\<forall>g f. stored s2 g f \<longrightarrow> stored s' g f) \<and> import_outcome s2 m res e s'"
      by (rule RunImport_started [OF s2(1) started(1,2) fresh none started(8)])
    moreover have "import_outcome s2 m res e s' = import_outcome s m res e s'"
      unfolding import_outcome_def s2(2) ..
    ultimately show ?thesis using s2(3) by simp
  qed
qed

end

section \<open>Resumption\<close>

text \<open>
  A replication resumes what an earlier one left. \<open>honest\<close> is what a sink must keep for that to be sound
  for a manifest \<open>M\<close>: its unfinished and published imports of \<open>M\<close>'s version hold frames of \<open>M\<close> only. It is
  kept by every client whose manifests do not collide with \<open>M\<close>.
\<close>

definition frame_key :: "WireFrame \<Rightarrow> FrameDescriptor" where "frame_key f = lowerDigests (descriptorOf f)"

definition frame_keys :: "WireManifest \<Rightarrow> FrameDescriptor list" where "frame_keys m = map frame_key (wm_Frames m)"

definition agrees :: "WireManifest \<Rightarrow> WireManifest \<Rightarrow> bool" where
  "agrees M m \<longleftrightarrow> (\<forall>d. DigestWireManifest M = Inr d \<longrightarrow> DigestWireManifest m = Inr d \<longrightarrow> frame_keys m = frame_keys M)"

lemma frame_key_seq: "frame_key f = frame_key h \<Longrightarrow> wf_Seq f = wf_Seq h"
  by (simp add: frame_key_def lowerDigests_def descriptorOf_def)

locale resumable_sink = import_sink +
  fixes M :: WireManifest and honest :: "'a \<Rightarrow> bool" and importing :: "'a \<Rightarrow> int \<Rightarrow> int \<Rightarrow> string \<Rightarrow> bool"
    and present :: "'a \<Rightarrow> int \<Rightarrow> int set"
  assumes get_honest: "inv s \<Longrightarrow> honest s \<Longrightarrow> is_GetCommitted sk lh s = (r, s') \<Longrightarrow> honest s'"
    and begin_honest: "inv s \<Longrightarrow> honest s \<Longrightarrow> canonical_manifest m \<Longrightarrow>
        (DigestWireManifest M = Inr (wm_ManifestDigest m) \<longrightarrow> frame_keys m = frame_keys M) \<Longrightarrow> is_Begin sk m s = (rb, s') \<Longrightarrow>
        honest s' \<and> (\<forall>i g. rb = Inr (i, g) \<longrightarrow> importing s' i g (wm_ManifestDigest m) \<and> present s' g = {})"
    and write_honest: "inv s \<Longrightarrow> honest s \<Longrightarrow> importing s i g d \<Longrightarrow>
        (DigestWireManifest M = Inr d \<longrightarrow> frame_key f \<in> set (frame_keys M)) \<Longrightarrow> frame_digests f \<Longrightarrow> wf_Seq f \<notin> present s g \<Longrightarrow>
        is_WriteFrame sk i g f z s = (e, s') \<Longrightarrow>
        honest s' \<and> importing s' i g d \<and> present s' g \<subseteq> insert (wf_Seq f) (present s g)"
    and commit_honest: "inv s \<Longrightarrow> honest s \<Longrightarrow> canonical_manifest m \<Longrightarrow> importing s i g (wm_ManifestDigest m) \<Longrightarrow>
        is_Commit sk i g m s = (e, s') \<Longrightarrow> honest s'"
    and abort_honest: "inv s \<Longrightarrow> honest s \<Longrightarrow> is_Abort sk i s = (e, s') \<Longrightarrow> honest s'"
    and staging_honest: "inv s \<Longrightarrow> honest s \<Longrightarrow> is_GetStaging sk = Some look \<Longrightarrow> canonical d \<Longrightarrow> look lh d s = (rs, s') \<Longrightarrow>
        honest s' \<and> (\<forall>i g q. rs = Inr (Some (i, g, q)) \<longrightarrow> importing s' i g d \<and> set q = present s' g)"
    and complete: "inv s \<Longrightarrow> honest s \<Longrightarrow> visible s lh = Some (d, g) \<Longrightarrow> DigestWireManifest M = Inr d \<Longrightarrow>
        f \<in> set (wm_Frames M) \<Longrightarrow> stored s g f"
begin

lemma replicateLoop_honest:
  assumes "inv s" and "honest s" and "importing s i g d"
    and "\<forall>f \<in> set fs. (DigestWireManifest M = Inr d \<longrightarrow> frame_key f \<in> set (frame_keys M)) \<and> frame_digests f"
    and "distinct (map wf_Seq fs)" and "\<forall>f \<in> set fs. wf_Seq f \<in> set need \<longrightarrow> wf_Seq f \<notin> present s g"
    and "replicateLoop sk canc k i g by need fs w s = (r, n, s')"
  shows "inv s' \<and> honest s' \<and> importing s' i g d \<and> visible s' = visible s"
  using assms
proof (induction fs arbitrary: k w s)
  case (Cons f fs)
  show ?case
  proof (cases "wf_Seq f \<in> set need \<and> \<not> canc k")
    case False
    then show ?thesis using Cons.IH [of s k w] Cons.prems by (auto split: if_splits)
  next
    case True
    obtain e t where w: "is_WriteFrame sk i g f (by (wf_Seq f)) s = (e, t)" by fastforce
    have t: "inv t" "visible t = visible s" using write_keeps [OF Cons.prems(1) w] by simp_all
    have h: "honest t \<and> importing t i g d \<and> present t g \<subseteq> insert (wf_Seq f) (present s g)"
      by (rule write_honest [OF Cons.prems(1-3) _ _ _ w]) (use Cons.prems(4,6) True in auto)
    show ?thesis
    proof (cases e)
      case None
      then have "replicateLoop sk canc (Suc k) i g by need fs (Suc w) t = (r, n, s')" using Cons.prems(7) True w by simp
      moreover have "\<forall>f \<in> set fs. wf_Seq f \<in> set need \<longrightarrow> wf_Seq f \<notin> present t g"
      proof (intro ballI impI)
        fix x assume x: "x \<in> set fs" "wf_Seq x \<in> set need"
        then have "wf_Seq x \<noteq> wf_Seq f" "wf_Seq x \<notin> present s g" using Cons.prems(5,6) by (auto simp: rev_image_eqI)
        then show "wf_Seq x \<notin> present t g" using h by blast
      qed
      moreover have "\<forall>f \<in> set fs. (DigestWireManifest M = Inr d \<longrightarrow> frame_key f \<in> set (frame_keys M)) \<and> frame_digests f"
        "distinct (map wf_Seq fs)" "honest t" "importing t i g d" using Cons.prems(4,5) h by simp_all
      ultimately have "inv s' \<and> honest s' \<and> importing s' i g d \<and> visible s' = visible t"
        by (intro Cons.IH [OF t(1)])
      then show ?thesis using t(2) by simp
    next
      case (Some x)
      then show ?thesis using Cons.prems(7) True w t h by simp
    qed
  qed
qed simp

lemma frames_fit:
  assumes "ValidateWireManifest m = None" and "DigestWireManifest m = Inr d" and "agrees M m"
  shows "\<forall>f \<in> set (wm_Frames m). (DigestWireManifest M = Inr d \<longrightarrow> frame_key f \<in> set (frame_keys M)) \<and> frame_digests f"
    and "distinct (map wf_Seq (wm_Frames m))"
proof
  fix f assume f: "f \<in> set (wm_Frames m)"
  then have "frame_digests f"
    using ValidateWireManifest_ok(4) [OF assms(1)] by (fastforce simp: list_all_iff frame_digests_def)
  moreover have "frame_key f \<in> set (frame_keys M)" if "DigestWireManifest M = Inr d"
  proof -
    have "frame_keys m = frame_keys M" using assms(2,3) that by (simp add: agrees_def)
    moreover have "frame_key f \<in> set (frame_keys m)" using f by (simp add: frame_keys_def)
    ultimately show ?thesis by simp
  qed
  ultimately show "(DigestWireManifest M = Inr d \<longrightarrow> frame_key f \<in> set (frame_keys M)) \<and> frame_digests f" by blast
next
  show "distinct (map wf_Seq (wm_Frames m))"
    unfolding ValidateWireManifest_ok(3) [OF assms(1)] by (simp add: distinct_map inj_on_def)
qed

lemma commit_outcome:
  assumes "inv t" and "honest t" and "importing t i g d" and "is_Commit sk i g (normalized m d) t = (c, u)"
    and "ValidateWireManifest m = None" and "Manifest_Digest (ToManifestV1 m) = Inr d"
  shows "inv u" and "honest u"
    and "c \<noteq> None \<Longrightarrow> visible u = visible t"
    and "c = None \<Longrightarrow> (case visible t (to_lower (wm_LocatorHash m)) of
           None \<Rightarrow> visible u = (visible t)(to_lower (wm_LocatorHash m) \<mapsto> (d, g))
         | Some (d', g') \<Rightarrow> d' = d \<and> visible u = visible t)"
proof -
  note can = canonical_normalized(1) [OF assms(5,6)] and n = normalized_manifest [OF assms(5,6)]
  show "inv u" using commit_keeps [OF assms(1,4) can] by simp
  show "honest u" using commit_honest [OF assms(1,2) can _ assms(4)] assms(3) n(8) by simp
  show "c \<noteq> None \<Longrightarrow> visible u = visible t" using commit_fails [OF assms(1) _ can] assms(4) by auto
  assume c: "c = None"
  show "(case visible t (to_lower (wm_LocatorHash m)) of
           None \<Rightarrow> visible u = (visible t)(to_lower (wm_LocatorHash m) \<mapsto> (d, g))
         | Some (d', g') \<Rightarrow> d' = d \<and> visible u = visible t)"
    by (rule commit_publishes [OF assms(1) assms(4) [unfolded c] can, unfolded n(4,8)])
qed

lemma normalized_frames_keys [simp]: "frame_keys (normalized m d) = frame_keys m"
  by (simp add: frame_keys_def normalized_def)

lemma begin_normalized:
  assumes "inv s" and "honest s" and "agrees M m" and "ValidateWireManifest m = None" and "Manifest_Digest (ToManifestV1 m) = Inr d"
    and "is_Begin sk (normalized m d) s = (b, s')"
  shows "inv s'" and "honest s'" and "visible s' = visible s" and "b = Inr (i, g) \<Longrightarrow> importing s' i g d \<and> present s' g = {}"
proof -
  have dw: "DigestWireManifest m = Inr d" using assms(4,5) by (simp add: DigestWireManifest_def)
  note n = normalized_manifest [OF assms(4,5)]
  have "DigestWireManifest M = Inr (wm_ManifestDigest (normalized m d)) \<longrightarrow> frame_keys (normalized m d) = frame_keys M"
    using assms(3) dw n(8) by (simp add: agrees_def)
  from begin_honest [OF assms(1,2) canonical_normalized(1) [OF assms(4,5)] this assms(6)]
  show "honest s'" "b = Inr (i, g) \<Longrightarrow> importing s' i g d \<and> present s' g = {}" using n(8) by simp_all
  show "inv s'" "visible s' = visible s" using begin_keeps [OF assms(1,6)] by simp_all
qed

lemma RunImport_honest:
  assumes "inv s" and "honest s" and "agrees M m" and R: "RunImport ts now (Some sk) canc m frames s = (res, e, s')"
  shows "honest s'"
  using R
proof (cases rule: RunImport_elim)
  case stop
  then show ?thesis using assms(2) by simp
next
  case (looked d c)
  then show ?thesis using get_honest [OF assms(1,2)] by blast
next
  case (unopened d ex s1)
  have "inv s1" "honest s1" using get [OF assms(1) unopened(3)] get_honest [OF assms(1,2) unopened(3)] by simp_all
  then show ?thesis using begin_normalized(2) [OF _ _ assms(3) unopened(1,2)] unopened(5) by blast
next
  case (started d ex s1 plan perr i g s2)
  have "inv s1" "honest s1" using get [OF assms(1) started(3)] get_honest [OF assms(1,2) started(3)] by simp_all
  note b = begin_normalized [OF this assms(3) started(1,2,7)]
  have b4: "importing s2 i g d" "present s2 g = {}" using b(4) by simp_all
  have dw: "DigestWireManifest m = Inr d" using started(1,2) by (simp add: DigestWireManifest_def)
  let ?need = "map wf_Seq (wm_Frames m)"
  obtain r n t where L: "replicateLoop sk canc 1 i g (bytesBySeq frames) ?need (wm_Frames m) 0 s2 = (r, n, t)"
    by (metis prod_cases3)
  have t: "inv t" "honest t" "importing t i g d"
    using replicateLoop_honest [OF b(1,2) b4(1) frames_fit [OF started(1) dw assms(3)] _ L] b4(2) by simp_all
  have L': "importLoop sk canc 1 i g (bytesBySeq frames) (wm_Frames m) s2 = (r, t)"
    by (rule importLoop_as_replicateLoop [OF _ L]) simp
  have ab: "honest (snd (is_Abort sk i u))" if "inv u" "honest u" for u
    using abort_honest [OF that, of i] by (cases "is_Abort sk i u") simp
  show ?thesis
  proof (cases r)
    case (Some p)
    then have "s' = snd (is_Abort sk i t)"
      using started(8) L' by (auto simp: importRest_def Let_def split: prod.splits if_splits)
    then show ?thesis using ab t by simp
  next
    case None
    obtain c u where C: "is_Commit sk i g (normalized m d) t = (c, u)" by fastforce
    note u = commit_outcome [OF t C started(1,2)]
    have "s' = u \<or> s' = snd (is_Abort sk i u)"
      using started(8) L' None C by (cases c) (auto simp: importRest_def Let_def)
    then show ?thesis using u(1,2) ab by auto
  qed
qed

definition replica_outcome :: "'a \<Rightarrow> WireManifest \<Rightarrow> ReplicateResult \<Rightarrow> apperr option \<Rightarrow> 'a \<Rightarrow> bool" where
  "replica_outcome s m res e s' =
     (let lh = to_lower (wm_LocatorHash m); g = rr_GenerationID res in
      case rr_Status res of
        ImportStatusCommitted \<Rightarrow> e = None \<and>
          (\<exists>d. DigestWireManifest m = Inr d \<and> visible s lh = None \<and> visible s' = (visible s)(lh \<mapsto> (d, g)))
      | ImportStatusIdempotent \<Rightarrow> e = None \<and> visible s' = visible s \<and>
          (\<exists>d. DigestWireManifest m = Inr d \<and> visible s lh = Some (d, g))
      | _ \<Rightarrow> e \<noteq> None \<and> visible s' = visible s)"

lemma replica_outcome_from: "visible t = visible s \<Longrightarrow> replica_outcome t m res e s' \<Longrightarrow> replica_outcome s m res e s'"
  unfolding replica_outcome_def by (simp only:)

lemma replica_refused: "refused (rr_Status res) e \<Longrightarrow> visible s' = visible s \<Longrightarrow> replica_outcome s m res e s'"
  by (auto simp: replica_outcome_def)

lemma replicateRest_correct:
  assumes "inv s" and "honest s" and "importing s i g d" and "agrees M m"
    and "ValidateWireManifest m = None" and "Manifest_Digest (ToManifestV1 m) = Inr d"
    and "visible s (to_lower (wm_LocatorHash m)) = None"
    and "\<forall>f \<in> set (wm_Frames m). wf_Seq f \<in> set (map ib_Seq (FilterImportFrames frames missing)) \<longrightarrow> wf_Seq f \<notin> present s g"
    and "replicateRest sk canc (normalized m d) frames resuming missing i g s = (res, e, s')"
  shows "inv s' \<and> honest s' \<and> replica_outcome s m res e s'"
proof -
  have dw: "DigestWireManifest m = Inr d" using assms(5,6) by (simp add: DigestWireManifest_def)
  note n = normalized_manifest [OF assms(5,6)]
  let ?w = "FilterImportFrames frames missing"
  obtain r w t where L: "replicateLoop sk canc 1 i g (bytesBySeq ?w) (map ib_Seq ?w) (wm_Frames m) 0 s = (r, w, t)"
    by (metis prod_cases3)
  have t: "inv t \<and> honest t \<and> importing t i g d \<and> visible t = visible s"
    by (rule replicateLoop_honest [OF assms(1-3) frames_fit [OF assms(5) dw assms(4)] assms(8) L])
  have ab: "inv (snd (is_Abort sk i u)) \<and> honest (snd (is_Abort sk i u)) \<and> visible (snd (is_Abort sk i u)) = visible u"
    if "inv u" "honest u" for u
    using abort_honest [OF that, of i] abort [OF that(1), of i] by (cases "is_Abort sk i u") simp
  note R = assms(9) [unfolded replicateRest_def n(7) Let_def L prod.case]
  show ?thesis
  proof (cases r)
    case (Some p)
    then have "s' = t" "refused (rr_Status res) e" using R by (auto split: prod.splits)
    then show ?thesis using t replica_refused by blast
  next
    case None
    obtain c u where C: "is_Commit sk i g (normalized m d) t = (c, u)" by fastforce
    note u = commit_outcome [OF _ _ _ C assms(5,6)]
    show ?thesis
    proof (cases c)
      case c: None
      have "visible u = (visible s)(to_lower (wm_LocatorHash m) \<mapsto> (d, g))" using u(4) t c assms(7) by simp
      moreover have "s' = u" "e = None" "rr_Status res = ImportStatusCommitted" "rr_GenerationID res = g"
        using R None C c by auto
      ultimately show ?thesis using u(1,2) t dw assms(7) by (simp add: replica_outcome_def Let_def)
    next
      case (Some x)
      have "visible u = visible s" using u(3) t Some by simp
      moreover have "s' = u \<or> s' = snd (is_Abort sk i u)" "refused (rr_Status res) e" using R None C Some by (auto split: if_splits)
      ultimately show ?thesis using u(1,2) t ab replica_refused by auto
    qed
  qed
qed

lemma missing_absent:
  assumes "q \<in> set (map ib_Seq (FilterImportFrames frames (MissingFrameSeqs m hv)))"
  shows "q \<notin> set hv"
  using assms by (auto simp: FilterImportFrames_def MissingFrameSeqs_def split: if_splits)

lemma replicateInto_correct:
  assumes "inv s" and "honest s" and "agrees M m"
    and "ValidateWireManifest m = None" and "Manifest_Digest (ToManifestV1 m) = Inr d"
    and "visible s (to_lower (wm_LocatorHash m)) = None"
    and "\<And>i g. resume = Some (i, g) \<Longrightarrow> importing s i g d \<and> set hv = present s g"
    and "replicateInto sk canc (normalized m d) frames resume hv s = (res, e, s')"
  shows "inv s' \<and> honest s' \<and> replica_outcome s m res e s'"
  using assms(8)
proof (cases rule: replicateInto_elim)
  case stop
  then show ?thesis using assms(1,2) replica_refused by blast
next
  case (unopened x)
  then show ?thesis using begin_normalized [OF assms(1-5) unopened(2)] replica_refused by blast
next
  case (opened i g s1)
  have s1: "inv s1 \<and> honest s1 \<and> visible s1 = visible s \<and> importing s1 i g d \<and> (present s1 g = {} \<or> present s1 g = set hv)"
    using opened(1)
  proof
    assume "resume = Some (i, g) \<and> s1 = s"
    then show ?thesis using assms(1,2,7) by auto
  next
    assume b: "resume = None \<and> is_Begin sk (normalized m d) s = (Inr (i, g), s1)"
    show ?thesis using begin_normalized [OF assms(1-5) conjunct2 [OF b]] by simp
  qed
  have "inv s' \<and> honest s' \<and> replica_outcome s1 m res e s'"
    by (rule replicateRest_correct [OF _ _ _ assms(3-5) _ _ opened(2)])
      (use s1 assms(6) missing_absent [of _ frames "normalized m d" hv] in auto)
  then show ?thesis using s1 replica_outcome_from by blast
qed

lemma ReplicateSealed_correct:
  assumes I: "inv s" "honest s" and agr: "agrees M m" and R: "ReplicateSealed ts now (Some sk) canc m frames s = (res, e, s')"
  shows "inv s' \<and> honest s' \<and> replica_outcome s m res e s'"
  using R
proof (cases rule: ReplicateSealed_elim)
  case stop
  then show ?thesis using I replica_refused by blast
next
  case (looked d c)
  have s': "inv s'" "visible s' = visible s" "honest s'" using get [OF I(1) looked(3)] get_honest [OF I looked(3)] by simp_all
  note can = canonical_normalized(2) [OF looked(1,2)]
  show ?thesis
  proof (cases "refused (rr_Status res) e")
    case True
    then show ?thesis using s' replica_refused by blast
  next
    case False
    with looked(4) obtain y where y: "c = Inr (Some y)" "po_Action (EvaluateManifestConflict (Some y) (normalized m d)) = PartitionActionConverge"
        "e = None" "rr_Status res = ImportStatusIdempotent" "rr_GenerationID res = cm_GenerationID y" by blast
    have v: "visible s (to_lower (wm_LocatorHash m)) = Some (cm_ManifestDigest y, cm_GenerationID y)" "cm_Status y = FleetMappingCommitted"
      using get_value [OF I(1) looked(3) [unfolded y(1)] can] by simp_all
    note n = normalized_manifest [OF looked(1,2)]
    have "cm_ManifestDigest y = d"
      using EvaluateManifestConflict_canonical [OF n(11) hash64_canonical [OF n(1,2)], of "Some y"] visible_canonical [OF I(1) v(1)] v(2) y(2)
      by (simp split: if_splits)
    moreover have "DigestWireManifest m = Inr d" using looked(1,2) by (simp add: DigestWireManifest_def)
    ultimately show ?thesis using s' v y by (simp add: replica_outcome_def Let_def)
  qed
next
  case (unstaged d ex s1 look x)
  have s1: "inv s1" "visible s1 = visible s" "honest s1" using get [OF I(1) unstaged(3)] get_honest [OF I unstaged(3)] by simp_all
  have "canonical d" using normalized_manifest(1,2) [OF unstaged(1,2)] hash64_canonical by simp
  with s1 unstaged(6) show ?thesis
    using staging [OF s1(1) unstaged(4,5)] staging_honest [OF s1(1,3) unstaged(4) _ unstaged(5)] replica_refused by simp
next
  case (running d ex s1 resume hv s2)
  have s1: "inv s1" "visible s1 = visible s" "honest s1" using get [OF I(1) running(3)] get_honest [OF I running(3)] by simp_all
  note n = normalized_manifest [OF running(1,2)]
  have cd: "canonical d" by (rule hash64_canonical [OF n(1,2)])
  have v: "visible s (to_lower (wm_LocatorHash m)) = map_option (\<lambda>c. (cm_ManifestDigest c, cm_GenerationID c)) ex"
    "\<forall>y. ex = Some y \<longrightarrow> cm_Status y = FleetMappingCommitted"
    using get_value [OF I(1) running(3) canonical_normalized(2) [OF running(1,2)]] by simp_all
  have "ex = None"
  proof (cases ex)
    case (Some y)
    then have "canonical (cm_ManifestDigest y)" using visible_canonical [OF I(1)] v(1) by simp
    then show ?thesis
      using EvaluateManifestConflict_canonical [OF n(11) cd, of "Some y"] v(2) Some running(4) [OF Some] by (simp split: if_splits)
  qed
  then have none: "visible s (to_lower (wm_LocatorHash m)) = None" using v by simp
  have s2: "inv s2 \<and> honest s2 \<and> visible s2 = visible s \<and> (\<forall>i g. resume = Some (i, g) \<longrightarrow> importing s2 i g d \<and> set hv = present s2 g)"
    using running(5) unfolding staging_found_def
  proof
    assume "is_GetStaging sk = None \<and> resume = None \<and> hv = [] \<and> s2 = s1"
    then show ?thesis using s1 by simp
  next
    assume "\<exists>look. is_GetStaging sk = Some look \<and>
        (look (to_lower (wm_LocatorHash m)) d s1 = (Inr None, s2) \<and> resume = None \<and> hv = [] \<or>
         (\<exists>i g. look (to_lower (wm_LocatorHash m)) d s1 = (Inr (Some (i, g, hv)), s2) \<and> resume = Some (i, g)))"
    then obtain look r where l: "is_GetStaging sk = Some look" "look (to_lower (wm_LocatorHash m)) d s1 = (r, s2)"
      and r: "r = Inr None \<and> resume = None \<or> (\<exists>i g. r = Inr (Some (i, g, hv)) \<and> resume = Some (i, g))" by blast
    show ?thesis using staging [OF s1(1) l] staging_honest [OF s1(1,3) l(1) cd l(2)] s1(2) r by auto
  qed
  have "inv s' \<and> honest s' \<and> replica_outcome s2 m res e s'"
    by (rule replicateInto_correct [OF _ _ agr running(1,2) _ _ running(6)]) (use s2 none in auto)
  then show ?thesis using s2 replica_outcome_from by blast
qed

end

end
