(* ===== verification/PeerImportCorrect.thy ===== *)
theory PeerImportCorrect
  imports PeerImport ImportSinks
begin

text \<open>
  The store keeps the contract of an import sink: the interpretation of \<open>import_sink\<close> on \<open>PeerSink\<close>, and
  the properties of imports that follow.
\<close>

section \<open>Frame files\<close>

lemma hmacEqualHex_iff: "hmacEqualHex a b \<longleftrightarrow> a = b"
proof -
  have inj: "(of_char x :: 8 word) = of_char y \<longleftrightarrow> x = y" for x y :: char
  proof
    assume "(of_char x :: 8 word) = of_char y"
    then have "unat (of_nat (of_char x) :: 8 word) = unat (of_nat (of_char y) :: 8 word)"
      by (simp only: of_nat_of_char)
    then have "(of_char x :: nat) = of_char y" by (simp add: unat_of_nat)
    then show "x = y" by simp
  qed simp
  have "v XOR w = 0 \<longleftrightarrow> v = w" for v w :: "8 word"
    by (metis xor.assoc xor.left_neutral xor.right_neutral xor_self_eq)
  then have xor0: "(of_char x :: 8 word) XOR of_char y = 0 \<longleftrightarrow> x = y" for x y :: char
    by (simp add: inj)
  have fold0: "foldl (\<lambda>v p. v OR ((of_char (fst p) :: 8 word) XOR of_char (snd p))) v ps = 0 \<longleftrightarrow>
      v = 0 \<and> (\<forall>(x, y) \<in> set ps. x = y)" for v and ps :: "(char \<times> char) list"
    by (induction ps arbitrary: v) (auto simp: xor0 or_eq_0_iff)
  show ?thesis
  proof (cases "length a = length b")
    case True
    then have "(\<forall>(x, y) \<in> set (zip a b). x = y) \<longleftrightarrow> a = b"
      by (induction a b rule: list_induct2) auto
    with True fold0 show ?thesis by (simp add: hmacEqualHex_def)
  qed (auto simp: hmacEqualHex_def)
qed

lemma show_int_chars_plain: "c \<in> set (show_int i) \<Longrightarrow> c \<noteq> CHR ''/'' \<and> c \<noteq> CHR ''.'' \<and> printing c"
  using show_int_chars [of c i] by (auto simp: printing_def)

lemma show_int_no_slash: "CHR ''/'' \<notin> set (show_int i)" "CHR ''.'' \<notin> set (show_int i)" "list_all printing (show_int i)"
  using show_int_chars_plain by (fastforce simp: list_all_iff)+

lemma FrameRelPath_inj:
  assumes "FrameRelPath g q = FrameRelPath g' q'"
  shows "g = g' \<and> q = q'"
proof -
  have parts: "split_on CHR ''/'' (FrameRelPath g q) = [FramesDirName, show_int g, show_int q @ ''.zst'']" for g q
    unfolding FrameRelPath_def
    using split_on_app [of "CHR ''/''" FramesDirName "show_int g @ ''/'' @ show_int q @ ''.zst''"]
      split_on_app [of "CHR ''/''" "show_int g" "show_int q @ ''.zst''"] show_int_no_slash
    by (simp add: split_on_id FramesDirName_def)
  have "split_on CHR ''/'' (FrameRelPath g q) = split_on CHR ''/'' (FrameRelPath g' q')" by (simp only: assms)
  then have "show_int g = show_int g'" "show_int q = show_int q'" by (simp_all only: parts list.inject append_same_eq)
  then show ?thesis using show_int_inj by blast
qed

lemma FrameAbsPath_rel: "FrameAbsPath (FrameRelPath g q) = Inr (FrameRelPath g q)"
proof -
  let ?p = "FrameRelPath g q"
  have "list_all printing ?p"
    using show_int_no_slash by (simp add: FrameRelPath_def FramesDirName_def printing_def list.pred_map)
  then have t: "trim_space ?p = ?p" by (rule trim_space_printing)
  have "\<not> str_contains ?p ''..''"
  proof
    assume "str_contains ?p ''..''"
    then obtain a b where "?p = a @ ''..'' @ b" by (auto simp: str_contains_iff)
    then have "count_list ?p CHR ''.'' \<ge> 2" by simp
    moreover have "count_list ?p CHR ''.'' = 1"
      using show_int_no_slash by (simp add: FrameRelPath_def FramesDirName_def)
    ultimately show False by simp
  qed
  then show ?thesis using t
    by (simp add: FrameAbsPath_def Let_def) (simp add: FrameRelPath_def FramesDirName_def has_prefix_def)
qed

section \<open>The invariant of the tables\<close>

definition meta_inv :: "Meta \<Rightarrow> bool" where
  "meta_inv m \<longleftrightarrow>
     distinct (map fm_LocatorHash (mt_mappings m)) \<and> (\<forall>r \<in> set (mt_mappings m). canonical (fm_ManifestDigest r)) \<and>
     distinct (map fj_ID (mt_journal m)) \<and> distinct (map fj_GenerationID (mt_journal m)) \<and>
     (\<forall>j \<in> set (mt_journal m). 0 < fj_ID j \<and> fj_ID j \<le> mt_lastImport m \<and> 0 < fj_GenerationID j \<and> fj_GenerationID j \<le> mt_lastGeneration m) \<and>
     0 \<le> mt_lastImport m \<and> 0 \<le> mt_lastGeneration m \<and>
     distinct (map lg_ID (mt_generations m)) \<and> (\<forall>h \<in> set (mt_generations m). lg_ID h \<le> mt_lastGeneration m) \<and>
     (\<forall>c \<in> set (mt_chunks m). ch_GenerationID c \<le> mt_lastGeneration m \<and> ch_RelPath c = FrameRelPath (ch_GenerationID c) (ch_Seq c)) \<and>
     distinct (map (\<lambda>c. (ch_GenerationID c, ch_Seq c)) (mt_chunks m))"

text \<open>\<open>same_objects\<close>: neither a chunk nor a mapping changed; \<open>same_imports\<close>: nor which import has which generation
  and version.\<close>

definition same_objects :: "Meta \<Rightarrow> Meta \<Rightarrow> bool" where
  "same_objects m m' \<longleftrightarrow> mt_chunks m' = mt_chunks m \<and> mt_mappings m' = mt_mappings m"

definition import_keys :: "Meta \<Rightarrow> (int \<times> int \<times> string \<times> int) list" where
  "import_keys m = map (\<lambda>j. (fj_ID j, fj_GenerationID j, fj_ManifestDigest j, fj_FramesTotal j)) (mt_journal m)"

lemma keys_ids: "map fj_ID (mt_journal m) = map fst (import_keys m)"
  "map fj_GenerationID (mt_journal m) = map (fst \<circ> snd) (import_keys m)"
  by (simp_all add: import_keys_def comp_def)

lemma keys_bound:
  "(\<forall>j \<in> set (mt_journal m). 0 < fj_ID j \<and> fj_ID j \<le> a \<and> 0 < fj_GenerationID j \<and> fj_GenerationID j \<le> b) \<longleftrightarrow>
   (\<forall>(i, g, d, n) \<in> set (import_keys m). 0 < i \<and> i \<le> a \<and> 0 < g \<and> g \<le> b)"
  by (auto simp: import_keys_def)

text \<open>An operation that keeps the keys of the imports, the ids of the generations and the objects keeps
  the invariant.\<close>

lemma meta_inv_frame:
  assumes "meta_inv m" and "same_objects m m'" and "import_keys m' = import_keys m"
    and "map lg_ID (mt_generations m') = map lg_ID (mt_generations m)"
    and "mt_lastImport m' = mt_lastImport m" and "mt_lastGeneration m' = mt_lastGeneration m"
  shows "meta_inv m'"
proof -
  have "(\<forall>h \<in> set (mt_generations m'). lg_ID h \<le> n) = (\<forall>h \<in> set (mt_generations m). lg_ID h \<le> n)" for n
    using assms(4) by (metis (mono_tags, lifting) imageE image_eqI list.set_map)
  then show ?thesis
    using assms unfolding meta_inv_def keys_bound same_objects_def keys_ids by simp
qed

lemma InsertGeneration_ok:
  assumes "InsertGeneration fails g m = (Inr i, m')"
  shows "i = mt_lastGeneration m + 1"
    and "m' = m\<lparr> mt_generations := mt_generations m @ [g\<lparr> lg_ID := i \<rparr>], mt_lastGeneration := i \<rparr>"
  using assms by (auto simp: InsertGeneration_def Let_def split: option.splits if_splits)

lemma InsertGeneration_err: "InsertGeneration fails g m = (Inl e, m') \<Longrightarrow> m' = m"
  by (auto simp: InsertGeneration_def Let_def split: option.splits if_splits)

lemma meta_inv_new_generation:
  assumes "meta_inv m"
  shows "meta_inv (m\<lparr> mt_generations := mt_generations m @ [g\<lparr> lg_ID := mt_lastGeneration m + 1 \<rparr>],
      mt_lastGeneration := mt_lastGeneration m + 1 \<rparr>)"
  using assms unfolding meta_inv_def by (simp) (smt (verit, best) imageE)

lemma BeginFleetImport_ok:
  assumes "BeginFleetImport flt lh d n m = (Inr (i, g), m')" and "meta_inv m"
  shows "meta_inv m'" and "same_objects m m'" and "g = mt_lastGeneration m + 1"
    and "import_keys m' = import_keys m @ [(i, g, norm_hash d, n)]" and "mt_lastGeneration m' = g" and "1 \<le> n"
proof -
  obtain h m1 where ins: "InsertGeneration (flt 1) h m = (Inr g, m1)"
    and m': "m' = m1\<lparr> mt_lastImport := i, mt_journal := mt_journal m1 @
                 [\<lparr> fj_ID = i, fj_LocatorHash = norm_hash lh, fj_ManifestDigest = norm_hash d, fj_Status = FleetImportStaging,
                    fj_GenerationID = g, fj_FramesDone = 0, fj_FramesTotal = n \<rparr>] \<rparr>"
    and i: "i = mt_lastImport m1 + 1" and n: "1 \<le> n"
    using assms(1) by (auto simp: BeginFleetImport_def Let_def split: if_splits prod.splits sum.splits)
  note g = InsertGeneration_ok [OF ins]
  have 1: "meta_inv m1" using meta_inv_new_generation [OF assms(2)] g by simp
  have "fj_GenerationID j \<noteq> g" if "j \<in> set (mt_journal m)" for j
    using that assms(2) g(1) by (fastforce simp: meta_inv_def)
  then show "meta_inv m'"
    using 1 assms(2) unfolding m' g(2) i meta_inv_def by (simp) (smt (verit, best) imageE g(1))
  show "same_objects m m'" "g = mt_lastGeneration m + 1" "import_keys m' = import_keys m @ [(i, g, norm_hash d, n)]"
    "mt_lastGeneration m' = g" "1 \<le> n"
    using m' g n by (simp_all add: same_objects_def import_keys_def)
qed

lemma BeginFleetImport_err:
  assumes "BeginFleetImport flt lh d n m = (Inl e, m')" and "meta_inv m"
  shows "meta_inv m'" and "same_objects m m'" and "import_keys m' = import_keys m"
proof -
  have "m' = m \<or> (\<exists>h g. InsertGeneration (flt 1) h m = (Inr g, m'))"
    using assms(1) InsertGeneration_err
    by (auto simp: BeginFleetImport_def Let_def split: if_splits prod.splits sum.splits)
  then consider "m' = m" | h g where "m' = m\<lparr> mt_generations := mt_generations m @ [h\<lparr> lg_ID := mt_lastGeneration m + 1 \<rparr>],
      mt_lastGeneration := mt_lastGeneration m + 1 \<rparr>"
    using InsertGeneration_ok by metis
  then show "meta_inv m'" "same_objects m m'" "import_keys m' = import_keys m"
    by (cases; use assms(2) meta_inv_new_generation in \<open>simp add: same_objects_def import_keys_def\<close>)+
qed

lemma keys_map:
  assumes "\<And>j. fj_ID (u j) = fj_ID j" and "\<And>j. fj_GenerationID (u j) = fj_GenerationID j"
    and "\<And>j. fj_ManifestDigest (u j) = fj_ManifestDigest j" and "\<And>j. fj_FramesTotal (u j) = fj_FramesTotal j"
  shows "import_keys (m\<lparr> mt_journal := map u (mt_journal m) \<rparr>) = import_keys m"
  using assms by (simp add: import_keys_def comp_def)

text \<open>\<open>quiet m m'\<close>: only progress, statuses of imports and offsets changed.\<close>

definition quiet :: "Meta \<Rightarrow> Meta \<Rightarrow> bool" where
  "quiet m m' \<longleftrightarrow> same_objects m m' \<and> import_keys m' = import_keys m \<and>
     map lg_ID (mt_generations m') = map lg_ID (mt_generations m) \<and>
     mt_lastImport m' = mt_lastImport m \<and> mt_lastGeneration m' = mt_lastGeneration m"

lemma quiet_refl [simp]: "quiet m m" by (simp add: quiet_def same_objects_def)

lemma quiet_trans: "quiet a b \<Longrightarrow> quiet b c \<Longrightarrow> quiet a c" by (simp add: quiet_def same_objects_def)

lemma quiet_inv: "meta_inv m \<Longrightarrow> quiet m m' \<Longrightarrow> meta_inv m'"
  using meta_inv_frame by (simp add: quiet_def)

lemma quiet_journal:
  assumes "\<And>j. fj_ID (u j) = fj_ID j" and "\<And>j. fj_GenerationID (u j) = fj_GenerationID j"
    and "\<And>j. fj_ManifestDigest (u j) = fj_ManifestDigest j" and "\<And>j. fj_FramesTotal (u j) = fj_FramesTotal j"
  shows "quiet m (m\<lparr> mt_journal := map u (mt_journal m) \<rparr>)"
  using keys_map [OF assms] by (simp add: quiet_def same_objects_def)

lemma AdvanceFleetImportFrames_quiet: "AdvanceFleetImportFrames fails i n m = (e, m') \<Longrightarrow> quiet m m'"
  by (auto simp: AdvanceFleetImportFrames_def Let_def split: if_splits intro!: quiet_journal)

lemma AbortFleetImport_quiet: "AbortFleetImport fails i m = (e, m') \<Longrightarrow> quiet m m'"
  by (auto simp: AbortFleetImport_def split: if_splits intro!: quiet_journal)

lemma UpdateGenerationOffset_quiet: "UpdateGenerationOffset fails i a b c d m = (e, m') \<Longrightarrow> quiet m m'"
  by (auto simp: UpdateGenerationOffset_def quiet_def same_objects_def import_keys_def comp_def split: if_splits option.splits)

lemma SealGeneration_quiet: "SealGeneration fails i m = (e, m') \<Longrightarrow> quiet m m'"
  by (auto simp: SealGeneration_def quiet_def same_objects_def import_keys_def comp_def split: if_splits)

lemma journalCommitted_quiet: "quiet m (journalCommitted i m)"
  unfolding journalCommitted_def by (rule quiet_journal) simp_all

text \<open>The publishing transaction changes at most the mapping of its locator.\<close>

definition published_row :: "string \<Rightarrow> Meta \<Rightarrow> FleetObjectMapping option" where
  "published_row lh m = List.find (\<lambda>r. fm_LocatorHash r = lh \<and> fm_Status r = FleetMappingCommitted) (mt_mappings m)"

lemma find_unique:
  "distinct (map k xs) \<Longrightarrow> x \<in> set xs \<Longrightarrow> k x = a \<Longrightarrow> List.find (\<lambda>x. k x = a \<and> P x) xs = (if P x then Some x else None)"
  by (induction xs) (auto simp: find_None_iff rev_image_eqI)

lemma find_key: "distinct (map k xs) \<Longrightarrow> List.find (\<lambda>x. k x = a) xs = Some x \<Longrightarrow> x \<in> set xs \<and> k x = a"
  by (auto simp: find_Some_iff)

lemma find_upd_other:
  "a \<noteq> b \<Longrightarrow> k r = a \<Longrightarrow> List.find (\<lambda>x. k x = b \<and> P x) (map (\<lambda>x. if k x = a then r else x) xs) = List.find (\<lambda>x. k x = b \<and> P x) xs"
  by (induction xs) auto

lemma find_upd_same:
  "k r = a \<Longrightarrow> P r \<Longrightarrow> x \<in> set xs \<Longrightarrow> k x = a \<Longrightarrow>
   List.find (\<lambda>x. k x = a \<and> P x) (map (\<lambda>x. if k x = a then r else x) xs) = Some r"
  by (induction xs) auto

lemma find_SomeD: "List.find P xs = Some x \<Longrightarrow> x \<in> set xs \<and> P x"
  by (induction xs) (auto split: if_splits)

lemma find_append: "List.find P (xs @ ys) = (case List.find P xs of None \<Rightarrow> List.find P ys | Some x \<Rightarrow> Some x)"
  by (induction xs) auto

lemma quiet_published: "quiet m m' \<Longrightarrow> published_row lh m' = published_row lh m"
  by (simp add: quiet_def same_objects_def published_row_def)

lemma committed_after:
  "meta_inv m \<Longrightarrow> meta_inv (journalCommitted i m)" "mt_chunks (journalCommitted i m) = mt_chunks m"
  "import_keys (journalCommitted i m) = import_keys m" "published_row l (journalCommitted i m) = published_row l m"
proof -
  note q = journalCommitted_quiet [of m i]
  show "meta_inv m \<Longrightarrow> meta_inv (journalCommitted i m)" by (rule quiet_inv [OF _ q])
  show "published_row l (journalCommitted i m) = published_row l m" by (rule quiet_published [OF q])
  show "mt_chunks (journalCommitted i m) = mt_chunks m" "import_keys (journalCommitted i m) = import_keys m"
    using q by (simp_all add: quiet_def same_objects_def)
qed

lemma commitTx_fails: "commitTx flt i g lh d f p c m = (Some e, m') \<Longrightarrow> m' = m"
  by (auto simp: commitTx_def Let_def split: if_splits option.splits)

lemma commitTx_ok:
  assumes "commitTx flt i g lh d f p c m = (None, m')" and "meta_inv m" and "canonical d"
  shows "meta_inv m'" and "mt_chunks m' = mt_chunks m" and "import_keys m' = import_keys m"
    and "\<And>l. l \<noteq> lh \<Longrightarrow> published_row l m' = published_row l m"
    and "(case published_row lh m of
            None \<Rightarrow> \<exists>r. published_row lh m' = Some r \<and> fm_ManifestDigest r = d \<and> fm_GenerationID r = g
          | Some r \<Rightarrow> fm_ManifestDigest r = d \<and> published_row lh m' = published_row lh m)"
proof -
  let ?row = "\<lparr> fm_LocatorHash = lh, fm_ManifestDigest = d, fm_FleetID = f, fm_CachePool = p,
                     fm_ControllerID = c, fm_GenerationID = g, fm_Status = FleetMappingCommitted \<rparr>"
  have dist: "distinct (map fm_LocatorHash (mt_mappings m))" and can: "\<forall>r \<in> set (mt_mappings m). canonical (fm_ManifestDigest r)"
    using assms(2) by (simp_all add: meta_inv_def)
  let ?F = "List.find (\<lambda>r. fm_LocatorHash r = lh) (mt_mappings m)"
  consider
    (none) "?F = None" "m' = journalCommitted i (m\<lparr> mt_mappings := mt_mappings m @ [?row] \<rparr>)"
  | (same) r where "?F = Some r" "fm_Status r = FleetMappingCommitted" "equal_fold (fm_ManifestDigest r) d" "m' = journalCommitted i m"
  | (quar) r where "?F = Some r" "fm_Status r \<noteq> FleetMappingCommitted"
      "m' = journalCommitted i (m\<lparr> mt_mappings := map (\<lambda>r. if fm_LocatorHash r = lh then ?row else r) (mt_mappings m) \<rparr>)"
    using assms(1) by (auto simp: commitTx_def Let_def split: if_splits option.splits)
  then have "meta_inv m' \<and> mt_chunks m' = mt_chunks m \<and> import_keys m' = import_keys m \<and>
    (\<forall>l. l \<noteq> lh \<longrightarrow> published_row l m' = published_row l m) \<and>
    (case published_row lh m of
            None \<Rightarrow> \<exists>r. published_row lh m' = Some r \<and> fm_ManifestDigest r = d \<and> fm_GenerationID r = g
          | Some r \<Rightarrow> fm_ManifestDigest r = d \<and> published_row lh m' = published_row lh m)"
  proof cases
    case none
    let ?m = "m\<lparr> mt_mappings := mt_mappings m @ [?row] \<rparr>"
    have new: "fm_LocatorHash r \<noteq> lh" if "r \<in> set (mt_mappings m)" for r
      using none(1) that by (auto simp: find_None_iff)
    then have old: "published_row lh m = None" by (auto simp: published_row_def find_None_iff)
    moreover have "meta_inv ?m" using assms(2,3) new by (auto simp: meta_inv_def)
    moreover have "published_row l ?m = (if l = lh then Some ?row else published_row l m)" for l
      using old by (cases "l = lh") (auto simp: published_row_def find_append split: option.split)
    moreover note committed_after [where m = ?m and i = i]
    ultimately show ?thesis unfolding none(2) by (simp add: import_keys_def)
  next
    case same
    have "r \<in> set (mt_mappings m)" "fm_LocatorHash r = lh" using find_key [OF dist same(1)] by simp_all
    then have "published_row lh m = Some r"
      using find_unique [OF dist, of r lh "\<lambda>r. fm_Status r = FleetMappingCommitted"] same(2) by (simp add: published_row_def)
    moreover have "fm_ManifestDigest r = d"
      using same(3) can \<open>r \<in> set (mt_mappings m)\<close> assms(3) by (auto simp: canonical_def equal_fold_def)
    ultimately show ?thesis
      using committed_after [where m = m and i = i] assms(2) unfolding same(4) by simp
  next
    case quar
    let ?m = "m\<lparr> mt_mappings := map (\<lambda>r. if fm_LocatorHash r = lh then ?row else r) (mt_mappings m) \<rparr>"
    have r: "r \<in> set (mt_mappings m)" "fm_LocatorHash r = lh" using find_key [OF dist quar(1)] by simp_all
    then have "published_row lh m = None"
      using find_unique [OF dist, of r lh "\<lambda>r. fm_Status r = FleetMappingCommitted"] quar(2) by (simp add: published_row_def)
    have keys: "map fm_LocatorHash (mt_mappings ?m) = map fm_LocatorHash (mt_mappings m)"
      by (simp add: comp_def)
    have "distinct (map fm_LocatorHash (mt_mappings ?m))" unfolding keys by (rule dist)
    moreover have "\<forall>r \<in> set (mt_mappings ?m). canonical (fm_ManifestDigest r)" using can assms(3) by auto
    ultimately have "meta_inv ?m" using assms(2) by (simp add: meta_inv_def)
    note this \<open>published_row lh m = None\<close>
    moreover have "published_row l ?m = (if l = lh then Some ?row else published_row l m)" for l
      using find_upd_same [of fm_LocatorHash ?row lh "\<lambda>r. fm_Status r = FleetMappingCommitted" r "mt_mappings m"] r
        find_upd_other [of lh l fm_LocatorHash ?row "\<lambda>r. fm_Status r = FleetMappingCommitted" "mt_mappings m"]
      by (simp add: published_row_def)
    moreover note committed_after [where m = ?m and i = i]
    ultimately show ?thesis unfolding quar(3) by (simp add: import_keys_def)
  qed
  then show "meta_inv m'" "mt_chunks m' = mt_chunks m" "import_keys m' = import_keys m"
    "\<And>l. l \<noteq> lh \<Longrightarrow> published_row l m' = published_row l m"
    "(case published_row lh m of
            None \<Rightarrow> \<exists>r. published_row lh m' = Some r \<and> fm_ManifestDigest r = d \<and> fm_GenerationID r = g
          | Some r \<Rightarrow> fm_ManifestDigest r = d \<and> published_row lh m' = published_row lh m)" by blast+
qed

section \<open>Stored frames\<close>

text \<open>A chunk row and its file hold frame \<open>f\<close>: the file is a seal of bytes with the digest of the manifest that
  decompress to content with the digest and the length of the manifest, and its own digest is on record.\<close>

definition frame_file :: "PeerImportSink \<Rightarrow> int \<Rightarrow> WireFrame \<Rightarrow> Chunk \<Rightarrow> bool" where
  "frame_file s g f c \<longleftrightarrow>
     ch_GenerationID c = g \<and> ch_Seq c = wf_Seq f \<and> ch_RawStart c = wf_RawStart f \<and> ch_RawEnd c = wf_RawEnd f \<and>
     ch_UncompressedSize c = wf_RawEnd f - wf_RawStart f \<and> ch_FormatVersion c = FrameFormatVersion \<and>
     (\<exists>z raw b nonce. z \<noteq> [] \<and> \<not> has_prefix z CryptoMagic \<and> ps_Files s (ch_RelPath c) = Some b \<and> hexSum b = ch_FrameSHA256 c \<and>
        sealCompressed (ps_Crypto s) nonce g (wf_Seq f) FrameFormatVersion z = Inr (b, ch_EncAlg c, ch_EncKeyVersion c) \<and>
        ch_ZstdSHA256 c = hexSum z \<and> hexSum z = to_lower (wf_ZstdSHA256 f) \<and> ps_Zstd s z = Inr raw \<and>
        ch_ContentSHA256 c = hexSum raw \<and> hexSum raw = to_lower (wf_DecodedSHA256 f) \<and>
        int (length raw) = wf_RawEnd f - wf_RawStart f)"

definition ps_stored :: "PeerImportSink \<Rightarrow> int \<Rightarrow> WireFrame \<Rightarrow> bool" where
  "ps_stored s g f = (\<exists>c \<in> set (mt_chunks (ps_Meta s)). frame_file s g f c)"

definition ps_visible :: "PeerImportSink \<Rightarrow> string \<rightharpoonup> string \<times> int" where
  "ps_visible s lh = map_option (\<lambda>r. (fm_ManifestDigest r, fm_GenerationID r)) (published_row lh (ps_Meta s))"

definition ps_inv :: "PeerImportSink \<Rightarrow> bool" where "ps_inv s = meta_inv (ps_Meta s)"

definition ps_present :: "PeerImportSink \<Rightarrow> int \<Rightarrow> int set" where
  "ps_present s g = ch_Seq ` set (chunksOf g (ps_Meta s))"

text \<open>The view of a sink: all that its abstraction looks at.\<close>

definition view :: "PeerImportSink \<Rightarrow> Chunk list \<times> FleetObjectMapping list \<times> FrameFiles \<times> FrameCrypto option \<times> (string \<Rightarrow> apperr + string)" where
  "view s = (mt_chunks (ps_Meta s), mt_mappings (ps_Meta s), ps_Files s, ps_Crypto s, ps_Zstd s)"

lemma view_stored: "view s' = view s \<Longrightarrow> ps_stored s' = ps_stored s"
  by (intro ext) (simp add: view_def ps_stored_def frame_file_def)

lemma view_visible: "view s' = view s \<Longrightarrow> ps_visible s' = ps_visible s"
  by (intro ext) (simp add: view_def ps_visible_def published_row_def)

lemma view_present: "view s' = view s \<Longrightarrow> ps_present s' = ps_present s"
  by (intro ext) (simp add: view_def ps_present_def chunksOf_def)

lemma same_view: "same_objects (ps_Meta s) m \<Longrightarrow> view (s\<lparr> ps_Meta := m, ps_framesDone := x, ps_calls := n \<rparr>) = view s"
  by (simp add: view_def same_objects_def)

lemma InsertChunk_effect:
  assumes "InsertChunk fails c m = (e, m')"
  obtains (no) "e \<noteq> None" "m' = m"
    | (yes) "e = None" "m' = m\<lparr> mt_chunks := mt_chunks m @ [c] \<rparr>" "\<forall>d \<in> set (chunksOf (ch_GenerationID c) m). ch_Seq d \<noteq> ch_Seq c"
        "\<exists>g \<in> set (mt_generations m). lg_ID g = ch_GenerationID c"
  using assms by (auto simp: InsertChunk_def split: if_splits)

lemma ImportPureZstdFrame_effect:
  assumes "ImportPureZstdFrame flt zstd cr nonce g sp (m, fs) = (e, m', fs')"
  obtains (no) "e \<noteq> None" "m' = m" "fs' = fs"
    | (written) raw b alg ver where "checkImportFrame flt zstd g sp = Inr raw"
        "sealCompressed cr nonce g (sp_Seq sp) FrameFormatVersion (sp_PureZstd sp) = Inr (b, alg, ver)"
        "fs' = fs(FrameRelPath g (sp_Seq sp) \<mapsto> b)" "e \<noteq> None" "m' = m"
    | (recorded) raw b alg ver cps le where "checkImportFrame flt zstd g sp = Inr raw"
        "sealCompressed cr nonce g (sp_Seq sp) FrameFormatVersion (sp_PureZstd sp) = Inr (b, alg, ver)"
        "fs' = fs(FrameRelPath g (sp_Seq sp) \<mapsto> b)" "e = None"
        "InsertChunk (flt 3) (importedChunk g sp raw cps le b alg ver) m = (None, m')"
proof (cases "checkImportFrame flt zstd g sp")
  case (Inl x)
  then show thesis using assms no by (auto simp: ImportPureZstdFrame_def)
next
  case raw: (Inr raw)
  show thesis
  proof (cases "sealCompressed cr nonce g (sp_Seq sp) FrameFormatVersion (sp_PureZstd sp)")
    case (Inl x)
    then show thesis using assms no raw by (auto simp: ImportPureZstdFrame_def)
  next
    case (Inr t)
    then obtain b alg ver where seal: "sealCompressed cr nonce g (sp_Seq sp) FrameFormatVersion (sp_PureZstd sp) = Inr (b, alg, ver)"
      by (cases t) auto
    show thesis
    proof (cases "importLines sp raw")
      case (Inl x)
      then show thesis using assms no raw seal by (auto simp: ImportPureZstdFrame_def)
    next
      case (Inr t)
      then obtain cps le where lines: "importLines sp raw = Inr (cps, le)" by (cases t) auto
      note u = assms [unfolded ImportPureZstdFrame_def prod.case raw seal lines FrameAbsPath_rel sum.case]
      obtain w fs1 where w: "writeFileAtomic (\<lambda>k. flt (1 + k)) (FrameRelPath g (sp_Seq sp)) b fs = (w, fs1)" by fastforce
      show thesis
      proof (cases w)
        case (Some x)
        with u w have "m' = m" "fs' = fs1" "e \<noteq> None" by auto
        with w Some show thesis using no written [OF raw seal]
          by (auto simp: writeFileAtomic_def Let_def split: if_splits)
      next
        case None
        with w have fs1: "fs1 = fs(FrameRelPath g (sp_Seq sp) \<mapsto> b)"
          by (auto simp: writeFileAtomic_def Let_def split: if_splits)
        obtain x m1 where ins: "InsertChunk (flt 3) (importedChunk g sp raw cps le b alg ver) m = (x, m1)" by fastforce
        with u w None have e: "e = x" "m' = m1" "fs' = fs1" by auto
        show thesis
        proof (cases x)
          case None
          then show thesis using recorded [OF raw seal] ins e fs1 by simp
        next
          case (Some y)
          have "m1 = m" by (rule InsertChunk_effect [OF ins]) (use Some in auto)
          then show thesis using written [OF raw seal] e fs1 Some by simp
        qed
      qed
    qed
  qed
qed

lemma checkImportFrame_ok:
  assumes "checkImportFrame flt zstd g sp = Inr raw"
  shows "0 < g" and "0 \<le> sp_Seq sp" and "zstd (sp_PureZstd sp) = Inr raw" and "int (length raw) = sp_RawEnd sp - sp_RawStart sp"
    and "sp_PureZstd sp \<noteq> []" and "\<not> has_prefix (sp_PureZstd sp) CryptoMagic"
    and "sp_ZstdSHA256 sp \<noteq> [] \<Longrightarrow> hexSum (sp_PureZstd sp) = to_lower (sp_ZstdSHA256 sp)"
    and "sp_DecodedSHA256 sp \<noteq> [] \<Longrightarrow> hexSum raw = to_lower (sp_DecodedSHA256 sp)"
  using assms
  by (auto simp: checkImportFrame_def DecompressZstdFrame_def hmacEqualHex_iff Let_def split: if_splits sum.splits)

text \<open>What writing a frame does to the store.\<close>

lemma ps_WriteFrame_effect:
  assumes "ps_WriteFrame i g f z s = (e, s')"
  obtains (no) "e \<noteq> None" "view s' = view s" "quiet (ps_Meta s) (ps_Meta s')"
    | (written) b where "e \<noteq> None" "quiet (ps_Meta s) (ps_Meta s')" "0 < g"
        "ps_Files s' = (ps_Files s)(FrameRelPath g (wf_Seq f) \<mapsto> b)" "ps_Crypto s' = ps_Crypto s" "ps_Zstd s' = ps_Zstd s"
    | (recorded) c m b where "InsertChunk False c (ps_Meta s) = (None, m)" "quiet m (ps_Meta s')"
        "ps_Files s' = (ps_Files s)(FrameRelPath g (wf_Seq f) \<mapsto> b)" "ps_Crypto s' = ps_Crypto s" "ps_Zstd s' = ps_Zstd s"
        "ch_GenerationID c = g" "ch_Seq c = wf_Seq f" "ch_RelPath c = FrameRelPath g (wf_Seq f)" "0 < g"
        "frame_digests f \<Longrightarrow> frame_file s' g f c"
proof (cases "\<exists>j. GetFleetImport (faults s 0) i (ps_Meta s) = Inr j \<and> fj_Status j = FleetImportStaging \<and> fj_GenerationID j = g")
  case False
  then show thesis using assms no by (auto simp: ps_WriteFrame_def view_def split: sum.splits if_splits)
next
  case True
  then obtain j where j: "GetFleetImport (faults s 0) i (ps_Meta s) = Inr j" "fj_Status j = FleetImportStaging" "fj_GenerationID j = g"
    by blast
  obtain x m fs where imp: "ImportPureZstdFrame (\<lambda>k. faults s (1 + k)) (ps_Zstd s) (ps_Crypto s) (ps_nonce s (ps_calls s)) g (specOf f z)
      (ps_Meta s, ps_Files s) = (x, m, fs)" by (metis prod_cases3)
  show thesis
  proof (cases x)
    case (Some y)
    have u: "e = Some y" "s' = (called s)\<lparr> ps_Meta := m, ps_Files := fs \<rparr>"
      using assms j imp Some by (auto simp: ps_WriteFrame_def)
    from imp show thesis
    proof (cases rule: ImportPureZstdFrame_effect)
      case no
      then show ?thesis using u that(1) by (simp add: view_def)
    next
      case (written raw b alg ver)
      then show ?thesis using u that(2) [of b] checkImportFrame_ok(1) [OF written(1)] by (simp add: specOf_def)
    qed (use Some in simp)
  next
    case None
    from imp show thesis
    proof (cases rule: ImportPureZstdFrame_effect)
      case (recorded raw b alg ver cps le)
      let ?c = "importedChunk g (specOf f z) raw cps le b alg ver"
      note ck = checkImportFrame_ok [OF recorded(1)]
      have ins: "InsertChunk False ?c (ps_Meta s) = (None, m)"
        using recorded(5) by (auto simp: InsertChunk_def split: if_splits)
      obtain nd a m' where adv: "AdvanceFleetImportFrames (faults s 5) i nd m = (a, m')"
        and s': "s' = (called s)\<lparr> ps_Meta := m', ps_Files := fs, ps_framesDone := (ps_framesDone s)(i \<mapsto> nd) \<rparr>"
        using assms j imp None by (auto simp: ps_WriteFrame_def Let_def split: prod.splits)
      have "frame_file s' g f ?c" if d: "frame_digests f"
      proof -
        have "z \<noteq> []" "\<not> has_prefix z CryptoMagic"
          "hexSum z = to_lower (wf_ZstdSHA256 f)" "hexSum raw = to_lower (wf_DecodedSHA256 f)" "ps_Zstd s z = Inr raw"
          "int (length raw) = wf_RawEnd f - wf_RawStart f"
          using ck d by (simp_all add: specOf_def frame_digests_def)
        moreover have "fs (FrameRelPath g (wf_Seq f)) = Some b" using recorded(3) by (simp add: specOf_def)
        ultimately show ?thesis
          using recorded(2) unfolding frame_file_def s' by (auto simp: importedChunk_def specOf_def)
      qed
      then show ?thesis
        using that(3) [OF ins, of b] AdvanceFleetImportFrames_quiet [OF adv] recorded(3) ck(1) s'
        by (simp add: importedChunk_def specOf_def)
    qed (use None in simp_all)
  qed
qed

lemma meta_inv_chunk:
  assumes "meta_inv m" and "InsertChunk False c m = (None, m')" and "ch_RelPath c = FrameRelPath (ch_GenerationID c) (ch_Seq c)"
  shows "meta_inv m'" and "mt_chunks m' = mt_chunks m @ [c]" and "mt_mappings m' = mt_mappings m"
    and "import_keys m' = import_keys m" and "ch_Seq c \<notin> ch_Seq ` set (chunksOf (ch_GenerationID c) m)"
proof -
  from assms(2) have m': "m' = m\<lparr> mt_chunks := mt_chunks m @ [c] \<rparr>" "\<forall>d \<in> set (chunksOf (ch_GenerationID c) m). ch_Seq d \<noteq> ch_Seq c"
    "\<exists>g \<in> set (mt_generations m). lg_ID g = ch_GenerationID c"
    by (rule InsertChunk_effect; simp)+
  moreover have "ch_GenerationID c \<le> mt_lastGeneration m" using m'(3) assms(1) by (fastforce simp: meta_inv_def)
  ultimately show "meta_inv m'" using assms(1,3) by (auto simp: meta_inv_def chunksOf_def)
  show "mt_chunks m' = mt_chunks m @ [c]" "mt_mappings m' = mt_mappings m" "import_keys m' = import_keys m"
    "ch_Seq c \<notin> ch_Seq ` set (chunksOf (ch_GenerationID c) m)"
    using m' by (auto simp: import_keys_def)
qed

lemma frame_file_other:
  assumes "(g', wf_Seq f') \<noteq> (g, q)" and "ch_RelPath c = FrameRelPath (ch_GenerationID c) (ch_Seq c)"
    and "ps_Files s' = (ps_Files s)(FrameRelPath g q \<mapsto> b)" and "ps_Crypto s' = ps_Crypto s" and "ps_Zstd s' = ps_Zstd s"
  shows "frame_file s' g' f' c = frame_file s g' f' c"
proof (cases "ch_GenerationID c = g' \<and> ch_Seq c = wf_Seq f'")
  case True
  then have "FrameRelPath g q \<noteq> ch_RelPath c"
    using assms(1,2) FrameRelPath_inj [of g q "ch_GenerationID c" "ch_Seq c"] by auto
  then have "ps_Files s' (ch_RelPath c) = ps_Files s (ch_RelPath c)" using assms(3) by simp
  then show ?thesis unfolding frame_file_def assms(4,5) by simp
qed (auto simp: frame_file_def)

lemma quiet_view:
  "quiet (ps_Meta s) (ps_Meta s') \<Longrightarrow> ps_Files s' = ps_Files s \<Longrightarrow> ps_Crypto s' = ps_Crypto s \<Longrightarrow> ps_Zstd s' = ps_Zstd s \<Longrightarrow>
   view s' = view s"
  by (simp add: view_def quiet_def same_objects_def)

lemma write_frame_law:
  assumes "ps_inv s" and "ps_WriteFrame i g f z s = (e, s')"
  shows "ps_inv s'" and "ps_visible s' = ps_visible s"
    and "(g', wf_Seq f') \<noteq> (g, wf_Seq f) \<Longrightarrow> ps_stored s' g' f' = ps_stored s g' f'"
    and "e = None \<Longrightarrow> frame_digests f \<Longrightarrow> ps_stored s' g f"
    and "import_keys (ps_Meta s') = import_keys (ps_Meta s)"
    and "ps_present s' g \<subseteq> insert (wf_Seq f) (ps_present s g)"
proof -
  have rel: "ch_RelPath c = FrameRelPath (ch_GenerationID c) (ch_Seq c)" if "c \<in> set (mt_chunks (ps_Meta s))" for c
    using assms(1) that by (simp add: ps_inv_def meta_inv_def)
  from assms(2) have "ps_inv s' \<and> ps_visible s' = ps_visible s \<and>
    (\<forall>g' f'. (g', wf_Seq f') \<noteq> (g, wf_Seq f) \<longrightarrow> ps_stored s' g' f' = ps_stored s g' f') \<and>
    (e = None \<longrightarrow> frame_digests f \<longrightarrow> ps_stored s' g f) \<and> import_keys (ps_Meta s') = import_keys (ps_Meta s) \<and>
    ps_present s' g \<subseteq> insert (wf_Seq f) (ps_present s g)"
  proof (cases rule: ps_WriteFrame_effect)
    case no
    have "ps_inv s'" using assms(1) quiet_inv [OF _ no(3)] by (simp add: ps_inv_def)
    moreover have "import_keys (ps_Meta s') = import_keys (ps_Meta s)" using no(3) by (simp add: quiet_def)
    ultimately show ?thesis using no(1) view_stored [OF no(2)] view_visible [OF no(2)] view_present [OF no(2)]
      by auto
  next
    case (written b)
    have "ps_stored s' g' f' = ps_stored s g' f'" if "(g', wf_Seq f') \<noteq> (g, wf_Seq f)" for g' f'
      using written(2) frame_file_other [OF that _ written(4-6)] rel
      by (simp add: ps_stored_def quiet_def same_objects_def)
    then show ?thesis using written(1,2) assms(1) quiet_inv
      by (auto simp: ps_inv_def quiet_def same_objects_def ps_visible_def published_row_def ps_present_def chunksOf_def)
  next
    case (recorded c m b)
    have relc: "ch_RelPath c = FrameRelPath (ch_GenerationID c) (ch_Seq c)" using recorded(6-8) by simp
    note m = meta_inv_chunk [OF _ recorded(1) relc]
    have inv: "meta_inv m" using m(1) assms(1) by (simp add: ps_inv_def)
    have m': "mt_chunks (ps_Meta s') = mt_chunks (ps_Meta s) @ [c]" "mt_mappings (ps_Meta s') = mt_mappings (ps_Meta s)"
      "import_keys (ps_Meta s') = import_keys (ps_Meta s)"
      using m(2-4) assms(1) recorded(2) by (simp_all add: ps_inv_def quiet_def same_objects_def)
    have "ps_stored s' g' f' = ps_stored s g' f'" if o: "(g', wf_Seq f') \<noteq> (g, wf_Seq f)" for g' f'
    proof -
      have "\<not> frame_file s' g' f' c" using o recorded(6,7) by (auto simp: frame_file_def)
      then show ?thesis using m'(1) frame_file_other [OF o _ recorded(3-5)] rel by (simp add: ps_stored_def)
    qed
    moreover have "frame_digests f \<Longrightarrow> ps_stored s' g f" using recorded(10) m'(1) by (auto simp: ps_stored_def)
    moreover have "ps_inv s'" using quiet_inv [OF inv recorded(2)] by (simp add: ps_inv_def)
    ultimately show ?thesis using m' recorded(6,7)
      by (auto simp: ps_visible_def published_row_def ps_present_def chunksOf_def)
  qed
  then show "ps_inv s'" "ps_visible s' = ps_visible s"
    "(g', wf_Seq f') \<noteq> (g, wf_Seq f) \<Longrightarrow> ps_stored s' g' f' = ps_stored s g' f'"
    "e = None \<Longrightarrow> frame_digests f \<Longrightarrow> ps_stored s' g f" "import_keys (ps_Meta s') = import_keys (ps_Meta s)"
    "ps_present s' g \<subseteq> insert (wf_Seq f) (ps_present s g)" by blast+
qed

lemma CommitFleetImport_law:
  assumes "CommitFleetImport flt i g lh0 d0 fl p c tot m = (e, m')" and "meta_inv m" and "canonical (norm_hash d0)"
  shows "meta_inv m'" and "mt_chunks m' = mt_chunks m" and "import_keys m' = import_keys m"
    and "e \<noteq> None \<Longrightarrow> published_row l m' = published_row l m"
    and "l \<noteq> norm_hash lh0 \<Longrightarrow> published_row l m' = published_row l m"
    and "e = None \<Longrightarrow> (case published_row (norm_hash lh0) m of
            None \<Rightarrow> \<exists>r. published_row (norm_hash lh0) m' = Some r \<and> fm_ManifestDigest r = norm_hash d0 \<and> fm_GenerationID r = g
          | Some r \<Rightarrow> fm_ManifestDigest r = norm_hash d0 \<and> published_row (norm_hash lh0) m' = published_row (norm_hash lh0) m)"
    and "e = None \<Longrightarrow> commitGate flt i g (norm_hash d0) m = None"
proof -
  consider (early) "e \<noteq> None" "quiet m m'"
    | (tx) m2 where "quiet m m2" "commitTx flt i g (norm_hash lh0) (norm_hash d0) fl p c m2 = (e, m')"
        "commitGate flt i g (norm_hash d0) m = None"
  proof (cases "i \<le> 0 \<or> g \<le> 0 \<or> commitGate flt i g (norm_hash d0) m \<noteq> None")
    case True
    then have "e \<noteq> None \<and> m' = m"
      using assms(1) by (cases "commitGate flt i g (norm_hash d0) m") (auto simp: CommitFleetImport_def Let_def split: if_splits, metis)
    then show thesis using early by simp
  next
    case False
    then have gate: "commitGate flt i g (norm_hash d0) m = None" by simp
    obtain a m1 where upd: "UpdateGenerationOffset (flt 3) g tot False True False m = (a, m1)" by fastforce
    obtain b m2 where seal: "SealGeneration (flt 4) g m1 = (b, m2)" by fastforce
    note q1 = UpdateGenerationOffset_quiet [OF upd] and q2 = SealGeneration_quiet [OF seal]
    show thesis
      using assms(1) False upd seal early tx [OF quiet_trans [OF q1 q2] _ gate] q1 quiet_trans [OF q1 q2]
      by (cases a; cases b) (auto simp: CommitFleetImport_def Let_def)
  qed
  then have "meta_inv m' \<and> mt_chunks m' = mt_chunks m \<and> import_keys m' = import_keys m \<and>
    (e \<noteq> None \<longrightarrow> (\<forall>l. published_row l m' = published_row l m)) \<and>
    (\<forall>l. l \<noteq> norm_hash lh0 \<longrightarrow> published_row l m' = published_row l m) \<and>
    (e = None \<longrightarrow> commitGate flt i g (norm_hash d0) m = None \<and> (case published_row (norm_hash lh0) m of
            None \<Rightarrow> \<exists>r. published_row (norm_hash lh0) m' = Some r \<and> fm_ManifestDigest r = norm_hash d0 \<and> fm_GenerationID r = g
          | Some r \<Rightarrow> fm_ManifestDigest r = norm_hash d0 \<and> published_row (norm_hash lh0) m' = published_row (norm_hash lh0) m))"
  proof cases
    case early
    then show ?thesis
      using quiet_inv [OF assms(2) early(2)] quiet_published [OF early(2)] by (auto simp: quiet_def same_objects_def)
  next
    case tx
    have m2: "meta_inv m2" "mt_chunks m2 = mt_chunks m" "import_keys m2 = import_keys m"
      using quiet_inv [OF assms(2) tx(1)] tx(1) by (simp_all add: quiet_def same_objects_def)
    have pub: "published_row l m2 = published_row l m" for l by (rule quiet_published [OF tx(1)])
    show ?thesis
    proof (cases e)
      case None
      note ok = commitTx_ok [OF tx(2) [unfolded None] m2(1) assms(3), unfolded pub]
      show ?thesis using ok(1-5) m2 pub tx(3) None by simp
    next
      case (Some x)
      then have "m' = m2" using commitTx_fails tx(2) by blast
      then show ?thesis using Some m2 pub by simp
    qed
  qed
  then show "meta_inv m'" "mt_chunks m' = mt_chunks m" "import_keys m' = import_keys m"
    "e \<noteq> None \<Longrightarrow> published_row l m' = published_row l m" "l \<noteq> norm_hash lh0 \<Longrightarrow> published_row l m' = published_row l m"
    "e = None \<Longrightarrow> (case published_row (norm_hash lh0) m of
            None \<Rightarrow> \<exists>r. published_row (norm_hash lh0) m' = Some r \<and> fm_ManifestDigest r = norm_hash d0 \<and> fm_GenerationID r = g
          | Some r \<Rightarrow> fm_ManifestDigest r = norm_hash d0 \<and> published_row (norm_hash lh0) m' = published_row (norm_hash lh0) m)"
    "e = None \<Longrightarrow> commitGate flt i g (norm_hash d0) m = None" by blast+
qed

section \<open>The store is an import sink\<close>

lemma norm_canonical: "canonical d \<Longrightarrow> norm_hash d = d"
  by (simp add: canonical_def norm_hash_def)

lemma called_view: "view (called s) = view s" "ps_Meta (called s) = ps_Meta s"
  by (simp_all add: view_def)

lemma get_law:
  assumes "ps_GetCommitted lh s = (r, s')"
  shows "ps_Meta s' = ps_Meta s" and "view s' = view s"
    and "r = Inr c \<Longrightarrow> canonical lh \<Longrightarrow> c = map_option mappingOf (published_row lh (ps_Meta s))"
  using assms
  by (auto simp: ps_GetCommitted_def called_view GetCommittedFleetMapping_def published_row_def Let_def norm_canonical
      split: sum.splits if_splits)

lemma begin_law:
  assumes "ps_Begin m s = (r, s')" and "ps_inv s"
  shows "ps_inv s'" and "view s' = view s"
    and "r = Inr (i, g) \<Longrightarrow> g = mt_lastGeneration (ps_Meta s) + 1 \<and> mt_lastGeneration (ps_Meta s') = g \<and>
      (\<exists>d. wireDigest m = Inr d \<and> import_keys (ps_Meta s') = import_keys (ps_Meta s) @ [(i, g, norm_hash d, int (length (wm_Frames m)))])"
    and "r = Inl e \<Longrightarrow> import_keys (ps_Meta s') = import_keys (ps_Meta s)"
proof -
  have inv: "meta_inv (ps_Meta s)" using assms(2) by (simp add: ps_inv_def)
  consider (no) "s' = called s" "\<exists>e. r = Inl e"
    | (run) d mt where "wireDigest m = Inr d" "BeginFleetImport (faults s) (wm_LocatorHash m) d (int (length (wm_Frames m))) (ps_Meta s) = (r, mt)"
        "ps_Meta s' = mt" "ps_Files s' = ps_Files s" "ps_Crypto s' = ps_Crypto s" "ps_Zstd s' = ps_Zstd s"
    using assms(1) by (auto simp: ps_Begin_def split: sum.splits prod.splits)
  then have "ps_inv s' \<and> view s' = view s \<and>
    (\<forall>i g. r = Inr (i, g) \<longrightarrow> g = mt_lastGeneration (ps_Meta s) + 1 \<and> mt_lastGeneration (ps_Meta s') = g \<and>
      (\<exists>d. wireDigest m = Inr d \<and> import_keys (ps_Meta s') = import_keys (ps_Meta s) @ [(i, g, norm_hash d, int (length (wm_Frames m)))])) \<and>
    (\<forall>e. r = Inl e \<longrightarrow> import_keys (ps_Meta s') = import_keys (ps_Meta s))"
  proof cases
    case no
    then show ?thesis using assms(2) by (auto simp: ps_inv_def view_def)
  next
    case run
    show ?thesis
    proof (cases r)
      case (Inl e)
      then show ?thesis using BeginFleetImport_err [OF run(2) [unfolded Inl] inv] run
        by (simp add: ps_inv_def view_def same_objects_def)
    next
      case (Inr ig)
      obtain i g where ig: "ig = (i, g)" by fastforce
      show ?thesis using BeginFleetImport_ok [OF run(2) [unfolded Inr ig] inv] run Inr ig
        by (simp add: ps_inv_def view_def same_objects_def)
    qed
  qed
  then show "ps_inv s'" "view s' = view s"
    "r = Inr (i, g) \<Longrightarrow> g = mt_lastGeneration (ps_Meta s) + 1 \<and> mt_lastGeneration (ps_Meta s') = g \<and>
      (\<exists>d. wireDigest m = Inr d \<and> import_keys (ps_Meta s') = import_keys (ps_Meta s) @ [(i, g, norm_hash d, int (length (wm_Frames m)))])"
    "r = Inl e \<Longrightarrow> import_keys (ps_Meta s') = import_keys (ps_Meta s)" by blast+
qed

lemma commit_law:
  assumes "ps_Commit i g m s = (e, s')" and "ps_inv s" and "canonical_manifest m"
  shows "ps_inv s'" and "mt_chunks (ps_Meta s') = mt_chunks (ps_Meta s)" and "import_keys (ps_Meta s') = import_keys (ps_Meta s)"
    and "ps_stored s' = ps_stored s" and "ps_present s' = ps_present s"
    and "e \<noteq> None \<Longrightarrow> ps_visible s' = ps_visible s"
    and "e = None \<Longrightarrow> commitGate (faults s) i g (wm_ManifestDigest m) (ps_Meta s) = None"
    and "e = None \<Longrightarrow> (case ps_visible s (wm_LocatorHash m) of
           None \<Rightarrow> ps_visible s' = (ps_visible s)(wm_LocatorHash m \<mapsto> (wm_ManifestDigest m, g))
         | Some (d, g') \<Rightarrow> d = wm_ManifestDigest m \<and> ps_visible s' = ps_visible s)"
proof -
  have d: "wireDigest m = Inr (wm_ManifestDigest m)" "norm_hash (wm_ManifestDigest m) = wm_ManifestDigest m"
    and lh: "norm_hash (to_lower (wm_LocatorHash m)) = wm_LocatorHash m"
    using assms(3) norm_canonical by (auto simp: canonical_manifest_def wireDigest_def canonical_def)
  obtain mt where com: "CommitFleetImport (faults s) i g (to_lower (wm_LocatorHash m)) (wm_ManifestDigest m) (wm_FleetID m)
              (wm_CachePool m) (wm_ControllerID m) (totalRawOf m) (ps_Meta s) = (e, mt)"
    and s': "s' = (called s)\<lparr> ps_Meta := mt \<rparr>"
    using assms(1) d by (auto simp: ps_Commit_def split: prod.splits)
  have inv: "meta_inv (ps_Meta s)" and can: "canonical (norm_hash (wm_ManifestDigest m))"
    using assms(2,3) d(2) by (simp_all add: ps_inv_def canonical_manifest_def)
  note L = CommitFleetImport_law [OF com inv can, unfolded lh d(2)]
  show "ps_inv s'" "mt_chunks (ps_Meta s') = mt_chunks (ps_Meta s)" "import_keys (ps_Meta s') = import_keys (ps_Meta s)"
    "e = None \<Longrightarrow> commitGate (faults s) i g (wm_ManifestDigest m) (ps_Meta s) = None"
    using L s' by (simp_all add: ps_inv_def)
  show "ps_stored s' = ps_stored s" "ps_present s' = ps_present s"
    using L(2) s' by (auto simp: ps_stored_def frame_file_def ps_present_def chunksOf_def fun_eq_iff)
  show "e \<noteq> None \<Longrightarrow> ps_visible s' = ps_visible s"
    using L(4) s' by (simp add: ps_visible_def fun_eq_iff)
  assume e: "e = None"
  show "(case ps_visible s (wm_LocatorHash m) of
           None \<Rightarrow> ps_visible s' = (ps_visible s)(wm_LocatorHash m \<mapsto> (wm_ManifestDigest m, g))
         | Some (d, g') \<Rightarrow> d = wm_ManifestDigest m \<and> ps_visible s' = ps_visible s)"
  proof (cases "published_row (wm_LocatorHash m) (ps_Meta s)")
    case None
    then show ?thesis using L(5) L(6) [OF e] s' by (auto simp: ps_visible_def fun_eq_iff)
  next
    case (Some r)
    have "ps_visible s' l = ps_visible s l" for l
      using L(5) [of l] L(6) [OF e] s' Some by (cases "l = wm_LocatorHash m") (simp_all add: ps_visible_def)
    then show ?thesis using L(6) [OF e] Some by (simp add: ps_visible_def fun_eq_iff)
  qed
qed

lemma abort_law:
  assumes "ps_Abort i s = (e, s')"
  shows "quiet (ps_Meta s) (ps_Meta s')" and "view s' = view s"
proof -
  obtain mt where a: "AbortFleetImport (faults s 0) i (ps_Meta s) = (e, mt)"
    and s': "s' = (called s)\<lparr> ps_Meta := mt, ps_framesDone := (ps_framesDone s)(i := None) \<rparr>"
    using assms by (auto simp: ps_Abort_def split: prod.splits)
  show "quiet (ps_Meta s) (ps_Meta s')" using AbortFleetImport_quiet [OF a] s' by simp
  then show "view s' = view s" using s' by (intro quiet_view) simp_all
qed

lemma staging_law:
  assumes "ps_GetStaging lh d s = (r, s')"
  shows "ps_Meta s' = ps_Meta s" and "view s' = view s"
    and "r = Inr (Some (i, g, qs)) \<Longrightarrow> \<exists>j \<in> set (mt_journal (ps_Meta s)). fj_ID j = i \<and> fj_GenerationID j = g \<and>
      to_lower (fj_ManifestDigest j) = norm_hash d \<and> (g \<le> 0 \<and> qs = [] \<or> set qs = ps_present s g)"
proof -
  show "ps_Meta s' = ps_Meta s" "view s' = view s"
    using assms by (auto simp: ps_GetStaging_def view_def Let_def split: sum.splits option.splits prod.splits)
  assume "r = Inr (Some (i, g, qs))"
  then obtain j where "GetStagingFleetImport (faults s) lh d (ps_Meta s) = Inr (Some (j, qs))" "fj_ID j = i" "fj_GenerationID j = g"
    using assms by (auto simp: ps_GetStaging_def Let_def split: sum.splits option.splits prod.splits)
  then show "\<exists>j \<in> set (mt_journal (ps_Meta s)). fj_ID j = i \<and> fj_GenerationID j = g \<and>
      to_lower (fj_ManifestDigest j) = norm_hash d \<and> (g \<le> 0 \<and> qs = [] \<or> set qs = ps_present s g)"
    using find_SomeD [of _ "rev (mt_journal (ps_Meta s))" j]
    by (auto simp: GetStagingFleetImport_def ps_present_def Let_def split: if_splits option.splits intro!: bexI [of _ j])
qed

lemma published_status: "published_row l m = Some r \<Longrightarrow> r \<in> set (mt_mappings m) \<and> fm_LocatorHash r = l \<and> fm_Status r = FleetMappingCommitted"
  using find_SomeD unfolding published_row_def by fast

lemma visible_digest:
  assumes "ps_inv s" and "ps_visible s lh = Some (d, g)"
  shows "canonical d"
proof -
  from assms(2) obtain r where r: "published_row lh (ps_Meta s) = Some r" "fm_ManifestDigest r = d"
    by (auto simp: ps_visible_def)
  from published_status [OF r(1)] have "r \<in> set (mt_mappings (ps_Meta s))" by simp
  with assms(1) r(2) show ?thesis by (auto simp: ps_inv_def meta_inv_def)
qed

lemma no_stored_beyond:
  assumes "ps_inv s" and "mt_lastGeneration (ps_Meta s) < g"
  shows "\<not> ps_stored s g f"
proof
  assume "ps_stored s g f"
  then obtain c where "c \<in> set (mt_chunks (ps_Meta s))" "ch_GenerationID c = g" by (auto simp: ps_stored_def frame_file_def)
  with assms show False by (auto simp: ps_inv_def meta_inv_def)
qed

lemma view_same:
  assumes "view s' = view s" and "ps_inv s'"
  shows "ps_inv s' \<and> ps_visible s' = ps_visible s \<and> ps_stored s' = ps_stored s"
  using assms(2) view_visible [OF assms(1)] view_stored [OF assms(1)] by simp

lemma meta_inv_same: "ps_Meta s' = ps_Meta s \<Longrightarrow> ps_inv s \<Longrightarrow> ps_inv s'"
  by (simp add: ps_inv_def)

interpretation peer: import_sink PeerSink ps_inv ps_visible ps_stored
proof
  fix s s' :: PeerImportSink and lh d g
  show "canonical d" if "ps_inv s" "ps_visible s lh = Some (d, g)"
    by (rule visible_digest [OF that])
next
  fix s s' :: PeerImportSink and lh r
  assume a: "ps_inv s" "is_GetCommitted PeerSink lh s = (r, s')"
  from a(2) have "ps_GetCommitted lh s = (r, s')" by (simp add: PeerSink_def)
  note g = get_law(1,2) [OF this]
  show "ps_inv s' \<and> ps_visible s' = ps_visible s \<and> ps_stored s' = ps_stored s"
    by (rule view_same [OF g(2) meta_inv_same [OF g(1) a(1)]])
next
  fix s s' :: PeerImportSink and lh c
  assume a: "ps_inv s" "is_GetCommitted PeerSink lh s = (Inr c, s')" "canonical lh"
  have "c = map_option mappingOf (published_row lh (ps_Meta s))"
    using get_law(3) [of lh s "Inr c" s' c] a by (simp add: PeerSink_def)
  then show "ps_visible s lh = map_option (\<lambda>c. (cm_ManifestDigest c, cm_GenerationID c)) c \<and>
      (\<forall>e. c = Some e \<longrightarrow> cm_Status e = FleetMappingCommitted)"
    using published_status by (auto simp: ps_visible_def mappingOf_def option.map_comp comp_def)
next
  fix s s' :: PeerImportSink and m rb
  assume a: "ps_inv s" "is_Begin PeerSink m s = (rb, s')"
  from a(2) have "ps_Begin m s = (rb, s')" by (simp add: PeerSink_def)
  note b = begin_law(1,2) [OF this a(1)]
  show "ps_inv s' \<and> ps_visible s' = ps_visible s \<and> ps_stored s' = ps_stored s"
    by (rule view_same [OF b(2,1)])
next
  fix s s' :: PeerImportSink and m i g f
  assume a: "ps_inv s" "is_Begin PeerSink m s = (Inr (i, g), s')"
  then have "g = mt_lastGeneration (ps_Meta s) + 1"
    using begin_law(3) [of m s "Inr (i, g)" s' i g] by (simp add: PeerSink_def)
  then show "\<not> ps_stored s g f" using a(1) by (intro no_stored_beyond) simp_all
next
  fix s s' :: PeerImportSink and i g f z e
  assume a: "ps_inv s" "is_WriteFrame PeerSink i g f z s = (e, s')"
  then have w: "ps_WriteFrame i g f z s = (e, s')" by (simp add: PeerSink_def)
  show "ps_inv s' \<and> ps_visible s' = ps_visible s \<and>
        (\<forall>g' f'. (g', wf_Seq f') \<noteq> (g, wf_Seq f) \<longrightarrow> ps_stored s' g' f' = ps_stored s g' f')"
    using write_frame_law(1-3) [OF a(1) w] by blast
next
  fix s s' :: PeerImportSink and i g f z
  assume a: "ps_inv s" "is_WriteFrame PeerSink i g f z s = (None, s')" "frame_digests f"
  then show "ps_stored s' g f" using write_frame_law(4) [OF a(1), of i g f z None s'] by (simp add: PeerSink_def)
next
  fix s s' :: PeerImportSink and i g m e
  assume a: "ps_inv s" "is_Commit PeerSink i g m s = (e, s')" "canonical_manifest m"
  then show "ps_inv s' \<and> ps_stored s' = ps_stored s" using commit_law(1,4) [of i g m s e s'] by (simp add: PeerSink_def)
next
  fix s s' :: PeerImportSink and i g m e
  assume a: "ps_inv s" "is_Commit PeerSink i g m s = (Some e, s')" "canonical_manifest m"
  then show "ps_visible s' = ps_visible s" using commit_law(6) [of i g m s "Some e" s'] by (simp add: PeerSink_def)
next
  fix s s' :: PeerImportSink and i g m
  assume a: "ps_inv s" "is_Commit PeerSink i g m s = (None, s')" "canonical_manifest m"
  then show "(case ps_visible s (wm_LocatorHash m) of
           None \<Rightarrow> ps_visible s' = (ps_visible s)(wm_LocatorHash m \<mapsto> (wm_ManifestDigest m, g))
         | Some (d, g') \<Rightarrow> d = wm_ManifestDigest m \<and> ps_visible s' = ps_visible s)"
    using commit_law(8) [of i g m s None s'] by (simp add: PeerSink_def)
next
  fix s s' :: PeerImportSink and i e
  assume a: "ps_inv s" "is_Abort PeerSink i s = (e, s')"
  from a(2) have "ps_Abort i s = (e, s')" by (simp add: PeerSink_def)
  note b = abort_law [OF this]
  have "ps_inv s'" using quiet_inv [OF _ b(1)] a(1) by (simp add: ps_inv_def)
  then show "ps_inv s' \<and> ps_visible s' = ps_visible s \<and> ps_stored s' = ps_stored s"
    by (rule view_same [OF b(2)])
next
  fix s s' :: PeerImportSink and look lh d rs
  assume a: "ps_inv s" "is_GetStaging PeerSink = Some look" "look lh d s = (rs, s')"
  from a(2,3) have "ps_GetStaging lh d s = (rs, s')" by (simp add: PeerSink_def)
  note b = staging_law(1,2) [OF this]
  show "ps_inv s' \<and> ps_visible s' = ps_visible s \<and> ps_stored s' = ps_stored s"
    by (rule view_same [OF b(2) meta_inv_same [OF b(1) a(1)]])
qed

end
