(* ===== verification/PeerResume.thy ===== *)
theory PeerResume
  imports PeerImportCorrect
begin

text \<open>
  Replications that resume: the interpretation of \<open>resumable_sink\<close> on the store, and what every history of
  imports, replications and quarantines of a store keeps.
\<close>

section \<open>The store resumes honestly\<close>

definition ps_importing :: "PeerImportSink \<Rightarrow> int \<Rightarrow> int \<Rightarrow> string \<Rightarrow> bool" where
  "ps_importing s i g d \<longleftrightarrow> (\<exists>d' n. (i, g, d', n) \<in> set (import_keys (ps_Meta s)) \<and> to_lower d' = d)"

definition ps_honest :: "WireManifest \<Rightarrow> PeerImportSink \<Rightarrow> bool" where
  "ps_honest M s \<longleftrightarrow>
     (\<forall>d. DigestWireManifest M = Inr d \<longrightarrow>
       (\<forall>(i, g, d', n) \<in> set (import_keys (ps_Meta s)). to_lower d' = d \<longrightarrow> n = int (length (wm_Frames M)) \<and>
          (\<forall>q \<in> ps_present s g. \<exists>f \<in> set (wm_Frames M). wf_Seq f = q \<and> ps_stored s g f)) \<and>
       (\<forall>lh g. ps_visible s lh = Some (d, g) \<longrightarrow> (\<forall>f \<in> set (wm_Frames M). ps_stored s g f)))"

lemma ps_honestD:
  assumes "ps_honest M s" and "DigestWireManifest M = Inr d"
  shows "(i, g, d', n) \<in> set (import_keys (ps_Meta s)) \<Longrightarrow> to_lower d' = d \<Longrightarrow> n = int (length (wm_Frames M))"
    and "(i, g, d', n) \<in> set (import_keys (ps_Meta s)) \<Longrightarrow> to_lower d' = d \<Longrightarrow> q \<in> ps_present s g \<Longrightarrow>
      \<exists>f \<in> set (wm_Frames M). wf_Seq f = q \<and> ps_stored s g f"
    and "ps_visible s lh = Some (d, g) \<Longrightarrow> f \<in> set (wm_Frames M) \<Longrightarrow> ps_stored s g f"
  using assms unfolding ps_honest_def by fastforce+

lemma ps_honestI:
  assumes "\<And>d i g d' n. DigestWireManifest M = Inr d \<Longrightarrow> (i, g, d', n) \<in> set (import_keys (ps_Meta s)) \<Longrightarrow> to_lower d' = d \<Longrightarrow>
      n = int (length (wm_Frames M))"
    and "\<And>d i g d' n q. DigestWireManifest M = Inr d \<Longrightarrow> (i, g, d', n) \<in> set (import_keys (ps_Meta s)) \<Longrightarrow> to_lower d' = d \<Longrightarrow>
      q \<in> ps_present s g \<Longrightarrow> \<exists>f \<in> set (wm_Frames M). wf_Seq f = q \<and> ps_stored s g f"
    and "\<And>d lh g f. DigestWireManifest M = Inr d \<Longrightarrow> ps_visible s lh = Some (d, g) \<Longrightarrow> f \<in> set (wm_Frames M) \<Longrightarrow> ps_stored s g f"
  shows "ps_honest M s"
  unfolding ps_honest_def
proof (intro allI impI conjI ballI)
  fix d k assume "DigestWireManifest M = Inr d" "k \<in> set (import_keys (ps_Meta s))"
  then show "case k of (i, g, d', n) \<Rightarrow> to_lower d' = d \<longrightarrow> n = int (length (wm_Frames M)) \<and>
          (\<forall>q \<in> ps_present s g. \<exists>f \<in> set (wm_Frames M). wf_Seq f = q \<and> ps_stored s g f)"
    using assms(1,2) by (cases k) blast
qed (use assms(3) in blast)

lemma ps_honest_same:
  assumes "ps_honest M s" and "view s' = view s" and "import_keys (ps_Meta s') = import_keys (ps_Meta s)"
  shows "ps_honest M s'"
  using assms(1) unfolding ps_honest_def assms(3) view_stored [OF assms(2)] view_visible [OF assms(2)] view_present [OF assms(2)] .

lemma stored_key: "frame_key f = frame_key h \<Longrightarrow> ps_stored s g f = ps_stored s g h"
  by (simp add: ps_stored_def frame_file_def frame_key_def lowerDigests_def descriptorOf_def)

lemma stored_present: "ps_stored s g f \<Longrightarrow> wf_Seq f \<in> ps_present s g"
  by (auto simp: ps_stored_def frame_file_def ps_present_def chunksOf_def intro!: rev_image_eqI)

lemma write_frame_present:
  assumes "ps_inv s" and "ps_WriteFrame i g f z s = (e, s')"
  shows "g' \<noteq> g \<Longrightarrow> ps_present s' g' = ps_present s g'"
    and "frame_digests f \<Longrightarrow> wf_Seq f \<in> ps_present s' g \<Longrightarrow> wf_Seq f \<notin> ps_present s g \<Longrightarrow> ps_stored s' g f"
proof -
  from assms(2) have "(g' \<noteq> g \<longrightarrow> ps_present s' g' = ps_present s g') \<and>
      (frame_digests f \<longrightarrow> wf_Seq f \<in> ps_present s' g \<longrightarrow> wf_Seq f \<notin> ps_present s g \<longrightarrow> ps_stored s' g f)"
  proof (cases rule: ps_WriteFrame_effect)
    case no
    then show ?thesis using view_present [OF no(2)] by simp
  next
    case (written b)
    then show ?thesis by (simp add: ps_present_def chunksOf_def quiet_def same_objects_def)
  next
    case (recorded c m b)
    have "mt_chunks m = mt_chunks (ps_Meta s) @ [c]" by (rule InsertChunk_effect [OF recorded(1)]) simp_all
    then have "mt_chunks (ps_Meta s') = mt_chunks (ps_Meta s) @ [c]"
      using recorded(2) by (simp add: quiet_def same_objects_def)
    then show ?thesis using recorded(6,10) by (auto simp: ps_present_def chunksOf_def ps_stored_def)
  qed
  then show "g' \<noteq> g \<Longrightarrow> ps_present s' g' = ps_present s g'"
    "frame_digests f \<Longrightarrow> wf_Seq f \<in> ps_present s' g \<Longrightarrow> wf_Seq f \<notin> ps_present s g \<Longrightarrow> ps_stored s' g f" by blast+
qed

lemma import_generation_unique:
  assumes "ps_inv s" and "(i, g, d, n) \<in> set (import_keys (ps_Meta s))" and "(i', g, d', n') \<in> set (import_keys (ps_Meta s))"
  shows "i' = i" and "d' = d" and "n' = n"
proof -
  have "distinct (map (fst \<circ> snd) (import_keys (ps_Meta s)))"
    using assms(1) unfolding ps_inv_def meta_inv_def keys_ids by simp
  then have "inj_on (fst \<circ> snd) (set (import_keys (ps_Meta s)))" by (simp add: distinct_map)
  from inj_onD [OF this _ assms(2,3)] show "i' = i" "d' = d" "n' = n" by simp_all
qed

lemma write_honest_law:
  assumes I: "ps_inv s" "ps_honest M s" and imp: "ps_importing s i g d"
    and key: "DigestWireManifest M = Inr d \<longrightarrow> frame_key f \<in> set (frame_keys M)" and dig: "frame_digests f"
    and new: "wf_Seq f \<notin> ps_present s g" and w: "ps_WriteFrame i g f z s = (e, s')"
  shows "ps_honest M s'"
proof -
  note L = write_frame_law [OF I(1) w] and P = write_frame_present [OF I(1) w]
  have kept: "ps_stored s' g' h" if "ps_stored s g' h" for g' h
  proof (cases "(g', wf_Seq h) = (g, wf_Seq f)")
    case True
    then show ?thesis using new stored_present [OF that] by simp
  qed (use L(3) that in blast)
  obtain di ni where k: "(i, g, di, ni) \<in> set (import_keys (ps_Meta s))" "to_lower di = d" using imp by (auto simp: ps_importing_def)
  show ?thesis
  proof (rule ps_honestI)
    fix d0 i0 g0 d' n assume D: "DigestWireManifest M = Inr d0"
    show "n = int (length (wm_Frames M))" if "(i0, g0, d', n) \<in> set (import_keys (ps_Meta s'))" "to_lower d' = d0"
      using ps_honestD(1) [OF I(2) D, of i0 g0 d' n] that L(5) by simp
    show "ps_stored s' g0 h" if "ps_visible s' lh = Some (d0, g0)" "h \<in> set (wm_Frames M)" for lh h
      using ps_honestD(3) [OF I(2) D, of lh g0 h] that L(2) kept by simp
    fix q assume K: "(i0, g0, d', n) \<in> set (import_keys (ps_Meta s'))" "to_lower d' = d0" and q: "q \<in> ps_present s' g0"
    have K': "(i0, g0, d', n) \<in> set (import_keys (ps_Meta s))" using K(1) L(5) by simp
    show "\<exists>h \<in> set (wm_Frames M). wf_Seq h = q \<and> ps_stored s' g0 h"
    proof (cases "q \<in> ps_present s g0")
      case True
      then show ?thesis using ps_honestD(2) [OF I(2) D K' K(2)] kept by blast
    next
      case False
      then have g0: "g0 = g" using P(1) q by blast
      with False q L(6) have "q = wf_Seq f" by blast
      have "ps_stored s' g f" using P(2) [OF dig] q new g0 \<open>q = wf_Seq f\<close> by simp
      moreover have "d0 = d" using import_generation_unique(2) [OF I(1) k(1) K' [unfolded g0]] K(2) k(2) by simp
      then obtain h where "h \<in> set (wm_Frames M)" "frame_key f = frame_key h" using key D by (auto simp: frame_keys_def)
      ultimately show ?thesis using stored_key frame_key_seq g0 \<open>q = wf_Seq f\<close> by metis
    qed
  qed
qed

lemma begin_honest_law:
  assumes I: "ps_inv s" "ps_honest M s" and can: "canonical_manifest m"
    and key: "DigestWireManifest M = Inr (wm_ManifestDigest m) \<longrightarrow> frame_keys m = frame_keys M" and b: "ps_Begin m s = (rb, s')"
  shows "ps_honest M s'" and "rb = Inr (i, g) \<Longrightarrow> ps_importing s' i g (wm_ManifestDigest m) \<and> ps_present s' g = {}"
proof -
  note L = begin_law [OF b I(1)]
  note V = view_stored [OF L(2)] view_visible [OF L(2)] view_present [OF L(2)]
  have d: "wireDigest m = Inr (wm_ManifestDigest m)" "norm_hash (wm_ManifestDigest m) = wm_ManifestDigest m"
    "to_lower (wm_ManifestDigest m) = wm_ManifestDigest m"
    using can norm_canonical by (auto simp: canonical_manifest_def wireDigest_def canonical_def)
  have fresh: "ps_present s (mt_lastGeneration (ps_Meta s) + 1) = {}"
    using I(1) by (auto simp: ps_inv_def meta_inv_def ps_present_def chunksOf_def)
  have "ps_honest M s' \<and> (\<forall>i g. rb = Inr (i, g) \<longrightarrow> ps_importing s' i g (wm_ManifestDigest m) \<and> ps_present s' g = {})"
  proof (cases rb)
    case (Inl e)
    then show ?thesis using ps_honest_same [OF I(2) L(2) L(4) [OF Inl]] by simp
  next
    case (Inr ig)
    obtain i g where ig: "rb = Inr (i, g)" using Inr by (cases ig) simp
    have keys: "import_keys (ps_Meta s') = import_keys (ps_Meta s) @ [(i, g, wm_ManifestDigest m, int (length (wm_Frames m)))]"
      and g: "g = mt_lastGeneration (ps_Meta s) + 1" using L(3) [OF ig] d by auto
    have "ps_present s' g = {}" using fresh g V(3) by simp
    moreover have "ps_importing s' i g (wm_ManifestDigest m)" using keys d(3) by (auto simp: ps_importing_def)
    moreover have len: "length (wm_Frames m) = length (wm_Frames M)" if "DigestWireManifest M = Inr (wm_ManifestDigest m)"
      using key that by (metis frame_keys_def length_map)
    have "ps_honest M s'"
    proof (rule ps_honestI)
      fix d0 i0 g0 d' n assume D: "DigestWireManifest M = Inr d0"
      show "ps_stored s' g0 h" if "ps_visible s' lh = Some (d0, g0)" "h \<in> set (wm_Frames M)" for lh h
        using ps_honestD(3) [OF I(2) D, of lh g0 h] that V by simp
      assume K: "(i0, g0, d', n) \<in> set (import_keys (ps_Meta s'))" "to_lower d' = d0"
      then consider "(i0, g0, d', n) \<in> set (import_keys (ps_Meta s))"
        | "g0 = g" "d' = wm_ManifestDigest m" "n = int (length (wm_Frames m))" using keys by auto
      note cases = this
      show "n = int (length (wm_Frames M))"
        using cases by cases (use ps_honestD(1) [OF I(2) D _ K(2)] len D K(2) d(3) in auto)
      fix q assume q: "q \<in> ps_present s' g0"
      show "\<exists>h \<in> set (wm_Frames M). wf_Seq h = q \<and> ps_stored s' g0 h"
        using cases by cases (use ps_honestD(2) [OF I(2) D _ K(2)] q V \<open>ps_present s' g = {}\<close> in auto)
    qed
    ultimately show ?thesis using ig by simp
  qed
  then show "ps_honest M s'" "rb = Inr (i, g) \<Longrightarrow> ps_importing s' i g (wm_ManifestDigest m) \<and> ps_present s' g = {}" by blast+
qed

lemma commitGate_ok:
  assumes "commitGate flt i g d m = None" and "norm_hash d = d"
  shows "\<exists>d' n. (i, g, d', n) \<in> set (import_keys m) \<and> to_lower d' = to_lower d \<and> n = int (length (chunksOf g m)) \<and>
    distinct (map ch_Seq (chunksOf g m))"
proof -
  from assms(1) obtain j where j: "findImport i m = Some j" "fj_GenerationID j = g" "equal_fold (fj_ManifestDigest j) d"
    "int (length (chunksOf g m)) = fj_FramesTotal j" "int (length (remdups (map ch_Seq (chunksOf g m)))) = fj_FramesTotal j"
    by (auto simp: commitGate_def Let_def split: if_splits option.splits)
  then have "j \<in> set (mt_journal m)" "fj_ID j = i"
    using find_SomeD [of "\<lambda>j. fj_ID j = i" "mt_journal m" j] by (simp_all add: findImport_def)
  then have "(i, g, fj_ManifestDigest j, fj_FramesTotal j) \<in> set (import_keys m)"
    using j(2) by (auto simp: import_keys_def)
  moreover have "distinct (map ch_Seq (chunksOf g m))"
    using j(4,5) length_remdups_card_conv card_distinct [of "map ch_Seq (chunksOf g m)"] by (metis length_map of_nat_eq_iff)
  ultimately show ?thesis using j(3,4) by (auto simp: equal_fold_def)
qed

lemma frames_of_digest:
  assumes "DigestWireManifest M = Inr d"
  shows "map wf_Seq (wm_Frames M) = map int [0..<length (wm_Frames M)]" and "distinct (map wf_Seq (wm_Frames M))"
proof -
  have "ValidateWireManifest M = None" using assms by (auto simp: DigestWireManifest_def split: option.splits)
  from ValidateWireManifest_ok(3) [OF this]
  show "map wf_Seq (wm_Frames M) = map int [0..<length (wm_Frames M)]" .
  then show "distinct (map wf_Seq (wm_Frames M))" by (simp add: distinct_map inj_on_def)
qed

text \<open>As many distinct chunks as \<open>M\<close> has frames, each of them a frame of \<open>M\<close>: none is missing.\<close>

lemma all_present:
  assumes "DigestWireManifest M = Inr d" and "length (chunksOf g (ps_Meta s)) = length (wm_Frames M)"
    and "distinct (map ch_Seq (chunksOf g (ps_Meta s)))"
    and "\<forall>q \<in> ps_present s g. \<exists>f \<in> set (wm_Frames M). wf_Seq f = q \<and> ps_stored s g f" and "f \<in> set (wm_Frames M)"
  shows "ps_stored s g f"
proof -
  have "ps_present s g \<subseteq> wf_Seq ` set (wm_Frames M)" using assms(4) by auto
  moreover have "card (ps_present s g) = length (wm_Frames M)"
    using distinct_card [OF assms(3)] assms(2) by (simp add: ps_present_def)
  moreover have "card (wf_Seq ` set (wm_Frames M)) = length (wm_Frames M)"
    using distinct_card [OF frames_of_digest(2) [OF assms(1)]] by simp
  ultimately have "ps_present s g = wf_Seq ` set (wm_Frames M)" by (intro card_subset_eq) simp_all
  then obtain h where h: "h \<in> set (wm_Frames M)" "wf_Seq h = wf_Seq f" "ps_stored s g h" using assms(4,5) by blast
  have "h = f" using frames_of_digest(2) [OF assms(1)] h(1,2) assms(5) by (auto simp: distinct_map dest: inj_onD)
  with h(3) show ?thesis by simp
qed

lemma commit_honest_law:
  assumes I: "ps_inv s" "ps_honest M s" and can: "canonical_manifest m"
    and c: "ps_Commit i g m s = (e, s')"
  shows "ps_honest M s'"
proof -
  note L = commit_law [OF c I(1) can]
  have d: "norm_hash (wm_ManifestDigest m) = wm_ManifestDigest m" "to_lower (wm_ManifestDigest m) = wm_ManifestDigest m"
    using can norm_canonical by (auto simp: canonical_manifest_def canonical_def)
  show ?thesis
  proof (rule ps_honestI)
    fix d0 i0 g0 d' n assume D: "DigestWireManifest M = Inr d0"
    show "n = int (length (wm_Frames M))" if "(i0, g0, d', n) \<in> set (import_keys (ps_Meta s'))" "to_lower d' = d0"
      using ps_honestD(1) [OF I(2) D, of i0 g0 d' n] that L(3) by simp
    show "\<exists>h \<in> set (wm_Frames M). wf_Seq h = q \<and> ps_stored s' g0 h"
      if "(i0, g0, d', n) \<in> set (import_keys (ps_Meta s'))" "to_lower d' = d0" "q \<in> ps_present s' g0" for q
      using ps_honestD(2) [OF I(2) D, of i0 g0 d' n q] that L(3-5) by simp
    fix lh f assume v: "ps_visible s' lh = Some (d0, g0)" and f: "f \<in> set (wm_Frames M)"
    have "ps_stored s g0 f"
    proof (cases "ps_visible s lh = Some (d0, g0)")
      case True
      then show ?thesis using ps_honestD(3) [OF I(2) D _ f] by blast
    next
      case False
      then have "e = None" "d0 = wm_ManifestDigest m" "g0 = g"
        using v L(6,8) by (cases e; auto split: option.splits if_splits)+
      from commitGate_ok [OF L(7) [OF this(1)] d(1)] this(2,3) d(2) obtain d' n where k:
        "(i, g0, d', n) \<in> set (import_keys (ps_Meta s))" "to_lower d' = d0" "n = int (length (chunksOf g0 (ps_Meta s)))"
        "distinct (map ch_Seq (chunksOf g0 (ps_Meta s)))" by auto
      show ?thesis
      proof (rule all_present [OF D _ k(4) _ f])
        show "length (chunksOf g0 (ps_Meta s)) = length (wm_Frames M)" using ps_honestD(1) [OF I(2) D k(1,2)] k(3) by simp
        show "\<forall>q \<in> ps_present s g0. \<exists>f \<in> set (wm_Frames M). wf_Seq f = q \<and> ps_stored s g0 f"
          using ps_honestD(2) [OF I(2) D k(1,2)] by blast
      qed
    qed
    then show "ps_stored s' g0 f" using L(4) by simp
  qed
qed

interpretation resumable: resumable_sink PeerSink ps_inv ps_visible ps_stored M "ps_honest M" ps_importing ps_present for M
proof
  fix s s' :: PeerImportSink and lh r
  assume a: "ps_inv s" "ps_honest M s" "is_GetCommitted PeerSink lh s = (r, s')"
  from a(3) have "ps_GetCommitted lh s = (r, s')" by (simp add: PeerSink_def)
  note g = get_law(1,2) [OF this]
  show "ps_honest M s'" by (rule ps_honest_same [OF a(2) g(2)]) (simp add: g(1))
next
  fix s s' :: PeerImportSink and m rb
  assume a: "ps_inv s" "ps_honest M s" "canonical_manifest m" "DigestWireManifest M = Inr (wm_ManifestDigest m) \<longrightarrow> frame_keys m = frame_keys M"
    "is_Begin PeerSink m s = (rb, s')"
  from a(5) have "ps_Begin m s = (rb, s')" by (simp add: PeerSink_def)
  from begin_honest_law [OF a(1-4) this]
  show "ps_honest M s' \<and> (\<forall>i g. rb = Inr (i, g) \<longrightarrow> ps_importing s' i g (wm_ManifestDigest m) \<and> ps_present s' g = {})" by blast
next
  fix s s' :: PeerImportSink and i g d f z e
  assume a: "ps_inv s" "ps_honest M s" "ps_importing s i g d" "DigestWireManifest M = Inr d \<longrightarrow> frame_key f \<in> set (frame_keys M)"
    "frame_digests f" "wf_Seq f \<notin> ps_present s g" "is_WriteFrame PeerSink i g f z s = (e, s')"
  from a(7) have w: "ps_WriteFrame i g f z s = (e, s')" by (simp add: PeerSink_def)
  have "ps_importing s' i g d" using a(3) write_frame_law(5) [OF a(1) w] by (simp add: ps_importing_def)
  then show "ps_honest M s' \<and> ps_importing s' i g d \<and> ps_present s' g \<subseteq> insert (wf_Seq f) (ps_present s g)"
    using write_honest_law [OF a(1-6) w] write_frame_law(6) [OF a(1) w] by blast
next
  fix s s' :: PeerImportSink and m i g e
  assume a: "ps_inv s" "ps_honest M s" "canonical_manifest m" "is_Commit PeerSink i g m s = (e, s')"
  from a(4) have "ps_Commit i g m s = (e, s')" by (simp add: PeerSink_def)
  from commit_honest_law [OF a(1-3) this] show "ps_honest M s'" .
next
  fix s s' :: PeerImportSink and i e
  assume a: "ps_inv s" "ps_honest M s" "is_Abort PeerSink i s = (e, s')"
  from a(3) have "ps_Abort i s = (e, s')" by (simp add: PeerSink_def)
  note b = abort_law [OF this]
  show "ps_honest M s'" by (rule ps_honest_same [OF a(2) b(2)]) (use b(1) in \<open>simp add: quiet_def\<close>)
next
  fix s s' :: PeerImportSink and look lh d rs
  assume a: "ps_inv s" "ps_honest M s" "is_GetStaging PeerSink = Some look" "canonical d" "look lh d s = (rs, s')"
  from a(3,5) have g: "ps_GetStaging lh d s = (rs, s')" by (simp add: PeerSink_def)
  note b = staging_law [OF g]
  have h: "ps_honest M s'" by (rule ps_honest_same [OF a(2) b(2)]) (simp add: b(1))
  have "ps_importing s' i g d \<and> set q = ps_present s' g" if "rs = Inr (Some (i, g, q))" for i g q
  proof -
    from b(3) [OF that] obtain j where j: "j \<in> set (mt_journal (ps_Meta s))" "fj_ID j = i" "fj_GenerationID j = g"
      "to_lower (fj_ManifestDigest j) = norm_hash d" "g \<le> 0 \<and> q = [] \<or> set q = ps_present s g" by blast
    have "0 < g" using a(1) j(1,3) by (auto simp: ps_inv_def meta_inv_def)
    moreover have "(i, g, fj_ManifestDigest j, fj_FramesTotal j) \<in> set (import_keys (ps_Meta s))"
      using j(1-3) by (auto simp: import_keys_def)
    ultimately show ?thesis
      using j(4,5) norm_canonical [OF a(4)] view_present [OF b(2)] b(1) by (auto simp: ps_importing_def)
  qed
  with h show "ps_honest M s' \<and> (\<forall>i g q. rs = Inr (Some (i, g, q)) \<longrightarrow> ps_importing s' i g d \<and> set q = ps_present s' g)" by blast
next
  fix s :: PeerImportSink and lh d g f
  assume "ps_honest M s" "ps_visible s lh = Some (d, g)" "DigestWireManifest M = Inr d" "f \<in> set (wm_Frames M)"
  then show "ps_stored s g f" using ps_honestD(3) by blast
qed

end
