(* ===== verification/PeerPublished.thy ===== *)
theory PeerPublished
  imports PeerResume
begin

text \<open>
  Invariants of a sink: the locale \<open>sink_invariant\<close> gives for imports and replications what each operation
  of the sink keeps. It is interpreted with the invariant that a published object is backed by a committed
  import of its version and a sealed generation with one chunk for each frame.
\<close>

section \<open>What every operation keeps\<close>

locale sink_invariant =
  fixes sk :: "'s ImportSink" and P :: "'s \<Rightarrow> bool"
  assumes get_P: "P s \<Longrightarrow> is_GetCommitted sk lh s = (r, s') \<Longrightarrow> P s'"
    and begin_P: "P s \<Longrightarrow> is_Begin sk m s = (rb, s') \<Longrightarrow> P s'"
    and write_P: "P s \<Longrightarrow> is_WriteFrame sk i g f z s = (e, s') \<Longrightarrow> P s'"
    and commit_P: "P s \<Longrightarrow> canonical_manifest m \<Longrightarrow> is_Commit sk i g m s = (e, s') \<Longrightarrow> P s'"
    and abort_P: "P s \<Longrightarrow> is_Abort sk i s = (e, s') \<Longrightarrow> P s'"
    and staging_P: "P s \<Longrightarrow> is_GetStaging sk = Some look \<Longrightarrow> look lh d s = (rs, s') \<Longrightarrow> P s'"
begin

lemma replicateLoop_P: "P s \<Longrightarrow> replicateLoop sk canc k i g by need fs w s = (r, n, s') \<Longrightarrow> P s'"
proof (induction fs arbitrary: k w s)
  case (Cons f fs)
  obtain e t where w: "is_WriteFrame sk i g f (by (wf_Seq f)) s = (e, t)" by fastforce
  show ?case using Cons.IH Cons.prems w write_P [OF Cons.prems(1) w] by (auto split: if_splits option.splits)
qed simp

lemma abort_snd: "P s \<Longrightarrow> P (snd (is_Abort sk i s))"
  using abort_P [of s i] by (cases "is_Abort sk i s") simp

lemma RunImport_P:
  assumes "P s" and R: "RunImport ts now (Some sk) canc m frames s = (res, e, s')"
  shows "P s'"
  using R
proof (cases rule: RunImport_elim)
  case stop
  then show ?thesis using assms(1) by simp
next
  case (looked d c)
  then show ?thesis using get_P [OF assms(1)] by blast
next
  case (unopened d ex s1)
  then show ?thesis using get_P [OF assms(1)] begin_P by blast
next
  case (started d ex s1 plan perr i g s2)
  have s2: "P s2" using get_P [OF assms(1) started(3)] begin_P started(7) by blast
  let ?need = "map wf_Seq (wm_Frames m)"
  obtain r n t where L: "replicateLoop sk canc 1 i g (bytesBySeq frames) ?need (wm_Frames m) 0 s2 = (r, n, t)"
    by (metis prod_cases3)
  have t: "P t" by (rule replicateLoop_P [OF s2 L])
  have L': "importLoop sk canc 1 i g (bytesBySeq frames) (wm_Frames m) s2 = (r, t)"
    by (rule importLoop_as_replicateLoop [OF _ L]) simp
  obtain c u where C: "is_Commit sk i g (normalized m d) t = (c, u)" by fastforce
  have u: "P u" by (rule commit_P [OF t canonical_normalized(1) [OF started(1,2)] C])
  have "s' = snd (is_Abort sk i t) \<or> s' = u \<or> s' = snd (is_Abort sk i u)"
    using started(8) L' C by (cases r; cases c) (auto simp: importRest_def Let_def split: prod.splits if_splits)
  then show ?thesis using t u abort_snd by blast
qed

lemma replicateRest_P:
  assumes "P s" and can: "canonical_manifest m" and R: "replicateRest sk canc m frames resuming missing i g s = (res, e, s')"
  shows "P s'"
proof -
  let ?w = "FilterImportFrames frames missing"
  obtain r w t where L: "replicateLoop sk canc 1 i g (bytesBySeq ?w) (map ib_Seq ?w) (wm_Frames m) 0 s = (r, w, t)"
    by (metis prod_cases3)
  have t: "P t" by (rule replicateLoop_P [OF assms(1) L])
  obtain c u where C: "is_Commit sk i g m t = (c, u)" by fastforce
  have u: "P u" by (rule commit_P [OF t can C])
  note R' = R [unfolded replicateRest_def Let_def L prod.case]
  have "s' = t \<or> s' = u \<or> s' = snd (is_Abort sk i u)"
    using R' C by (cases r; cases c) (auto split: prod.splits if_splits)
  then show ?thesis using t u abort_snd by blast
qed

lemma ReplicateSealed_P:
  assumes "P s" and R: "ReplicateSealed ts now (Some sk) canc m frames s = (res, e, s')"
  shows "P s'"
  using R
proof (cases rule: ReplicateSealed_elim)
  case stop
  then show ?thesis using assms(1) by simp
next
  case (looked d c)
  then show ?thesis using get_P [OF assms(1)] by blast
next
  case (unstaged d ex s1 look x)
  then show ?thesis using get_P [OF assms(1)] staging_P by blast
next
  case (running d ex s1 resume hv s2)
  note can = canonical_normalized(1) [OF running(1,2)]
  have s1: "P s1" using get_P [OF assms(1) running(3)] .
  have s2: "P s2" using running(5) s1 staging_P unfolding staging_found_def by blast
  from running(6) show ?thesis
  proof (cases rule: replicateInto_elim)
    case stop
    then show ?thesis using s2 by simp
  next
    case (unopened x)
    then show ?thesis using begin_P [OF s2] by blast
  next
    case (opened i g s3)
    have "P s3" using opened(1) s2 begin_P by blast
    then show ?thesis using replicateRest_P [OF _ can opened(2)] by blast
  qed
qed

end

section \<open>Published objects\<close>

definition backed :: "FleetObjectMapping \<Rightarrow> Meta \<Rightarrow> bool" where
  "backed r m \<longleftrightarrow>
     canonical (fm_LocatorHash r) \<and> length (fm_LocatorHash r) = 64 \<and>
     (\<exists>j \<in> set (mt_journal m). fj_Status j = FleetImportCommitted \<and> fj_GenerationID j = fm_GenerationID r \<and>
        to_lower (fj_ManifestDigest j) = fm_ManifestDigest r \<and> fj_FramesTotal j = int (length (chunksOf (fm_GenerationID r) m))) \<and>
     (\<exists>g \<in> set (mt_generations m). lg_ID g = fm_GenerationID r \<and> lg_Sealed g) \<and>
     sort (map ch_Seq (chunksOf (fm_GenerationID r) m)) = map int [0..<length (chunksOf (fm_GenerationID r) m)] \<and>
     chunksOf (fm_GenerationID r) m \<noteq> []"

definition pub_inv :: "Meta \<Rightarrow> bool" where
  "pub_inv m \<longleftrightarrow> (\<forall>r \<in> set (mt_mappings m). fm_Status r = FleetMappingCommitted \<longrightarrow> backed r m)"

text \<open>\<open>calm m m'\<close>: committed imports stay committed, sealed generations stay sealed.\<close>

definition calm :: "Meta \<Rightarrow> Meta \<Rightarrow> bool" where
  "calm m m' \<longleftrightarrow>
     (\<forall>j \<in> set (mt_journal m). fj_Status j = FleetImportCommitted \<longrightarrow>
        (\<exists>j' \<in> set (mt_journal m'). fj_Status j' = FleetImportCommitted \<and> fj_GenerationID j' = fj_GenerationID j \<and>
           fj_ManifestDigest j' = fj_ManifestDigest j \<and> fj_FramesTotal j' = fj_FramesTotal j)) \<and>
     (\<forall>g \<in> set (mt_generations m). lg_Sealed g \<longrightarrow> (\<exists>g' \<in> set (mt_generations m'). lg_ID g' = lg_ID g \<and> lg_Sealed g'))"

lemma calm_refl [simp]: "calm m m" by (auto simp: calm_def)

lemma calm_trans:
  assumes "calm a b" and "calm b c"
  shows "calm a c"
  using assms unfolding calm_def by (metis (no_types, lifting))

lemma backed_kept:
  assumes "backed r m" and "calm m m'" and "chunksOf (fm_GenerationID r) m' = chunksOf (fm_GenerationID r) m"
  shows "backed r m'"
proof -
  obtain j where "j \<in> set (mt_journal m)" "fj_Status j = FleetImportCommitted" "fj_GenerationID j = fm_GenerationID r"
    "to_lower (fj_ManifestDigest j) = fm_ManifestDigest r" "fj_FramesTotal j = int (length (chunksOf (fm_GenerationID r) m))"
    using assms(1) by (auto simp: backed_def)
  moreover obtain g where "g \<in> set (mt_generations m)" "lg_ID g = fm_GenerationID r" "lg_Sealed g"
    using assms(1) by (auto simp: backed_def)
  ultimately have "\<exists>j \<in> set (mt_journal m'). fj_Status j = FleetImportCommitted \<and> fj_GenerationID j = fm_GenerationID r \<and>
        to_lower (fj_ManifestDigest j) = fm_ManifestDigest r \<and> fj_FramesTotal j = int (length (chunksOf (fm_GenerationID r) m))"
    "\<exists>g \<in> set (mt_generations m'). lg_ID g = fm_GenerationID r \<and> lg_Sealed g"
    using assms(2) unfolding calm_def by metis+
  then show ?thesis using assms(1,3) by (simp add: backed_def)
qed

lemma calm_journal:
  assumes "\<And>j. fj_GenerationID (u j) = fj_GenerationID j" and "\<And>j. fj_ManifestDigest (u j) = fj_ManifestDigest j"
    and "\<And>j. fj_FramesTotal (u j) = fj_FramesTotal j" and "\<And>j. fj_Status j = FleetImportCommitted \<Longrightarrow> fj_Status (u j) = FleetImportCommitted"
  shows "calm m (m\<lparr> mt_journal := map u (mt_journal m) \<rparr>)"
proof -
  have "\<exists>j' \<in> set (map u (mt_journal m)). fj_Status j' = FleetImportCommitted \<and> fj_GenerationID j' = fj_GenerationID j \<and>
           fj_ManifestDigest j' = fj_ManifestDigest j \<and> fj_FramesTotal j' = fj_FramesTotal j"
    if "j \<in> set (mt_journal m)" "fj_Status j = FleetImportCommitted" for j
    by (rule bexI [of _ "u j"]) (use assms that in auto)
  then show ?thesis by (auto simp: calm_def)
qed

lemma AdvanceFleetImportFrames_calm: "AdvanceFleetImportFrames fails i n m = (e, m') \<Longrightarrow> calm m m'"
  by (auto simp: AdvanceFleetImportFrames_def Let_def split: if_splits intro!: calm_journal)

lemma AbortFleetImport_calm: "AbortFleetImport fails i m = (e, m') \<Longrightarrow> calm m m'"
  by (auto simp: AbortFleetImport_def split: if_splits intro!: calm_journal)

lemma journalCommitted_calm: "calm m (journalCommitted i m)"
  unfolding journalCommitted_def by (rule calm_journal) simp_all

lemma UpdateGenerationOffset_calm: "UpdateGenerationOffset fails i a b c d m = (e, m') \<Longrightarrow> calm m m'"
  by (auto simp: UpdateGenerationOffset_def calm_def split: if_splits option.splits)

lemma calm_generations:
  assumes "\<And>g. lg_ID (u g) = lg_ID g" and "\<And>g. lg_Sealed g \<Longrightarrow> lg_Sealed (u g)"
  shows "calm m (m\<lparr> mt_generations := map u (mt_generations m) \<rparr>)"
proof -
  have "\<exists>g' \<in> set (map u (mt_generations m)). lg_ID g' = lg_ID g \<and> lg_Sealed g'"
    if "g \<in> set (mt_generations m)" "lg_Sealed g" for g
    by (rule bexI [of _ "u g"]) (use assms that in auto)
  then show ?thesis by (auto simp: calm_def)
qed

lemma SealGeneration_calm: "SealGeneration fails i m = (e, m') \<Longrightarrow> calm m m'"
  by (auto simp: SealGeneration_def split: if_splits intro!: calm_generations)

lemma SealGeneration_seals: "SealGeneration fails i m = (None, m') \<Longrightarrow> \<exists>g \<in> set (mt_generations m'). lg_ID g = i \<and> lg_Sealed g"
  unfolding SealGeneration_def by (auto simp: filter_empty_conv split: if_splits intro!: rev_bexI)

text \<open>Mappings that stay as they are, or disappear, with the chunks of their generations.\<close>

lemma pub_inv_kept:
  assumes "pub_inv m" and "calm m m'"
    and "\<And>r. r \<in> set (mt_mappings m') \<Longrightarrow> fm_Status r = FleetMappingCommitted \<Longrightarrow> r \<in> set (mt_mappings m)"
    and "\<And>r. r \<in> set (mt_mappings m) \<Longrightarrow> fm_Status r = FleetMappingCommitted \<Longrightarrow> backed r m \<Longrightarrow>
      chunksOf (fm_GenerationID r) m' = chunksOf (fm_GenerationID r) m"
  shows "pub_inv m'"
  using assms backed_kept unfolding pub_inv_def by metis

lemma pub_inv_quiet: "pub_inv m \<Longrightarrow> calm m m' \<Longrightarrow> quiet m m' \<Longrightarrow> pub_inv m'"
  by (rule pub_inv_kept) (auto simp: quiet_def same_objects_def chunksOf_def)

lemma BeginFleetImport_calm:
  assumes "BeginFleetImport flt lh d n m = (r, m')"
  shows "calm m m'" and "mt_mappings m' = mt_mappings m" and "mt_chunks m' = mt_chunks m"
  using assms by (auto simp: BeginFleetImport_def InsertGeneration_def calm_def Let_def split: if_splits prod.splits sum.splits option.splits)

text \<open>The sink keeps it: frames are written to the generation of a staging import, which is no published one.\<close>

lemma ps_WriteFrame_tables:
  assumes "ps_WriteFrame i g f z s = (e, s')"
  shows "calm (ps_Meta s) (ps_Meta s')" and "mt_mappings (ps_Meta s') = mt_mappings (ps_Meta s)"
    and "(\<exists>j \<in> set (mt_journal (ps_Meta s)). fj_Status j = FleetImportStaging \<and> fj_GenerationID j = g) \<and>
         (\<forall>g'. g' \<noteq> g \<longrightarrow> chunksOf g' (ps_Meta s') = chunksOf g' (ps_Meta s)) \<or> mt_chunks (ps_Meta s') = mt_chunks (ps_Meta s)"
proof -
  let ?goal = "calm (ps_Meta s) (ps_Meta s') \<and> mt_mappings (ps_Meta s') = mt_mappings (ps_Meta s) \<and>
    ((\<exists>j \<in> set (mt_journal (ps_Meta s)). fj_Status j = FleetImportStaging \<and> fj_GenerationID j = g) \<and>
         (\<forall>g'. g' \<noteq> g \<longrightarrow> chunksOf g' (ps_Meta s') = chunksOf g' (ps_Meta s)) \<or> mt_chunks (ps_Meta s') = mt_chunks (ps_Meta s))"
  have ?goal
  proof (cases "\<exists>j. GetFleetImport (faults s 0) i (ps_Meta s) = Inr j \<and> fj_Status j = FleetImportStaging \<and> fj_GenerationID j = g")
    case False
    then show ?thesis using assms by (auto simp: ps_WriteFrame_def split: sum.splits if_splits)
  next
    case True
    then obtain j where j: "GetFleetImport (faults s 0) i (ps_Meta s) = Inr j" "fj_Status j = FleetImportStaging" "fj_GenerationID j = g"
      by blast
    then have st: "\<exists>j \<in> set (mt_journal (ps_Meta s)). fj_Status j = FleetImportStaging \<and> fj_GenerationID j = g"
      using find_SomeD [of _ "mt_journal (ps_Meta s)" j]
      by (auto simp: GetFleetImport_def findImport_def split: if_splits option.splits)
    obtain x m fs where imp: "ImportPureZstdFrame (\<lambda>k. faults s (1 + k)) (ps_Zstd s) (ps_Crypto s) (ps_nonce s (ps_calls s)) g (specOf f z)
        (ps_Meta s, ps_Files s) = (x, m, fs)" by (metis prod_cases3)
    have m: "m = ps_Meta s \<or> (\<exists>c. ch_GenerationID c = g \<and> m = (ps_Meta s)\<lparr> mt_chunks := mt_chunks (ps_Meta s) @ [c] \<rparr>)"
      using imp
    proof (cases rule: ImportPureZstdFrame_effect)
      case (recorded raw b alg ver cps le)
      let ?c = "importedChunk g (specOf f z) raw cps le b alg ver"
      have "m = (ps_Meta s)\<lparr> mt_chunks := mt_chunks (ps_Meta s) @ [?c] \<rparr>" by (rule InsertChunk_effect [OF recorded(5)]) simp_all
      then show ?thesis by (intro disjI2 exI [of _ ?c]) (simp add: importedChunk_def)
    qed simp_all
    have m': "calm (ps_Meta s) m" "mt_mappings m = mt_mappings (ps_Meta s)" "\<forall>g'. g' \<noteq> g \<longrightarrow> chunksOf g' m = chunksOf g' (ps_Meta s)"
      using m by (auto simp: calm_def chunksOf_def)
    have "ps_Meta s' = m \<or> (\<exists>n a. AdvanceFleetImportFrames (faults s 5) i n m = (a, ps_Meta s'))"
      using assms j imp by (cases x) (auto simp: ps_WriteFrame_def Let_def split: prod.splits)
    then show ?thesis
    proof
      assume "\<exists>n a. AdvanceFleetImportFrames (faults s 5) i n m = (a, ps_Meta s')"
      then obtain n a where adv: "AdvanceFleetImportFrames (faults s 5) i n m = (a, ps_Meta s')" by blast
      have "calm m (ps_Meta s')" by (rule AdvanceFleetImportFrames_calm [OF adv])
      moreover have "mt_mappings (ps_Meta s') = mt_mappings m" "mt_chunks (ps_Meta s') = mt_chunks m"
        using AdvanceFleetImportFrames_quiet [OF adv] by (simp_all add: quiet_def same_objects_def)
      ultimately show ?thesis using m' st calm_trans by (simp add: chunksOf_def)
    qed (use m' st in simp)
  qed
  then show "calm (ps_Meta s) (ps_Meta s')" "mt_mappings (ps_Meta s') = mt_mappings (ps_Meta s)"
    "(\<exists>j \<in> set (mt_journal (ps_Meta s)). fj_Status j = FleetImportStaging \<and> fj_GenerationID j = g) \<and>
         (\<forall>g'. g' \<noteq> g \<longrightarrow> chunksOf g' (ps_Meta s') = chunksOf g' (ps_Meta s)) \<or> mt_chunks (ps_Meta s') = mt_chunks (ps_Meta s)"
    by blast+
qed

lemma staging_not_backed:
  assumes "meta_inv m" and "backed r m" and "j \<in> set (mt_journal m)" and "fj_Status j = FleetImportStaging"
  shows "fm_GenerationID r \<noteq> fj_GenerationID j"
proof
  assume g: "fm_GenerationID r = fj_GenerationID j"
  obtain j' where j': "j' \<in> set (mt_journal m)" "fj_Status j' = FleetImportCommitted" "fj_GenerationID j' = fm_GenerationID r"
    using assms(2) by (auto simp: backed_def)
  have "inj_on fj_GenerationID (set (mt_journal m))" using assms(1) by (simp add: meta_inv_def distinct_map)
  from inj_onD [OF this _ j'(1) assms(3)] have "j' = j" using j'(3) g by simp
  then show False using j'(2) assms(4) by simp
qed

lemma write_published:
  assumes "ps_inv s" and "pub_inv (ps_Meta s)" and "ps_WriteFrame i g f z s = (e, s')"
  shows "pub_inv (ps_Meta s')"
proof -
  note t = ps_WriteFrame_tables [OF assms(3)]
  show ?thesis
  proof (rule pub_inv_kept [OF assms(2) t(1)])
    show "r \<in> set (mt_mappings (ps_Meta s))" if "r \<in> set (mt_mappings (ps_Meta s'))" for r using that t(2) by simp
    show "chunksOf (fm_GenerationID r) (ps_Meta s') = chunksOf (fm_GenerationID r) (ps_Meta s)" if "backed r (ps_Meta s)" for r
      using t(3) staging_not_backed [OF _ that] assms(1) by (fastforce simp: ps_inv_def chunksOf_def)
  qed
qed

lemma foldr_min_le: "x \<in> set xs \<Longrightarrow> foldr min xs a \<le> (x :: int)"
  by (induction xs) (auto intro: min.coboundedI2)

lemma foldr_max_ge: "x \<in> set xs \<Longrightarrow> (x :: int) \<le> foldr max xs a"
  by (induction xs) (auto intro: max.coboundedI2)

lemma commitGate_journal:
  assumes "commitGate flt i g d m = None"
  shows "\<exists>j \<in> set (mt_journal m). fj_ID j = i \<and> fj_GenerationID j = g \<and> to_lower (fj_ManifestDigest j) = to_lower d \<and>
      fj_FramesTotal j = int (length (chunksOf g m))"
    and "sort (map ch_Seq (chunksOf g m)) = map int [0..<length (chunksOf g m)]" and "chunksOf g m \<noteq> []"
proof -
  let ?seqs = "map ch_Seq (chunksOf g m)"
  let ?n = "length ?seqs"
  from assms obtain j where j: "findImport i m = Some j" "fj_GenerationID j = g" "equal_fold (fj_ManifestDigest j) d"
    "int (length (chunksOf g m)) = fj_FramesTotal j" "int (length (remdups ?seqs)) = fj_FramesTotal j" "1 \<le> fj_FramesTotal j"
    and lo: "foldr min ?seqs (hd (?seqs @ [- 1])) = 0" and hi: "foldr max ?seqs (hd (?seqs @ [- 1])) = fj_FramesTotal j - 1"
    by (auto simp: commitGate_def Let_def split: if_splits option.splits)
  then show "\<exists>j \<in> set (mt_journal m). fj_ID j = i \<and> fj_GenerationID j = g \<and> to_lower (fj_ManifestDigest j) = to_lower d \<and>
      fj_FramesTotal j = int (length (chunksOf g m))"
    using find_SomeD [of "\<lambda>j. fj_ID j = i" "mt_journal m" j] by (auto simp: findImport_def equal_fold_def intro!: bexI [of _ j])
  show "chunksOf g m \<noteq> []" using j(4,6) by auto
  have dist: "distinct ?seqs"
    using j(4,5) length_remdups_card_conv card_distinct [of ?seqs] by (metis length_map of_nat_eq_iff)
  have "set ?seqs \<subseteq> {0 ..< int ?n}"
    using foldr_min_le [of _ ?seqs "hd (?seqs @ [- 1])"] foldr_max_ge [of _ ?seqs "hd (?seqs @ [- 1])"] lo hi j(4) by fastforce
  moreover have "card (set ?seqs) = card {0 ..< int ?n}" using distinct_card [OF dist] by simp
  ultimately have "set ?seqs = {0 ..< int ?n}" by (intro card_subset_eq) simp_all
  also have "\<dots> = set (map int [0..<?n])"
    using image_int_atLeastLessThan [of 0 ?n] by simp
  finally have "set (sort ?seqs) = set (map int [0..<?n])" by simp
  moreover have "sorted (map int [0..<?n])" by (simp add: sorted_wrt_map)
  moreover have "distinct (map int [0..<?n])" by (simp add: distinct_map inj_on_def)
  ultimately have "sort ?seqs = map int [0..<?n]" using dist by (intro sorted_distinct_set_unique) simp_all
  then show "sort ?seqs = map int [0..<length (chunksOf g m)]" by simp
qed

lemma commitTx_cases:
  assumes "commitTx flt i g lh d f p c m = (e, m')"
  obtains (no) "e \<noteq> None" "m' = m"
    | (converged) "e = None" "m' = journalCommitted i m"
    | (published) row where "e = None" "fm_GenerationID row = g" "fm_LocatorHash row = lh" "fm_ManifestDigest row = d"
        "mt_generations m' = mt_generations m" "mt_chunks m' = mt_chunks m"
        "mt_journal m' = mt_journal (journalCommitted i m)" "set (mt_mappings m') \<subseteq> insert row (set (mt_mappings m))"
proof -
  let ?row = "\<lparr> fm_LocatorHash = lh, fm_ManifestDigest = d, fm_FleetID = f, fm_CachePool = p, fm_ControllerID = c,
                fm_GenerationID = g, fm_Status = FleetMappingCommitted \<rparr>"
  have "e \<noteq> None \<and> m' = m \<or> e = None \<and> m' = journalCommitted i m \<or>
    e = None \<and> (\<exists>rows. m' = journalCommitted i (m\<lparr> mt_mappings := rows \<rparr>) \<and> set rows \<subseteq> insert ?row (set (mt_mappings m)))"
    using assms by (auto simp: commitTx_def Let_def split: if_splits option.splits)
  then consider "e \<noteq> None" "m' = m" | "e = None" "m' = journalCommitted i m"
    | rows where "e = None" "m' = journalCommitted i (m\<lparr> mt_mappings := rows \<rparr>)" "set rows \<subseteq> insert ?row (set (mt_mappings m))"
    by blast
  then show thesis
  proof cases
    case 1
    then show thesis by (rule no)
  next
    case 2
    then show thesis by (rule converged)
  next
    case (3 rows)
    show thesis by (rule published [of ?row]) (use 3 in \<open>simp_all add: journalCommitted_def\<close>)
  qed
qed

lemma commit_published:
  assumes I: "ps_inv s" "pub_inv (ps_Meta s)" and can: "canonical_manifest m" and c: "ps_Commit i g m s = (e, s')"
  shows "pub_inv (ps_Meta s')"
proof -
  let ?m = "ps_Meta s" and ?d = "wm_ManifestDigest m" and ?lh = "wm_LocatorHash m"
  have d: "wireDigest m = Inr ?d" "norm_hash ?d = ?d" "to_lower ?d = ?d"
    and lh: "norm_hash (to_lower ?lh) = ?lh" "canonical ?lh" "length ?lh = 64"
    using can norm_canonical by (auto simp: canonical_manifest_def wireDigest_def canonical_def)
  have com: "CommitFleetImport (faults s) i g (to_lower ?lh) ?d (wm_FleetID m) (wm_CachePool m) (wm_ControllerID m) (totalRawOf m) ?m
      = (e, ps_Meta s')"
    using c d by (auto simp: ps_Commit_def split: prod.splits)
  show ?thesis
  proof (cases "i \<le> 0 \<or> g \<le> 0 \<or> commitGate (faults s) i g ?d ?m \<noteq> None")
    case True
    then have "ps_Meta s' = ?m"
      using com d by (cases "commitGate (faults s) i g ?d ?m") (auto simp: CommitFleetImport_def Let_def split: if_splits)
    then show ?thesis using I by simp
  next
    case False
    then have gate: "commitGate (faults s) i g ?d ?m = None" by simp
    obtain a m1 where upd: "UpdateGenerationOffset (faults s 3) g (totalRawOf m) False True False ?m = (a, m1)" by fastforce
    obtain b m2 where seal: "SealGeneration (faults s 4) g m1 = (b, m2)" by fastforce
    note q1 = UpdateGenerationOffset_quiet [OF upd] UpdateGenerationOffset_calm [OF upd]
    note q2 = SealGeneration_quiet [OF seal] SealGeneration_calm [OF seal]
    have p1: "pub_inv m1" by (rule pub_inv_quiet [OF I(2) q1(2,1)])
    have p2: "pub_inv m2" by (rule pub_inv_quiet [OF p1 q2(2,1)])
    have same: "mt_chunks m2 = mt_chunks ?m" "import_keys m2 = import_keys ?m"
      using quiet_trans [OF q1(1) q2(1)] by (simp_all add: quiet_def same_objects_def)
    show ?thesis
    proof (cases "a = None \<and> b = None")
      case False
      then have "ps_Meta s' = m1 \<or> ps_Meta s' = m2"
        using com gate upd seal d \<open>\<not> (i \<le> 0 \<or> _)\<close> by (cases a; cases b) (auto simp: CommitFleetImport_def Let_def)
      then show ?thesis using p1 p2 by auto
    next
      case True
      then have tx: "commitTx (faults s) i g ?lh ?d (wm_FleetID m) (wm_CachePool m) (wm_ControllerID m) m2 = (e, ps_Meta s')"
        using com gate upd seal d lh \<open>\<not> (i \<le> 0 \<or> _)\<close> by (auto simp: CommitFleetImport_def Let_def)
      from tx show ?thesis
      proof (cases rule: commitTx_cases)
        case no
        then show ?thesis using p2 by simp
      next
        case converged
        show ?thesis unfolding converged(2)
          by (rule pub_inv_quiet [OF p2 journalCommitted_calm journalCommitted_quiet])
      next
        case (published row)
        let ?m' = "ps_Meta s'"
        have calm: "calm m2 ?m'"
          using journalCommitted_calm [of m2 i] published(5,7) by (auto simp: calm_def journalCommitted_def)
        have cks: "chunksOf h ?m' = chunksOf h m2" for h by (simp add: chunksOf_def published(6))
        from commitGate_journal(1) [OF gate] obtain j where j: "j \<in> set (mt_journal ?m)" "fj_ID j = i" "fj_GenerationID j = g"
          "to_lower (fj_ManifestDigest j) = ?d" "fj_FramesTotal j = int (length (chunksOf g ?m))" using d(3) by auto
        have "(i, g, fj_ManifestDigest j, fj_FramesTotal j) \<in> set (import_keys m2)"
          unfolding same(2) using j by (auto simp: import_keys_def)
        then obtain j2 where j2: "j2 \<in> set (mt_journal m2)" "fj_ID j2 = i" "fj_GenerationID j2 = g"
          "fj_ManifestDigest j2 = fj_ManifestDigest j" "fj_FramesTotal j2 = fj_FramesTotal j" by (auto simp: import_keys_def)
        let ?j = "j2\<lparr> fj_Status := FleetImportCommitted \<rparr>"
        have "?j \<in> set (mt_journal ?m')" unfolding published(7) using j2(1,2) by (auto simp: journalCommitted_def)
        moreover have cg: "chunksOf g ?m' = chunksOf g ?m" by (simp add: chunksOf_def published(6) same(1))
        ultimately have "\<exists>j \<in> set (mt_journal ?m'). fj_Status j = FleetImportCommitted \<and> fj_GenerationID j = g \<and>
            to_lower (fj_ManifestDigest j) = ?d \<and> fj_FramesTotal j = int (length (chunksOf g ?m'))"
          using j2 j by (intro bexI [of _ ?j]) simp_all
        moreover have "\<exists>h \<in> set (mt_generations ?m'). lg_ID h = g \<and> lg_Sealed h"
          using SealGeneration_seals seal True published(5) by auto
        ultimately have new: "backed row ?m'"
          using commitGate_journal(2,3) [OF gate] lh published(2-4) cg by (simp add: backed_def)
        show ?thesis
          unfolding pub_inv_def
        proof (intro ballI impI)
          fix r assume r: "r \<in> set (mt_mappings ?m')" "fm_Status r = FleetMappingCommitted"
          show "backed r ?m'"
          proof (cases "r = row")
            case False
            then have "backed r m2" using r published(8) p2 by (auto simp: pub_inv_def)
            then show ?thesis by (rule backed_kept [OF _ calm cks])
          qed (simp add: new)
        qed
      qed
    qed
  qed
qed

definition ps_published :: "PeerImportSink \<Rightarrow> bool" where
  "ps_published s \<longleftrightarrow> ps_inv s \<and> pub_inv (ps_Meta s)"

interpretation published: sink_invariant PeerSink ps_published
proof
  fix s s' :: PeerImportSink and lh r
  assume "ps_published s" "is_GetCommitted PeerSink lh s = (r, s')"
  then show "ps_published s'" using get_law(1) [of lh s r s'] by (simp add: PeerSink_def ps_published_def ps_inv_def)
next
  fix s s' :: PeerImportSink and m rb
  assume a: "ps_published s" "is_Begin PeerSink m s = (rb, s')"
  then have b: "ps_Begin m s = (rb, s')" by (simp add: PeerSink_def)
  have "pub_inv (ps_Meta s')"
  proof (cases "ps_Meta s' = ps_Meta s")
    case False
    then obtain d where "BeginFleetImport (faults s) (wm_LocatorHash m) d (int (length (wm_Frames m))) (ps_Meta s) = (rb, ps_Meta s')"
      using b by (auto simp: ps_Begin_def split: sum.splits prod.splits)
    note q = BeginFleetImport_calm [OF this]
    show ?thesis by (rule pub_inv_kept [OF _ q(1)]) (use a(1) q in \<open>simp_all add: ps_published_def chunksOf_def\<close>)
  qed (use a(1) in \<open>simp add: ps_published_def\<close>)
  then show "ps_published s'" using begin_law(1) [OF b] a(1) by (simp add: ps_published_def)
next
  fix s s' :: PeerImportSink and i g f z e
  assume a: "ps_published s" "is_WriteFrame PeerSink i g f z s = (e, s')"
  then have w: "ps_WriteFrame i g f z s = (e, s')" by (simp add: PeerSink_def)
  show "ps_published s'" using write_frame_law(1) [OF _ w] write_published [OF _ _ w] a(1) by (simp add: ps_published_def)
next
  fix s s' :: PeerImportSink and m i g e
  assume a: "ps_published s" "canonical_manifest m" "is_Commit PeerSink i g m s = (e, s')"
  then have c: "ps_Commit i g m s = (e, s')" by (simp add: PeerSink_def)
  show "ps_published s'" using commit_law(1) [OF c _ a(2)] commit_published [OF _ _ a(2) c] a(1) by (simp add: ps_published_def)
next
  fix s s' :: PeerImportSink and i e
  assume a: "ps_published s" "is_Abort PeerSink i s = (e, s')"
  then have b: "ps_Abort i s = (e, s')" by (simp add: PeerSink_def)
  then have ab: "AbortFleetImport (faults s 0) i (ps_Meta s) = (e, ps_Meta s')" by (auto simp: ps_Abort_def split: prod.splits)
  note q = AbortFleetImport_quiet [OF ab] AbortFleetImport_calm [OF ab]
  show "ps_published s'" using quiet_inv [OF _ q(1)] pub_inv_quiet [OF _ q(2,1)] a(1) by (simp add: ps_published_def ps_inv_def)
next
  fix s s' :: PeerImportSink and look lh d rs
  assume a: "ps_published s" "is_GetStaging PeerSink = Some look" "look lh d s = (rs, s')"
  then have "ps_GetStaging lh d s = (rs, s')" by (simp add: PeerSink_def)
  from staging_law(1) [OF this] show "ps_published s'" using a(1) by (simp add: ps_published_def ps_inv_def)
qed

end
