(* ===== verification/FleetRecoverCorrect.thy ===== *)
theory FleetRecoverCorrect
  imports FleetRecover PeerPublished
begin

text \<open>
  Recovery: the verdict on a generation is exact, a recovery that returns leaves no staging import and only
  intact published objects, and a second one finds nothing to do.
\<close>

section \<open>The verdict on a generation\<close>

definition frame_intact :: "FrameFiles \<Rightarrow> Chunk \<Rightarrow> bool" where
  "frame_intact files c \<longleftrightarrow>
     (\<exists>path b. FrameAbsPath (ch_RelPath c) = Inr path \<and> files path = Some b \<and> b \<noteq> [] \<and>
        (ch_FrameSHA256 c = [] \<or> to_lower (ch_FrameSHA256 c) = hexSum b))"

definition intact :: "FrameFiles \<Rightarrow> int \<Rightarrow> int \<Rightarrow> Meta \<Rightarrow> bool" where
  "intact files g n m \<longleftrightarrow>
     0 < g \<and> (\<exists>h. List.find (\<lambda>h. lg_ID h = g) (mt_generations m) = Some h \<and> lg_Sealed h) \<and>
     chunksOf g m \<noteq> [] \<and> (0 < n \<longrightarrow> int (length (chunksOf g m)) = n) \<and>
     sort (map ch_Seq (chunksOf g m)) = map int [0..<length (chunksOf g m)] \<and>
     (\<forall>c \<in> set (chunksOf g m). frame_intact files c)"

lemma healthSeqs_None:
  "healthSeqs n seen cs = None \<longleftrightarrow> set (map ch_Seq cs) \<subseteq> {0..<n} - set seen \<and> distinct (map ch_Seq cs)"
proof (induction cs arbitrary: seen)
  case (Cons a cs)
  have "(insert x A \<subseteq> B - S \<and> x \<notin> A) = (x \<in> B \<and> x \<notin> S \<and> A \<subseteq> B - insert x S)" for x :: int and A B S by blast
  from this [of "ch_Seq a" "set (map ch_Seq cs)" "{0..<n}" "set seen"] show ?case using Cons [of "ch_Seq a # seen"] by auto
qed simp

lemma seqs_full:
  "healthSeqs (int (length cs)) [] cs = None \<longleftrightarrow> sort (map ch_Seq cs) = map int [0..<length cs]"
proof
  assume h: "healthSeqs (int (length cs)) [] cs = None"
  then have dist: "distinct (map ch_Seq cs)" and sub: "set (map ch_Seq cs) \<subseteq> {0 ..< int (length cs)}"
    by (auto simp: healthSeqs_None)
  have "card (set (map ch_Seq cs)) = card {0 ..< int (length cs)}" using distinct_card [OF dist] by simp
  with sub have "set (map ch_Seq cs) = {0 ..< int (length cs)}" by (intro card_subset_eq) simp_all
  then have "set (sort (map ch_Seq cs)) = set (map int [0..<length cs])"
    using image_int_atLeastLessThan [of 0 "length cs"] by simp
  moreover have "sorted (map int [0..<length cs])" by (simp add: sorted_wrt_map)
  moreover have "distinct (map int [0..<length cs])" by (simp add: distinct_map inj_on_def)
  ultimately show "sort (map ch_Seq cs) = map int [0..<length cs]" using dist by (intro sorted_distinct_set_unique) simp_all
next
  assume s: "sort (map ch_Seq cs) = map int [0..<length cs]"
  have d: "distinct (map int [0..<length cs])" by (simp add: distinct_map inj_on_def)
  have "distinct (map ch_Seq cs)" using d unfolding s [symmetric] by simp
  moreover have "set (map ch_Seq cs) = int ` {0..<length cs}" using arg_cong [OF s, of set] by simp
  then have "set (map ch_Seq cs) \<subseteq> {0..<int (length cs)}" by auto
  ultimately show "healthSeqs (int (length cs)) [] cs = None" by (simp add: healthSeqs_None)
qed

lemma seqs_full_sort:
  "healthSeqs (int (length cs)) [] (sort_key ch_Seq cs) = None \<longleftrightarrow> sort (map ch_Seq cs) = map int [0..<length cs]"
proof -
  have "distinct (map ch_Seq (sort_key ch_Seq cs)) = distinct (map ch_Seq cs)"
    using card_distinct distinct_card by (metis length_map length_sort list.set_map set_sort)
  then show ?thesis unfolding seqs_full [symmetric] by (simp add: healthSeqs_None)
qed

text \<open>The verdict \<open>seq_gap\<close> is never given: it is the range check or the check for duplicates that fails.\<close>

lemma no_gap:
  assumes "healthSeqs (int (length cs)) [] (sort_key ch_Seq cs) = None"
  shows "\<not> seqGap (int (length cs)) (sort_key ch_Seq cs)"
proof -
  have "sort (map ch_Seq cs) = map int [0..<length cs]" using assms seqs_full_sort by simp
  from arg_cong [OF this, of set] show ?thesis by (auto simp: seqGap_def list_ex_iff)
qed

lemma healthFiles_None: "healthFiles flt k files cs = Inr r \<Longrightarrow> r = None \<longleftrightarrow> (\<forall>c \<in> set cs. frame_intact files c)"
  by (induction cs arbitrary: k) (auto simp: frame_intact_def hmacEqualHex_iff split: sum.splits if_splits option.splits)

lemma CheckGenerationHealth_exact:
  assumes "CheckGenerationHealth flt files g n m = Inr h"
  shows "gh_Healthy h \<longleftrightarrow> intact files g n m"
proof (cases "0 < g \<and> (\<exists>h. List.find (\<lambda>h. lg_ID h = g) (mt_generations m) = Some h \<and> lg_Sealed h)")
  case False
  then have "\<not> gh_Healthy h"
    using assms by (auto simp: CheckGenerationHealth_def GetGenerationByID_def Let_def split: if_splits sum.splits option.splits)
  then show ?thesis using False by (auto simp: intact_def)
next
  case True
  then obtain r where r: "0 < g" "List.find (\<lambda>h. lg_ID h = g) (mt_generations m) = Some r" "lg_Sealed r" by blast
  let ?cs = "sort_key ch_Seq (chunksOf g m)"
  have flt: "\<not> flt 0" "\<not> flt 1"
    using assms r by (auto simp: CheckGenerationHealth_def GetGenerationByID_def ListChunks_def Let_def split: if_splits)
  note H = assms [unfolded CheckGenerationHealth_def GetGenerationByID_def ListChunks_def Let_def]
  consider (count) "chunksOf g m = [] \<or> 0 < n \<and> int (length (chunksOf g m)) \<noteq> n"
    | (seqs) q where "\<not> (chunksOf g m = [] \<or> 0 < n \<and> int (length (chunksOf g m)) \<noteq> n)"
        "healthSeqs (int (length (chunksOf g m))) [] ?cs = Some q"
    | (files) "\<not> (chunksOf g m = [] \<or> 0 < n \<and> int (length (chunksOf g m)) \<noteq> n)"
        "healthSeqs (int (length (chunksOf g m))) [] ?cs = None"
    by (metis not_Some_eq)
  then show ?thesis
  proof cases
    case count
    then have "\<not> gh_Healthy h" using H r flt by (auto split: if_splits)
    then show ?thesis using count by (auto simp: intact_def)
  next
    case seqs
    then have "\<not> gh_Healthy h" using H r flt by (auto split: if_splits)
    moreover have "sort (map ch_Seq (chunksOf g m)) \<noteq> map int [0..<length (chunksOf g m)]"
      using seqs(2) seqs_full_sort [of "chunksOf g m"] by simp
    ultimately show ?thesis by (auto simp: intact_def)
  next
    case files
    have gap: "\<not> seqGap (int (length (chunksOf g m))) ?cs" by (rule no_gap [OF files(2)])
    obtain v where v: "healthFiles (\<lambda>k. flt (2 + k)) 0 files ?cs = Inr v" "gh_Healthy h \<longleftrightarrow> v = None"
      using H r flt files gap by (cases "healthFiles (\<lambda>k. flt (2 + k)) 0 files ?cs") (auto split: if_splits option.splits)
    have "gh_Healthy h \<longleftrightarrow> (\<forall>c \<in> set (chunksOf g m). frame_intact files c)"
      using healthFiles_None [OF v(1)] v(2) by simp
    then show ?thesis using files r seqs_full_sort [of "chunksOf g m"] by (simp add: intact_def)
  qed
qed

section \<open>The two loops\<close>

definition aborted :: "int set \<Rightarrow> Meta \<Rightarrow> Meta" where
  "aborted A m = m\<lparr> mt_journal := map (\<lambda>j. if fj_ID j \<in> A \<and> fj_Status j = FleetImportStaging
                                          then j\<lparr> fj_Status := FleetImportAborted \<rparr> else j) (mt_journal m) \<rparr>"

definition quarantined :: "string set \<Rightarrow> Meta \<Rightarrow> Meta" where
  "quarantined A m = m\<lparr> mt_mappings := map (\<lambda>r. if fm_LocatorHash r \<in> A \<and> fm_Status r = FleetMappingCommitted
                                           then r\<lparr> fm_Status := FleetMappingQuarantined \<rparr> else r) (mt_mappings m) \<rparr>"

lemma aborted_aborted: "aborted A (aborted B m) = aborted (A \<union> B) m"
  by (auto simp: aborted_def)

lemma quarantined_quarantined: "quarantined A (quarantined B m) = quarantined (A \<union> B) m"
  by (auto simp: quarantined_def)

lemma aborted_none [simp]: "aborted {} m = m" by (simp add: aborted_def)

lemma quarantined_none [simp]: "quarantined {} m = m" by (simp add: quarantined_def)

lemma aborted_fields [simp]:
  "mt_chunks (aborted A m) = mt_chunks m" "mt_mappings (aborted A m) = mt_mappings m" "mt_generations (aborted A m) = mt_generations m"
  by (simp_all add: aborted_def)

lemma quarantined_fields [simp]:
  "mt_chunks (quarantined A m) = mt_chunks m" "mt_journal (quarantined A m) = mt_journal m" "mt_generations (quarantined A m) = mt_generations m"
  by (simp_all add: quarantined_def)

lemma AbortFleetImport_aborts: "AbortFleetImport fails i m = (e, m') \<Longrightarrow> m' = (if e = None then aborted {i} m else m)"
  by (auto simp: AbortFleetImport_def aborted_def split: if_splits)

lemma QuarantineFleetMapping_quarantines:
  "QuarantineFleetMapping fails lh m = (e, m') \<Longrightarrow> m' = (if e = None then quarantined {norm_hash lh} m else m)"
  by (auto simp: QuarantineFleetMapping_def quarantined_def Let_def split: if_splits)

lemma abortStaging_effect:
  "abortStaging canc flt k js out m = (e, out', m') \<Longrightarrow>
     \<exists>A. A \<subseteq> set (map fj_ID js) \<and> m' = aborted A m \<and> (e = None \<longrightarrow> A = set (map fj_ID js) \<and>
       fr_StagingAborted out' = fr_StagingAborted out + int (length js) \<and>
       fr_MappingsQuarantined out' = fr_MappingsQuarantined out \<and> fr_HealthyMappings out' = fr_HealthyMappings out)"
proof (induction js arbitrary: k out m)
  case (Cons j js)
  obtain a m1 where ab: "AbortFleetImport (flt k) (fj_ID j) m = (a, m1)" by fastforce
  note m1 = AbortFleetImport_aborts [OF ab]
  show ?case
  proof (cases "canc k \<or> a \<noteq> None")
    case True
    then have "e \<noteq> None \<and> m' = m" using Cons.prems ab m1 by (auto split: if_splits)
    then show ?thesis by (intro exI [of _ "{}"]) simp
  next
    case False
    let ?out = "out\<lparr> fr_StagingAborted := fr_StagingAborted out + 1, fr_Residuals := noted ''staging_aborted'' (fr_Residuals out) \<rparr>"
    have "abortStaging canc flt (Suc k) js ?out m1 = (e, out', m')" using Cons.prems ab False by simp
    from Cons.IH [OF this] obtain A where A: "A \<subseteq> set (map fj_ID js)" "m' = aborted A m1"
      "e = None \<longrightarrow> A = set (map fj_ID js) \<and> fr_StagingAborted out' = fr_StagingAborted ?out + int (length js) \<and>
       fr_MappingsQuarantined out' = fr_MappingsQuarantined ?out \<and> fr_HealthyMappings out' = fr_HealthyMappings ?out"
      by blast
    have "m' = aborted (insert (fj_ID j) A) m" using A(2) m1 False by (simp add: aborted_aborted)
    then show ?thesis using A(1,3) by (intro exI [of _ "insert (fj_ID j) A"]) auto
  qed
qed simp

lemma intact_tables:
  "mt_chunks m' = mt_chunks m \<Longrightarrow> mt_generations m' = mt_generations m \<Longrightarrow> intact files g n m' = intact files g n m"
  by (simp add: intact_def chunksOf_def)

lemma expectedFrames_tables: "mt_journal m' = mt_journal m \<Longrightarrow> expectedFrames fails r m' = expectedFrames fails r m"
  by (simp add: expectedFrames_def)

text \<open>Exactly the objects with a bad verdict are quarantined; a verdict is about the number of frames on record,
  or about any number when that could not be read.\<close>

definition verdict :: "FrameFiles \<Rightarrow> Meta \<Rightarrow> FleetObjectMapping \<Rightarrow> bool \<Rightarrow> bool" where
  "verdict files m r fails = intact files (fm_GenerationID r) (expectedFrames fails r m) m"

lemma quarantineUnhealthy_effect:
  "quarantineUnhealthy canc flt files k rs out m = (e, out', m') \<Longrightarrow>
     \<exists>bad. set bad \<subseteq> set rs \<and> m' = quarantined (norm_hash ` fm_LocatorHash ` set bad) m \<and>
       (\<forall>r \<in> set bad. \<exists>k. \<not> verdict files m r (flt k 0)) \<and>
       (e = None \<longrightarrow> (\<forall>r \<in> set rs - set bad. \<exists>k. verdict files m r (flt k 0)) \<and>
         fr_MappingsQuarantined out' = fr_MappingsQuarantined out + int (length bad) \<and>
         fr_StagingAborted out' = fr_StagingAborted out \<and>
         fr_HealthyMappings out' + int (length bad) = fr_HealthyMappings out + int (length rs))"
proof (induction rs arbitrary: k out m)
  case (Cons r rs)
  let ?chk = "CheckGenerationHealth (\<lambda>j. flt k (2 + j)) files (fm_GenerationID r) (expectedFrames (flt k 0) r m) m"
  have same: "verdict files (quarantined A m) q f = verdict files m q f" for A q f
    by (simp add: verdict_def intact_tables [of "quarantined A m" m] expectedFrames_tables [of "quarantined A m" m])
  show ?case
  proof (cases "canc k \<or> (\<exists>x. ?chk = Inl x)")
    case True
    then have "e \<noteq> None \<and> m' = m" using Cons.prems by (auto split: if_splits)
    then show ?thesis by (intro exI [of _ "[]"]) auto
  next
    case False
    then obtain h where h: "?chk = Inr h" by (cases ?chk) auto
    note ok = CheckGenerationHealth_exact [OF h, folded verdict_def]
    show ?thesis
    proof (cases "gh_Healthy h")
      case True
      let ?out = "out\<lparr> fr_HealthyMappings := fr_HealthyMappings out + 1 \<rparr>"
      have "quarantineUnhealthy canc flt files (Suc k) rs ?out m = (e, out', m')" using Cons.prems False h True by simp
      from Cons.IH [OF this] obtain bad where bad: "set bad \<subseteq> set rs" "m' = quarantined (norm_hash ` fm_LocatorHash ` set bad) m"
        "\<forall>r \<in> set bad. \<exists>k. \<not> verdict files m r (flt k 0)"
        "e = None \<longrightarrow> (\<forall>r \<in> set rs - set bad. \<exists>k. verdict files m r (flt k 0)) \<and>
         fr_MappingsQuarantined out' = fr_MappingsQuarantined ?out + int (length bad) \<and>
         fr_StagingAborted out' = fr_StagingAborted ?out \<and>
         fr_HealthyMappings out' + int (length bad) = fr_HealthyMappings ?out + int (length rs)" by blast
      show ?thesis by (rule exI [of _ bad]) (use bad ok True in auto)
    next
      case sick: False
      obtain q m1 where Q: "QuarantineFleetMapping (flt k 1) (fm_LocatorHash r) m = (q, m1)" by fastforce
      note m1 = QuarantineFleetMapping_quarantines [OF Q]
      show ?thesis
      proof (cases q)
        case (Some x)
        then have "e \<noteq> None \<and> m' = m" using Cons.prems False h sick Q m1 by auto
        then show ?thesis by (intro exI [of _ "[]"]) auto
      next
        case None
        let ?out = "out\<lparr> fr_MappingsQuarantined := fr_MappingsQuarantined out + 1,
            fr_Residuals := noted (if gh_Residual h = [] then ''quarantined'' else gh_Residual h) (fr_Residuals out) \<rparr>"
        have "quarantineUnhealthy canc flt files (Suc k) rs ?out m1 = (e, out', m')" using Cons.prems False h sick Q None by (simp add: Let_def)
        from Cons.IH [OF this] obtain bad where bad: "set bad \<subseteq> set rs" "m' = quarantined (norm_hash ` fm_LocatorHash ` set bad) m1"
          "\<forall>r \<in> set bad. \<exists>k. \<not> verdict files m1 r (flt k 0)"
          "e = None \<longrightarrow> (\<forall>r \<in> set rs - set bad. \<exists>k. verdict files m1 r (flt k 0)) \<and>
           fr_MappingsQuarantined out' = fr_MappingsQuarantined ?out + int (length bad) \<and>
           fr_StagingAborted out' = fr_StagingAborted ?out \<and>
           fr_HealthyMappings out' + int (length bad) = fr_HealthyMappings ?out + int (length rs)" by blast
        have v: "verdict files m1 q f = verdict files m q f" for q f using m1 None same by simp
        show ?thesis
          by (rule exI [of _ "r # bad"]) (use bad [unfolded v] ok sick m1 None in \<open>auto simp: quarantined_quarantined\<close>)
      qed
    qed
  qed
qed simp

section \<open>Recovery\<close>

lemma intact_any: "intact files g n m \<Longrightarrow> intact files g 0 m"
  by (simp add: intact_def)

lemma verdict_intact: "verdict files m r fails \<Longrightarrow> intact files (fm_GenerationID r) 0 m"
  unfolding verdict_def by (rule intact_any)

abbreviation published_rows :: "Meta \<Rightarrow> FleetObjectMapping set" where
  "published_rows m \<equiv> {r \<in> set (mt_mappings m). fm_Status r = FleetMappingCommitted}"

lemma quarantined_rows: "published_rows (quarantined A m) = {r \<in> published_rows m. fm_LocatorHash r \<notin> A}"
  by (auto simp: quarantined_def)

lemma RecoverFleetImports_effect:
  assumes "RecoverFleetImports canc flt files m = (e, out, m')"
  obtains A B where "m' = quarantined B (aborted A m)"
    "e = None \<longrightarrow> A = fj_ID ` {j \<in> set (mt_journal m). fj_Status j = FleetImportStaging} \<and>
      (\<exists>bad. set bad \<subseteq> published_rows m \<and> B = norm_hash ` fm_LocatorHash ` set bad \<and>
        (\<forall>r \<in> set bad. \<exists>k. \<not> verdict files (aborted A m) r (flt 3 k 0)) \<and>
        (\<forall>r \<in> published_rows m - set bad. \<exists>k. verdict files (aborted A m) r (flt 3 k 0)) \<and>
        fr_MappingsQuarantined out = int (length bad) \<and>
        fr_StagingAborted out = int (length (filter (\<lambda>j. fj_Status j = FleetImportStaging) (mt_journal m))) \<and>
        fr_HealthyMappings out + int (length bad) = int (length (filter (\<lambda>r. fm_Status r = FleetMappingCommitted) (mt_mappings m))))"
proof -
  let ?out = "\<lparr> fr_StagingAborted = 0, fr_MappingsQuarantined = 0, fr_HealthyMappings = 0, fr_Residuals = [] \<rparr>"
  let ?staging = "filter (\<lambda>j. fj_Status j = FleetImportStaging) (mt_journal m)"
  show thesis
  proof (cases "flt 0 0 0")
    case True
    then have "e \<noteq> None \<and> m' = m" using assms by (auto simp: RecoverFleetImports_def ListStagingFleetImports_def)
    show thesis by (rule that [of "{}" "{}"]) (use \<open>e \<noteq> None \<and> m' = m\<close> in auto)
  next
    case False
    obtain a out1 m1 where S: "abortStaging (canc 0) (\<lambda>k. flt 1 k 0) 0 ?staging ?out m = (a, out1, m1)" by (metis prod_cases3)
    from abortStaging_effect [OF S] obtain A where A: "m1 = aborted A m"
      "a = None \<longrightarrow> A = set (map fj_ID ?staging) \<and> fr_StagingAborted out1 = int (length ?staging) \<and> fr_MappingsQuarantined out1 = 0 \<and>
       fr_HealthyMappings out1 = 0" by auto
    let ?rows = "filter (\<lambda>r. fm_Status r = FleetMappingCommitted) (mt_mappings m1)"
    show thesis
    proof (cases "a = None \<and> \<not> flt 2 0 0")
      case False
      then have "e \<noteq> None \<and> m' = m1"
        using assms S \<open>\<not> flt 0 0 0\<close>
        by (cases a) (auto simp: RecoverFleetImports_def ListStagingFleetImports_def listFleetMappingsByStatus_def)
      then show thesis by (intro that [of "{}" A]) (use A in auto)
    next
      case True
      obtain b out2 m2 where Q: "quarantineUnhealthy (canc 1) (flt 3) files 0 ?rows out1 m1 = (b, out2, m2)" by (metis prod_cases3)
      from quarantineUnhealthy_effect [OF Q] obtain bad where bad: "set bad \<subseteq> set ?rows" "m2 = quarantined (norm_hash ` fm_LocatorHash ` set bad) m1"
        "\<forall>r \<in> set bad. \<exists>k. \<not> verdict files m1 r (flt 3 k 0)"
        "b = None \<longrightarrow> (\<forall>r \<in> set ?rows - set bad. \<exists>k. verdict files m1 r (flt 3 k 0)) \<and>
         fr_MappingsQuarantined out2 = fr_MappingsQuarantined out1 + int (length bad) \<and>
         fr_StagingAborted out2 = fr_StagingAborted out1 \<and>
         fr_HealthyMappings out2 + int (length bad) = fr_HealthyMappings out1 + int (length ?rows)" by blast
      have e: "e = b \<and> m' = m2 \<and> (b = None \<longrightarrow> out = out2\<lparr> fr_Residuals := sort (fr_Residuals out2) \<rparr>)"
        using assms S Q True \<open>\<not> flt 0 0 0\<close>
        by (cases b) (auto simp: RecoverFleetImports_def ListStagingFleetImports_def listFleetMappingsByStatus_def)
      show thesis
      proof (rule that [of "norm_hash ` fm_LocatorHash ` set bad" A])
        show "m' = quarantined (norm_hash ` fm_LocatorHash ` set bad) (aborted A m)" using e bad(2) A(1) by simp
        show "e = None \<longrightarrow> A = fj_ID ` {j \<in> set (mt_journal m). fj_Status j = FleetImportStaging} \<and>
          (\<exists>bada. set bada \<subseteq> published_rows m \<and> norm_hash ` fm_LocatorHash ` set bad = norm_hash ` fm_LocatorHash ` set bada \<and>
            (\<forall>r \<in> set bada. \<exists>k. \<not> verdict files (aborted A m) r (flt 3 k 0)) \<and>
            (\<forall>r \<in> published_rows m - set bada. \<exists>k. verdict files (aborted A m) r (flt 3 k 0)) \<and>
            fr_MappingsQuarantined out = int (length bada) \<and>
            fr_StagingAborted out = int (length ?staging) \<and>
            fr_HealthyMappings out + int (length bada) = int (length (filter (\<lambda>r. fm_Status r = FleetMappingCommitted) (mt_mappings m))))"
          using e bad A True by (intro impI conjI exI [of _ bad]) auto
      qed
    qed
  qed
qed

text \<open>What a recovery that returns has done, in terms of the rows.\<close>

lemma expectedFrames_aborted [simp]: "expectedFrames fails r (aborted A m) = expectedFrames fails r m"
proof -
  let ?u = "\<lambda>j. if fj_ID j \<in> A \<and> fj_Status j = FleetImportStaging then j\<lparr> fj_Status := FleetImportAborted \<rparr> else j"
  let ?P = "\<lambda>j. fj_LocatorHash j = fm_LocatorHash r \<and> fj_ManifestDigest j = fm_ManifestDigest r \<and> fj_Status j = FleetImportCommitted"
  have f: "List.find ?P (map ?u js) = List.find ?P js" for js by (induction js) auto
  have j: "rev (mt_journal (aborted A m)) = map ?u (rev (mt_journal m))" by (simp add: aborted_def rev_map)
  show ?thesis unfolding expectedFrames_def j f ..
qed

lemma verdict_aborted [simp]: "verdict files (aborted A m) r fails = verdict files m r fails"
  by (simp add: verdict_def intact_tables [of "aborted A m" m])

lemma recovered:
  assumes "RecoverFleetImports canc flt files m = (None, out, m')"
    and "\<forall>r \<in> published_rows m. norm_hash (fm_LocatorHash r) = fm_LocatorHash r" and "distinct (map fm_LocatorHash (mt_mappings m))"
  shows "published_rows m' \<subseteq> published_rows m" and "\<forall>j \<in> set (mt_journal m'). fj_Status j \<noteq> FleetImportStaging"
    and "r \<in> published_rows m - published_rows m' \<Longrightarrow> \<exists>k. \<not> verdict files m r (flt 3 k 0)"
    and "r \<in> published_rows m' \<Longrightarrow> \<exists>k. verdict files m r (flt 3 k 0)"
    and "intact files g n m' = intact files g n m" and "expectedFrames fails r m' = expectedFrames fails r m"
    and "map fm_LocatorHash (mt_mappings m') = map fm_LocatorHash (mt_mappings m)"
    and "(\<And>r k. r \<in> published_rows m \<Longrightarrow> verdict files m r (flt 3 k 0)) \<Longrightarrow>
      fr_MappingsQuarantined out = 0 \<and> m' = aborted (fj_ID ` {j \<in> set (mt_journal m). fj_Status j = FleetImportStaging}) m"
    and "fr_StagingAborted out = int (length (filter (\<lambda>j. fj_Status j = FleetImportStaging) (mt_journal m)))"
proof -
  from assms(1) obtain A B where m': "m' = quarantined B (aborted A m)"
    and AB: "None = (None :: apperr option) \<longrightarrow> A = fj_ID ` {j \<in> set (mt_journal m). fj_Status j = FleetImportStaging} \<and>
      (\<exists>bad. set bad \<subseteq> published_rows m \<and> B = norm_hash ` fm_LocatorHash ` set bad \<and>
        (\<forall>r \<in> set bad. \<exists>k. \<not> verdict files (aborted A m) r (flt 3 k 0)) \<and>
        (\<forall>r \<in> published_rows m - set bad. \<exists>k. verdict files (aborted A m) r (flt 3 k 0)) \<and>
        fr_MappingsQuarantined out = int (length bad) \<and>
        fr_StagingAborted out = int (length (filter (\<lambda>j. fj_Status j = FleetImportStaging) (mt_journal m))) \<and>
        fr_HealthyMappings out + int (length bad) = int (length (filter (\<lambda>r. fm_Status r = FleetMappingCommitted) (mt_mappings m))))"
    by (rule RecoverFleetImports_effect)
  from AB [THEN mp, OF refl] obtain bad where A: "A = fj_ID ` {j \<in> set (mt_journal m). fj_Status j = FleetImportStaging}"
    and bad: "set bad \<subseteq> published_rows m" "B = norm_hash ` fm_LocatorHash ` set bad"
        "\<forall>r \<in> set bad. \<exists>k. \<not> verdict files m r (flt 3 k 0)" "\<forall>r \<in> published_rows m - set bad. \<exists>k. verdict files m r (flt 3 k 0)"
        "fr_MappingsQuarantined out = int (length bad)"
        "fr_StagingAborted out = int (length (filter (\<lambda>j. fj_Status j = FleetImportStaging) (mt_journal m)))" by auto
  have B: "B = fm_LocatorHash ` set bad" using bad(1,2) assms(2) by (force simp: image_iff)
  have inj: "inj_on fm_LocatorHash (set (mt_mappings m))" using assms(3) by (simp add: distinct_map)
  have rows: "published_rows m' = published_rows m - set bad"
    unfolding m' quarantined_rows B using bad(1) inj_onD [OF inj] by fastforce
  show "published_rows m' \<subseteq> published_rows m" using rows by blast
  show "\<forall>j \<in> set (mt_journal m'). fj_Status j \<noteq> FleetImportStaging" unfolding m' A by (auto simp: aborted_def)
  show "\<exists>k. \<not> verdict files m r (flt 3 k 0)" if "r \<in> published_rows m - published_rows m'"
    using that rows bad(3) by blast
  show "\<exists>k. verdict files m r (flt 3 k 0)" if "r \<in> published_rows m'"
    using that rows bad(4) by blast
  show "intact files g n m' = intact files g n m" by (rule intact_tables) (simp_all add: m')
  show "expectedFrames fails r m' = expectedFrames fails r m"
    using expectedFrames_tables [of m' "aborted A m"] by (simp add: m')
  show "map fm_LocatorHash (mt_mappings m') = map fm_LocatorHash (mt_mappings m)" unfolding m' by (simp add: quarantined_def comp_def)
  show "fr_StagingAborted out = int (length (filter (\<lambda>j. fj_Status j = FleetImportStaging) (mt_journal m)))" by (rule bad(6))
  assume good: "\<And>r k. r \<in> published_rows m \<Longrightarrow> verdict files m r (flt 3 k 0)"
  have e: "bad = []"
  proof (rule ccontr)
    assume "bad \<noteq> []"
    then obtain r where r: "r \<in> set bad" by (cases bad) auto
    then obtain k where "\<not> verdict files m r (flt 3 k 0)" using bad(3) by blast
    moreover have "r \<in> published_rows m" using r bad(1) by blast
    ultimately show False using good [of r k] by simp
  qed
  show "fr_MappingsQuarantined out = 0 \<and> m' = aborted (fj_ID ` {j \<in> set (mt_journal m). fj_Status j = FleetImportStaging}) m"
    using bad(5) unfolding m' A B e by simp
qed

end
