(* ===== verification/FleetHistory.thy ===== *)
theory FleetHistory
  imports FleetRecoverCorrect
begin

text \<open>
  Histories of a store: imports and replications in any order and with any failure and cancellation, operator
  quarantines, recoveries and restarts, one after the other. The properties of imports and of recovery.
\<close>

section \<open>Histories\<close>

text \<open>\<open>Ms\<close> are the manifests that are imported. A restart gives the sink a new process: its memory is empty, what
  will fail and the nonces are new.\<close>

inductive store_run :: "WireManifest set \<Rightarrow> PeerImportSink \<Rightarrow> PeerImportSink \<Rightarrow> bool" for Ms s where
  start: "store_run Ms s s"
| imported: "store_run Ms s t \<Longrightarrow> m \<in> Ms \<Longrightarrow> RunImport ts now (Some PeerSink) canc m frames t = (ires, e, u) \<Longrightarrow> store_run Ms s u"
| replicated: "store_run Ms s t \<Longrightarrow> m \<in> Ms \<Longrightarrow> ReplicateSealed ts now (Some PeerSink) canc m frames t = (rres, e, u) \<Longrightarrow> store_run Ms s u"
| operator: "store_run Ms s t \<Longrightarrow> QuarantineFleetMapping fails lh (ps_Meta t) = (e, mt) \<Longrightarrow> store_run Ms s (t\<lparr> ps_Meta := mt \<rparr>)"
| recovery: "store_run Ms s t \<Longrightarrow> RecoverFleetImports rcanc rflt (ps_Files t) (ps_Meta t) = (e, out, mt) \<Longrightarrow>
    store_run Ms s (t\<lparr> ps_Meta := mt \<rparr>)"
| restarted: "store_run Ms s t \<Longrightarrow>
    store_run Ms s (t\<lparr> ps_framesDone := Map.empty, ps_fault := flt, ps_nonce := nonce, ps_calls := 0 \<rparr>)"

text \<open>Retiring mappings and unfinished imports.\<close>

abbreviation retire :: "string set \<Rightarrow> int set \<Rightarrow> PeerImportSink \<Rightarrow> PeerImportSink" where
  "retire B A t \<equiv> t\<lparr> ps_Meta := quarantined B (aborted A (ps_Meta t)) \<rparr>"

lemma retire_rows: "published_row l (quarantined B m) = (if l \<in> B then None else published_row l m)"
proof -
  let ?u = "\<lambda>r. if fm_LocatorHash r \<in> B \<and> fm_Status r = FleetMappingCommitted then r\<lparr> fm_Status := FleetMappingQuarantined \<rparr> else r"
  let ?P = "\<lambda>r. fm_LocatorHash r = l \<and> fm_Status r = FleetMappingCommitted"
  have f: "List.find ?P (map ?u rs) = (if l \<in> B then None else List.find ?P rs)" for rs by (induction rs) auto
  have q: "mt_mappings (quarantined B m) = map ?u (mt_mappings m)" by (simp add: quarantined_def)
  show ?thesis unfolding published_row_def q by (rule f)
qed

lemma retire_keys: "import_keys (quarantined B (aborted A m)) = import_keys m"
  by (auto simp: import_keys_def quarantined_def aborted_def)

lemma retire_visible: "ps_visible (retire B A t) l = (if l \<in> B then None else ps_visible t l)"
  by (simp add: ps_visible_def retire_rows) (simp add: published_row_def)

lemma retire_stored: "ps_stored (retire B A t) = ps_stored t" "ps_present (retire B A t) = ps_present t"
  by (intro ext, simp add: ps_stored_def frame_file_def ps_present_def chunksOf_def)+

lemma aborted_quiet: "quiet m (aborted A m)"
  unfolding aborted_def by (rule quiet_journal) simp_all

lemma quarantined_meta_inv: "meta_inv m \<Longrightarrow> meta_inv (quarantined B m)"
proof -
  assume m: "meta_inv m"
  have "map fm_LocatorHash (mt_mappings (quarantined B m)) = map fm_LocatorHash (mt_mappings m)" by (simp add: quarantined_def comp_def)
  moreover have "\<forall>r \<in> set (mt_mappings (quarantined B m)). canonical (fm_ManifestDigest r)"
    using m by (auto simp: quarantined_def meta_inv_def)
  ultimately show ?thesis using m by (simp add: meta_inv_def) (simp add: quarantined_def)
qed

lemma retire_published: "ps_published t \<Longrightarrow> ps_published (retire B A t)"
proof -
  assume t: "ps_published t"
  let ?m = "aborted A (ps_Meta t)"
  have calm: "calm (ps_Meta t) ?m" unfolding aborted_def by (rule calm_journal) simp_all
  have "meta_inv ?m" "pub_inv ?m"
    using t quiet_inv [OF _ aborted_quiet] pub_inv_quiet [OF _ calm aborted_quiet] by (simp_all add: ps_published_def ps_inv_def)
  moreover have "pub_inv (quarantined B ?m)"
    by (rule pub_inv_kept [OF \<open>pub_inv ?m\<close>]) (auto simp: calm_def quarantined_def chunksOf_def)
  ultimately show ?thesis using quarantined_meta_inv by (simp add: ps_published_def ps_inv_def)
qed

lemma retire_honest: "ps_honest M t \<Longrightarrow> ps_honest M (retire B A t)"
  unfolding ps_honest_def retire_stored retire_visible by (simp add: retire_keys)

text \<open>Each step is one of three: an import, a replication, or a retirement or restart.\<close>

lemma store_run_retires:
  assumes "RecoverFleetImports rcanc rflt (ps_Files t) (ps_Meta t) = (e, out, mt)"
  shows "\<exists>B A. t\<lparr> ps_Meta := mt \<rparr> = retire B A t"
proof -
  from assms obtain A B where "mt = quarantined B (aborted A (ps_Meta t))" by (rule RecoverFleetImports_effect)
  then show ?thesis by blast
qed

lemma operator_retires:
  assumes "QuarantineFleetMapping fails lh (ps_Meta t) = (e, mt)"
  shows "\<exists>B A. t\<lparr> ps_Meta := mt \<rparr> = retire B A t"
proof -
  have "mt = quarantined (if e = None then {norm_hash lh} else {}) (aborted {} (ps_Meta t))"
    using QuarantineFleetMapping_quarantines [OF assms] by simp
  then show ?thesis by blast
qed

lemma restart_same:
  fixes t :: PeerImportSink
  assumes "u = t\<lparr> ps_framesDone := Map.empty, ps_fault := flt, ps_nonce := nonce, ps_calls := 0 \<rparr>"
  shows "view u = view t" and "ps_Meta u = ps_Meta t"
  using assms by (simp_all add: view_def)

definition known :: "WireManifest set \<Rightarrow> PeerImportSink \<Rightarrow> bool" where
  "known Ms t \<longleftrightarrow> (\<forall>lh d g. ps_visible t lh = Some (d, g) \<longrightarrow> (\<exists>m \<in> Ms. DigestWireManifest m = Inr d))"

text \<open>What a history keeps.\<close>

lemma retire_known: "known Ms t \<Longrightarrow> known Ms (retire B A t)"
  unfolding known_def retire_visible by simp

lemma import_known:
  assumes "known Ms t" and "ps_inv t" and "m \<in> Ms" and "RunImport ts now (Some PeerSink) canc m frames t = (res, e, u)"
  shows "known Ms u"
proof -
  have "peer.import_outcome t m res e u" using peer.RunImport_correct [OF assms(2,4)] by simp
  then show ?thesis using assms(1,3)
    by (auto simp: known_def peer.import_outcome_def Let_def split: ImportStatus.splits if_splits) blast+
qed

lemma replica_known:
  assumes "known Ms t" and "ps_inv t" and "ps_honest m t" and "m \<in> Ms"
    and "ReplicateSealed ts now (Some PeerSink) canc m frames t = (res, e, u)"
  shows "known Ms u"
proof -
  have "agrees m m" by (simp add: agrees_def)
  then have "resumable.replica_outcome t m res e u" using resumable.ReplicateSealed_correct [OF assms(2,3) _ assms(5)] by simp
  then show ?thesis using assms(1,4)
    by (auto simp: known_def resumable.replica_outcome_def Let_def split: ImportStatus.splits if_splits) blast+
qed

definition store_inv :: "WireManifest set \<Rightarrow> PeerImportSink \<Rightarrow> bool" where
  "store_inv Ms t \<longleftrightarrow> ps_published t \<and> known Ms t \<and> (\<forall>M. (\<forall>m \<in> Ms. agrees M m) \<longrightarrow> ps_honest M t)"

lemma store_inv_retire: "store_inv Ms t \<Longrightarrow> store_inv Ms (retire B A t)"
  using retire_published retire_known retire_honest unfolding store_inv_def by blast

lemma store_run_inv:
  assumes "store_run Ms s u" and "store_inv Ms s" and "\<And>m m'. m \<in> Ms \<Longrightarrow> m' \<in> Ms \<Longrightarrow> agrees m m'"
  shows "store_inv Ms u"
  using assms(1)
proof induction
  case start
  show ?case by (rule assms(2))
next
  case (imported t m ts now canc frames ires e u)
  then have t: "ps_published t" "ps_inv t" "known Ms t" by (simp_all add: store_inv_def ps_published_def)
  have "ps_published u" by (rule published.RunImport_P [OF t(1) imported(3)])
  moreover have "known Ms u" by (rule import_known [OF t(3,2) imported(2,3)])
  moreover have "ps_honest M u" if "\<forall>m \<in> Ms. agrees M m" for M
  proof (rule resumable.RunImport_honest [OF t(2) _ _ imported(3)])
    show "ps_honest M t" using imported.IH that by (simp add: store_inv_def)
    show "agrees M m" using that imported(2) by blast
  qed
  ultimately show ?case by (simp add: store_inv_def)
next
  case (replicated t m ts now canc frames rres e u)
  then have t: "ps_published t" "ps_inv t" "known Ms t" by (simp_all add: store_inv_def ps_published_def)
  have "ps_published u" by (rule published.ReplicateSealed_P [OF t(1) replicated(3)])
  moreover have "ps_honest m t" using replicated.IH assms(3) [OF replicated(2)] by (simp add: store_inv_def)
  then have "known Ms u" by (rule replica_known [OF t(3,2) _ replicated(2,3)])
  moreover have "ps_honest M u" if "\<forall>m \<in> Ms. agrees M m" for M
  proof -
    have "ps_honest M t" "agrees M m" using replicated.IH that replicated(2) by (simp_all add: store_inv_def)
    from resumable.ReplicateSealed_correct [OF t(2) this replicated(3)] show ?thesis by simp
  qed
  ultimately show ?case by (simp add: store_inv_def)
next
  case (operator t fails lh e mt)
  from operator_retires [OF operator(2)] obtain B A where "t\<lparr> ps_Meta := mt \<rparr> = retire B A t" by blast
  then show ?case using store_inv_retire [OF operator.IH] by simp
next
  case (recovery t rcanc rflt e out mt)
  from store_run_retires [OF recovery(2)] obtain B A where "t\<lparr> ps_Meta := mt \<rparr> = retire B A t" by blast
  then show ?case using store_inv_retire [OF recovery.IH] by simp
next
  case (restarted t nonce flt)
  let ?u = "t\<lparr> ps_framesDone := Map.empty, ps_fault := flt, ps_nonce := nonce, ps_calls := 0 \<rparr>"
  note same = restart_same [OF refl [of ?u]]
  have "ps_published ?u = ps_published t" by (simp add: ps_published_def ps_inv_def)
  moreover have "known Ms ?u = known Ms t" by (simp add: known_def view_visible [OF same(1)])
  moreover have "ps_honest M t \<Longrightarrow> ps_honest M ?u" for M by (rule ps_honest_same [OF _ same(1)]) simp_all
  ultimately show ?case using restarted.IH by (simp add: store_inv_def)
qed

lemma store_inv_empty: "ps_Meta s = emptyMeta \<Longrightarrow> store_inv Ms s"
  by (simp add: store_inv_def ps_published_def ps_inv_def meta_inv_def pub_inv_def known_def ps_honest_def ps_visible_def
      published_row_def import_keys_def emptyMeta_def)

section \<open>Imports\<close>

text \<open>The abstract views of a store are \<open>ps_visible\<close>, the published version of each locator, and \<open>ps_stored\<close>, the
  frames that are on disk, decompress and carry the digests of the manifest.\<close>

definition import_spec :: "PeerImportSink \<Rightarrow> WireManifest \<Rightarrow> ImportResult \<Rightarrow> apperr option \<Rightarrow> PeerImportSink \<Rightarrow> bool" where
  "import_spec s m res e s' =
     (let lh = to_lower (wm_LocatorHash m); g = ir_GenerationID res in
      case ir_Status res of
        ImportStatusCommitted \<Rightarrow> e = None \<and> (\<forall>f \<in> set (wm_Frames m). ps_stored s' g f) \<and>
          (\<exists>d. DigestWireManifest m = Inr d \<and> ps_visible s lh = None \<and> ps_visible s' = (ps_visible s)(lh \<mapsto> (d, g)))
      | ImportStatusIdempotent \<Rightarrow> e = None \<and> ps_visible s' = ps_visible s \<and>
          (\<exists>d. DigestWireManifest m = Inr d \<and> ps_visible s lh = Some (d, g))
      | _ \<Rightarrow> e \<noteq> None \<and> ps_visible s' = ps_visible s)"

text \<open>C7: An import publishes an object only when every frame of the manifest is stored and verified, and only
  under a locator that had none; on every other path, whatever fails and however it is cancelled, nothing
  published changes, and no stored frame is lost.\<close>

theorem import_publishes_verified:
  assumes "ps_inv s" and "RunImport ts now (Some PeerSink) canc m frames s = (res, e, s')"
  shows "ps_inv s' \<and> import_spec s m res e s' \<and> (\<forall>g f. ps_stored s g f \<longrightarrow> ps_stored s' g f)"
  using peer.RunImport_correct [OF assms] by (simp add: import_spec_def peer.import_outcome_def)

text \<open>C6: In every history of imports, replications, quarantines, recoveries and restarts of a store, with any
  failures and cancellations, every published object is complete: each frame of its manifest is stored and
  verified. The manifests may not collide, which SHA-256 rules out in practice.\<close>

theorem published_objects_complete:
  assumes "ps_Meta s = emptyMeta" and "store_run Ms s t" and "\<forall>m \<in> Ms. \<forall>m' \<in> Ms. agrees m m'"
    and "ps_visible t lh = Some (d, g)"
  shows "\<exists>m \<in> Ms. DigestWireManifest m = Inr d \<and> (\<forall>f \<in> set (wm_Frames m). ps_stored t g f)"
proof -
  have I: "store_inv Ms t" by (rule store_run_inv [OF assms(2) store_inv_empty [OF assms(1)]]) (use assms(3) in blast)
  then obtain m where m: "m \<in> Ms" "DigestWireManifest m = Inr d" using assms(4) unfolding store_inv_def known_def by blast
  then have "ps_honest m t" using I assms(3) by (simp add: store_inv_def)
  then show ?thesis using m assms(4) ps_honestD(3) by blast
qed

section \<open>Recovery\<close>

lemma published_row_iff:
  assumes "ps_inv t"
  shows "r \<in> published_rows (ps_Meta t) \<longleftrightarrow> published_row (fm_LocatorHash r) (ps_Meta t) = Some r"
proof
  assume "r \<in> published_rows (ps_Meta t)"
  moreover have "distinct (map fm_LocatorHash (mt_mappings (ps_Meta t)))" using assms by (simp add: ps_inv_def meta_inv_def)
  ultimately show "published_row (fm_LocatorHash r) (ps_Meta t) = Some r"
    unfolding published_row_def using find_unique [of fm_LocatorHash "mt_mappings (ps_Meta t)" r "fm_LocatorHash r"] by simp
qed (use published_status in blast)

lemma row_visible:
  "ps_inv t \<Longrightarrow> r \<in> published_rows (ps_Meta t) \<Longrightarrow> ps_visible t (fm_LocatorHash r) = Some (fm_ManifestDigest r, fm_GenerationID r)"
  unfolding ps_visible_def using published_row_iff by simp

text \<open>The chunks of a published generation are the frames of its manifest, one for one.\<close>

lemma published_chunks:
  assumes I: "ps_published t" "ps_honest M t" and r: "r \<in> published_rows (ps_Meta t)"
    and d: "DigestWireManifest M = Inr (fm_ManifestDigest r)"
  defines "cs \<equiv> chunksOf (fm_GenerationID r) (ps_Meta t)"
  shows "length cs = length (wm_Frames M)" and "sort (map ch_Seq cs) = map int [0..<length cs]" and "cs \<noteq> []"
    and "c \<in> set cs \<Longrightarrow> \<exists>f \<in> set (wm_Frames M). frame_file t (fm_GenerationID r) f c"
    and "expectedFrames fails r (ps_Meta t) \<in> {0, int (length cs)}"
    and "\<exists>h. List.find (\<lambda>h. lg_ID h = fm_GenerationID r) (mt_generations (ps_Meta t)) = Some h \<and> lg_Sealed h" and "0 < fm_GenerationID r"
proof -
  let ?g = "fm_GenerationID r" and ?m = "ps_Meta t"
  have inv: "ps_inv t" and m: "meta_inv ?m" and b: "backed r ?m"
    using I(1) r by (auto simp: ps_published_def ps_inv_def pub_inv_def)
  have v: "ps_visible t (fm_LocatorHash r) = Some (fm_ManifestDigest r, ?g)" by (rule row_visible [OF inv r])
  have key: "fj_FramesTotal j = int (length (wm_Frames M))"
    if "j \<in> set (mt_journal ?m)" "to_lower (fj_ManifestDigest j) = fm_ManifestDigest r" for j
    by (rule ps_honestD(1) [OF I(2) d, of "fj_ID j" "fj_GenerationID j" "fj_ManifestDigest j"])
      (use that in \<open>auto simp: import_keys_def\<close>)
  obtain j where j: "j \<in> set (mt_journal ?m)" "fj_GenerationID j = ?g" "to_lower (fj_ManifestDigest j) = fm_ManifestDigest r"
    "fj_FramesTotal j = int (length cs)"
    using b by (auto simp: backed_def cs_def)
  show len: "length cs = length (wm_Frames M)" using key [OF j(1,3)] j(4) by simp
  show seqs: "sort (map ch_Seq cs) = map int [0..<length cs]" "cs \<noteq> []" using b by (simp_all add: backed_def cs_def)
  show "0 < ?g" using m j(1,2) by (auto simp: meta_inv_def)
  show "\<exists>h. List.find (\<lambda>h. lg_ID h = ?g) (mt_generations ?m) = Some h \<and> lg_Sealed h"
  proof -
    obtain h where h: "h \<in> set (mt_generations ?m)" "lg_ID h = ?g" "lg_Sealed h" using b by (auto simp: backed_def)
    have "List.find (\<lambda>x. lg_ID x = ?g \<and> True) (mt_generations ?m) = Some h"
      using find_unique [of lg_ID "mt_generations ?m" h ?g "\<lambda>_. True"] m h by (simp add: meta_inv_def)
    then show ?thesis using h by simp
  qed
  have "fm_ManifestDigest r = to_lower (fm_ManifestDigest r)" using m r by (auto simp: meta_inv_def canonical_def)
  then have "fj_FramesTotal j' = int (length cs)" if "j' \<in> set (mt_journal ?m)" "fj_ManifestDigest j' = fm_ManifestDigest r" for j'
    using key [OF that(1)] that(2) len by simp
  then show "expectedFrames fails r ?m \<in> {0, int (length cs)}"
    using find_SomeD [of _ "rev (mt_journal ?m)"] by (fastforce simp: expectedFrames_def split: option.splits)
  assume c: "c \<in> set cs"
  then have "ch_Seq c \<in> set (sort (map ch_Seq cs))" by simp
  then have "ch_Seq c \<in> int ` {0..<length (wm_Frames M)}" unfolding seqs(1) len by simp
  also have "int ` {0..<length (wm_Frames M)} = wf_Seq ` set (wm_Frames M)"
    using arg_cong [OF frames_of_digest(1) [OF d], of set] by simp
  finally obtain f where f: "f \<in> set (wm_Frames M)" "wf_Seq f = ch_Seq c" by (metis imageE)
  have "ps_stored t ?g f" by (rule ps_honestD(3) [OF I(2) d v f(1)])
  then obtain c' where c': "c' \<in> set (mt_chunks ?m)" "frame_file t ?g f c'" by (auto simp: ps_stored_def)
  have inj: "inj_on (\<lambda>c. (ch_GenerationID c, ch_Seq c)) (set (mt_chunks ?m))" using m by (simp add: meta_inv_def distinct_map)
  have "c \<in> set (mt_chunks ?m)" "ch_GenerationID c = ?g" using c by (simp_all add: cs_def chunksOf_def)
  moreover have "ch_GenerationID c' = ?g" "ch_Seq c' = wf_Seq f" using c'(2) by (simp_all add: frame_file_def)
  ultimately have "c' = c" using inj_onD [OF inj _ c'(1)] f(2) by simp
  then show "\<exists>f \<in> set (wm_Frames M). frame_file t ?g f c" using c'(2) f(1) by blast
qed

lemma sealed_nonempty: "sealCompressed co nonce g q fv z = Inr (b, alg, ver) \<Longrightarrow> z \<noteq> [] \<Longrightarrow> b \<noteq> []"
  using length_Seal(1) by (fastforce simp: sealCompressed_def CryptoMagic_def split: option.splits if_splits sum.splits)

lemma frame_file_intact:
  assumes "frame_file t g f c" and "ch_RelPath c = FrameRelPath (ch_GenerationID c) (ch_Seq c)"
  shows "frame_intact (ps_Files t) c"
  using assms FrameAbsPath_rel sealed_nonempty unfolding frame_file_def frame_intact_def by (metis hexSum_lower)

lemma published_verdict:
  assumes I: "ps_published t" "ps_honest M t" and r: "r \<in> published_rows (ps_Meta t)"
    and d: "DigestWireManifest M = Inr (fm_ManifestDigest r)"
  shows "verdict (ps_Files t) (ps_Meta t) r fails"
proof -
  note c = published_chunks [OF I r d]
  have rel: "ch_RelPath x = FrameRelPath (ch_GenerationID x) (ch_Seq x)" if "x \<in> set (chunksOf (fm_GenerationID r) (ps_Meta t))" for x
    using I(1) that by (auto simp: ps_published_def ps_inv_def meta_inv_def chunksOf_def)
  have "frame_intact (ps_Files t) x" if "x \<in> set (chunksOf (fm_GenerationID r) (ps_Meta t))" for x
    using c(4) [OF that] frame_file_intact [OF _ rel [OF that]] by blast
  moreover have "0 < expectedFrames fails r (ps_Meta t) \<longrightarrow>
      int (length (chunksOf (fm_GenerationID r) (ps_Meta t))) = expectedFrames fails r (ps_Meta t)" using c(5) [of fails] by auto
  ultimately show ?thesis using c(2,3,6,7) unfolding verdict_def intact_def by blast
qed

text \<open>C18: A recovery that returns after any such history quarantines nothing: every published object is found
  healthy and stays published under the same version and generation, and no import is left unfinished.\<close>

theorem recovery_keeps_good_objects:
  assumes "ps_Meta s = emptyMeta" and "store_run Ms s t" and "\<forall>m \<in> Ms. \<forall>m' \<in> Ms. agrees m m'"
    and "RecoverFleetImports canc flt (ps_Files t) (ps_Meta t) = (None, out, mt)"
  shows "fr_MappingsQuarantined out = 0 \<and> mt_mappings mt = mt_mappings (ps_Meta t) \<and>
    (\<forall>j \<in> set (mt_journal mt). fj_Status j \<noteq> FleetImportStaging)"
proof -
  have I: "store_inv Ms t" by (rule store_run_inv [OF assms(2) store_inv_empty [OF assms(1)]]) (use assms(3) in blast)
  then have P: "ps_published t" "ps_inv t" by (simp_all add: store_inv_def ps_published_def)
  have good: "verdict (ps_Files t) (ps_Meta t) r fails" if r: "r \<in> published_rows (ps_Meta t)" for r fails
  proof -
    obtain m where m: "m \<in> Ms" "DigestWireManifest m = Inr (fm_ManifestDigest r)"
      using I row_visible [OF P(2) r] unfolding store_inv_def known_def by blast
    then have "ps_honest m t" using I assms(3) by (simp add: store_inv_def)
    from published_verdict [OF P(1) this r m(2)] show ?thesis .
  qed
  have lh: "\<forall>r \<in> published_rows (ps_Meta t). norm_hash (fm_LocatorHash r) = fm_LocatorHash r"
  proof
    fix r assume "r \<in> published_rows (ps_Meta t)"
    then have "backed r (ps_Meta t)" using P(1) unfolding ps_published_def pub_inv_def by blast
    then have "canonical (fm_LocatorHash r)" unfolding backed_def by blast
    then show "norm_hash (fm_LocatorHash r) = fm_LocatorHash r" by (rule norm_canonical)
  qed
  have dist: "distinct (map fm_LocatorHash (mt_mappings (ps_Meta t)))" using P(2) by (simp add: ps_inv_def meta_inv_def)
  note rec = recovered [OF assms(4) lh dist]
  have q: "fr_MappingsQuarantined out = 0 \<and> mt = aborted (fj_ID ` {j \<in> set (mt_journal (ps_Meta t)). fj_Status j = FleetImportStaging}) (ps_Meta t)"
    by (rule rec(8)) (rule good)
  have "mt_mappings mt = mt_mappings (ps_Meta t)" by (simp only: conjunct2 [OF q] aborted_fields)
  then show ?thesis using rec(2) conjunct1 [OF q] by blast
qed

text \<open>C16: Whatever the state of the files, after a recovery that returns every published object is intact, none
  was added, the ones that were lost had a bad verdict, and no import is left unfinished.\<close>

theorem recovery_leaves_only_intact:
  assumes "RecoverFleetImports canc flt files m = (None, out, m')" and "distinct (map fm_LocatorHash (mt_mappings m))"
    and "\<forall>r \<in> published_rows m. norm_hash (fm_LocatorHash r) = fm_LocatorHash r"
  shows "(\<forall>r \<in> published_rows m'. r \<in> published_rows m \<and> intact files (fm_GenerationID r) 0 m') \<and>
    (\<forall>r \<in> published_rows m - published_rows m'. \<exists>fails. \<not> verdict files m r fails) \<and>
    (\<forall>j \<in> set (mt_journal m'). fj_Status j \<noteq> FleetImportStaging)"
proof -
  note rec = recovered [OF assms(1,3,2)]
  have "intact files (fm_GenerationID r) 0 m'" if r: "r \<in> published_rows m'" for r
  proof -
    obtain k where "verdict files m r (flt 3 k 0)" using rec(4) [OF r] by blast
    then show ?thesis unfolding rec(5) by (rule verdict_intact)
  qed
  then show ?thesis using rec(1-3) by blast
qed

text \<open>C19: Recovery is idempotent: a second recovery that returns aborts nothing, quarantines nothing and leaves
  the tables as they are, provided the first could read the numbers of frames.\<close>

theorem recovery_idempotent:
  assumes "RecoverFleetImports canc flt files m = (None, out, m')" and "RecoverFleetImports canc' flt' files m' = (None, out', m'')"
    and "distinct (map fm_LocatorHash (mt_mappings m))" and "\<forall>r \<in> published_rows m. norm_hash (fm_LocatorHash r) = fm_LocatorHash r"
    and "\<And>k. \<not> flt 3 k 0"
  shows "m'' = m' \<and> fr_StagingAborted out' = 0 \<and> fr_MappingsQuarantined out' = 0"
proof -
  note rec = recovered [OF assms(1,4,3)]
  have dist: "distinct (map fm_LocatorHash (mt_mappings m'))" using assms(3) by (simp only: rec(7))
  have lh: "\<forall>r \<in> published_rows m'. norm_hash (fm_LocatorHash r) = fm_LocatorHash r" using assms(4) rec(1) by blast
  have good: "verdict files m' r fails" if r: "r \<in> published_rows m'" for r fails
  proof -
    obtain k where "verdict files m r (flt 3 k 0)" using rec(4) [OF r] by blast
    then have "intact files (fm_GenerationID r) (expectedFrames False r m) m" using assms(5) by (simp add: verdict_def)
    then show ?thesis using intact_any unfolding verdict_def rec(5,6) by (cases fails) (auto simp: expectedFrames_def)
  qed
  note rec2 = recovered [OF assms(2) lh dist]
  have q: "fr_MappingsQuarantined out' = 0 \<and> m'' = aborted (fj_ID ` {j \<in> set (mt_journal m'). fj_Status j = FleetImportStaging}) m'"
    by (rule rec2(8)) (rule good)
  have "{j \<in> set (mt_journal m'). fj_Status j = FleetImportStaging} = {}" using rec(2) by blast
  then have "m'' = m'" using q by (simp only: image_empty aborted_none)
  moreover have "filter (\<lambda>j. fj_Status j = FleetImportStaging) (mt_journal m') = []" using rec(2) by (simp add: filter_empty_conv)
  ultimately show ?thesis using q rec2(9) by simp
qed

end
