(* ===== verification/FleetLiveness.thy ===== *)
theory FleetLiveness
  imports FleetHistory
begin

text \<open>
  Imports succeed: on a store where nothing fails, an import of frames that pass the checks commits, step by
  step through the journal, the chunks, the seal and the publishing transaction. The witnesses of the
  properties of \<open>FleetHistory\<close> run a concrete import.
\<close>

section \<open>A store where nothing fails\<close>

definition crypto_ready :: "PeerImportSink \<Rightarrow> bool" where
  "crypto_ready s \<longleftrightarrow>
     (case ps_Crypto s of None \<Rightarrow> True
      | Some c \<Rightarrow> en_Enabled (cr_Env c) \<longrightarrow> Key_Validate (en_Write (cr_Env c)) = None \<and> (\<forall>k. length (ps_nonce s k) = NonceSize))"

definition clean :: "PeerImportSink \<Rightarrow> bool" where
  "clean s \<longleftrightarrow> ps_fault s = (\<lambda>_ _. False) \<and> crypto_ready s"

definition same_machine :: "PeerImportSink \<Rightarrow> PeerImportSink \<Rightarrow> bool" where
  "same_machine s s' \<longleftrightarrow> ps_fault s' = ps_fault s \<and> ps_Crypto s' = ps_Crypto s \<and> ps_nonce s' = ps_nonce s \<and> ps_Zstd s' = ps_Zstd s"

lemma clean_same: "clean s \<Longrightarrow> same_machine s s' \<Longrightarrow> clean s'"
  by (auto simp: clean_def crypto_ready_def same_machine_def split: option.splits)

text \<open>Bytes that pass every check of a frame of the manifest.\<close>

definition importable :: "PeerImportSink \<Rightarrow> WireFrame \<Rightarrow> string \<Rightarrow> bool" where
  "importable s f z \<longleftrightarrow>
     (\<exists>raw. checkImportFrame (\<lambda>_. False) (ps_Zstd s) 1 (specOf f z) = Inr raw \<and> (\<exists>x. importLines (specOf f z) raw = Inr x))"

lemma importable_same: "same_machine s s' \<Longrightarrow> importable s' f z = importable s f z"
  by (simp add: same_machine_def importable_def)

lemma sealCompressed_ready:
  assumes "clean s"
  shows "\<exists>b alg ver. sealCompressed (ps_Crypto s) (ps_nonce s k) g q fv z = Inr (b, alg, ver)"
  using assms by (auto simp: clean_def crypto_ready_def sealCompressed_def Seal_def split: option.splits sum.splits)

lemma hexSum_nonempty [simp]: "hexSum b \<noteq> []"
  by (metis hexSum_hash64(1) list.size(3) zero_neq_numeral)

lemma find_map_update: "(\<And>x. P (u x) = P x) \<Longrightarrow> List.find P (map u xs) = map_option u (List.find P xs)"
  by (induction xs) auto

lemma filter_key_single:
  "distinct (map k xs) \<Longrightarrow> x \<in> set xs \<Longrightarrow> k x = a \<Longrightarrow> P x \<Longrightarrow> filter (\<lambda>x. k x = a \<and> P x) xs = [x]"
  by (induction xs) (auto simp: filter_empty_conv rev_image_eqI)

section \<open>An import in progress\<close>

definition progress :: "int \<Rightarrow> int \<Rightarrow> string \<Rightarrow> int \<Rightarrow> int list \<Rightarrow> PeerImportSink \<Rightarrow> bool" where
  "progress i g d n qs s \<longleftrightarrow>
     clean s \<and> ps_inv s \<and> 0 < i \<and> 0 < g \<and>
     (\<exists>j \<in> set (mt_journal (ps_Meta s)). fj_ID j = i \<and> fj_Status j = FleetImportStaging \<and> fj_GenerationID j = g \<and>
        fj_ManifestDigest j = d \<and> fj_FramesTotal j = n \<and> fj_FramesDone j = int (length qs)) \<and>
     ps_framesDone s i = Some (int (length qs)) \<and> map ch_Seq (chunksOf g (ps_Meta s)) = qs \<and>
     (\<exists>h \<in> set (mt_generations (ps_Meta s)). lg_ID h = g \<and> \<not> lg_Sealed h \<and> lg_JenkinsOffset h = 0)"

lemma find_id: "distinct (map k xs) \<Longrightarrow> x \<in> set xs \<Longrightarrow> k x = a \<Longrightarrow> List.find (\<lambda>x. k x = a) xs = Some x"
  using find_unique [of k xs x a "\<lambda>_. True"] by simp

lemma find_import: "meta_inv m \<Longrightarrow> j \<in> set (mt_journal m) \<Longrightarrow> findImport (fj_ID j) m = Some j"
  unfolding findImport_def by (rule find_id) (simp_all add: meta_inv_def)

lemma AdvanceFleetImportFrames_runs:
  assumes "meta_inv m" and "j \<in> set (mt_journal m)" and "fj_ID j = i" and "fj_Status j = FleetImportStaging" and "0 < i" and "0 \<le> n"
  shows "AdvanceFleetImportFrames False i n m = (None, m\<lparr> mt_journal :=
     map (\<lambda>j. if fj_ID j = i \<and> fj_Status j = FleetImportStaging then j\<lparr> fj_FramesDone := n \<rparr> else j) (mt_journal m) \<rparr>)"
proof -
  have "distinct (map fj_ID (mt_journal m))" using assms(1) by (simp add: meta_inv_def)
  from filter_key_single [OF this assms(2,3), of "\<lambda>j. fj_Status j = FleetImportStaging"] assms(4-6)
  show ?thesis by (simp add: AdvanceFleetImportFrames_def Let_def)
qed

lemma write_runs:
  assumes p: "progress i g d n qs s" and imp: "importable s f z" and new: "wf_Seq f \<notin> set qs"
  shows "\<exists>s'. ps_WriteFrame i g f z s = (None, s') \<and> progress i g d n (qs @ [wf_Seq f]) s' \<and> same_machine s s'"
proof -
  let ?m = "ps_Meta s"
  have cl: "clean s" and inv: "meta_inv ?m" and ig: "0 < i" "0 < g" and fd: "ps_framesDone s i = Some (int (length qs))"
    and cks: "map ch_Seq (chunksOf g ?m) = qs" using p by (simp_all add: progress_def ps_inv_def)
  obtain j where j: "j \<in> set (mt_journal ?m)" "fj_ID j = i" "fj_Status j = FleetImportStaging" "fj_GenerationID j = g"
    "fj_ManifestDigest j = d" "fj_FramesTotal j = n" "fj_FramesDone j = int (length qs)" using p by (auto simp: progress_def)
  obtain h where h: "h \<in> set (mt_generations ?m)" "lg_ID h = g" "\<not> lg_Sealed h" "lg_JenkinsOffset h = 0"
    using p by (auto simp: progress_def)
  have nof: "faults s k = False" for k using cl by (simp add: clean_def)
  have get: "GetFleetImport False i ?m = Inr j" using find_import [OF inv j(1)] j(2) by (simp add: GetFleetImport_def)
  obtain raw cps le where raw: "checkImportFrame (\<lambda>_. False) (ps_Zstd s) 1 (specOf f z) = Inr raw" "importLines (specOf f z) raw = Inr (cps, le)"
    using imp by (auto simp: importable_def)
  note ck = checkImportFrame_ok [OF raw(1)]
  have rawg: "checkImportFrame (\<lambda>_. False) (ps_Zstd s) g (specOf f z) = Inr raw"
    using raw(1) ig(2) by (simp add: checkImportFrame_def)
  obtain b alg ver where seal: "sealCompressed (ps_Crypto s) (ps_nonce s (ps_calls s)) g (wf_Seq f) FrameFormatVersion z = Inr (b, alg, ver)"
    using sealCompressed_ready [OF cl] by blast
  let ?c = "importedChunk g (specOf f z) raw cps le b alg ver"
  let ?m1 = "?m\<lparr> mt_chunks := mt_chunks ?m @ [?c] \<rparr>"
  let ?fs = "(ps_Files s)(FrameRelPath g (wf_Seq f) \<mapsto> b)"
  have "\<forall>x \<in> set (chunksOf g ?m). ch_Seq x \<noteq> wf_Seq f" using new unfolding cks [symmetric] by force
  then have ins: "InsertChunk False ?c ?m = (None, ?m1)"
    using ck(2,4) ig(2) h(1,2) by (auto simp: InsertChunk_def importedChunk_def specOf_def FrameRelPath_def FramesDirName_def)
  have I: "ImportPureZstdFrame (\<lambda>_. False) (ps_Zstd s) (ps_Crypto s) (ps_nonce s (ps_calls s)) g (specOf f z) (?m, ps_Files s) = (None, ?m1, ?fs)"
    using rawg seal raw(2) ins FrameAbsPath_rel [of g "wf_Seq f"]
    by (simp add: ImportPureZstdFrame_def writeFileAtomic_def Let_def specOf_def)
  have inv1: "meta_inv ?m1" by (rule meta_inv_chunk(1) [OF inv ins]) (simp add: importedChunk_def specOf_def)
  let ?n = "int (length qs) + 1"
  let ?u = "\<lambda>j. if fj_ID j = i \<and> fj_Status j = FleetImportStaging then j\<lparr> fj_FramesDone := ?n \<rparr> else j"
  let ?m2 = "?m1\<lparr> mt_journal := map ?u (mt_journal ?m) \<rparr>"
  have adv: "AdvanceFleetImportFrames False i ?n ?m1 = (None, ?m2)"
    using AdvanceFleetImportFrames_runs [OF inv1 _ j(2,3) ig(1), of ?n] j(1) by simp
  let ?s = "(called s)\<lparr> ps_Meta := ?m2, ps_Files := ?fs, ps_framesDone := (ps_framesDone s)(i \<mapsto> ?n) \<rparr>"
  have w: "ps_WriteFrame i g f z s = (None, ?s)"
    unfolding ps_WriteFrame_def nof get sum.case using j(3,4,7) fd I adv by (simp add: Let_def)
  have "ps_inv ?s" using write_frame_law(1) [OF _ w] p by (simp add: progress_def)
  moreover have "?u j \<in> set (mt_journal (ps_Meta ?s))" using j(1) by simp
  moreover have "map ch_Seq (chunksOf g (ps_Meta ?s)) = qs @ [wf_Seq f]"
    using cks by (simp add: chunksOf_def importedChunk_def specOf_def)
  moreover have sm: "same_machine s ?s" by (simp add: same_machine_def)
  ultimately have "progress i g d n (qs @ [wf_Seq f]) ?s"
    unfolding progress_def using ig j h clean_same [OF cl sm] by (intro conjI bexI [of _ "?u j"] bexI [of _ h]) simp_all
  then show ?thesis using w sm by blast
qed

lemma loop_runs:
  assumes "progress i g d n qs s" and "\<forall>f \<in> set fs. importable s f (by (wf_Seq f))" and "distinct (qs @ map wf_Seq fs)"
  shows "\<exists>s'. importLoop PeerSink (\<lambda>_. False) k i g by fs s = (None, s') \<and> progress i g d n (qs @ map wf_Seq fs) s'"
  using assms
proof (induction fs arbitrary: k qs s)
  case (Cons f fs)
  obtain t where t: "ps_WriteFrame i g f (by (wf_Seq f)) s = (None, t)" "progress i g d n (qs @ [wf_Seq f]) t" "same_machine s t"
    using write_runs [OF Cons.prems(1), of f "by (wf_Seq f)"] Cons.prems(2,3) by auto
  have "\<exists>s'. importLoop PeerSink (\<lambda>_. False) (Suc k) i g by fs t = (None, s') \<and> progress i g d n ((qs @ [wf_Seq f]) @ map wf_Seq fs) s'"
    by (rule Cons.IH [OF t(2)]) (use Cons.prems t(3) importable_same in auto)
  then show ?case using t(1) by (simp add: PeerSink_def)
qed simp

section \<open>Beginning and committing\<close>

lemma latestOf_None: "latestOf gs = None \<longleftrightarrow> gs = []"
  by (cases gs) (auto split: option.splits)

lemma latestOf_max: "latestOf gs = Some e \<Longrightarrow> e \<in> set gs \<and> (\<forall>h \<in> set gs. lg_Generation h \<le> lg_Generation e)"
proof (induction gs arbitrary: e)
  case (Cons g gs)
  show ?case
  proof (cases "latestOf gs")
    case None
    then show ?thesis using Cons.prems latestOf_None by simp
  next
    case (Some x)
    note x = Cons.IH [OF Some]
    show ?thesis
    proof (cases "lg_Generation x > lg_Generation g")
      case True
      then have "e = x" using Cons.prems Some by simp
      then show ?thesis using x True by auto
    next
      case False
      then have "e = g" using Cons.prems Some by simp
      then show ?thesis using x False by fastforce
    qed
  qed
qed simp

text \<open>Counters that have not run backwards.\<close>

definition ids_positive :: "Meta \<Rightarrow> bool" where
  "ids_positive m \<longleftrightarrow> 0 \<le> mt_lastImport m \<and> (\<forall>h \<in> set (mt_generations m). 0 < lg_Generation h)"

lemma BeginFleetImport_runs:
  assumes inv: "meta_inv m" and ids: "ids_positive m" and lh: "canonical lh" "length lh = 64" and d: "canonical d" "length d = 64"
    and n: "1 \<le> n"
  shows "\<exists>i g m'. BeginFleetImport (\<lambda>_. False) lh d n m = (Inr (i, g), m') \<and> 0 < i \<and> 0 < g \<and> i = mt_lastImport m + 1 \<and> g = mt_lastGeneration m + 1 \<and>
     mt_journal m' = mt_journal m @ [\<lparr> fj_ID = i, fj_LocatorHash = lh, fj_ManifestDigest = d, fj_Status = FleetImportStaging,
                    fj_GenerationID = g, fj_FramesDone = 0, fj_FramesTotal = n \<rparr>] \<and>
     (\<exists>h \<in> set (mt_generations m'). lg_ID h = g \<and> \<not> lg_Sealed h \<and> lg_JenkinsOffset h = 0) \<and> mt_chunks m' = mt_chunks m"
proof -
  have norm: "norm_hash lh = lh" "norm_hash d = d" using lh d by (simp_all add: norm_canonical)
  have "lh \<noteq> []" "trim_space lh = lh" using lh(1) by (simp_all add: canonical_def)
  then have key: "LogKey_Validate ''fleet-import'' lh 1 = None"
    by (simp add: LogKey_Validate_def trim_space_printing printing_def)
  let ?gs = "filter (sameKey ''fleet-import'' lh 1) (mt_generations m)"
  let ?k = "case latestOf ?gs of None \<Rightarrow> 1 | Some e \<Rightarrow> lg_Generation e + 1"
  have k: "(case GetLatestGeneration False ''fleet-import'' lh 1 m of Inr (Some e) \<Rightarrow> lg_Generation e + 1 | _ \<Rightarrow> 1) = ?k"
    using key by (simp add: GetLatestGeneration_def split: option.split)
  have "0 < ?k \<and> (\<forall>h \<in> set (mt_generations m). sameKey ''fleet-import'' lh 1 h \<longrightarrow> lg_Generation h \<noteq> ?k)"
  proof (cases "latestOf ?gs")
    case None
    then have "?gs = []" using latestOf_None by blast
    then show ?thesis using None by (simp add: filter_empty_conv)
  next
    case (Some e)
    note e = latestOf_max [OF Some]
    have "0 < lg_Generation e" using e ids by (auto simp: ids_positive_def)
    moreover have "lg_Generation h \<le> lg_Generation e" if "h \<in> set (mt_generations m)" "sameKey ''fleet-import'' lh 1 h" for h
      using e that by simp
    ultimately show ?thesis using Some by fastforce
  qed
  then have pos: "0 < ?k" and new: "\<not> (\<exists>h \<in> set (mt_generations m). sameKey ''fleet-import'' lh 1 h \<and> lg_Generation h = ?k)" by blast+
  let ?g = "\<lparr> lg_ID = 0, lg_Profile = ''fleet-import'', lg_Job = lh, lg_Build = 1, lg_Generation = ?k,
                     lg_Sealed = False, lg_JenkinsOffset = 0, lg_MoreData = True, lg_BuildComplete = False,
                     lg_PackedPackID = [], lg_L1Released = False \<rparr>"
  let ?i = "mt_lastGeneration m + 1"
  have ins: "InsertGeneration False ?g m = (Inr ?i, m\<lparr> mt_generations := mt_generations m @ [?g\<lparr> lg_ID := ?i \<rparr>], mt_lastGeneration := ?i \<rparr>)"
    using key pos new by (simp add: InsertGeneration_def Let_def)
  have pos2: "0 < ?i" "0 < mt_lastImport m + 1" using inv ids by (simp_all add: meta_inv_def ids_positive_def)
  let ?m1 = "m\<lparr> mt_generations := mt_generations m @ [?g\<lparr> lg_ID := ?i \<rparr>], mt_lastGeneration := ?i \<rparr>"
  let ?j = "\<lparr> fj_ID = mt_lastImport m + 1, fj_LocatorHash = lh, fj_ManifestDigest = d, fj_Status = FleetImportStaging,
                    fj_GenerationID = ?i, fj_FramesDone = 0, fj_FramesTotal = n \<rparr>"
  let ?m2 = "?m1\<lparr> mt_lastImport := mt_lastImport m + 1, mt_journal := mt_journal m @ [?j] \<rparr>"
  have c: "\<not> (length lh \<noteq> 64 \<or> length d \<noteq> 64)" "\<not> n < 1" using lh(2) d(2) n by simp_all
  have B: "BeginFleetImport (\<lambda>_. False) lh d n m = (Inr (mt_lastImport m + 1, ?i), ?m2)"
    unfolding BeginFleetImport_def norm Let_def if_not_P [OF c(1)] if_not_P [OF c(2)] k ins by simp
  show ?thesis
    by (rule exI [of _ "mt_lastImport m + 1"], rule exI [of _ ?i], rule exI [of _ ?m2]) (use B pos2 in simp)
qed

lemma begin_runs:
  assumes cl: "clean s" and inv: "ps_inv s" and ids: "ids_positive (ps_Meta s)" and can: "canonical_manifest m" and n: "wm_Frames m \<noteq> []"
  shows "\<exists>i g s'. ps_Begin m s = (Inr (i, g), s') \<and> progress i g (wm_ManifestDigest m) (int (length (wm_Frames m))) [] s' \<and> same_machine s s'"
proof -
  have d: "wireDigest m = Inr (wm_ManifestDigest m)" using can by (auto simp: canonical_manifest_def wireDigest_def canonical_def)
  have nof: "faults s = (\<lambda>_. False)" using cl by (simp add: clean_def)
  have meta: "meta_inv (ps_Meta s)" using inv by (simp add: ps_inv_def)
  have lh: "canonical (wm_LocatorHash m)" "length (wm_LocatorHash m) = 64" "canonical (wm_ManifestDigest m)" "length (wm_ManifestDigest m) = 64"
    and n1: "1 \<le> int (length (wm_Frames m))"
    using can n by (simp_all add: canonical_manifest_def) (cases "wm_Frames m"; simp)
  from BeginFleetImport_runs [OF meta ids lh n1]
  obtain i g mt where b: "BeginFleetImport (\<lambda>_. False) (wm_LocatorHash m) (wm_ManifestDigest m) (int (length (wm_Frames m))) (ps_Meta s) = (Inr (i, g), mt)"
     "0 < i" "0 < g" "g = mt_lastGeneration (ps_Meta s) + 1"
     "mt_journal mt = mt_journal (ps_Meta s) @ [\<lparr> fj_ID = i, fj_LocatorHash = wm_LocatorHash m, fj_ManifestDigest = wm_ManifestDigest m,
        fj_Status = FleetImportStaging, fj_GenerationID = g, fj_FramesDone = 0, fj_FramesTotal = int (length (wm_Frames m)) \<rparr>]"
     "\<exists>h \<in> set (mt_generations mt). lg_ID h = g \<and> \<not> lg_Sealed h \<and> lg_JenkinsOffset h = 0" "mt_chunks mt = mt_chunks (ps_Meta s)"
    by blast
  let ?s = "(called s)\<lparr> ps_Meta := mt, ps_framesDone := (ps_framesDone s)(i \<mapsto> 0) \<rparr>"
  have B: "ps_Begin m s = (Inr (i, g), ?s)" by (simp add: ps_Begin_def d nof b(1))
  have sm: "same_machine s ?s" by (simp add: same_machine_def)
  have "ps_inv ?s" by (rule begin_law(1) [OF B inv])
  moreover have "chunksOf g (ps_Meta ?s) = []" using meta b(4,7) by (auto simp: chunksOf_def meta_inv_def filter_empty_conv)
  ultimately have "progress i g (wm_ManifestDigest m) (int (length (wm_Frames m))) [] ?s"
    unfolding progress_def using b(2,3,5,6) clean_same [OF cl sm] by simp
  then show ?thesis using B sm by blast
qed

lemma foldr_min_Min: "foldr min xs (a :: int) = Min (insert a (set xs))"
  by (induction xs) (simp_all add: insert_commute)

lemma foldr_max_Max: "foldr max xs (a :: int) = Max (insert a (set xs))"
  by (induction xs) (simp_all add: insert_commute)

lemma seq_bounds:
  assumes "qs = map int [0..<n]" and "0 < n"
  shows "foldr min qs (hd (qs @ [- 1])) = 0" and "foldr max qs (hd (qs @ [- 1])) = int n - 1" and "length (remdups qs) = n"
proof -
  have hd: "hd (qs @ [- 1]) = 0" using assms by (simp add: hd_append hd_map)
  have set: "insert 0 (set qs) = int ` {0..<n}" using assms by auto
  have "distinct qs" using assms(1) by (simp add: distinct_map inj_on_def)
  then show "length (remdups qs) = n" using assms(1) by (simp add: distinct_remdups_id)
  have "Min (int ` {0..<n}) = 0" by (rule Min_eqI) (use assms(2) in auto)
  then show "foldr min qs (hd (qs @ [- 1])) = 0" by (simp only: foldr_min_Min hd set)
  have "Max (int ` {0..<n}) = int n - 1" by (rule Max_eqI) (use assms(2) in \<open>auto intro!: image_eqI [of _ _ "n - 1"]\<close>)
  then show "foldr max qs (hd (qs @ [- 1])) = int n - 1" by (simp only: foldr_max_Max hd set)
qed

lemma UpdateGenerationOffset_runs:
  assumes "meta_inv m" and "h \<in> set (mt_generations m)" and "lg_ID h = g" and "\<not> lg_Sealed h" and "lg_JenkinsOffset h = 0" and "0 < g" and "0 \<le> off"
  shows "\<exists>m'. UpdateGenerationOffset False g off b c False m = (None, m')"
proof -
  have "List.find (\<lambda>h. lg_ID h = g) (mt_generations m) = Some h" by (rule find_id) (use assms in \<open>simp_all add: meta_inv_def\<close>)
  then show ?thesis using assms(4-7) by (simp add: UpdateGenerationOffset_def)
qed

lemma SealGeneration_runs:
  assumes "0 < g" and "g \<in> set (map lg_ID (mt_generations m))"
  shows "\<exists>m'. SealGeneration False g m = (None, m')"
  using assms by (auto simp: SealGeneration_def filter_empty_conv)

lemma commit_runs:
  assumes p: "progress i g (wm_ManifestDigest m) (int n) (map int [0..<n]) s" and n: "0 < n" and can: "canonical_manifest m"
    and none: "ps_visible s (wm_LocatorHash m) = None" and tot: "0 \<le> totalRawOf m"
  shows "\<exists>s'. ps_Commit i g m s = (None, s')"
proof -
  let ?m = "ps_Meta s" and ?d = "wm_ManifestDigest m" and ?lh = "wm_LocatorHash m"
  have cl: "clean s" and inv: "meta_inv ?m" and ig: "0 < i" "0 < g" and cks: "map ch_Seq (chunksOf g ?m) = map int [0..<n]"
    using p by (simp_all add: progress_def ps_inv_def)
  obtain j where j: "j \<in> set (mt_journal ?m)" "fj_ID j = i" "fj_Status j = FleetImportStaging" "fj_GenerationID j = g"
    "fj_ManifestDigest j = ?d" "fj_FramesTotal j = int n" "fj_FramesDone j = int n" using p by (auto simp: progress_def)
  obtain h where h: "h \<in> set (mt_generations ?m)" "lg_ID h = g" "\<not> lg_Sealed h" "lg_JenkinsOffset h = 0"
    using p by (auto simp: progress_def)
  have d: "wireDigest m = Inr ?d" "norm_hash ?d = ?d" and lh: "norm_hash (to_lower ?lh) = ?lh"
    using can norm_canonical by (auto simp: canonical_manifest_def wireDigest_def canonical_def)
  have nof: "faults s = (\<lambda>_. False)" using cl by (simp add: clean_def)
  have find: "findImport i ?m = Some j" using find_import [OF inv j(1)] j(2) by simp
  have len: "length (chunksOf g ?m) = n" using cks by (metis length_map length_upt minus_nat.diff_0)
  have gate: "commitGate (\<lambda>_. False) i g ?d ?m = None"
    using find j n seq_bounds [OF refl n] by (simp add: commitGate_def cks len equal_fold_def Let_def)
  obtain m1 where upd: "UpdateGenerationOffset False g (totalRawOf m) False True False ?m = (None, m1)"
    using UpdateGenerationOffset_runs [OF inv h ig(2) tot] by blast
  note q1 = UpdateGenerationOffset_quiet [OF upd]
  have "g \<in> set (map lg_ID (mt_generations m1))" using q1 h(1,2) by (auto simp: quiet_def simp del: set_map) (auto)
  then obtain m2 where seal: "SealGeneration False g m1 = (None, m2)" using SealGeneration_runs [OF ig(2)] by blast
  note q = quiet_trans [OF q1 SealGeneration_quiet [OF seal]]
  have jr: "mt_journal m2 = mt_journal ?m"
    using upd seal by (auto simp: UpdateGenerationOffset_def SealGeneration_def split: if_splits option.splits)
  have find2: "findImport i m2 = Some j" using find by (simp add: findImport_def jr)
  have "published_row ?lh m2 = None" using none quiet_published [OF q, of ?lh] by (simp add: ps_visible_def)
  then have free: "List.find (\<lambda>r. fm_LocatorHash r = ?lh) (mt_mappings m2) = Some r \<Longrightarrow> fm_Status r \<noteq> FleetMappingCommitted" for r
    using find_SomeD [of _ "mt_mappings m2" r] by (auto simp: published_row_def find_None_iff)
  have "\<exists>m'. commitTx (\<lambda>_. False) i g ?lh ?d (wm_FleetID m) (wm_CachePool m) (wm_ControllerID m) m2 = (None, m')"
  proof (cases "List.find (\<lambda>r. fm_LocatorHash r = ?lh) (mt_mappings m2)")
    case None
    then show ?thesis using find2 j n by (simp add: commitTx_def equal_fold_def Let_def)
  next
    case (Some r)
    then show ?thesis using free [OF Some] find2 j n by (simp add: commitTx_def equal_fold_def Let_def)
  qed
  then obtain m' where tx: "commitTx (\<lambda>_. False) i g ?lh ?d (wm_FleetID m) (wm_CachePool m) (wm_ControllerID m) m2 = (None, m')" by blast
  have "CommitFleetImport (\<lambda>_. False) i g (to_lower ?lh) ?d (wm_FleetID m) (wm_CachePool m) (wm_ControllerID m) (totalRawOf m) ?m = (None, m')"
    using ig gate upd seal tx by (simp add: CommitFleetImport_def d(2) lh Let_def)
  then show ?thesis by (simp add: ps_Commit_def d(1) nof)
qed

section \<open>A clean import commits\<close>

lemma import_runs:
  assumes cl: "clean s" and inv: "ps_inv s" and ids: "ids_positive (ps_Meta s)"
    and val: "ValidateImportFrames m frames = None" and dig: "DigestWireManifest m = Inr d"
    and imp: "\<forall>f \<in> set (wm_Frames m). importable s f (bytesBySeq frames (wf_Seq f))"
    and free: "ps_visible s (to_lower (wm_LocatorHash m)) = None"
    and tomb: "fst (TombstoneBlocks ts (to_lower (wm_LocatorHash m)) d now) = False" and tot: "0 \<le> totalRawOf m"
  shows "\<exists>res s'. RunImport ts now (Some PeerSink) (\<lambda>_. False) m frames s = (res, None, s') \<and> ir_Status res = ImportStatusCommitted"
proof -
  have vw: "ValidateWireManifest m = None" using val by (auto simp: ValidateImportFrames_def split: option.splits)
  then have md: "Manifest_Digest (ToManifestV1 m) = Inr d" using dig by (simp add: DigestWireManifest_def)
  let ?m = "normalized m d" and ?lh = "to_lower (wm_LocatorHash m)"
  note n = normalized_manifest [OF vw md] and can = canonical_normalized [OF vw md]
  have frames: "wm_Frames m \<noteq> []" and seqs: "map wf_Seq (wm_Frames m) = map int [0..<length (wm_Frames m)]"
    using ValidateWireManifest_ok(3,5) [OF vw] by simp_all
  have nof: "faults t = (\<lambda>_. False)" if "clean t" for t using that by (simp add: clean_def)
  let ?s1 = "called s"
  have row: "published_row ?lh (ps_Meta s) = None" using free by (simp add: ps_visible_def)
  have get: "ps_GetCommitted ?lh s = (Inr None, ?s1)"
    using row can(2) n(6) by (simp add: ps_GetCommitted_def GetCommittedFleetMapping_def nof [OF cl] published_row_def norm_canonical Let_def)
  have sm1: "same_machine s ?s1" by (simp add: same_machine_def)
  have plan: "\<exists>plan. PlanImport ts now None ?m = (plan, None) \<and> ip_Action plan = ImportActionStart"
  proof -
    obtain r where T: "TombstoneBlocks ts ?lh d now = (False, r)" using tomb by (metis prod.collapse)
    have upd: "?m\<lparr> wm_ManifestDigest := d \<rparr> = ?m" by (simp add: normalized_def)
    have act: "po_Action (EvaluateManifestConflict None ?m) = PartitionActionStart"
      using EvaluateManifestConflict_canonical [OF n(11), of None] hash64_canonical [OF n(1,2)] by simp
    show ?thesis using T act by (simp add: PlanImport_def n md upd equal_fold_def Let_def)
  qed
  obtain i g s2 where b: "ps_Begin ?m ?s1 = (Inr (i, g), s2)" "progress i g d (int (length (wm_Frames m))) [] s2" "same_machine ?s1 s2"
    using begin_runs [OF clean_same [OF cl sm1], of ?m] inv ids can(1) frames n(7,8) by (auto simp: ps_inv_def)
  have "\<forall>f \<in> set (wm_Frames m). importable s2 f (bytesBySeq frames (wf_Seq f))"
    using imp importable_same [OF b(3)] importable_same [OF sm1] by simp
  from loop_runs [OF b(2) this, of 1] seqs
  obtain s3 where l: "importLoop PeerSink (\<lambda>_. False) 1 i g (bytesBySeq frames) (wm_Frames m) s2 = (None, s3)"
    "progress i g d (int (length (wm_Frames m))) (map int [0..<length (wm_Frames m)]) s3"
    by (auto simp: distinct_map inj_on_def)
  have v2: "ps_visible s2 = ps_visible s"
    using view_visible [OF begin_law(2) [OF b(1)]] inv view_visible [OF called_view(1)] by (simp add: ps_inv_def)
  have "peer.kept g s2 s3" by (rule peer.importLoop_kept [OF _ l(1)]) (use b(2) in \<open>simp add: progress_def\<close>)
  then have v3: "ps_visible s3 ?lh = None" using v2 free by (simp add: peer.kept_def)
  have "totalRawOf ?m = totalRawOf m" by (simp add: totalRawOf_def normalized_def)
  then obtain s4 where c: "ps_Commit i g ?m s3 = (None, s4)"
    using commit_runs [of i g ?m "length (wm_Frames m)" s3] l(2) frames can(1) v3 tot n(4,8) by auto
  show ?thesis
    using val md get plan b(1) l(1) c
    unfolding RunImport_def normalized_def [symmetric] Let_def
    by (auto simp: PeerSink_def n(4,7) normalized_def [symmetric])
qed

lemma import_answers_published:
  assumes cl: "clean s" and inv: "ps_inv s" and val: "ValidateImportFrames m frames = None" and dig: "DigestWireManifest m = Inr d"
    and pub: "ps_visible s (to_lower (wm_LocatorHash m)) = Some (d', g)"
    and tomb: "fst (TombstoneBlocks ts (to_lower (wm_LocatorHash m)) d now) = False"
  shows "\<exists>res e. RunImport ts now (Some PeerSink) (\<lambda>_. False) m frames s = (res, e, called s) \<and>
     (if d' = d then e = None \<and> ir_Status res = ImportStatusIdempotent \<and> ir_GenerationID res = g
      else e \<noteq> None \<and> ir_Status res = ImportStatusRejected)"
proof -
  have vw: "ValidateWireManifest m = None" using val by (auto simp: ValidateImportFrames_def split: option.splits)
  then have md: "Manifest_Digest (ToManifestV1 m) = Inr d" using dig by (simp add: DigestWireManifest_def)
  let ?m = "normalized m d" and ?lh = "to_lower (wm_LocatorHash m)"
  note n = normalized_manifest [OF vw md] and can = canonical_normalized [OF vw md]
  have nof: "faults s = (\<lambda>_. False)" using cl by (simp add: clean_def)
  obtain r where r: "published_row ?lh (ps_Meta s) = Some r" "fm_ManifestDigest r = d'" "fm_GenerationID r = g"
    using pub by (auto simp: ps_visible_def)
  have st: "fm_Status r = FleetMappingCommitted" using published_status [OF r(1)] by simp
  have can': "canonical d'" by (rule visible_digest [OF inv pub])
  have get: "ps_GetCommitted ?lh s = (Inr (Some (mappingOf r)), called s)"
    using r(1) can(2) n(6) by (simp add: ps_GetCommitted_def GetCommittedFleetMapping_def nof published_row_def norm_canonical Let_def)
  obtain q where T: "TombstoneBlocks ts ?lh d now = (False, q)" using tomb by (metis prod.collapse)
  have upd: "?m\<lparr> wm_ManifestDigest := d \<rparr> = ?m" by (simp add: normalized_def)
  have act: "po_Action (EvaluateManifestConflict (Some (mappingOf r)) ?m) = (if d' = d then PartitionActionConverge else PartitionActionConflict)"
    using EvaluateManifestConflict_canonical [OF n(11), of "Some (mappingOf r)"] hash64_canonical [OF n(1,2)] st r(2) can'
    by (simp add: mappingOf_def)
  show ?thesis
  proof (cases "d' = d")
    case True
    then have "\<exists>plan. PlanImport ts now (Some (mappingOf r)) ?m = (plan, None) \<and> ip_Action plan = ImportActionIdempotent"
      using T act by (simp add: PlanImport_def n md upd equal_fold_def Let_def)
    then obtain plan where "PlanImport ts now (Some (mappingOf r)) ?m = (plan, None)" "ip_Action plan = ImportActionIdempotent" by blast
    then show ?thesis using val md get True r(3)
      unfolding RunImport_def normalized_def [symmetric] Let_def
      by (auto simp: PeerSink_def n(4,7) mappingOf_def)
  next
    case False
    then have "\<exists>plan x. PlanImport ts now (Some (mappingOf r)) ?m = (plan, Some x) \<and> ip_Action plan = ImportActionRejectStale"
      using T act by (simp add: PlanImport_def n md upd equal_fold_def Let_def)
    then obtain plan x where "PlanImport ts now (Some (mappingOf r)) ?m = (plan, Some x)" "ip_Action plan = ImportActionRejectStale" by blast
    then show ?thesis using val md get False
      unfolding RunImport_def normalized_def [symmetric] Let_def
      by (auto simp: PeerSink_def n(4,7))
  qed
qed

text \<open>C17: Where nothing fails and no tombstone is in the way, an import of frames that pass the checks publishes
  its version under a locator that has none, answers the generation of the same version that is already
  published, and is refused when another version is published.\<close>

theorem clean_import_decides:
  assumes "clean s" and "ps_inv s" and "ids_positive (ps_Meta s)"
    and "ValidateImportFrames m frames = None" and "DigestWireManifest m = Inr d" and "0 \<le> totalRawOf m"
    and "\<forall>f \<in> set (wm_Frames m). importable s f (bytesBySeq frames (wf_Seq f))"
    and "fst (TombstoneBlocks ts (to_lower (wm_LocatorHash m)) d now) = False"
  shows "\<exists>res e s'. RunImport ts now (Some PeerSink) (\<lambda>_. False) m frames s = (res, e, s') \<and>
     (case ps_visible s (to_lower (wm_LocatorHash m)) of
        None \<Rightarrow> e = None \<and> ir_Status res = ImportStatusCommitted
      | Some (d', g) \<Rightarrow> if d' = d then e = None \<and> ir_Status res = ImportStatusIdempotent \<and> ir_GenerationID res = g
                       else e \<noteq> None \<and> ir_Status res = ImportStatusRejected)"
proof (cases "ps_visible s (to_lower (wm_LocatorHash m))")
  case None
  from import_runs [OF assms(1-5,7) None assms(8,6)] show ?thesis unfolding None by auto
next
  case (Some v)
  obtain d' g where v: "v = (d', g)" by fastforce
  from import_answers_published [OF assms(1,2,4,5) Some [unfolded v] assms(8)] show ?thesis unfolding Some v option.case prod.case by blast
qed

section \<open>A run\<close>

text \<open>One frame with one line, imported into an empty store. The digests stay symbolic.\<close>

definition sampleRaw :: string where "sampleRaw = ''ok'' @ [CHR 0x0A]"
definition sampleZstd :: string where "sampleZstd = ''z''"

definition sampleFrame :: WireFrame where
  "sampleFrame = \<lparr> wf_Seq = 0, wf_RawStart = 0, wf_RawEnd = 3, wf_LineStart = 0, wf_LineEnd = 1, wf_DecodedSize = 3,
     wf_DecodedSHA256 = hexSum sampleRaw, wf_ZstdSize = 1, wf_ZstdSHA256 = hexSum sampleZstd \<rparr>"

definition sampleWire :: WireManifest where
  "sampleWire = \<lparr> wm_ProtocolVersion = ProtocolVersionV1, wm_FleetID = ''f'', wm_CachePool = ''p'', wm_ControllerID = ''c'',
     wm_LocatorHash = replicate 64 CHR ''a'', wm_ManifestDigest = [], wm_Sealed = True, wm_FormatVersion = 1,
     wm_Codec = ManifestCodecZstd, wm_Frames = [sampleFrame], wm_TotalRawBytes = 3, wm_TotalLines = 1 \<rparr>"

definition sampleBytes :: "ImportFrameBytes list" where "sampleBytes = [\<lparr> ib_Seq = 0, ib_PureZstd = sampleZstd \<rparr>]"

definition sampleStore :: PeerImportSink where
  "sampleStore = \<lparr> ps_Meta = emptyMeta, ps_Files = Map.empty, ps_Zstd = (\<lambda>_. Inr sampleRaw), ps_Crypto = None,
     ps_framesDone = Map.empty, ps_fault = (\<lambda>_ _. False), ps_nonce = (\<lambda>_. []), ps_calls = 0 \<rparr>"

lemma sample_valid: "ValidateWireManifest sampleWire = None"
proof -
  have lh: "length (wm_LocatorHash sampleWire) = 64" "isHex (wm_LocatorHash sampleWire)"
    by (simp_all add: sampleWire_def) code_simp
  have ids: "trim_space (wm_ProtocolVersion sampleWire) = ProtocolVersionV1" "trim_space ''f'' \<noteq> []" "trim_space ''p'' \<noteq> []" "trim_space ''c'' \<noteq> []"
    unfolding sampleWire_def WireManifest.simps by code_simp+
  have caps: "wireFrameCaps [sampleFrame] = None"
    by (simp add: sampleFrame_def MaxDecodedFrameBytes_def MaxZstdFrameBytes_def)
  have "CHR ''/'' \<notin> set (hexSum b)" for b using isHex_no_slash hexSum_hash64 by blast
  then have v: "Manifest_validate \<lparr> mf_LocatorHash = to_lower (wm_LocatorHash sampleWire), mf_Sealed = True, mf_FormatVersion = 1,
            mf_Codec = ManifestCodecZstd, mf_Frames = map descriptorOf [sampleFrame], mf_TotalRawBytes = 3, mf_TotalLines = 1 \<rparr> = None"
    using lh isHex_to_lower by (simp add: Manifest_validate_def sampleFrame_def descriptorOf_def)
  show ?thesis
    using lh ids caps v by (simp add: ValidateWireManifest_def) (simp add: sampleWire_def MaxWireFrames_def)
qed

lemma sample_frames: "ValidateImportFrames sampleWire sampleBytes = None"
  using sample_valid
  by (simp add: ValidateImportFrames_def ValidateImportFrameSubset_def)
    (simp add: sampleBytes_def sampleWire_def sampleFrame_def manBySeq_def sampleZstd_def MaxZstdFrameBytes_def CryptoMagic_def
      has_prefix_def equal_fold_def)

lemma sample_importable: "importable sampleStore sampleFrame sampleZstd"
proof -
  have "walkLines sampleRaw 0 0 True = (fst (walkLines sampleRaw 0 0 True), 1, 1, True)" by code_simp
  then have "importLines (specOf sampleFrame sampleZstd) sampleRaw = Inr (fst (walkLines sampleRaw 0 0 True), 1)"
    by (simp add: importLines_def specOf_def sampleFrame_def Let_def split: prod.splits)
  moreover have "checkImportFrame (\<lambda>_. False) (\<lambda>_. Inr sampleRaw) 1 (specOf sampleFrame sampleZstd) = Inr sampleRaw"
    by (simp add: checkImportFrame_def specOf_def sampleFrame_def sampleZstd_def sampleRaw_def DecompressZstdFrame_def
        hmacEqualHex_iff has_prefix_def CryptoMagic_def MaxFrameBytes_def)
  ultimately show ?thesis by (auto simp: importable_def sampleStore_def)
qed

lemma sample_store: "clean sampleStore" "ps_inv sampleStore" "ids_positive (ps_Meta sampleStore)" "ps_Meta sampleStore = emptyMeta"
  "ps_visible sampleStore lh = None"
  by (simp_all add: sampleStore_def clean_def crypto_ready_def ps_inv_def meta_inv_def ids_positive_def emptyMeta_def ps_visible_def published_row_def)

lemma sample_digest: "\<exists>d. DigestWireManifest sampleWire = Inr d"
proof -
  have "Manifest_validate (ToManifestV1 sampleWire) = None" by (rule ValidateWireManifest_ok(2) [OF sample_valid])
  then show ?thesis using sample_valid
    by (simp add: DigestWireManifest_def Manifest_Digest_def Manifest_CanonicalBytes_def)
qed

lemma sample_bytes: "\<forall>f \<in> set (wm_Frames sampleWire). importable sampleStore f (bytesBySeq sampleBytes (wf_Seq f))"
proof -
  have "bytesBySeq sampleBytes 0 = sampleZstd" by (simp add: bytesBySeq_def sampleBytes_def)
  moreover have "wm_Frames sampleWire = [sampleFrame]" "wf_Seq sampleFrame = 0" by (simp_all add: sampleWire_def sampleFrame_def)
  ultimately show ?thesis using sample_importable by simp
qed

lemma sample_total: "0 \<le> totalRawOf sampleWire"
  by (simp add: totalRawOf_def sampleWire_def sampleFrame_def)

lemma sample_run:
  obtains d res s' g where "DigestWireManifest sampleWire = Inr d"
    "RunImport None 0 (Some PeerSink) (\<lambda>_. False) sampleWire sampleBytes sampleStore = (res, None, s')"
    "ps_visible s' (to_lower (wm_LocatorHash sampleWire)) = Some (d, g)"
proof -
  obtain d where d: "DigestWireManifest sampleWire = Inr d" using sample_digest by blast
  obtain res s' where run: "RunImport None 0 (Some PeerSink) (\<lambda>_. False) sampleWire sampleBytes sampleStore = (res, None, s')"
    "ir_Status res = ImportStatusCommitted"
    using import_runs [OF sample_store(1-3) sample_frames d sample_bytes sample_store(5) _ sample_total, of None 0]
    by (auto simp: TombstoneBlocks_def)
  have "peer.import_outcome sampleStore sampleWire res None s'"
    using peer.RunImport_correct [OF sample_store(2) run(1)] by simp
  then have "ps_visible s' (to_lower (wm_LocatorHash sampleWire)) = Some (d, ir_GenerationID res)"
    using run(2) d by (auto simp: peer.import_outcome_def Let_def)
  then show thesis by (rule that [OF d run(1)])
qed

lemma sample_history: "RunImport None 0 (Some PeerSink) (\<lambda>_. False) sampleWire sampleBytes sampleStore = (res, None, s') \<Longrightarrow>
   store_run {sampleWire} sampleStore s'"
  by (rule store_run.imported [OF store_run.start]) simp_all

lemma import_publishes_verified_witness:
  "\<exists>res s'. RunImport None 0 (Some PeerSink) (\<lambda>_. False) sampleWire sampleBytes sampleStore = (res, None, s') \<and>
     import_spec sampleStore sampleWire res None s'"
proof (rule sample_run)
  fix d res s' g
  assume r: "RunImport None 0 (Some PeerSink) (\<lambda>_. False) sampleWire sampleBytes sampleStore = (res, None, s')"
  from import_publishes_verified [OF sample_store(2) r] r show ?thesis by blast
qed

lemma published_objects_complete_witness:
  "\<exists>t lh d g. ps_visible t lh = Some (d, g) \<and> DigestWireManifest sampleWire = Inr d \<and> ps_stored t g sampleFrame"
proof (rule sample_run)
  fix d res s' g
  assume r: "RunImport None 0 (Some PeerSink) (\<lambda>_. False) sampleWire sampleBytes sampleStore = (res, None, s')"
    and v: "ps_visible s' (to_lower (wm_LocatorHash sampleWire)) = Some (d, g)"
  have "\<forall>m \<in> {sampleWire}. \<forall>m' \<in> {sampleWire}. agrees m m'" by (simp add: agrees_def)
  from published_objects_complete [OF sample_store(4) sample_history [OF r] this v] v
  show ?thesis by (auto simp: sampleWire_def)
qed

lemma clean_import_decides_witness:
  "\<exists>res s'. RunImport None 0 (Some PeerSink) (\<lambda>_. False) sampleWire sampleBytes sampleStore = (res, None, s') \<and>
     ir_Status res = ImportStatusCommitted"
proof -
  obtain d where d: "DigestWireManifest sampleWire = Inr d" using sample_digest by blast
  have "fst (TombstoneBlocks None (to_lower (wm_LocatorHash sampleWire)) d 0) = False" by (simp add: TombstoneBlocks_def)
  from clean_import_decides [OF sample_store(1-3) sample_frames d sample_total sample_bytes this]
  show ?thesis by (auto simp: sample_store(5))
qed

section \<open>A recovery where nothing fails\<close>

lemma abortStaging_runs:
  "\<forall>j \<in> set js. 0 < fj_ID j \<Longrightarrow> \<exists>out' m'. abortStaging (\<lambda>_. False) (\<lambda>_. False) k js out m = (None, out', m')"
  by (induction js arbitrary: k out m) (auto simp: AbortFleetImport_def)

lemma healthFiles_runs: "\<exists>r. healthFiles (\<lambda>_. False) k files cs = Inr r"
  by (induction cs arbitrary: k) (auto split: sum.split option.split)

lemma CheckGenerationHealth_runs: "\<exists>h. CheckGenerationHealth (\<lambda>_. False) files g n m = Inr h"
proof -
  obtain r where "healthFiles (\<lambda>_. False) 0 files (sort_key ch_Seq (chunksOf g m)) = Inr r" using healthFiles_runs by blast
  then show ?thesis
    by (auto simp: CheckGenerationHealth_def GetGenerationByID_def ListChunks_def Let_def split: option.split)
qed

lemma quarantineUnhealthy_runs:
  "\<forall>r \<in> set rs. length (norm_hash (fm_LocatorHash r)) = 64 \<Longrightarrow>
   \<exists>out' m'. quarantineUnhealthy (\<lambda>_. False) (\<lambda>_ _. False) files k rs out m = (None, out', m')"
proof (induction rs arbitrary: k out m)
  case (Cons r rs)
  obtain h where h: "CheckGenerationHealth (\<lambda>_. False) files (fm_GenerationID r) (expectedFrames False r m) m = Inr h"
    using CheckGenerationHealth_runs by blast
  obtain m1 where "QuarantineFleetMapping False (fm_LocatorHash r) m = (None, m1)"
    using Cons.prems by (simp add: QuarantineFleetMapping_def Let_def)
  with h Cons.IH Cons.prems show ?case by (simp add: Let_def)
qed simp

lemma recovery_runs:
  assumes "\<forall>j \<in> set (mt_journal m). 0 < fj_ID j" and "\<forall>r \<in> published_rows m. length (norm_hash (fm_LocatorHash r)) = 64"
  shows "\<exists>out m'. RecoverFleetImports (\<lambda>_ _. False) (\<lambda>_ _ _. False) files m = (None, out, m')"
proof -
  let ?out = "\<lparr> fr_StagingAborted = 0, fr_MappingsQuarantined = 0, fr_HealthyMappings = 0, fr_Residuals = [] \<rparr>"
  obtain out1 m1 where S: "abortStaging (\<lambda>_. False) (\<lambda>_. False) 0 (filter (\<lambda>j. fj_Status j = FleetImportStaging) (mt_journal m)) ?out m
      = (None, out1, m1)" using abortStaging_runs [of "filter (\<lambda>j. fj_Status j = FleetImportStaging) (mt_journal m)"] assms(1) by fastforce
  obtain A where "m1 = aborted A m" using abortStaging_effect [OF S] by blast
  then have "\<forall>r \<in> set (filter (\<lambda>r. fm_Status r = FleetMappingCommitted) (mt_mappings m1)). length (norm_hash (fm_LocatorHash r)) = 64"
    using assms(2) by simp
  from quarantineUnhealthy_runs [OF this] obtain out2 m2 where
    "quarantineUnhealthy (\<lambda>_. False) (\<lambda>_ _. False) files 0 (filter (\<lambda>r. fm_Status r = FleetMappingCommitted) (mt_mappings m1)) out1 m1
      = (None, out2, m2)" by blast
  with S show ?thesis by (simp add: RecoverFleetImports_def ListStagingFleetImports_def listFleetMappingsByStatus_def)
qed

text \<open>The sample run and its recovery.\<close>

lemma sample_recovery:
  obtains t out mt d g where "store_run {sampleWire} sampleStore t" "ps_published t"
    "ps_visible t (to_lower (wm_LocatorHash sampleWire)) = Some (d, g)"
    "RecoverFleetImports (\<lambda>_ _. False) (\<lambda>_ _ _. False) (ps_Files t) (ps_Meta t) = (None, out, mt)"
proof (rule sample_run)
  fix d res t g
  assume r: "RunImport None 0 (Some PeerSink) (\<lambda>_. False) sampleWire sampleBytes sampleStore = (res, None, t)"
    and v: "ps_visible t (to_lower (wm_LocatorHash sampleWire)) = Some (d, g)"
  have pub: "ps_published t"
    by (rule published.RunImport_P [OF _ r]) (use store_inv_empty [OF sample_store(4)] in \<open>simp add: store_inv_def\<close>)
  then have "\<forall>j \<in> set (mt_journal (ps_Meta t)). 0 < fj_ID j" unfolding ps_published_def ps_inv_def meta_inv_def by blast
  moreover have "length (norm_hash (fm_LocatorHash q)) = 64" if "q \<in> published_rows (ps_Meta t)" for q
  proof -
    have "backed q (ps_Meta t)" using pub that unfolding ps_published_def pub_inv_def by blast
    then show ?thesis using norm_canonical [of "fm_LocatorHash q"] by (simp add: backed_def)
  qed
  ultimately obtain out mt where "RecoverFleetImports (\<lambda>_ _. False) (\<lambda>_ _ _. False) (ps_Files t) (ps_Meta t) = (None, out, mt)"
    using recovery_runs by blast
  then show thesis by (rule that [OF sample_history [OF r] pub v])
qed

lemma published_tidy:
  assumes "ps_published t"
  shows "distinct (map fm_LocatorHash (mt_mappings (ps_Meta t)))"
    and "\<forall>r \<in> published_rows (ps_Meta t). norm_hash (fm_LocatorHash r) = fm_LocatorHash r"
proof -
  show "distinct (map fm_LocatorHash (mt_mappings (ps_Meta t)))" using assms by (simp add: ps_published_def ps_inv_def meta_inv_def)
  show "\<forall>r \<in> published_rows (ps_Meta t). norm_hash (fm_LocatorHash r) = fm_LocatorHash r"
  proof
    fix r assume "r \<in> published_rows (ps_Meta t)"
    then have "backed r (ps_Meta t)" using assms unfolding ps_published_def pub_inv_def by blast
    then show "norm_hash (fm_LocatorHash r) = fm_LocatorHash r" by (intro norm_canonical) (simp add: backed_def)
  qed
qed

lemma recovery_keeps_good_objects_witness:
  "\<exists>t out mt lh d g. store_run {sampleWire} sampleStore t \<and> ps_visible t lh = Some (d, g) \<and>
     RecoverFleetImports (\<lambda>_ _. False) (\<lambda>_ _ _. False) (ps_Files t) (ps_Meta t) = (None, out, mt) \<and> fr_MappingsQuarantined out = 0"
proof (rule sample_recovery)
  fix t out mt d g
  assume t: "store_run {sampleWire} sampleStore t" "ps_visible t (to_lower (wm_LocatorHash sampleWire)) = Some (d, g)"
    "RecoverFleetImports (\<lambda>_ _. False) (\<lambda>_ _ _. False) (ps_Files t) (ps_Meta t) = (None, out, mt)"
  have "\<forall>m \<in> {sampleWire}. \<forall>m' \<in> {sampleWire}. agrees m m'" by (simp add: agrees_def)
  from recovery_keeps_good_objects [OF sample_store(4) t(1) this t(3)] t show ?thesis by blast
qed

lemma recovery_leaves_only_intact_witness:
  "\<exists>t out mt. RecoverFleetImports (\<lambda>_ _. False) (\<lambda>_ _ _. False) Map.empty (ps_Meta t) = (None, out, mt) \<and>
     ps_published t \<and> published_rows (ps_Meta t) \<noteq> {} \<and> published_rows mt = {}"
proof (rule sample_recovery)
  fix t out0 mt0 d g
  assume t: "ps_published t" "ps_visible t (to_lower (wm_LocatorHash sampleWire)) = Some (d, g)"
  obtain q where "published_row (to_lower (wm_LocatorHash sampleWire)) (ps_Meta t) = Some q" using t(2) by (auto simp: ps_visible_def)
  then have q: "published_rows (ps_Meta t) \<noteq> {}" using published_status by blast
  have "\<forall>j \<in> set (mt_journal (ps_Meta t)). 0 < fj_ID j" using t(1) unfolding ps_published_def ps_inv_def meta_inv_def by blast
  moreover have "\<forall>r \<in> published_rows (ps_Meta t). length (norm_hash (fm_LocatorHash r)) = 64"
    using t(1) published_tidy(2) [OF t(1)] unfolding ps_published_def pub_inv_def backed_def by fastforce
  ultimately obtain out mt where R: "RecoverFleetImports (\<lambda>_ _. False) (\<lambda>_ _ _. False) Map.empty (ps_Meta t) = (None, out, mt)"
    using recovery_runs by blast
  note L = recovery_leaves_only_intact [OF R published_tidy [OF t(1)]]
  have "\<not> intact Map.empty i n mt" for i n by (fastforce simp: intact_def frame_intact_def neq_Nil_conv)
  then have "published_rows mt = {}" using L by blast
  then show ?thesis using R t(1) q by blast
qed

lemma recovery_idempotent_witness:
  "\<exists>(t :: PeerImportSink) out mt out'. published_rows (ps_Meta t) \<noteq> {} \<and>
     RecoverFleetImports (\<lambda>_ _. False) (\<lambda>_ _ _. False) Map.empty (ps_Meta t) = (None, out, mt) \<and>
     RecoverFleetImports (\<lambda>_ _. False) (\<lambda>_ _ _. False) Map.empty mt = (None, out', mt)"
proof (rule sample_recovery)
  fix t out0 mt0 d g
  assume t: "ps_published t" "ps_visible t (to_lower (wm_LocatorHash sampleWire)) = Some (d, g)"
  obtain q where "published_row (to_lower (wm_LocatorHash sampleWire)) (ps_Meta t) = Some q" using t(2) by (auto simp: ps_visible_def)
  then have q: "published_rows (ps_Meta t) \<noteq> {}" using published_status by blast
  have ids: "\<forall>j \<in> set (mt_journal (ps_Meta t)). 0 < fj_ID j" using t(1) unfolding ps_published_def ps_inv_def meta_inv_def by blast
  have len: "\<forall>r \<in> published_rows (ps_Meta t). length (norm_hash (fm_LocatorHash r)) = 64"
    using t(1) published_tidy(2) [OF t(1)] unfolding ps_published_def pub_inv_def backed_def by fastforce
  obtain out mt where R: "RecoverFleetImports (\<lambda>_ _. False) (\<lambda>_ _ _. False) Map.empty (ps_Meta t) = (None, out, mt)"
    using recovery_runs [OF ids len] by blast
  note rec = recovered [OF R published_tidy(2,1) [OF t(1)]]
  obtain A B where mt: "mt = quarantined B (aborted A (ps_Meta t))" by (rule RecoverFleetImports_effect [OF R])
  have "\<forall>j \<in> set (mt_journal mt). 0 < fj_ID j" using ids unfolding mt by (auto simp: aborted_def)
  moreover have "\<forall>r \<in> published_rows mt. length (norm_hash (fm_LocatorHash r)) = 64" using len rec(1) by blast
  ultimately obtain out' m2 where R2: "RecoverFleetImports (\<lambda>_ _. False) (\<lambda>_ _ _. False) Map.empty mt = (None, out', m2)"
    using recovery_runs by blast
  from recovery_idempotent [OF R R2 published_tidy [OF t(1)]] have e: "m2 = mt" by simp
  show ?thesis using q R R2 [unfolded e] by blast
qed

end
