(* ===== verification/FrameReader.thy ===== *)
theory FrameReader
  imports FleetRecover GoTime
begin

text \<open>
  Reading logs back from committed frames (\<open>internal/store/frame_reader.go\<close>, the queries of
  \<open>chunk_meta.go\<close>, \<open>ExportPureZstd\<close> of \<open>export_zstd.go\<close>). \<open>flt 0 j\<close> is whether query \<open>j\<close> of a read fails,
  \<open>flt (Suc k) 0\<close> whether the context is done before frame \<open>k\<close> and \<open>flt (Suc k) 1\<close> whether reading its file
  fails although it exists. A result that comes with an error carries no data.
\<close>

section \<open>Queries\<close>

definition ChunksIntersectingRaw :: "bool \<Rightarrow> int \<Rightarrow> int \<Rightarrow> int \<Rightarrow> Meta \<Rightarrow> apperr + Chunk list" where
  "ChunksIntersectingRaw fails generationID start en m =
     (if en < start then Inl (fc_bad ''end must be >= start'')
      else if start = en then Inr []
      else case ListChunks fails generationID m of Inl e \<Rightarrow> Inl e
      | Inr cks \<Rightarrow> Inr (filter (\<lambda>c. ch_RawEnd c > start \<and> ch_RawStart c < en) cks))"

definition ChunksIntersectingLines :: "bool \<Rightarrow> int \<Rightarrow> int \<Rightarrow> int \<Rightarrow> Meta \<Rightarrow> apperr + Chunk list" where
  "ChunksIntersectingLines fails generationID startLine endLine m =
     (if endLine < startLine then Inl (fc_bad ''endLine must be >= startLine'')
      else if startLine = endLine then Inr []
      else case ListChunks fails generationID m of Inl e \<Rightarrow> Inl e
      | Inr cks \<Rightarrow> Inr (filter (\<lambda>c. ch_LineEnd c > startLine \<and> ch_LineStart c < endLine) cks))"

text \<open>\<open>MAX(raw_end)\<close> and \<open>MAX(seq)\<close>; with no frames the offset of a released generation.\<close>

definition maxOf :: "int list \<Rightarrow> int option" where
  "maxOf xs = (case xs of [] \<Rightarrow> None | x # ys \<Rightarrow> Some (fold max ys x))"

definition DurableRawEnd :: "(nat \<Rightarrow> bool) \<Rightarrow> int \<Rightarrow> Meta \<Rightarrow> apperr + int" where
  "DurableRawEnd flt generationID m =
     (if flt 0 then Inl (newErr CodeCorruptCache ''failed to read durable raw end'')
      else case maxOf (map ch_RawEnd (chunksOf generationID m)) of Some e \<Rightarrow> Inr e
      | None \<Rightarrow>
      (case GetGenerationByID (flt 1) generationID m of Inl e \<Rightarrow> Inl e
       | Inr None \<Rightarrow> Inr 0
       | Inr (Some g) \<Rightarrow> if lg_L1Released g \<and> lg_JenkinsOffset g > 0 then Inr (lg_JenkinsOffset g) else Inr 0))"

definition NextChunkSeq :: "bool \<Rightarrow> int \<Rightarrow> Meta \<Rightarrow> apperr + int" where
  "NextChunkSeq fails generationID m =
     (if fails then Inl (newErr CodeCorruptCache ''failed to read next chunk seq'')
      else Inr (case maxOf (map ch_Seq (chunksOf generationID m)) of None \<Rightarrow> 0 | Some q \<Rightarrow> q + 1))"

section \<open>One frame\<close>

definition OpenFrameCompressed :: "bool \<Rightarrow> FrameCrypto option \<Rightarrow> FrameFiles \<Rightarrow> Chunk \<Rightarrow> apperr + string" where
  "OpenFrameCompressed fails co files c =
     (case FrameAbsPath (ch_RelPath c) of Inl e \<Rightarrow> Inl e
      | Inr path \<Rightarrow>
          if fails then Inl (newErr CodeInternal ''failed to read frame file'')
          else (case files path of None \<Rightarrow> Inl (newErr CodeCorruptCache ''frame file missing'')
          | Some onDisk \<Rightarrow>
              if ch_FrameSHA256 c \<noteq> [] \<and> hexSum onDisk \<noteq> ch_FrameSHA256 c then
                Inl (newErrf CodeCorruptCache ''frame checksum mismatch seq=%d'' [show_int (ch_Seq c)])
              else openToCompressed co (ch_GenerationID c) (ch_Seq c)
                     (if ch_FormatVersion c = 0 then FrameFormatVersion else ch_FormatVersion c) onDisk (ch_EncKeyVersion c)))"

definition decompressChunkFile ::
  "bool \<Rightarrow> (string \<Rightarrow> apperr + string) \<Rightarrow> FrameCrypto option \<Rightarrow> FrameFiles \<Rightarrow> Chunk \<Rightarrow> apperr + string" where
  "decompressChunkFile fails zstd co files c =
     (case OpenFrameCompressed fails co files c of Inl e \<Rightarrow> Inl e
      | Inr zstdBytes \<Rightarrow>
      (case zstd zstdBytes of Inl e \<Rightarrow> Inl (newErr CodeCorruptCache ''zstd decompress failed'')
      | Inr raw \<Rightarrow>
          if ch_UncompressedSize c > 0 \<and> int (length raw) \<noteq> ch_UncompressedSize c then
            Inl (newErrf CodeCorruptCache ''uncompressed size mismatch seq=%d: got %d want %d''
                   [show_int (ch_Seq c), show_int (int (length raw)), show_int (ch_UncompressedSize c)])
          else if ch_ContentSHA256 c \<noteq> [] \<and> hexSum raw \<noteq> ch_ContentSHA256 c then
            Inl (newErrf CodeCorruptCache ''content checksum mismatch seq=%d'' [show_int (ch_Seq c)])
          else Inr raw))"

record PureZstdExport =
  pe_Bytes :: string
  pe_Size :: int
  pe_SHA256 :: string
  pe_Seq :: int

definition ExportPureZstd :: "bool \<Rightarrow> FrameCrypto option \<Rightarrow> FrameFiles \<Rightarrow> Chunk \<Rightarrow> apperr + PureZstdExport" where
  "ExportPureZstd fails co files c =
     (case OpenFrameCompressed fails co files c of Inl e \<Rightarrow> Inl e
      | Inr z \<Rightarrow>
          if ch_ZstdSHA256 c \<noteq> [] \<and> \<not> hmacEqualHex (to_lower (ch_ZstdSHA256 c)) (hexSum z) then
            Inl (newErr CodeCorruptCache ''wire zstd checksum mismatch'')
          else if ch_ZstdSize c > 0 \<and> ch_ZstdSize c \<noteq> int (length z) then
            Inl (newErr CodeCorruptCache ''wire zstd size mismatch'')
          else Inr \<lparr> pe_Bytes = z, pe_Size = int (length z), pe_SHA256 = hexSum z, pe_Seq = ch_Seq c \<rparr>)"

section \<open>Byte ranges\<close>

record ReadResult =
  rx_Data :: string
  rx_Generation :: int
  rx_GenerationID :: int
  rx_RawStart :: int
  rx_RawEnd :: int
  rx_LineStart :: int
  rx_LineEnd :: int
  rx_RequestedBytes :: int
  rx_DecompressedBytes :: int
  rx_FramesOpened :: int
  rx_ContentSHA256 :: "string list"
  rx_Sealed :: bool

definition noRead :: ReadResult where
  "noRead = \<lparr> rx_Data = [], rx_Generation = 0, rx_GenerationID = 0, rx_RawStart = 0, rx_RawEnd = 0, rx_LineStart = 0, rx_LineEnd = 0,
     rx_RequestedBytes = 0, rx_DecompressedBytes = 0, rx_FramesOpened = 0, rx_ContentSHA256 = [], rx_Sealed = False \<rparr>"

record LogReader =
  rd_Meta :: Meta
  rd_Files :: FrameFiles
  rd_Crypto :: "FrameCrypto option"
  rd_Zstd :: "string \<Rightarrow> apperr + string"

definition decompressChunk :: "(nat \<Rightarrow> bool) \<Rightarrow> LogReader \<Rightarrow> Chunk \<Rightarrow> apperr + string" where
  "decompressChunk flt r c =
     (if flt 0 then Inl (newErr CodeCancelled ''context done'')
      else decompressChunkFile (flt 1) (rd_Zstd r) (rd_Crypto r) (rd_Files r) c)"

text \<open>A frame was opened.\<close>

definition opened :: "Chunk \<Rightarrow> string \<Rightarrow> ReadResult \<Rightarrow> ReadResult" where
  "opened c raw res = res\<lparr> rx_DecompressedBytes := rx_DecompressedBytes res + int (length raw),
     rx_FramesOpened := rx_FramesOpened res + 1, rx_ContentSHA256 := rx_ContentSHA256 res @ [ch_ContentSHA256 c] \<rparr>"

fun readLoop ::
  "(nat \<Rightarrow> nat \<Rightarrow> bool) \<Rightarrow> LogReader \<Rightarrow> int \<Rightarrow> int \<Rightarrow> nat \<Rightarrow> int \<Rightarrow> Chunk list \<Rightarrow> string \<Rightarrow> ReadResult \<Rightarrow>
    apperr option \<times> string \<times> ReadResult" where
  "readLoop flt r start en k expectRaw [] out res = (None, out, res)"
| "readLoop flt r start en k expectRaw (c # cs) out res =
     (if expectRaw \<ge> 0 \<and> ch_RawStart c \<noteq> expectRaw then
        (Some (newErrf CodeCorruptCache ''frame gap before seq %d: raw_start %d, expected %d (missing frame rows)''
                 [show_int (ch_Seq c), show_int (ch_RawStart c), show_int expectRaw]), out, res)
      else case decompressChunk (flt k) r c of Inl e \<Rightarrow> (Some e, out, res)
      | Inr raw \<Rightarrow>
          let res = opened c raw res;
              lo = (if ch_RawStart c > start then ch_RawStart c else start);
              hi = (if ch_RawEnd c < en then ch_RawEnd c else en) in
          if hi \<le> lo then readLoop flt r start en (Suc k) (ch_RawEnd c) cs out res
          else let from = lo - ch_RawStart c; upto = hi - ch_RawStart c in
            if from < 0 \<or> upto > int (length raw) \<or> from > upto then
              (Some (newErrf CodeCorruptCache ''frame %d size mismatch: meta %d file %d''
                       [show_int (ch_Seq c), show_int (ch_UncompressedSize c), show_int (int (length raw))]), out, res)
            else readLoop flt r start en (Suc k) (ch_RawEnd c) cs
                   (out @ take (nat (upto - from)) (drop (nat from) raw)) res)"

definition ReadRange ::
  "(nat \<Rightarrow> nat \<Rightarrow> bool) \<Rightarrow> LogReader \<Rightarrow> int \<Rightarrow> int \<Rightarrow> int \<Rightarrow> apperr option \<times> ReadResult" where
  "ReadRange flt r generationID start len =
     (if generationID \<le> 0 then (Some (fc_bad ''generation_id is required''), noRead)
      else if start < 0 then (Some (fc_bad ''start must be non-negative''), noRead)
      else if len < 0 then (Some (fc_bad ''length must be non-negative''), noRead)
      else let res = noRead\<lparr> rx_GenerationID := generationID, rx_RequestedBytes := len, rx_RawStart := start \<rparr> in
        if len = 0 then (None, res\<lparr> rx_RawEnd := start \<rparr>)
        else let en = wrap64 (start + len) in
          case ChunksIntersectingRaw (flt 0 0) generationID start en (rd_Meta r) of Inl e \<Rightarrow> (Some e, res)
          | Inr [] \<Rightarrow>
              (case DurableRawEnd (\<lambda>j. flt 0 (1 + j)) generationID (rd_Meta r) of Inl e \<Rightarrow> (Some e, res)
               | Inr durable \<Rightarrow>
                   if start \<ge> durable then (None, res\<lparr> rx_RawEnd := start \<rparr>)
                   else (Some (newErr CodeCorruptCache ''missing frames for requested range''), res))
          | Inr cks \<Rightarrow>
              (case readLoop (\<lambda>k. flt (Suc k)) r start en 0 (- 1) cks [] res of
                 (Some e, _, res) \<Rightarrow> (Some e, res)
               | (None, out, res) \<Rightarrow> (None, res\<lparr> rx_Data := out, rx_RawEnd := start + int (length out) \<rparr>)))"

definition TailBytes :: "(nat \<Rightarrow> nat \<Rightarrow> bool) \<Rightarrow> (nat \<Rightarrow> bool) \<Rightarrow> LogReader \<Rightarrow> int \<Rightarrow> int \<Rightarrow> apperr option \<times> ReadResult" where
  "TailBytes flt dflt r generationID n =
     (if n < 0 then (Some (fc_bad ''n must be non-negative''), noRead)
      else case DurableRawEnd dflt generationID (rd_Meta r) of Inl e \<Rightarrow> (Some e, noRead)
      | Inr durable \<Rightarrow>
          if durable = 0 \<or> n = 0 then (None, noRead\<lparr> rx_GenerationID := generationID, rx_RequestedBytes := n \<rparr>)
          else let start = (if durable - n < 0 then 0 else durable - n) in
            ReadRange flt r generationID start (durable - start))"

section \<open>Line ranges\<close>

text \<open>The frames of the range: their bytes, where these start, and the line of the first one.\<close>

fun lineSegs ::
  "(nat \<Rightarrow> nat \<Rightarrow> bool) \<Rightarrow> LogReader \<Rightarrow> nat \<Rightarrow> int \<Rightarrow> Chunk list \<Rightarrow> (string \<times> int \<times> int) list \<Rightarrow> ReadResult \<Rightarrow>
    apperr option \<times> (string \<times> int \<times> int) list \<times> ReadResult" where
  "lineSegs flt r k expectLine [] segs res = (None, segs, res)"
| "lineSegs flt r k expectLine (c # cs) segs res =
     (if expectLine \<ge> 0 \<and> ch_LineStart c > expectLine then
        (Some (newErrf CodeCorruptCache ''frame gap before seq %d: line_start %d beyond previous line_end %d (missing frame rows)''
                 [show_int (ch_Seq c), show_int (ch_LineStart c), show_int expectLine]), segs, res)
      else case decompressChunk (flt k) r c of Inl e \<Rightarrow> (Some e, segs, res)
      | Inr raw \<Rightarrow>
          lineSegs flt r (Suc k) (if ch_LineEnd c > expectLine then ch_LineEnd c else expectLine) cs
            (segs @ [(raw, ch_RawStart c, ch_LineStart c)]) (opened c raw res))"

record LineScan =
  ls_out :: string
  ls_curLine :: int
  ls_lineBuf :: string
  ls_emitted :: int
  ls_firstEmit :: bool
  ls_rawStart :: int
  ls_rawEnd :: int

definition flushLine :: "int \<Rightarrow> int \<Rightarrow> int \<Rightarrow> LineScan \<Rightarrow> LineScan" where
  "flushLine startLine endLine absEnd s =
     (let s1 = (if startLine \<le> ls_curLine s \<and> ls_curLine s < endLine then
                  s\<lparr> ls_rawStart := (if ls_firstEmit s then absEnd - int (length (ls_lineBuf s)) else ls_rawStart s),
                     ls_firstEmit := False, ls_out := ls_out s @ ls_lineBuf s, ls_rawEnd := absEnd,
                     ls_emitted := ls_emitted s + 1 \<rparr>
                else s) in
      s1\<lparr> ls_lineBuf := [], ls_curLine := ls_curLine s1 + 1 \<rparr>)"

text \<open>Both loops answer whether they were left by the jump past the last line.\<close>

fun scanBytes :: "int \<Rightarrow> int \<Rightarrow> int \<Rightarrow> string \<Rightarrow> LineScan \<Rightarrow> bool \<times> LineScan" where
  "scanBytes startLine endLine off [] s = (False, s)"
| "scanBytes startLine endLine off (b # bs) s =
     (let s1 = s\<lparr> ls_lineBuf := ls_lineBuf s @ [b] \<rparr> in
      if b = CHR 0x0A then
        (let s2 = flushLine startLine endLine (off + 1) s1 in
         if ls_curLine s2 \<ge> endLine then (True, s2) else scanBytes startLine endLine (off + 1) bs s2)
      else scanBytes startLine endLine (off + 1) bs s1)"

fun scanSegs :: "int \<Rightarrow> int \<Rightarrow> (string \<times> int \<times> int) list \<Rightarrow> LineScan \<Rightarrow> bool \<times> LineScan" where
  "scanSegs startLine endLine [] s = (False, s)"
| "scanSegs startLine endLine ((raw, rawStart, l) # segs) s =
     (case scanBytes startLine endLine rawStart raw s of
        (True, s') \<Rightarrow> (True, s') | (False, s') \<Rightarrow> scanSegs startLine endLine segs s')"

definition lineResult :: "int \<Rightarrow> LineScan \<Rightarrow> ReadResult \<Rightarrow> ReadResult" where
  "lineResult startLine s res =
     (let res = res\<lparr> rx_Data := ls_out s, rx_LineEnd := startLine + ls_emitted s,
                     rx_RequestedBytes := int (length (ls_out s)) \<rparr> in
      if ls_rawStart s \<ge> 0 then res\<lparr> rx_RawStart := ls_rawStart s, rx_RawEnd := ls_rawEnd s \<rparr> else res)"

definition extractLines :: "int \<Rightarrow> int \<Rightarrow> (string \<times> int \<times> int) list \<Rightarrow> LineScan" where
  "extractLines startLine endLine segs =
     (let s0 = \<lparr> ls_out = [], ls_curLine = snd (snd (hd segs)), ls_lineBuf = [], ls_emitted = 0, ls_firstEmit = True,
                 ls_rawStart = - 1, ls_rawEnd = 0 \<rparr> in
      case scanSegs startLine endLine segs s0 of (True, s) \<Rightarrow> s
      | (False, s) \<Rightarrow>
          if ls_lineBuf s \<noteq> [] then
            (case last segs of (raw, rawStart, l) \<Rightarrow> flushLine startLine endLine (rawStart + int (length raw)) s)
          else s)"

definition ReadLineRange ::
  "(nat \<Rightarrow> nat \<Rightarrow> bool) \<Rightarrow> LogReader \<Rightarrow> int \<Rightarrow> int \<Rightarrow> int \<Rightarrow> apperr option \<times> ReadResult" where
  "ReadLineRange flt r generationID startLine lineCount =
     (if generationID \<le> 0 then (Some (fc_bad ''generation_id is required''), noRead)
      else if startLine < 0 then (Some (fc_bad ''startLine must be non-negative''), noRead)
      else if lineCount < 0 then (Some (fc_bad ''lineCount must be non-negative''), noRead)
      else let res = noRead\<lparr> rx_GenerationID := generationID, rx_LineStart := startLine \<rparr> in
        if lineCount = 0 then (None, res\<lparr> rx_LineEnd := startLine \<rparr>)
        else let endLine = wrap64 (startLine + lineCount) in
          case ChunksIntersectingLines (flt 0 0) generationID startLine endLine (rd_Meta r) of Inl e \<Rightarrow> (Some e, res)
          | Inr [] \<Rightarrow> (None, res\<lparr> rx_LineEnd := startLine \<rparr>)
          | Inr cks \<Rightarrow>
              (case lineSegs (\<lambda>k. flt (Suc k)) r 0 (- 1) cks [] res of (Some e, _, res) \<Rightarrow> (Some e, res)
               | (None, segs, res) \<Rightarrow> (None, lineResult startLine (extractLines startLine endLine segs) res)))"

definition TailLines :: "(nat \<Rightarrow> nat \<Rightarrow> bool) \<Rightarrow> bool \<Rightarrow> LogReader \<Rightarrow> int \<Rightarrow> int \<Rightarrow> apperr option \<times> ReadResult" where
  "TailLines flt fails r generationID n =
     (if n < 0 then (Some (fc_bad ''n must be non-negative''), noRead)
      else if n = 0 then (None, noRead\<lparr> rx_GenerationID := generationID \<rparr>)
      else case ListChunks fails generationID (rd_Meta r) of Inl e \<Rightarrow> (Some e, noRead)
      | Inr [] \<Rightarrow> (None, noRead\<lparr> rx_GenerationID := generationID \<rparr>)
      | Inr cks \<Rightarrow>
          let startLine = ch_LineEnd (last cks) - n in
          ReadLineRange flt r generationID (if startLine < 0 then 0 else startLine) n)"

end
