(* ===== verification/FrameWriter.thy ===== *)
theory FrameWriter
  imports FrameReader
begin

text \<open>
  Streaming raw log bytes into independent frames (\<open>internal/store/frame_writer.go\<close>, \<open>findNewlineCut\<close> of
  \<open>frames.go\<close>). The compressor is an argument, like the decompressor. As in the import sink, each
  operation that can fail takes one function of faults and one nonce from the state, so that a theorem over
  all states is one over all failures.
\<close>

section \<open>Where to cut\<close>

definition DefaultTargetFrameBytes :: int where "DefaultTargetFrameBytes = 8 * 2 ^ 20"
definition MinTargetFrameBytes :: int where "MinTargetFrameBytes = 16"
definition NewlineLookback :: int where "NewlineLookback = 64 * 2 ^ 10"

text \<open>The loop down from the end of the buffer: the index after the last newline at or after \<open>lo\<close>.\<close>

definition cutAfterNewline :: "string \<Rightarrow> int \<Rightarrow> int option" where
  "cutAfterNewline buf lo =
     (case filter (\<lambda>i. buf ! i = CHR 0x0A) [nat lo..<length buf] of [] \<Rightarrow> None | is \<Rightarrow> Some (int (last is) + 1))"

definition findNewlineCut :: "string \<Rightarrow> int \<Rightarrow> int \<Rightarrow> int" where
  "findNewlineCut buf target0 maxBytes0 =
     (let maxBytes = (if maxBytes0 \<le> 0 then MaxFrameBytes else maxBytes0);
          target = (if target0 \<le> 0 then DefaultTargetFrameBytes else target0);
          n = int (length buf) in
      if n = 0 then - 1
      else if n \<ge> maxBytes then maxBytes
      else if n < target then - 1
      else let start = (if target - NewlineLookback < 0 then 0 else target - NewlineLookback);
               cutFrom = (if target - 1 < start then start else target - 1) in
        case cutAfterNewline buf cutFrom of Some c \<Rightarrow> c
        | None \<Rightarrow>
        (case cutAfterNewline buf start of Some c \<Rightarrow> c
         | None \<Rightarrow> if n \<ge> maxBytes then maxBytes else if n \<ge> target * 2 then n else - 1))"

section \<open>State\<close>

record openGen =
  og_generationID :: int
  og_buf :: string
  og_rawStart :: int
  og_durableEnd :: int
  og_nextSeq :: int
  og_lineAtRawStart :: int
  og_prevEndedNL :: bool

text \<open>\<open>fw_open\<close> is \<open>None\<close> once the store is closed.\<close>

record Frames =
  fw_Meta :: Meta
  fw_Files :: FrameFiles
  fw_TargetBytes :: int
  fw_MaxBytes :: int
  fw_Crypto :: "FrameCrypto option"
  fw_open :: "(int \<rightharpoonup> openGen) option"
  fw_Compress :: "string \<Rightarrow> string"
  fw_Zstd :: "string \<Rightarrow> apperr + string"
  fw_fault :: "nat \<Rightarrow> nat \<Rightarrow> bool"
  fw_nonce :: "nat \<Rightarrow> string"
  fw_calls :: nat

record AppendResult =
  ar_DurableEnd :: int
  ar_AcceptedEnd :: int
  ar_FramesCommitted :: int

abbreviation fw_faults :: "Frames \<Rightarrow> nat \<Rightarrow> bool" where "fw_faults f \<equiv> fw_fault f (fw_calls f)"

abbreviation fw_called :: "Frames \<Rightarrow> Frames" where "fw_called f \<equiv> f\<lparr> fw_calls := Suc (fw_calls f) \<rparr>"

definition frameTarget :: "Frames \<Rightarrow> int" where
  "frameTarget f =
     (let t = fw_TargetBytes f in
      if t \<le> 0 then DefaultTargetFrameBytes else if t < MinTargetFrameBytes then MinTargetFrameBytes else t)"

definition frameMax :: "Frames \<Rightarrow> int" where
  "frameMax f =
     (let m = fw_MaxBytes f in if m \<le> 0 then MaxFrameBytes else if m < frameTarget f then frameTarget f else m)"

definition resultLocked :: "openGen \<Rightarrow> AppendResult" where
  "resultLocked og = \<lparr> ar_DurableEnd = og_durableEnd og, ar_AcceptedEnd = og_rawStart og + int (length (og_buf og)),
     ar_FramesCommitted = 0 \<rparr>"

abbreviation noAppend :: AppendResult where
  "noAppend \<equiv> \<lparr> ar_DurableEnd = 0, ar_AcceptedEnd = 0, ar_FramesCommitted = 0 \<rparr>"

text \<open>What a pointer from the map stands for: the entry is replaced.\<close>

definition keepOpen :: "openGen \<Rightarrow> Frames \<Rightarrow> Frames" where
  "keepOpen og f = f\<lparr> fw_open := map_option (\<lambda>opn. opn(og_generationID og \<mapsto> og)) (fw_open f) \<rparr>"

section \<open>Opening a generation\<close>

definition lineCursorAfterChunk :: "bool \<Rightarrow> Frames \<Rightarrow> Chunk \<Rightarrow> apperr + bool \<times> int" where
  "lineCursorAfterChunk fails f c =
     (case decompressChunkFile fails (fw_Zstd f) (fw_Crypto f) (fw_Files f) c of Inl e \<Rightarrow> Inl e
      | Inr raw \<Rightarrow>
          if raw = [] then Inr (True, ch_LineStart c)
          else if last raw = CHR 0x0A then Inr (True, ch_LineEnd c) else Inr (False, ch_LineEnd c - 1))"

definition openFromStore :: "(nat \<Rightarrow> bool) \<Rightarrow> int \<Rightarrow> Frames \<Rightarrow> apperr + openGen" where
  "openFromStore flt generationID f =
     (case DurableRawEnd flt generationID (fw_Meta f) of Inl e \<Rightarrow> Inl e
      | Inr durable \<Rightarrow>
      (case NextChunkSeq (flt 2) generationID (fw_Meta f) of Inl e \<Rightarrow> Inl e
      | Inr seq \<Rightarrow>
          let og = \<lparr> og_generationID = generationID, og_buf = [], og_rawStart = durable, og_durableEnd = durable,
                     og_nextSeq = seq, og_lineAtRawStart = 0, og_prevEndedNL = True \<rparr> in
          if durable \<le> 0 then Inr og
          else (case ListChunks (flt 3) generationID (fw_Meta f) of Inl e \<Rightarrow> Inl e
          | Inr [] \<Rightarrow> Inr og
          | Inr cks \<Rightarrow>
              (case lineCursorAfterChunk (flt 4) f (last cks) of Inl e \<Rightarrow> Inl e
               | Inr (endedNL, lineOfNext) \<Rightarrow> Inr (og\<lparr> og_prevEndedNL := endedNL, og_lineAtRawStart := lineOfNext \<rparr>)))))"

definition ensureOpenFrames :: "int \<Rightarrow> Frames \<Rightarrow> (apperr + openGen) \<times> Frames" where
  "ensureOpenFrames generationID f =
     (case fw_open f of None \<Rightarrow> (Inl (newErr CodeInternal ''frames store is closed''), f)
      | Some opn \<Rightarrow>
      (case opn generationID of Some og \<Rightarrow> (Inr og, f)
      | None \<Rightarrow>
      (case openFromStore (fw_faults f) generationID f of Inl e \<Rightarrow> (Inl e, fw_called f)
      | Inr og \<Rightarrow> (Inr og, keepOpen og (fw_called f)))))"

section \<open>Committing a frame\<close>

definition frameChunk :: "openGen \<Rightarrow> string \<Rightarrow> LineCheckpoint list \<Rightarrow> int \<Rightarrow> string \<Rightarrow> string \<Rightarrow> string \<Rightarrow> int \<Rightarrow> Chunk" where
  "frameChunk og raw checkpoints lineEndExcl compressed onDisk encAlg encVer =
     \<lparr> ch_GenerationID = og_generationID og, ch_Seq = og_nextSeq og, ch_RawStart = og_rawStart og,
       ch_RawEnd = og_rawStart og + int (length raw), ch_LineStart = og_lineAtRawStart og, ch_LineEnd = lineEndExcl,
       ch_UncompressedSize = int (length raw), ch_CompressedSize = int (length onDisk), ch_ContentSHA256 = hexSum raw,
       ch_FrameSHA256 = hexSum onDisk, ch_ZstdSize = int (length compressed), ch_ZstdSHA256 = hexSum compressed,
       ch_RelPath = FrameRelPath (og_generationID og) (og_nextSeq og), ch_FormatVersion = FrameFormatVersion,
       ch_EncAlg = encAlg, ch_EncKeyVersion = encVer, ch_Checkpoints = checkpoints \<rparr>"

definition commitSliceLocked :: "openGen \<Rightarrow> int \<Rightarrow> Frames \<Rightarrow> apperr option \<times> openGen \<times> Frames" where
  "commitSliceLocked og n f =
     (if n \<le> 0 \<or> n > int (length (og_buf og)) then (Some (newErr CodeInternal ''invalid frame cut''), og, f)
      else let raw = take (nat n) (og_buf og); lineStart = og_lineAtRawStart og;
               firstIsLineStart = (og_prevEndedNL og \<or> og_rawStart og = 0); flt = fw_faults f in
      case walkLines raw (og_rawStart og) lineStart firstIsLineStart of (checkpoints, lineEndExcl, nextLineAt, endedNL) \<Rightarrow>
      if flt 0 then (Some (newErr CodeInternal ''failed to create zstd encoder''), og, fw_called f)
      else let compressed = fw_Compress f raw in
      (case sealCompressed (fw_Crypto f) (fw_nonce f (fw_calls f)) (og_generationID og) (og_nextSeq og) FrameFormatVersion compressed of
        Inl e \<Rightarrow> (Some e, og, fw_called f)
      | Inr (onDisk, encAlg, encVer) \<Rightarrow>
      (case FrameAbsPath (FrameRelPath (og_generationID og) (og_nextSeq og)) of Inl e \<Rightarrow> (Some e, og, fw_called f)
      | Inr path \<Rightarrow>
      (case writeFileAtomic (\<lambda>k. flt (1 + k)) path onDisk (fw_Files f) of
        (Some e, fs) \<Rightarrow> (Some e, og, (fw_called f)\<lparr> fw_Files := fs \<rparr>)
      | (None, fs) \<Rightarrow>
      (case InsertChunk (flt 3) (frameChunk og raw checkpoints lineEndExcl compressed onDisk encAlg encVer) (fw_Meta f) of
        (Some e, m) \<Rightarrow> (Some e, og, (fw_called f)\<lparr> fw_Files := fs, fw_Meta := m \<rparr>)
      | (None, m) \<Rightarrow>
          (None, og\<lparr> og_buf := drop (nat n) (og_buf og), og_rawStart := og_rawStart og + n,
                     og_durableEnd := og_rawStart og + n, og_nextSeq := og_nextSeq og + 1,
                     og_lineAtRawStart := nextLineAt, og_prevEndedNL := endedNL \<rparr>,
           (fw_called f)\<lparr> fw_Files := fs, fw_Meta := m \<rparr>))))))"

lemma commitSlice_buf:
  assumes "commitSliceLocked og n f = (None, og', f')"
  shows "og_buf og' = drop (nat n) (og_buf og)" and "0 < n" and "n \<le> int (length (og_buf og))"
  using assms by (auto simp: commitSliceLocked_def Let_def split: if_splits prod.splits sum.splits option.splits)

lemma commitSlice_shrinks:
  "commitSliceLocked og n f = (None, og', f') \<Longrightarrow> length (og_buf og') < length (og_buf og)"
  using commitSlice_buf [of og n f og' f'] by (cases "og_buf og = []") auto

section \<open>Append and flush\<close>

function appendLoop :: "openGen \<Rightarrow> int \<Rightarrow> Frames \<Rightarrow> apperr option \<times> int \<times> openGen \<times> Frames" where
  "appendLoop og committed f =
     (let cut = findNewlineCut (og_buf og) (frameTarget f) (frameMax f) in
      if cut < 0 then (None, committed, og, f)
      else case commitSliceLocked og cut f of
        (Some e, og', f') \<Rightarrow> (Some e, committed, og', f')
      | (None, og', f') \<Rightarrow> appendLoop og' (committed + 1) f')"
  by pat_completeness auto

termination
  by (relation "measure (\<lambda>(og, _, _). length (og_buf og))") (auto dest: commitSlice_shrinks [OF sym])

declare appendLoop.simps [simp del]

definition Append :: "int \<Rightarrow> string \<Rightarrow> Frames \<Rightarrow> apperr option \<times> AppendResult \<times> Frames" where
  "Append generationID data f =
     (if generationID \<le> 0 then (Some (fc_bad ''generation_id is required''), noAppend, f)
      else case ensureOpenFrames generationID f of (Inl e, f1) \<Rightarrow> (Some e, noAppend, f1)
      | (Inr og, f1) \<Rightarrow>
          if data = [] then (None, resultLocked og, f1)
          else (case appendLoop (og\<lparr> og_buf := og_buf og @ data \<rparr>) 0 f1 of
            (e, committed, og', f2) \<Rightarrow> (e, (resultLocked og')\<lparr> ar_FramesCommitted := committed \<rparr>, keepOpen og' f2)))"

definition Flush :: "int \<Rightarrow> Frames \<Rightarrow> apperr option \<times> AppendResult \<times> Frames" where
  "Flush generationID f =
     (if generationID \<le> 0 then (Some (fc_bad ''generation_id is required''), noAppend, f)
      else case ensureOpenFrames generationID f of (Inl e, f1) \<Rightarrow> (Some e, noAppend, f1)
      | (Inr og, f1) \<Rightarrow>
          if og_buf og = [] then (None, resultLocked og, f1)
          else (case commitSliceLocked og (int (length (og_buf og))) f1 of
            (Some e, og', f2) \<Rightarrow> (Some e, resultLocked og', keepOpen og' f2)
          | (None, og', f2) \<Rightarrow> (None, (resultLocked og')\<lparr> ar_FramesCommitted := 1 \<rparr>, keepOpen og' f2)))"

definition Forget :: "int \<Rightarrow> Frames \<Rightarrow> Frames" where
  "Forget generationID f = f\<lparr> fw_open := map_option (\<lambda>opn. opn(generationID := None)) (fw_open f) \<rparr>"

definition SetCrypto :: "FrameCrypto option \<Rightarrow> Frames \<Rightarrow> Frames" where
  "SetCrypto c f = f\<lparr> fw_Crypto := c \<rparr>"

definition CloseFrames :: "Frames \<Rightarrow> Frames" where "CloseFrames f = f\<lparr> fw_open := None \<rparr>"

abbreviation openOf :: "Frames \<Rightarrow> int \<Rightarrow> openGen option" where
  "openOf f g \<equiv> (case fw_open f of None \<Rightarrow> None | Some opn \<Rightarrow> opn g)"

definition AcceptedEnd :: "int \<Rightarrow> Frames \<Rightarrow> (apperr + int) \<times> Frames" where
  "AcceptedEnd generationID f =
     (case openOf f generationID of Some og \<Rightarrow> (Inr (og_rawStart og + int (length (og_buf og))), f)
      | None \<Rightarrow> (DurableRawEnd (\<lambda>j. fw_faults f (6 + j)) generationID (fw_Meta f), fw_called f))"

definition DurableEnd :: "int \<Rightarrow> Frames \<Rightarrow> (apperr + int) \<times> Frames" where
  "DurableEnd generationID f =
     (case openOf f generationID of Some og \<Rightarrow> (Inr (og_durableEnd og), f)
      | None \<Rightarrow> (DurableRawEnd (\<lambda>j. fw_faults f (6 + j)) generationID (fw_Meta f), fw_called f))"

definition ReaderOf :: "Frames \<Rightarrow> LogReader" where
  "ReaderOf f = \<lparr> rd_Meta = fw_Meta f, rd_Files = fw_Files f, rd_Crypto = fw_Crypto f, rd_Zstd = fw_Zstd f \<rparr>"

end
