(* ===== verification/LogMirror.thy ===== *)
theory LogMirror
  imports FrameWriter
begin

text \<open>
  The progressive log mirror (\<open>internal/logmirror/machine.go\<close>, \<open>types.go\<close>): a state machine that follows the
  console log of a build through bounded fetches, streams it into frames, detects rewritten logs and seals
  complete ones. The tables are those of the frame store. What the source answers is a function of the offset
  and the size it is asked for; the packs of released generations are an argument. A call is one step: the
  lock of its key is held throughout, and the coalescing of concurrent polls only shares results. A state
  that accompanies an error is not modelled.
\<close>

section \<open>Data\<close>

record LogKey =
  lk_Profile :: string
  lk_Job :: string
  lk_Build :: int

record Segment =
  sg_Data :: string
  sg_ReportedNextOffset :: int
  sg_MoreData :: bool
  sg_BuildComplete :: bool

record State =
  ms_Generation :: int
  ms_GenerationID :: int
  ms_CommittedOffset :: int
  ms_DurableOffset :: int
  ms_MoreData :: bool
  ms_BuildComplete :: bool
  ms_Sealed :: bool

definition noState :: State where
  "noState = \<lparr> ms_Generation = 0, ms_GenerationID = 0, ms_CommittedOffset = 0, ms_DurableOffset = 0, ms_MoreData = False,
     ms_BuildComplete = False, ms_Sealed = False \<rparr>"

definition DefaultFetchBytes :: int where "DefaultFetchBytes = 64 * 1024"

text \<open>\<open>mc_Frames\<close> also carries the tables; \<open>mc_HasFrames\<close> is whether the payload store is configured,
  \<open>mc_Packs\<close> the reads of ranges and tails from packs when an archive root is.\<close>

record Machine =
  mc_Frames :: Frames
  mc_HasFrames :: bool
  mc_HasReader :: bool
  mc_Packs :: "((LogGeneration \<Rightarrow> int \<Rightarrow> int \<Rightarrow> apperr option \<times> ReadResult) \<times>
                (LogGeneration \<Rightarrow> int \<Rightarrow> apperr option \<times> ReadResult)) option"
  mc_FetchBytes :: int
  mc_bytesFetched :: "LogKey \<Rightarrow> int"

definition KeyValidate :: "LogKey \<Rightarrow> apperr option" where
  "KeyValidate key = LogKey_Validate (lk_Profile key) (lk_Job key) (lk_Build key)"

section \<open>The tables\<close>

definition latestGen :: "LogKey \<Rightarrow> Machine \<Rightarrow> (apperr + LogGeneration option) \<times> Machine" where
  "latestGen key mc =
     (let f = mc_Frames mc in
      (GetLatestGeneration (fw_faults f 0) (lk_Profile key) (lk_Job key) (lk_Build key) (fw_Meta f), mc\<lparr> mc_Frames := fw_called f \<rparr>))"

definition insertGen :: "LogGeneration \<Rightarrow> Machine \<Rightarrow> (apperr + int) \<times> Machine" where
  "insertGen g mc =
     (let f = mc_Frames mc in
      case InsertGeneration (fw_faults f 0) g (fw_Meta f) of (r, m) \<Rightarrow> (r, mc\<lparr> mc_Frames := (fw_called f)\<lparr> fw_Meta := m \<rparr> \<rparr>))"

definition updateOffset :: "int \<Rightarrow> int \<Rightarrow> bool \<Rightarrow> bool \<Rightarrow> bool \<Rightarrow> Machine \<Rightarrow> apperr option \<times> Machine" where
  "updateOffset i offset mor complete sealed mc =
     (let f = mc_Frames mc in
      case UpdateGenerationOffset (fw_faults f 0) i offset mor complete sealed (fw_Meta f) of
        (e, m) \<Rightarrow> (e, mc\<lparr> mc_Frames := (fw_called f)\<lparr> fw_Meta := m \<rparr> \<rparr>))"

definition sealGen :: "int \<Rightarrow> Machine \<Rightarrow> apperr option \<times> Machine" where
  "sealGen i mc =
     (let f = mc_Frames mc in
      case SealGeneration (fw_faults f 0) i (fw_Meta f) of (e, m) \<Rightarrow> (e, mc\<lparr> mc_Frames := (fw_called f)\<lparr> fw_Meta := m \<rparr> \<rparr>))"

definition flushGen :: "int \<Rightarrow> Machine \<Rightarrow> apperr option \<times> AppendResult \<times> Machine" where
  "flushGen i mc = (case Flush i (mc_Frames mc) of (e, res, f) \<Rightarrow> (e, res, mc\<lparr> mc_Frames := f \<rparr>))"

definition freshGeneration :: "LogKey \<Rightarrow> int \<Rightarrow> LogGeneration" where
  "freshGeneration key n =
     \<lparr> lg_ID = 0, lg_Profile = lk_Profile key, lg_Job = lk_Job key, lg_Build = lk_Build key, lg_Generation = n,
       lg_Sealed = False, lg_JenkinsOffset = 0, lg_MoreData = True, lg_BuildComplete = False,
       lg_PackedPackID = [], lg_L1Released = False \<rparr>"

definition resetBytes :: "LogKey \<Rightarrow> Machine \<Rightarrow> Machine" where
  "resetBytes key mc = mc\<lparr> mc_bytesFetched := (mc_bytesFetched mc)(key := 0) \<rparr>"

definition addBytes :: "LogKey \<Rightarrow> int \<Rightarrow> Machine \<Rightarrow> Machine" where
  "addBytes key n mc = mc\<lparr> mc_bytesFetched := (mc_bytesFetched mc)(key := mc_bytesFetched mc key + n) \<rparr>"

section \<open>States of a generation\<close>

definition genState :: "LogGeneration \<Rightarrow> State" where
  "genState g =
     \<lparr> ms_Generation = lg_Generation g, ms_GenerationID = lg_ID g, ms_CommittedOffset = lg_JenkinsOffset g,
       ms_DurableOffset = lg_JenkinsOffset g, ms_MoreData = lg_MoreData g, ms_BuildComplete = lg_BuildComplete g,
       ms_Sealed = lg_Sealed g \<rparr>"

definition stateFromGen :: "LogGeneration \<Rightarrow> Machine \<Rightarrow> State \<times> Machine" where
  "stateFromGen g mc =
     (let st = genState g in
      if \<not> (mc_HasFrames mc \<and> lg_ID g > 0 \<and> \<not> lg_Sealed g) then (st, mc)
      else case AcceptedEnd (lg_ID g) (mc_Frames mc) of (acc, f1) \<Rightarrow>
           case DurableEnd (lg_ID g) f1 of (dur, f2) \<Rightarrow>
             (st\<lparr> ms_CommittedOffset := (case acc of Inr a \<Rightarrow> if a > ms_CommittedOffset st then a else ms_CommittedOffset st
                                                  | Inl _ \<Rightarrow> ms_CommittedOffset st),
                  ms_DurableOffset := (case dur of Inr d \<Rightarrow> d | Inl _ \<Rightarrow> ms_DurableOffset st) \<rparr>, mc\<lparr> mc_Frames := f2 \<rparr>))"

definition okState :: "State \<times> Machine \<Rightarrow> (apperr + State) \<times> Machine" where
  "okState p = (Inr (fst p), snd p)"

definition LogState :: "LogKey \<Rightarrow> Machine \<Rightarrow> (apperr + State) \<times> Machine" where
  "LogState key mc =
     (case KeyValidate key of Some e \<Rightarrow> (Inl e, mc)
      | None \<Rightarrow>
      (case latestGen key mc of (Inl e, mc1) \<Rightarrow> (Inl e, mc1)
       | (Inr None, mc1) \<Rightarrow> (Inr noState, mc1)
       | (Inr (Some g), mc1) \<Rightarrow> okState (stateFromGen g mc1)))"

definition openLog :: "LogKey \<Rightarrow> Machine \<Rightarrow> (apperr + State) \<times> Machine" where
  "openLog key mc =
     (case latestGen key mc of (Inl e, mc1) \<Rightarrow> (Inl e, mc1)
      | (Inr (Some g), mc1) \<Rightarrow> okState (stateFromGen g mc1)
      | (Inr None, mc1) \<Rightarrow>
          (case insertGen (freshGeneration key 1) mc1 of (Inl e, mc2) \<Rightarrow> (Inl e, mc2)
           | (Inr i, mc2) \<Rightarrow> okState (stateFromGen ((freshGeneration key 1)\<lparr> lg_ID := i \<rparr>) (resetBytes key mc2))))"

section \<open>A new generation\<close>

definition needsNewGeneration :: "int \<Rightarrow> Segment \<Rightarrow> bool" where
  "needsNewGeneration committed seg \<longleftrightarrow>
     sg_ReportedNextOffset seg \<ge> 0 \<and> committed > 0 \<and> sg_ReportedNextOffset seg < committed"

text \<open>The open generation is given up: flushed as far as possible and sealed at its durable end.\<close>

definition abandon :: "LogGeneration \<Rightarrow> Machine \<Rightarrow> Machine" where
  "abandon g mc =
     (let mc1 = (if mc_HasFrames mc then
                   (case flushGen (lg_ID g) mc of (_, _, mc') \<Rightarrow> mc'\<lparr> mc_Frames := Forget (lg_ID g) (mc_Frames mc') \<rparr>)
                 else mc);
          (off, mc2) = (if mc_HasFrames mc then
                          (case DurableEnd (lg_ID g) (mc_Frames mc1) of
                             (Inr d, f) \<Rightarrow> (d, mc1\<lparr> mc_Frames := f \<rparr>)
                           | (Inl _, f) \<Rightarrow> (lg_JenkinsOffset g, mc1\<lparr> mc_Frames := f \<rparr>))
                        else (lg_JenkinsOffset g, mc1)) in
      case updateOffset (lg_ID g) off False True True mc2 of
        (None, mc3) \<Rightarrow> mc3 | (Some _, mc3) \<Rightarrow> snd (sealGen (lg_ID g) mc3))"

definition startNewGeneration :: "LogKey \<Rightarrow> int \<Rightarrow> Machine \<Rightarrow> (apperr + State) \<times> Machine" where
  "startNewGeneration key prevGeneration mc =
     (case latestGen key mc of (Inl e, mc1) \<Rightarrow> (Inl e, mc1)
      | (Inr prev, mc1) \<Rightarrow>
          let mc2 = (case prev of None \<Rightarrow> mc1 | Some g \<Rightarrow> if lg_Sealed g then mc1 else abandon g mc1);
              next = prevGeneration + 1;
              next = (case prev of None \<Rightarrow> next | Some g \<Rightarrow> if lg_Generation g \<ge> next then lg_Generation g + 1 else next);
              g = freshGeneration key next in
          (case insertGen g mc2 of (Inl e, mc3) \<Rightarrow> (Inl e, mc3)
           | (Inr i, mc3) \<Rightarrow> okState (stateFromGen (g\<lparr> lg_ID := i \<rparr>) (resetBytes key mc3))))"

section \<open>Appending a segment\<close>

text \<open>Nothing new: the flags are refreshed, and a complete log is flushed and sealed.\<close>

definition appendEmpty :: "State \<Rightarrow> Segment \<Rightarrow> Machine \<Rightarrow> (apperr + State) \<times> Machine" where
  "appendEmpty st seg mc =
     (let mor = (if sg_ReportedNextOffset seg > ms_CommittedOffset st then True else sg_MoreData seg);
          complete = (sg_BuildComplete seg \<or> ms_BuildComplete st);
          persist = (\<lambda>st mc.
            case updateOffset (ms_GenerationID st) (if mc_HasFrames mc then ms_DurableOffset st else ms_CommittedOffset st)
                   mor complete (complete \<and> \<not> mor) mc of
              (Some e, mc') \<Rightarrow> (Inl e, mc')
            | (None, mc') \<Rightarrow> (Inr (st\<lparr> ms_MoreData := mor, ms_BuildComplete := complete, ms_Sealed := (complete \<and> \<not> mor) \<rparr>), mc')) in
      if complete \<and> \<not> mor \<and> mc_HasFrames mc then
        (case flushGen (ms_GenerationID st) mc of (Some e, _, mc1) \<Rightarrow> (Inl e, mc1)
         | (None, res, mc1) \<Rightarrow>
             persist (st\<lparr> ms_DurableOffset := (if ar_DurableEnd res > ms_DurableOffset st then ar_DurableEnd res else ms_DurableOffset st),
                         ms_CommittedOffset := (if ar_AcceptedEnd res = 0 then ar_DurableEnd res else ar_AcceptedEnd res) \<rparr>) mc1)
      else persist st mc)"

text \<open>New bytes: durable frames, accepted end and an error of the frame store, with the tail flushed on sealing.\<close>

definition appendFrames :: "State \<Rightarrow> string \<Rightarrow> bool \<Rightarrow> int \<Rightarrow> Machine \<Rightarrow> apperr option \<times> int \<times> int \<times> Machine" where
  "appendFrames st data seal nextAccepted mc =
     (case Append (ms_GenerationID st) data (mc_Frames mc) of (e, res, f1) \<Rightarrow>
        let durable = (if ar_DurableEnd res > ms_DurableOffset st then ar_DurableEnd res else ms_DurableOffset st);
            nextAccepted = (if ar_AcceptedEnd res > 0 then ar_AcceptedEnd res else nextAccepted);
            mc1 = mc\<lparr> mc_Frames := f1 \<rparr> in
        if e \<noteq> None \<or> \<not> seal then (e, durable, nextAccepted, mc1)
        else case flushGen (ms_GenerationID st) mc1 of (e, res, mc2) \<Rightarrow>
          (e, (if ar_DurableEnd res > durable then ar_DurableEnd res else durable),
           (if ar_AcceptedEnd res > 0 then ar_AcceptedEnd res else nextAccepted), mc2))"

definition appendBody :: "LogKey \<Rightarrow> State \<Rightarrow> Segment \<Rightarrow> Machine \<Rightarrow> (apperr + State) \<times> Machine" where
  "appendBody key st seg mc =
     (let n = int (length (sg_Data seg)); nextAccepted = ms_CommittedOffset st + n in
      if sg_ReportedNextOffset seg \<ge> 0 \<and> sg_ReportedNextOffset seg < nextAccepted then
        startNewGeneration key (ms_Generation st) mc
      else
        let mor = sg_MoreData seg;
            mor = (if sg_ReportedNextOffset seg > nextAccepted then True else mor);
            mor = (if sg_ReportedNextOffset seg = nextAccepted \<and> \<not> sg_MoreData seg then False else mor);
            complete = (sg_BuildComplete seg \<or> ms_BuildComplete st);
            (e, durable, nextAccepted, mc1) =
              (if mc_HasFrames mc then appendFrames st (sg_Data seg) (complete \<and> \<not> mor) nextAccepted mc
               else (None, nextAccepted, nextAccepted, mc)) in
        case e of
          Some x \<Rightarrow> (Inl x, snd (updateOffset (ms_GenerationID st) durable mor complete False mc1))
        | None \<Rightarrow>
            (case updateOffset (ms_GenerationID st) durable mor complete (complete \<and> \<not> mor) mc1 of
               (Some x, mc2) \<Rightarrow> (Inl x, mc2)
             | (None, mc2) \<Rightarrow>
                 (Inr (st\<lparr> ms_CommittedOffset := nextAccepted, ms_DurableOffset := durable, ms_MoreData := mor,
                          ms_BuildComplete := complete, ms_Sealed := (complete \<and> \<not> mor) \<rparr>), addBytes key n mc2)))"

definition appendLocked :: "LogKey \<Rightarrow> Segment \<Rightarrow> Machine \<Rightarrow> (apperr + State) \<times> Machine" where
  "appendLocked key seg0 mc =
     (case openLog key mc of (Inl e, mc1) \<Rightarrow> (Inl e, mc1)
      | (Inr st, mc1) \<Rightarrow>
          let seg = (if sg_Data seg0 \<noteq> [] \<and> sg_ReportedNextOffset seg0 = 0 then seg0\<lparr> sg_ReportedNextOffset := - 1 \<rparr> else seg0) in
          if ms_Sealed st then
            (if sg_Data seg = [] \<and> \<not> sg_MoreData seg then (Inr st, mc1) else startNewGeneration key (ms_Generation st) mc1)
          else if needsNewGeneration (ms_CommittedOffset st) seg then startNewGeneration key (ms_Generation st) mc1
          else if sg_Data seg = [] then appendEmpty st seg mc1
          else appendBody key st seg mc1)"

definition LogAppend :: "LogKey \<Rightarrow> Segment \<Rightarrow> Machine \<Rightarrow> (apperr + State) \<times> Machine" where
  "LogAppend key seg mc = (case KeyValidate key of Some e \<Rightarrow> (Inl e, mc) | None \<Rightarrow> appendLocked key seg mc)"

section \<open>Poll and seal\<close>

text \<open>What the source answers for an offset and a size: bytes, total size or -1, more to come.\<close>

type_synonym Source = "int \<Rightarrow> int \<Rightarrow> apperr + string \<times> int \<times> bool"

definition pollOnce :: "Source \<Rightarrow> LogKey \<Rightarrow> bool \<Rightarrow> Machine \<Rightarrow> (apperr + State) \<times> Machine" where
  "pollOnce source key buildComplete mc =
     (case openLog key mc of (Inl e, mc1) \<Rightarrow> (Inl e, mc1)
      | (Inr st, mc1) \<Rightarrow>
          if ms_Sealed st then (Inr st, mc1)
          else (case source (ms_CommittedOffset st) (if mc_FetchBytes mc \<le> 0 then DefaultFetchBytes else mc_FetchBytes mc) of
            Inl e \<Rightarrow> (Inl e, mc1)
          | Inr (data, reportedNext, mor) \<Rightarrow>
              appendLocked key \<lparr> sg_Data = data, sg_ReportedNextOffset = reportedNext, sg_MoreData = mor,
                                sg_BuildComplete = buildComplete \<rparr> mc1))"

definition Poll :: "Source option \<Rightarrow> LogKey \<Rightarrow> bool \<Rightarrow> Machine \<Rightarrow> (apperr + State) \<times> Machine" where
  "Poll source key buildComplete mc =
     (case KeyValidate key of Some e \<Rightarrow> (Inl e, mc)
      | None \<Rightarrow>
      (case source of None \<Rightarrow> (Inl (newErr CodeInternal ''progressive source is not configured''), mc)
       | Some src \<Rightarrow> pollOnce src key buildComplete mc))"

definition sealLocked :: "LogKey \<Rightarrow> Machine \<Rightarrow> (apperr + State) \<times> Machine" where
  "sealLocked key mc =
     (case latestGen key mc of (Inl e, mc1) \<Rightarrow> (Inl e, mc1)
      | (Inr None, mc1) \<Rightarrow> (Inl (newErr CodeNotFound ''no log generation to seal''), mc1)
      | (Inr (Some g), mc1) \<Rightarrow>
          if lg_Sealed g then okState (stateFromGen g mc1)
          else if lg_MoreData g then
            (Inl (fc_bad ''cannot seal generation while more_data is true''), snd (stateFromGen g mc1))
          else let (e, off, mc2) = (if \<not> mc_HasFrames mc1 then (None, lg_JenkinsOffset g, mc1)
                    else (case flushGen (lg_ID g) mc1 of (Some e, _, mc') \<Rightarrow> (Some e, lg_JenkinsOffset g, mc')
                          | (None, res, mc') \<Rightarrow>
                              if ar_DurableEnd res > lg_JenkinsOffset g then
                                (case updateOffset (lg_ID g) (ar_DurableEnd res) False True False mc' of
                                   (e, mc'') \<Rightarrow> (e, ar_DurableEnd res, mc''))
                              else (None, lg_JenkinsOffset g, mc'))) in
            (case e of Some x \<Rightarrow> (Inl x, mc2)
            | None \<Rightarrow>
                (case sealGen (lg_ID g) mc2 of (Some x, mc3) \<Rightarrow> (Inl x, mc3)
                 | (None, mc3) \<Rightarrow>
                     okState (stateFromGen (g\<lparr> lg_JenkinsOffset := off, lg_Sealed := True, lg_MoreData := False,
                                              lg_BuildComplete := True \<rparr>) mc3))))"

definition LogSeal :: "LogKey \<Rightarrow> Machine \<Rightarrow> (apperr + State) \<times> Machine" where
  "LogSeal key mc = (case KeyValidate key of Some e \<Rightarrow> (Inl e, mc) | None \<Rightarrow> sealLocked key mc)"

section \<open>Reading\<close>

text \<open>A read of the latest generation: from its frames, or from its pack once these are released.\<close>

definition ofGeneration :: "LogGeneration \<Rightarrow> apperr option \<times> ReadResult \<Rightarrow> apperr option \<times> ReadResult" where
  "ofGeneration g p =
     (case p of (Some e, res) \<Rightarrow> (Some e, res)
      | (None, res) \<Rightarrow> (None, res\<lparr> rx_Generation := lg_Generation g, rx_GenerationID := lg_ID g, rx_Sealed := lg_Sealed g \<rparr>))"

definition latestForRead :: "bool \<Rightarrow> LogKey \<Rightarrow> Machine \<Rightarrow> apperr + LogGeneration" where
  "latestForRead fails key mc =
     (case KeyValidate key of Some e \<Rightarrow> Inl e
      | None \<Rightarrow>
      (case GetLatestGeneration fails (lk_Profile key) (lk_Job key) (lk_Build key) (fw_Meta (mc_Frames mc)) of
         Inl e \<Rightarrow> Inl e | Inr None \<Rightarrow> Inl (newErr CodeNotFound ''no log generation'') | Inr (Some g) \<Rightarrow> Inr g))"

definition noReader :: "apperr option \<times> ReadResult" where
  "noReader = (Some (newErr CodeInternal ''log reader is not configured''), noRead)"

definition readPack :: "Machine \<Rightarrow> LogGeneration \<Rightarrow> int \<Rightarrow> int \<Rightarrow> apperr option \<times> ReadResult" where
  "readPack mc g start len =
     (case mc_Packs mc of None \<Rightarrow> (Some (newErr CodeInternal ''L1 released but archive root is not configured for L2 fallback''), noRead)
      | Some (rng, _) \<Rightarrow> rng g start len)"

definition MirrorReadRange :: "(nat \<Rightarrow> nat \<Rightarrow> bool) \<Rightarrow> bool \<Rightarrow> LogKey \<Rightarrow> int \<Rightarrow> int \<Rightarrow> Machine \<Rightarrow> apperr option \<times> ReadResult" where
  "MirrorReadRange flt fails key start len mc =
     (case latestForRead fails key mc of Inl e \<Rightarrow> (Some e, noRead)
      | Inr g \<Rightarrow>
          if lg_L1Released g then readPack mc g start len
          else if \<not> mc_HasReader mc then noReader
          else ofGeneration g (ReadRange flt (ReaderOf (mc_Frames mc)) (lg_ID g) start len))"

definition tailPack :: "Machine \<Rightarrow> LogGeneration \<Rightarrow> int \<Rightarrow> apperr option \<times> ReadResult" where
  "tailPack mc g n =
     (case mc_Packs mc of None \<Rightarrow> (Some (newErr CodeInternal ''L1 released but archive root is not configured for L2 fallback''), noRead)
      | Some (_, tail) \<Rightarrow> tail g n)"

definition MirrorTailBytes ::
  "(nat \<Rightarrow> nat \<Rightarrow> bool) \<Rightarrow> (nat \<Rightarrow> bool) \<Rightarrow> bool \<Rightarrow> LogKey \<Rightarrow> int \<Rightarrow> Machine \<Rightarrow> apperr option \<times> ReadResult" where
  "MirrorTailBytes flt dflt fails key n mc =
     (case latestForRead fails key mc of Inl e \<Rightarrow> (Some e, noRead)
      | Inr g \<Rightarrow>
          if lg_L1Released g then tailPack mc g n
          else if \<not> mc_HasReader mc then noReader
          else ofGeneration g (TailBytes flt dflt (ReaderOf (mc_Frames mc)) (lg_ID g) n))"

definition MirrorReadLineRange :: "(nat \<Rightarrow> nat \<Rightarrow> bool) \<Rightarrow> bool \<Rightarrow> LogKey \<Rightarrow> int \<Rightarrow> int \<Rightarrow> Machine \<Rightarrow> apperr option \<times> ReadResult" where
  "MirrorReadLineRange flt fails key startLine count mc =
     (case KeyValidate key of Some e \<Rightarrow> (Some e, noRead)
      | None \<Rightarrow>
          if \<not> mc_HasReader mc then noReader
          else (case latestForRead fails key mc of Inl e \<Rightarrow> (Some e, noRead)
            | Inr g \<Rightarrow> ofGeneration g (ReadLineRange flt (ReaderOf (mc_Frames mc)) (lg_ID g) startLine count)))"

definition MirrorTailLines :: "(nat \<Rightarrow> nat \<Rightarrow> bool) \<Rightarrow> bool \<Rightarrow> bool \<Rightarrow> LogKey \<Rightarrow> int \<Rightarrow> Machine \<Rightarrow> apperr option \<times> ReadResult" where
  "MirrorTailLines flt lfails fails key n mc =
     (case KeyValidate key of Some e \<Rightarrow> (Some e, noRead)
      | None \<Rightarrow>
          if \<not> mc_HasReader mc then noReader
          else (case latestForRead fails key mc of Inl e \<Rightarrow> (Some e, noRead)
            | Inr g \<Rightarrow> ofGeneration g (TailLines flt lfails (ReaderOf (mc_Frames mc)) (lg_ID g) n)))"

section \<open>Snapshots\<close>

definition AppendSnapshot :: "(nat \<Rightarrow> nat \<Rightarrow> bool) \<Rightarrow> bool \<Rightarrow> LogKey \<Rightarrow> Segment \<Rightarrow> Machine \<Rightarrow> (apperr + State) \<times> Machine" where
  "AppendSnapshot flt fails key seg mc =
     (case KeyValidate key of Some e \<Rightarrow> (Inl e, mc)
      | None \<Rightarrow>
      (case openLog key mc of (Inl e, mc1) \<Rightarrow> (Inl e, mc1)
       | (Inr st, mc1) \<Rightarrow>
           let finish = (\<lambda>mc2. case appendLocked key seg mc2 of (Inl e, mc3) \<Rightarrow> (Inl e, mc3)
                 | (Inr st', mc3) \<Rightarrow>
                     if \<not> ms_MoreData st' \<and> ms_BuildComplete st' \<and> \<not> ms_Sealed st' then sealLocked key mc3 else (Inr st', mc3)) in
           if \<not> ms_Sealed st then finish mc1
           else if (case MirrorReadRange flt fails key 0 (int (length (sg_Data seg)) + 1) mc1 of
                      (e, rr) \<Rightarrow> e = None \<and> rx_Data rr = sg_Data seg) then (Inr st, mc1)
           else (case startNewGeneration key (ms_Generation st) mc1 of (Inl e, mc2) \<Rightarrow> (Inl e, mc2)
             | (Inr _, mc2) \<Rightarrow> finish mc2)))"

end
