(* ===== verification/LogAccess.thy ===== *)
theory LogAccess
  imports LogMirror
begin

text \<open>
  What the tools use of the log mirror (\<open>internal/logmirror/access.go\<close>, \<open>stagekey.go\<close>, the single-log part of
  \<open>collection.go\<close>): mirroring a log within budgets, reading ranges and tails of the mirrored frames, pushing
  stage logs, and the members and outcomes of a collection. What the world answers is a function of the number
  of the poll; telemetry, peers and fill leases are not part of it.
\<close>

section \<open>Options\<close>

record EnsureOptions =
  eo_MaxBytes :: int
  eo_MaxPolls :: int
  eo_Status :: "(nat \<Rightarrow> apperr + bool) option"
  eo_TotalCounter :: bool
  eo_TotalLimit :: int
  eo_OnBudgetHit :: bool

definition normalizeOptions :: "EnsureOptions \<Rightarrow> EnsureOptions" where
  "normalizeOptions opt =
     opt\<lparr> eo_MaxBytes := (if eo_MaxBytes opt \<le> 0 then 16 * 2 ^ 20 else eo_MaxBytes opt),
          eo_MaxPolls := (if eo_MaxPolls opt \<le> 0 then 256 else eo_MaxPolls opt) \<rparr>"

datatype ctxErr = CtxCanceled | CtxDeadline

text \<open>Context errors as \<open>apperr\<close> classifies them.\<close>

definition ctxError :: "ctxErr \<Rightarrow> apperr" where
  "ctxError c = (case c of CtxCanceled \<Rightarrow> newErr CodeCancelled ''context canceled''
     | CtxDeadline \<Rightarrow> newErr CodeTimeout ''context deadline exceeded'')"

definition mapCancel :: "apperr \<Rightarrow> apperr" where
  "mapCancel e = (if err_code e = CodeCancelled \<or> err_code e = CodeTimeout then e else newErr CodeCancelled ''collection stopped'')"

text \<open>Before poll \<open>k\<close>: the state of the context and what other logs added to the shared counter; for it:
  what the source answers.\<close>

record World =
  w_ctx :: "nat \<Rightarrow> ctxErr option"
  w_others :: "nat \<Rightarrow> int"
  w_source :: "(nat \<Rightarrow> Source) option"

text \<open>The machine, the shared counter, and whether \<open>OnBudgetHit\<close> was called.\<close>

record EnsureRun =
  en_Machine :: Machine
  en_Total :: int
  en_Hit :: bool

abbreviation bytesOf :: "LogKey \<Rightarrow> EnsureRun \<Rightarrow> int" where
  "bytesOf key run \<equiv> mc_bytesFetched (en_Machine run) key"

section \<open>Mirroring one log\<close>

definition flushPartial :: "State \<Rightarrow> State \<Rightarrow> Machine \<Rightarrow> State \<times> Machine" where
  "flushPartial lst fallback mc =
     (let st = (if ms_GenerationID lst = 0 then fallback else lst) in
      if \<not> mc_HasFrames mc \<or> ms_GenerationID st = 0 then (st, mc)
      else case flushGen (ms_GenerationID st) mc of (Some _, _, mc1) \<Rightarrow> (st, mc1)
      | (None, res, mc1) \<Rightarrow>
          let st1 = st\<lparr> ms_DurableOffset := (if ar_DurableEnd res > ms_DurableOffset st then ar_DurableEnd res else ms_DurableOffset st),
                       ms_CommittedOffset := (if ar_AcceptedEnd res > ms_CommittedOffset st then ar_AcceptedEnd res
                                              else ms_CommittedOffset st) \<rparr> in
          if ms_DurableOffset st1 > 0 then
            (st1, snd (updateOffset (ms_GenerationID st1) (ms_DurableOffset st1) (ms_MoreData st1) (ms_BuildComplete st1) (ms_Sealed st1) mc1))
          else (st1, mc1))"

text \<open>Giving up: flushed, with an error.\<close>

definition stopEnsure :: "State \<Rightarrow> State \<Rightarrow> apperr option \<Rightarrow> EnsureRun \<Rightarrow> (State \<times> apperr option) \<times> EnsureRun" where
  "stopEnsure lst st e run =
     (case flushPartial lst st (en_Machine run) of (s, mc) \<Rightarrow> ((s, e), run\<lparr> en_Machine := mc \<rparr>))"

definition totalSpent :: "EnsureOptions \<Rightarrow> EnsureRun \<Rightarrow> bool" where
  "totalSpent opt run \<longleftrightarrow> eo_TotalCounter opt \<and> eo_TotalLimit opt > 0 \<and> en_Total run \<ge> eo_TotalLimit opt"

definition budgetHit :: "EnsureOptions \<Rightarrow> EnsureRun \<Rightarrow> EnsureRun" where
  "budgetHit opt run = (if eo_OnBudgetHit opt then run\<lparr> en_Hit := True \<rparr> else run)"

definition totalQuota :: apperr where "totalQuota = newErr CodeQuota ''collection total byte budget exhausted''"

definition probeComplete :: "EnsureOptions \<Rightarrow> nat \<Rightarrow> bool" where
  "probeComplete opt k =
     (case eo_Status opt of None \<Rightarrow> False | Some status \<Rightarrow> (case status k of Inl _ \<Rightarrow> False | Inr c \<Rightarrow> c))"

text \<open>A poll that failed: the bytes that were accepted before stay.\<close>

definition pollFailed :: "State \<Rightarrow> apperr \<Rightarrow> EnsureRun \<Rightarrow> (State \<times> apperr option) \<times> EnsureRun" where
  "pollFailed lst e run =
     (case stopEnsure lst noState (Some e) run of ((s, e'), run') \<Rightarrow>
        if err_code e = CodeCancelled \<or> err_code e = CodeTimeout \<or> ms_DurableOffset s > 0 \<or> ms_GenerationID s \<noteq> 0
        then ((s, e'), run') else ((noState, Some e), run'))"

text \<open>One round of the loop: a result, or the state, the idle polls and the run to go on with.\<close>

definition afterPoll ::
  "EnsureOptions \<Rightarrow> LogKey \<Rightarrow> bool \<Rightarrow> int \<Rightarrow> int \<Rightarrow> State \<Rightarrow> nat \<Rightarrow> EnsureRun \<Rightarrow>
    ((State \<times> apperr option) \<times> EnsureRun) + (State \<times> nat \<times> EnsureRun)" where
  "afterPoll opt key complete beforeOff beforeFetched st noProgress run0 =
     (let delta = bytesOf key run0 - beforeFetched;
          run = (if delta > 0 \<and> eo_TotalCounter opt then run0\<lparr> en_Total := en_Total run0 + delta \<rparr> else run0) in
      if delta > 0 \<and> totalSpent opt run then Inl (stopEnsure st st (Some totalQuota) (budgetHit opt run))
      else if ms_Sealed st then Inl ((st, None), run)
      else if ms_CommittedOffset st = beforeOff \<and> bytesOf key run = beforeFetched then
        (let (sealed, mc) = (if complete \<and> \<not> ms_MoreData st then LogSeal key (en_Machine run)
                             else (Inl (newErr CodeInternal ''not tried''), en_Machine run));
             run = run\<lparr> en_Machine := mc \<rparr> in
         case sealed of Inr s \<Rightarrow> Inl ((s, None), run)
         | Inl _ \<Rightarrow> if Suc noProgress \<ge> 2 then Inl (stopEnsure st st None run) else Inr (st, Suc noProgress, run))
      else Inr (st, 0, run))"

definition ensureStep ::
  "World \<Rightarrow> EnsureOptions \<Rightarrow> LogKey \<Rightarrow> int \<Rightarrow> nat \<Rightarrow> State \<Rightarrow> State \<Rightarrow> nat \<Rightarrow> EnsureRun \<Rightarrow>
    ((State \<times> apperr option) \<times> EnsureRun) + (State \<times> nat \<times> EnsureRun)" where
  "ensureStep w opt key startBytes k st lst noProgress run0 =
     (case w_ctx w k of Some ce \<Rightarrow> Inl (stopEnsure lst st (Some (mapCancel (ctxError ce))) run0)
      | None \<Rightarrow>
      (let run = run0\<lparr> en_Total := en_Total run0 + w_others w k \<rparr>;
           fetched = (if bytesOf key run - startBytes < 0 then 0 else bytesOf key run - startBytes);
           complete = probeComplete opt k;
           beforeOff = (if ms_GenerationID lst = 0 then ms_CommittedOffset st else ms_CommittedOffset lst) in
       if totalSpent opt run then Inl (stopEnsure lst st (Some totalQuota) (budgetHit opt run))
       else if fetched \<ge> eo_MaxBytes opt then Inl (stopEnsure lst st (Some (newErr CodeQuota ''per-log byte budget exhausted'')) run)
       else (case Poll (map_option (\<lambda>src. src k) (w_source w)) key complete (en_Machine run) of
          (Inl e, mc) \<Rightarrow> Inl (pollFailed lst e (run\<lparr> en_Machine := mc \<rparr>))
        | (Inr st', mc) \<Rightarrow> afterPoll opt key complete beforeOff (bytesOf key run) st' noProgress (run\<lparr> en_Machine := mc \<rparr>))))"

text \<open>The loop, by the number of polls left.\<close>

fun ensureLoop ::
  "World \<Rightarrow> EnsureOptions \<Rightarrow> LogKey \<Rightarrow> int \<Rightarrow> nat \<Rightarrow> nat \<Rightarrow> State \<Rightarrow> State \<Rightarrow> nat \<Rightarrow> EnsureRun \<Rightarrow>
    (State \<times> apperr option) \<times> EnsureRun" where
  "ensureLoop w opt key startBytes 0 k st lst noProgress run =
     stopEnsure lst st (Some (newErr CodeQuota ''max polls exceeded while mirroring log'')) run"
| "ensureLoop w opt key startBytes (Suc n) k st lst noProgress run =
     (case ensureStep w opt key startBytes k st lst noProgress run of
        Inl res \<Rightarrow> res
      | Inr (st', noProgress', run') \<Rightarrow> ensureLoop w opt key startBytes n (Suc k) st' st' noProgress' run')"

definition ensureMirrored :: "World \<Rightarrow> EnsureOptions \<Rightarrow> LogKey \<Rightarrow> EnsureRun \<Rightarrow> (State \<times> apperr option) \<times> EnsureRun" where
  "ensureMirrored w opt0 key run =
     (let opt = normalizeOptions opt0 in
      case KeyValidate key of Some e \<Rightarrow> ((noState, Some e), run)
      | None \<Rightarrow>
      (case LogState key (en_Machine run) of
         (Inl e, mc) \<Rightarrow> ((noState, Some e), run\<lparr> en_Machine := mc \<rparr>)
       | (Inr st, mc) \<Rightarrow>
           let run1 = run\<lparr> en_Machine := mc \<rparr> in
           if ms_Sealed st then ((st, None), run1)
           else ensureLoop w opt key (bytesOf key run1) (nat (eo_MaxPolls opt)) 0 st noState 0 run1))"

section \<open>Access by profile\<close>

record Access =
  ac_Profile :: string
  ac_Machine :: "Machine option"
  ac_Status :: "(nat \<Rightarrow> apperr + bool) option"
  ac_MaxBytes :: int
  ac_MaxPolls :: int
  ac_Modes :: "(bool \<times> bool) option"

text \<open>\<open>ac_Modes\<close>: whether lookup and whether filling is allowed.\<close>

definition allowLookup :: "Access \<Rightarrow> bool" where
  "allowLookup a = (case ac_Modes a of None \<Rightarrow> True | Some (lookup, _) \<Rightarrow> lookup)"

definition allowFill :: "Access \<Rightarrow> bool" where
  "allowFill a = (case ac_Modes a of None \<Rightarrow> True | Some (_, fill) \<Rightarrow> fill)"

definition NewAccess :: "string \<Rightarrow> Machine option \<Rightarrow> Access" where
  "NewAccess profile m = \<lparr> ac_Profile = profile, ac_Machine = m, ac_Status = None, ac_MaxBytes = 16 * 2 ^ 20, ac_MaxPolls = 256,
     ac_Modes = None \<rparr>"

definition notConfigured :: apperr where "notConfigured = newErr CodeInternal ''log access is not configured''"

abbreviation accessKey :: "Access \<Rightarrow> string \<Rightarrow> int \<Rightarrow> LogKey" where
  "accessKey a job build \<equiv> \<lparr> lk_Profile = ac_Profile a, lk_Job = job, lk_Build = build \<rparr>"

definition EnsureMirrored :: "World \<Rightarrow> string \<Rightarrow> int \<Rightarrow> Access \<Rightarrow> apperr option \<times> Access" where
  "EnsureMirrored w job build a =
     (case ac_Machine a of None \<Rightarrow> (Some notConfigured, a)
      | Some mc \<Rightarrow>
          if \<not> allowFill a then (None, a)
          else (case KeyValidate (accessKey a job build) of Some e \<Rightarrow> (Some e, a)
          | None \<Rightarrow>
              (case ensureMirrored w \<lparr> eo_MaxBytes = ac_MaxBytes a, eo_MaxPolls = ac_MaxPolls a, eo_Status = ac_Status a,
                        eo_TotalCounter = False, eo_TotalLimit = 0, eo_OnBudgetHit = False \<rparr> (accessKey a job build)
                      \<lparr> en_Machine = mc, en_Total = 0, en_Hit = False \<rparr> of
                 ((_, e), run) \<Rightarrow> (e, a\<lparr> ac_Machine := Some (en_Machine run) \<rparr>))))"

record LocalReadMeta =
  lm_Offset :: int
  lm_Length :: int
  lm_TotalSize :: int
  lm_HasMore :: bool
  lm_Generation :: int
  lm_Sealed :: bool

definition noMeta :: LocalReadMeta where
  "noMeta = \<lparr> lm_Offset = 0, lm_Length = 0, lm_TotalSize = 0, lm_HasMore = False, lm_Generation = 0, lm_Sealed = False \<rparr>"

definition metaFromRead :: "ReadResult \<Rightarrow> State \<Rightarrow> int \<Rightarrow> int \<Rightarrow> LocalReadMeta" where
  "metaFromRead res st requestedStart requestedLen =
     (let len = int (length (rx_Data res));
          offset = (if rx_RawStart res = 0 \<and> requestedStart > 0 \<and> len > 0 then requestedStart else rx_RawStart res);
          total = ms_DurableOffset st;
          total = (if total = 0 \<and> rx_RawEnd res > 0 then rx_RawEnd res else total);
          total = (if total < offset + len then offset + len else total);
          hasMore = (\<not> ms_Sealed st);
          hasMore = (if ms_Sealed st \<and> offset + len < ms_DurableOffset st then True else hasMore);
          hasMore = (if \<not> ms_Sealed st \<and> requestedLen > 0 \<and> len \<ge> requestedLen then True else hasMore);
          hasMore = (if ms_Sealed st \<and> offset + len \<ge> ms_DurableOffset st then False else hasMore) in
      \<lparr> lm_Offset = offset, lm_Length = len, lm_TotalSize = total, lm_HasMore = hasMore, lm_Generation = rx_Generation res,
        lm_Sealed = (rx_Sealed res \<or> ms_Sealed st) \<rparr>)"

text \<open>A read of the machine after its state was taken.\<close>

definition readThen ::
  "Access \<Rightarrow> LogKey \<Rightarrow> (Machine \<Rightarrow> apperr option \<times> ReadResult) \<Rightarrow> (ReadResult \<Rightarrow> int) \<Rightarrow> int \<Rightarrow> Machine \<Rightarrow>
    (apperr option \<times> string \<times> LocalReadMeta) \<times> Access" where
  "readThen a key rd start requestedLen mc =
     (case LogState key mc of (Inl e, mc1) \<Rightarrow> ((Some e, [], noMeta), a\<lparr> ac_Machine := Some mc1 \<rparr>)
      | (Inr st, mc1) \<Rightarrow>
          (case rd mc1 of (Some e, _) \<Rightarrow> ((Some e, [], noMeta), a\<lparr> ac_Machine := Some mc1 \<rparr>)
           | (None, res) \<Rightarrow>
               ((None, rx_Data res, metaFromRead res st (start res) requestedLen), a\<lparr> ac_Machine := Some mc1 \<rparr>)))"

definition AccessReadRange ::
  "(nat \<Rightarrow> nat \<Rightarrow> bool) \<Rightarrow> bool \<Rightarrow> string \<Rightarrow> int \<Rightarrow> int \<Rightarrow> int \<Rightarrow> Access \<Rightarrow> (apperr option \<times> string \<times> LocalReadMeta) \<times> Access" where
  "AccessReadRange flt fails job build offset len a =
     (case ac_Machine a of None \<Rightarrow> ((Some notConfigured, [], noMeta), a)
      | Some mc \<Rightarrow>
          if \<not> allowLookup a then ((Some (newErr CodeNotFound ''console log cache lookup disabled''), [], noMeta), a)
          else (case KeyValidate (accessKey a job build) of Some e \<Rightarrow> ((Some e, [], noMeta), a)
          | None \<Rightarrow>
              if offset < 0 \<or> len < 0 then ((Some (fc_bad ''offset and length must be non-negative''), [], noMeta), a)
              else readThen a (accessKey a job build) (MirrorReadRange flt fails (accessKey a job build) offset len) (\<lambda>_. offset) len mc))"

definition AccessTail ::
  "(nat \<Rightarrow> nat \<Rightarrow> bool) \<Rightarrow> (nat \<Rightarrow> bool) \<Rightarrow> bool \<Rightarrow> string \<Rightarrow> int \<Rightarrow> int \<Rightarrow> Access \<Rightarrow>
    (apperr option \<times> string \<times> LocalReadMeta) \<times> Access" where
  "AccessTail flt dflt fails job build maxLen a =
     (case ac_Machine a of None \<Rightarrow> ((Some notConfigured, [], noMeta), a)
      | Some mc \<Rightarrow>
          if \<not> allowLookup a then ((Some (newErr CodeNotFound ''console log cache lookup disabled''), [], noMeta), a)
          else (case KeyValidate (accessKey a job build) of Some e \<Rightarrow> ((Some e, [], noMeta), a)
          | None \<Rightarrow>
              if maxLen < 0 then ((Some (fc_bad ''max_length must be non-negative''), [], noMeta), a)
              else readThen a (accessKey a job build) (MirrorTailBytes flt dflt fails (accessKey a job build) maxLen) rx_RawStart maxLen mc))"

text \<open>After the origin was asked, a mode that only writes still serves what was just written.\<close>

definition readRangeAfterOrigin ::
  "(nat \<Rightarrow> nat \<Rightarrow> bool) \<Rightarrow> bool \<Rightarrow> string \<Rightarrow> int \<Rightarrow> int \<Rightarrow> int \<Rightarrow> Access \<Rightarrow> (apperr option \<times> string \<times> LocalReadMeta) \<times> Access" where
  "readRangeAfterOrigin flt fails job build offset len a =
     (if allowLookup a then AccessReadRange flt fails job build offset len a
      else if \<not> allowFill a then ((Some (newErr CodeNotFound ''console log cache disabled''), [], noMeta), a)
      else case ac_Machine a of None \<Rightarrow> ((Some notConfigured, [], noMeta), a)
      | Some mc \<Rightarrow>
          readThen a (accessKey a job build) (MirrorReadRange flt fails (accessKey a job build) offset len) (\<lambda>_. offset) len mc)"

definition tailAfterOrigin ::
  "(nat \<Rightarrow> nat \<Rightarrow> bool) \<Rightarrow> (nat \<Rightarrow> bool) \<Rightarrow> bool \<Rightarrow> string \<Rightarrow> int \<Rightarrow> int \<Rightarrow> Access \<Rightarrow>
    (apperr option \<times> string \<times> LocalReadMeta) \<times> Access" where
  "tailAfterOrigin flt dflt fails job build maxLen a =
     (if allowLookup a then AccessTail flt dflt fails job build maxLen a
      else if \<not> allowFill a then ((Some (newErr CodeNotFound ''console log cache disabled''), [], noMeta), a)
      else case ac_Machine a of None \<Rightarrow> ((Some notConfigured, [], noMeta), a)
      | Some mc \<Rightarrow>
          readThen a (accessKey a job build) (MirrorTailBytes flt dflt fails (accessKey a job build) maxLen) rx_RawStart maxLen mc)"

section \<open>Stage logs\<close>

definition StageLogKeyJob :: "string \<Rightarrow> string \<Rightarrow> string" where
  "StageLogKeyJob job stageID = trim_space job @ ''#stage:'' @ trim_space stageID"

definition StageLogKey :: "string \<Rightarrow> string \<Rightarrow> int \<Rightarrow> string \<Rightarrow> LogKey" where
  "StageLogKey profile job build stageID = \<lparr> lk_Profile = profile, lk_Job = StageLogKeyJob job stageID, lk_Build = build \<rparr>"

text \<open>An error of the mirror itself is wrapped.\<close>

datatype stageErr = StagePlain apperr | StageWrapped apperr

definition MirrorStageLogBytes ::
  "(nat \<Rightarrow> nat \<Rightarrow> bool) \<Rightarrow> bool \<Rightarrow> string \<Rightarrow> int \<Rightarrow> string \<Rightarrow> string \<Rightarrow> Access \<Rightarrow> (stageErr + State) \<times> Access" where
  "MirrorStageLogBytes flt fails job build stageID data a =
     (case ac_Machine a of None \<Rightarrow> (Inl (StagePlain notConfigured), a)
      | Some mc \<Rightarrow>
          if trim_space stageID = [] then (Inl (StagePlain (fc_bad ''stage id is required for stage log mirror'')), a)
          else let key = StageLogKey (ac_Profile a) job build stageID in
          (case KeyValidate key of Some e \<Rightarrow> (Inl (StagePlain e), a)
           | None \<Rightarrow>
               if lk_Job key = trim_space job then
                 (Inl (StagePlain (newErr CodeInternal ''stage log key collides with console job key'')), a)
               else if data = [] then
                 (case LogState key mc of (Inl e, mc1) \<Rightarrow> (Inl (StagePlain e), a\<lparr> ac_Machine := Some mc1 \<rparr>)
                  | (Inr st, mc1) \<Rightarrow> (Inr st, a\<lparr> ac_Machine := Some mc1 \<rparr>))
               else
                 (case AppendSnapshot flt fails key \<lparr> sg_Data = data, sg_ReportedNextOffset = int (length data), sg_MoreData = False,
                                                     sg_BuildComplete = True \<rparr> mc of
                    (Inl e, mc1) \<Rightarrow> (Inl (StageWrapped e), a\<lparr> ac_Machine := Some mc1 \<rparr>)
                  | (Inr st, mc1) \<Rightarrow> (Inr st, a\<lparr> ac_Machine := Some mc1 \<rparr>))))"

section \<open>Collections\<close>

record CollectionBounds =
  cb_MaxConcurrency :: int
  cb_MaxTotalBytes :: int
  cb_MaxPerLogBytes :: int
  cb_MaxPollsPerLog :: int

definition DefaultCollectionBounds :: CollectionBounds where
  "DefaultCollectionBounds =
     \<lparr> cb_MaxConcurrency = 4, cb_MaxTotalBytes = 64 * 2 ^ 20, cb_MaxPerLogBytes = 16 * 2 ^ 20, cb_MaxPollsPerLog = 256 \<rparr>"

definition CollectionNormalize :: "CollectionBounds \<Rightarrow> CollectionBounds" where
  "CollectionNormalize b =
     (let d = DefaultCollectionBounds in
      \<lparr> cb_MaxConcurrency = (if cb_MaxConcurrency b \<le> 0 then cb_MaxConcurrency d else cb_MaxConcurrency b),
        cb_MaxTotalBytes = (if cb_MaxTotalBytes b \<le> 0 then cb_MaxTotalBytes d else cb_MaxTotalBytes b),
        cb_MaxPerLogBytes = (if cb_MaxPerLogBytes b \<le> 0 then cb_MaxPerLogBytes d else cb_MaxPerLogBytes b),
        cb_MaxPollsPerLog = (if cb_MaxPollsPerLog b \<le> 0 then cb_MaxPollsPerLog d else cb_MaxPollsPerLog b) \<rparr>)"

record LogRequest =
  lq_Job :: string
  lq_Build :: int
  lq_Relation :: string

definition KeyString :: "LogKey \<Rightarrow> string" where
  "KeyString k = lk_Profile k @ ''|'' @ lk_Job k @ ''|'' @ show_int (lk_Build k)"

text \<open>The members of a collection before they are sorted: the first request of each key. \<open>seen\<close> holds
  the strings of the keys so far.\<close>

fun collectMembers :: "string \<Rightarrow> string list \<Rightarrow> LogRequest list \<Rightarrow> apperr + (LogRequest \<times> LogKey) list" where
  "collectMembers profile seen [] = Inr []"
| "collectMembers profile seen (req # reqs) =
     (let key = \<lparr> lk_Profile = profile, lk_Job = lq_Job req, lk_Build = lq_Build req \<rparr> in
      case KeyValidate key of Some e \<Rightarrow> Inl e
      | None \<Rightarrow>
          if KeyString key \<in> set seen then collectMembers profile seen reqs
          else (case collectMembers profile (KeyString key # seen) reqs of Inl e \<Rightarrow> Inl e | Inr ms \<Rightarrow> Inr ((req, key) # ms)))"

record LogAcquireResult =
  la_Key :: LogKey
  la_Relation :: string
  la_State :: State
  la_BytesFetched :: int
  la_Err :: "apperr option"

datatype MemberState = MemberPending | MemberMirrored | MemberSealed | MemberError | MemberSkipped

definition memberStateFromResult :: "LogAcquireResult \<Rightarrow> MemberState" where
  "memberStateFromResult r =
     (case la_Err r of
        Some e \<Rightarrow>
          if err_code e = CodeQuota then MemberSkipped
          else if ms_Sealed (la_State r) then MemberSealed
          else if ms_DurableOffset (la_State r) > 0 then MemberMirrored else MemberError
      | None \<Rightarrow> if ms_Sealed (la_State r) then MemberSealed else MemberMirrored)"

definition acquireOne ::
  "World \<Rightarrow> (nat \<Rightarrow> apperr + bool) option \<Rightarrow> LogKey \<Rightarrow> string \<Rightarrow> CollectionBounds \<Rightarrow> EnsureRun \<Rightarrow> LogAcquireResult \<times> EnsureRun" where
  "acquireOne w status key relation bounds run =
     (case ensureMirrored w \<lparr> eo_MaxBytes = cb_MaxPerLogBytes bounds, eo_MaxPolls = cb_MaxPollsPerLog bounds, eo_Status = status,
             eo_TotalCounter = True, eo_TotalLimit = cb_MaxTotalBytes bounds, eo_OnBudgetHit = True \<rparr> key run of
        ((st, e), run') \<Rightarrow>
          let n = bytesOf key run' - bytesOf key run in
          (\<lparr> la_Key = key, la_Relation = relation, la_State = st, la_BytesFetched = (if n < 0 then 0 else n), la_Err = e \<rparr>, run'))"

end
