(* ===== verification/FrameLog.thy ===== *)
theory FrameLog
  imports FrameReader
begin

text \<open>
  A generation of frames as an abstract log of bytes: the frames of a generation, in their order, tile the
  log. Reading a byte range of the store is taking a slice of the log, whatever fails.
\<close>

section \<open>Tilings\<close>

text \<open>\<open>tiles st P cks L\<close>: the frames \<open>cks\<close> lead from the prefix \<open>P\<close> to the log \<open>L\<close>; \<open>st P raw c\<close> says that frame \<open>c\<close>
  adds \<open>raw\<close> to \<open>P\<close>.\<close>

fun tiles :: "(string \<Rightarrow> string \<Rightarrow> Chunk \<Rightarrow> bool) \<Rightarrow> string \<Rightarrow> Chunk list \<Rightarrow> string \<Rightarrow> bool" where
  "tiles st P [] L = (L = P)"
| "tiles st P (c # cs) L = (\<exists>raw. st P raw c \<and> tiles st (P @ raw) cs L)"

lemma tiles_append: "tiles st P (cs @ ds) L = (\<exists>Q. tiles st P cs Q \<and> tiles st Q ds L)"
  by (induction cs arbitrary: P) auto

lemma tiles_snoc: "tiles st P (cs @ [c]) L = (\<exists>Q raw. tiles st P cs Q \<and> st Q raw c \<and> L = Q @ raw)"
  by (auto simp: tiles_append)

lemma tiles_prefix: "tiles st P cs L \<Longrightarrow> \<exists>S. L = P @ S"
  by (induction cs arbitrary: P) fastforce+

lemma tiles_mono:
  "tiles st P cs L \<Longrightarrow> (\<And>Q raw c. c \<in> set cs \<Longrightarrow> st Q raw c \<Longrightarrow> st' Q raw c) \<Longrightarrow> tiles st' P cs L"
  by (induction cs arbitrary: P) (auto, blast)

text \<open>A frame that can be read holds the bytes of its range.\<close>

definition reads :: "LogReader \<Rightarrow> Chunk \<Rightarrow> string \<Rightarrow> bool" where
  "reads r c raw \<longleftrightarrow> decompressChunkFile False (rd_Zstd r) (rd_Crypto r) (rd_Files r) c = Inr raw"

definition raw_at :: "LogReader \<Rightarrow> string \<Rightarrow> string \<Rightarrow> Chunk \<Rightarrow> bool" where
  "raw_at r P raw c \<longleftrightarrow> reads r c raw \<and> ch_RawStart c = int (length P) \<and> ch_RawEnd c = int (length (P @ raw))"

definition holds :: "LogReader \<Rightarrow> int \<Rightarrow> string \<Rightarrow> bool" where
  "holds r g L \<longleftrightarrow> 0 < g \<and> tiles (raw_at r) [] (sort_key ch_Seq (chunksOf g (rd_Meta r))) L"

text \<open>Faults turn a read into an error and never into other bytes.\<close>

lemma OpenFrameCompressed_fault:
  "OpenFrameCompressed fails co files c = OpenFrameCompressed False co files c \<or> (\<exists>e. OpenFrameCompressed fails co files c = Inl e)"
  by (cases fails) (auto simp: OpenFrameCompressed_def split: sum.split)

lemma decompressChunk_reads:
  assumes "reads r c raw"
  shows "decompressChunk flt r c = Inr raw \<or> (\<exists>e. decompressChunk flt r c = Inl e)"
    and "\<not> flt 0 \<Longrightarrow> \<not> flt 1 \<Longrightarrow> decompressChunk flt r c = Inr raw"
  using assms OpenFrameCompressed_fault [of "flt 1" "rd_Crypto r" "rd_Files r" c]
  by (auto simp: reads_def decompressChunk_def decompressChunkFile_def split: sum.splits if_splits)

section \<open>Byte ranges\<close>

lemma no_more_frames:
  assumes "tiles (raw_at r) P cs L" and "en \<le> int (length P)"
  shows "filter (\<lambda>c. ch_RawEnd c > start \<and> ch_RawStart c < en) cs = []"
  using assms
proof (induction cs arbitrary: P)
  case (Cons c cs)
  then obtain raw where r: "raw_at r P raw c" "tiles (raw_at r) (P @ raw) cs L" by auto
  have "filter (\<lambda>c. ch_RawEnd c > start \<and> ch_RawStart c < en) cs = []" by (rule Cons.IH [OF r(2)]) (use Cons.prems(2) in simp)
  then show ?case using r(1) Cons.prems(2) by (simp add: raw_at_def)
qed simp

lemma drop_split:
  assumes "m \<le> n"
  shows "drop m X = drop m (take n X) @ drop n X"
proof -
  have "drop (n - m) (drop m X) = drop n X" using assms by simp
  then show ?thesis by (metis append_take_drop_id drop_take)
qed

lemma slice_step:
  "drop (max s (length P)) (take e (P @ raw @ S)) =
     take (min e (length (P @ raw)) - max s (length P)) (drop (max s (length P) - length P) raw) @
     drop (max s (length (P @ raw))) (take e (P @ raw @ S))"
proof (cases "s \<le> length (P @ raw)")
  case True
  let ?m = "max s (length P)" and ?n = "length (P @ raw)"
  have "take ?n (take e (P @ raw @ S)) = take e (take ?n ((P @ raw) @ S))" by (simp only: take_take min.commute append_assoc)
  also have "take ?n ((P @ raw) @ S) = P @ raw" by simp
  also have "take e (P @ raw) = take (min e ?n) (P @ raw)" by (simp add: min_def)
  finally have "drop ?m (take ?n (take e (P @ raw @ S))) = take (min e ?n - ?m) (drop ?m (P @ raw))" by (simp only: drop_take)
  also have "drop ?m (P @ raw) = drop (?m - length P) raw" by simp
  finally show ?thesis using drop_split [of ?m ?n "take e (P @ raw @ S)"] True by (simp add: max_absorb2)
qed simp

text \<open>The loop from any frame on: it returns the part of the log at and after that frame.\<close>

lemma readLoop_slice:
  assumes "tiles (raw_at r) P cs L" and "expectRaw = - 1 \<or> (expectRaw = int (length P) \<and> s < length P)" and "s < e"
    and "readLoop flt r (int s) (int e) k expectRaw (filter (\<lambda>c. ch_RawEnd c > int s \<and> ch_RawStart c < int e) cs) out res = (err, out', res')"
  shows "(err = None \<longrightarrow> out' = out @ drop (max s (length P)) (take e L) \<and> rx_RawStart res' = rx_RawStart res) \<and>
         ((\<forall>k j. \<not> flt k j) \<longrightarrow> err = None)"
  using assms
proof (induction cs arbitrary: P expectRaw k out res)
  case (Cons c cs)
  then obtain raw where r: "raw_at r P raw c" "tiles (raw_at r) (P @ raw) cs L" by auto
  then obtain S where L: "L = P @ raw @ S" using tiles_prefix by fastforce
  note at = r(1) [unfolded raw_at_def]
  show ?case
  proof (cases "ch_RawEnd c > int s \<and> ch_RawStart c < int e")
    case False
    show ?thesis
    proof (cases "e \<le> length P")
      case True
      then have "filter (\<lambda>c. ch_RawEnd c > int s \<and> ch_RawStart c < int e) (c # cs) = []"
        using no_more_frames [OF Cons.prems(1)] by simp
      then show ?thesis using Cons.prems(4) True by simp
    next
      case False
      with \<open>\<not> (ch_RawEnd c > int s \<and> ch_RawStart c < int e)\<close> at have le: "length (P @ raw) \<le> s" by auto
      then have "expectRaw = - 1" using Cons.prems(2) by auto
      from Cons.IH [OF r(2) _ Cons.prems(3), of expectRaw k out res] Cons.prems(4) \<open>\<not> (ch_RawEnd c > int s \<and> ch_RawStart c < int e)\<close> this le
      show ?thesis by (simp add: max_absorb1)
    qed
  next
    case True
    then have lt: "s < length (P @ raw)" "length P < e" using at by auto
    from decompressChunk_reads [of r c raw "flt k"] at consider (bad) x where "decompressChunk (flt k) r c = Inl x" "flt k 0 \<or> flt k 1"
      | (ok) "decompressChunk (flt k) r c = Inr raw" by blast
    then show ?thesis
    proof cases
      case bad
      then show ?thesis using Cons.prems(2,4) True at by (auto split: if_splits)
    next
      case ok
      let ?lo = "max s (length P)" and ?hi = "min e (length (P @ raw))"
      have lo: "(if ch_RawStart c > int s then ch_RawStart c else int s) = int ?lo" using at by auto
      have hi: "(if ch_RawEnd c < int e then ch_RawEnd c else int e) = int ?hi" using at by (auto simp: min_def)
      let ?piece = "take (?hi - ?lo) (drop (?lo - length P) raw)"
      let ?fs = "filter (\<lambda>c. ch_RawEnd c > int s \<and> ch_RawStart c < int e) cs"
      have gap: "(expectRaw \<ge> 0 \<and> ch_RawStart c \<noteq> expectRaw) = False" using Cons.prems(2) at by auto
      have "readLoop flt r (int s) (int e) k expectRaw (c # ?fs) out res = (err, out', res')" using Cons.prems(4) True by simp
      from this [unfolded readLoop.simps gap if_False ok sum.case Let_def lo hi] have body:
        "(if int ?hi \<le> int ?lo then readLoop flt r (int s) (int e) (Suc k) (ch_RawEnd c) ?fs out (opened c raw res)
          else if int ?lo - ch_RawStart c < 0 \<or> int ?hi - ch_RawStart c > int (length raw) \<or>
                  int ?lo - ch_RawStart c > int ?hi - ch_RawStart c
          then (Some (newErrf CodeCorruptCache ''frame %d size mismatch: meta %d file %d''
                       [show_int (ch_Seq c), show_int (ch_UncompressedSize c), show_int (int (length raw))]), out, opened c raw res)
          else readLoop flt r (int s) (int e) (Suc k) (ch_RawEnd c) ?fs
                 (out @ take (nat (int ?hi - ch_RawStart c - (int ?lo - ch_RawStart c))) (drop (nat (int ?lo - ch_RawStart c)) raw))
                 (opened c raw res)) = (err, out', res')" .
      have loop: "readLoop flt r (int s) (int e) (Suc k) (int (length (P @ raw))) ?fs (out @ ?piece) (opened c raw res) = (err, out', res')"
      proof (cases "?hi \<le> ?lo")
        case le: True
        then have "int ?hi \<le> int ?lo" by (simp only: of_nat_le_iff)
        then show ?thesis using body at le by (simp only: if_True) simp
      next
        case gt: False
        then have "\<not> int ?hi \<le> int ?lo" by (simp only: of_nat_le_iff not_False_eq_True)
        moreover have "nat (int ?lo - ch_RawStart c) = ?lo - length P" "nat (int ?hi - ch_RawStart c - (int ?lo - ch_RawStart c)) = ?hi - ?lo"
          "(int ?lo - ch_RawStart c < 0 \<or> int ?hi - ch_RawStart c > int (length raw) \<or>
                  int ?lo - ch_RawStart c > int ?hi - ch_RawStart c) = False" using at gt by auto
        ultimately show ?thesis using body at by (simp only: if_False)
      qed
      from Cons.IH [OF r(2) _ Cons.prems(3) loop] lt(1) slice_step [of s P e raw S] show ?thesis
        unfolding L by (simp add: opened_def)
    qed
  qed
qed simp

text \<open>The end of the last frame is the length of the log.\<close>

lemma maxOf_Max: "xs \<noteq> [] \<Longrightarrow> maxOf xs = Some (Max (set xs))"
  by (cases xs) (simp_all add: maxOf_def flip: Max.set_eq_fold)

lemma tiles_ends:
  assumes "tiles (raw_at r) P cs L"
  shows "\<forall>c \<in> set cs. ch_RawEnd c \<le> int (length L)" and "cs \<noteq> [] \<Longrightarrow> ch_RawEnd (last cs) = int (length L)"
  using assms
proof (induction cs arbitrary: P)
  case (Cons c cs)
  case 1
  then obtain raw where r: "raw_at r P raw c" "tiles (raw_at r) (P @ raw) cs L" by auto
  then show ?case using Cons.IH(1) [OF r(2)] tiles_prefix [OF r(2)] by (auto simp: raw_at_def)
next
  case (Cons c cs)
  case 2
  then obtain raw where r: "raw_at r P raw c" "tiles (raw_at r) (P @ raw) cs L" by auto
  then show ?case using Cons.IH(2) [OF _ r(2)] by (cases "cs = []") (auto simp: raw_at_def)
qed simp_all

lemma durable_end:
  assumes "tiles (raw_at r) [] (sort_key ch_Seq (chunksOf g m)) L" and "chunksOf g m \<noteq> []"
  shows "maxOf (map ch_RawEnd (chunksOf g m)) = Some (int (length L))"
proof -
  let ?cs = "sort_key ch_Seq (chunksOf g m)"
  have ne: "?cs \<noteq> []" using assms(2) by (metis length_0_conv length_sort)
  have "int (length L) \<in> ch_RawEnd ` set (chunksOf g m)"
    using tiles_ends(2) [OF assms(1) ne] last_in_set [OF ne] by (metis image_eqI set_sort)
  moreover have "\<forall>x \<in> ch_RawEnd ` set (chunksOf g m). x \<le> int (length L)" using tiles_ends(1) [OF assms(1)] by simp
  ultimately have "Max (ch_RawEnd ` set (chunksOf g m)) = int (length L)" by (intro Max_eqI) auto
  then show ?thesis using assms(2) by (simp add: maxOf_Max)
qed

lemma DurableRawEnd_log:
  assumes "holds r g L" and "L \<noteq> [] \<or> chunksOf g (rd_Meta r) \<noteq> []"
  shows "DurableRawEnd flt g (rd_Meta r) = (if flt 0 then Inl (newErr CodeCorruptCache ''failed to read durable raw end'') else Inr (int (length L)))"
proof -
  have "chunksOf g (rd_Meta r) \<noteq> []" using assms by (auto simp: holds_def)
  then show ?thesis using durable_end [of r g "rd_Meta r" L] assms(1) by (simp add: DurableRawEnd_def holds_def)
qed

lemma ReadRange_slice:
  assumes "holds r g L" and "0 \<le> start" and "0 \<le> len" and "start + len < 2 ^ 63"
    and read: "ReadRange flt r g start len = (e, res)"
  shows "(e = None \<longrightarrow> rx_Data res = take (nat len) (drop (nat start) L) \<and> rx_RawStart res = start \<and>
            rx_RawEnd res = start + int (length (rx_Data res))) \<and>
         ((\<forall>k j. \<not> flt k j) \<and> L \<noteq> [] \<longrightarrow> e = None)"
proof (cases "len = 0")
  case True
  then show ?thesis using assms by (auto simp: ReadRange_def holds_def noRead_def)
next
  case False
  define s t where "s = nat start" and "t = nat (start + len)"
  have st: "start = int s" "start + len = int t" "s < t" "nat len = t - s" using assms(2,3) False by (auto simp: s_def t_def)
  have w: "wrap64 (start + len) = int t" using assms(2-4) st by (simp add: wrap64_id)
  let ?cs = "sort_key ch_Seq (chunksOf g (rd_Meta r))"
  let ?fs = "filter (\<lambda>c. ch_RawEnd c > int s \<and> ch_RawStart c < int t) ?cs"
  let ?res = "noRead\<lparr> rx_GenerationID := g, rx_RequestedBytes := len, rx_RawStart := start \<rparr>"
  have g: "0 < g" and tl: "tiles (raw_at r) [] ?cs L" using assms(1) by (auto simp: holds_def)
  have slice: "take (nat len) (drop (nat start) L) = drop s (take t L)" unfolding st(1,4) by (simp add: drop_take)
  have cks: "ChunksIntersectingRaw (flt 0 0) g start (int t) (rd_Meta r) =
      (if flt 0 0 then Inl (newErr CodeCorruptCache ''failed to list chunks'') else Inr ?fs)"
    using g st by (simp add: ChunksIntersectingRaw_def ListChunks_def)
  obtain err out res1 where loop: "readLoop (\<lambda>k. flt (Suc k)) r (int s) (int t) 0 (- 1) ?fs [] ?res = (err, out, res1)"
    by (cases "readLoop (\<lambda>k. flt (Suc k)) r (int s) (int t) 0 (- 1) ?fs [] ?res") blast
  from readLoop_slice [OF tl _ st(3) loop] have out: "err = None \<longrightarrow> out = drop s (take t L) \<and> rx_RawStart res1 = start"
    "(\<forall>k j. \<not> flt k j) \<longrightarrow> err = None" by (auto simp: noRead_def)
  show ?thesis
  proof (cases "flt 0 0")
    case True
    then show ?thesis using read cks g False assms(2,3) w by (auto simp: ReadRange_def Let_def)
  next
    case ok: False
    show ?thesis
    proof (cases "?fs = []")
      case True
      then have "drop s (take t L) = []" using loop out by auto
      then have s: "length L \<le> s" using st(3) by auto
      have "(e, res) = (case DurableRawEnd (\<lambda>j. flt 0 (1 + j)) g (rd_Meta r) of Inl e \<Rightarrow> (Some e, ?res)
               | Inr durable \<Rightarrow> if start \<ge> durable then (None, ?res\<lparr> rx_RawEnd := start \<rparr>)
                   else (Some (newErr CodeCorruptCache ''missing frames for requested range''), ?res))"
        using read cks ok True g False assms(2,3) w by (simp add: ReadRange_def Let_def)
      then show ?thesis using DurableRawEnd_log [OF assms(1), of "\<lambda>j. flt 0 (1 + j)"] s st slice
        by (auto simp: noRead_def split: sum.splits if_splits) blast
    next
      case ne: False
      have "ReadRange flt r g start len = (case (err, out, res1) of (Some e, _, res) \<Rightarrow> (Some e, res)
                 | (None, out, res) \<Rightarrow> (None, res\<lparr> rx_Data := out, rx_RawEnd := start + int (length out) \<rparr>))"
        using cks ok g False assms(2,3) w loop st(1) neq_Nil_conv [THEN iffD1, OF ne]
        by (auto simp: ReadRange_def Let_def simp del: readLoop.simps filter.simps)
      then show ?thesis using read out slice by (cases err) auto
    qed
  qed
qed

lemma TailBytes_suffix:
  assumes "holds r g L" and "0 \<le> n" and "int (length L) < 2 ^ 63" and "TailBytes flt dflt r g n = (e, res)" and "L \<noteq> []"
  shows "(e = None \<longrightarrow> rx_Data res = drop (length L - nat n) L) \<and>
         ((\<forall>k j. \<not> flt k j) \<and> (\<forall>j. \<not> dflt j) \<longrightarrow> e = None)"
proof -
  have d: "DurableRawEnd dflt g (rd_Meta r) = (if dflt 0 then Inl (newErr CodeCorruptCache ''failed to read durable raw end'') else Inr (int (length L)))"
    by (rule DurableRawEnd_log [OF assms(1)]) (use assms(5) in simp)
  show ?thesis
  proof (cases "dflt 0 \<or> n = 0")
    case True
    then show ?thesis using assms d by (auto simp: TailBytes_def noRead_def split: if_splits)
  next
    case False
    let ?start = "if int (length L) - n < 0 then 0 else int (length L) - n"
    have "ReadRange flt r g ?start (int (length L) - ?start) = (e, res)"
      using assms(2,4,5) d False by (simp add: TailBytes_def Let_def split: if_splits)
    from ReadRange_slice [OF assms(1) _ _ _ this] assms(2,3,5) show ?thesis by (auto simp: nat_diff_distrib)
  qed
qed

end
