(* ===== verification/FrameLines.thy ===== *)
theory FrameLines
  imports FrameLog
begin

text \<open>
  Lines: the reference is \<open>log_lines\<close>, the list of the lines of a log, each with its newline; only the last may
  lack it. The line metadata of frames agrees with it, and reading a line range of the store returns the
  lines of the log.
\<close>

abbreviation NL :: char where "NL \<equiv> CHR 0x0A"

fun log_lines :: "string \<Rightarrow> string list" where
  "log_lines [] = []"
| "log_lines (c # cs) =
     (if c = NL then [NL] # log_lines cs
      else case log_lines cs of [] \<Rightarrow> [[c]] | l # ls \<Rightarrow> (c # l) # ls)"

definition newlines :: "string \<Rightarrow> nat" where "newlines L = length (filter (\<lambda>c. c = NL) L)"

text \<open>No line is unfinished.\<close>

definition at_line_start :: "string \<Rightarrow> bool" where "at_line_start L \<longleftrightarrow> L = [] \<or> last L = NL"

lemma newlines_simps [simp]:
  "newlines [] = 0" "newlines (c # cs) = (if c = NL then Suc (newlines cs) else newlines cs)"
  "newlines (A @ B) = newlines A + newlines B"
  by (simp_all add: newlines_def)

lemma concat_log_lines [simp]: "concat (log_lines L) = L"
  by (induction L) (auto split: list.split)

lemma log_lines_Nil_iff [simp]: "log_lines L = [] \<longleftrightarrow> L = []"
  by (cases L) (auto split: list.split)

lemma length_log_lines: "length (log_lines L) = (if at_line_start L then newlines L else newlines L + 1)"
proof (induction L)
  case (Cons c cs)
  then show ?case by (cases cs; cases "log_lines cs") (auto simp: at_line_start_def split: if_splits list.splits)
qed (simp add: at_line_start_def)

lemma log_lines_append:
  "log_lines (A @ B) = (if at_line_start A then log_lines A @ log_lines B
     else case log_lines B of [] \<Rightarrow> log_lines A | l # ls \<Rightarrow> butlast (log_lines A) @ (last (log_lines A) @ l) # ls)"
proof (induction A)
  case (Cons c A)
  show ?case
  proof (cases "A = []")
    case True
    then show ?thesis by (auto simp: at_line_start_def split: list.split)
  next
    case False
    then obtain l ls where l: "log_lines A = l # ls" by (cases "log_lines A") auto
    have "at_line_start (c # A) = at_line_start A" using False by (simp add: at_line_start_def)
    then show ?thesis using Cons l by (auto split: list.split)
  qed
qed (simp add: at_line_start_def)

lemma log_lines_unfinished: "newlines B = 0 \<Longrightarrow> B \<noteq> [] \<Longrightarrow> log_lines B = [B]"
proof (induction B)
  case (Cons c cs)
  then show ?case by (cases cs) (auto split: if_splits)
qed simp

lemma log_lines_snoc_NL: "newlines B = 0 \<Longrightarrow> log_lines (B @ NL # S) = (B @ [NL]) # log_lines S"
proof (induction B)
  case (Cons c cs)
  then show ?case by (auto split: if_splits)
qed simp

text \<open>The lines after an unfinished one do not depend on how it began.\<close>

lemma drop_lines_append:
  assumes "length (log_lines P) \<le> k"
  shows "drop k (log_lines (P @ X)) = drop (k - newlines P) (log_lines X)"
proof (cases "at_line_start P")
  case True
  then show ?thesis using assms by (simp add: log_lines_append length_log_lines)
next
  case False
  then have len: "length (log_lines P) = Suc (newlines P)" by (simp add: length_log_lines)
  then have b: "length (butlast (log_lines P)) = newlines P" by simp
  have k: "k = newlines P + Suc (k - Suc (newlines P))" "k - newlines P = Suc (k - Suc (newlines P))" using assms len by auto
  show ?thesis
  proof (cases "log_lines X")
    case Nil
    then show ?thesis using False assms by (simp add: log_lines_append)
  next
    case (Cons l ls)
    then have "log_lines (P @ X) = butlast (log_lines P) @ (last (log_lines P) @ l) # ls" using False by (simp add: log_lines_append)
    then have "drop k (log_lines (P @ X)) = drop (Suc (k - Suc (newlines P))) ((last (log_lines P) @ l) # ls)"
      using b k(1) by (metis drop_drop add.commute append_eq_conv_conj)
    then show ?thesis using Cons k(2) by simp
  qed
qed

lemma take_lines_append: "n \<le> newlines S \<Longrightarrow> take n (log_lines (S @ T)) = take n (log_lines S)"
proof -
  assume n: "n \<le> newlines S"
  show ?thesis
  proof (cases "at_line_start S")
    case True
    then show ?thesis using n by (simp add: log_lines_append length_log_lines)
  next
    case False
    then have ne: "log_lines S \<noteq> []" by (auto simp: at_line_start_def)
    have "length (butlast (log_lines S)) = newlines S" using False by (simp add: length_log_lines)
    moreover have "take n (log_lines S) = take n (butlast (log_lines S) @ [last (log_lines S)])" using ne by simp
    ultimately show ?thesis using n False by (auto simp: log_lines_append split: list.split)
  qed
qed

section \<open>The scan\<close>

text \<open>Bytes of consecutive frames are scanned as if they were one.\<close>

definition scanned :: "int \<Rightarrow> int \<Rightarrow> int \<Rightarrow> string \<Rightarrow> LineScan \<Rightarrow> LineScan" where
  "scanned st en off S s =
     (case scanBytes st en off S s of (True, s') \<Rightarrow> s'
      | (False, s') \<Rightarrow> if ls_lineBuf s' \<noteq> [] then flushLine st en (off + int (length S)) s' else s')"

lemma scanBytes_append:
  "scanBytes st en off (A @ B) s =
     (case scanBytes st en off A s of (True, s') \<Rightarrow> (True, s') | (False, s') \<Rightarrow> scanBytes st en (off + int (length A)) B s')"
proof (induction A arbitrary: off s)
  case (Cons b bs)
  have "off + 1 + int (length bs) = off + int (length (b # bs))" by simp
  then show ?case by (simp only: append_Cons scanBytes.simps Let_def Cons.IH) (simp split: if_splits)
qed simp

lemma scanned_lines:
  assumes "newlines (ls_lineBuf s) = 0" and "ls_curLine s = int k" and "k < e"
  shows "ls_out (scanned (int st) (int e) off S s) =
           ls_out s @ concat (drop (st - k) (take (e - k) (log_lines (ls_lineBuf s @ S)))) \<and>
         ls_emitted (scanned (int st) (int e) off S s) =
           ls_emitted s + int (length (drop (st - k) (take (e - k) (log_lines (ls_lineBuf s @ S)))))"
  using assms
proof (induction S arbitrary: s k off)
  case Nil
  then show ?case
    by (cases "ls_lineBuf s = []") (auto simp: scanned_def flushLine_def log_lines_unfinished take_Cons' drop_Cons')
next
  case (Cons b S)
  show ?case
  proof (cases "b = NL")
    case False
    let ?s = "s\<lparr> ls_lineBuf := ls_lineBuf s @ [b] \<rparr>"
    have "scanned (int st) (int e) off (b # S) s = scanned (int st) (int e) (off + 1) S ?s"
      using False by (simp add: scanned_def add.assoc split: prod.splits bool.splits)
    then show ?thesis using Cons.IH [of ?s k "off + 1"] Cons.prems False by simp
  next
    case True
    let ?s = "flushLine (int st) (int e) (off + 1) (s\<lparr> ls_lineBuf := ls_lineBuf s @ [b] \<rparr>)"
    have cur: "ls_curLine ?s = int (Suc k)" and buf: "ls_lineBuf ?s = []" using Cons.prems(2) by (simp_all add: flushLine_def Let_def)
    have out: "ls_out ?s = ls_out s @ (if st \<le> k then ls_lineBuf s @ [NL] else [])"
      "ls_emitted ?s = ls_emitted s + (if st \<le> k then 1 else 0)"
      using Cons.prems(2,3) True by (simp_all add: flushLine_def Let_def)
    have ll: "log_lines (ls_lineBuf s @ b # S) = (ls_lineBuf s @ [NL]) # log_lines S"
      using log_lines_snoc_NL [OF Cons.prems(1)] True by simp
    have ek: "e - k = Suc (e - Suc k)" using Cons.prems(3) by simp
    show ?thesis
    proof (cases "e \<le> Suc k")
      case le: True
      then have "scanned (int st) (int e) off (b # S) s = ?s" using True cur by (simp add: scanned_def Let_def)
      moreover have "e - Suc k = 0" using le by simp
      ultimately show ?thesis using ll out ek by (auto simp: drop_Cons')
    next
      case gt: False
      then have "scanned (int st) (int e) off (b # S) s = scanned (int st) (int e) (off + 1) S ?s"
        using True cur by (simp add: scanned_def Let_def add.assoc split: prod.splits bool.splits)
      moreover have "st - k = (if st \<le> k then 0 else Suc (st - Suc k))" by auto
      moreover note Cons.IH [of ?s "Suc k" "off + 1"]
      ultimately show ?thesis using cur buf gt ll out ek
        by (cases "st \<le> k") (simp_all del: length_take length_drop of_nat_diff of_nat_min)
    qed
  qed
qed

section \<open>Line ranges\<close>

definition line_at :: "string \<Rightarrow> string \<Rightarrow> Chunk \<Rightarrow> bool" where
  "line_at P raw c \<longleftrightarrow> raw \<noteq> [] \<and> ch_LineStart c = int (newlines P) \<and> ch_LineEnd c = int (length (log_lines (P @ raw)))"

abbreviation frame_at :: "LogReader \<Rightarrow> string \<Rightarrow> string \<Rightarrow> Chunk \<Rightarrow> bool" where
  "frame_at r P raw c \<equiv> raw_at r P raw c \<and> line_at P raw c"

definition holds_lines :: "LogReader \<Rightarrow> int \<Rightarrow> string \<Rightarrow> bool" where
  "holds_lines r g L \<longleftrightarrow> 0 < g \<and> tiles (frame_at r) [] (sort_key ch_Seq (chunksOf g (rd_Meta r))) L"

lemma holds_lines_holds: "holds_lines r g L \<Longrightarrow> holds r g L"
  unfolding holds_lines_def holds_def by (blast intro: tiles_mono)

lemma newlines_le: "newlines L \<le> length (log_lines L)" by (simp add: length_log_lines)

lemma length_log_lines_mono: "length (log_lines P) \<le> length (log_lines (P @ S))"
proof (cases "P = []")
  case False
  then have "0 < length (log_lines P)" by simp
  then show ?thesis by (auto simp: log_lines_append split: list.split)
qed simp

lemma no_more_lines:
  assumes "tiles (frame_at r) P cs L" and "en \<le> int (newlines P)"
  shows "filter (\<lambda>c. ch_LineEnd c > start \<and> ch_LineStart c < en) cs = []"
  using assms
proof (induction cs arbitrary: P)
  case (Cons c cs)
  then obtain raw where r: "line_at P raw c" "tiles (frame_at r) (P @ raw) cs L" by auto
  have "filter (\<lambda>c. ch_LineEnd c > start \<and> ch_LineStart c < en) cs = []" by (rule Cons.IH [OF r(2)]) (use Cons.prems(2) in simp)
  then show ?case using r(1) Cons.prems(2) by (simp add: line_at_def)
qed simp

text \<open>The frames of a line range are consecutive; they begin after a line before the range or at the start,
  and end with the log or after the range.\<close>

lemma line_block:
  assumes "tiles (frame_at r) P cs L"
  shows "\<exists>P0 S T. tiles (frame_at r) P0 (filter (\<lambda>c. ch_LineEnd c > int a \<and> ch_LineStart c < int e) cs) (P0 @ S) \<and>
     L = P0 @ S @ T \<and> (\<exists>Q. P0 = P @ Q) \<and> (length (log_lines P0) \<le> a \<or> P0 = P) \<and> (T = [] \<or> e \<le> newlines (P0 @ S))"
  using assms
proof (induction cs arbitrary: P)
  case (Cons c cs)
  let ?F = "\<lambda>c. ch_LineEnd c > int a \<and> ch_LineStart c < int e"
  from Cons.prems obtain raw where r: "frame_at r P raw c" "tiles (frame_at r) (P @ raw) cs L" by auto
  then obtain X where L: "L = P @ raw @ X" using tiles_prefix by fastforce
  from Cons.IH [OF r(2)] obtain P0 S T where ih: "tiles (frame_at r) P0 (filter ?F cs) (P0 @ S)" "L = P0 @ S @ T"
    "\<exists>Q. P0 = (P @ raw) @ Q" "length (log_lines P0) \<le> a \<or> P0 = P @ raw" "T = [] \<or> e \<le> newlines (P0 @ S)" by blast
  have mono: "ch_LineEnd c \<le> int (length (log_lines P0))"
    using ih(3) r(1) length_log_lines_mono [of "P @ raw"] by (auto simp: line_at_def)
  consider (inside) "?F c" | (before) "ch_LineEnd c \<le> int a" | (after) "int e \<le> ch_LineStart c" by fastforce
  then show ?case
  proof cases
    case inside
    then have P0: "P0 = P @ raw" using ih(4) mono by auto
    have "tiles (frame_at r) P (filter ?F (c # cs)) (P @ raw @ S)" using inside r(1) ih(1) unfolding P0 by auto
    then show ?thesis using ih(2,5) unfolding P0 by (intro exI [of _ P] exI [of _ "raw @ S"] exI [of _ T]) simp
  next
    case before
    then have "filter ?F (c # cs) = filter ?F cs" by simp
    moreover have "length (log_lines P0) \<le> a" using ih(4) before r(1) by (auto simp: line_at_def)
    moreover have "\<exists>Q. P0 = P @ Q" using ih(3) by auto
    ultimately show ?thesis using ih(1,2,5) by (intro exI [of _ P0] exI [of _ S] exI [of _ T]) simp
  next
    case after
    then have "int e \<le> int (newlines P)" using r(1) by (simp add: line_at_def)
    from no_more_lines [OF Cons.prems this, of "int a"] this show ?thesis using L
      by (intro exI [of _ P] exI [of _ "[]"] exI [of _ "raw @ X"]) simp
  qed
qed (intro exI [of _ L] exI [of _ "[]"], simp)

fun contiguous :: "int \<Rightarrow> (string \<times> int \<times> int) list \<Rightarrow> bool" where
  "contiguous off [] = True"
| "contiguous off ((raw, start, l) # segs) = (start = off \<and> contiguous (off + int (length raw)) segs)"

abbreviation joined :: "(string \<times> int \<times> int) list \<Rightarrow> string" where "joined segs \<equiv> concat (map fst segs)"

lemma lineSegs_run:
  assumes "tiles (frame_at r) P cs (P @ S)" and "x < 0 \<or> int (newlines P) \<le> x"
    and "lineSegs flt r k x cs segs res = (err, segs', res')"
  shows "(err = None \<longrightarrow> (\<exists>new. segs' = segs @ new \<and> contiguous (int (length P)) new \<and> joined new = S \<and>
            map (\<lambda>(raw, o', l). l) new = map ch_LineStart cs)) \<and>
         ((\<forall>k j. \<not> flt k j) \<longrightarrow> err = None)"
  using assms
proof (induction cs arbitrary: P S x k segs res)
  case (Cons c cs)
  from Cons.prems(1) obtain raw where r: "frame_at r P raw c" "tiles (frame_at r) (P @ raw) cs (P @ S)" by auto
  then obtain S' where S: "S = raw @ S'" using tiles_prefix [OF r(2)] by auto
  have gap: "(x \<ge> 0 \<and> ch_LineStart c > x) = False" using Cons.prems(2) r(1) by (auto simp: line_at_def)
  from decompressChunk_reads [of r c raw "flt k"] r(1) consider (bad) y where "decompressChunk (flt k) r c = Inl y" "flt k 0 \<or> flt k 1"
    | (ok) "decompressChunk (flt k) r c = Inr raw" by (auto simp: raw_at_def)
  then show ?case
  proof cases
    case bad
    then show ?thesis using Cons.prems(3) gap by (auto split: if_splits)
  next
    case ok
    let ?x = "if ch_LineEnd c > x then ch_LineEnd c else x"
    have run: "lineSegs flt r (Suc k) ?x cs (segs @ [(raw, ch_RawStart c, ch_LineStart c)]) (opened c raw res) = (err, segs', res')"
      using Cons.prems(3) gap ok by simp
    have "int (newlines (P @ raw)) \<le> ?x" using r(1) newlines_le [of "P @ raw"] by (auto simp: line_at_def)
    moreover have "tiles (frame_at r) (P @ raw) cs ((P @ raw) @ S')" using r(2) S by simp
    ultimately have ih: "(err = None \<longrightarrow> (\<exists>new. segs' = (segs @ [(raw, ch_RawStart c, ch_LineStart c)]) @ new \<and>
            contiguous (int (length (P @ raw))) new \<and> joined new = S' \<and> map (\<lambda>(raw, o', l). l) new = map ch_LineStart cs)) \<and>
         ((\<forall>k j. \<not> flt k j) \<longrightarrow> err = None)" using Cons.IH [OF _ _ run] by blast
    have "\<exists>new. segs' = segs @ new \<and> contiguous (int (length P)) new \<and> joined new = S \<and> map (\<lambda>(raw, o', l). l) new = map ch_LineStart (c # cs)"
      if none: "err = None"
    proof -
      from ih none obtain new where n: "segs' = (segs @ [(raw, ch_RawStart c, ch_LineStart c)]) @ new"
        "contiguous (int (length (P @ raw))) new" "joined new = S'" "map (\<lambda>(raw, o', l). l) new = map ch_LineStart cs" by blast
      then show ?thesis using r(1) S by (intro exI [of _ "(raw, ch_RawStart c, ch_LineStart c) # new"]) (simp add: raw_at_def)
    qed
    then show ?thesis using ih by blast
  qed
qed auto

lemma lineSegs_LineStart: "lineSegs flt r k x cs segs res = (err, segs', res') \<Longrightarrow> rx_LineStart res' = rx_LineStart res"
  by (induction flt r k x cs segs res rule: lineSegs.induct) (auto simp: opened_def split: if_splits sum.splits)

lemma scanSegs_joined:
  "contiguous off segs \<Longrightarrow> scanSegs st en segs s = scanBytes st en off (joined segs) s"
proof (induction st en segs s arbitrary: off rule: scanSegs.induct)
  case (2 st en raw start l segs s)
  then show ?case by (auto simp: scanBytes_append split: prod.splits bool.splits)
qed simp

lemma contiguous_last:
  "contiguous off segs \<Longrightarrow> segs \<noteq> [] \<Longrightarrow> last segs = (raw, start, l) \<Longrightarrow> start + int (length raw) = off + int (length (joined segs))"
  by (induction off segs rule: contiguous.induct) (auto split: if_splits)

lemma extractLines_joined:
  assumes "contiguous off segs" and "segs \<noteq> []"
  shows "extractLines st en segs = scanned st en off (joined segs)
     \<lparr> ls_out = [], ls_curLine = snd (snd (hd segs)), ls_lineBuf = [], ls_emitted = 0, ls_firstEmit = True,
       ls_rawStart = - 1, ls_rawEnd = 0 \<rparr>"
proof -
  obtain raw start l where last: "last segs = (raw, start, l)" using prod_cases3 by blast
  show ?thesis using contiguous_last [OF assms last] scanSegs_joined [OF assms(1)]
    by (simp add: extractLines_def scanned_def last split: prod.split bool.split)
qed

lemma lines_block_slice:
  assumes "L = P0 @ S @ T" and "length (log_lines P0) \<le> a" and "T = [] \<or> e \<le> newlines (P0 @ S)" and "a < e"
  shows "drop a (take e (log_lines L)) = drop (a - newlines P0) (take (e - newlines P0) (log_lines S))"
proof -
  let ?k = "newlines P0"
  have k: "?k \<le> a" using newlines_le [of P0] assms(2) by simp
  have "drop a (take e (log_lines L)) = take (e - a) (drop (a - ?k) (log_lines (S @ T)))"
    unfolding assms(1) drop_take drop_lines_append [OF assms(2)] ..
  also have "\<dots> = drop (a - ?k) (take (e - ?k) (log_lines (S @ T)))" using k by (simp add: drop_take)
  also have "take (e - ?k) (log_lines (S @ T)) = take (e - ?k) (log_lines S)"
    using assms(3) take_lines_append [of "e - ?k" S T] by auto
  finally show ?thesis .
qed

lemma ReadLineRange_slice:
  assumes "holds_lines r g L" and "0 \<le> startLine" and "0 \<le> count" and "startLine + count < 2 ^ 63"
    and read: "ReadLineRange flt r g startLine count = (err, res)"
  shows "(err = None \<longrightarrow> rx_Data res = concat (take (nat count) (drop (nat startLine) (log_lines L))) \<and>
            rx_LineStart res = startLine \<and>
            rx_LineEnd res = startLine + int (length (take (nat count) (drop (nat startLine) (log_lines L))))) \<and>
         ((\<forall>k j. \<not> flt k j) \<longrightarrow> err = None)"
proof (cases "count = 0")
  case True
  then show ?thesis using assms by (auto simp: ReadLineRange_def holds_lines_def noRead_def)
next
  case False
  define a e where "a = nat startLine" and "e = nat (startLine + count)"
  have ae: "startLine = int a" "startLine + count = int e" "a < e" "nat count = e - a"
    using assms(2,3) False by (auto simp: a_def e_def)
  have w: "wrap64 (startLine + count) = int e" using assms(2-4) ae by (simp add: wrap64_id)
  let ?cs = "sort_key ch_Seq (chunksOf g (rd_Meta r))"
  let ?fs = "filter (\<lambda>c. ch_LineEnd c > int a \<and> ch_LineStart c < int e) ?cs"
  let ?res = "noRead\<lparr> rx_GenerationID := g, rx_LineStart := startLine \<rparr>"
  have g: "0 < g" and tl: "tiles (frame_at r) [] ?cs L" using assms(1) by (auto simp: holds_lines_def)
  have slice: "take (nat count) (drop (nat startLine) (log_lines L)) = drop a (take e (log_lines L))"
    unfolding ae(1,4) by (simp add: drop_take)
  have cks: "ChunksIntersectingLines (flt 0 0) g startLine (int e) (rd_Meta r) =
      (if flt 0 0 then Inl (newErr CodeCorruptCache ''failed to list chunks'') else Inr ?fs)"
    using g ae by (simp add: ChunksIntersectingLines_def ListChunks_def)
  from line_block [OF tl, of a e] obtain P0 S T where block: "tiles (frame_at r) P0 ?fs (P0 @ S)" "L = P0 @ S @ T"
    "length (log_lines P0) \<le> a \<or> P0 = []" "T = [] \<or> e \<le> newlines (P0 @ S)" by blast
  then have P0: "length (log_lines P0) \<le> a" by auto
  note lines = lines_block_slice [OF block(2) P0 block(4) ae(3)]
  show ?thesis
  proof (cases "flt 0 0")
    case True
    then show ?thesis using read cks g False assms(2,3) w by (auto simp: ReadLineRange_def Let_def)
  next
    case ok: False
    show ?thesis
    proof (cases "?fs = []")
      case True
      then have "S = []" using block(1) by simp
      then have "drop a (take e (log_lines L)) = []" using lines by simp
      then show ?thesis using read cks ok True g False assms(2,3) w slice by (auto simp: ReadLineRange_def Let_def noRead_def)
    next
      case ne: False
      obtain c ds where cd: "?fs = c # ds" using ne by (cases ?fs) auto
      obtain er segs res1 where run: "lineSegs (\<lambda>k. flt (Suc k)) r 0 (- 1) ?fs [] ?res = (er, segs, res1)"
        by (cases "lineSegs (\<lambda>k. flt (Suc k)) r 0 (- 1) ?fs [] ?res") blast
      have "ReadLineRange flt r g startLine count = (case (er, segs, res1) of (Some e, _, res) \<Rightarrow> (Some e, res)
               | (None, segs, res) \<Rightarrow> (None, lineResult startLine (extractLines startLine (int e) segs) res))"
        using cks ok g False assms(2,3) w run cd ae(1) by (simp add: ReadLineRange_def Let_def del: lineSegs.simps filter.simps split: option.split)
      then have out: "(err, res) = (case er of Some e \<Rightarrow> (Some e, res1)
          | None \<Rightarrow> (None, lineResult startLine (extractLines startLine (int e) segs) res1))"
        using read by (auto split: option.splits)
      from lineSegs_run [OF block(1) _ run] have segs: "er = None \<Longrightarrow> contiguous (int (length P0)) segs \<and> joined segs = S \<and>
          map (\<lambda>(raw, o', l). l) segs = map ch_LineStart ?fs" "(\<forall>k j. \<not> flt k j) \<longrightarrow> er = None" by auto
      have keep: "rx_LineStart res1 = startLine" if "er = None"
        using lineSegs_LineStart [OF run] by (simp add: noRead_def)
      show ?thesis
      proof (cases er)
        case None
        note sg = segs(1) [OF None]
        from block(1) cd have c: "ch_LineStart c = int (newlines P0)" by (auto simp: line_at_def)
        have "c \<in> set ?fs" unfolding cd by simp
        then have k: "newlines P0 < e" using c by auto
        have ne: "segs \<noteq> []" using sg cd by (metis list.distinct(1) list.map_disc_iff)
        have hd: "snd (snd (hd segs)) = int (newlines P0)" using sg cd c ne by (cases segs) auto
        let ?s0 = "\<lparr> ls_out = [], ls_curLine = int (newlines P0), ls_lineBuf = [], ls_emitted = 0, ls_firstEmit = True,
          ls_rawStart = - 1, ls_rawEnd = 0 \<rparr>"
        have ext: "extractLines startLine (int e) segs = scanned (int a) (int e) (int (length P0)) S ?s0"
          using extractLines_joined [OF conjunct1 [OF sg] ne] sg hd ae(1) by simp
        have "ls_out (extractLines startLine (int e) segs) = concat (drop a (take e (log_lines L))) \<and>
              ls_emitted (extractLines startLine (int e) segs) = int (length (drop a (take e (log_lines L))))"
          using scanned_lines [of ?s0 "newlines P0" e a "int (length P0)" S] k unfolding ext lines by simp
        then show ?thesis using out None slice keep by (auto simp: lineResult_def Let_def)
      qed (use out segs(2) in auto)
    qed
  qed
qed

end
