(* ===== verification/FrameWriterCorrect.thy ===== *)
theory FrameWriterCorrect
  imports FrameWriter FrameLines FleetLiveness
begin

text \<open>
  The frame writer against the abstract log: a generation has a durable log \<open>L\<close>, which its frames tile with
  the right lines, and a buffer \<open>B\<close> of accepted bytes. Appending extends \<open>L @ B\<close> by the data and moves bytes
  from \<open>B\<close> to \<open>L\<close>, whatever fails; the cursor of an open generation is that of a freshly opened one.
\<close>

section \<open>Walking over the lines of a frame\<close>

lemma walkLoop_lines:
  "maxLine \<le> line \<Longrightarrow> walkLoop off raw (line, maxLine, n, cps) = (l, mx, n', cps') \<Longrightarrow> l = line + int (newlines raw) \<and> mx \<le> l"
proof (induction raw arbitrary: off line maxLine n cps)
  case (Cons c cs)
  let ?m = "if line > maxLine then line else maxLine"
  have m: "?m = line" using Cons.prems(1) by auto
  obtain n2 cps2 where step: "walkLoop (off + 1) cs ((if c = NL then line + 1 else line), line, n2, cps2) = (l, mx, n', cps')"
    using Cons.prems(2) m by (cases "c = NL") (auto simp: Let_def)
  have "line \<le> (if c = NL then line + 1 else line)" by simp
  from Cons.IH [OF this step] show ?case by auto
qed simp

lemma walkLines_lines:
  assumes "raw \<noteq> []" and "walkLines raw off (int (newlines L)) first = (cps, lineEnd, next, ended)"
  shows "lineEnd = int (length (log_lines (L @ raw)))" and "next = int (newlines (L @ raw))" and "ended = at_line_start (L @ raw)"
proof -
  obtain l mx n cps' where loop: "walkLoop off raw (int (newlines L), int (newlines L), 0,
      if first then [\<lparr> cp_LineNo = int (newlines L), cp_RawOffset = off \<rparr>] else []) = (l, mx, n, cps')" by (rule prod_cases4)
  from walkLoop_lines [OF order_refl loop] have l: "l = int (newlines (L @ raw))" "mx \<le> l" by simp_all
  have pos: "0 < newlines raw" if "last raw = NL"
    using that last_in_set [OF assms(1)] by (auto simp: newlines_def filter_empty_conv)
  show "lineEnd = int (length (log_lines (L @ raw)))" "next = int (newlines (L @ raw))" "ended = at_line_start (L @ raw)"
    using assms loop l pos by (auto simp: walkLines_def at_line_start_def length_log_lines Let_def split: if_splits)
qed

section \<open>The invariant\<close>

definition DecoderMaxMemory :: int where "DecoderMaxMemory = 64 * 2 ^ 20"

text \<open>What is used of the codec and the configuration: within the memory limit of the decoder, decompression undoes compression, and a
  compressed frame does not look like an encrypted one; what is written can be read with the same keys.\<close>

definition codec_ok :: "Frames \<Rightarrow> bool" where
  "codec_ok f \<longleftrightarrow>
     (\<forall>raw. int (length raw) \<le> DecoderMaxMemory \<longrightarrow>
        fw_Zstd f (fw_Compress f raw) = Inr raw \<and> \<not> IsEncrypted (fw_Compress f raw)) \<and>
     reads_from (fw_Crypto f) (fw_Crypto f) \<and> frameMax f \<le> DecoderMaxMemory"

definition log_frames :: "Frames \<Rightarrow> int \<Rightarrow> string \<Rightarrow> bool" where
  "log_frames f g L \<longleftrightarrow>
     (let cks = chunksOf g (fw_Meta f) in
      0 < g \<and> (\<exists>gen \<in> set (mt_generations (fw_Meta f)). lg_ID gen = g) \<and>
      (\<forall>gen \<in> set (mt_generations (fw_Meta f)). lg_ID gen = g \<longrightarrow> \<not> lg_L1Released gen) \<and> map ch_Seq cks = map int [0..<length cks] \<and>
      (\<forall>c \<in> set cks. ch_RelPath c = FrameRelPath g (ch_Seq c)) \<and> tiles (frame_at (ReaderOf f)) [] cks L)"

definition cursor_at :: "openGen \<Rightarrow> int \<Rightarrow> string \<Rightarrow> nat \<Rightarrow> bool" where
  "cursor_at og g L n \<longleftrightarrow>
     og_generationID og = g \<and> og_rawStart og = int (length L) \<and> og_durableEnd og = int (length L) \<and> og_nextSeq og = int n \<and>
     og_lineAtRawStart og = int (newlines L) \<and> og_prevEndedNL og = at_line_start L"

definition log_inv :: "Frames \<Rightarrow> int \<Rightarrow> string \<Rightarrow> string \<Rightarrow> bool" where
  "log_inv f g L B \<longleftrightarrow>
     log_frames f g L \<and>
     (case openOf f g of None \<Rightarrow> B = []
      | Some og \<Rightarrow> og_buf og = B \<and> cursor_at og g L (length (chunksOf g (fw_Meta f))))"

text \<open>The parts of the store that no operation on frames touches.\<close>

definition same_store :: "Frames \<Rightarrow> Frames \<Rightarrow> bool" where
  "same_store f f' \<longleftrightarrow>
     fw_Crypto f' = fw_Crypto f \<and> fw_Compress f' = fw_Compress f \<and> fw_Zstd f' = fw_Zstd f \<and>
     fw_TargetBytes f' = fw_TargetBytes f \<and> fw_MaxBytes f' = fw_MaxBytes f \<and> fw_fault f' = fw_fault f \<and> fw_nonce f' = fw_nonce f \<and>
     mt_generations (fw_Meta f') = mt_generations (fw_Meta f) \<and> mt_lastGeneration (fw_Meta f') = mt_lastGeneration (fw_Meta f)"

lemma same_store_refl [simp]: "same_store f f" by (simp add: same_store_def)

lemma same_store_trans: "same_store f f' \<Longrightarrow> same_store f' f'' \<Longrightarrow> same_store f f''" by (simp add: same_store_def)

lemma frameMax_same: "same_store f f' \<Longrightarrow> frameMax f' = frameMax f"
  by (auto simp: same_store_def frameMax_def frameTarget_def Let_def)

lemma codec_ok_same: "same_store f f' \<Longrightarrow> codec_ok f' = codec_ok f"
  using frameMax_same [of f f'] by (simp add: same_store_def codec_ok_def)

lemma sorted_seqs: "map ch_Seq cks = map int [0..<n] \<Longrightarrow> sort_key ch_Seq cks = cks"
proof -
  assume "map ch_Seq cks = map int [0..<n]"
  moreover have "sorted (map int [0..<n])" by (simp add: sorted_iff_nth_mono)
  ultimately have "sorted (map ch_Seq cks)" by simp
  then show ?thesis by (rule sort_key_id_if_sorted)
qed

text \<open>What the invariant says to a reader.\<close>

lemma log_frames_holds: "log_frames f g L \<Longrightarrow> holds_lines (ReaderOf f) g L"
  unfolding log_frames_def holds_lines_def Let_def by (auto simp: sorted_seqs ReaderOf_def)

section \<open>Committing a frame\<close>

lemma reads_local:
  assumes "reads r c raw" and "FrameAbsPath (ch_RelPath c) = Inr path" and "rd_Files r' path = rd_Files r path"
    and "rd_Crypto r' = rd_Crypto r" and "rd_Zstd r' = rd_Zstd r"
  shows "reads r' c raw"
proof -
  have "OpenFrameCompressed False (rd_Crypto r') (rd_Files r') c = OpenFrameCompressed False (rd_Crypto r) (rd_Files r) c"
    using assms(2-4) by (simp add: OpenFrameCompressed_def)
  then show ?thesis using assms(1,5) by (simp add: reads_def decompressChunkFile_def)
qed

text \<open>An operation on generation \<open>g\<close> leaves the others alone.\<close>

definition only_on :: "int \<Rightarrow> Frames \<Rightarrow> Frames \<Rightarrow> bool" where
  "only_on g f f' \<longleftrightarrow>
     same_store f f' \<and>
     (\<forall>h. h \<noteq> g \<longrightarrow> chunksOf h (fw_Meta f') = chunksOf h (fw_Meta f) \<and> openOf f' h = openOf f h \<and>
       (\<forall>q. fw_Files f' (FrameRelPath h q) = fw_Files f (FrameRelPath h q)))"

lemma only_on_refl [simp]: "only_on g f f" by (simp add: only_on_def)

lemma only_on_trans: "only_on g f f' \<Longrightarrow> only_on g f' f'' \<Longrightarrow> only_on g f f''"
  unfolding only_on_def using same_store_trans by fastforce

lemma only_on_same: "only_on g f f' \<Longrightarrow> same_store f f'" by (simp add: only_on_def)

lemma log_frames_local:
  assumes "log_frames f g L" and "same_store f f'" and "chunksOf g (fw_Meta f') = chunksOf g (fw_Meta f)"
    and "\<And>c. c \<in> set (chunksOf g (fw_Meta f)) \<Longrightarrow> fw_Files f' (FrameRelPath g (ch_Seq c)) = fw_Files f (FrameRelPath g (ch_Seq c))"
  shows "log_frames f' g L"
proof -
  have step: "frame_at (ReaderOf f') Q raw c" if c: "c \<in> set (chunksOf g (fw_Meta f))" and fr: "frame_at (ReaderOf f) Q raw c" for Q raw c
  proof -
    have "ch_RelPath c = FrameRelPath g (ch_Seq c)" using assms(1) c by (auto simp: log_frames_def Let_def)
    then have "FrameAbsPath (ch_RelPath c) = Inr (FrameRelPath g (ch_Seq c))" by (simp add: FrameAbsPath_rel)
    then have "reads (ReaderOf f') c raw"
      using reads_local [of "ReaderOf f" c raw] fr assms(2) assms(4) [OF c] by (simp add: raw_at_def ReaderOf_def same_store_def)
    then show ?thesis using fr by (simp add: raw_at_def)
  qed
  have "tiles (frame_at (ReaderOf f)) [] (chunksOf g (fw_Meta f)) L" using assms(1) by (simp add: log_frames_def Let_def)
  then have "tiles (frame_at (ReaderOf f')) [] (chunksOf g (fw_Meta f)) L" by (rule tiles_mono) (rule step)
  then show ?thesis using assms(1-3) by (simp add: log_frames_def Let_def same_store_def)
qed

lemma log_inv_elsewhere:
  assumes "log_inv f h L B" and "only_on g f f'" and "h \<noteq> g"
  shows "log_inv f' h L B"
  using assms log_frames_local [of f h L f'] by (auto simp: log_inv_def only_on_def split: option.splits)

lemma frame_written:
  assumes "codec_ok f" and "raw \<noteq> []" and "int (length raw) \<le> DecoderMaxMemory" and "cursor_at og g L n"
    and "sealCompressed (fw_Crypto f) nonce g (int n) FrameFormatVersion (fw_Compress f raw) = Inr (onDisk, encAlg, encVer)"
    and "walkLines raw (int (length L)) (int (newlines L)) first = (cps, lineEnd, next, ended)"
    and "rd_Files r (FrameRelPath g (int n)) = Some onDisk" and "rd_Crypto r = fw_Crypto f" and "rd_Zstd r = fw_Zstd f"
  shows "frame_at r L raw (frameChunk og raw cps lineEnd (fw_Compress f raw) onDisk encAlg encVer)"
proof -
  let ?c = "frameChunk og raw cps lineEnd (fw_Compress f raw) onDisk encAlg encVer"
  have og: "og_generationID og = g" "og_rawStart og = int (length L)" "og_nextSeq og = int n" "og_lineAtRawStart og = int (newlines L)"
    using assms(4) by (auto simp: cursor_at_def)
  have z: "fw_Zstd f (fw_Compress f raw) = Inr raw" "\<not> IsEncrypted (fw_Compress f raw)" "reads_from (fw_Crypto f) (fw_Crypto f)"
    using assms(1,3) by (auto simp: codec_ok_def)
  have "OpenFrameCompressed False (rd_Crypto r) (rd_Files r) ?c = Inr (fw_Compress f raw)"
    using openToCompressed_sealCompressed [OF assms(5) z(3,2)] assms(7,8) og
    by (simp add: OpenFrameCompressed_def frameChunk_def FrameAbsPath_rel FrameFormatVersion_def)
  then have "reads r ?c raw" using z(1) assms(9) by (simp add: reads_def decompressChunkFile_def) (simp add: frameChunk_def)
  moreover have "line_at L raw ?c" using walkLines_lines(1) [OF assms(2,6)] assms(2) og by (simp add: line_at_def frameChunk_def)
  ultimately show ?thesis using og by (simp add: raw_at_def frameChunk_def)
qed

lemma chunksOf_insert:
  "chunksOf h (m\<lparr> mt_chunks := mt_chunks m @ [c] \<rparr>) = (if ch_GenerationID c = h then chunksOf h m @ [c] else chunksOf h m)"
  by (simp add: chunksOf_def)

text \<open>What a commit does: nothing that can be seen when it fails, one frame more when it succeeds.\<close>

lemma commit_log:
  assumes codec: "codec_ok f" and log: "log_frames f g L" and cur: "cursor_at og g L (length (chunksOf g (fw_Meta f)))"
    and small: "n \<le> DecoderMaxMemory" and run: "commitSliceLocked og n f = (e, og', f')"
  shows "only_on g f f' \<and> fw_open f' = fw_open f \<and>
    (case e of Some x \<Rightarrow> og' = og \<and> log_frames f' g L \<and> chunksOf g (fw_Meta f') = chunksOf g (fw_Meta f)
     | None \<Rightarrow> log_frames f' g (L @ take (nat n) (og_buf og)) \<and> og_buf og' = drop (nat n) (og_buf og) \<and> 0 < n \<and>
         cursor_at og' g (L @ take (nat n) (og_buf og)) (length (chunksOf g (fw_Meta f'))))"
proof -
  let ?m = "fw_Meta f" and ?raw = "take (nat n) (og_buf og)" and ?flt = "fw_faults f" and ?z = "fw_Compress f (take (nat n) (og_buf og))"
  define N where "N = length (chunksOf g ?m)"
  have og: "og_generationID og = g" "og_rawStart og = int (length L)" "og_nextSeq og = int N" "og_lineAtRawStart og = int (newlines L)"
    using cur by (auto simp: cursor_at_def N_def)
  have seqs: "map ch_Seq (chunksOf g ?m) = map int [0..<N]" and g: "0 < g"
    using log by (auto simp: log_frames_def Let_def N_def)
  have fresh: "int N \<notin> ch_Seq ` set (chunksOf g ?m)"
  proof -
    have "ch_Seq ` set (chunksOf g ?m) = int ` {0..<N}" by (metis seqs image_set set_upt)
    then show ?thesis by auto
  qed
  let ?path = "FrameRelPath g (int N)"
  have files: "log_frames f1 g L \<and> only_on g f f1" if "same_store f f1" "mt_chunks (fw_Meta f1) = mt_chunks ?m" "fw_open f1 = fw_open f"
      "fw_Files f1 = fw_Files f \<or> (\<exists>b. fw_Files f1 = (fw_Files f)(?path := b))" for f1
  proof -
    have same: "fw_Files f1 (FrameRelPath h q) = fw_Files f (FrameRelPath h q)" if "h \<noteq> g \<or> q \<noteq> int N" for h q
      using \<open>fw_Files f1 = fw_Files f \<or> (\<exists>b. fw_Files f1 = (fw_Files f)(?path := b))\<close> FrameRelPath_inj [of h q g "int N"] that by auto
    have cks: "chunksOf h (fw_Meta f1) = chunksOf h ?m" for h using that(2) by (simp add: chunksOf_def)
    have "log_frames f1 g L"
      by (rule log_frames_local [OF log that(1) cks]) (use fresh in \<open>force intro!: same simp: image_iff\<close>)
    then show ?thesis using same cks that(1,3) by (simp add: only_on_def)
  qed
  show ?thesis
  proof (cases "n \<le> 0 \<or> n > int (length (og_buf og))")
    case True
    then show ?thesis using run log by (auto simp: commitSliceLocked_def)
  next
    case False
    then have raw: "?raw \<noteq> []" "int (length ?raw) \<le> DecoderMaxMemory" "int (length ?raw) = n" "0 < n" using small by auto
    obtain cps lineEnd nxt ended where walk:
      "walkLines ?raw (int (length L)) (int (newlines L)) (og_prevEndedNL og \<or> int (length L) = 0) = (cps, lineEnd, nxt, ended)" by (rule prod_cases4)
    note body = run [unfolded commitSliceLocked_def if_not_P [OF False] Let_def og walk prod.case FrameAbsPath_rel sum.case]
    show ?thesis
    proof (cases "?flt 0")
      case True
      have "log_frames (fw_called f) g L \<and> only_on g f (fw_called f)" by (rule files) (simp_all add: same_store_def)
      then show ?thesis using body True by auto
    next
      case f0: False
      show ?thesis
      proof (cases "sealCompressed (fw_Crypto f) (fw_nonce f (fw_calls f)) g (int N) FrameFormatVersion ?z")
        case (Inl x)
        have "log_frames (fw_called f) g L \<and> only_on g f (fw_called f)" by (rule files) (simp_all add: same_store_def)
        then show ?thesis using body f0 Inl by auto
      next
        case (Inr sealed)
        obtain onDisk encAlg encVer where sealed: "sealed = (onDisk, encAlg, encVer)" by (rule prod_cases3)
        note seal = Inr [unfolded sealed]
        obtain we fs where wrt: "writeFileAtomic (\<lambda>k. ?flt (1 + k)) ?path onDisk (fw_Files f) = (we, fs)" by fastforce
        have fs: "fs = fw_Files f \<or> fs = (fw_Files f)(?path \<mapsto> onDisk)" "we = None \<Longrightarrow> fs = (fw_Files f)(?path \<mapsto> onDisk)"
          using wrt by (auto simp: writeFileAtomic_def Let_def split: if_splits)
        note body1 = body [unfolded if_not_P [OF f0] seal sum.case prod.case wrt]
        let ?c = "frameChunk og ?raw cps lineEnd ?z onDisk encAlg encVer"
        show ?thesis
        proof (cases we)
          case (Some x)
          let ?f1 = "(fw_called f)\<lparr> fw_Files := fs \<rparr>"
          have "log_frames ?f1 g L \<and> only_on g f ?f1" by (rule files) (use fs in \<open>auto simp: same_store_def\<close>)
          then show ?thesis using body1 Some by (auto simp: chunksOf_def)
        next
          case None
          obtain ie m' where ins: "InsertChunk (?flt 3) ?c ?m = (ie, m')" by fastforce
          have chunk: "ch_GenerationID ?c = g" "ch_Seq ?c = int N" "ch_RelPath ?c = ?path" by (simp_all add: frameChunk_def og)
          from ins show ?thesis
          proof (cases rule: InsertChunk_effect)
            case no
            let ?f1 = "(fw_called f)\<lparr> fw_Files := fs, fw_Meta := m' \<rparr>"
            have "log_frames ?f1 g L \<and> only_on g f ?f1" by (rule files) (use fs no in \<open>auto simp: same_store_def\<close>)
            then show ?thesis using body1 None ins no by (auto simp: chunksOf_def)
          next
            case yes
            let ?f1 = "(fw_called f)\<lparr> fw_Files := fs \<rparr>" and ?f2 = "(fw_called f)\<lparr> fw_Files := fs, fw_Meta := m' \<rparr>"
            have l1: "log_frames ?f1 g L \<and> only_on g f ?f1" by (rule files) (use fs in \<open>auto simp: same_store_def\<close>)
            have cks: "chunksOf h m' = (if h = g then chunksOf g ?m @ [?c] else chunksOf h ?m)" for h
              using yes(2) chunk(1) by (simp add: chunksOf_insert)
            have "frame_at (ReaderOf ?f1) L ?raw ?c"
              by (rule frame_written [OF codec raw(1,2) _ seal walk]) (use cur fs(2) None in \<open>simp_all add: ReaderOf_def N_def\<close>)
            moreover have "tiles (frame_at (ReaderOf ?f1)) [] (chunksOf g ?m) L" using l1 by (simp add: log_frames_def Let_def chunksOf_def)
            ultimately have "tiles (frame_at (ReaderOf ?f1)) [] (chunksOf g ?m @ [?c]) (L @ ?raw)" unfolding tiles_snoc by blast
            then have "tiles (frame_at (ReaderOf ?f2)) [] (chunksOf g m') (L @ ?raw)"
              by (simp add: cks ReaderOf_def raw_at_def reads_def)
            moreover have "map ch_Seq (chunksOf g m') = map int [0..<length (chunksOf g m')]"
              using seqs chunk(2) by (simp add: cks N_def)
            moreover have "\<forall>c \<in> set (chunksOf g m'). ch_RelPath c = FrameRelPath g (ch_Seq c)"
              using log chunk cks [of g] by (auto simp: log_frames_def Let_def)
            moreover have "mt_generations m' = mt_generations ?m" using yes(2) by simp
            ultimately have l2: "log_frames ?f2 g (L @ ?raw)" using log by (simp add: log_frames_def Let_def)
            have "same_store f ?f2" using yes(2) by (simp add: same_store_def)
            moreover have "\<forall>h. h \<noteq> g \<longrightarrow> chunksOf h m' = chunksOf h ?m" using cks by simp
            ultimately have only: "only_on g f ?f2" using l1 by (simp add: only_on_def)
            have len: "length (chunksOf g m') = Suc N" using cks [of g] by (simp add: N_def)
            have "e = None" "f' = ?f2" "og' = og\<lparr> og_buf := drop (nat n) (og_buf og), og_rawStart := int (length L) + n,
                     og_durableEnd := int (length L) + n, og_nextSeq := int N + 1, og_lineAtRawStart := nxt, og_prevEndedNL := ended \<rparr>"
              using body1 None ins yes(1) by auto
            then show ?thesis using l2 only len walkLines_lines(2,3) [OF raw(1) walk] raw(3,4) og(1) by (simp add: cursor_at_def)
          qed
        qed
      qed
    qed
  qed
qed

section \<open>Opening a generation\<close>

lemma lineCursor_log:
  assumes "frame_at (ReaderOf f) Q raw c" and "lineCursorAfterChunk fails f c = Inr (ended, next)"
  shows "ended = at_line_start (Q @ raw)" and "next = int (newlines (Q @ raw))"
proof -
  have "decompressChunkFile fails (fw_Zstd f) (fw_Crypto f) (fw_Files f) c = Inr raw"
    using decompressChunk_reads(1) [of "ReaderOf f" c raw "\<lambda>j. j = 1 \<and> fails"] assms
    by (auto simp: raw_at_def decompressChunk_def ReaderOf_def lineCursorAfterChunk_def split: sum.splits)
  then show "ended = at_line_start (Q @ raw)" "next = int (newlines (Q @ raw))"
    using assms by (auto simp: lineCursorAfterChunk_def line_at_def at_line_start_def length_log_lines split: if_splits)
qed

lemma openFromStore_cursor:
  assumes log: "log_frames f g L" and run: "openFromStore flt g f = Inr og"
  shows "cursor_at og g L (length (chunksOf g (fw_Meta f)))" and "og_buf og = []"
proof -
  let ?cs = "chunksOf g (fw_Meta f)"
  have seqs: "map ch_Seq ?cs = map int [0..<length ?cs]" and g: "0 < g"
    and tl: "tiles (frame_at (ReaderOf f)) [] ?cs L" and gen: "\<forall>gen \<in> set (mt_generations (fw_Meta f)). lg_ID gen = g \<longrightarrow> \<not> lg_L1Released gen"
    using log by (auto simp: log_frames_def Let_def)
  from log_frames_holds [OF log] have holds: "holds (ReaderOf f) g L" by (rule holds_lines_holds)
  have rd: "rd_Meta (ReaderOf f) = fw_Meta f" by (simp add: ReaderOf_def)
  have "cursor_at og g L (length ?cs) \<and> og_buf og = []"
  proof (cases "?cs = []")
    case True
    then have L: "L = []" using tl by simp
    have "DurableRawEnd flt g (fw_Meta f) = Inr d \<Longrightarrow> d = 0" for d
      using True gen g by (auto simp: DurableRawEnd_def maxOf_def GetGenerationByID_def find_Some_iff split: sum.splits option.splits if_splits)
    then show ?thesis using run True L
      by (auto simp: openFromStore_def NextChunkSeq_def maxOf_def cursor_at_def at_line_start_def Let_def split: sum.splits if_splits)
  next
    case False
    have dur: "DurableRawEnd flt g (fw_Meta f) = Inr d \<Longrightarrow> d = int (length L)" for d
      using DurableRawEnd_log [OF holds, of flt] False unfolding rd by (auto split: if_splits)
    obtain k where k: "length ?cs = Suc k" using False by (cases ?cs) auto
    have "Max (set (map ch_Seq ?cs)) = int k" unfolding seqs k by (intro Max_eqI) auto
    then have seq: "NextChunkSeq fails g (fw_Meta f) = Inr q \<Longrightarrow> q = int (length ?cs)" for fails q
      using False k by (auto simp: NextChunkSeq_def maxOf_Max split: if_splits)
    obtain cs c where cs: "?cs = cs @ [c]" using False by (metis rev_exhaust)
    from tl obtain Q raw where Q: "frame_at (ReaderOf f) Q raw c" "L = Q @ raw" unfolding cs tiles_snoc by blast
    have pos: "\<not> int (length L) \<le> 0" using Q by (cases raw) (auto simp: line_at_def)
    have list: "ListChunks fails g (fw_Meta f) = Inr cks \<Longrightarrow> cks = cs @ [c]" for fails cks
      using g sorted_seqs [OF seqs] cs by (auto simp: ListChunks_def split: if_splits)
    from run obtain d q where dq: "DurableRawEnd flt g (fw_Meta f) = Inr d" "NextChunkSeq (flt 2) g (fw_Meta f) = Inr q"
      by (auto simp: openFromStore_def split: sum.splits)
    from run [unfolded openFromStore_def dq sum.case Let_def dur [OF dq(1)] seq [OF dq(2)] if_not_P [OF pos]]
    obtain cks where cks: "ListChunks (flt 3) g (fw_Meta f) = Inr cks" by (auto split: sum.splits)
    obtain ds d' where ds: "cks = d' # ds" "last (d' # ds) = c" using list [OF cks] by (metis last_snoc neq_Nil_conv snoc_eq_iff_butlast)
    from run [unfolded openFromStore_def dq sum.case Let_def dur [OF dq(1)] seq [OF dq(2)] if_not_P [OF pos] cks ds list.case]
    obtain ended nxt where cur: "lineCursorAfterChunk (flt 4) f c = Inr (ended, nxt)" and
      og: "og = \<lparr> og_generationID = g, og_buf = [], og_rawStart = int (length L), og_durableEnd = int (length L),
                  og_nextSeq = int (length ?cs), og_lineAtRawStart = nxt, og_prevEndedNL = ended \<rparr>"
      by (auto split: sum.splits)
    show ?thesis unfolding og using lineCursor_log [OF Q(1) cur] Q(2) by (simp add: cursor_at_def)
  qed
  then show "cursor_at og g L (length ?cs)" "og_buf og = []" by simp_all
qed

lemma openOf_keepOpen: "openOf (keepOpen og f) h = (if fw_open f \<noteq> None \<and> h = og_generationID og then Some og else openOf f h)"
  by (auto simp: keepOpen_def split: option.split)

lemma keepOpen_fields [simp]:
  "fw_Meta (keepOpen og f) = fw_Meta f" "fw_Files (keepOpen og f) = fw_Files f" "same_store f' (keepOpen og f) = same_store f' f"
  "fw_open (keepOpen og f) = None \<longleftrightarrow> fw_open f = None" "log_frames (keepOpen og f) g L = log_frames f g L"
  by (simp_all add: keepOpen_def same_store_def log_frames_def ReaderOf_def)

lemma log_inv_keepOpen:
  assumes "log_frames f g L" and "cursor_at og g L (length (chunksOf g (fw_Meta f)))" and "fw_open f \<noteq> None"
  shows "log_inv (keepOpen og f) g L (og_buf og)"
  using assms openOf_keepOpen [of g og f] by (simp add: log_inv_def cursor_at_def del: split_paired_All)

lemma only_on_keepOpen: "og_generationID og = g \<Longrightarrow> only_on g f f' \<Longrightarrow> only_on g f (keepOpen og f')"
  unfolding only_on_def openOf_keepOpen by simp

lemma log_frames_called [simp]: "log_frames (fw_called f) g L = log_frames f g L"
  by (simp add: log_frames_def ReaderOf_def)

lemma only_on_called [simp]: "only_on g f (fw_called f)" by (simp add: only_on_def same_store_def)

lemma ensureOpen_log:
  assumes inv: "log_inv f g L B" and run: "ensureOpenFrames g f = (r, f')"
  shows "only_on g f f' \<and> log_inv f' g L B \<and>
    (case r of Inl e \<Rightarrow> openOf f g = None
     | Inr og \<Rightarrow> og_buf og = B \<and> cursor_at og g L (length (chunksOf g (fw_Meta f'))) \<and> log_frames f' g L \<and> fw_open f' \<noteq> None)"
proof (cases "openOf f g")
  case (Some og)
  then have "r = Inr og" "f' = f" "fw_open f \<noteq> None" using run by (auto simp: ensureOpenFrames_def split: option.splits)
  then show ?thesis using inv Some by (auto simp: log_inv_def)
next
  case None
  then have B: "B = []" "log_frames f g L" using inv by (auto simp: log_inv_def)
  show ?thesis
  proof (cases "fw_open f")
    case None
    then show ?thesis using run inv \<open>openOf f g = None\<close> by (auto simp: ensureOpenFrames_def)
  next
    case opn: (Some opn)
    show ?thesis
    proof (cases "openFromStore (fw_faults f) g f")
      case (Inl e)
      then have "r = Inl e" "f' = fw_called f" using run opn None by (auto simp: ensureOpenFrames_def)
      then show ?thesis using B None by (auto simp: log_inv_def)
    next
      case (Inr og)
      then have r: "r = Inr og" "f' = keepOpen og (fw_called f)" using run opn None by (auto simp: ensureOpenFrames_def)
      note cur = openFromStore_cursor [OF B(2) Inr]
      have g: "og_generationID og = g" using cur(1) by (simp add: cursor_at_def)
      have "log_inv f' g L []" using log_inv_keepOpen [of "fw_called f" g L og] B(2) cur opn unfolding r(2) by simp
      then show ?thesis using r B cur only_on_keepOpen [OF g only_on_called] opn by (simp add: log_inv_def)
    qed
  qed
qed

section \<open>Cuts\<close>

lemma cutAfterNewline_bounds:
  "cutAfterNewline buf lo = Some c \<Longrightarrow> 1 \<le> c \<and> c \<le> int (length buf)"
proof -
  assume c: "cutAfterNewline buf lo = Some c"
  let ?is = "filter (\<lambda>i. buf ! i = NL) [nat lo..<length buf]"
  have "?is \<noteq> []" "c = int (last ?is) + 1" using c by (auto simp: cutAfterNewline_def split: list.splits)
  then show ?thesis using last_in_set [of ?is] by auto
qed

lemma frameTarget_pos: "0 < frameTarget f" and frameMax_pos: "0 < frameMax f"
  by (simp_all add: frameTarget_def frameMax_def DefaultTargetFrameBytes_def MinTargetFrameBytes_def MaxFrameBytes_def Let_def)

lemma cut_steps:
  "(case cutAfterNewline buf a of Some c \<Rightarrow> c | None \<Rightarrow> (case cutAfterNewline buf b of Some c \<Rightarrow> c | None \<Rightarrow> if P then n else - 1))
     \<in> {- 1, n} \<union> {c. \<exists>lo. cutAfterNewline buf lo = Some c}"
  by (cases "cutAfterNewline buf a"; cases "cutAfterNewline buf b") auto

lemma findNewlineCut_cases:
  assumes "0 < m"
  shows "(m \<le> int (length buf) \<and> findNewlineCut buf t m = m) \<or>
    (int (length buf) < m \<and> (findNewlineCut buf t m = - 1 \<or> 1 \<le> findNewlineCut buf t m \<and> findNewlineCut buf t m \<le> int (length buf)))"
proof (cases "int (length buf) = 0 \<or> m \<le> int (length buf)")
  case True
  then show ?thesis using assms by (auto simp: findNewlineCut_def Let_def)
next
  case False
  let ?n = "int (length buf)"
  have cut: "findNewlineCut buf t m = - 1 \<or> findNewlineCut buf t m = ?n \<or> (\<exists>lo. cutAfterNewline buf lo = Some (findNewlineCut buf t m))"
  proof -
    let ?t = "if t \<le> 0 then DefaultTargetFrameBytes else t"
    let ?start = "if ?t - NewlineLookback < 0 then 0 else ?t - NewlineLookback"
    let ?from = "if ?t - 1 < ?start then ?start else ?t - 1"
    have g: "?n \<noteq> 0" "\<not> ?n \<ge> m" "\<not> m \<le> 0" using False assms by simp_all
    have "findNewlineCut buf t m = (if ?n < ?t then - 1 else case cutAfterNewline buf ?from of Some c \<Rightarrow> c
        | None \<Rightarrow> (case cutAfterNewline buf ?start of Some c \<Rightarrow> c | None \<Rightarrow> if ?n \<ge> ?t * 2 then ?n else - 1))"
      unfolding findNewlineCut_def Let_def if_not_P [OF g(3)] if_not_P [OF g(1)] if_not_P [OF g(2)] by (rule refl)
    then show ?thesis using cut_steps [where buf = buf and a = ?from and b = ?start and P = "?n \<ge> ?t * 2" and n = ?n] by (cases "?n < ?t") simp_all
  qed
  have "findNewlineCut buf t m = - 1 \<or> 1 \<le> findNewlineCut buf t m \<and> findNewlineCut buf t m \<le> ?n"
    using cut False by (auto simp: Suc_le_eq dest: cutAfterNewline_bounds)
  then show ?thesis using False by linarith
qed

lemma findNewlineCut_none: "0 < m \<Longrightarrow> findNewlineCut buf t m < 0 \<Longrightarrow> int (length buf) < m"
  using findNewlineCut_cases [of m buf t] by linarith

lemma findNewlineCut_max: "0 < m \<Longrightarrow> findNewlineCut buf t m \<le> m"
  using findNewlineCut_cases [of m buf t] by linarith

section \<open>Append and flush\<close>

lemma appendLoop_log:
  assumes "codec_ok f" and "log_frames f g L" and "cursor_at og g L (length (chunksOf g (fw_Meta f)))"
    and "appendLoop og k f = (e, k', og', f')"
  shows "only_on g f f' \<and> fw_open f' = fw_open f \<and>
    (\<exists>D. og_buf og = D @ og_buf og' \<and> log_frames f' g (L @ D) \<and> cursor_at og' g (L @ D) (length (chunksOf g (fw_Meta f')))) \<and>
    (e = None \<longrightarrow> int (length (og_buf og')) < frameMax f)"
  using assms
proof (induction og k f arbitrary: L rule: appendLoop.induct)
  case (1 og committed f)
  let ?cut = "findNewlineCut (og_buf og) (frameTarget f) (frameMax f)"
  note run = "1.prems"(4) [unfolded appendLoop.simps [of og] Let_def]
  show ?case
  proof (cases "?cut < 0")
    case True
    then show ?thesis using run "1.prems"(2,3) findNewlineCut_none [OF frameMax_pos True] by auto
  next
    case False
    obtain e1 og1 f1 where commit: "commitSliceLocked og ?cut f = (e1, og1, f1)" by (rule prod_cases3)
    have "?cut \<le> DecoderMaxMemory"
      using findNewlineCut_max [OF frameMax_pos, of "og_buf og" "frameTarget f" f] "1.prems"(1) by (simp add: codec_ok_def)
    from commit_log [OF "1.prems"(1-3) this commit] have c: "only_on g f f1" "fw_open f1 = fw_open f"
      "case e1 of Some x \<Rightarrow> og1 = og \<and> log_frames f1 g L \<and> chunksOf g (fw_Meta f1) = chunksOf g (fw_Meta f)
        | None \<Rightarrow> log_frames f1 g (L @ take (nat ?cut) (og_buf og)) \<and> og_buf og1 = drop (nat ?cut) (og_buf og) \<and> 0 < ?cut \<and>
            cursor_at og1 g (L @ take (nat ?cut) (og_buf og)) (length (chunksOf g (fw_Meta f1)))" by blast+
    show ?thesis
    proof (cases e1)
      case (Some x)
      then show ?thesis using run commit False c "1.prems"(3) by auto
    next
      case None
      let ?D = "take (nat ?cut) (og_buf og)"
      have step: "log_frames f1 g (L @ ?D)" "og_buf og1 = drop (nat ?cut) (og_buf og)"
        "cursor_at og1 g (L @ ?D) (length (chunksOf g (fw_Meta f1)))" using c(3) None by simp_all
      have codec: "codec_ok f1" using "1.prems"(1) codec_ok_same [OF only_on_same [OF c(1)]] by simp
      have max: "frameMax f1 = frameMax f"
        using frameMax_same [OF only_on_same [OF c(1)]] .
      have rest: "appendLoop og1 (committed + 1) f1 = (e, k', og', f')" using run commit False None by simp
      from "1.IH" [OF refl False commit [symmetric] None refl codec step(1,3) rest]
      obtain D where D: "only_on g f1 f'" "fw_open f' = fw_open f1" "og_buf og1 = D @ og_buf og'"
        "log_frames f' g ((L @ ?D) @ D)" "cursor_at og' g ((L @ ?D) @ D) (length (chunksOf g (fw_Meta f')))"
        "e = None \<longrightarrow> int (length (og_buf og')) < frameMax f1" by blast
      have "og_buf og = (?D @ D) @ og_buf og'" using D(3) step(2) by (metis append_assoc append_take_drop_id)
      then show ?thesis using D only_on_trans [OF c(1) D(1)] c(2) max by (intro conjI exI [of _ "?D @ D"]) simp_all
    qed
  qed
qed

lemma cursor_result: "cursor_at og g L n \<Longrightarrow> ar_DurableEnd (resultLocked og) = int (length L)"
  "cursor_at og g L n \<Longrightarrow> ar_AcceptedEnd (resultLocked og) = int (length (L @ og_buf og))"
  by (simp_all add: cursor_at_def resultLocked_def)

lemma Append_log:
  assumes codec: "codec_ok f" and inv: "log_inv f g L B" and run: "Append g data f = (e, res, f')"
  shows "only_on g f f' \<and>
    ((\<exists>D B'. log_inv f' g (L @ D) B' \<and> D @ B' = B @ data \<and>
        ar_DurableEnd res = int (length (L @ D)) \<and> ar_AcceptedEnd res = int (length (L @ D @ B')) \<and>
        (e = None \<and> data \<noteq> [] \<longrightarrow> int (length B') < frameMax f)) \<or>
     (e \<noteq> None \<and> log_inv f' g L B \<and> res = noAppend \<and> openOf f g = None))"
proof -
  have g: "\<not> g \<le> 0" using inv by (simp add: log_inv_def log_frames_def Let_def)
  obtain r f1 where ens: "ensureOpenFrames g f = (r, f1)" by fastforce
  from ensureOpen_log [OF inv ens] have o: "only_on g f f1" "log_inv f1 g L B"
    "case r of Inl e \<Rightarrow> openOf f g = None
     | Inr og \<Rightarrow> og_buf og = B \<and> cursor_at og g L (length (chunksOf g (fw_Meta f1))) \<and> log_frames f1 g L \<and> fw_open f1 \<noteq> None"
    by blast+
  note body = run [unfolded Append_def if_not_P [OF g] ens prod.case]
  show ?thesis
  proof (cases r)
    case (Inl x)
    then show ?thesis using body o by auto
  next
    case (Inr og)
    then have og: "og_buf og = B" "cursor_at og g L (length (chunksOf g (fw_Meta f1)))" "log_frames f1 g L" "fw_open f1 \<noteq> None"
      using o(3) by simp_all
    show ?thesis
    proof (cases "data = []")
      case True
      then have "e = None" "res = resultLocked og" "f' = f1" using body Inr by auto
      then show ?thesis using o(1,2) True og(1) cursor_result [OF og(2)] by (intro conjI disjI1 exI [of _ "[]"] exI [of _ B]) simp_all
    next
      case False
      let ?og = "og\<lparr> og_buf := og_buf og @ data \<rparr>"
      obtain k og' f2 where loop: "appendLoop ?og 0 f1 = (e, k, og', f2)" and
        res: "res = (resultLocked og')\<lparr> ar_FramesCommitted := k \<rparr>" "f' = keepOpen og' f2"
        using body Inr False by (auto split: prod.splits)
      have codec1: "codec_ok f1" using codec codec_ok_same [OF only_on_same [OF o(1)]] by simp
      have cur1: "cursor_at ?og g L (length (chunksOf g (fw_Meta f1)))" using og(2) by (simp add: cursor_at_def)
      from appendLoop_log [OF codec1 og(3) cur1 loop] obtain D where
        D: "only_on g f1 f2" "fw_open f2 = fw_open f1" "og_buf ?og = D @ og_buf og'" "log_frames f2 g (L @ D)"
          "cursor_at og' g (L @ D) (length (chunksOf g (fw_Meta f2)))" "e = None \<longrightarrow> int (length (og_buf og')) < frameMax f1" by blast
      have max: "frameMax f1 = frameMax f" using frameMax_same [OF only_on_same [OF o(1)]] .
      have id: "og_generationID og' = g" using D(5) by (simp add: cursor_at_def)
      have "only_on g f f'" unfolding res by (rule only_on_keepOpen [OF id only_on_trans [OF o(1) D(1)]])
      moreover have "log_inv f' g (L @ D) (og_buf og')" unfolding res by (rule log_inv_keepOpen [OF D(4,5)]) (use D(2) og(4) in simp)
      ultimately show ?thesis using D(3,6) og(1) cursor_result [OF D(5)] res max
        by (intro conjI disjI1 exI [of _ D] exI [of _ "og_buf og'"]) simp_all
    qed
  qed
qed

lemma Flush_log:
  assumes codec: "codec_ok f" and inv: "log_inv f g L B" and small: "int (length B) \<le> DecoderMaxMemory"
    and run: "Flush g f = (e, res, f')"
  shows "only_on g f f' \<and>
    (if e = None then log_inv f' g (L @ B) [] \<and> ar_DurableEnd res = int (length (L @ B)) \<and> ar_AcceptedEnd res = int (length (L @ B))
     else log_inv f' g L B \<and> (res = noAppend \<or> ar_DurableEnd res = int (length L) \<and> ar_AcceptedEnd res = int (length (L @ B))))"
proof -
  have g: "\<not> g \<le> 0" using inv by (simp add: log_inv_def log_frames_def Let_def)
  obtain r f1 where ens: "ensureOpenFrames g f = (r, f1)" by fastforce
  from ensureOpen_log [OF inv ens] have o: "only_on g f f1" "log_inv f1 g L B"
    "case r of Inl e \<Rightarrow> openOf f g = None
     | Inr og \<Rightarrow> og_buf og = B \<and> cursor_at og g L (length (chunksOf g (fw_Meta f1))) \<and> log_frames f1 g L \<and> fw_open f1 \<noteq> None"
    by blast+
  note body = run [unfolded Flush_def if_not_P [OF g] ens prod.case]
  show ?thesis
  proof (cases r)
    case (Inl x)
    then show ?thesis using body o by auto
  next
    case (Inr og)
    then have og: "og_buf og = B" "cursor_at og g L (length (chunksOf g (fw_Meta f1)))" "log_frames f1 g L" "fw_open f1 \<noteq> None"
      using o(3) by simp_all
    show ?thesis
    proof (cases "B = []")
      case True
      then have "e = None" "res = resultLocked og" "f' = f1" using body Inr og(1) by auto
      then show ?thesis using o(1,2) True og(1) cursor_result [OF og(2)] by simp
    next
      case False
      have codec1: "codec_ok f1" using codec codec_ok_same [OF only_on_same [OF o(1)]] by simp
      obtain e1 og1 f2 where commit: "commitSliceLocked og (int (length (og_buf og))) f1 = (e1, og1, f2)" by (rule prod_cases3)
      from commit_log [OF codec1 og(3,2) _ commit] small og(1) have c: "only_on g f1 f2" "fw_open f2 = fw_open f1"
        "case e1 of Some x \<Rightarrow> og1 = og \<and> log_frames f2 g L \<and> chunksOf g (fw_Meta f2) = chunksOf g (fw_Meta f1)
          | None \<Rightarrow> log_frames f2 g (L @ B) \<and> og_buf og1 = [] \<and> cursor_at og1 g (L @ B) (length (chunksOf g (fw_Meta f2)))"
        by (auto split: option.splits)
      have f': "f' = keepOpen og1 f2" "e = e1" "res = (resultLocked og1)\<lparr> ar_FramesCommitted := (if e1 = None then 1 else 0) \<rparr>"
        using body Inr False og(1) commit by (auto simp: resultLocked_def split: option.splits)
      obtain M where M: "log_frames f2 g M" "cursor_at og1 g M (length (chunksOf g (fw_Meta f2)))"
        "M = (if e1 = None then L @ B else L)" "og_buf og1 = (if e1 = None then [] else B)"
        using c(3) og(1,2) by (cases e1) auto
      have id: "og_generationID og1 = g" using M(2) by (simp add: cursor_at_def)
      have "only_on g f f'" unfolding f' by (rule only_on_keepOpen [OF id only_on_trans [OF o(1) c(1)]])
      moreover have "log_inv f' g M (og_buf og1)" unfolding f' by (rule log_inv_keepOpen [OF M(1,2)]) (use c(2) og(4) in simp)
      ultimately show ?thesis using M(3,4) f'(2,3) cursor_result [OF M(2)] by (cases e1) simp_all
    qed
  qed
qed

lemma Forget_log: "log_inv f g L B \<Longrightarrow> log_inv (Forget g f) g L [] \<and> only_on g f (Forget g f)"
  by (auto simp: log_inv_def Forget_def log_frames_def ReaderOf_def only_on_def same_store_def split: option.splits)

lemma ends_log:
  assumes "log_inv f g L B"
  shows "AcceptedEnd g f = (r, f') \<Longrightarrow> only_on g f f' \<and> log_inv f' g L B \<and> (\<forall>n. r = Inr n \<longrightarrow> n = int (length (L @ B)))"
    and "DurableEnd g f = (r, f') \<Longrightarrow> only_on g f f' \<and> log_inv f' g L B \<and> (\<forall>n. r = Inr n \<longrightarrow> n = int (length L))"
proof -
  have dur: "n = int (length L)" if "DurableRawEnd flt g (fw_Meta f) = Inr n" for flt n
  proof (cases "chunksOf g (fw_Meta f) = []")
    case True
    then have "L = []" using assms by (simp add: log_inv_def log_frames_def Let_def)
    then show ?thesis using that True assms
      by (auto simp: DurableRawEnd_def maxOf_def GetGenerationByID_def find_Some_iff log_inv_def log_frames_def Let_def
          split: sum.splits option.splits if_splits)
  next
    case False
    then show ?thesis using that DurableRawEnd_log [of "ReaderOf f" g L flt] holds_lines_holds [OF log_frames_holds] assms
      by (auto simp: ReaderOf_def log_inv_def split: if_splits)
  qed
  have called: "log_inv (fw_called f) g L B" using assms by (auto simp: log_inv_def split: option.splits)
  show "AcceptedEnd g f = (r, f') \<Longrightarrow> only_on g f f' \<and> log_inv f' g L B \<and> (\<forall>n. r = Inr n \<longrightarrow> n = int (length (L @ B)))"
    "DurableEnd g f = (r, f') \<Longrightarrow> only_on g f f' \<and> log_inv f' g L B \<and> (\<forall>n. r = Inr n \<longrightarrow> n = int (length L))"
    using assms called dur by (auto simp: AcceptedEnd_def DurableEnd_def log_inv_def cursor_at_def split: option.splits)
qed

section \<open>Lost frames\<close>

text \<open>
  The loss of the first frames goes unnoticed. When the rows of the first frames are gone (the recovery of
  the data directory deletes the rows of missing files), a read from the start returns the later bytes as if
  they were the first ones: the check for gaps only compares a frame with the one before it.
\<close>

theorem lost_head_goes_unnoticed:
  assumes g: "0 < g" and frames: "tiles (raw_at r) P (sort_key ch_Seq (chunksOf g (rd_Meta r))) L" and lost: "P \<noteq> []" "length P < length L"
    and size: "int (length L) < 2 ^ 63" and ok: "\<forall>k j. \<not> flt k j"
    and read: "ReadRange flt r g 0 (int (length L)) = (e, res)"
  shows "e = None \<and> rx_RawStart res = 0 \<and> rx_Data res = drop (length P) L"
proof -
  let ?cs = "sort_key ch_Seq (chunksOf g (rd_Meta r))" and ?n = "length L"
  let ?fs = "filter (\<lambda>c. ch_RawEnd c > int 0 \<and> ch_RawStart c < int ?n) ?cs"
  let ?res = "noRead\<lparr> rx_GenerationID := g, rx_RequestedBytes := int ?n, rx_RawStart := 0 \<rparr>"
  have n: "0 < ?n" using lost(2) by (cases L) simp_all
  have w: "wrap64 (0 + int ?n) = int ?n" using size by (simp add: wrap64_id)
  obtain err out res1 where loop: "readLoop (\<lambda>k. flt (Suc k)) r (int 0) (int ?n) 0 (- 1) ?fs [] ?res = (err, out, res1)"
    by (cases "readLoop (\<lambda>k. flt (Suc k)) r (int 0) (int ?n) 0 (- 1) ?fs [] ?res") blast
  from readLoop_slice [OF frames _ n loop] ok have out: "err = None" "out = drop (length P) L" "rx_RawStart res1 = 0"
    by (auto simp: noRead_def)
  have ne: "?fs \<noteq> []"
  proof
    assume "?fs = []"
    then have "out = []" using loop by auto
    then show False using out(2) lost(2) by simp
  qed
  have cks: "ChunksIntersectingRaw (flt 0 0) g 0 (int ?n) (rd_Meta r) = Inr ?fs"
    using g n ok by (auto simp: ChunksIntersectingRaw_def ListChunks_def)
  have "ReadRange flt r g 0 (int ?n) = (None, res1\<lparr> rx_Data := out, rx_RawEnd := 0 + int (length out) \<rparr>)"
    using cks g n w loop out(1) neq_Nil_conv [THEN iffD1, OF ne]
    by (auto simp: ReadRange_def Let_def simp del: readLoop.simps filter.simps)
  then show ?thesis using read out by auto
qed

text \<open>The second frame of a log of two bytes.\<close>

definition lostFrame :: Chunk where
  "lostFrame = \<lparr> ch_GenerationID = 1, ch_Seq = 1, ch_RawStart = 1, ch_RawEnd = 2, ch_LineStart = 0, ch_LineEnd = 1,
     ch_UncompressedSize = 1, ch_CompressedSize = 1, ch_ContentSHA256 = hexSum ''b'', ch_FrameSHA256 = hexSum ''b'',
     ch_ZstdSize = 1, ch_ZstdSHA256 = hexSum ''b'', ch_RelPath = FrameRelPath 1 1, ch_FormatVersion = FrameFormatVersion,
     ch_EncAlg = [], ch_EncKeyVersion = 0, ch_Checkpoints = [] \<rparr>"

definition lostReader :: LogReader where
  "lostReader = \<lparr> rd_Meta = emptyMeta\<lparr> mt_chunks := [lostFrame] \<rparr>, rd_Files = [FrameRelPath 1 1 \<mapsto> ''b''], rd_Crypto = None,
     rd_Zstd = Inr \<rparr>"

theorem lost_head_goes_unnoticed_witness:
  "rx_Data (snd (ReadRange (\<lambda>_ _. False) lostReader 1 0 (int (length ''ab'')))) = ''b''"
proof -
  have plain: "\<not> IsEncrypted ''b''" by code_simp
  have "tiles (raw_at lostReader) ''a'' (sort_key ch_Seq (chunksOf 1 (rd_Meta lostReader))) ''ab''"
    using plain by (simp add: lostReader_def lostFrame_def emptyMeta_def chunksOf_def raw_at_def reads_def decompressChunkFile_def
      OpenFrameCompressed_def FrameAbsPath_rel openToCompressed_def)
  from lost_head_goes_unnoticed [OF _ this _ _ _ _ prod.collapse [symmetric], where flt = "\<lambda>_ _. False"]
  show ?thesis by simp
qed

end
