(* ===== verification/LogMirrorCorrect.thy ===== *)
theory LogMirrorCorrect
  imports LogMirror FrameWriterCorrect
begin

text \<open>
  The log mirror against the log of the build. The tables keep one row per identifier; the latest generation
  of a key has a durable log \<open>L\<close> and buffered bytes \<open>B\<close> as in the frame writer, and its recorded offset is
  never past \<open>L\<close>. Every operation is described by what it does to \<open>L\<close>, \<open>B\<close> and the row.
\<close>

section \<open>The invariant of the tables\<close>

definition tables_ok :: "Frames \<Rightarrow> bool" where
  "tables_ok f \<longleftrightarrow>
     (let gens = mt_generations (fw_Meta f); lst = mt_lastGeneration (fw_Meta f) in
      0 \<le> lst \<and> distinct (map lg_ID gens) \<and> (\<forall>g \<in> set gens. 0 < lg_ID g \<and> lg_ID g \<le> lst \<and> \<not> lg_L1Released g) \<and>
      (\<forall>c \<in> set (mt_chunks (fw_Meta f)). ch_GenerationID c \<le> lst) \<and> (\<forall>h. openOf f h \<noteq> None \<longrightarrow> h \<le> lst))"

definition latest :: "LogKey \<Rightarrow> Machine \<Rightarrow> LogGeneration option" where
  "latest key mc =
     latestOf (filter (sameKey (lk_Profile key) (lk_Job key) (lk_Build key)) (mt_generations (fw_Meta (mc_Frames mc))))"

text \<open>Frames are configured, the codec is sound, a frame leaves the decoder room for one more fetch, and the two
  queries for the ends of a generation do not fail: their errors are ignored by the code, which then takes the
  recorded offset.\<close>

definition FetchRoom :: int where "FetchRoom = 2 ^ 20"

definition fetchSize :: "Machine \<Rightarrow> int" where
  "fetchSize mc = (if mc_FetchBytes mc \<le> 0 then DefaultFetchBytes else mc_FetchBytes mc)"

lemma fetchSize_same [simp]: "fetchSize (mc\<lparr> mc_Frames := f \<rparr>) = fetchSize mc" "fetchSize (mc\<lparr> mc_bytesFetched := b \<rparr>) = fetchSize mc"
  by (simp_all add: fetchSize_def)

definition mirror_env :: "Machine \<Rightarrow> bool" where
  "mirror_env mc \<longleftrightarrow>
     mc_HasFrames mc \<and> codec_ok (mc_Frames mc) \<and> fetchSize mc \<le> FetchRoom \<and>
     frameMax (mc_Frames mc) + FetchRoom \<le> DecoderMaxMemory \<and> (\<forall>k. \<not> fw_fault (mc_Frames mc) k 6 \<and> \<not> fw_fault (mc_Frames mc) k 7) \<and>
     tables_ok (mc_Frames mc)"

definition at_gen :: "LogKey \<Rightarrow> Machine \<Rightarrow> LogGeneration \<Rightarrow> string \<Rightarrow> string \<Rightarrow> bool" where
  "at_gen key mc g L B \<longleftrightarrow>
     mirror_env mc \<and> latest key mc = Some g \<and> log_inv (mc_Frames mc) (lg_ID g) L B \<and>
     0 \<le> lg_JenkinsOffset g \<and> lg_JenkinsOffset g \<le> int (length L)"

lemma latestOf_in: "latestOf gs = Some g \<Longrightarrow> g \<in> set gs"
  by (induction gs arbitrary: g) (auto split: option.splits if_splits)

declare latestOf_None [simp]

lemma latestOf_greatest: "latestOf gs = Some g \<Longrightarrow> h \<in> set gs \<Longrightarrow> lg_Generation h \<le> lg_Generation g"
  by (induction gs arbitrary: g) (fastforce split: option.splits if_splits)+

lemma latestOf_map: "(\<And>g. lg_Generation (u g) = lg_Generation g) \<Longrightarrow> latestOf (map u gs) = map_option u (latestOf gs)"
  by (induction gs) (auto split: option.splits)

lemma latestOf_snoc: "\<forall>g \<in> set gs. lg_Generation g < lg_Generation x \<Longrightarrow> latestOf (gs @ [x]) = Some x"
  by (induction gs) auto

lemma at_genD:
  assumes "at_gen key mc g L B"
  shows "g \<in> set (mt_generations (fw_Meta (mc_Frames mc)))" and "0 < lg_ID g" and "mc_HasFrames mc" and "mirror_env mc"
    and "latest key mc = Some g" and "List.find (\<lambda>h. lg_ID h = lg_ID g) (mt_generations (fw_Meta (mc_Frames mc))) = Some g"
proof -
  let ?gs = "mt_generations (fw_Meta (mc_Frames mc))"
  show g: "g \<in> set ?gs" using assms latestOf_in [of _ g] by (fastforce simp: at_gen_def latest_def)
  have dist: "distinct (map lg_ID ?gs)" using assms by (simp add: at_gen_def mirror_env_def tables_ok_def Let_def)
  then have "h = g" if "h \<in> set ?gs" "lg_ID h = lg_ID g" for h
    using that g by (simp add: distinct_map inj_on_def)
  moreover have "List.find (\<lambda>h. lg_ID h = lg_ID g) ?gs \<noteq> None" using g by (auto simp: find_None_iff)
  ultimately show "List.find (\<lambda>h. lg_ID h = lg_ID g) ?gs = Some g" by (auto simp: find_Some_iff) (metis nth_mem)
  show "0 < lg_ID g" "mc_HasFrames mc" "mirror_env mc" "latest key mc = Some g"
    using assms g by (auto simp: at_gen_def mirror_env_def tables_ok_def Let_def)
qed

section \<open>Operations on the tables\<close>

text \<open>A change of rows that keeps what identifies them.\<close>

definition row_update :: "(LogGeneration \<Rightarrow> LogGeneration) \<Rightarrow> bool" where
  "row_update u \<longleftrightarrow>
     (\<forall>g. lg_ID (u g) = lg_ID g \<and> lg_Profile (u g) = lg_Profile g \<and> lg_Job (u g) = lg_Job g \<and> lg_Build (u g) = lg_Build g \<and>
          lg_Generation (u g) = lg_Generation g \<and> lg_L1Released (u g) = lg_L1Released g)"

abbreviation with_rows :: "(LogGeneration \<Rightarrow> LogGeneration) \<Rightarrow> Frames \<Rightarrow> Frames" where
  "with_rows u f \<equiv> (fw_called f)\<lparr> fw_Meta := (fw_Meta f)\<lparr> mt_generations := map u (mt_generations (fw_Meta f)) \<rparr> \<rparr>"

lemma log_inv_rows: "row_update u \<Longrightarrow> log_inv f h L B \<Longrightarrow> log_inv (with_rows u f) h L B"
  by (auto simp: log_inv_def log_frames_def row_update_def chunksOf_def ReaderOf_def raw_at_def reads_def Let_def
      split: option.splits elim!: tiles_mono)

lemma tables_ok_rows: "row_update u \<Longrightarrow> tables_ok f \<Longrightarrow> tables_ok (with_rows u f)"
  by (auto simp: tables_ok_def row_update_def Let_def comp_def split: option.splits)

lemma frameMax_meta [simp]: "frameMax (f\<lparr> fw_Meta := m \<rparr>) = frameMax f" "frameMax (f\<lparr> fw_calls := k \<rparr>) = frameMax f"
  by (simp_all add: frameMax_def frameTarget_def Let_def)

lemma codec_ok_meta [simp]: "codec_ok (f\<lparr> fw_Meta := m \<rparr>) = codec_ok f" "codec_ok (f\<lparr> fw_calls := k \<rparr>) = codec_ok f"
  by (simp_all add: codec_ok_def frameMax_def frameTarget_def Let_def)

lemma at_gen_rows:
  assumes "at_gen key mc g L B" and "row_update u" and "0 \<le> lg_JenkinsOffset (u g)" and "lg_JenkinsOffset (u g) \<le> int (length L)"
  shows "at_gen key (mc\<lparr> mc_Frames := with_rows u (mc_Frames mc) \<rparr>) (u g) L B"
proof -
  let ?P = "sameKey (lk_Profile key) (lk_Job key) (lk_Build key)"
  have "filter ?P (map u gs) = map u (filter ?P gs)" for gs
    using assms(2) by (induction gs) (simp_all add: sameKey_def row_update_def)
  moreover have "latestOf (map u gs) = map_option u (latestOf gs)" for gs
    by (rule latestOf_map) (use assms(2) in \<open>simp add: row_update_def\<close>)
  ultimately have "latest key (mc\<lparr> mc_Frames := with_rows u (mc_Frames mc) \<rparr>) = Some (u g)"
    using assms(1) by (simp add: at_gen_def latest_def)
  then show ?thesis
    using assms log_inv_rows [OF assms(2)] tables_ok_rows [OF assms(2)] by (simp add: at_gen_def mirror_env_def row_update_def)
qed

lemma at_gen_called: "at_gen key mc g L B \<Longrightarrow> at_gen key (mc\<lparr> mc_Frames := fw_called (mc_Frames mc) \<rparr>) g L B"
  using at_gen_rows [of key mc g L B "\<lambda>g. g"] by (simp add: row_update_def at_gen_def)

lemma latestGen_at:
  assumes "at_gen key mc g L B" and "latestGen key mc = (r, mc1)"
  shows "at_gen key mc1 g L B" and "r = Inr (Some g) \<or> (\<exists>e. r = Inl e)"
proof -
  have "r = GetLatestGeneration (fw_faults (mc_Frames mc) 0) (lk_Profile key) (lk_Job key) (lk_Build key) (fw_Meta (mc_Frames mc))"
    "mc1 = mc\<lparr> mc_Frames := fw_called (mc_Frames mc) \<rparr>"
    using assms(2) by (simp_all add: latestGen_def Let_def)
  moreover have "latest key mc = Some g" by (rule at_genD(5) [OF assms(1)])
  ultimately show "at_gen key mc1 g L B" "r = Inr (Some g) \<or> (\<exists>e. r = Inl e)"
    using at_gen_called [OF assms(1)] by (auto simp: GetLatestGeneration_def latest_def split: option.split)
qed

lemma updateOffset_at:
  assumes "at_gen key mc g L B" and "off \<le> int (length L)" and "updateOffset (lg_ID g) off mor complete sealed mc = (e, mc')"
  shows "case e of Some x \<Rightarrow> at_gen key mc' g L B
    | None \<Rightarrow> \<not> lg_Sealed g \<and> lg_JenkinsOffset g \<le> off \<and>
        at_gen key mc' (g\<lparr> lg_JenkinsOffset := off, lg_MoreData := mor, lg_BuildComplete := complete, lg_Sealed := sealed \<rparr>) L B"
proof -
  let ?u = "\<lambda>h. if lg_ID h = lg_ID g \<and> \<not> lg_Sealed h
     then h\<lparr> lg_JenkinsOffset := off, lg_MoreData := mor, lg_BuildComplete := complete, lg_Sealed := sealed \<rparr> else h"
  let ?f = "mc_Frames mc"
  note g = at_genD [OF assms(1)]
  have u: "row_update ?u" by (simp add: row_update_def)
  show ?thesis
  proof (cases "UpdateGenerationOffset (fw_faults ?f 0) (lg_ID g) off mor complete sealed (fw_Meta ?f)")
    case (Pair e0 m)
    then have out: "e = e0" "mc' = mc\<lparr> mc_Frames := (fw_called ?f)\<lparr> fw_Meta := m \<rparr> \<rparr>" using assms(3) by (simp_all add: updateOffset_def Let_def)
    show ?thesis
    proof (cases e0)
      case (Some x)
      then have "m = fw_Meta ?f" using Pair g(6) by (auto simp: UpdateGenerationOffset_def split: if_splits)
      then show ?thesis using out Some at_gen_called [OF assms(1)] by simp
    next
      case None
      then have ok: "\<not> lg_Sealed g" "lg_JenkinsOffset g \<le> off" "0 \<le> off"
        "m = (fw_Meta ?f)\<lparr> mt_generations := map ?u (mt_generations (fw_Meta ?f)) \<rparr>"
        using Pair g(6) by (auto simp: UpdateGenerationOffset_def split: if_splits)
      then show ?thesis using at_gen_rows [OF assms(1) u] assms(2) out None by simp
    qed
  qed
qed

lemma sealGen_at:
  assumes "at_gen key mc g L B" and "sealGen (lg_ID g) mc = (e, mc')"
  shows "at_gen key mc' (if e = None then g\<lparr> lg_Sealed := True, lg_MoreData := False, lg_BuildComplete := True \<rparr> else g) L B"
proof -
  let ?u = "\<lambda>h. if lg_ID h = lg_ID g then h\<lparr> lg_Sealed := True, lg_MoreData := False, lg_BuildComplete := True \<rparr> else h"
  note g = at_genD [OF assms(1)]
  have u: "row_update ?u" by (simp add: row_update_def)
  have "0 \<le> lg_JenkinsOffset g" "lg_JenkinsOffset g \<le> int (length L)" using assms(1) by (simp_all add: at_gen_def)
  then show ?thesis using assms(2) at_gen_rows [OF assms(1) u] at_gen_called [OF assms(1)] g(1,2)
    by (auto simp: sealGen_def SealGeneration_def Let_def filter_empty_conv split: if_splits)
qed


section \<open>Operations on the frames\<close>

lemma tables_ok_only:
  assumes "only_on g f f'" and "tables_ok f" and "g \<le> mt_lastGeneration (fw_Meta f)"
  shows "tables_ok f'"
proof -
  have same: "mt_generations (fw_Meta f') = mt_generations (fw_Meta f)" "mt_lastGeneration (fw_Meta f') = mt_lastGeneration (fw_Meta f)"
    using assms(1) by (simp_all add: only_on_def same_store_def)
  have other: "chunksOf h (fw_Meta f') = chunksOf h (fw_Meta f)" "openOf f' h = openOf f h" if "h \<noteq> g" for h
    using assms(1) that by (simp_all add: only_on_def)
  have "ch_GenerationID c \<le> mt_lastGeneration (fw_Meta f)" if "c \<in> set (mt_chunks (fw_Meta f'))" for c
  proof (cases "ch_GenerationID c = g")
    case False
    have "c \<in> set (chunksOf (ch_GenerationID c) (fw_Meta f'))" using that by (simp add: chunksOf_def)
    then have "c \<in> set (mt_chunks (fw_Meta f))" unfolding other [OF False] by (simp add: chunksOf_def)
    then show ?thesis using assms(2) by (simp add: tables_ok_def Let_def)
  qed (use assms(3) in simp)
  moreover have "h \<le> mt_lastGeneration (fw_Meta f)" if "openOf f' h \<noteq> None" for h
    using that other [of h] assms(2,3) by (cases "h = g") (simp_all add: tables_ok_def Let_def)
  ultimately show ?thesis using assms(2) by (simp add: tables_ok_def Let_def same)
qed

text \<open>An operation on the frames of the latest generation.\<close>

lemma at_gen_frames:
  assumes "at_gen key mc g L B" and "only_on (lg_ID g) (mc_Frames mc) f'" and "log_inv f' (lg_ID g) L' B'" and "length L \<le> length L'"
  shows "at_gen key (mc\<lparr> mc_Frames := f' \<rparr>) g L' B'"
proof -
  note g = at_genD [OF assms(1)]
  have env: "tables_ok (mc_Frames mc)" using g(4) by (simp add: mirror_env_def)
  then have "lg_ID g \<le> mt_lastGeneration (fw_Meta (mc_Frames mc))" using g(1) by (simp add: tables_ok_def Let_def)
  then have "tables_ok f'" using tables_ok_only [OF assms(2) env] by simp
  then show ?thesis using assms codec_ok_same [OF only_on_same [OF assms(2)]] frameMax_same [OF only_on_same [OF assms(2)]] g(3,4)
    by (auto simp: at_gen_def mirror_env_def latest_def only_on_def same_store_def)
qed

lemma flushGen_at:
  assumes "at_gen key mc g L B" and "int (length B) \<le> DecoderMaxMemory" and "flushGen (lg_ID g) mc = (e, res, mc')"
  shows "if e = None then at_gen key mc' g (L @ B) [] \<and> ar_DurableEnd res = int (length (L @ B)) \<and> ar_AcceptedEnd res = int (length (L @ B))
     else at_gen key mc' g L B \<and> ar_DurableEnd res \<le> int (length L)"
proof -
  obtain f' where f: "Flush (lg_ID g) (mc_Frames mc) = (e, res, f')" "mc' = mc\<lparr> mc_Frames := f' \<rparr>"
    using assms(3) by (auto simp: flushGen_def split: prod.splits)
  have "codec_ok (mc_Frames mc)" "log_inv (mc_Frames mc) (lg_ID g) L B" using assms(1) by (simp_all add: at_gen_def mirror_env_def)
  from Flush_log [OF this assms(2) f(1)] show ?thesis
    unfolding f(2) using at_gen_frames [OF assms(1)] by (auto split: if_splits)
qed

lemma forget_at: "at_gen key mc g L B \<Longrightarrow> at_gen key (mc\<lparr> mc_Frames := Forget (lg_ID g) (mc_Frames mc) \<rparr>) g L []"
  using at_gen_frames [of key mc g L B "Forget (lg_ID g) (mc_Frames mc)" L "[]"] Forget_log [of "mc_Frames mc" "lg_ID g" L B]
  by (simp add: at_gen_def)

lemma ends_ok:
  assumes "at_gen key mc g L B"
  shows "\<exists>n f'. AcceptedEnd (lg_ID g) (mc_Frames mc) = (Inr n, f')" and "\<exists>n f'. DurableEnd (lg_ID g) (mc_Frames mc) = (Inr n, f')"
proof -
  have "\<not> fw_fault (mc_Frames mc) k 6" "\<not> fw_fault (mc_Frames mc) k 7" for k using assms by (simp_all add: at_gen_def mirror_env_def)
  then have "\<exists>n. DurableRawEnd (\<lambda>j. fw_faults (mc_Frames mc) (6 + j)) (lg_ID g) (fw_Meta (mc_Frames mc)) = Inr n"
    using at_genD(2,6) [OF assms] by (auto simp: DurableRawEnd_def GetGenerationByID_def split: option.split)
  then show "\<exists>n f'. AcceptedEnd (lg_ID g) (mc_Frames mc) = (Inr n, f')" "\<exists>n f'. DurableEnd (lg_ID g) (mc_Frames mc) = (Inr n, f')"
    by (auto simp: AcceptedEnd_def DurableEnd_def split: option.split)
qed

lemma AcceptedEnd_at:
  assumes "at_gen key mc g L B"
  obtains f' where "AcceptedEnd (lg_ID g) (mc_Frames mc) = (Inr (int (length (L @ B))), f')" and "at_gen key (mc\<lparr> mc_Frames := f' \<rparr>) g L B"
proof -
  obtain n f' where run: "AcceptedEnd (lg_ID g) (mc_Frames mc) = (Inr n, f')" using ends_ok(1) [OF assms] by blast
  have inv: "log_inv (mc_Frames mc) (lg_ID g) L B" using assms by (simp add: at_gen_def)
  show thesis using that [of f'] run ends_log(1) [OF inv run] at_gen_frames [OF assms, of f' L B] by simp
qed

lemma DurableEnd_at:
  assumes "at_gen key mc g L B"
  obtains f' where "DurableEnd (lg_ID g) (mc_Frames mc) = (Inr (int (length L)), f')" and "at_gen key (mc\<lparr> mc_Frames := f' \<rparr>) g L B"
proof -
  obtain n f' where run: "DurableEnd (lg_ID g) (mc_Frames mc) = (Inr n, f')" using ends_ok(2) [OF assms] by blast
  have inv: "log_inv (mc_Frames mc) (lg_ID g) L B" using assms by (simp add: at_gen_def)
  show thesis using that [of f'] run ends_log(2) [OF inv run] at_gen_frames [OF assms, of f' L B] by simp
qed

section \<open>States\<close>

definition state_at :: "LogGeneration \<Rightarrow> string \<Rightarrow> string \<Rightarrow> State" where
  "state_at g L B =
     (if lg_Sealed g then genState g
      else (genState g)\<lparr> ms_CommittedOffset := int (length (L @ B)), ms_DurableOffset := int (length L) \<rparr>)"

lemma stateFromGen_at:
  assumes "at_gen key mc g L B" and "stateFromGen g mc = (st, mc')"
  shows "at_gen key mc' g L B" and "st = state_at g L B"
proof -
  note g = at_genD [OF assms(1)]
  have off: "lg_JenkinsOffset g \<le> int (length L)" using assms(1) by (simp add: at_gen_def)
  have "at_gen key mc' g L B \<and> st = state_at g L B"
  proof (cases "lg_Sealed g")
    case True
    then show ?thesis using assms by (simp add: stateFromGen_def state_at_def Let_def)
  next
    case False
    obtain f1 where acc: "AcceptedEnd (lg_ID g) (mc_Frames mc) = (Inr (int (length (L @ B))), f1)" "at_gen key (mc\<lparr> mc_Frames := f1 \<rparr>) g L B"
      by (rule AcceptedEnd_at [OF assms(1)])
    obtain f2 where dur: "DurableEnd (lg_ID g) f1 = (Inr (int (length L)), f2)" "at_gen key (mc\<lparr> mc_Frames := f2 \<rparr>) g L B"
      using DurableEnd_at [OF acc(2)] by auto
    show ?thesis using assms(2) acc(1) dur False g(2,3) off
      by (auto simp: stateFromGen_def state_at_def genState_def Let_def)
  qed
  then show "at_gen key mc' g L B" "st = state_at g L B" by simp_all
qed

text \<open>A state describes the generation.\<close>

definition described :: "State \<Rightarrow> LogGeneration \<Rightarrow> string \<Rightarrow> bool" where
  "described st g L \<longleftrightarrow>
     ms_GenerationID st = lg_ID g \<and> ms_DurableOffset st \<le> int (length L) \<and> ms_Sealed st = lg_Sealed g \<and>
     ms_MoreData st = lg_MoreData g \<and> ms_BuildComplete st = lg_BuildComplete g"

lemma state_at_described: "at_gen key mc g L B \<Longrightarrow> described (state_at g L B) g L"
  by (simp add: described_def state_at_def genState_def at_gen_def)

section \<open>A new generation\<close>

lemma insertGen_at:
  assumes env: "mirror_env mc" and key: "KeyValidate key = None" and n: "\<forall>p. latest key mc = Some p \<longrightarrow> lg_Generation p < n"
    and run: "insertGen (freshGeneration key n) mc = (r, mc')"
  shows "case r of Inl e \<Rightarrow> mc' = mc\<lparr> mc_Frames := fw_called (mc_Frames mc) \<rparr>
    | Inr i \<Rightarrow> at_gen key mc' ((freshGeneration key n)\<lparr> lg_ID := i \<rparr>) [] []"
proof -
  let ?f = "mc_Frames mc" and ?m = "fw_Meta (mc_Frames mc)" and ?P = "sameKey (lk_Profile key) (lk_Job key) (lk_Build key)"
  let ?i = "mt_lastGeneration ?m + 1" and ?g = "(freshGeneration key n)\<lparr> lg_ID := mt_lastGeneration ?m + 1 \<rparr>"
  have tab: "tables_ok ?f" using env by (simp add: mirror_env_def)
  obtain m' where ins: "InsertGeneration (fw_faults ?f 0) (freshGeneration key n) ?m = (r, m')" "mc' = mc\<lparr> mc_Frames := (fw_called ?f)\<lparr> fw_Meta := m' \<rparr> \<rparr>"
    using run by (auto simp: insertGen_def Let_def split: prod.splits)
  show ?thesis
  proof (cases r)
    case (Inl e)
    then have "m' = ?m" using ins(1) by (auto simp: InsertGeneration_def Let_def split: option.splits if_splits)
    then show ?thesis using Inl ins(2) by simp
  next
    case (Inr i)
    then have m': "i = ?i" "m' = ?m\<lparr> mt_generations := mt_generations ?m @ [?g], mt_lastGeneration := ?i \<rparr>"
      using ins(1) by (auto simp: InsertGeneration_def Let_def split: option.splits if_splits)
    let ?f' = "(fw_called ?f)\<lparr> fw_Meta := m' \<rparr>"
    have old: "ch_GenerationID c \<noteq> ?i" if "c \<in> set (mt_chunks ?m)" for c
      using tab that by (auto simp: tables_ok_def Let_def)
    have "chunksOf ?i m' = []" using old by (auto simp: chunksOf_def m'(2) filter_empty_conv)
    moreover have "openOf ?f ?i = None" using tab by (fastforce simp: tables_ok_def Let_def)
    moreover have "0 < ?i" using tab by (simp add: tables_ok_def Let_def)
    moreover have "lg_ID g \<noteq> ?i" if "g \<in> set (mt_generations ?m)" for g
      using tab that by (auto simp: tables_ok_def Let_def)
    ultimately have inv: "log_inv ?f' ?i [] []"
      by (auto simp: log_inv_def log_frames_def Let_def m'(2) freshGeneration_def)
    have small: "\<forall>g \<in> set (filter ?P (mt_generations ?m)). lg_Generation g < n"
    proof
      fix h assume h: "h \<in> set (filter ?P (mt_generations ?m))"
      then obtain p where p: "latest key mc = Some p" by (cases "latest key mc") (auto simp: latest_def filter_empty_conv)
      then show "lg_Generation h < n" using latestOf_greatest [OF p [unfolded latest_def] h] n by auto
    qed
    have "?P ?g" by (simp add: sameKey_def freshGeneration_def)
    then have lat: "latest key mc' = Some ?g"
      using latestOf_snoc [of "filter ?P (mt_generations ?m)" ?g] small by (simp add: latest_def ins(2) m'(2) freshGeneration_def)
    have "tables_ok ?f'" using tab by (fastforce simp: tables_ok_def Let_def m'(2) freshGeneration_def)
    then have "mirror_env mc'" using env by (simp add: mirror_env_def ins(2))
    then show ?thesis using Inr inv lat m'(1) by (simp add: at_gen_def ins(2) freshGeneration_def)
  qed
qed

lemma env_called: "mirror_env mc \<Longrightarrow> mirror_env (mc\<lparr> mc_Frames := fw_called (mc_Frames mc) \<rparr>)"
  by (simp add: mirror_env_def tables_ok_def)

lemma at_gen_bytes [simp]: "at_gen key (resetBytes k mc) g L B = at_gen key mc g L B" "at_gen key (addBytes k n mc) g L B = at_gen key mc g L B"
  by (simp_all add: at_gen_def mirror_env_def latest_def resetBytes_def addBytes_def)


text \<open>The log of a key: no generation yet, or a latest one that the invariant describes.\<close>

definition fresh :: "LogKey \<Rightarrow> Machine \<Rightarrow> bool" where
  "fresh key mc \<longleftrightarrow> mirror_env mc \<and> latest key mc = None"

lemma latestGen_fresh:
  assumes "fresh key mc" and "latestGen key mc = (r, mc1)"
  shows "fresh key mc1" and "r = Inr None \<or> (\<exists>e. r = Inl e)"
proof -
  have "r = GetLatestGeneration (fw_faults (mc_Frames mc) 0) (lk_Profile key) (lk_Job key) (lk_Build key) (fw_Meta (mc_Frames mc))"
    "mc1 = mc\<lparr> mc_Frames := fw_called (mc_Frames mc) \<rparr>"
    using assms(2) by (simp_all add: latestGen_def Let_def)
  moreover have "latest key mc = None" using assms(1) by (simp add: fresh_def)
  ultimately show "fresh key mc1" "r = Inr None \<or> (\<exists>e. r = Inl e)"
    using assms(1) env_called by (auto simp: fresh_def GetLatestGeneration_def latest_def split: option.split)
qed

lemma insertGen_fresh:
  assumes "fresh key mc" and "KeyValidate key = None" and "insertGen (freshGeneration key 1) mc = (r, mc')"
  shows "case r of Inl e \<Rightarrow> fresh key mc' | Inr i \<Rightarrow> at_gen key mc' ((freshGeneration key 1)\<lparr> lg_ID := i \<rparr>) [] []"
  using assms insertGen_at [of mc key 1 r mc'] env_called [of mc] by (auto simp: fresh_def latest_def split: sum.splits)

lemma openLog_at:
  assumes "at_gen key mc g L B" and "openLog key mc = (r, mc')"
  shows "at_gen key mc' g L B" and "r = Inr (state_at g L B) \<or> (\<exists>e. r = Inl e)"
proof -
  obtain r1 mc1 where lat: "latestGen key mc = (r1, mc1)" by fastforce
  note l = latestGen_at [OF assms(1) lat]
  from l(2) have "at_gen key mc' g L B \<and> (r = Inr (state_at g L B) \<or> (\<exists>e. r = Inl e))"
  proof
    assume "r1 = Inr (Some g)"
    then show ?thesis using assms(2) lat l(1) stateFromGen_at [OF l(1)] by (cases "stateFromGen g mc1") (auto simp: openLog_def okState_def)
  next
    assume "\<exists>e. r1 = Inl e"
    then show ?thesis using assms(2) lat l(1) by (auto simp: openLog_def)
  qed
  then show "at_gen key mc' g L B" "r = Inr (state_at g L B) \<or> (\<exists>e. r = Inl e)" by simp_all
qed

lemma openLog_fresh:
  assumes "fresh key mc" and "KeyValidate key = None" and "openLog key mc = (r, mc')"
  shows "case r of Inl e \<Rightarrow> fresh key mc'
    | Inr st \<Rightarrow> (\<exists>i. at_gen key mc' ((freshGeneration key 1)\<lparr> lg_ID := i \<rparr>) [] [] \<and> st = state_at ((freshGeneration key 1)\<lparr> lg_ID := i \<rparr>) [] [])"
proof -
  obtain r1 mc1 where lat: "latestGen key mc = (r1, mc1)" by fastforce
  note l = latestGen_fresh [OF assms(1) lat]
  show ?thesis
  proof (cases r1)
    case (Inl e)
    then show ?thesis using assms(3) lat l(1) by (auto simp: openLog_def)
  next
    case (Inr x)
    then have x: "r1 = Inr None" using l(2) by simp
    obtain r2 mc2 where ins: "insertGen (freshGeneration key 1) mc1 = (r2, mc2)" by fastforce
    note i = insertGen_fresh [OF l(1) assms(2) ins]
    show ?thesis
    proof (cases r2)
      case (Inl e)
      then show ?thesis using assms(3) lat x ins i by (auto simp: openLog_def)
    next
      case (Inr j)
      let ?g = "(freshGeneration key 1)\<lparr> lg_ID := j \<rparr>"
      have at: "at_gen key (resetBytes key mc2) ?g [] []" using i Inr by simp
      obtain st mc3 where st: "stateFromGen ?g (resetBytes key mc2) = (st, mc3)" by fastforce
      have "r = Inr st" "mc' = mc3" using assms(3) lat x ins Inr st by (auto simp: openLog_def okState_def)
      then show ?thesis using stateFromGen_at [OF at st] by auto
    qed
  qed
qed

lemma abandon_at:
  assumes "at_gen key mc g L B" and "int (length B) \<le> DecoderMaxMemory"
  shows "\<exists>g' L' B'. at_gen key (abandon g mc) g' L' B' \<and> lg_Generation g' = lg_Generation g"
proof -
  obtain e res mc1 where flush: "flushGen (lg_ID g) mc = (e, res, mc1)" by (rule prod_cases3)
  obtain L1 B1 where f: "at_gen key mc1 g L1 B1" using flushGen_at [OF assms flush] by (metis (full_types))
  let ?mc2 = "mc1\<lparr> mc_Frames := Forget (lg_ID g) (mc_Frames mc1) \<rparr>"
  obtain f2 where d: "DurableEnd (lg_ID g) (mc_Frames ?mc2) = (Inr (int (length L1)), f2)" "at_gen key (?mc2\<lparr> mc_Frames := f2 \<rparr>) g L1 []"
    by (rule DurableEnd_at [OF forget_at [OF f]])
  obtain e3 mc3 where u: "updateOffset (lg_ID g) (int (length L1)) False True True (?mc2\<lparr> mc_Frames := f2 \<rparr>) = (e3, mc3)" by fastforce
  have ab: "abandon g mc = (case e3 of None \<Rightarrow> mc3 | Some _ \<Rightarrow> snd (sealGen (lg_ID g) mc3))"
    using flush d(1) u at_genD(3) [OF assms(1)] by (simp add: abandon_def)
  note at = updateOffset_at [OF d(2) order_refl u]
  show ?thesis
  proof (cases e3)
    case None
    then show ?thesis using ab at by fastforce
  next
    case (Some x)
    obtain e4 mc4 where s: "sealGen (lg_ID g) mc3 = (e4, mc4)" by fastforce
    have "at_gen key mc3 g L1 []" using at Some by simp
    from sealGen_at [OF this s] show ?thesis using ab Some s by (cases "e4 = None") fastforce+
  qed
qed

text \<open>A rewritten log: afterwards the latest generation is a new one, empty and open, whatever became of the old one.\<close>

lemma startNewGeneration_at:
  assumes at: "at_gen key mc g L B" and small: "int (length B) \<le> DecoderMaxMemory" and key: "KeyValidate key = None"
    and run: "startNewGeneration key n mc = (r, mc')"
  shows "case r of Inl e \<Rightarrow> (\<exists>g' L' B'. at_gen key mc' g' L' B')
    | Inr st \<Rightarrow> (\<exists>g'. at_gen key mc' g' [] [] \<and> st = state_at g' [] [] \<and> \<not> lg_Sealed g' \<and> lg_MoreData g' \<and> \<not> lg_BuildComplete g')"
proof -
  obtain r1 mc1 where lat: "latestGen key mc = (r1, mc1)" by fastforce
  note l = latestGen_at [OF at lat]
  show ?thesis
  proof (cases r1)
    case (Inl e)
    then have "r = Inl e" "mc' = mc1" using run lat by (auto simp: startNewGeneration_def)
    then show ?thesis using l(1) by simp blast
  next
    case (Inr x)
    then have x: "r1 = Inr (Some g)" using l(2) by simp
    let ?mc2 = "if lg_Sealed g then mc1 else abandon g mc1"
    let ?n = "if lg_Generation g \<ge> n + 1 then lg_Generation g + 1 else n + 1"
    obtain g2 L2 B2 where at2: "at_gen key ?mc2 g2 L2 B2" "lg_Generation g2 = lg_Generation g"
      using l(1) abandon_at [OF l(1) small] by (cases "lg_Sealed g") auto
    obtain r3 mc3 where ins: "insertGen (freshGeneration key ?n) ?mc2 = (r3, mc3)" by fastforce
    have i: "case r3 of Inl e \<Rightarrow> mc3 = ?mc2\<lparr> mc_Frames := fw_called (mc_Frames ?mc2) \<rparr>
      | Inr i \<Rightarrow> at_gen key mc3 ((freshGeneration key ?n)\<lparr> lg_ID := i \<rparr>) [] []"
      by (rule insertGen_at [OF at_genD(4) [OF at2(1)] key _ ins]) (use at_genD(5) [OF at2(1)] at2(2) in auto)
    show ?thesis
    proof (cases r3)
      case (Inl e)
      then have "r = Inl e" "mc' = mc3" using run lat x ins by (auto simp: startNewGeneration_def Let_def)
      moreover have "at_gen key mc3 g2 L2 B2" using i Inl at_gen_called [OF at2(1)] by simp
      ultimately show ?thesis by auto
    next
      case (Inr j)
      let ?g = "(freshGeneration key ?n)\<lparr> lg_ID := j \<rparr>"
      have at3: "at_gen key (resetBytes key mc3) ?g [] []" using i Inr by simp
      obtain st mc4 where st: "stateFromGen ?g (resetBytes key mc3) = (st, mc4)" by fastforce
      have "r = Inr st" "mc' = mc4" using run lat x ins Inr st by (auto simp: startNewGeneration_def okState_def Let_def)
      moreover have "\<not> lg_Sealed ?g" "lg_MoreData ?g" "\<not> lg_BuildComplete ?g" by (simp_all add: freshGeneration_def)
      ultimately show ?thesis using stateFromGen_at [OF at3 st] by auto
    qed
  qed
qed


section \<open>Appending a segment\<close>

text \<open>What appending bytes to the open generation comes to, with the flags that were decided on.\<close>

abbreviation roomy :: "string \<Rightarrow> bool" where
  "roomy B \<equiv> int (length B) + FetchRoom \<le> DecoderMaxMemory"

definition appended ::
  "LogKey \<Rightarrow> LogGeneration \<Rightarrow> string \<Rightarrow> string \<Rightarrow> string \<Rightarrow> bool \<Rightarrow> bool \<Rightarrow> apperr + State \<Rightarrow> Machine \<Rightarrow> bool" where
  "appended key g L B data complete mor r mc' \<longleftrightarrow>
     (\<exists>g' L' B'. at_gen key mc' g' L' B' \<and> lg_ID g' = lg_ID g \<and> length L \<le> length L' \<and> length B' \<le> length (B @ data) \<and>
        (L' @ B' = L @ B @ data \<or> (\<exists>e. r = Inl e) \<and> L' @ B' = L @ B) \<and>
        (lg_Sealed g' \<longrightarrow> complete \<and> \<not> mor \<and> B' = [] \<and> lg_JenkinsOffset g' = int (length L') \<and> (\<exists>st. r = Inr st)) \<and> (lg_BuildComplete g' \<longrightarrow> complete) \<and>
        (\<forall>st. r = Inr st \<longrightarrow> described st g' L' \<and> lg_MoreData g' = mor \<and> lg_Sealed g' = (complete \<and> \<not> mor) \<and> (roomy B \<longrightarrow> roomy B')))"

lemma appendedI:
  assumes "at_gen key mc' g' L' B'" and "lg_ID g' = lg_ID g" and "length L \<le> length L'" and "length B' \<le> length (B @ data)"
    and "L' @ B' = L @ B @ data \<or> (\<exists>e. r = Inl e) \<and> L' @ B' = L @ B"
    and "lg_Sealed g' \<Longrightarrow> complete \<and> \<not> mor \<and> B' = [] \<and> lg_JenkinsOffset g' = int (length L') \<and> (\<exists>st. r = Inr st)" and "lg_BuildComplete g' \<Longrightarrow> complete"
    and "\<And>st. r = Inr st \<Longrightarrow> described st g' L' \<and> lg_MoreData g' = mor \<and> lg_Sealed g' = (complete \<and> \<not> mor) \<and> (roomy B \<longrightarrow> roomy B')"
  shows "appended key g L B data complete mor r mc'"
  unfolding appended_def using assms by blast

lemma appendFrames_at:
  assumes at: "at_gen key mc g L B" and st: "ms_GenerationID st = lg_ID g" "ms_DurableOffset st = int (length L)" and data: "data \<noteq> []"
    and run: "appendFrames st data seal nxt mc = (e, durable, na, mc')"
  shows "\<exists>L' B'. at_gen key mc' g L' B' \<and> durable = int (length L') \<and> length L \<le> length L' \<and> length B' \<le> length (B @ data) \<and>
    (e = None \<longrightarrow> roomy B') \<and> (e = None \<and> seal \<longrightarrow> B' = []) \<and> (L' @ B' = L @ B @ data \<or> e \<noteq> None \<and> L' @ B' = L @ B)"
proof -
  have codec: "codec_ok (mc_Frames mc)" and inv: "log_inv (mc_Frames mc) (lg_ID g) L B" using at by (simp_all add: at_gen_def mirror_env_def)
  have room: "frameMax (mc_Frames mc) + FetchRoom \<le> DecoderMaxMemory" "0 \<le> FetchRoom"
    using at by (simp_all add: at_gen_def mirror_env_def FetchRoom_def)
  obtain e1 res f1 where app: "Append (lg_ID g) data (mc_Frames mc) = (e1, res, f1)" by (rule prod_cases3)
  let ?mc1 = "mc\<lparr> mc_Frames := f1 \<rparr>"
  from Append_log [OF codec inv app] consider
    (ok) D B1 where "only_on (lg_ID g) (mc_Frames mc) f1" "log_inv f1 (lg_ID g) (L @ D) B1" "D @ B1 = B @ data"
      "ar_DurableEnd res = int (length (L @ D))" "e1 = None \<Longrightarrow> int (length B1) < frameMax (mc_Frames mc)"
  | (no) "only_on (lg_ID g) (mc_Frames mc) f1" "e1 \<noteq> None" "log_inv f1 (lg_ID g) L B" "res = noAppend"
    using data by blast
  then show ?thesis
  proof cases
    case no
    then have "e = e1" "durable = int (length L)" "mc' = ?mc1" using run app st by (auto simp: appendFrames_def Let_def)
    then show ?thesis using at_gen_frames [OF at no(1,3)] no(2) by (intro exI [of _ L, OF exI [of _ B]]) auto
  next
    case ok
    have at1: "at_gen key ?mc1 g (L @ D) B1" by (rule at_gen_frames [OF at ok(1,2)]) simp
    have all: "(L @ D) @ B1 = L @ B @ data" using ok(3) by simp
    have len: "length D + length B1 = length B + length data" using ok(3) by (metis length_append)
    show ?thesis
    proof (cases "e1 \<noteq> None \<or> \<not> seal")
      case True
      then have "e = e1" "durable = int (length (L @ D))" "mc' = ?mc1" using run app st ok(4) by (auto simp: appendFrames_def Let_def)
      then show ?thesis using at1 all len True ok(5) room by (intro exI [of _ "L @ D", OF exI [of _ B1]]) auto
    next
      case False
      obtain e2 res2 mc2 where fl: "flushGen (lg_ID g) ?mc1 = (e2, res2, mc2)" by (rule prod_cases3)
      have small: "int (length B1) \<le> DecoderMaxMemory" using ok(5) False codec by (simp add: codec_ok_def)
      note f = flushGen_at [OF at1 small fl]
      have out: "e = e2" "mc' = mc2"
        "durable = (if ar_DurableEnd res2 > int (length (L @ D)) then ar_DurableEnd res2 else int (length (L @ D)))"
        using run app st ok(4) False fl by (auto simp: appendFrames_def Let_def)
      show ?thesis
      proof (cases e2)
        case None
        then show ?thesis using len room frameMax_pos [of "mc_Frames mc"] f out all by (intro exI [of _ "(L @ D) @ B1", OF exI [of _ "[]"]]) simp
      next
        case (Some x)
        then show ?thesis using f out all len by (intro exI [of _ "L @ D", OF exI [of _ B1]]) simp
      qed
    qed
  qed
qed

lemma appendBody_at:
  assumes at: "at_gen key mc g L B" and open_: "\<not> lg_Sealed g" and data: "sg_Data seg \<noteq> []"
    and here: "\<not> (0 \<le> sg_ReportedNextOffset seg \<and> sg_ReportedNextOffset seg < int (length (L @ B)) + int (length (sg_Data seg)))"
    and run: "appendBody key (state_at g L B) seg mc = (r, mc')"
  shows "appended key g L B (sg_Data seg) (sg_BuildComplete seg \<or> lg_BuildComplete g)
    (sg_ReportedNextOffset seg > int (length (L @ B)) + int (length (sg_Data seg)) \<or> sg_MoreData seg) r mc'"
proof -
  let ?st = "state_at g L B" and ?next = "int (length (L @ B)) + int (length (sg_Data seg))"
  let ?mor = "sg_ReportedNextOffset seg > ?next \<or> sg_MoreData seg" and ?complete = "sg_BuildComplete seg \<or> lg_BuildComplete g"
  have st: "ms_GenerationID ?st = lg_ID g" "ms_DurableOffset ?st = int (length L)" "ms_CommittedOffset ?st = int (length (L @ B))"
    "ms_BuildComplete ?st = lg_BuildComplete g" "ms_Generation ?st = lg_Generation g"
    using open_ by (simp_all add: state_at_def genState_def)
  have mor: "(if sg_ReportedNextOffset seg = ?next \<and> \<not> sg_MoreData seg then False
     else if sg_ReportedNextOffset seg > ?next then True else sg_MoreData seg) = ?mor" by auto
  obtain e durable na mc1 where fr: "appendFrames ?st (sg_Data seg) (?complete \<and> \<not> ?mor) ?next mc = (e, durable, na, mc1)" by (rule prod_cases4)
  from appendFrames_at [OF at st(1,2) data fr] obtain L' B' where A: "at_gen key mc1 g L' B'" "durable = int (length L')"
    "length L \<le> length L'" "length B' \<le> length (B @ sg_Data seg)" "e = None \<longrightarrow> roomy B'"
    "e = None \<and> ?complete \<and> \<not> ?mor \<longrightarrow> B' = []" "L' @ B' = L @ B @ sg_Data seg \<or> e \<noteq> None \<and> L' @ B' = L @ B" by blast
  note body = run [unfolded appendBody_def Let_def st if_not_P [OF here] mor if_P [OF at_genD(3) [OF at]] fr prod.case]
  show ?thesis
  proof (cases e)
    case (Some x)
    obtain e2 mc2 where u: "updateOffset (lg_ID g) durable ?mor ?complete False mc1 = (e2, mc2)" by fastforce
    have out: "r = Inl x" "mc' = mc2" using body Some u by auto
    from updateOffset_at [OF A(1) _ u] A(2) obtain g' where g': "at_gen key mc2 g' L' B'" "\<not> lg_Sealed g'" "lg_BuildComplete g' \<longrightarrow> ?complete"
      "lg_ID g' = lg_ID g" using open_ by (cases e2) fastforce+
    show ?thesis unfolding out by (rule appendedI [OF g'(1,4) A(3,4)]) (use g' A(7) in auto)
  next
    case None
    obtain e2 mc2 where u: "updateOffset (lg_ID g) durable ?mor ?complete (?complete \<and> \<not> ?mor) mc1 = (e2, mc2)" by fastforce
    have all: "L' @ B' = L @ B @ sg_Data seg" using A(7) None by simp
    show ?thesis
    proof (cases e2)
      case (Some x)
      then have out: "r = Inl x" "mc' = mc2" using body None u by auto
      have "at_gen key mc2 g L' B'" using updateOffset_at [OF A(1) _ u] A(2) Some by simp
      then show ?thesis unfolding out by (rule appendedI [OF _ refl A(3,4)]) (use all open_ in auto)
    next
      case none: None
      let ?g = "g\<lparr> lg_JenkinsOffset := durable, lg_MoreData := ?mor, lg_BuildComplete := ?complete, lg_Sealed := ?complete \<and> \<not> ?mor \<rparr>"
      have g': "at_gen key (addBytes key (int (length (sg_Data seg))) mc2) ?g L' B'" using updateOffset_at [OF A(1) _ u] A(2) none by simp
      obtain st' where out: "r = Inr st'" "mc' = addBytes key (int (length (sg_Data seg))) mc2" and st': "ms_GenerationID st' = lg_ID g"
        "ms_DurableOffset st' = durable" "ms_MoreData st' = ?mor" "ms_BuildComplete st' = ?complete" "ms_Sealed st' = (?complete \<and> \<not> ?mor)"
        using body None u none st(1) by auto
      have "described st' ?g L'" using st' A(2) by (simp add: described_def)
      then show ?thesis unfolding out by (intro appendedI [OF g' _ A(3,4)]) (use all A(2,5,6) None in auto)
    qed
  qed
qed

lemma appendEmpty_at:
  assumes at: "at_gen key mc g L B" and open_: "\<not> lg_Sealed g" and small: "int (length B) \<le> DecoderMaxMemory"
    and run: "appendEmpty (state_at g L B) seg mc = (r, mc')"
  shows "appended key g L B [] (sg_BuildComplete seg \<or> lg_BuildComplete g)
    (sg_ReportedNextOffset seg > int (length (L @ B)) \<or> sg_MoreData seg) r mc'"
proof -
  let ?st = "state_at g L B" and ?mor = "sg_ReportedNextOffset seg > int (length (L @ B)) \<or> sg_MoreData seg"
    and ?complete = "sg_BuildComplete seg \<or> lg_BuildComplete g"
  have st: "ms_GenerationID ?st = lg_ID g" "ms_DurableOffset ?st = int (length L)" "ms_CommittedOffset ?st = int (length (L @ B))"
    "ms_BuildComplete ?st = lg_BuildComplete g"
    using open_ by (simp_all add: state_at_def genState_def)
  have frames: "mc_HasFrames mc" by (rule at_genD(3) [OF at])
  have mor: "(if sg_ReportedNextOffset seg > int (length (L @ B)) then True else sg_MoreData seg) = ?mor" by simp
  have persist: "appended key g L B [] ?complete ?mor r mc'"
    if p: "at_gen key mc1 g L1 B1" "L1 @ B1 = L @ B" "?complete \<and> \<not> ?mor \<longrightarrow> B1 = []" "length L \<le> length L1" "B1 = [] \<or> B1 = B"
      and upd: "updateOffset (lg_ID g) (int (length L1)) ?mor ?complete (?complete \<and> \<not> ?mor) mc1 = (e2, mc2)"
      and out: "case e2 of Some x \<Rightarrow> r = Inl x \<and> mc' = mc2 | None \<Rightarrow> mc' = mc2 \<and> (\<exists>st'. r = Inr st' \<and> ms_Sealed st' = (?complete \<and> \<not> ?mor) \<and>
        ms_GenerationID st' = lg_ID g \<and> ms_DurableOffset st' = int (length L1) \<and> ms_MoreData st' = ?mor \<and> ms_BuildComplete st' = ?complete)"
    for mc1 L1 B1 e2 mc2
  proof -
    have B1: "length B1 \<le> length (B @ [])" "roomy B \<longrightarrow> roomy B1" using p(5) by auto
    show ?thesis
    proof (cases e2)
      case (Some x)
      then have "at_gen key mc' g L1 B1" "r = Inl x" using updateOffset_at [OF p(1) order_refl upd] out by auto
      then show ?thesis using p(2) open_ by (intro appendedI [OF _ refl p(4) B1(1)]) auto
    next
      case None
      let ?g = "g\<lparr> lg_JenkinsOffset := int (length L1), lg_MoreData := ?mor, lg_BuildComplete := ?complete, lg_Sealed := ?complete \<and> \<not> ?mor \<rparr>"
      have "at_gen key mc' ?g L1 B1" using updateOffset_at [OF p(1) order_refl upd] out None by auto
      then show ?thesis by (rule appendedI [OF _ _ p(4) B1(1)]) (use p out None B1(2) in \<open>auto simp: described_def\<close>)
    qed
  qed
  note body = run [unfolded appendEmpty_def Let_def st mor]
  show ?thesis
  proof (cases "?complete \<and> \<not> ?mor")
    case True
    obtain e1 res mc1 where fl: "flushGen (lg_ID g) mc = (e1, res, mc1)" by (rule prod_cases3)
    note f = flushGen_at [OF at small fl]
    have go: "(?complete \<and> \<not> ?mor \<and> mc_HasFrames mc) = True" using True frames by blast
    note body1 = body [unfolded go if_True fl prod.case]
    show ?thesis
    proof (cases e1)
      case (Some x)
      then have "r = Inl x" "mc' = mc1" using body1 by auto
      then show ?thesis using f Some open_ by (intro appendedI [of key mc' g L B]) auto
    next
      case None
      let ?d = "if ar_DurableEnd res > int (length L) then ar_DurableEnd res else int (length L)"
      have d: "?d = int (length (L @ B))" and f1: "at_gen key mc1 g (L @ B) []" using f None by auto
      obtain e2 mc2 where u: "updateOffset (lg_ID g) (int (length (L @ B))) ?mor ?complete (?complete \<and> \<not> ?mor) mc1 = (e2, mc2)" by fastforce
      have d': "ms_DurableOffset (?st\<lparr> ms_DurableOffset := ?d, ms_CommittedOffset := c \<rparr>) = int (length (L @ B))"
        and i': "ms_GenerationID (?st\<lparr> ms_DurableOffset := ?d, ms_CommittedOffset := c \<rparr>) = lg_ID g" for c
        using d st(1) by simp_all
      note body2 = body1 [unfolded None option.case st if_P [OF at_genD(3) [OF f1]] d' i' u prod.case]
      show ?thesis by (rule persist [OF f1 _ _ _ _ u]) (use body2 True d i' in \<open>auto split: option.splits\<close>)
    qed
  next
    case False
    obtain e2 mc2 where u: "updateOffset (lg_ID g) (int (length L)) ?mor ?complete (?complete \<and> \<not> ?mor) mc = (e2, mc2)" by fastforce
    have go: "(?complete \<and> \<not> ?mor \<and> mc_HasFrames mc) = False" using False by blast
    note body1 = body [unfolded go if_False if_P [OF frames] st u prod.case]
    show ?thesis by (rule persist [OF at _ _ _ _ u]) (use body1 False st(1,2) in \<open>auto split: option.splits\<close>)
  qed
qed


section \<open>Polling an honest source\<close>

text \<open>What is asked of the source of a log that will be \<open>X\<close>: it sends bytes of \<open>X\<close> from the offset on, it
  reports a size it has reached or none, and once the build has finished it claims to be done only when it is.\<close>

definition honest :: "string \<Rightarrow> bool \<Rightarrow> Source \<Rightarrow> bool" where
  "honest X finished src \<longleftrightarrow>
     (\<forall>off n data rep mo. 0 \<le> off \<and> off \<le> int (length X) \<and> 0 < n \<and> src off n = Inr (data, rep, mo) \<longrightarrow>
        prefix data (drop (nat off) X) \<and> int (length data) \<le> n \<and> (rep = - 1 \<or> rep = 0 \<and> data \<noteq> [] \<or> off + int (length data) \<le> rep) \<and>
        (finished \<and> \<not> mo \<and> rep \<le> off + int (length data) \<longrightarrow> data = drop (nat off) X))"

definition tracks :: "string \<Rightarrow> bool \<Rightarrow> LogGeneration \<Rightarrow> string \<Rightarrow> string \<Rightarrow> bool" where
  "tracks X finished g L B \<longleftrightarrow>
     prefix (L @ B) X \<and> (lg_Sealed g \<longrightarrow> L = X \<and> lg_JenkinsOffset g = int (length X)) \<and> (lg_BuildComplete g \<longrightarrow> finished)"

definition tracked :: "LogKey \<Rightarrow> string \<Rightarrow> Machine \<Rightarrow> bool \<Rightarrow> bool" where
  "tracked key X mc finished \<longleftrightarrow> fresh key mc \<or> (\<exists>g L B. at_gen key mc g L B \<and> tracks X finished g L B)"

text \<open>No buffer has outgrown what can be flushed as one frame, with room for one more fetch.\<close>

definition small_buffers :: "Machine \<Rightarrow> bool" where
  "small_buffers mc \<longleftrightarrow> (\<forall>h og. openOf (mc_Frames mc) h = Some og \<longrightarrow> roomy (og_buf og))"

lemma tracks_mono: "tracks X c g L B \<Longrightarrow> (c \<Longrightarrow> d) \<Longrightarrow> tracks X d g L B"
  by (auto simp: tracks_def)

lemma tracked_mono: "tracked key X mc c \<Longrightarrow> (c \<Longrightarrow> d) \<Longrightarrow> tracked key X mc d"
  unfolding tracked_def using tracks_mono by blast

lemma roomy_Nil [simp]: "roomy []" by (simp add: FetchRoom_def DecoderMaxMemory_def)

lemma roomy_small: "roomy B \<Longrightarrow> int (length B) \<le> DecoderMaxMemory" by (simp add: FetchRoom_def)

lemma roomy_at: "at_gen key mc g L B \<Longrightarrow> small_buffers mc \<Longrightarrow> roomy B"
  by (auto simp: at_gen_def log_inv_def small_buffers_def FetchRoom_def DecoderMaxMemory_def split: option.splits)

text \<open>A step on a generation that keeps it tracking the log.\<close>

definition follows :: "LogKey \<Rightarrow> string \<Rightarrow> bool \<Rightarrow> LogGeneration \<Rightarrow> string \<Rightarrow> apperr + State \<Rightarrow> Machine \<Rightarrow> bool" where
  "follows key X d g L r mc' \<longleftrightarrow>
     (\<exists>g' L' B'. at_gen key mc' g' L' B' \<and> tracks X d g' L' B' \<and> lg_ID g' = lg_ID g \<and> length L \<le> length L' \<and>
        int (length B') \<le> DecoderMaxMemory \<and> (\<forall>st. r = Inr st \<longrightarrow> described st g' L' \<and> roomy B'))"

lemma followsI:
  assumes "at_gen key mc' g' L' B'" and "tracks X d g' L' B'" and "lg_ID g' = lg_ID g" and "length L \<le> length L'"
    and "int (length B') \<le> DecoderMaxMemory" and "\<And>st. r = Inr st \<Longrightarrow> described st g' L' \<and> roomy B'"
  shows "follows key X d g L r mc'"
  unfolding follows_def using assms by blast

lemma follows_same:
  "at_gen key mc g L B \<Longrightarrow> tracks X d g L B \<Longrightarrow> roomy B \<Longrightarrow> (\<And>st. r = Inr st \<Longrightarrow> described st g L) \<Longrightarrow> follows key X d g L r mc"
  unfolding follows_def using roomy_small by blast

lemma follows_tracked: "follows key X d g L r mc \<Longrightarrow> tracked key X mc d"
  by (auto simp: follows_def tracked_def)

lemma appended_follows:
  assumes app: "appended key g L B data complete mor r mc'" and tr: "prefix (L @ B) X" and data: "prefix data (drop (length (L @ B)) X)"
    and fin: "complete \<Longrightarrow> d" "complete \<Longrightarrow> \<not> mor \<Longrightarrow> data = drop (length (L @ B)) X"
    and room: "roomy B" "int (length data) \<le> FetchRoom"
  shows "follows key X d g L r mc' \<and> (\<forall>st. r = Inr st \<and> complete \<and> \<not> ms_MoreData st \<longrightarrow> ms_Sealed st)"
proof -
  from app obtain g' L' B' where A: "at_gen key mc' g' L' B'" "lg_ID g' = lg_ID g" "length L \<le> length L'" "length B' \<le> length (B @ data)"
    "L' @ B' = L @ B @ data \<or> (\<exists>e. r = Inl e) \<and> L' @ B' = L @ B"
    "lg_Sealed g' \<longrightarrow> complete \<and> \<not> mor \<and> B' = [] \<and> lg_JenkinsOffset g' = int (length L') \<and> (\<exists>st. r = Inr st)"
    "lg_BuildComplete g' \<longrightarrow> complete"
    "\<forall>st. r = Inr st \<longrightarrow> described st g' L' \<and> lg_MoreData g' = mor \<and> lg_Sealed g' = (complete \<and> \<not> mor) \<and> (roomy B \<longrightarrow> roomy B')"
    unfolding appended_def by blast
  have X: "X = (L @ B) @ drop (length (L @ B)) X" using tr by (auto simp: prefix_def)
  then have "prefix (L @ B @ data) X" using data by (metis append_assoc same_prefix_prefix)
  then have "prefix (L' @ B') X" using A(5) tr by auto
  moreover have "L' = X \<and> lg_JenkinsOffset g' = int (length X)" if "lg_Sealed g'"
  proof -
    have "L' = L @ B @ data" "data = drop (length (L @ B)) X" "lg_JenkinsOffset g' = int (length L')" using that A(5,6) fin(2) by auto
    moreover from this have "L' = X" using X by simp
    ultimately show ?thesis by simp
  qed
  ultimately have "tracks X d g' L' B'" using A(7) fin(1) by (auto simp: tracks_def)
  moreover have "int (length B') \<le> DecoderMaxMemory" using A(4) room by simp
  ultimately have "follows key X d g L r mc'" by (rule followsI [OF A(1) _ A(2,3)]) (use A(8) room(1) in simp_all)
  moreover have "ms_Sealed st" if "r = Inr st" "complete" "\<not> ms_MoreData st" for st
  proof -
    have "described st g' L'" "lg_MoreData g' = mor" "lg_Sealed g' = (complete \<and> \<not> mor)" using A(8) that(1) by blast+
    then show ?thesis using that(2,3) by (simp add: described_def)
  qed
  ultimately show ?thesis by blast
qed

lemma append_honest:
  assumes at: "at_gen key mc g L B" and tr: "tracks X c g L B" and open_: "\<not> lg_Sealed g" and small: "roomy B"
    and src: "honest X (c \<or> bc) src" "src (int (length (L @ B))) n = Inr (data, rep, mo)" "0 < n" "n \<le> FetchRoom"
    and run: "appendLocked key \<lparr> sg_Data = data, sg_ReportedNextOffset = rep, sg_MoreData = mo, sg_BuildComplete = bc \<rparr> mc = (r, mc')"
  shows "follows key X (c \<or> bc) g L r mc' \<and> (\<forall>st. r = Inr st \<and> bc \<and> \<not> ms_MoreData st \<longrightarrow> ms_Sealed st)"
proof -
  let ?off = "int (length (L @ B))"
  have "?off \<le> int (length X)" using tr by (auto simp: tracks_def dest: prefix_length_le)
  moreover have "0 \<le> ?off" by simp
  ultimately have "prefix data (drop (nat ?off) X) \<and> int (length data) \<le> n \<and>
      (rep = - 1 \<or> rep = 0 \<and> data \<noteq> [] \<or> ?off + int (length data) \<le> rep) \<and>
      ((c \<or> bc) \<and> \<not> mo \<and> rep \<le> ?off + int (length data) \<longrightarrow> data = drop (nat ?off) X)"
    using src(1) [unfolded honest_def] src(2,3) by blast
  then have H: "prefix data (drop (length (L @ B)) X)" "rep = - 1 \<or> rep = 0 \<and> data \<noteq> [] \<or> ?off + int (length data) \<le> rep"
    "(c \<or> bc) \<and> \<not> mo \<and> rep \<le> ?off + int (length data) \<longrightarrow> data = drop (length (L @ B)) X" "int (length data) \<le> FetchRoom"
    using src(4) unfolding nat_int by simp_all
  have pre: "prefix (L @ B) X" and done_: "lg_BuildComplete g \<longrightarrow> c" using tr by (simp_all add: tracks_def)
  let ?rep = "if data \<noteq> [] \<and> rep = 0 then - 1 else rep"
  let ?seg = "\<lparr> sg_Data = data, sg_ReportedNextOffset = ?rep, sg_MoreData = mo, sg_BuildComplete = bc \<rparr>"
  have rep: "?rep = - 1 \<or> ?off + int (length data) \<le> ?rep" "?rep \<le> ?off + int (length data) \<longrightarrow> rep \<le> ?off + int (length data)"
    using H(2) by auto
  obtain r1 mc1 where opn: "openLog key mc = (r1, mc1)" by fastforce
  note o = openLog_at [OF at opn]
  show ?thesis
  proof (cases r1)
    case (Inl e)
    then have "r = Inl e" "mc' = mc1" using run opn by (auto simp: appendLocked_def)
    then show ?thesis using follows_same [OF o(1) tracks_mono [OF tr, of "c \<or> bc"] small, where r = r] by simp
  next
    case (Inr st)
    then have st: "st = state_at g L B" using o(2) by simp
    have flags: "\<not> ms_Sealed st" "ms_CommittedOffset st = ?off" using open_ by (simp_all add: st state_at_def genState_def)
    have keep: "\<not> needsNewGeneration (ms_CommittedOffset st) ?seg" using rep(1) by (auto simp: needsNewGeneration_def flags)
    have run2: "(if data = [] then appendEmpty st ?seg mc1 else appendBody key st ?seg mc1) = (r, mc')"
      using run opn Inr flags keep by (auto simp: appendLocked_def Let_def split: if_splits)
    show ?thesis
    proof (cases "data = []")
      case True
      then have "appendEmpty (state_at g L B) ?seg mc1 = (r, mc')" using run2 st by simp
      from appendEmpty_at [OF o(1) open_ roomy_small [OF small] this]
      have app: "appended key g L B data (bc \<or> lg_BuildComplete g) (?rep > ?off + int (length data) \<or> mo) r mc'" using True by simp
      have "follows key X (c \<or> bc) g L r mc' \<and> (\<forall>st. r = Inr st \<and> (bc \<or> lg_BuildComplete g) \<and> \<not> ms_MoreData st \<longrightarrow> ms_Sealed st)"
        by (rule appended_follows [OF app pre H(1)]) (use H(3,4) done_ rep(2) small in auto)
      then show ?thesis by blast
    next
      case False
      then have "appendBody key (state_at g L B) ?seg mc1 = (r, mc')" using run2 st by simp
      from appendBody_at [OF o(1) open_ _ _ this] False rep(1)
      have app: "appended key g L B data (bc \<or> lg_BuildComplete g) (?rep > ?off + int (length data) \<or> mo) r mc'" by auto
      have "follows key X (c \<or> bc) g L r mc' \<and> (\<forall>st. r = Inr st \<and> (bc \<or> lg_BuildComplete g) \<and> \<not> ms_MoreData st \<longrightarrow> ms_Sealed st)"
        by (rule appended_follows [OF app pre H(1)]) (use H(3,4) done_ rep(2) small in auto)
      then show ?thesis by blast
    qed
  qed
qed

text \<open>A poll of a log that has a generation.\<close>

lemma poll_rest:
  assumes at: "at_gen key mc1 g L B" and tr: "tracks X c g L B" and small: "roomy B" and src: "honest X (c \<or> bc) src"
    and run: "(if ms_Sealed (state_at g L B) then (Inr (state_at g L B), mc1)
          else (case src (ms_CommittedOffset (state_at g L B)) n of
            Inl e \<Rightarrow> (Inl e, mc1)
          | Inr (data, reportedNext, mor) \<Rightarrow>
              appendLocked key \<lparr> sg_Data = data, sg_ReportedNextOffset = reportedNext, sg_MoreData = mor,
                                sg_BuildComplete = bc \<rparr> mc1)) = (r, mc')"
    and n: "0 < n" "n \<le> FetchRoom"
  shows "follows key X (c \<or> bc) g L r mc' \<and> (\<forall>st. r = Inr st \<and> bc \<and> \<not> ms_MoreData st \<longrightarrow> ms_Sealed st)"
proof (cases "lg_Sealed g")
  case True
  then have "ms_Sealed (state_at g L B)" by (simp add: state_at_def genState_def)
  then have "r = Inr (state_at g L B)" "mc' = mc1" "ms_Sealed (state_at g L B)" using run by simp_all
  then show ?thesis using follows_same [OF at tracks_mono [OF tr, of "c \<or> bc"] small] state_at_described [OF at] by auto
next
  case False
  then have st: "\<not> ms_Sealed (state_at g L B)" "ms_CommittedOffset (state_at g L B) = int (length (L @ B))"
    by (simp_all add: state_at_def genState_def)
  show ?thesis
  proof (cases "src (int (length (L @ B))) n")
    case (Inl e)
    then have "r = Inl e" "mc' = mc1" using run st by auto
    then show ?thesis using follows_same [OF at tracks_mono [OF tr, of "c \<or> bc"] small, where r = r] by simp
  next
    case (Inr a)
    obtain data rep mo where a: "a = (data, rep, mo)" by (rule prod_cases3)
    have "appendLocked key \<lparr> sg_Data = data, sg_ReportedNextOffset = rep, sg_MoreData = mo, sg_BuildComplete = bc \<rparr> mc1 = (r, mc')"
      using run st Inr a by auto
    then show ?thesis by (rule append_honest [OF at tr False small src Inr [unfolded a] n])
  qed
qed

lemma fetchSize_ok: "mirror_env mc \<Longrightarrow> 0 < fetchSize mc \<and> fetchSize mc \<le> FetchRoom"
  by (simp add: mirror_env_def fetchSize_def DefaultFetchBytes_def)

lemma poll_at:
  assumes at: "at_gen key mc g L B" and tr: "tracks X c g L B" and small: "roomy B" and src: "honest X (c \<or> bc) src"
    and run: "pollOnce src key bc mc = (r, mc')"
  shows "follows key X (c \<or> bc) g L r mc' \<and> (\<forall>st. r = Inr st \<and> bc \<and> \<not> ms_MoreData st \<longrightarrow> ms_Sealed st)"
proof -
  obtain r1 mc1 where opn: "openLog key mc = (r1, mc1)" by fastforce
  note o = openLog_at [OF at opn]
  show ?thesis
  proof (cases r1)
    case (Inl e)
    then have "r = Inl e" "mc' = mc1" using run opn by (auto simp: pollOnce_def)
    then show ?thesis using follows_same [OF o(1) tracks_mono [OF tr, of "c \<or> bc"] small, where r = r] by simp
  next
    case (Inr st)
    then have st: "st = state_at g L B" using o(2) by simp
    have n: "0 < fetchSize mc" "fetchSize mc \<le> FetchRoom" using fetchSize_ok at_genD(4) [OF at] by blast+
    note rest = run [unfolded pollOnce_def opn prod.case Inr sum.case st, folded fetchSize_def]
    show ?thesis by (rule poll_rest [OF o(1) tr small src rest n])
  qed
qed

lemma poll_fresh:
  assumes fr: "fresh key mc" and key: "KeyValidate key = None" and src: "honest X (c \<or> bc) src" and run: "pollOnce src key bc mc = (r, mc')"
  shows "(fresh key mc' \<and> (\<exists>e. r = Inl e)) \<or>
    (\<exists>g. follows key X (c \<or> bc) g [] r mc' \<and> (\<forall>st. r = Inr st \<and> bc \<and> \<not> ms_MoreData st \<longrightarrow> ms_Sealed st))"
proof -
  obtain r1 mc1 where opn: "openLog key mc = (r1, mc1)" by fastforce
  note o = openLog_fresh [OF fr key opn]
  show ?thesis
  proof (cases r1)
    case (Inl e)
    then show ?thesis using run opn o by (auto simp: pollOnce_def)
  next
    case (Inr st)
    then obtain i where i: "at_gen key mc1 ((freshGeneration key 1)\<lparr> lg_ID := i \<rparr>) [] []"
      "st = state_at ((freshGeneration key 1)\<lparr> lg_ID := i \<rparr>) [] []" using o by auto
    have tr: "tracks X c ((freshGeneration key 1)\<lparr> lg_ID := i \<rparr>) [] []" by (simp add: tracks_def freshGeneration_def)
    have n: "0 < fetchSize mc" "fetchSize mc \<le> FetchRoom" using fetchSize_ok fr by (simp_all add: fresh_def)
    have "follows key X (c \<or> bc) ((freshGeneration key 1)\<lparr> lg_ID := i \<rparr>) [] r mc' \<and>
      (\<forall>st. r = Inr st \<and> bc \<and> \<not> ms_MoreData st \<longrightarrow> ms_Sealed st)"
      by (rule poll_rest [OF i(1) tr roomy_Nil src run [unfolded pollOnce_def opn prod.case Inr sum.case i(2), folded fetchSize_def] n])
    then show ?thesis by blast
  qed
qed

lemma poll_tracked:
  assumes tr: "tracked key X mc c" and key: "KeyValidate key = None" and src: "honest X (c \<or> bc) src" and small: "small_buffers mc"
    and run: "pollOnce src key bc mc = (r, mc')"
  shows "tracked key X mc' (c \<or> bc)"
proof (cases "fresh key mc")
  case True
  have "fresh key mc' \<or> (\<exists>g. follows key X (c \<or> bc) g [] r mc')" using poll_fresh [OF True key src run] by blast
  then show ?thesis using tracked_def [of key X mc' "c \<or> bc"] follows_tracked by blast
next
  case False
  then obtain g L B where g: "at_gen key mc g L B" "tracks X c g L B" using tr by (auto simp: tracked_def)
  then show ?thesis using poll_at [OF g roomy_at [OF g(1) small] src run] follows_tracked by blast
qed

end
