(* ===== verification/LogAccessCorrect.thy ===== *)
theory LogAccessCorrect
  imports LogAccess LogMirrorCorrect
begin

text \<open>
  Mirroring a log within budgets keeps what the mirror promises, and a log it reports as sealed is the log. A
  pushed snapshot is either stored exactly or not at all.
\<close>

section \<open>Flushing a partial mirror\<close>

text \<open>A state that may be written back: of the generation, not past its durable end, sealed only if that is.\<close>

definition usable :: "bool \<Rightarrow> State \<Rightarrow> LogGeneration \<Rightarrow> string \<Rightarrow> bool" where
  "usable c st g L \<longleftrightarrow>
     ms_GenerationID st = lg_ID g \<and> ms_DurableOffset st \<le> int (length L) \<and> (ms_Sealed st \<longrightarrow> lg_Sealed g) \<and>
     (ms_BuildComplete st \<longrightarrow> c)"

lemma described_usable: "described st g L \<Longrightarrow> tracks X c g L B \<Longrightarrow> usable c st g L"
  by (simp add: described_def tracks_def usable_def)

lemma usable_follows:
  "usable c st g L \<Longrightarrow> \<not> ms_Sealed st \<Longrightarrow> lg_ID g' = lg_ID g \<Longrightarrow> length L \<le> length L' \<Longrightarrow> (c \<Longrightarrow> d) \<Longrightarrow> usable d st g' L'"
  by (auto simp: usable_def)

text \<open>What a run comes to: the mirror still tracks the log, and a state that says sealed is that of a sealed generation.\<close>

definition settled :: "LogKey \<Rightarrow> string \<Rightarrow> bool \<Rightarrow> State \<Rightarrow> Machine \<Rightarrow> bool" where
  "settled key X c s mc \<longleftrightarrow>
     tracked key X mc c \<and> (ms_Sealed s \<longrightarrow> (\<exists>g L B. at_gen key mc g L B \<and> tracks X c g L B \<and> lg_Sealed g))"

lemma settledI: "at_gen key mc g L B \<Longrightarrow> tracks X c g L B \<Longrightarrow> (ms_Sealed s \<Longrightarrow> lg_Sealed g) \<Longrightarrow> settled key X c s mc"
  unfolding settled_def tracked_def by blast

lemma settled_unsealed: "tracked key X mc c \<Longrightarrow> \<not> ms_Sealed s \<Longrightarrow> settled key X c s mc"
  by (simp add: settled_def)

lemma flushPartial_at:
  assumes at: "at_gen key mc g L B" and tr: "tracks X c g L B" and small: "int (length B) \<le> DecoderMaxMemory"
    and st: "usable c lst g L \<or> (ms_GenerationID lst = 0 \<and> (usable c fallback g L \<or> (ms_GenerationID fallback = 0 \<and> \<not> ms_Sealed fallback)))"
    and run: "flushPartial lst fallback mc = (s, mc')"
  shows "settled key X c s mc'"
proof -
  let ?st = "if ms_GenerationID lst = 0 then fallback else lst"
  have pos: "0 < lg_ID g" and frames: "mc_HasFrames mc" using at_genD(2,3) [OF at] by simp_all
  show ?thesis
  proof (cases "ms_GenerationID ?st = 0")
    case True
    then have "s = fallback" "mc' = mc" "\<not> ms_Sealed fallback"
      using run st pos by (auto simp: flushPartial_def usable_def split: if_splits)
    then show ?thesis using at tr by (auto intro: settledI)
  next
    case False
    then have u: "usable c ?st g L" using st pos by (auto simp: usable_def)
    then have id: "ms_GenerationID ?st = lg_ID g" "ms_Sealed ?st \<longrightarrow> lg_Sealed g" "ms_DurableOffset ?st \<le> int (length L)" "ms_BuildComplete ?st \<longrightarrow> c"
      by (simp_all add: usable_def)
    obtain e res mc1 where fl: "flushGen (lg_ID g) mc = (e, res, mc1)" by (rule prod_cases3)
    note f = flushGen_at [OF at small fl]
    have go: "(\<not> mc_HasFrames mc \<or> lg_ID g = 0) = False" using frames pos by simp
    note body = run [unfolded flushPartial_def Let_def id(1) go if_False fl prod.case]
    show ?thesis
    proof (cases e)
      case (Some x)
      then have out: "s = ?st" "mc' = mc1" using body by auto
      have "at_gen key mc1 g L B" using f Some by simp
      then show ?thesis unfolding out using tr by (rule settledI) (use id(2) in blast)
    next
      case None
      have f1: "at_gen key mc1 g (L @ B) []" "ar_DurableEnd res = int (length (L @ B))" using f None by simp_all
      have tr1: "tracks X c g (L @ B) []" using tr by (auto simp: tracks_def)
      let ?d = "if ar_DurableEnd res > ms_DurableOffset ?st then ar_DurableEnd res else ms_DurableOffset ?st"
      have d: "?d \<le> int (length (L @ B))" using f1(2) id(3) by simp
      obtain e2 mc2 where up: "updateOffset (lg_ID g) ?d (ms_MoreData ?st) (ms_BuildComplete ?st) (ms_Sealed ?st) mc1 = (e2, mc2)" by fastforce
      have out: "ms_Sealed s = ms_Sealed ?st" "mc' = mc1 \<or> mc' = mc2"
        using body None id(1) up by (auto split: if_splits)
      have "settled key X c s mc2"
      proof (cases e2)
        case (Some x)
        then have "at_gen key mc2 g (L @ B) []" using updateOffset_at [OF f1(1) d up] by simp
        then show ?thesis using tr1 by (rule settledI) (use id(2) out(1) in blast)
      next
        case none: None
        let ?g = "g\<lparr> lg_JenkinsOffset := ?d, lg_MoreData := ms_MoreData ?st, lg_BuildComplete := ms_BuildComplete ?st, lg_Sealed := ms_Sealed ?st \<rparr>"
        have at2: "at_gen key mc2 ?g (L @ B) []" and op: "\<not> lg_Sealed g" using updateOffset_at [OF f1(1) d up] none by simp_all
        have "tracks X c ?g (L @ B) []" using tr1 id(2,4) op by (simp add: tracks_def)
        with at2 show ?thesis by (rule settledI) (use out(1) in simp)
      qed
      moreover have "settled key X c s mc1" using f1(1) tr1 by (rule settledI) (use id(2) out(1) in blast)
      ultimately show ?thesis using out(2) by blast
    qed
  qed
qed

section \<open>The loop\<close>

text \<open>Between two polls.\<close>

definition ensuring :: "LogKey \<Rightarrow> string \<Rightarrow> bool \<Rightarrow> State \<Rightarrow> State \<Rightarrow> Machine \<Rightarrow> bool" where
  "ensuring key X c st lst mc \<longleftrightarrow>
     \<not> ms_Sealed st \<and> \<not> ms_Sealed lst \<and>
     ((fresh key mc \<and> ms_GenerationID st = 0 \<and> ms_GenerationID lst = 0) \<or>
      (\<exists>g L B. at_gen key mc g L B \<and> tracks X c g L B \<and> roomy B \<and>
         (usable c lst g L \<or> (ms_GenerationID lst = 0 \<and> (usable c st g L \<or> ms_GenerationID st = 0)))))"

lemma ensuring_tracked: "ensuring key X c st lst mc \<Longrightarrow> tracked key X mc c"
  unfolding ensuring_def tracked_def by blast

lemma ensuring_mono:
  assumes "ensuring key X c st lst mc" and "c \<Longrightarrow> d"
  shows "ensuring key X d st lst mc"
proof -
  have u: "usable c s g L \<Longrightarrow> usable d s g L" for s g L using assms(2) by (auto simp: usable_def)
  have t: "tracks X c g L B \<Longrightarrow> tracks X d g L B" for g L B using assms(2) tracks_mono [of X c g L B d] by blast
  show ?thesis
  proof (cases "fresh key mc \<and> ms_GenerationID st = 0 \<and> ms_GenerationID lst = 0")
    case True
    then show ?thesis using assms(1) by (simp add: ensuring_def)
  next
    case False
    then obtain g L B where g: "at_gen key mc g L B" "tracks X c g L B" "roomy B"
      "usable c lst g L \<or> (ms_GenerationID lst = 0 \<and> (usable c st g L \<or> ms_GenerationID st = 0))"
      using assms(1) unfolding ensuring_def by blast
    have "usable d lst g L \<or> (ms_GenerationID lst = 0 \<and> (usable d st g L \<or> ms_GenerationID st = 0))" using g(4) u by blast
    then show ?thesis using g(1) t [OF g(2)] g(3) assms(1) unfolding ensuring_def by blast
  qed
qed

lemma stopEnsure_settled:
  assumes "ensuring key X c st lst (en_Machine run)" and "stopEnsure lst st e run = ((s, e'), run')"
  shows "settled key X c s (en_Machine run') \<and> e' = e"
proof -
  obtain mc' where fp: "flushPartial lst st (en_Machine run) = (s, mc')" "run' = run\<lparr> en_Machine := mc' \<rparr>" "e' = e"
    using assms(2) by (auto simp: stopEnsure_def split: prod.splits)
  show ?thesis
  proof (cases "fresh key (en_Machine run) \<and> ms_GenerationID st = 0 \<and> ms_GenerationID lst = 0")
    case True
    then have "s = st" "mc' = en_Machine run" using fp(1) by (simp_all add: flushPartial_def)
    then show ?thesis using assms(1) fp(2,3) ensuring_tracked [OF assms(1)] by (simp add: settled_def ensuring_def)
  next
    case False
    then obtain g L B where g: "at_gen key (en_Machine run) g L B" "tracks X c g L B" "roomy B"
      "usable c lst g L \<or> (ms_GenerationID lst = 0 \<and> (usable c st g L \<or> ms_GenerationID st = 0))" "\<not> ms_Sealed st"
      using assms(1) unfolding ensuring_def by blast
    have "settled key X c s mc'" by (rule flushPartial_at [OF g(1,2) roomy_small [OF g(3)] _ fp(1)]) (use g(4,5) in blast)
    then show ?thesis using fp(2,3) by simp
  qed
qed

text \<open>The source of each poll, the log being said to be final from the first poll before which the build was
  found to be complete.\<close>

definition said :: "bool \<Rightarrow> EnsureOptions \<Rightarrow> nat \<Rightarrow> bool" where
  "said c opt k \<longleftrightarrow> c \<or> (\<exists>j < k. probeComplete opt j)"

lemma said_Suc: "said c opt (Suc k) \<longleftrightarrow> said c opt k \<or> probeComplete opt k"
  by (auto simp: said_def less_Suc_eq)

definition honest_world :: "string \<Rightarrow> bool \<Rightarrow> EnsureOptions \<Rightarrow> World \<Rightarrow> bool" where
  "honest_world X c opt w \<longleftrightarrow> (\<forall>src k. w_source w = Some src \<longrightarrow> honest X (said c opt (Suc k)) (src k))"

lemma poll_ensuring:
  assumes inv: "ensuring key X c st lst mc" and key: "KeyValidate key = None"
    and src: "\<And>s. src = Some s \<Longrightarrow> honest X (c \<or> bc) s" and run: "Poll src key bc mc = (r, mc')"
  shows "case r of
      Inl e \<Rightarrow> (fresh key mc' \<and> ms_GenerationID lst = 0) \<or>
        (\<exists>g L B. at_gen key mc' g L B \<and> tracks X (c \<or> bc) g L B \<and> int (length B) \<le> DecoderMaxMemory \<and>
           (usable (c \<or> bc) lst g L \<or> ms_GenerationID lst = 0))
    | Inr st' \<Rightarrow> (\<exists>g L B. at_gen key mc' g L B \<and> tracks X (c \<or> bc) g L B \<and> roomy B \<and> described st' g L) \<and>
        (bc \<and> \<not> ms_MoreData st' \<longrightarrow> ms_Sealed st')"
proof (cases src)
  case None
  then have out: "r = Inl (newErr CodeInternal ''progressive source is not configured'')" "mc' = mc" using run key by (simp_all add: Poll_def)
  have lst: "\<not> ms_Sealed lst" using inv by (simp add: ensuring_def)
  show ?thesis
  proof (cases "fresh key mc \<and> ms_GenerationID st = 0 \<and> ms_GenerationID lst = 0")
    case True
    then show ?thesis unfolding out by simp
  next
    case False
    then obtain g L B where g: "at_gen key mc g L B" "tracks X c g L B" "roomy B" "usable c lst g L \<or> ms_GenerationID lst = 0"
      using inv unfolding ensuring_def by blast
    have "usable (c \<or> bc) lst g L \<or> ms_GenerationID lst = 0"
      using g(4) usable_follows [OF _ lst refl order_refl, of c g L "c \<or> bc"] by blast
    moreover have "tracks X (c \<or> bc) g L B" by (rule tracks_mono [OF g(2)]) simp
    ultimately show ?thesis unfolding out sum.case using g(1) roomy_small [OF g(3)] by blast
  qed
next
  case (Some s)
  then have po: "pollOnce s key bc mc = (r, mc')" using run key by (simp add: Poll_def)
  note honest = src [OF Some]
  have lst: "\<not> ms_Sealed lst" using inv by (simp add: ensuring_def)
  have done_: ?thesis if fo: "follows key X (c \<or> bc) g L r mc'" and st: "\<forall>st. r = Inr st \<and> bc \<and> \<not> ms_MoreData st \<longrightarrow> ms_Sealed st"
    and u: "usable c lst g L \<or> ms_GenerationID lst = 0" for g L
  proof -
    from fo obtain g' L' B' where f: "at_gen key mc' g' L' B'" "tracks X (c \<or> bc) g' L' B'" "lg_ID g' = lg_ID g" "length L \<le> length L'"
      "int (length B') \<le> DecoderMaxMemory" "\<forall>st. r = Inr st \<longrightarrow> described st g' L' \<and> roomy B'" unfolding follows_def by blast
    show ?thesis
    proof (cases r)
      case (Inl e)
      have "usable (c \<or> bc) lst g' L' \<or> ms_GenerationID lst = 0" using u usable_follows [OF _ lst f(3,4), of c "c \<or> bc"] by blast
      then show ?thesis using f(1,2,5) Inl by auto
    next
      case (Inr st')
      then show ?thesis using f st by auto
    qed
  qed
  show ?thesis
  proof (cases "fresh key mc \<and> ms_GenerationID st = 0 \<and> ms_GenerationID lst = 0")
    case True
    then show ?thesis using poll_fresh [OF _ key honest po] done_ by fastforce
  next
    case False
    then obtain g L B where g: "at_gen key mc g L B" "tracks X c g L B" "roomy B" "usable c lst g L \<or> ms_GenerationID lst = 0"
      using inv unfolding ensuring_def by blast
    show ?thesis using poll_at [OF g(1-3) honest po] done_ [OF _ _ g(4)] by blast
  qed
qed

text \<open>A log that is complete and all there is sealed by its poll, so the loop never seals one itself.\<close>

lemma afterPoll_machine:
  assumes tail: "bc \<and> \<not> ms_MoreData st \<longrightarrow> ms_Sealed st" and run: "afterPoll opt key bc off fetched st np run = res"
  shows "case res of Inl x \<Rightarrow> (\<exists>e1 run1. x = stopEnsure st st e1 run1 \<and> en_Machine run1 = en_Machine run) \<or>
        (fst (fst x) = st \<and> en_Machine (snd x) = en_Machine run)
    | Inr y \<Rightarrow> fst y = st \<and> \<not> ms_Sealed st \<and> en_Machine (snd (snd y)) = en_Machine run"
proof -
  define R where "R = (if bytesOf key run - fetched > 0 \<and> eo_TotalCounter opt then run\<lparr> en_Total := en_Total run + (bytesOf key run - fetched) \<rparr> else run)"
  have same: "en_Machine R = en_Machine run" by (simp add: R_def)
  note body = run [unfolded afterPoll_def Let_def, folded R_def]
  have hit: "en_Machine (budgetHit opt r) = en_Machine r" for r by (simp add: budgetHit_def)
  consider (spent) "bytesOf key run - fetched > 0 \<and> totalSpent opt R"
    | (sealed) "\<not> (bytesOf key run - fetched > 0 \<and> totalSpent opt R)" "ms_Sealed st"
    | (idle) "\<not> (bytesOf key run - fetched > 0 \<and> totalSpent opt R)" "\<not> ms_Sealed st" "ms_CommittedOffset st = off \<and> bytesOf key R = fetched"
    | (go) "\<not> (bytesOf key run - fetched > 0 \<and> totalSpent opt R)" "\<not> ms_Sealed st" "\<not> (ms_CommittedOffset st = off \<and> bytesOf key R = fetched)"
    by blast
  then show ?thesis
  proof cases
    case spent
    have "res = Inl (stopEnsure st st (Some totalQuota) (budgetHit opt R))"
      using body unfolding if_P [OF spent] by (rule sym)
    show ?thesis unfolding \<open>res = _\<close> sum.case by (intro disjI1 exI conjI, rule refl) (simp add: hit same)
  next
    case sealed
    have "res = Inl ((st, None), R)"
      using body unfolding if_not_P [OF sealed(1)] if_P [OF sealed(2)] by (rule sym)
    then show ?thesis using same by simp
  next
    case idle
    have no: "\<not> (bc \<and> \<not> ms_MoreData st)" using tail idle(2) by blast
    have "res = (if Suc np \<ge> 2 then Inl (stopEnsure st st None (R\<lparr> en_Machine := en_Machine R \<rparr>))
        else Inr (st, Suc np, R\<lparr> en_Machine := en_Machine R \<rparr>))"
      using body unfolding if_not_P [OF idle(1)] if_not_P [OF idle(2)] if_P [OF idle(3)] if_not_P [OF no]
      by simp
    then have "res = Inl (stopEnsure st st None R) \<or> res = Inr (st, Suc np, R)" by (simp split: if_splits)
    then show ?thesis
    proof
      assume r: "res = Inl (stopEnsure st st None R)"
      show ?thesis unfolding r sum.case by (intro disjI1 exI conjI, rule refl) (simp add: same)
    qed (use idle(2) same in simp)
  next
    case go
    have "res = Inr (st, 0, R)"
      using body unfolding if_not_P [OF go(1)] if_not_P [OF go(2)] if_not_P [OF go(3)] by (rule sym)
    then show ?thesis using go(2) same by simp
  qed
qed

lemma step_ensuring:
  assumes inv: "ensuring key X (said c opt k) st lst (en_Machine run)" and key: "KeyValidate key = None" and w: "honest_world X c opt w"
    and step: "ensureStep w opt key sb k st lst np run = res"
  shows "case res of Inl ((s, e), run') \<Rightarrow> settled key X (said c opt (Suc k)) s (en_Machine run')
    | Inr (st', np', run') \<Rightarrow> ensuring key X (said c opt (Suc k)) st' st' (en_Machine run')"
proof -
  let ?d = "said c opt (Suc k)"
  have mono: "ensuring key X ?d st lst (en_Machine run)" by (rule ensuring_mono [OF inv]) (simp add: said_Suc)
  have stop: "settled key X ?d s (en_Machine run')"
    if "stopEnsure lst st e run1 = ((s, e'), run')" "en_Machine run1 = en_Machine run" for s e e' run1 run'
    using stopEnsure_settled [OF _ that(1)] mono that(2) by simp
  let ?run = "run\<lparr> en_Total := en_Total run + w_others w k \<rparr>" and ?bc = "probeComplete opt k"
  have stopped: ?thesis if "res = Inl (stopEnsure lst st e run1)" "en_Machine run1 = en_Machine run" for e run1
    using stop [of e run1] that by (auto split: prod.splits)
  have hit: "en_Machine (budgetHit opt r) = en_Machine r" for r by (simp add: budgetHit_def)
  let ?fetched = "if bytesOf key ?run - sb < 0 then 0 else bytesOf key ?run - sb"
  consider (ctx) ce where "w_ctx w k = Some ce" | (total) "w_ctx w k = None" "totalSpent opt ?run"
    | (budget) "w_ctx w k = None" "\<not> totalSpent opt ?run" "?fetched \<ge> eo_MaxBytes opt"
    | (poll) "w_ctx w k = None" "\<not> totalSpent opt ?run" "\<not> ?fetched \<ge> eo_MaxBytes opt"
    by (cases "w_ctx w k") blast+
  then show ?thesis
  proof cases
    case ctx
    then have "res = Inl (stopEnsure lst st (Some (mapCancel (ctxError ce))) run)" using step by (simp add: ensureStep_def)
    then show ?thesis by (rule stopped) simp
  next
    case total
    then have "res = Inl (stopEnsure lst st (Some totalQuota) (budgetHit opt ?run))" using step by (simp add: ensureStep_def Let_def)
    then show ?thesis by (rule stopped) (simp add: hit)
  next
    case budget
    have "res = Inl (stopEnsure lst st (Some (newErr CodeQuota ''per-log byte budget exhausted'')) ?run)"
      using step unfolding ensureStep_def Let_def budget(1) option.case if_not_P [OF budget(2)] if_P [OF budget(3)] by simp
    then show ?thesis by (rule stopped) simp
  next
    case poll
    obtain r mc where poll: "Poll (map_option (\<lambda>src. src k) (w_source w)) key ?bc (en_Machine run) = (r, mc)" by fastforce
    have same: "en_Machine ?run = en_Machine run" by simp
    have res: "res = (case r of Inl e \<Rightarrow> Inl (pollFailed lst e (?run\<lparr> en_Machine := mc \<rparr>))
        | Inr st' \<Rightarrow> afterPoll opt key ?bc (if ms_GenerationID lst = 0 then ms_CommittedOffset st else ms_CommittedOffset lst)
            (bytesOf key ?run) st' np (?run\<lparr> en_Machine := mc \<rparr>))"
      using step unfolding ensureStep_def Let_def \<open>w_ctx w k = None\<close> option.case if_not_P [OF \<open>\<not> totalSpent opt ?run\<close>]
        if_not_P [OF \<open>\<not> ?fetched \<ge> eo_MaxBytes opt\<close>]
      unfolding same poll by (cases r) auto
    have src: "honest X (said c opt k \<or> ?bc) s" if "map_option (\<lambda>src. src k) (w_source w) = Some s" for s
      using w that by (auto simp: honest_world_def said_Suc)
    note P = poll_ensuring [OF inv key src poll, folded said_Suc]
    have lst: "\<not> ms_Sealed lst" using inv by (simp add: ensuring_def)
    show ?thesis
    proof (cases r)
      case (Inl e)
      obtain s e' run' where fa: "stopEnsure lst noState (Some e) (?run\<lparr> en_Machine := mc \<rparr>) = ((s, e'), run')" by (metis prod.collapse)
      have "settled key X ?d s (en_Machine run')"
      proof (cases "fresh key mc \<and> ms_GenerationID lst = 0")
        case True
        then have "s = noState" "en_Machine run' = mc" using fa by (auto simp: stopEnsure_def flushPartial_def noState_def)
        then show ?thesis using True by (simp add: settled_def tracked_def noState_def)
      next
        case False
        then obtain g L B where g: "at_gen key mc g L B" "tracks X ?d g L B" "int (length B) \<le> DecoderMaxMemory"
          "usable ?d lst g L \<or> ms_GenerationID lst = 0" using P Inl by auto
        obtain mc' where fp: "flushPartial lst noState mc = (s, mc')" "run' = ?run\<lparr> en_Machine := mc' \<rparr>"
          using fa by (auto simp: stopEnsure_def split: prod.splits)
        have "settled key X ?d s mc'" by (rule flushPartial_at [OF g(1-3) _ fp(1)]) (use g(4) in \<open>auto simp: noState_def\<close>)
        then show ?thesis using fp(2) by simp
      qed
      moreover from this have "settled key X ?d noState (en_Machine run')" by (simp add: settled_def noState_def)
      ultimately show ?thesis using res Inl fa by (auto simp: pollFailed_def)
    next
      case (Inr st')
      obtain g L B where g: "at_gen key mc g L B" "tracks X ?d g L B" "roomy B" "described st' g L" and tail: "?bc \<and> \<not> ms_MoreData st' \<longrightarrow> ms_Sealed st'"
        using P Inr by auto
      have u: "usable ?d st' g L" by (rule described_usable [OF g(4,2)])
      have stop2: "settled key X ?d s (en_Machine run')" if "stopEnsure st' st' e run1 = ((s, e'), run')" "en_Machine run1 = mc" for s e e' run1 run'
      proof -
        obtain s1 mc' where f1: "flushPartial st' st' mc = (s1, mc')" by fastforce
        then have fp: "flushPartial st' st' mc = (s, mc')" "run' = run1\<lparr> en_Machine := mc' \<rparr>"
          using that by (simp_all add: stopEnsure_def)
        show ?thesis using flushPartial_at [OF g(1,2) roomy_small [OF g(3)] _ fp(1)] u fp(2) by simp
      qed
      have sealed: "settled key X ?d st' mc" using g(1,2) by (rule settledI) (use u in \<open>simp add: usable_def\<close>)
      have go: "ensuring key X ?d st' st' mc" if "\<not> ms_Sealed st'" using that g u unfolding ensuring_def by blast
      note after = res [unfolded Inr sum.case]
      note A = afterPoll_machine [OF tail after [symmetric]]
      have m: "en_Machine (?run\<lparr> en_Machine := mc \<rparr>) = mc" by simp
      show ?thesis
      proof (cases res)
        case (Inl x)
        obtain s e run' where x: "x = ((s, e), run')" by (metis prod.collapse)
        have "(\<exists>e1 run1. stopEnsure st' st' e1 run1 = ((s, e), run') \<and> en_Machine run1 = mc) \<or> (s = st' \<and> en_Machine run' = mc)"
          using A [unfolded Inl x sum.case fst_conv snd_conv m] by metis
        then show ?thesis using stop2 sealed unfolding Inl x by auto
      next
        case (Inr y)
        then show ?thesis using A go by (auto split: prod.splits)
      qed
    qed
  qed
qed

lemma loop_settled:
  assumes key: "KeyValidate key = None" and w: "honest_world X c opt w"
  shows "ensuring key X (said c opt k) st lst (en_Machine run) \<Longrightarrow>
    ensureLoop w opt key sb n k st lst np run = ((s, e), run') \<Longrightarrow> settled key X (said c opt (k + n)) s (en_Machine run')"
proof (induction n arbitrary: k st lst np run)
  case 0
  then show ?case using stopEnsure_settled by fastforce
next
  case (Suc n)
  obtain res where step: "ensureStep w opt key sb k st lst np run = res" by simp
  note S = step_ensuring [OF Suc.prems(1) key w step]
  show ?case
  proof (cases res)
    case (Inl a)
    then have "settled key X (said c opt (Suc k)) s (en_Machine run')" using S Suc.prems(2) step by simp
    moreover have "said c opt (Suc k) \<Longrightarrow> said c opt (k + Suc n)" by (auto simp: said_def)
    ultimately show ?thesis using tracks_mono tracked_mono unfolding settled_def by blast
  next
    case (Inr a)
    obtain st' np' run1 where a: "a = (st', np', run1)" by (rule prod_cases3)
    have "ensuring key X (said c opt (Suc k)) st' st' (en_Machine run1)" using S Inr a by simp
    moreover have "ensureLoop w opt key sb n (Suc k) st' st' np' run1 = ((s, e), run')" using Suc.prems(2) step Inr a by simp
    ultimately have "settled key X (said c opt (Suc k + n)) s (en_Machine run')" by (rule Suc.IH)
    then show ?thesis by simp
  qed
qed

section \<open>Mirroring a log\<close>

lemma LogState_at:
  assumes "at_gen key mc g L B" and "LogState key mc = (r, mc')"
  shows "at_gen key mc' g L B \<and> (\<forall>st. r = Inr st \<longrightarrow> st = state_at g L B)"
proof -
  obtain r1 mc1 where lat: "latestGen key mc = (r1, mc1)" by fastforce
  note l = latestGen_at [OF assms(1) lat]
  obtain st mc2 where st: "stateFromGen g mc1 = (st, mc2)" by fastforce
  show ?thesis using assms l lat stateFromGen_at [OF l(1) st] st
    by (cases "KeyValidate key") (auto simp: LogState_def okState_def)
qed

lemma LogState_fresh:
  assumes "fresh key mc" and "LogState key mc = (r, mc')"
  shows "fresh key mc' \<and> (\<forall>st. r = Inr st \<longrightarrow> st = noState)"
proof -
  obtain r1 mc1 where lat: "latestGen key mc = (r1, mc1)" by fastforce
  note l = latestGen_fresh [OF assms(1) lat]
  show ?thesis using assms l lat by (cases "KeyValidate key") (auto simp: LogState_def)
qed

text \<open>Nothing said: the polls that were made may be fewer than the allowed ones.\<close>

lemma ensureMirrored_settled:
  assumes tr: "tracked key X (en_Machine run) c" and small: "small_buffers (en_Machine run)"
    and w: "honest_world X c (normalizeOptions opt) w" and ens: "ensureMirrored w opt key run = ((s, e), run')"
  shows "settled key X (said c (normalizeOptions opt) (nat (eo_MaxPolls (normalizeOptions opt)))) s (en_Machine run')"
proof -
  let ?opt = "normalizeOptions opt" and ?mc = "en_Machine run"
  let ?d = "said c ?opt (nat (eo_MaxPolls ?opt))"
  have cd: "c \<Longrightarrow> ?d" by (simp add: said_def)
  show ?thesis
  proof (cases "KeyValidate key")
    case (Some x)
    then have "s = noState" "run' = run" using ens by (simp_all add: ensureMirrored_def Let_def)
    then show ?thesis using tracked_mono [OF tr cd] by (simp add: settled_def noState_def)
  next
    case None
    obtain r mc where st: "LogState key ?mc = (r, mc)" by fastforce
    have tr1: "tracked key X mc c"
      using tr LogState_at [OF _ st] LogState_fresh [OF _ st] unfolding tracked_def by blast
    show ?thesis
    proof (cases r)
      case (Inl x)
      then have "s = noState" "en_Machine run' = mc" using ens None st by (auto simp: ensureMirrored_def Let_def)
      then show ?thesis using tracked_mono [OF tr1 cd] by (simp add: settled_def noState_def)
    next
      case (Inr st0)
      have start: "(fresh key mc \<and> st0 = noState) \<or> (\<exists>g L B. at_gen key mc g L B \<and> tracks X c g L B \<and> roomy B \<and> st0 = state_at g L B)"
        using tr
      proof (unfold tracked_def, elim disjE exE conjE)
        assume "fresh key ?mc"
        then show ?thesis using LogState_fresh [OF _ st] Inr by blast
      next
        fix g L B
        assume g: "at_gen key ?mc g L B" "tracks X c g L B"
        then show ?thesis using LogState_at [OF g(1) st] roomy_at [OF g(1) small] Inr by blast
      qed
      show ?thesis
      proof (cases "ms_Sealed st0")
        case True
        then have "s = st0" "en_Machine run' = mc" using ens None st Inr by (auto simp: ensureMirrored_def Let_def)
        moreover from start obtain g L B where g: "at_gen key mc g L B" "tracks X c g L B" "st0 = state_at g L B"
          using True by (auto simp: noState_def)
        moreover have "lg_Sealed g" using True g(3) by (simp add: state_at_def genState_def split: if_splits)
        ultimately show ?thesis using settledI [OF g(1) tracks_mono [OF g(2) cd]] by simp
      next
        case False
        have "ensuring key X c st0 noState mc"
          unfolding ensuring_def
        proof (intro conjI)
          show "(fresh key mc \<and> ms_GenerationID st0 = 0 \<and> ms_GenerationID noState = 0) \<or>
            (\<exists>g L B. at_gen key mc g L B \<and> tracks X c g L B \<and> roomy B \<and>
              (usable c noState g L \<or> (ms_GenerationID noState = 0 \<and> (usable c st0 g L \<or> ms_GenerationID st0 = 0))))"
            using start
          proof (elim disjE exE conjE)
            fix g L B
            assume g: "at_gen key mc g L B" "tracks X c g L B" "roomy B" "st0 = state_at g L B"
            have "usable c st0 g L" unfolding g(4) by (rule described_usable [OF state_at_described [OF g(1)] g(2)])
            then have "usable c noState g L \<or> (ms_GenerationID noState = 0 \<and> (usable c st0 g L \<or> ms_GenerationID st0 = 0))"
              by (simp add: noState_def)
            then show ?thesis using g(1-3) by blast
          qed (simp add: noState_def)
        qed (use False in \<open>simp_all add: noState_def\<close>)
        then have "ensuring key X (said c ?opt 0) st0 noState (en_Machine (run\<lparr> en_Machine := mc \<rparr>))" by (simp add: said_def)
        moreover have "ensureLoop w ?opt key (bytesOf key (run\<lparr> en_Machine := mc \<rparr>)) (nat (eo_MaxPolls ?opt)) 0 st0 noState 0
            (run\<lparr> en_Machine := mc \<rparr>) = ((s, e), run')"
          using ens None st Inr False by (simp add: ensureMirrored_def Let_def)
        ultimately have "settled key X (said c ?opt (0 + nat (eo_MaxPolls ?opt))) s (en_Machine run')" by (rule loop_settled [OF None w])
        then show ?thesis by simp
      qed
    qed
  qed
qed

end
