(* ===== verification/LogMirrorRuns.thy ===== *)
theory LogMirrorRuns
  imports LogAccessCorrect
begin

text \<open>
  Runs of the mirror of one log: single polls, mirroring within budgets, restarts of the process that lose what
  was buffered, and failures of any query, write and read. What is read of the log after any such run.
\<close>

section \<open>Runs of a mirror\<close>

text \<open>The source of each poll is honest about the log \<open>X\<close>, which is final from the moment it is said to be.\<close>

inductive mirror_run :: "LogKey \<Rightarrow> string \<Rightarrow> Machine \<Rightarrow> bool \<Rightarrow> bool" for key :: LogKey and X :: string where
  start: "fresh key mc \<Longrightarrow> mirror_run key X mc False"
| polled: "mirror_run key X mc c \<Longrightarrow> honest X (c \<or> bc) src \<Longrightarrow> small_buffers mc \<Longrightarrow> Poll (Some src) key bc mc = (r, mc') \<Longrightarrow>
    mirror_run key X mc' (c \<or> bc)"
| ensured: "mirror_run key X (en_Machine run) c \<Longrightarrow> honest_world X c (normalizeOptions opt) w \<Longrightarrow> small_buffers (en_Machine run) \<Longrightarrow>
    ensureMirrored w opt key run = (res, run') \<Longrightarrow>
    mirror_run key X (en_Machine run') (said c (normalizeOptions opt) (nat (eo_MaxPolls (normalizeOptions opt))))"
| restarted: "mirror_run key X mc c \<Longrightarrow> \<forall>k. \<not> flt k 6 \<and> \<not> flt k 7 \<Longrightarrow>
    mirror_run key X (mc\<lparr> mc_Frames := (mc_Frames mc)\<lparr> fw_open := Some Map.empty, fw_fault := flt, fw_nonce := nonce \<rparr>,
      mc_bytesFetched := (\<lambda>_. 0) \<rparr>) c"

lemma log_frames_process [simp]: "log_frames (f\<lparr> fw_open := opn, fw_fault := flt, fw_nonce := nonce \<rparr>) g L = log_frames f g L"
  by (simp add: log_frames_def ReaderOf_def)

lemma restart_tracked:
  assumes "tracked key X mc c" and "\<forall>k. \<not> flt k 6 \<and> \<not> flt k 7"
  shows "tracked key X (mc\<lparr> mc_Frames := (mc_Frames mc)\<lparr> fw_open := Some Map.empty, fw_fault := flt, fw_nonce := nonce \<rparr>,
    mc_bytesFetched := (\<lambda>_. 0) \<rparr>) c" (is "tracked key X ?mc c")
proof -
  have codec: "codec_ok (f\<lparr> fw_open := opn, fw_fault := flt, fw_nonce := nonce \<rparr>) = codec_ok f" for f opn
    by (simp add: codec_ok_def frameMax_def frameTarget_def Let_def)
  have max: "frameMax (f\<lparr> fw_open := opn, fw_fault := flt, fw_nonce := nonce \<rparr>) = frameMax f" for f opn
    by (simp add: frameMax_def frameTarget_def Let_def)
  have env: "mirror_env ?mc" if "mirror_env mc"
    using that assms(2) by (auto simp: mirror_env_def codec max tables_ok_def Let_def)
  have lat: "latest key ?mc = latest key mc" by (simp add: latest_def)
  show ?thesis
  proof (cases "fresh key mc")
    case True
    then show ?thesis using env lat by (simp add: tracked_def fresh_def)
  next
    case False
    then obtain g L B where g: "at_gen key mc g L B" "tracks X c g L B" using assms(1) by (auto simp: tracked_def)
    have "at_gen key ?mc g L []" using g(1) env lat by (auto simp: at_gen_def log_inv_def)
    moreover have "tracks X c g L []" using g(2) by (auto simp: tracks_def dest: append_prefixD)
    ultimately show ?thesis unfolding tracked_def by blast
  qed
qed

lemma run_tracked: "mirror_run key X mc c \<Longrightarrow> tracked key X mc c"
proof (induction rule: mirror_run.induct)
  case (polled mc c bc src r mc')
  show ?case
  proof (cases "KeyValidate key")
    case None
    then show ?thesis using polled poll_tracked [OF polled.IH None] by (simp add: Poll_def)
  next
    case (Some e)
    then have "mc' = mc" using polled by (simp add: Poll_def)
    then show ?thesis using tracked_mono [OF polled.IH, of "c \<or> bc"] by simp
  qed
next
  case (ensured run c opt w res run')
  obtain s e where res: "res = (s, e)" by fastforce
  show ?case using ensureMirrored_settled [OF ensured.IH ensured.hyps(3,2) ensured.hyps(4) [unfolded res]] by (simp add: settled_def)
qed (simp_all add: tracked_def restart_tracked [unfolded tracked_def])

text \<open>What a read of the key reads.\<close>

lemma latestForRead_run:
  assumes "tracked key X mc c" and "latestForRead fails key mc = Inr g"
  shows "\<exists>L B. at_gen key mc g L B \<and> tracks X c g L B \<and> \<not> lg_L1Released g \<and> holds_lines (ReaderOf (mc_Frames mc)) (lg_ID g) L"
proof -
  have lat: "latest key mc = Some g"
    using assms(2) by (auto simp: latestForRead_def GetLatestGeneration_def latest_def split: option.splits if_splits)
  then obtain L B where g: "at_gen key mc g L B" "tracks X c g L B"
    using assms(1) at_genD(5) by (fastforce simp: tracked_def fresh_def)
  have "\<not> lg_L1Released g" using at_genD(1,4) [OF g(1)] by (simp add: mirror_env_def tables_ok_def Let_def)
  moreover have "holds_lines (ReaderOf (mc_Frames mc)) (lg_ID g) L"
    using g(1) by (auto simp: at_gen_def log_inv_def intro: log_frames_holds)
  ultimately show ?thesis using g by blast
qed

section \<open>An example\<close>

text \<open>A log sent at once when the build is complete.\<close>

definition exFrames :: Frames where
  "exFrames = \<lparr> fw_Meta = emptyMeta, fw_Files = Map.empty, fw_TargetBytes = 0, fw_MaxBytes = 0, fw_Crypto = None,
     fw_open = Some Map.empty, fw_Compress = (\<lambda>s. CHR ''z'' # s), fw_Zstd = (\<lambda>s. Inr (tl s)), fw_fault = (\<lambda>_ _. False),
     fw_nonce = (\<lambda>_. []), fw_calls = 0 \<rparr>"

definition exMachine :: Machine where
  "exMachine = \<lparr> mc_Frames = exFrames, mc_HasFrames = True, mc_HasReader = True, mc_Packs = None, mc_FetchBytes = 0,
     mc_bytesFetched = (\<lambda>_. 0) \<rparr>"

definition exKey :: LogKey where "exKey = \<lparr> lk_Profile = ''p'', lk_Job = ''j'', lk_Build = 1 \<rparr>"

definition exSource :: "string \<Rightarrow> Source" where
  "exSource X off n = Inr (take (nat n) (drop (nat off) X), int (length X), False)"

lemma ex_honest: "honest X fin (exSource X)"
  by (auto simp: honest_def exSource_def nat_le_iff take_is_prefix)

lemma ex_plain: "\<not> IsEncrypted (CHR ''z'' # s)"
  by (auto simp: IsEncrypted_def CryptoMagic_def)

lemma ex_fresh: "fresh exKey exMachine"
  by (auto simp: fresh_def mirror_env_def latest_def exMachine_def exFrames_def tables_ok_def codec_ok_def emptyMeta_def reads_from_def fetchSize_def FetchRoom_def DefaultFetchBytes_def
     frameMax_def frameTarget_def DecoderMaxMemory_def MaxFrameBytes_def DefaultTargetFrameBytes_def Let_def ex_plain)

lemma ex_valid: "KeyValidate exKey = None" "LogKey_Validate ''p'' ''j'' 1 = None"
  by code_simp+

lemma FrameRelPath_ne [simp]: "FrameRelPath g q \<noteq> []"
  by (simp add: FrameRelPath_def FramesDirName_def)

definition exSealed :: Machine where
  "exSealed = exMachine\<lparr> mc_Frames := exFrames\<lparr>
     fw_Meta := emptyMeta\<lparr>
       mt_generations := [\<lparr> lg_ID = 1, lg_Profile = ''p'', lg_Job = ''j'', lg_Build = 1, lg_Generation = 1, lg_Sealed = True,
         lg_JenkinsOffset = 1, lg_MoreData = False, lg_BuildComplete = True, lg_PackedPackID = [], lg_L1Released = False \<rparr>],
       mt_lastGeneration := 1,
       mt_chunks := [\<lparr> ch_GenerationID = 1, ch_Seq = 0, ch_RawStart = 0, ch_RawEnd = 1, ch_LineStart = 0, ch_LineEnd = 1,
         ch_UncompressedSize = 1, ch_CompressedSize = 2, ch_ContentSHA256 = hexSum ''a'', ch_FrameSHA256 = hexSum ''za'',
         ch_ZstdSize = 2, ch_ZstdSHA256 = hexSum ''za'', ch_RelPath = FrameRelPath 1 0, ch_FormatVersion = FrameFormatVersion,
         ch_EncAlg = [], ch_EncKeyVersion = 0, ch_Checkpoints = [\<lparr> cp_LineNo = 0, cp_RawOffset = 0 \<rparr>] \<rparr>] \<rparr>,
     fw_Files := [FrameRelPath 1 0 \<mapsto> ''za''],
     fw_open := Some [1 \<mapsto> \<lparr> og_generationID = 1, og_buf = [], og_rawStart = 1, og_durableEnd = 1, og_nextSeq = 1,
       og_lineAtRawStart = 0, og_prevEndedNL = False \<rparr>],
     fw_calls := 10 \<rparr>, mc_bytesFetched := (\<lambda>_. 0)(exKey := 1) \<rparr>"

lemmas mirror_eval =
  Poll_def pollOnce_def openLog_def latestGen_def insertGen_def exMachine_def exFrames_def exKey_def GetLatestGeneration_def
  ex_valid emptyMeta_def InsertGeneration_def freshGeneration_def Let_def resetBytes_def stateFromGen_def genState_def okState_def
  AcceptedEnd_def DurableEnd_def DurableRawEnd_def chunksOf_def maxOf_def GetGenerationByID_def sameKey_def exSource_def
  DefaultFetchBytes_def appendLocked_def needsNewGeneration_def appendBody_def appendFrames_def Append_def ensureOpenFrames_def
  openFromStore_def NextChunkSeq_def keepOpen_def appendLoop.simps findNewlineCut_def frameMax_def frameTarget_def MaxFrameBytes_def
  DefaultTargetFrameBytes_def resultLocked_def flushGen_def Flush_def commitSliceLocked_def walkLines_def walkLoop.simps
  sealCompressed_def FrameAbsPath_rel writeFileAtomic_def frameChunk_def InsertChunk_def updateOffset_def UpdateGenerationOffset_def
  addBytes_def exSealed_def MirrorReadRange_def MirrorReadLineRange_def latestForRead_def KeyValidate_def ReaderOf_def ReadRange_def
  ReadLineRange_def ListChunks_def ChunksIntersectingRaw_def ChunksIntersectingLines_def opened_def decompressChunk_def
  decompressChunkFile_def OpenFrameCompressed_def openToCompressed_def ofGeneration_def noRead_def ex_plain lineSegs.simps
  extractLines_def scanSegs.simps scanBytes.simps flushLine_def lineResult_def

lemma ex_wrap: "wrap64 1 = 1" by code_simp

lemma ex_polls: "snd (Poll (Some (exSource ''a'')) exKey True exMachine) = exSealed"
  by (simp add: mirror_eval)

lemma ex_reads: "\<exists>res. MirrorReadRange (\<lambda>_ _. False) False exKey 0 1 exSealed = (None, res) \<and> rx_Data res = ''a'' \<and> rx_Sealed res"
  by (simp add: mirror_eval ex_wrap)

lemma ex_reads_lines:
  "\<exists>res. MirrorReadLineRange (\<lambda>_ _. False) False exKey 0 1 exSealed = (None, res) \<and> rx_Data res = ''a'' \<and> rx_Sealed res"
  by (simp add: mirror_eval ex_wrap)

lemma ex_small: "small_buffers exMachine"
  by (simp add: small_buffers_def exMachine_def exFrames_def)

lemma ex_run: "mirror_run exKey ''a'' exSealed True"
proof -
  have "Poll (Some (exSource ''a'')) exKey True exMachine = (fst (Poll (Some (exSource ''a'')) exKey True exMachine), exSealed)"
    using ex_polls by (metis prod.collapse)
  from mirror_run.polled [OF mirror_run.start [OF ex_fresh] ex_honest ex_small this] show ?thesis by simp
qed


section \<open>What is read is the log\<close>

text \<open>C8: mirrored logs are exact. Take any run of the mirror of one log \<open>X\<close> (\<open>mirror_run\<close>) from an empty one
  with a sound codec and frame and fetch sizes the decoder has room for: single polls and mirroring within
  budgets, from sources that send bytes of \<open>X\<close> and, once the build is said to be complete, claim the end only
  at its end; restarts of the process that lose what was buffered; failures of any query, file write and
  read except the two lookups whose errors the code ignores; buffers that fit one frame. Then a successful
  read of a byte range after the run returns the bytes of some prefix of \<open>X\<close> at exactly that range, never
  shifted, repeated or foreign bytes; and from a sealed generation it returns the range of \<open>X\<close> itself.\<close>

theorem mirror_reads_the_log:
  assumes run: "mirror_run key X mc c" and read: "MirrorReadRange flt fails key start len mc = (None, res)"
    and range: "0 \<le> start" "0 \<le> len" "start + len < 2 ^ 63"
  shows "(\<exists>n. rx_Data res = take (nat len) (drop (nat start) (take n X))) \<and>
    (rx_Sealed res \<longrightarrow> rx_Data res = take (nat len) (drop (nat start) X))"
proof -
  obtain g where g: "latestForRead fails key mc = Inr g" using read by (auto simp: MirrorReadRange_def split: sum.splits)
  from latestForRead_run [OF run_tracked [OF run] g] obtain L B where L: "tracks X c g L B" "\<not> lg_L1Released g"
    "holds (ReaderOf (mc_Frames mc)) (lg_ID g) L" by (auto dest: holds_lines_holds)
  obtain res0 where r: "ReadRange flt (ReaderOf (mc_Frames mc)) (lg_ID g) start len = (None, res0)"
    "rx_Data res = rx_Data res0" "rx_Sealed res = lg_Sealed g"
    using read g L(2) by (auto simp: MirrorReadRange_def ofGeneration_def noReader_def split: if_splits prod.splits option.splits)
  have data: "rx_Data res0 = take (nat len) (drop (nat start) L)" using ReadRange_slice [OF L(3) range r(1)] by simp
  have "L = take (length L) X" using L(1) by (auto simp: tracks_def prefix_def)
  then have "\<exists>n. rx_Data res = take (nat len) (drop (nat start) (take n X))" unfolding r(2) data by metis
  then show ?thesis using data r L(1) by (simp add: tracks_def)
qed

theorem mirror_reads_the_log_witness:
  "\<exists>res. MirrorReadRange (\<lambda>_ _. False) False exKey 0 1 exSealed = (None, res) \<and> rx_Sealed res \<and>
     rx_Data res = take (nat 1) (drop (nat 0) ''a'')"
proof -
  obtain res where r: "MirrorReadRange (\<lambda>_ _. False) False exKey 0 1 exSealed = (None, res)" "rx_Sealed res" using ex_reads by blast
  from mirror_reads_the_log [OF ex_run r(1)] r show ?thesis by simp
qed

text \<open>C9: the lines of mirrored logs are exact: after any such run a successful read of lines, across frames and
  whatever frames the log was cut into, returns exactly those lines of a prefix of \<open>X\<close>, and of \<open>X\<close> itself
  from a sealed generation (\<open>log_lines\<close> is the list of lines, each with its newline).\<close>

theorem mirror_reads_the_lines:
  assumes run: "mirror_run key X mc c" and read: "MirrorReadLineRange flt fails key startLine count mc = (None, res)"
    and range: "0 \<le> startLine" "0 \<le> count" "startLine + count < 2 ^ 63"
  shows "(\<exists>n. rx_Data res = concat (take (nat count) (drop (nat startLine) (log_lines (take n X))))) \<and>
    (rx_Sealed res \<longrightarrow> rx_Data res = concat (take (nat count) (drop (nat startLine) (log_lines X))))"
proof -
  obtain g where g: "latestForRead fails key mc = Inr g"
    using read by (auto simp: MirrorReadLineRange_def noReader_def split: sum.splits option.splits if_splits)
  from latestForRead_run [OF run_tracked [OF run] g] obtain L B where L: "tracks X c g L B"
    "holds_lines (ReaderOf (mc_Frames mc)) (lg_ID g) L" by auto
  obtain res0 where r: "ReadLineRange flt (ReaderOf (mc_Frames mc)) (lg_ID g) startLine count = (None, res0)"
    "rx_Data res = rx_Data res0" "rx_Sealed res = lg_Sealed g"
    using read g by (auto simp: MirrorReadLineRange_def ofGeneration_def noReader_def split: if_splits prod.splits option.splits)
  have data: "rx_Data res0 = concat (take (nat count) (drop (nat startLine) (log_lines L)))" using ReadLineRange_slice [OF L(2) range r(1)] by simp
  have "L = take (length L) X" using L(1) by (auto simp: tracks_def prefix_def)
  then have "\<exists>n. rx_Data res = concat (take (nat count) (drop (nat startLine) (log_lines (take n X))))" unfolding r(2) data by metis
  then show ?thesis using data r L(1) by (simp add: tracks_def)
qed


theorem mirror_reads_the_lines_witness:
  "\<exists>res. MirrorReadLineRange (\<lambda>_ _. False) False exKey 0 1 exSealed = (None, res) \<and> rx_Sealed res \<and>
     rx_Data res = concat (take (nat 1) (drop (nat 0) (log_lines ''a'')))"
proof -
  obtain res where r: "MirrorReadLineRange (\<lambda>_ _. False) False exKey 0 1 exSealed = (None, res)" "rx_Sealed res" using ex_reads_lines by blast
  from mirror_reads_the_lines [OF ex_run r(1)] r show ?thesis by simp
qed

end
