(* ===== verification/JenkinsLogs.thy ===== *)
theory JenkinsLogs
  imports LogMirror Pattern
begin

text \<open>
  The progressive console log of Jenkins as a source of the mirror (\<open>internal/jenkins/client_logs.go\<close>,
  \<open>bodylimit.go\<close>, \<open>truncateBytes\<close> of \<open>scm.go\<close>, \<open>internal/logmirror/source.go\<close>). The request path
  \<open>callJenkins\<close> is an argument: a function from the path that is requested to a response or an error.
\<close>

section \<open>Bodies\<close>

text \<open>A Go error: its message, and the application error that \<open>errors.As\<close> or the classification of context
  errors finds in it.\<close>

type_synonym goerr = "msg \<times> apperr option"

text \<open>What a response offers: status, the two headers (empty when absent), the bytes of the body, and where the
  connection breaks before its end, if it does.\<close>

record Response =
  rs_Status :: int
  rs_TextSize :: string
  rs_MoreData :: string
  rs_Body :: string
  rs_Breaks :: "nat option"

definition progressiveReadSlack :: int where "progressiveReadSlack = 0"

definition readLimited :: "Response \<Rightarrow> int \<Rightarrow> goerr + string" where
  "readLimited resp limit0 =
     (let limit = (if limit0 < 0 then 0 else limit0) in
      if limit = 0 then Inr []
      else case rs_Breaks resp of
        Some k \<Rightarrow> if int k < limit then Inl ((''unexpected EOF'', []), None) else Inr (take (nat limit) (rs_Body resp))
      | None \<Rightarrow> Inr (take (nat limit) (rs_Body resp)))"

definition readLimitedErrBody :: "Response \<Rightarrow> string" where
  "readLimitedErrBody resp = (case readLimited resp (64 * 2 ^ 10) of Inl _ \<Rightarrow> [] | Inr b \<Rightarrow> b)"

definition progressiveLimit :: "int \<Rightarrow> int" where
  "progressiveLimit len =
     (if len < 0 then 0 else if progressiveReadSlack \<le> 0 then len
      else if len > (2 ^ 31 - 1) - progressiveReadSlack then len else len + progressiveReadSlack)"

definition validateNonNegativeOffsetLength :: "int \<Rightarrow> int \<Rightarrow> goerr + int \<times> int" where
  "validateNonNegativeOffsetLength offset len =
     (if offset < 0 then Inl ((''offset must be >= 0'', []), None)
      else if len < 0 then Inl ((''length must be >= 0'', []), None) else Inr (offset, len))"

text \<open>\<open>utf8.ValidString\<close>: after the first byte of a rune come so many more, the first of them in a range.\<close>

definition utf8_lead :: "nat \<Rightarrow> (nat \<times> nat \<times> nat) option" where
  "utf8_lead b =
     (if b < 0xC2 then None else if b < 0xE0 then Some (1, 0x80, 0xBF)
      else if b = 0xE0 then Some (2, 0xA0, 0xBF) else if b = 0xED then Some (2, 0x80, 0x9F) else if b < 0xF0 then Some (2, 0x80, 0xBF)
      else if b = 0xF0 then Some (3, 0x90, 0xBF) else if b < 0xF4 then Some (3, 0x80, 0xBF)
      else if b = 0xF4 then Some (3, 0x80, 0x8F) else None)"

fun utf8_valid :: "nat list \<Rightarrow> bool" where
  "utf8_valid [] = True"
| "utf8_valid (b # bs) =
     (if b < 0x80 then utf8_valid bs
      else case utf8_lead b of None \<Rightarrow> False
      | Some (n, lo, hi) \<Rightarrow>
          n \<le> length bs \<and> lo \<le> hd bs \<and> hd bs \<le> hi \<and> list_all (\<lambda>x. 0x80 \<le> x \<and> x \<le> 0xBF) (take (n - 1) (tl bs)) \<and>
          utf8_valid (drop n bs))"

fun runeCut :: "string \<Rightarrow> nat \<Rightarrow> nat" where
  "runeCut s 0 = 0"
| "runeCut s (Suc n) = (if utf8_valid (map of_char (take (Suc n) s)) then Suc n else runeCut s n)"

definition truncateBytes :: "string \<Rightarrow> int \<Rightarrow> string \<times> bool" where
  "truncateBytes s mx =
     (if mx \<le> 0 \<or> int (length s) \<le> mx then (s, False) else (take (runeCut s (nat mx)) s, True))"

section \<open>Log ranges\<close>

record BuildLogs =
  bl_JobName :: string
  bl_BuildNumber :: int
  bl_Offset :: int
  bl_Length :: int
  bl_TotalSize :: int
  bl_HasMore :: bool
  bl_Logs :: string

definition MaxLogReadBytes :: int where "MaxLogReadBytes = 2 ^ 20"

definition progressivePath :: "string \<Rightarrow> int \<Rightarrow> int \<Rightarrow> string" where
  "progressivePath jobPath build offset = jobPath @ ''/'' @ show_int build @ ''/logText/progressiveText?start='' @ show_int offset"

definition wrapErr :: "string \<Rightarrow> goerr \<Rightarrow> goerr" where
  "wrapErr s e = ((s, [fst (fst e)]), snd e)"

definition statusErr :: "string \<Rightarrow> int \<Rightarrow> Response \<Rightarrow> goerr option" where
  "statusErr jobName build resp =
     (if rs_Status resp = 404 then Some ((''job '%s' build #%d not found'', [jobName, show_int build]), None)
      else if rs_Status resp \<noteq> 200 then
        Some ((''jenkins api returned status %d: %s'', [show_int (rs_Status resp), readLimitedErrBody resp]), None)
      else None)"

definition fetchProgressiveRange ::
  "(string \<Rightarrow> goerr + Response) \<Rightarrow> string \<Rightarrow> int \<Rightarrow> string \<Rightarrow> int \<Rightarrow> int \<Rightarrow> int \<Rightarrow> goerr + BuildLogs" where
  "fetchProgressiveRange call jobName build jobPath offset len knownTotal =
     (case call (progressivePath jobPath build offset) of Inl e \<Rightarrow> Inl (wrapErr ''failed to make request: %w'' e)
      | Inr resp \<Rightarrow>
      (case statusErr jobName build resp of Some e \<Rightarrow> Inl e
      | None \<Rightarrow>
      (case readLimited resp (progressiveLimit len) of Inl e \<Rightarrow> Inl (wrapErr ''failed to read response body: %w'' e)
      | Inr logData \<Rightarrow>
          let logs = (if len \<ge> 0 \<and> int (length logData) > len then fst (truncateBytes logData len) else logData);
              estimate = offset + int (length logData);
              (totalSize, hasMore) =
                (if knownTotal \<ge> 0 then (knownTotal, offset + int (length logs) < knownTotal)
                 else if rs_TextSize resp \<noteq> [] then
                   (case ParseInt64 (rs_TextSize resp) of Some sz \<Rightarrow> (sz, offset + int (length logs) < sz)
                    | None \<Rightarrow> (estimate, False))
                 else (estimate, len > 0 \<and> int (length logs) = len));
              hasMore = (if rs_MoreData resp = ''true'' then True else hasMore) in
          Inr \<lparr> bl_JobName = jobName, bl_BuildNumber = build, bl_Offset = offset, bl_Length = int (length logs),
                bl_TotalSize = totalSize, bl_HasMore = hasMore, bl_Logs = logs \<rparr>)))"

definition GetBuildLogs ::
  "(string \<Rightarrow> goerr + Response) \<Rightarrow> string \<Rightarrow> int \<Rightarrow> int \<Rightarrow> int \<Rightarrow> goerr + BuildLogs" where
  "GetBuildLogs call jobName build offset0 len0 =
     (case validateNonNegativeOffsetLength offset0 len0 of Inl e \<Rightarrow> Inl e
      | Inr (offset, len) \<Rightarrow>
          fetchProgressiveRange call jobName build (BuildJobPath jobName) offset
            (if len > MaxLogReadBytes then MaxLogReadBytes else len) (- 1))"

definition sizeProbeStart :: int where "sizeProbeStart = 2 ^ 30"

definition GetBuildLogTail :: "(string \<Rightarrow> goerr + Response) \<Rightarrow> string \<Rightarrow> int \<Rightarrow> int \<Rightarrow> goerr + BuildLogs" where
  "GetBuildLogTail call jobName build maxLength0 =
     (if maxLength0 < 0 then Inl ((''max_length must be >= 0'', []), None)
      else let maxLength = (if maxLength0 > MaxLogReadBytes then MaxLogReadBytes else maxLength0);
               jobPath = BuildJobPath jobName in
      case call (progressivePath jobPath build sizeProbeStart) of Inl e \<Rightarrow> Inl (wrapErr ''failed to make size request: %w'' e)
      | Inr resp \<Rightarrow>
      (case statusErr jobName build resp of Some e \<Rightarrow> Inl e
      | None \<Rightarrow>
          let totalSize = (if rs_TextSize resp \<noteq> [] then
                             (case ParseInt64 (rs_TextSize resp) of Some sz \<Rightarrow> sz | None \<Rightarrow> 0) else 0) in
          if totalSize > 0 then
            (if maxLength = 0 then
               Inr \<lparr> bl_JobName = jobName, bl_BuildNumber = build, bl_Offset = totalSize, bl_Length = 0, bl_TotalSize = totalSize,
                     bl_HasMore = False, bl_Logs = [] \<rparr>
             else let offset = max 0 (totalSize - maxLength); want = min maxLength (totalSize - offset) in
               fetchProgressiveRange call jobName build jobPath offset want totalSize)
          else (case readLimited resp (progressiveLimit maxLength) of Inl e \<Rightarrow> Inl (wrapErr ''failed to read response body: %w'' e)
            | Inr logs \<Rightarrow>
                Inr \<lparr> bl_JobName = jobName, bl_BuildNumber = build, bl_Offset = 0, bl_Length = int (length logs),
                      bl_TotalSize = int (length logs), bl_HasMore = (maxLength > 0 \<and> int (length logs) = maxLength),
                      bl_Logs = logs \<rparr>)))"

section \<open>The source of the mirror\<close>

definition mapFetchErr :: "goerr \<Rightarrow> apperr" where
  "mapFetchErr e = (case snd e of Some ae \<Rightarrow> ae | None \<Rightarrow> newErr CodeUpstreamProtocol ''progressive fetch failed'')"

definition SourceFetch ::
  "(string \<Rightarrow> goerr + Response) option \<Rightarrow> string \<Rightarrow> int \<Rightarrow> int \<Rightarrow> int \<Rightarrow> goerr + string \<times> int \<times> bool" where
  "SourceFetch client job build startOffset maxBytes =
     (case client of None \<Rightarrow> Inl ((''context canceled'', []), Some (newErr CodeCancelled ''context canceled''))
      | Some call \<Rightarrow>
      (case GetBuildLogs call job build (if startOffset < 0 then 0 else startOffset) (if maxBytes < 0 then 0 else maxBytes) of
         Inl e \<Rightarrow> Inl e
       | Inr logs \<Rightarrow> Inr (bl_Logs logs, bl_TotalSize logs, bl_HasMore logs)))"

text \<open>As the mirror sees it.\<close>

definition jenkinsSource :: "(string \<Rightarrow> goerr + Response) option \<Rightarrow> string \<Rightarrow> int \<Rightarrow> Source" where
  "jenkinsSource client job build off n =
     (case SourceFetch client job build off n of Inl e \<Rightarrow> Inl (mapFetchErr e) | Inr x \<Rightarrow> Inr x)"

end
