(* ===== verification/JenkinsLogsCorrect.thy ===== *)
theory JenkinsLogsCorrect
  imports JenkinsLogs LogMirrorCorrect
begin

text \<open>
  Jenkins as the source of the mirror: when the server sends the log from the offset on, the fetch is what the
  mirror needs of a source, with and without the header that tells the size.
\<close>

section \<open>A server of a log\<close>

text \<open>A response to a request at an offset the log has reached is the rest of the log so far: \<open>m\<close> bytes, told in
  the size header if there is one; without the header that more is to come a finished log is all there.\<close>

definition serves :: "string \<Rightarrow> bool \<Rightarrow> string \<Rightarrow> int \<Rightarrow> (string \<Rightarrow> goerr + Response) \<Rightarrow> bool" where
  "serves X finished job build call \<longleftrightarrow>
     (\<forall>off resp. 0 \<le> off \<and> off \<le> int (length X) \<and> call (progressivePath (BuildJobPath job) build off) = Inr resp \<and> rs_Status resp = 200 \<longrightarrow>
        (\<exists>m. off \<le> int m \<and> m \<le> length X \<and> rs_Body resp = drop (nat off) (take m X) \<and>
             (rs_TextSize resp = [] \<or> ParseInt64 (rs_TextSize resp) = Some (int m)) \<and>
             (finished \<and> rs_MoreData resp \<noteq> ''true'' \<longrightarrow> m = length X)))"

lemma readLimited_take: "readLimited resp n = Inr b \<Longrightarrow> 0 \<le> n \<Longrightarrow> b = take (nat n) (rs_Body resp)"
  by (auto simp: readLimited_def Let_def split: option.splits if_splits)

text \<open>Nothing is ever cut at a rune: the read has no slack.\<close>

lemma fetch_result:
  assumes "fetchProgressiveRange call job build path off len (- 1) = Inr logs" and "0 < len"
  shows "\<exists>resp. call (progressivePath path build off) = Inr resp \<and> rs_Status resp = 200 \<and>
    bl_Logs logs = take (nat len) (rs_Body resp) \<and>
    bl_TotalSize logs = (case ParseInt64 (rs_TextSize resp) of Some sz \<Rightarrow> if rs_TextSize resp = [] then off + int (length (bl_Logs logs)) else sz
                         | None \<Rightarrow> off + int (length (bl_Logs logs))) \<and>
    bl_HasMore logs = (rs_MoreData resp = ''true'' \<or>
      (if rs_TextSize resp = [] then int (length (bl_Logs logs)) = len
       else case ParseInt64 (rs_TextSize resp) of Some sz \<Rightarrow> off + int (length (bl_Logs logs)) < sz | None \<Rightarrow> False))"
proof -
  obtain resp where resp: "call (progressivePath path build off) = Inr resp" and st: "statusErr job build resp = None"
    using assms(1) by (auto simp: fetchProgressiveRange_def split: sum.splits option.splits)
  have ok: "rs_Status resp = 200" using st by (auto simp: statusErr_def split: if_splits)
  have lim: "progressiveLimit len = len" using assms(2) by (simp add: progressiveLimit_def progressiveReadSlack_def)
  obtain b where b: "readLimited resp len = Inr b"
    using assms(1) resp st lim by (auto simp: fetchProgressiveRange_def split: sum.splits)
  have data: "b = take (nat len) (rs_Body resp)" using readLimited_take [OF b] assms(2) by simp
  have short: "\<not> int (length b) > len" using data assms(2) by simp
  show ?thesis
    by (rule exI [of _ resp])
      (use assms resp st ok b short in \<open>auto simp: fetchProgressiveRange_def lim data Let_def split: option.splits if_splits\<close>)
qed

text \<open>C14: the progressive fetch of Jenkins is what the mirror needs of a source. Whenever the server sends the log
  from the asked offset on, with or without the header of its size (one that parses), and says truly whether more
  is to come, the bytes, the size and the flag handed to the mirror are honest: the bytes are those of the log at
  the offset, no more than were asked for, a size is never less than what was sent, and once the build has
  finished the fetch claims the end only at the end of the log. (The bounded reads of the fetch may cut a
  response anywhere.)\<close>

theorem jenkins_source_is_honest:
  assumes "serves X finished job build call"
  shows "honest X finished (jenkinsSource (Some call) job build)"
  unfolding honest_def
proof (intro allI impI, elim conjE)
  fix off n data rep mo
  assume off: "0 \<le> off" "off \<le> int (length X)" "0 < n" and src: "jenkinsSource (Some call) job build off n = Inr (data, rep, mo)"
  let ?len = "if n > MaxLogReadBytes then MaxLogReadBytes else n"
  obtain logs where logs: "fetchProgressiveRange call job build (BuildJobPath job) off ?len (- 1) = Inr logs"
    "data = bl_Logs logs" "rep = bl_TotalSize logs" "mo = bl_HasMore logs"
    using src off by (auto simp: jenkinsSource_def SourceFetch_def GetBuildLogs_def validateNonNegativeOffsetLength_def split: sum.splits if_splits)
  have len: "0 < ?len" using off(3) by (simp add: MaxLogReadBytes_def)
  from fetch_result [OF logs(1) len] obtain resp where resp: "call (progressivePath (BuildJobPath job) build off) = Inr resp" "rs_Status resp = 200"
    and d: "data = take (nat ?len) (rs_Body resp)"
    and rep: "rep = (case ParseInt64 (rs_TextSize resp) of Some sz \<Rightarrow> if rs_TextSize resp = [] then off + int (length data) else sz
                     | None \<Rightarrow> off + int (length data))"
    and mo: "mo = (rs_MoreData resp = ''true'' \<or> (if rs_TextSize resp = [] then int (length data) = ?len
       else case ParseInt64 (rs_TextSize resp) of Some sz \<Rightarrow> off + int (length data) < sz | None \<Rightarrow> False))"
    unfolding logs(2-4) by blast
  from assms off resp obtain m where m: "off \<le> int m" "m \<le> length X" "rs_Body resp = drop (nat off) (take m X)"
    "rs_TextSize resp = [] \<or> ParseInt64 (rs_TextSize resp) = Some (int m)" "finished \<and> rs_MoreData resp \<noteq> ''true'' \<longrightarrow> m = length X"
    unfolding serves_def by blast
  have "prefix data (rs_Body resp)" unfolding d by (rule take_is_prefix)
  moreover have "prefix (rs_Body resp) (drop (nat off) X)" unfolding m(3) by (simp add: drop_take take_is_prefix)
  ultimately have pre: "prefix data (drop (nat off) X)" by (rule prefix_order.trans)
  have body: "int (length (rs_Body resp)) = int m - off" using m(1,2) off(1) by (simp add: m(3))
  have size: "off + int (length data) \<le> rep"
  proof (cases "rs_TextSize resp = []")
    case True
    then show ?thesis using rep by (simp split: option.splits)
  next
    case False
    then have "rep = int m" using rep m(4) by simp
    then show ?thesis using body unfolding d by simp
  qed
  have done_: "data = drop (nat off) X" if "finished" "\<not> mo" "rep \<le> off + int (length data)"
  proof -
    have m': "m = length X" using m(5) that(1,2) mo by simp
    have all: "data = rs_Body resp"
    proof (cases "rs_TextSize resp = []")
      case True
      then have "int (length data) \<noteq> ?len" using mo that(2) by simp
      then have "length (rs_Body resp) \<le> nat ?len" using len unfolding d by (simp split: if_splits)
      then show ?thesis unfolding d by simp
    next
      case False
      then have "int m \<le> off + int (length data)" using rep m(4) that(3) by simp
      then have "length (rs_Body resp) \<le> nat ?len" using body unfolding d by simp
      then show ?thesis unfolding d by simp
    qed
    then show ?thesis using m(3) m' by simp
  qed
  have few: "int (length data) \<le> n"
  proof -
    have "length data \<le> nat ?len" unfolding d by simp
    moreover have "?len \<le> n" by simp
    ultimately show ?thesis using len by linarith
  qed
  show "prefix data (drop (nat off) X) \<and> int (length data) \<le> n \<and> (rep = - 1 \<or> rep = 0 \<and> data \<noteq> [] \<or> off + int (length data) \<le> rep) \<and>
    (finished \<and> \<not> mo \<and> rep \<le> off + int (length data) \<longrightarrow> data = drop (nat off) X)"
    using pre few size done_ by blast
qed

text \<open>A server with a log of two bytes that tells no size.\<close>

definition exCall :: "string \<Rightarrow> goerr + Response" where
  "exCall path =
     (if path = progressivePath (BuildJobPath ''j'') 1 0 then
        Inr \<lparr> rs_Status = 200, rs_TextSize = [], rs_MoreData = [], rs_Body = ''ab'', rs_Breaks = None \<rparr>
      else Inl ((''not asked'', []), None))"

lemma exCall_serves: "serves ''ab'' True ''j'' 1 exCall"
  unfolding serves_def
proof (intro allI impI, elim conjE)
  fix off resp
  assume off: "0 \<le> off" and call: "exCall (progressivePath (BuildJobPath ''j'') 1 off) = Inr resp"
  then have "show_int off = show_int 0" by (simp add: exCall_def progressivePath_def split: if_splits)
  then have "off = 0" using off show_int_inj_pos [of off 0] by simp
  then show "\<exists>m. off \<le> int m \<and> m \<le> length ''ab'' \<and> rs_Body resp = drop (nat off) (take m ''ab'') \<and>
      (rs_TextSize resp = [] \<or> ParseInt64 (rs_TextSize resp) = Some (int m)) \<and>
      (True \<and> rs_MoreData resp \<noteq> ''true'' \<longrightarrow> m = length ''ab'')"
    using call by (intro exI [of _ "2"]) (auto simp: exCall_def)
qed

theorem jenkins_source_is_honest_witness:
  "honest ''ab'' True (jenkinsSource (Some exCall) ''j'' 1) \<and> jenkinsSource (Some exCall) ''j'' 1 0 10 = Inr (''ab'', 2, False)"
proof
  show "honest ''ab'' True (jenkinsSource (Some exCall) ''j'' 1)" by (rule jenkins_source_is_honest [OF exCall_serves])
  show "jenkinsSource (Some exCall) ''j'' 1 0 10 = Inr (''ab'', 2, False)" by code_simp
qed

end
