(* ===== verification/Spec2Isabelle.thy ===== *)
theory Spec2Isabelle
  imports Enforce PatternBraces Limits ResilienceCorrect FillLeaseCorrect FleetPurge FleetLiveness
    LogMirrorRuns JenkinsLogsCorrect
begin

text \<open>
  Verification of the core of \<open>go-jenkins-mcp\<close>: an MCP server that lets an assistant read from, and
  under tight conditions write to, a Jenkins controller.

  \<^bold>\<open>The program.\<close> A tool call enters \<open>internal/tools\<close> and meets three checks before anything
  reaches Jenkins: the tool middleware and the request guard of \<open>internal/policy/enforce.go\<close>, which
  ask the deny-only evaluator of \<open>internal/policy/rbac.go\<close>; and, for a write, the read-only gate of
  \<open>internal/policy/readonly.go\<close> with the preview/confirm manager of \<open>internal/mutation/manager.go\<close>.
  The evaluator's document is merged from the local policy, the enterprise overlay
  (\<open>overlay.go\<close>) and its per-user and per-group bindings (\<open>bindings.go\<close>); its rules are glob
  patterns (\<open>jobpattern.go\<close>). Requests that pass are sent by \<open>internal/jenkins/client.go\<close> through a
  concurrency limit, a circuit breaker and a retry loop (\<open>resilience.go\<close>). Limits of both layers are
  resolved from flags and environment at start (\<open>resolve_*.go\<close>, \<open>cmd/jenkins-mcp/main.go\<close>).
  Console logs are kept in a local store (\<open>internal/store\<close>) as independently compressed and encrypted
  frames with rows in SQLite: the mirror of \<open>internal/logmirror\<close> follows the progressive console log of a
  build, detects rewritten logs and seals complete ones, and tools read byte and line ranges. A fleet of servers shares sealed logs (\<open>internal/fleetcache\<close>): one member
  fills a log from Jenkins under a lease, publishes a manifest of its frames, and peers import or
  replicate the frames into their own stores; purges leave tombstones; a store recovers at start-up.

  \<^bold>\<open>The theories.\<close>
  \<^item> \<open>Prelude\<close>: Go byte strings and the functions of package \<open>strings\<close>, number printing, the
    error taxonomy of \<open>internal/apperr\<close>; the locale \<open>invariant_system\<close> (a step function, an invariant
    each step keeps) and the locale of the bounded purge loops. \<open>GoTime\<close>: durations, 64-bit
    wrap-around, \<open>ParseInt\<close>, \<open>ParseDuration\<close>. \<open>Sha256\<close>: the hash, executable.
  \<^item> \<open>Pattern\<close>, \<open>PatternCorrect\<close>, \<open>PatternBraces\<close>: \<open>internal/policy/jobpattern.go\<close>. Both dynamic
    programs are modelled row by row (locale \<open>glob_rows\<close>) and proved equal to the declarative
    \<open>glob_spec\<close>; brace expansion computes the choices of the tree of alternatives it spells;
    load-time validation accepts exactly what match-time parses; names with the same URL match alike.
  \<^item> \<open>Overlay\<close>: \<open>overlay.go\<close> and \<open>bindings.go\<close>, the documents as records, validation, accessors.
  \<^item> \<open>ReadOnly\<close>: the gate and its sources (\<open>readonly.go\<close>), tool effects (\<open>effect.go\<close>), request
    classes (\<open>internal/jenkins/requestclass.go\<close>). The most restrictive source wins.
  \<^item> \<open>Rbac\<close>, \<open>RbacCorrect\<close>: subjects, targets, decisions, the ordered rules of \<open>DenyOnly\<close>, binding
    merge, list privacy. The rules agree with a declarative reading of which patterns apply;
    bindings only restrict; a hidden row is one whose direct read is denied.
  \<^item> \<open>Enforce\<close>: \<open>enforce.go\<close>, over the locale \<open>policy_evaluator\<close> which both evaluators interpret.
  \<^item> \<open>MutationParams\<close>: parameters, fingerprints and target hashes (\<open>params.go\<close>, \<open>validate.go\<close>).
  \<^item> \<open>Mutation\<close>, \<open>MutationCorrect\<close>: the manager of \<open>manager.go\<close>: its state is the record
    \<open>Manager\<close>, and \<open>Preview\<close> and \<open>Confirm\<close> are composed of the code's critical sections.
    \<open>MutationSteps\<close>: these sections as steps of any number of goroutines, with invariants of
    every interleaving (provenance and single use of tokens, cooldown, preview rate).
    \<open>MutationGate\<close>: the properties, of interleavings and of single calls.
  \<^item> \<open>Resilience\<close>, \<open>ResilienceCorrect\<close>: \<open>resilience.go\<close> and \<open>callJenkins\<close>: breaker, semaphore,
    backoff and the attempt loop, then the same as a machine of concurrent calls.
  \<^item> \<open>Limits\<close>: the ten resolvers (locale \<open>operator_limit\<close>, one interpretation each), the setters and
    the part of the serve command that installs them.
  \<^item> \<open>Contracts\<close>: \<open>internal/contracts\<close>, the references of tool arguments and their parsers.
  \<^item> \<open>FleetManifest\<close>, \<open>FleetManifestCorrect\<close>: \<open>locator.go\<close>, \<open>manifest.go\<close>, \<open>object_class.go\<close>,
    \<open>protocol.go\<close>, \<open>publish.go\<close>. An accepted manifest partitions the bytes and lines of the log; digests
    identify manifests up to collisions of the hash.
  \<^item> \<open>FillLease\<close>, \<open>FillLeaseCorrect\<close>: the lease authority of \<open>fill_lease.go\<close> and the coordination of
    \<open>fill_coord.go\<close> as a machine of critical sections; invariants of every interleaving.
  \<^item> \<open>FleetPurge\<close>: \<open>purge.go\<close>, tombstones, plans and their application.
  \<^item> \<open>StoreCrypto\<close>: \<open>store/crypto/aead.go\<close> and \<open>frame_crypto.go\<close>; what is sealed is opened, also after a
    rotation of the key.
  \<^item> \<open>FleetStore\<close>: the tables of generations, chunks, mappings and journals, frame files and the import of a
    frame. \<open>FleetImport\<close>: \<open>partition.go\<close>, \<open>import.go\<close>, \<open>replicate.go\<close>, over any sink. \<open>PeerImport\<close>: the sink
    of the local store (\<open>peer_import.go\<close>, \<open>fleet_mapping.go\<close>). \<open>FleetRecover\<close>: \<open>fleet_recover.go\<close> and
    \<open>recover.go\<close>.
  \<^item> \<open>ImportSinks\<close>: the contract of a sink (locales \<open>import_sink\<close>, \<open>resumable_sink\<close>) and the correctness of
    \<open>RunImport\<close> and \<open>ReplicateSealed\<close> against it. \<open>PeerImportCorrect\<close>, \<open>PeerResume\<close> and
    \<open>PeerPublished\<close> interpret it on the local store. \<open>FleetRecoverCorrect\<close>: the verdict of the health check
    and the effect of a recovery.
  \<^item> \<open>FleetHistory\<close>: histories of imports, replications, quarantines, recoveries and restarts of a store, and
    the properties of all of them. \<open>FleetLiveness\<close>: what a run without failures does, and a sample run.
  \<^item> \<open>FrameReader\<close>, \<open>FrameWriter\<close>: \<open>store/frame_reader.go\<close>, \<open>frame_writer.go\<close> and the queries of
    \<open>chunk_meta.go\<close>. \<open>FrameLog\<close>: the frames of a generation tile an abstract log of bytes, and a read of a
    range is a slice of it. \<open>FrameLines\<close>: lines against the list \<open>log_lines\<close>. \<open>FrameWriterCorrect\<close>: the writer keeps
    a durable log and a buffer, whatever fails; a log whose first frames are lost is read shifted.
  \<^item> \<open>LogMirror\<close>, \<open>LogAccess\<close>: \<open>internal/logmirror/machine.go\<close>, \<open>access.go\<close>, \<open>stagekey.go\<close> and the members of
    \<open>collection.go\<close>. \<open>LogMirrorCorrect\<close>: each operation by what it does to the durable log, the buffer and
    the row of the generation. \<open>LogAccessCorrect\<close>: mirroring within budgets. \<open>LogMirrorRuns\<close>: runs of the
    mirror over an honest source and what is read after them.
  \<^item> \<open>JenkinsLogs\<close>, \<open>JenkinsLogsCorrect\<close>: \<open>internal/jenkins/client_logs.go\<close>, \<open>bodylimit.go\<close> and
    \<open>logmirror/source.go\<close>, and that they make such a source.

  \<^bold>\<open>Correspondence.\<close> Definitions carry the Go names; a struct is a record with prefixed fields, a
  pointer that may be nil an option, an error the left of a sum (or \<open>Some\<close> when nothing else is
  returned). A critical section is one function on the state; what an operation reads from
  outside (each clock reading, random bytes, map iteration order, context hooks, what the network
  does) is an argument. Instants and durations are integers in nanoseconds, and \<open>wrap64\<close> is written out
  where an overflow is reachable. Loops are structural recursion or \<open>function\<close> with a measure; no
  definition uses fuel except brace expansion, whose bound is the source's own limit on the number
  of expansions, and the loops over attempts and polls, whose bounds are the source's own.

  A table of SQLite is the list of its rows, a transaction one function, and a failed constraint a failed
  statement. Failures are functions from the call and the statement (or system call) to whether it fails,
  so a theorem about all of them covers every pattern of failures and cancellations. Zstandard and
  AES-GCM are arguments; the only law used of them is that opening undoes sealing. Collisions of SHA-256
  are excluded by hypothesis (\<open>agrees\<close>) where they matter, never by a false law about the hash.

  \<^bold>\<open>Not modelled.\<close> HTTP, metrics, logging and message redaction; case mapping outside
  ASCII; HTTP dates in \<open>Retry-After\<close>; the random source. Operations on one store run one after another
  (its writers hold a lock); JSON decoding of what peers send is left out. The remaining packages (gateway,
  archive packs, authentication, tools) are not modelled. Of the mirror, the lock of a key makes a call
  one step; reads from packs are an argument, and the catalogue and goroutines of collections, affinity and
  peers are left out.
\<close>

end
